(* ===== verification/Prelude.thy ===== *)
theory Prelude
  imports
    Main
    "HOL-Library.Char_ord"
    "HOL-Library.List_Lexorder"
    "HOL-Library.Product_Lexorder"
    "HOL-Library.Sublist"
    "HOL-Library.Multiset"
begin

section \<open>Shared vocabulary: results, tables, ordered lists\<close>

text \<open>
  What every component of the development shares. A fallible Go function returns
  a value of the sum type \<open>'e + 'a\<close>, the error on the left; \<open>rbind\<close> is the
  \<open>if err != nil { return err }\<close> idiom. A database table is a list of rows, and
  the SQL statements of the sources become \<open>update_where\<close>, \<open>delete_where\<close>,
  \<open>count_where\<close> and \<open>List.find\<close> over it. The lemmas below are the facts about those
  combinators and about rewriting orders that the component proofs rely on.
\<close>

named_theorems table_simps \<open>rewriting the SQL table combinators\<close>
named_theorems result_simps \<open>taking a successful or failed result apart\<close>

type_synonym ('e, 'a) result = "'e + 'a"

definition rbind :: "('e, 'a) result \<Rightarrow> ('a \<Rightarrow> ('e, 'b) result) \<Rightarrow> ('e, 'b) result" where
  "rbind m f = (case m of Inl e \<Rightarrow> Inl e | Inr x \<Rightarrow> f x)"

definition require :: "bool \<Rightarrow> 'e \<Rightarrow> ('e, unit) result" where
  "require c e = (if c then Inr () else Inl e)"

lemma rbind_Inr [simp]: "rbind (Inr x) f = f x"
  by (simp add: rbind_def)

lemma rbind_Inl [simp]: "rbind (Inl e) f = Inl e"
  by (simp add: rbind_def)

lemma rbind_eq_Inr [result_simps]: "rbind m f = Inr y \<longleftrightarrow> (\<exists>x. m = Inr x \<and> f x = Inr y)"
  by (cases m) auto

lemma rbind_eq_Inl [result_simps]:
  "rbind m f = Inl e \<longleftrightarrow> m = Inl e \<or> (\<exists>x. m = Inr x \<and> f x = Inl e)"
  by (cases m) auto

text \<open>Taking a successful run apart, one statement at a time: \<open>(elim rbind_elims)\<close>.\<close>

lemma rbind_InrE: "rbind m f = Inr y \<Longrightarrow> (\<And>x. m = Inr x \<Longrightarrow> f x = Inr y \<Longrightarrow> R) \<Longrightarrow> R"
  by (cases m) auto

lemma rbind_pair_InrE:
  "rbind m (\<lambda>(a, b). f a b) = Inr y \<Longrightarrow> (\<And>a b. m = Inr (a, b) \<Longrightarrow> f a b = Inr y \<Longrightarrow> R) \<Longrightarrow> R"
  by (cases m) auto

lemma rbind_require_InrE: "rbind (require c e) f = Inr y \<Longrightarrow> (c \<Longrightarrow> f () = Inr y \<Longrightarrow> R) \<Longrightarrow> R"
  by (cases c) (auto simp: require_def)

lemmas rbind_elims = rbind_require_InrE rbind_pair_InrE rbind_InrE

lemma require_eq_Inr [simp, result_simps]: "require c e = Inr u \<longleftrightarrow> c"
  by (simp add: require_def)

lemma require_eq_Inl [simp, result_simps]: "require c e = Inl e' \<longleftrightarrow> \<not> c \<and> e' = e"
  by (auto simp: require_def)

lemma require_True [simp]: "require True e = Inr ()"
  by (simp add: require_def)

lemma require_False [simp]: "require False e = Inl e"
  by (simp add: require_def)

text \<open>A condition on a nullable column.\<close>

primrec opt_all :: "('a \<Rightarrow> bool) \<Rightarrow> 'a option \<Rightarrow> bool" where
  "opt_all P None \<longleftrightarrow> True"
| "opt_all P (Some x) \<longleftrightarrow> P x"

subsection \<open>SQL statements over a table\<close>

text \<open>\<open>QueryRow(...).Scan\<close>: the first matching row, or the error an empty result is turned into.\<close>

definition query_row :: "'e \<Rightarrow> ('a \<Rightarrow> bool) \<Rightarrow> 'a list \<Rightarrow> ('e, 'a) result" where
  "query_row e P rows = (case List.find P rows of None \<Rightarrow> Inl e | Some r \<Rightarrow> Inr r)"

definition update_where :: "('a \<Rightarrow> bool) \<Rightarrow> ('a \<Rightarrow> 'a) \<Rightarrow> 'a list \<Rightarrow> 'a list" where
  "update_where P f rows = map (\<lambda>r. if P r then f r else r) rows"

definition delete_where :: "('a \<Rightarrow> bool) \<Rightarrow> 'a list \<Rightarrow> 'a list" where
  "delete_where P rows = filter (\<lambda>r. \<not> P r) rows"

definition count_where :: "('a \<Rightarrow> bool) \<Rightarrow> 'a list \<Rightarrow> int" where
  "count_where P rows = int (length (filter P rows))"

definition sum_where :: "('a \<Rightarrow> bool) \<Rightarrow> ('a \<Rightarrow> int) \<Rightarrow> 'a list \<Rightarrow> int" where
  "sum_where P v rows = sum_list (map v (filter P rows))"

lemma update_where_Nil [simp]: "update_where P f [] = []"
  by (simp add: update_where_def)

lemma update_where_Cons [simp]:
  "update_where P f (r # rows) = (if P r then f r else r) # update_where P f rows"
  by (simp add: update_where_def)

lemma length_update_where [simp]: "length (update_where P f rows) = length rows"
  by (simp add: update_where_def)

lemma set_update_where [table_simps]:
  "set (update_where P f rows) = (\<lambda>r. if P r then f r else r) ` set rows"
  by (simp add: update_where_def)

lemma update_where_hit: "r \<in> set rows \<Longrightarrow> P r \<Longrightarrow> f r \<in> set (update_where P f rows)"
  by (induction rows) auto

lemma update_where_miss: "r \<in> set rows \<Longrightarrow> \<not> P r \<Longrightarrow> r \<in> set (update_where P f rows)"
  by (induction rows) auto

lemma map_update_where [table_simps]:
  assumes "\<And>r. P r \<Longrightarrow> k (f r) = k r"
  shows "map k (update_where P f rows) = map k rows"
  using assms by (simp add: update_where_def)

lemma set_delete_where [simp, table_simps]: "set (delete_where P rows) = {r \<in> set rows. \<not> P r}"
  by (simp add: delete_where_def)

lemma count_where_Nil [simp]: "count_where P [] = 0"
  by (simp add: count_where_def)

lemma count_where_Cons [simp]:
  "count_where P (r # rows) = (if P r then 1 else 0) + count_where P rows"
  by (simp add: count_where_def)

lemma count_where_append [simp]: "count_where P (xs @ ys) = count_where P xs + count_where P ys"
  by (simp add: count_where_def)

lemma count_where_nonneg [simp]: "0 \<le> count_where P rows"
  by (simp add: count_where_def)

lemma sum_where_Nil [simp]: "sum_where P v [] = 0"
  by (simp add: sum_where_def)

lemma sum_where_Cons [simp]:
  "sum_where P v (r # rows) = (if P r then v r else 0) + sum_where P v rows"
  by (simp add: sum_where_def)

lemma sum_where_append [simp]: "sum_where P v (xs @ ys) = sum_where P v xs + sum_where P v ys"
  by (simp add: sum_where_def)

lemma sum_where_nonneg: "(\<And>r. r \<in> set rows \<Longrightarrow> 0 \<le> v r) \<Longrightarrow> 0 \<le> sum_where P v rows"
  by (induction rows) auto

lemma count_as_sum: "count_where P rows = sum_where P (\<lambda>_. 1) rows"
  by (induction rows) auto

text \<open>Deleting the rows that satisfy \<open>D\<close> takes exactly their contribution out of a sum.\<close>

lemma sum_where_delete:
  "sum_where P v (delete_where D rows) = sum_where P v rows - sum_where (\<lambda>r. P r \<and> D r) v rows"
  by (induction rows) (auto simp: delete_where_def)

lemma count_where_delete:
  "count_where P (delete_where D rows) = count_where P rows - count_where (\<lambda>r. P r \<and> D r) rows"
  by (simp add: count_as_sum sum_where_delete)

lemma sum_where_update:
  assumes "\<And>r. r \<in> set rows \<Longrightarrow> Q r \<Longrightarrow> P (f r) = P r \<and> v (f r) = v r"
  shows "sum_where P v (update_where Q f rows) = sum_where P v rows"
  using assms by (induction rows) auto

lemma count_where_update:
  assumes "\<And>r. r \<in> set rows \<Longrightarrow> Q r \<Longrightarrow> P (f r) = P r"
  shows "count_where P (update_where Q f rows) = count_where P rows"
  using assms by (simp add: count_as_sum sum_where_update)

lemma sum_where_cong:
  assumes "\<And>r. r \<in> set rows \<Longrightarrow> P r = Q r" and "\<And>r. r \<in> set rows \<Longrightarrow> Q r \<Longrightarrow> v r = w r"
  shows "sum_where P v rows = sum_where Q w rows"
  using assms by (induction rows) auto

lemma count_where_cong:
  "(\<And>r. r \<in> set rows \<Longrightarrow> P r = Q r) \<Longrightarrow> count_where P rows = count_where Q rows"
  by (induction rows) auto

lemma distinct_map_delete_where: "distinct (map k rows) \<Longrightarrow> distinct (map k (delete_where P rows))"
  by (simp add: delete_where_def distinct_map_filter)

text \<open>A lookup by a unique key finds the row it should.\<close>

lemma find_SomeD: "List.find P rows = Some r \<Longrightarrow> r \<in> set rows \<and> P r"
  by (induction rows) (auto split: if_splits)

lemma find_NoneD: "List.find P rows = None \<Longrightarrow> r \<in> set rows \<Longrightarrow> \<not> P r"
  by (induction rows) (auto split: if_splits)

lemma query_row_InrD: "query_row e P rows = Inr r \<Longrightarrow> r \<in> set rows \<and> P r"
  by (auto simp: query_row_def split: option.splits dest: find_SomeD)

lemma query_row_InlD: "query_row e P rows = Inl e' \<Longrightarrow> e' = e \<and> (\<forall>r \<in> set rows. \<not> P r)"
  by (auto simp: query_row_def split: option.splits dest: find_NoneD)

lemma query_row_eq_Inl [simp]: "query_row e P rows = Inl e' \<longleftrightarrow> e' = e \<and> (\<forall>r \<in> set rows. \<not> P r)"
  by (auto simp: query_row_def find_None_iff split: option.splits dest: find_SomeD)

lemma find_unique_key:
  assumes "distinct (map k rows)" and "r \<in> set rows" and "\<And>x. P x \<Longrightarrow> k x = k r" and "P r"
  shows "List.find P rows = Some r"
proof (cases "List.find P rows")
  case None
  then show ?thesis using assms by (auto simp: find_None_iff)
next
  case (Some x)
  then have "x \<in> set rows" and "P x" by (auto dest: find_SomeD)
  then have "x = r" using assms by (metis distinct_map inj_onD)
  with Some show ?thesis by simp
qed

lemma query_row_unique:
  assumes "distinct (map k rows)" and "r \<in> set rows" and "\<And>x. P x \<Longrightarrow> k x = k r" and "P r"
  shows "query_row e P rows = Inr r"
proof -
  have "List.find P rows = Some r" by (rule find_unique_key [where k = k]) (fact assms)+
  then show ?thesis by (simp add: query_row_def)
qed

lemma distinct_key_inj:
  "distinct (map k rows) \<Longrightarrow> x \<in> set rows \<Longrightarrow> y \<in> set rows \<Longrightarrow> k x = k y \<Longrightarrow> x = y"
  by (meson distinct_map inj_onD)

end
