(* ===== verification/GoStrings.thy ===== *)
theory GoStrings
  imports Prelude
begin

section \<open>The string operations the Go sources use\<close>

text \<open>
  A Go string is a byte sequence: \<open>string\<close>, a \<open>char\<close> being one byte, with \<open>len\<close> as
  \<open>length\<close>. This theory holds \<open>strings.TrimSpace\<close> (\<open>clean\<close> of the boards store), \<open>strings.TrimRight\<close>,
  the three UUID validators (\<open>validUUID\<close> of the store and of the CLI, \<open>validUUIDText\<close>
  used on cursors), the calendar check behind \<open>validDate\<close> and \<open>strings.EqualFold\<close> on
  ASCII text. The lemmas show that trimming is idempotent and never grows a string and
  that the validators accept the same identifiers.
\<close>

subsection \<open>strings.TrimSpace\<close>

text \<open>
  The UTF-8 encodings of the runes \<open>unicode.IsSpace\<close> accepts. Every such encoding
  starts with a lead byte, so decoding from either end finds it exactly when its bytes
  are a prefix, respectively a suffix.
\<close>

definition space_runes :: "string list" where
  "space_runes =
     [[CHR 0x09], [CHR 0x0A], [CHR 0x0B], [CHR 0x0C], [CHR 0x0D], [CHR 0x20],
      [CHR 0xC2, CHR 0x85], [CHR 0xC2, CHR 0xA0], [CHR 0xE1, CHR 0x9A, CHR 0x80],
      [CHR 0xE2, CHR 0x80, CHR 0x80], [CHR 0xE2, CHR 0x80, CHR 0x81],
      [CHR 0xE2, CHR 0x80, CHR 0x82], [CHR 0xE2, CHR 0x80, CHR 0x83],
      [CHR 0xE2, CHR 0x80, CHR 0x84], [CHR 0xE2, CHR 0x80, CHR 0x85],
      [CHR 0xE2, CHR 0x80, CHR 0x86], [CHR 0xE2, CHR 0x80, CHR 0x87],
      [CHR 0xE2, CHR 0x80, CHR 0x88], [CHR 0xE2, CHR 0x80, CHR 0x89],
      [CHR 0xE2, CHR 0x80, CHR 0x8A], [CHR 0xE2, CHR 0x80, CHR 0xA8],
      [CHR 0xE2, CHR 0x80, CHR 0xA9], [CHR 0xE2, CHR 0x80, CHR 0xAF],
      [CHR 0xE2, CHR 0x81, CHR 0x9F], [CHR 0xE3, CHR 0x80, CHR 0x80]]"

fun strip_one :: "string list \<Rightarrow> string \<Rightarrow> string option" where
  "strip_one [] s = None"
| "strip_one (p # ps) s =
     (if p \<noteq> [] \<and> take (length p) s = p then Some (drop (length p) s) else strip_one ps s)"

lemma strip_one_length: "strip_one ps s = Some s' \<Longrightarrow> length s' < length s"
proof (induction ps)
  case (Cons p ps)
  show ?case
  proof (cases "p \<noteq> [] \<and> take (length p) s = p")
    case True
    then have fits: "length p \<le> length s" and pos: "0 < length p"
      by (metis length_take min.cobounded2 min.commute, simp)
    from True Cons.prems have "s' = drop (length p) s" by simp
    then have "length s' = length s - length p" by simp
    with fits pos show ?thesis by linarith
  next
    case False
    then show ?thesis using Cons by (auto split: if_splits)
  qed
qed simp

function trim_with :: "string list \<Rightarrow> string \<Rightarrow> string" where
  "trim_with ps s = (case strip_one ps s of None \<Rightarrow> s | Some s' \<Rightarrow> trim_with ps s')"
  by pat_completeness auto
termination
  by (relation "measure (\<lambda>(ps, s). length s)") (auto dest: strip_one_length)

declare trim_with.simps [simp del]

definition TrimSpace :: "string \<Rightarrow> string" where
  "TrimSpace s = rev (trim_with (map rev space_runes) (rev (trim_with space_runes s)))"

definition clean :: "string \<Rightarrow> string" where
  "clean value = TrimSpace value"

lemma trim_with_None: "strip_one ps s = None \<Longrightarrow> trim_with ps s = s"
  by (simp add: trim_with.simps)

lemma strip_one_trim_with: "strip_one ps (trim_with ps s) = None"
proof (induction ps s rule: trim_with.induct)
  case (1 ps s)
  then show ?case by (cases "strip_one ps s") (simp_all add: trim_with.simps [of ps s])
qed

lemma strip_one_drop: "strip_one ps s = Some s' \<Longrightarrow> \<exists>n. s' = drop n s"
  by (induction ps) (auto split: if_splits)

lemma trim_with_drop: "\<exists>n. trim_with ps s = drop n s"
proof (induction ps s rule: trim_with.induct)
  case (1 ps s)
  show ?case
  proof (cases "strip_one ps s")
    case None
    then have "trim_with ps s = drop 0 s" by (simp add: trim_with_None)
    then show ?thesis ..
  next
    case (Some s')
    then obtain m k where "s' = drop m s" and "trim_with ps s' = drop k s'"
      using 1 strip_one_drop by metis
    with Some have "trim_with ps s = drop (k + m) s"
      by (simp add: trim_with.simps [of ps s])
    then show ?thesis ..
  qed
qed

lemma strip_one_None_take: "strip_one ps s = None \<Longrightarrow> strip_one ps (take n s) = None"
proof (induction ps)
  case (Cons p ps)
  have "take (length p) (take n s) = p \<Longrightarrow> take (length p) s = p"
    by (metis append_take_drop_id length_take min_def nat_le_linear take_all_iff take_take)
  with Cons show ?case by (auto split: if_splits)
qed simp

lemma TrimSpace_shape: "\<exists>i j. TrimSpace s = take j (drop i s)"
proof -
  obtain i where i: "trim_with space_runes s = drop i s" using trim_with_drop by blast
  define l where "l = drop i s"
  obtain k where "trim_with (map rev space_runes) (rev l) = drop k (rev l)"
    using trim_with_drop by blast
  with i have "TrimSpace s = take (length l - k) l"
    by (simp add: TrimSpace_def l_def [symmetric] rev_drop)
  then show ?thesis using l_def by blast
qed

lemma length_TrimSpace: "length (TrimSpace s) \<le> length s"
  using TrimSpace_shape [of s] by auto

lemma length_clean: "length (clean s) \<le> length s"
  by (simp add: clean_def length_TrimSpace)

lemma TrimSpace_idem: "TrimSpace (TrimSpace s) = TrimSpace s"
proof -
  define l where "l = trim_with space_runes s"
  have right: "strip_one (map rev space_runes) (rev (TrimSpace s)) = None"
    by (simp add: TrimSpace_def strip_one_trim_with)
  obtain k where "trim_with (map rev space_runes) (rev l) = drop k (rev l)"
    using trim_with_drop by blast
  then have "TrimSpace s = take (length l - k) l"
    by (simp add: TrimSpace_def l_def rev_drop)
  then have "strip_one space_runes (TrimSpace s) = None"
    by (simp add: l_def strip_one_None_take strip_one_trim_with)
  then have "trim_with space_runes (TrimSpace s) = TrimSpace s"
    by (rule trim_with_None)
  then show ?thesis
    using trim_with_None [OF right] by (simp add: TrimSpace_def)
qed

lemma clean_idem [simp]: "clean (clean s) = clean s"
  by (simp add: clean_def TrimSpace_idem)

subsection \<open>strings.TrimRight with one byte\<close>

definition TrimRight :: "string \<Rightarrow> char \<Rightarrow> string" where
  "TrimRight s c = rev (dropWhile (\<lambda>d. d = c) (rev s))"

subsection \<open>UUID text\<close>

definition hex_byte :: "char \<Rightarrow> bool" where
  "hex_byte c \<longleftrightarrow> (CHR ''0'' \<le> c \<and> c \<le> CHR ''9'') \<or> (CHR ''a'' \<le> c \<and> c \<le> CHR ''f'')
     \<or> (CHR ''A'' \<le> c \<and> c \<le> CHR ''F'')"

definition hyphen_at :: "nat \<Rightarrow> bool" where
  "hyphen_at i \<longleftrightarrow> i = 8 \<or> i = 13 \<or> i = 18 \<or> i = 23"

text \<open>\<open>validUUID\<close> of the boards store: one pass over the runes, switching on the index.\<close>

definition validUUID :: "string \<Rightarrow> bool" where
  "validUUID value \<longleftrightarrow> length value = 36 \<and>
     list_all (\<lambda>i. if hyphen_at i then value ! i = CHR ''-'' else hex_byte (value ! i)) [0..<36]"

text \<open>\<open>validUUID\<close> of the CLI: the hyphens are checked first, the loop skips them.\<close>

definition cli_validUUID :: "string \<Rightarrow> bool" where
  "cli_validUUID value \<longleftrightarrow>
     \<not> (length value \<noteq> 36 \<or> value ! 8 \<noteq> CHR ''-'' \<or> value ! 13 \<noteq> CHR ''-''
        \<or> value ! 18 \<noteq> CHR ''-'' \<or> value ! 23 \<noteq> CHR ''-'') \<and>
     list_all (\<lambda>i. hyphen_at i \<or> hex_byte (value ! i)) [0..<36]"

text \<open>\<open>hex.DecodeString\<close> succeeds on even-length text of hex digits.\<close>

definition hex_decodable :: "string \<Rightarrow> bool" where
  "hex_decodable s \<longleftrightarrow> even (length s) \<and> list_all hex_byte s"

definition validUUIDText :: "string \<Rightarrow> bool" where
  "validUUIDText value \<longleftrightarrow>
     \<not> (length value \<noteq> 36 \<or> value ! 8 \<noteq> CHR ''-'' \<or> value ! 13 \<noteq> CHR ''-''
        \<or> value ! 18 \<noteq> CHR ''-'' \<or> value ! 23 \<noteq> CHR ''-'') \<and>
     hex_decodable (take 8 value @ take 4 (drop 9 value) @ take 4 (drop 14 value)
       @ take 4 (drop 19 value) @ drop 24 value)"

lemma list_all_upt: "list_all P [0..<n] \<longleftrightarrow> (\<forall>i<n. P i)"
  by (auto simp: list_all_iff)

lemma validUUID_iff:
  "validUUID v \<longleftrightarrow> length v = 36 \<and>
     (v ! 8 = CHR ''-'' \<and> v ! 13 = CHR ''-'' \<and> v ! 18 = CHR ''-'' \<and> v ! 23 = CHR ''-'') \<and>
     (\<forall>i<36. \<not> hyphen_at i \<longrightarrow> hex_byte (v ! i))" (is "_ \<longleftrightarrow> ?len \<and> ?hyphens \<and> ?hex")
proof -
  have all: "(\<forall>i<36. hyphen_at i \<longrightarrow> v ! i = CHR ''-'') \<longleftrightarrow> ?hyphens"
  proof
    assume all: "\<forall>i<36. hyphen_at i \<longrightarrow> v ! i = CHR ''-''"
    show ?hyphens
      using all [rule_format, of 8] all [rule_format, of 13] all [rule_format, of 18]
        all [rule_format, of 23]
      by (simp add: hyphen_at_def)
  qed (auto simp: hyphen_at_def)
  have "validUUID v \<longleftrightarrow> length v = 36 \<and>
      (\<forall>i<36. hyphen_at i \<longrightarrow> v ! i = CHR ''-'') \<and> ?hex"
    unfolding validUUID_def list_all_upt by metis
  then show ?thesis unfolding all .
qed

lemma cli_validUUID_eq: "cli_validUUID v = validUUID v"
  unfolding cli_validUUID_def validUUID_iff list_all_upt by auto

lemma list_all_take_drop:
  "i + n \<le> length xs \<Longrightarrow> list_all P (take n (drop i xs)) \<longleftrightarrow> (\<forall>j<n. P (xs ! (i + j)))"
  by (auto simp: list_all_length)

lemma nat_less_36_cases:
  "(\<forall>i<36. \<not> hyphen_at i \<longrightarrow> Q i) \<longleftrightarrow>
     (\<forall>j<8. Q j) \<and> (\<forall>j<4. Q (9 + j)) \<and> (\<forall>j<4. Q (14 + j)) \<and> (\<forall>j<4. Q (19 + j)) \<and>
     (\<forall>j<12. Q (24 + j))" (is "?L \<longleftrightarrow> ?R")
proof
  assume ?L then show ?R by (auto simp: hyphen_at_def)
next
  assume R: ?R
  show ?L
  proof (intro allI impI)
    fix i :: nat assume "i < 36" and "\<not> hyphen_at i"
    then consider "i < 8" | "8 < i" "i < 13" | "13 < i" "i < 18" | "18 < i" "i < 23"
      | "23 < i" "i < 36"
      unfolding hyphen_at_def by (metis linorder_neqE_nat)
    then show "Q i"
    proof cases
      case 1 then show ?thesis using R by blast
    next
      case 2 then show ?thesis using spec [of "\<lambda>j. j < 4 \<longrightarrow> Q (9 + j)" "i - 9"] R by simp
    next
      case 3 then show ?thesis using spec [of "\<lambda>j. j < 4 \<longrightarrow> Q (14 + j)" "i - 14"] R by simp
    next
      case 4 then show ?thesis using spec [of "\<lambda>j. j < 4 \<longrightarrow> Q (19 + j)" "i - 19"] R by simp
    next
      case 5 then show ?thesis using spec [of "\<lambda>j. j < 12 \<longrightarrow> Q (24 + j)" "i - 24"] R by simp
    qed
  qed
qed

lemma validUUIDText_eq: "validUUIDText v = validUUID v"
proof (cases "length v = 36")
  case True
  let ?compact = "take 8 v @ take 4 (drop 9 v) @ take 4 (drop 14 v) @ take 4 (drop 19 v) @ drop 24 v"
  have "list_all hex_byte ?compact \<longleftrightarrow> (\<forall>i<36. \<not> hyphen_at i \<longrightarrow> hex_byte (v ! i))"
    using True list_all_take_drop [of 0 8 v hex_byte] list_all_take_drop [of 24 12 v hex_byte]
    by (simp add: nat_less_36_cases list_all_take_drop)
  moreover have "even (length ?compact)"
    using True by simp
  ultimately show ?thesis
    unfolding validUUIDText_def validUUID_iff hex_decodable_def by auto
next
  case False
  then show ?thesis by (simp add: validUUIDText_def validUUID_def)
qed

subsection \<open>strings.EqualFold on ASCII text\<close>

definition lower_byte :: "char \<Rightarrow> char" where
  "lower_byte c = (if CHR ''A'' \<le> c \<and> c \<le> CHR ''Z'' then char_of (of_char c + (32 :: nat)) else c)"

definition EqualFold :: "string \<Rightarrow> string \<Rightarrow> bool" where
  "EqualFold s t \<longleftrightarrow> map lower_byte s = map lower_byte t"

lemma EqualFold_refl [simp]: "EqualFold s s"
  by (simp add: EqualFold_def)

lemma EqualFold_sym: "EqualFold s t \<Longrightarrow> EqualFold t s"
  by (simp add: EqualFold_def)

lemma EqualFold_empty [simp]: "EqualFold [] t \<longleftrightarrow> t = []" "EqualFold s [] \<longleftrightarrow> s = []"
  by (auto simp: EqualFold_def)

subsection \<open>time.Parse with the layout 2006-01-02\<close>

definition digit :: "char \<Rightarrow> bool" where
  "digit c \<longleftrightarrow> CHR ''0'' \<le> c \<and> c \<le> CHR ''9''"

definition digit_value :: "char \<Rightarrow> nat" where
  "digit_value c = of_char c - 48"

definition number_value :: "string \<Rightarrow> nat" where
  "number_value s = foldl (\<lambda>n c. 10 * n + digit_value c) 0 s"

definition leap_year :: "nat \<Rightarrow> bool" where
  "leap_year y \<longleftrightarrow> y mod 4 = 0 \<and> (y mod 100 \<noteq> 0 \<or> y mod 400 = 0)"

definition days_in :: "nat \<Rightarrow> nat \<Rightarrow> nat" where
  "days_in m y = (if m = 2 then if leap_year y then 29 else 28
     else if m \<in> {4, 6, 9, 11} then 30 else 31)"

definition date_only :: "string \<Rightarrow> (nat \<times> nat \<times> nat) option" where
  "date_only s =
     (if length s = 10 \<and> list_all digit (take 4 s) \<and> s ! 4 = CHR ''-''
         \<and> list_all digit (take 2 (drop 5 s)) \<and> s ! 7 = CHR ''-'' \<and> list_all digit (drop 8 s)
      then let y = number_value (take 4 s); m = number_value (take 2 (drop 5 s));
               d = number_value (drop 8 s)
           in if 1 \<le> m \<and> m \<le> 12 \<and> 1 \<le> d \<and> d \<le> days_in m y then Some (y, m, d) else None
      else None)"

subsection \<open>strconv.Itoa and strconv.Atoi\<close>

fun decimal :: "nat \<Rightarrow> string" where
  "decimal n = (if n < 10 then [char_of (48 + n)] else decimal (n div 10) @ [char_of (48 + n mod 10)])"

definition Itoa :: "int \<Rightarrow> string" where
  "Itoa n = (if n < 0 then CHR ''-'' # decimal (nat (- n)) else decimal (nat n))"

text \<open>\<open>strconv.Atoi\<close> on a 64-bit machine.\<close>

definition Atoi :: "string \<Rightarrow> int option" where
  "Atoi s =
     (let (sign, digits) = (case s of c # cs \<Rightarrow> if c = CHR ''-'' then (- 1, cs) else if c = CHR ''+'' then (1, cs) else (1, s)
                            | [] \<Rightarrow> (1 :: int, []));
          n = sign * int (number_value digits) in
      if digits = [] \<or> \<not> list_all digit digits \<or> n < - (2 ^ 63) \<or> n > 2 ^ 63 - 1 then None else Some n)"

declare decimal.simps [simp del]

lemma digit_of_nat: "m < 10 \<Longrightarrow> digit (char_of (48 + m)) \<and> digit_value (char_of (48 + m)) = m"
  by (simp add: digit_def digit_value_def less_eq_char_def)

lemma decimal_digits: "list_all digit (decimal n) \<and> decimal n \<noteq> [] \<and> number_value (decimal n) = n"
proof (induction n rule: decimal.induct)
  case (1 n)
  note unfolded = decimal.simps [of n]
  show ?case
  proof (cases "n < 10")
    case True
    then show ?thesis using digit_of_nat [of n] by (simp add: unfolded number_value_def)
  next
    case False
    then show ?thesis using "1.IH" digit_of_nat [of "n mod 10"] by (simp add: unfolded number_value_def)
  qed
qed

lemma decimal_unsigned: "hd (decimal n) \<noteq> CHR ''-'' \<and> hd (decimal n) \<noteq> CHR ''+''"
  using decimal_digits [of n] by (cases "decimal n") (auto simp: digit_def less_eq_char_def)

text \<open>What \<open>Itoa\<close> prints \<open>Atoi\<close> reads back, for every 64-bit integer.\<close>

lemma Atoi_Itoa: "- (2 ^ 63) \<le> n \<Longrightarrow> n \<le> 2 ^ 63 - 1 \<Longrightarrow> Atoi (Itoa n) = Some n"
  using decimal_digits [of "nat n"] decimal_digits [of "nat (- n)"] decimal_unsigned [of "nat n"]
  by (cases "decimal (nat n)") (auto simp: Atoi_def Itoa_def Let_def)

end
