(* ===== verification/GoFlags.thy ===== *)
theory GoFlags
  imports GoStrings
begin

section \<open>Flags, numbers and URLs as Go's library reads and writes them\<close>

text \<open>
  The parts of \<open>flag\<close>, \<open>strconv\<close>, \<open>strings\<close> and \<open>net/url\<close> that the command line client uses:
  parsing flags, integers in any base, truth values, escaping path segments and queries,
  and replacing a text. The lemmas are the round trip of a path segment and what a replaced text
  can no longer contain.
\<close>

subsection \<open>strconv.ParseBool and strconv.ParseInt(s, 0, 64)\<close>

definition ParseBool :: "string \<Rightarrow> bool option" where
  "ParseBool s =
     (if s \<in> set [''1'', ''t'', ''T'', ''true'', ''TRUE'', ''True''] then Some True
      else if s \<in> set [''0'', ''f'', ''F'', ''false'', ''FALSE'', ''False''] then Some False
      else None)"

text \<open>The value of a digit or letter, 36 for every other byte.\<close>

definition digit36 :: "char \<Rightarrow> int" where
  "digit36 c =
     (if digit c then int (digit_value c)
      else let l = lower_byte c in
        if CHR ''a'' \<le> l \<and> l \<le> CHR ''z'' then int (of_char l) - 97 + 10 else 36)"

definition letter_is :: "string \<Rightarrow> char \<Rightarrow> bool" where
  "letter_is s c \<longleftrightarrow> length s \<ge> 2 \<and> s ! 0 = CHR ''0'' \<and> lower_byte (s ! 1) = c"

text \<open>The base that the prefix announces and the digits after it.\<close>

definition number_base :: "string \<Rightarrow> int \<times> string" where
  "number_base s =
     (if s = [] \<or> hd s \<noteq> CHR ''0'' then (10, s)
      else if length s \<ge> 3 \<and> letter_is s (CHR ''b'') then (2, drop 2 s)
      else if length s \<ge> 3 \<and> letter_is s (CHR ''o'') then (8, drop 2 s)
      else if length s \<ge> 3 \<and> letter_is s (CHR ''x'') then (16, drop 2 s)
      else (8, drop 1 s))"

text \<open>\<open>underscoreOK\<close>: an underscore stands between digits, or after the prefix.\<close>

fun underscores_between :: "bool \<Rightarrow> char \<Rightarrow> string \<Rightarrow> bool" where
  "underscores_between hex saw [] \<longleftrightarrow> saw \<noteq> CHR ''_''"
| "underscores_between hex saw (c # cs) \<longleftrightarrow>
     (if digit c \<or> (hex \<and> CHR ''a'' \<le> lower_byte c \<and> lower_byte c \<le> CHR ''f'') then underscores_between hex (CHR ''0'') cs
      else if c = CHR ''_'' then saw = CHR ''0'' \<and> underscores_between hex (CHR ''_'') cs
      else saw \<noteq> CHR ''_'' \<and> underscores_between hex (CHR ''!'') cs)"

definition underscoreOK :: "string \<Rightarrow> bool" where
  "underscoreOK s =
     (if letter_is s (CHR ''b'') \<or> letter_is s (CHR ''o'') \<or> letter_is s (CHR ''x'')
      then underscores_between (letter_is s (CHR ''x'')) (CHR ''0'') (drop 2 s)
      else underscores_between False (CHR ''^'') s)"

definition ParseUint :: "string \<Rightarrow> int option" where
  "ParseUint s =
     (let (base, digits) = number_base s; ds = filter (\<lambda>c. c \<noteq> CHR ''_'') digits;
          n = foldl (\<lambda>n c. n * base + digit36 c) 0 ds in
      if s = [] \<or> \<not> list_all (\<lambda>c. digit36 c < base) ds \<or> n \<ge> 2 ^ 64 then None
      else if CHR ''_'' \<in> set digits \<and> \<not> underscoreOK s then None
      else Some n)"

definition ParseInt :: "string \<Rightarrow> int option" where
  "ParseInt s =
     (let (neg, rest) = (case s of c # cs \<Rightarrow> if c = CHR ''-'' then (True, cs) else if c = CHR ''+'' then (False, cs) else (False, s)
                         | [] \<Rightarrow> (False, [])) in
      (case ParseUint rest of
         None \<Rightarrow> None
       | Some n \<Rightarrow> if \<not> neg \<and> n \<ge> 2 ^ 63 then None else if neg \<and> n > 2 ^ 63 then None else Some (if neg then - n else n)))"

subsection \<open>The flag package\<close>

datatype flag_kind = TextFlag | BoolFlag | IntFlag

datatype flag_value = FText string | FBool bool | FInt int

datatype flag_error = BadSyntax string | NotDefined string | HelpRequested | NeedsArgument string | InvalidValue string string

text \<open>How \<open>parseOne\<close> reads an argument: no flag, the end of the flags, a flag with its value if it has one, or bad syntax.\<close>

datatype argument = Positional | Terminator | FlagArgument string "string option" | Malformed

definition read_argument :: "string \<Rightarrow> argument" where
  "read_argument s =
     (case s of
        c1 # c2 # r \<Rightarrow>
          if c1 \<noteq> CHR ''-'' then Positional
          else if c2 = CHR ''-'' \<and> r = [] then Terminator
          else
            let name = (if c2 = CHR ''-'' then r else c2 # r) in
            if hd name = CHR ''-'' \<or> hd name = CHR ''='' then Malformed
            else
              let value = dropWhile (\<lambda>c. c \<noteq> CHR ''='') name in
              FlagArgument (takeWhile (\<lambda>c. c \<noteq> CHR ''='') name) (if value = [] then None else Some (tl value))
      | _ \<Rightarrow> Positional)"

definition set_flag :: "flag_kind \<Rightarrow> string \<Rightarrow> string \<Rightarrow> (flag_error, flag_value) result" where
  "set_flag kind name v =
     (case kind of
        TextFlag \<Rightarrow> Inr (FText v)
      | BoolFlag \<Rightarrow> (case ParseBool v of None \<Rightarrow> Inl (InvalidValue v name) | Some b \<Rightarrow> Inr (FBool b))
      | IntFlag \<Rightarrow> (case ParseInt v of None \<Rightarrow> Inl (InvalidValue v name) | Some n \<Rightarrow> Inr (FInt n)))"

text \<open>\<open>FlagSet.Parse\<close>: the values set, the latest first, and the arguments left. No flag of the program is called help or h.\<close>

type_synonym assigned = "(string \<times> flag_value) list"

fun parse_flags :: "(string \<times> flag_kind) list \<Rightarrow> assigned \<Rightarrow> string list \<Rightarrow> (flag_error, assigned \<times> string list) result" where
  "parse_flags defs vs [] = Inr (vs, [])"
| "parse_flags defs vs (s # rest) =
     (case read_argument s of
        Positional \<Rightarrow> Inr (vs, s # rest)
      | Terminator \<Rightarrow> Inr (vs, rest)
      | Malformed \<Rightarrow> Inl (BadSyntax s)
      | FlagArgument name given \<Rightarrow>
          (case map_of defs name of
             None \<Rightarrow> Inl (if name = ''help'' \<or> name = ''h'' then HelpRequested else NotDefined name)
           | Some BoolFlag \<Rightarrow>
               (case set_flag BoolFlag name (case given of None \<Rightarrow> ''true'' | Some v \<Rightarrow> v) of
                  Inl err \<Rightarrow> Inl err | Inr v \<Rightarrow> parse_flags defs ((name, v) # vs) rest)
           | Some kind \<Rightarrow>
               (case given of
                  Some v \<Rightarrow> (case set_flag kind name v of Inl err \<Rightarrow> Inl err | Inr v \<Rightarrow> parse_flags defs ((name, v) # vs) rest)
                | None \<Rightarrow>
                    (case rest of
                       [] \<Rightarrow> Inl (NeedsArgument name)
                     | v # rest' \<Rightarrow>
                         (case set_flag kind name v of Inl err \<Rightarrow> Inl err | Inr v \<Rightarrow> parse_flags defs ((name, v) # vs) rest')))))"

definition text_flag :: "assigned \<Rightarrow> string \<Rightarrow> string" where
  "text_flag vs name = (case map_of vs name of Some (FText s) \<Rightarrow> s | _ \<Rightarrow> [])"

definition bool_flag :: "assigned \<Rightarrow> string \<Rightarrow> bool" where
  "bool_flag vs name = (case map_of vs name of Some (FBool b) \<Rightarrow> b | _ \<Rightarrow> False)"

definition int_flag :: "assigned \<Rightarrow> string \<Rightarrow> int" where
  "int_flag vs name = (case map_of vs name of Some (FInt n) \<Rightarrow> n | _ \<Rightarrow> 0)"

text \<open>\<open>FlagSet.Visit\<close>: the flags that were set, in the order of their names.\<close>

definition visited :: "assigned \<Rightarrow> string list" where
  "visited vs = sort (remdups (map fst vs))"

subsection \<open>net/url\<close>

definition unreserved :: "char \<Rightarrow> bool" where
  "unreserved c \<longleftrightarrow> (CHR ''a'' \<le> c \<and> c \<le> CHR ''z'') \<or> (CHR ''A'' \<le> c \<and> c \<le> CHR ''Z'') \<or> digit c \<or> c \<in> set ''-_.~''"

definition upper_hex :: string where
  "upper_hex = ''0123456789ABCDEF''"

definition percent :: "char \<Rightarrow> string" where
  "percent c = [CHR ''%'', upper_hex ! (of_char c div 16), upper_hex ! (of_char c mod 16)]"

definition PathEscape :: "string \<Rightarrow> string" where
  "PathEscape s = concat (map (\<lambda>c. if unreserved c \<or> c \<in> set ''$&+:=@'' then [c] else percent c) s)"

definition QueryEscape :: "string \<Rightarrow> string" where
  "QueryEscape s = concat (map (\<lambda>c. if unreserved c then [c] else if c = CHR '' '' then ''+'' else percent c) s)"

text \<open>\<open>Values.Encode\<close> of a query with one value for each key.\<close>

definition Encode :: "(string \<times> string) list \<Rightarrow> string" where
  "Encode q =
     (let pairs = map (\<lambda>(key, v). QueryEscape key @ ''='' @ QueryEscape v) (sort_key fst q) in
      concat (map (\<lambda>(i, p). (if i = 0 then p else ''&'' @ p)) (enumerate 0 pairs)))"

definition hex_value :: "char \<Rightarrow> nat" where
  "hex_value c = nat (digit36 c)"

text \<open>\<open>url.PathUnescape\<close>, which the server applies to the segment behind a wildcard.\<close>

fun PathUnescape :: "string \<Rightarrow> string option" where
  "PathUnescape [] = Some []"
| "PathUnescape (c # cs) =
     (if c = CHR ''%'' then
        (case cs of
           a # b # rest \<Rightarrow>
             if hex_byte a \<and> hex_byte b then map_option (\<lambda>s. char_of (16 * hex_value a + hex_value b) # s) (PathUnescape rest)
             else None
         | _ \<Rightarrow> None)
      else map_option (\<lambda>s. c # s) (PathUnescape cs))"

lemma PathEscape_Nil [simp]: "PathEscape [] = []"
  by (simp add: PathEscape_def)

lemma PathEscape_Cons [simp]:
  "PathEscape (c # s) = (if unreserved c \<or> c \<in> set ''$&+:=@'' then [c] else percent c) @ PathEscape s"
  by (simp add: PathEscape_def)

lemma high_digit: "(of_char c :: nat) div 16 < 16"
  by (rule less_mult_imp_div_less) (use nat_of_char_less_256 [of c] in simp)

text \<open>Every byte comes back from its two digits.\<close>

lemma percent_byte: "hex_byte (upper_hex ! (of_char c div 16)) \<and> hex_byte (upper_hex ! (of_char c mod 16))
    \<and> char_of (16 * hex_value (upper_hex ! (of_char c div 16)) + hex_value (upper_hex ! (of_char c mod 16))) = c"
proof -
  have digits: "list_all (\<lambda>n. hex_byte (upper_hex ! n) \<and> hex_value (upper_hex ! n) = n) [0..<16]" by code_simp
  have "hex_byte (upper_hex ! n) \<and> hex_value (upper_hex ! n) = n" if "n < 16" for n
    using digits that by (simp add: list_all_upt)
  with high_digit [of c] show ?thesis by (simp add: mult.commute [of 16])
qed

lemma PathUnescape_Escape: "PathUnescape (PathEscape s) = Some s"
proof (induction s)
  case (Cons c s)
  have "c \<noteq> CHR ''%''" if "unreserved c \<or> c \<in> set ''$&+:=@''"
    using that by (auto simp: unreserved_def digit_def less_eq_char_def)
  then show ?case using Cons percent_byte [of c] by (auto simp: percent_def)
qed simp

lemma PathEscape_bytes: "x \<in> set (PathEscape s) \<Longrightarrow> x \<noteq> CHR ''/'' \<and> x \<noteq> CHR ''?''"
proof (induction s)
  case (Cons c s)
  have hex: "list_all (\<lambda>n. upper_hex ! n \<noteq> CHR ''/'' \<and> upper_hex ! n \<noteq> CHR ''?'') [0..<16]" by code_simp
  have "x \<noteq> CHR ''/'' \<and> x \<noteq> CHR ''?''" if "x \<in> set (percent c)"
    using that hex high_digit [of c] unfolding percent_def list_all_upt by auto
  moreover have "x \<noteq> CHR ''/'' \<and> x \<noteq> CHR ''?''" if "x = c" "unreserved c \<or> c \<in> set ''$&+:=@''"
    using that by (auto simp: unreserved_def digit_def less_eq_char_def)
  ultimately show ?case using Cons by (auto split: if_splits)
qed simp

subsection \<open>strings.ReplaceAll\<close>

text \<open>The old text is not empty.\<close>

fun replace_from :: "nat \<Rightarrow> string \<Rightarrow> string \<Rightarrow> string \<Rightarrow> string" where
  "replace_from k old new [] = []"
| "replace_from (Suc k) old new (c # cs) = replace_from k old new cs"
| "replace_from 0 old new (c # cs) =
     (if take (length old) (c # cs) = old then new @ replace_from (length old - 1) old new cs
      else c # replace_from 0 old new cs)"

definition ReplaceAll :: "string \<Rightarrow> string \<Rightarrow> string \<Rightarrow> string" where
  "ReplaceAll s old new = replace_from 0 old new s"

text \<open>A text without the byte \<open>a\<close> cannot reach over it.\<close>

lemma prefix_before: "prefix t (xs @ a # ys) \<Longrightarrow> a \<notin> set t \<Longrightarrow> prefix t xs"
  by (induction xs arbitrary: t) (auto simp: prefix_Cons split: list.splits)

lemma sublist_around: "sublist t (xs @ a # ys) \<Longrightarrow> a \<notin> set t \<Longrightarrow> sublist t xs \<or> sublist t ys"
proof (induction xs)
  case Nil
  then show ?case by (auto simp: sublist_Cons_right prefix_Cons)
next
  case (Cons x xs)
  then show ?case using prefix_before [of t "x # xs" a ys] by (auto simp: sublist_Cons_right)
qed

lemma prefix_replaced:
  "prefix u (replace_from 0 old (b # new) s) \<Longrightarrow> b \<notin> set u \<Longrightarrow> prefix u s"
proof (induction s arbitrary: u)
  case (Cons c cs)
  then show ?case by (cases u) (auto split: if_splits)
qed simp

lemma replace_removes:
  assumes old: "old \<noteq> []" "b \<notin> set old" "e \<notin> set old" and word: "\<not> sublist old word"
  shows "\<not> sublist old (replace_from k old (b # word @ [e]) s)"
proof (induction s arbitrary: k)
  case (Cons c cs)
  show ?case
  proof (cases k)
    case (Suc n)
    then show ?thesis using Cons.IH by simp
  next
    case 0
    show ?thesis
    proof (cases "take (length old) (c # cs) = old")
      case True
      have "\<not> sublist old (word @ e # replace_from (length old - 1) old (b # word @ [e]) cs)"
        using sublist_around [of old word e] old word Cons.IH by blast
      then show ?thesis
        using True 0 sublist_around [of old "[]" b] old by auto
    next
      case False
      have "\<not> prefix old (c # replace_from 0 old (b # word @ [e]) cs)"
      proof
        assume "prefix old (c # replace_from 0 old (b # word @ [e]) cs)"
        then obtain u where u: "old = c # u" "prefix u (replace_from 0 old (b # word @ [e]) cs)"
          using old(1) by (auto simp: prefix_Cons)
        have "prefix u cs" using prefix_replaced [OF u(2)] old(2) u(1) by simp
        then show False using False u(1) by (auto elim!: prefixE)
      qed
      then show ?thesis using False 0 Cons.IH by (simp add: sublist_Cons_right)
    qed
  qed
qed (use old in simp)

end
