(* ===== verification/Backoff.thy ===== *)
theory Backoff
  imports GoStrings
begin

section \<open>Waiting and retrying (cli/cmd/slate/backoff.go)\<close>

text \<open>
  Which failures of a request are worth repeating, how long to wait, and the loop that repeats a
  read. Durations are nanoseconds. The random part of a wait is an argument, the function
  \<open>spread\<close> that stands for \<open>time.Duration(float64(wait) * b.jitter * b.random())\<close>.
\<close>

definition second :: int where "second = 10 ^ 9"
definition backoffBase :: int where "backoffBase = 5 * second"
definition backoffCeiling :: int where "backoffCeiling = 60 * second"
definition maxRetryAfter :: int where "maxRetryAfter = 5 * 60 * second"

subsection \<open>Errors of a request\<close>

record APIError =
  ae_Status :: int
  ae_StatusCode :: int
  ae_Code :: string
  ae_Message :: string
  ae_Body :: string
  ae_RetryAfter :: string
  ae_RetryAfterDuration :: int

text \<open>
  What \<open>errors.Is\<close> and \<open>errors.As\<close> find in an error: the context's cancellation, the three error
  types of a request, the three sentinels of the watcher, or none of them. Wrapping with \<open>%w\<close>
  keeps the kind.
\<close>

datatype cli_error = Canceled | RequestBuild | ResponseFormat | Api APIError | OtherError string
  | GroupSurvived | RunRecordRemoval | UndiscoverableRun

definition retryableStatuses :: "int \<Rightarrow> bool" where
  "retryableStatuses status \<longleftrightarrow> status \<in> set [500, 429, 502, 503, 504]"

definition retryableError :: "cli_error \<Rightarrow> bool" where
  "retryableError err =
     (case err of Canceled \<Rightarrow> False | RequestBuild \<Rightarrow> False | ResponseFormat \<Rightarrow> False
      | Api a \<Rightarrow> retryableStatuses (ae_Status a) | _ \<Rightarrow> True)"

subsection \<open>Backoff\<close>

record backoff =
  bo_base :: int
  bo_ceiling :: int
  bo_attempts :: nat

definition newBackoff :: backoff where
  "newBackoff = \<lparr>bo_base = backoffBase, bo_ceiling = backoffCeiling, bo_attempts = 0\<rparr>"

definition reset :: "backoff \<Rightarrow> backoff" where
  "reset b = b\<lparr>bo_attempts := 0\<rparr>"

fun doubled :: "nat \<Rightarrow> int \<Rightarrow> int \<Rightarrow> int" where
  "doubled 0 ceiling wait = wait"
| "doubled (Suc n) ceiling wait = (if wait < ceiling then doubled n ceiling (wait * 2) else wait)"

definition next_wait :: "(int \<Rightarrow> int) \<Rightarrow> backoff \<Rightarrow> int \<times> backoff" where
  "next_wait spread b =
     (let wait = doubled (bo_attempts b) (bo_ceiling b) (bo_base b);
          wait = (if wait > bo_ceiling b then bo_ceiling b else wait) in
      (wait + spread wait, b\<lparr>bo_attempts := bo_attempts b + 1\<rparr>))"

definition retryAfterDelay :: "string \<Rightarrow> int option" where
  "retryAfterDelay v =
     (case Atoi v of None \<Rightarrow> None
      | Some seconds \<Rightarrow>
          if seconds < 0 then None
          else if seconds > maxRetryAfter div second then Some maxRetryAfter
          else Some (seconds * second))"

text \<open>\<open>None\<close>: the error is not worth repeating.\<close>

definition retryDelay :: "(int \<Rightarrow> int) \<Rightarrow> cli_error \<Rightarrow> backoff \<Rightarrow> int option \<times> backoff" where
  "retryDelay spread err failure =
     (if \<not> retryableError err then (None, failure)
      else
        let (wait, failure) = next_wait spread failure in
        (case err of
           Api a \<Rightarrow>
             if ae_Status a = 429 then
               (case retryAfterDelay (ae_RetryAfter a) of
                  None \<Rightarrow> (Some wait, failure)
                | Some hinted \<Rightarrow> (if hinted > wait then Some hinted else Some wait, failure))
             else (Some wait, failure)
         | _ \<Rightarrow> (Some wait, failure)))"

subsection \<open>Repeating a read\<close>

text \<open>
  One round of \<open>retryReadWith\<close>: is the context done before the attempt, what does the attempt
  return, is it done after a failure, and the random part of the wait. A list of rounds that
  ends before the read does gives \<open>None\<close>.
\<close>

record 'a read_round =
  rr_stopped :: bool
  rr_answer :: "(cli_error, 'a) result"
  rr_stopped_after :: bool
  rr_spread :: "int \<Rightarrow> int"

fun retryReadWith :: "'a read_round list \<Rightarrow> backoff \<Rightarrow> ((cli_error, 'a) result \<times> backoff) option" where
  "retryReadWith [] failure = None"
| "retryReadWith (r # rs) failure =
     (if rr_stopped r then Some (Inl Canceled, failure)
      else (case rr_answer r of
          Inr v \<Rightarrow> Some (Inr v, reset failure)
        | Inl err \<Rightarrow>
            if rr_stopped_after r then Some (Inl Canceled, failure)
            else (case retryDelay (rr_spread r) err failure of
                (None, failure') \<Rightarrow> Some (Inl err, failure')
              | (Some wait, failure') \<Rightarrow> retryReadWith rs failure')))"

subsection \<open>Bounds\<close>

lemma doubled_bounds: "0 < base \<Longrightarrow> base < 2 * ceiling \<Longrightarrow> base \<le> doubled n ceiling base \<and> doubled n ceiling base < 2 * ceiling"
proof (induction n arbitrary: base)
  case (Suc n)
  show ?case
  proof (cases "base < ceiling")
    case True
    then have "base * 2 \<le> doubled n ceiling (base * 2) \<and> doubled n ceiling (base * 2) < 2 * ceiling"
      using Suc.prems by (intro Suc.IH) simp_all
    then show ?thesis using True Suc.prems by simp
  qed (use Suc.prems in simp)
qed simp

lemma next_wait_bounds:
  assumes "0 < bo_base b" "bo_base b \<le> bo_ceiling b" "\<And>w. 0 \<le> spread w \<and> spread w \<le> w div 5"
  shows "bo_base b \<le> fst (next_wait spread b) \<and> fst (next_wait spread b) \<le> bo_ceiling b + bo_ceiling b div 5"
proof -
  define w where "w = (if doubled (bo_attempts b) (bo_ceiling b) (bo_base b) > bo_ceiling b then bo_ceiling b
      else doubled (bo_attempts b) (bo_ceiling b) (bo_base b))"
  have "bo_base b \<le> w" "w \<le> bo_ceiling b"
    using doubled_bounds [OF assms(1), of "bo_ceiling b"] assms(1,2) by (auto simp: w_def)
  moreover have "w div 5 \<le> bo_ceiling b div 5" using calculation(2) by (rule zdiv_mono1) simp
  moreover have "fst (next_wait spread b) = w + spread w" by (simp add: next_wait_def w_def Let_def)
  ultimately show ?thesis using assms(3) [of w] by linarith
qed

end
