(* ===== verification/CommandLine.thy ===== *)
theory CommandLine
  imports GoFlags Backoff
begin

section \<open>The commands of the client (cli/cmd/slate/main.go)\<close>

text \<open>
  From the arguments of the program to what it does: print a help text, start the watcher, list
  runs, send one request to the API, or refuse. The request is then built and its answer turned
  into a value or an error. The terminal is the environment variables, standard input and the
  files; the HTTP client, URL parsing and JSON are parameters. A body is the map of its fields.
\<close>

record terminal =
  tm_getenv :: "string \<Rightarrow> string"
  tm_stdin :: "(string, string) result"
  tm_file :: "string \<Rightarrow> (string, string) result"

datatype json = JText string | JBool bool | JInt int | JTexts "string list"

record http_call =
  hc_method :: string
  hc_path :: string
  hc_body :: "(string \<times> json) list option"
  hc_headers :: "(string \<times> string) list"

text \<open>A refusal is the text of an error, or a text around a value that the user gave.\<close>

datatype refusal = Refused string | Unknown string string | Invalid string string | BadFlag flag_error | TooLong nat

text \<open>What \<open>watchCmd\<close> hands to the watcher.\<close>

record watchOptions =
  wo_profileName :: string
  wo_listID :: string
  wo_workdir :: string

datatype action = Send http_call | Help string | PrintVersion | StartWatch watchOptions | ListRuns string | CleanRun string
  | Refuse refusal

definition maxTaskEntryBodyBytes :: int where
  "maxTaskEntryBodyBytes = 16 * 1024"

definition defaultBaseURL :: string where
  "defaultBaseURL = ''https://slate.do''"

subsection \<open>Small helpers\<close>

definition cli_env :: "terminal \<Rightarrow> string \<Rightarrow> string \<Rightarrow> string" where
  "cli_env t key fallback = (let value = TrimSpace (tm_getenv t key) in if value = [] then fallback else value)"

fun firstNonEmpty :: "string list \<Rightarrow> string" where
  "firstNonEmpty [] = []"
| "firstNonEmpty (v # vs) = (if TrimSpace v \<noteq> [] then v else firstNonEmpty vs)"

definition wantsHelp :: "string list \<Rightarrow> bool" where
  "wantsHelp args \<longleftrightarrow> length args = 0 \<or> (length args = 1 \<and> args ! 0 \<in> set [''help'', ''-h'', ''--help''])"

definition help_topics :: "string list" where
  "help_topics = [[], ''watch'', ''runs'', ''auth'', ''lists'', ''tasks'']"

definition printHelp :: "string \<Rightarrow> action" where
  "printHelp topic = (if topic \<in> set help_topics then Help topic else Refuse (Unknown ''help topic'' topic))"

definition see_help :: "string \<Rightarrow> string" where
  "see_help topic = ''; run '' @ [CHR 0x27] @ ''slate help '' @ topic @ [CHR 0x27]"

definition printVersion :: "string list \<Rightarrow> action" where
  "printVersion args = (if length args \<noteq> 0 then Refuse (Refused ''usage: slate version'') else PrintVersion)"

definition singleID :: "string \<Rightarrow> string list \<Rightarrow> (refusal, string) result" where
  "singleID usage args =
     (if length args \<noteq> 1 \<or> TrimSpace (args ! 0) = [] then Inl (Refused (''usage: '' @ usage)) else Inr (args ! 0))"

definition setQuery :: "string \<Rightarrow> string \<Rightarrow> (string \<times> string) list \<Rightarrow> (string \<times> string) list" where
  "setQuery key value q = (if TrimSpace value \<noteq> [] then (key, value) # filter (\<lambda>(k, _). k \<noteq> key) q else q)"

definition cli_validStatus :: "string \<Rightarrow> bool" where
  "cli_validStatus status \<longleftrightarrow> status \<in> set [''new'', ''queued'', ''working'', ''needs_review'', ''done'']"

definition cli_validPriority :: "string \<Rightarrow> bool" where
  "cli_validPriority priority \<longleftrightarrow> priority \<in> set [[], ''p0'', ''p1'', ''p2'', ''p3'']"

definition managedRunHeaders :: "terminal \<Rightarrow> (string \<times> string) list" where
  "managedRunHeaders t = [(''X-Slate-Run-ID'', cli_env t ''SLATE_RUN_ID'' [])]"

definition field_value :: "assigned \<Rightarrow> string \<Rightarrow> json" where
  "field_value vs name = (case map_of vs name of Some (FText s) \<Rightarrow> JText s | Some (FBool b) \<Rightarrow> JBool b | Some (FInt n) \<Rightarrow> JInt n
     | None \<Rightarrow> JText [])"

definition visitedValues :: "assigned \<Rightarrow> (string \<times> string) list \<Rightarrow> (string \<times> json) list" where
  "visitedValues vs names =
     map (\<lambda>name. (case map_of names name of Some renamed \<Rightarrow> renamed | None \<Rightarrow> name, field_value vs name)) (visited vs)"

subsection \<open>Requests\<close>

definition getJSON :: "string \<Rightarrow> (string \<times> string) list \<Rightarrow> action" where
  "getJSON path q =
     Send \<lparr>hc_method = ''GET'', hc_path = (if q \<noteq> [] then path @ ''?'' @ Encode q else path), hc_body = None, hc_headers = []\<rparr>"

definition sendJSONWithHeaders :: "string \<Rightarrow> string \<Rightarrow> (string \<times> json) list option \<Rightarrow> (string \<times> string) list \<Rightarrow> action" where
  "sendJSONWithHeaders method path body headers =
     Send \<lparr>hc_method = method, hc_path = path, hc_body = body, hc_headers = headers\<rparr>"

definition sendJSON :: "string \<Rightarrow> string \<Rightarrow> (string \<times> json) list option \<Rightarrow> action" where
  "sendJSON method path body = sendJSONWithHeaders method path body []"

definition or_refuse :: "(refusal, action) result \<Rightarrow> action" where
  "or_refuse r = (case r of Inl e \<Rightarrow> Refuse e | Inr a \<Rightarrow> a)"

definition Parse :: "(string \<times> flag_kind) list \<Rightarrow> string list \<Rightarrow> (refusal, assigned \<times> string list) result" where
  "Parse defs args = (case parse_flags defs [] args of Inl e \<Rightarrow> Inl (BadFlag e) | Inr r \<Rightarrow> Inr r)"

subsection \<open>auth and lists\<close>

definition authCmd :: "string list \<Rightarrow> action" where
  "authCmd args =
     (if wantsHelp args then printHelp ''auth''
      else if length args \<noteq> 1 \<or> args ! 0 \<noteq> ''status'' then Refuse (Refused (''usage: slate auth status'' @ see_help ''auth''))
      else getJSON ''/api/v1/me'' [])"

definition lists_create_flags :: "(string \<times> flag_kind) list" where
  "lists_create_flags = [(''name'', TextFlag), (''goal'', TextFlag), (''inbox'', BoolFlag)]"

definition lists_edit_flags :: "(string \<times> flag_kind) list" where
  "lists_edit_flags = [(''name'', TextFlag), (''goal'', TextFlag), (''inbox'', BoolFlag), (''sort-order'', IntFlag)]"

definition lists_create :: "string list \<Rightarrow> (refusal, action) result" where
  "lists_create args =
     rbind (Parse lists_create_flags args) (\<lambda>(vs, rest).
     rbind (require (\<not> (length rest \<noteq> 0 \<or> TrimSpace (text_flag vs ''name'') = [])) (Refused ''--name is required'')) (\<lambda>_.
     Inr (sendJSON ''POST'' ''/api/v1/lists''
       (Some [(''name'', JText (text_flag vs ''name'')), (''goal'', JText (text_flag vs ''goal'')),
              (''isInbox'', JBool (bool_flag vs ''inbox''))]))))"

definition lists_edit :: "string list \<Rightarrow> (refusal, action) result" where
  "lists_edit args =
     (case args of
        [] \<Rightarrow> Inl (Refused ''usage: slate lists update <list-id> [flags]'')
      | i # args' \<Rightarrow>
          rbind (Parse lists_edit_flags args') (\<lambda>(vs, rest).
          rbind (require (length rest = 0) (Refused ''unexpected arguments'')) (\<lambda>_.
          let body = visitedValues vs [(''inbox'', ''isInbox''), (''sort-order'', ''sortOrder'')] in
          rbind (require (length body \<noteq> 0) (Refused ''at least one update flag is required'')) (\<lambda>_.
          Inr (sendJSON ''PATCH'' (''/api/v1/lists/'' @ PathEscape i) (Some body))))))"

definition lists_reorder :: "string list \<Rightarrow> (refusal, action) result" where
  "lists_reorder args =
     rbind (Parse [] args) (\<lambda>(vs, rest).
     rbind (require (length rest \<noteq> 0) (Refused ''at least one list id is required'')) (\<lambda>_.
     Inr (sendJSON ''POST'' ''/api/v1/lists/reorder'' (Some [(''ids'', JTexts rest)]))))"

definition listsCmd :: "string list \<Rightarrow> action" where
  "listsCmd args =
     (if wantsHelp args then printHelp ''lists''
      else (case args of
          [] \<Rightarrow> Refuse (Refused (''usage: slate lists <command>'' @ see_help ''lists''))
        | command # rest \<Rightarrow>
            if command = ''list'' then
              (if length args \<noteq> 1 then Refuse (Refused ''usage: slate lists list'') else getJSON ''/api/v1/lists'' [])
            else if command = ''get'' then
              or_refuse (rbind (singleID ''slate lists get <list-id>'' rest) (\<lambda>i. Inr (getJSON (''/api/v1/lists/'' @ PathEscape i) [])))
            else if command = ''create'' then or_refuse (lists_create rest)
            else if command = ''update'' then or_refuse (lists_edit rest)
            else if command = ''delete'' then
              or_refuse (rbind (singleID ''slate lists delete <list-id>'' rest) (\<lambda>i.
                Inr (sendJSON ''DELETE'' (''/api/v1/lists/'' @ PathEscape i) None)))
            else if command = ''reorder'' then or_refuse (lists_reorder rest)
            else Refuse (Unknown ''lists command'' command)))"

subsection \<open>tasks\<close>

definition tasks_list_flags :: "string \<Rightarrow> (string \<times> flag_kind) list" where
  "tasks_list_flags command =
     [(''list'', TextFlag), (''limit'', IntFlag), (''priority'', TextFlag)]
     @ (if command = ''list'' then [(''status'', TextFlag), (''cursor'', TextFlag)] else [])"

definition tasks_list :: "string \<Rightarrow> string list \<Rightarrow> (refusal, action) result" where
  "tasks_list command args =
     rbind (Parse (tasks_list_flags command) args) (\<lambda>(vs, rest).
     rbind (require (length rest = 0) (Refused ''unexpected arguments'')) (\<lambda>_.
     rbind (require (cli_validPriority (text_flag vs ''priority'')) (Invalid ''priority'' (text_flag vs ''priority''))) (\<lambda>_.
     let q = setQuery ''priority'' (text_flag vs ''priority'') (setQuery ''bucketId'' (text_flag vs ''list'') []);
         q = (if int_flag vs ''limit'' > 0 then (''limit'', Itoa (int_flag vs ''limit'')) # q else q);
         q = (if command = ''list'' then setQuery ''cursor'' (text_flag vs ''cursor'') (setQuery ''status'' (text_flag vs ''status'') q)
              else q);
         path = (if command = ''pull'' then ''/api/v1/agent/tasks'' else ''/api/v1/tasks'') in
     Inr (getJSON path q))))"

definition tasks_create_flags :: "(string \<times> flag_kind) list" where
  "tasks_create_flags =
     [(''list'', TextFlag), (''bucket'', TextFlag), (''parent'', TextFlag), (''title'', TextFlag), (''description'', TextFlag),
      (''date'', TextFlag), (''idempotency-key'', TextFlag), (''override-limit'', BoolFlag)]"

definition tasks_create :: "string list \<Rightarrow> (refusal, action) result" where
  "tasks_create args =
     rbind (Parse tasks_create_flags args) (\<lambda>(vs, rest).
     let targetList = firstNonEmpty [text_flag vs ''list'', text_flag vs ''bucket''];
         parentID = TrimSpace (text_flag vs ''parent'') in
     rbind (require (\<not> (length rest \<noteq> 0 \<or> TrimSpace (text_flag vs ''title'') = [])) (Refused ''--title is required'')) (\<lambda>_.
     rbind (require (\<not> (targetList \<noteq> [] \<and> parentID \<noteq> [])) (Refused ''choose --list or --parent, not both'')) (\<lambda>_.
     let body = [(''title'', JText (text_flag vs ''title'')), (''description'', JText (text_flag vs ''description'')),
                 (''scheduledDate'', JText (text_flag vs ''date'')), (''kind'', JText ''action''),
                 (''overrideLimit'', JBool (bool_flag vs ''override-limit''))];
         path = (if targetList \<noteq> [] then ''/api/v1/lists/'' @ PathEscape targetList @ ''/tasks''
                 else if parentID \<noteq> [] then ''/api/v1/tasks/'' @ PathEscape parentID @ ''/subtasks''
                 else ''/api/v1/tasks'') in
     Inr (sendJSONWithHeaders ''POST'' path (Some body) [(''Idempotency-Key'', text_flag vs ''idempotency-key'')]))))"

definition tasks_edit_flags :: "(string \<times> flag_kind) list" where
  "tasks_edit_flags =
     [(''title'', TextFlag), (''description'', TextFlag), (''date'', TextFlag), (''list'', TextFlag), (''bucket'', TextFlag),
      (''priority'', TextFlag)]"

definition edit_fields :: "(string \<times> string) list" where
  "edit_fields =
     [(''title'', ''title''), (''description'', ''description''), (''date'', ''scheduledDate''), (''priority'', ''priority'')]"

definition tasks_edit :: "terminal \<Rightarrow> string list \<Rightarrow> (refusal, action) result" where
  "tasks_edit t args =
     (case args of
        [] \<Rightarrow> Inl (Refused ''usage: slate tasks update <task-id> [flags]'')
      | i # args' \<Rightarrow>
          rbind (Parse tasks_edit_flags args') (\<lambda>(vs, rest).
          rbind (require (length rest = 0) (Refused ''unexpected arguments'')) (\<lambda>_.
          rbind (require (cli_validPriority (text_flag vs ''priority'')) (Invalid ''priority'' (text_flag vs ''priority''))) (\<lambda>_.
          let fields = List.map_filter (\<lambda>name. map_option (\<lambda>field. (field, JText (text_flag vs name))) (map_of edit_fields name))
                (visited vs);
              targetList = firstNonEmpty [text_flag vs ''list'', text_flag vs ''bucket''];
              body = fields @ (if targetList \<noteq> [] then [(''bucketId'', JText targetList)] else []) in
          rbind (require (length body \<noteq> 0) (Refused ''at least one update flag is required'')) (\<lambda>_.
          Inr (sendJSONWithHeaders ''PATCH'' (''/api/v1/tasks/'' @ PathEscape i) (Some body) (managedRunHeaders t)))))))"

definition tasks_reorder :: "string list \<Rightarrow> (refusal, action) result" where
  "tasks_reorder args =
     rbind (Parse [(''list'', TextFlag)] args) (\<lambda>(vs, rest).
     rbind (require (\<not> (text_flag vs ''list'' = [] \<or> length rest = 0)) (Refused ''--list and at least one task id are required'')) (\<lambda>_.
     Inr (sendJSON ''POST'' (''/api/v1/lists/'' @ PathEscape (text_flag vs ''list'') @ ''/reorder-tasks'') (Some [(''ids'', JTexts rest)]))))"

definition entries_usage :: string where
  "entries_usage = ''usage: slate tasks entries <task-id> [--run <run-id>]''"

definition tasks_entries :: "string list \<Rightarrow> (refusal, action) result" where
  "tasks_entries args =
     (case args of
        [] \<Rightarrow> Inl (Refused entries_usage)
      | i # args' \<Rightarrow>
          rbind (Parse [(''run'', TextFlag)] args') (\<lambda>(vs, rest).
          rbind (require (\<not> (length rest \<noteq> 0 \<or> TrimSpace i = [])) (Refused entries_usage)) (\<lambda>_.
          Inr (getJSON (''/api/v1/tasks/'' @ PathEscape i @ ''/entries'') (setQuery ''runId'' (text_flag vs ''run'') [])))))"

definition tasks_status :: "terminal \<Rightarrow> string list \<Rightarrow> (refusal, action) result" where
  "tasks_status t args =
     (case args of
        [i, status] \<Rightarrow>
          rbind (require (cli_validStatus status) (Invalid ''status'' status)) (\<lambda>_.
          if status = ''working'' \<and> cli_env t ''SLATE_RUN_ID'' [] = [] then
            Inr (sendJSONWithHeaders ''POST'' (''/api/v1/agent/tasks/'' @ PathEscape i @ ''/claim'') (Some []) (managedRunHeaders t))
          else
            Inr (sendJSONWithHeaders ''PATCH'' (''/api/v1/agent/tasks/'' @ PathEscape i @ ''/status'')
              (Some [(''status'', JText status)]) (managedRunHeaders t)))
      | _ \<Rightarrow> Inl (Refused ''usage: slate tasks status <task-id> new|queued|working|needs_review|done''))"

subsection \<open>Comments and outputs\<close>

text \<open>\<open>io.LimitReader\<close> lets one byte more than the limit through, so that a text that is too long shows.\<close>

definition readBoundedTaskEntryBody :: "(string, string) result \<Rightarrow> (refusal, string) result" where
  "readBoundedTaskEntryBody reader =
     (case reader of
        Inl e \<Rightarrow> Inl (Refused e)
      | Inr content \<Rightarrow>
          let body = take (nat (maxTaskEntryBodyBytes + 1)) content in
          if int (length body) > maxTaskEntryBodyBytes then Inl (Refused (''entry body exceeds '' @ Itoa maxTaskEntryBodyBytes @ '' bytes''))
          else Inr body)"

definition readTaskEntryBody :: "terminal \<Rightarrow> string \<Rightarrow> (refusal, string) result" where
  "readTaskEntryBody t path =
     (if path = ''-'' then readBoundedTaskEntryBody (tm_stdin t)
      else if TrimSpace path = [] then Inl (Refused ''--file requires a path or - for stdin'')
      else readBoundedTaskEntryBody (tm_file t path))"

definition entry_flags :: "(string \<times> flag_kind) list" where
  "entry_flags = [(''body'', TextFlag), (''file'', TextFlag), (''idempotency-key'', TextFlag)]"

definition taskEntryCmd :: "terminal \<Rightarrow> string \<Rightarrow> string list \<Rightarrow> (refusal, action) result" where
  "taskEntryCmd t kind args =
     (case args of
        [] \<Rightarrow> Inl (Refused (''usage: slate tasks '' @ kind @ '' <task-id> (--body <text> | --file <path>) --idempotency-key <key>''))
      | i # args' \<Rightarrow>
          rbind (Parse entry_flags args') (\<lambda>(vs, rest).
          let bodySet = ''body'' \<in> set (visited vs); fileSet = ''file'' \<in> set (visited vs);
              key = TrimSpace (text_flag vs ''idempotency-key'') in
          rbind (require (\<not> (length rest \<noteq> 0 \<or> TrimSpace i = [])) (Refused ''unexpected arguments'')) (\<lambda>_.
          rbind (require (bodySet \<noteq> fileSet) (Refused ''exactly one of --body or --file is required'')) (\<lambda>_.
          rbind (require (\<not> (kind = ''output'' \<and> key = [])) (Refused ''--idempotency-key is required for output'')) (\<lambda>_.
          rbind (require (\<not> (cli_env t ''SLATE_RUN_ID'' [] \<noteq> [] \<and> key = []))
            (Refused ''--idempotency-key is required for managed comments and outputs'')) (\<lambda>_.
          rbind (if fileSet then readTaskEntryBody t (text_flag vs ''file'') else Inr (text_flag vs ''body'')) (\<lambda>body.
          rbind (require (\<not> int (length body) > maxTaskEntryBodyBytes) (TooLong (length body))) (\<lambda>_.
          rbind (require (TrimSpace body \<noteq> []) (Refused ''entry body is required'')) (\<lambda>_.
          Inr (sendJSONWithHeaders ''POST'' (''/api/v1/tasks/'' @ PathEscape i @ ''/entries'')
            (Some [(''kind'', JText kind), (''body'', JText body)])
            (managedRunHeaders t @ [(''Idempotency-Key'', key)]))))))))))) "

definition tasksCmd :: "terminal \<Rightarrow> string list \<Rightarrow> action" where
  "tasksCmd t args =
     (if wantsHelp args then printHelp ''tasks''
      else (case args of
          [] \<Rightarrow> Refuse (Refused (''usage: slate tasks <command>'' @ see_help ''tasks''))
        | command # rest \<Rightarrow>
            if command = ''list'' \<or> command = ''pull'' then or_refuse (tasks_list command rest)
            else if command = ''get'' then
              or_refuse (rbind (singleID ''slate tasks get <task-id>'' rest) (\<lambda>i. Inr (getJSON (''/api/v1/tasks/'' @ PathEscape i) [])))
            else if command = ''create'' then or_refuse (tasks_create rest)
            else if command = ''update'' then or_refuse (tasks_edit t rest)
            else if command = ''delete'' then
              or_refuse (rbind (singleID ''slate tasks delete <task-id>'' rest) (\<lambda>i.
                Inr (sendJSON ''DELETE'' (''/api/v1/tasks/'' @ PathEscape i) None)))
            else if command = ''reorder'' then or_refuse (tasks_reorder rest)
            else if command = ''claim'' then
              or_refuse (rbind (singleID ''slate tasks claim <task-id>'' rest) (\<lambda>i.
                Inr (sendJSONWithHeaders ''POST'' (''/api/v1/agent/tasks/'' @ PathEscape i @ ''/claim'') (Some []) (managedRunHeaders t))))
            else if command = ''entries'' then or_refuse (tasks_entries rest)
            else if command = ''comment'' \<or> command = ''output'' then or_refuse (taskEntryCmd t command rest)
            else if command = ''status'' then or_refuse (tasks_status t rest)
            else Refuse (Unknown ''tasks command'' command)))"

subsection \<open>watch and runs (watch.go, runs.go)\<close>

definition watch_flags :: "(string \<times> flag_kind) list" where
  "watch_flags = [(''profile'', TextFlag), (''list'', TextFlag), (''workdir'', TextFlag)]"

text \<open>\<open>--workdir\<close> is the one flag whose default is not empty.\<close>

definition watchCmd :: "string list \<Rightarrow> action" where
  "watchCmd args =
     (if wantsHelp args then printHelp ''watch''
      else or_refuse (
        rbind (Parse watch_flags args) (\<lambda>(vs, rest).
        let listID = TrimSpace (text_flag vs ''list'') in
        rbind (require (length rest = 0) (Refused (''unexpected arguments'' @ see_help ''watch''))) (\<lambda>_.
        rbind (require (\<not> (listID \<noteq> [] \<and> \<not> cli_validUUID listID)) (Refused ''--list must be a valid list ID'')) (\<lambda>_.
        Inr (StartWatch \<lparr>wo_profileName = TrimSpace (text_flag vs ''profile''), wo_listID = listID,
               wo_workdir = (if ''workdir'' \<in> fst ` set vs then text_flag vs ''workdir'' else ''.'')\<rparr>))))))"

definition runsCmd :: "string list \<Rightarrow> action" where
  "runsCmd args =
     (if wantsHelp args then printHelp ''runs''
      else if hd args = ''list'' then
        or_refuse (rbind (Parse [(''profile'', TextFlag)] (tl args)) (\<lambda>(vs, rest).
          rbind (require (length rest = 0) (Refused ''usage: slate runs list [--profile <name>]'')) (\<lambda>_.
          Inr (ListRuns (TrimSpace (text_flag vs ''profile''))))))
      else if hd args = ''clean'' then
        or_refuse (rbind (singleID ''slate runs clean <run-id>'' (tl args)) (\<lambda>i. Inr (CleanRun (TrimSpace i))))
      else Refuse (Unknown ''runs command'' (hd args)))"

subsection \<open>The program\<close>

definition run_cli :: "terminal \<Rightarrow> string list \<Rightarrow> action" where
  "run_cli t args =
     (if length args < 2 then printHelp []
      else
        let command = args ! 1; rest = drop 2 args in
        if command \<in> set [''help'', ''-h'', ''--help''] then printHelp (if rest \<noteq> [] then hd rest else [])
        else if command \<in> set [''version'', ''--version''] then printVersion rest
        else if command = ''auth'' then authCmd rest
        else if command \<in> set [''lists'', ''buckets''] then listsCmd rest
        else if command = ''tasks'' then tasksCmd t rest
        else if command = ''watch'' then watchCmd rest
        else if command = ''runs'' then runsCmd rest
        else Refuse (Unknown ''command'' command))"

subsection \<open>The watcher's requests (api.go)\<close>

definition get_call :: "string \<Rightarrow> http_call" where
  "get_call path = \<lparr>hc_method = ''GET'', hc_path = path, hc_body = None, hc_headers = []\<rparr>"

definition identity_call :: http_call where
  "identity_call = get_call ''/api/v1/me''"

definition agentTasks_call :: "string \<Rightarrow> string \<Rightarrow> int \<Rightarrow> http_call" where
  "agentTasks_call status listID limit =
     (let q = setQuery ''bucketId'' listID (setQuery ''status'' status []);
          q = (if limit > 0 then (''limit'', Itoa limit) # q else q) in
      get_call (''/api/v1/agent/tasks'' @ ''?'' @ Encode q))"

definition task_call :: "string \<Rightarrow> http_call" where
  "task_call taskID = get_call (''/api/v1/tasks/'' @ PathEscape taskID)"

definition entriesForRun_call :: "string \<Rightarrow> string \<Rightarrow> http_call" where
  "entriesForRun_call taskID runID =
     get_call ((''/api/v1/tasks/'' @ PathEscape taskID @ ''/entries'') @ ''?'' @ Encode (setQuery ''runId'' runID []))"

subsection \<open>Sending a request and reading the answer\<close>

record client =
  ct_baseURL :: string
  ct_token :: string
  ct_runID :: string

definition new_client :: "terminal \<Rightarrow> client" where
  "new_client t =
     \<lparr>ct_baseURL = cli_env t ''SLATE_BASE_URL'' defaultBaseURL, ct_token = tm_getenv t ''SLATE_API_TOKEN'',
      ct_runID = cli_env t ''SLATE_RUN_ID'' []\<rparr>"

record wire_request =
  wr_method :: string
  wr_url :: string
  wr_headers :: "(string \<times> string) list"
  wr_body :: "(string \<times> json) list option"

text \<open>The answer of a server: the status, the header \<open>Retry-After\<close> and the body.\<close>

record reply =
  re_Status :: int
  re_RetryAfter :: string
  re_Body :: string

text \<open>
  The libraries: is a URL well formed and absolute, the exchange itself, decoding a body into a
  value or into the code and text of an error, parsing a date, and the clock, in nanoseconds.
\<close>

datatype send_failure = SendCanceled | SendFailed string

record 'v transport =
  tr_url_ok :: "string \<Rightarrow> bool"
  tr_send :: "wire_request \<Rightarrow> (send_failure, reply) result"
  tr_value :: "string \<Rightarrow> 'v option"
  tr_error :: "string \<Rightarrow> string \<times> string"
  tr_date :: "string \<Rightarrow> int option"
  tr_now :: int

definition build_request :: "client \<Rightarrow> http_call \<Rightarrow> wire_request" where
  "build_request c call =
     \<lparr>wr_method = hc_method call, wr_url = TrimRight (ct_baseURL c) (CHR ''/'') @ hc_path call,
      wr_headers = (''Authorization'', ''Bearer '' @ ct_token c) # filter (\<lambda>(name, value). TrimSpace value \<noteq> []) (hc_headers call)
        @ (if hc_body call \<noteq> None then [(''Content-Type'', ''application/json'')] else []),
      wr_body = hc_body call\<rparr>"

definition maxErrorBodyBytes :: int where
  "maxErrorBodyBytes = 4096"

definition safeAPIErrorBody :: "string \<Rightarrow> string \<Rightarrow> string" where
  "safeAPIErrorBody raw token =
     (let body = TrimSpace raw;
          body = (if token \<noteq> [] then ReplaceAll body token ''[REDACTED]'' else body) in
      if int (length body) > maxErrorBodyBytes then take (nat maxErrorBodyBytes) body @ ''...'' else body)"

text \<open>A number of seconds is multiplied in 64 bits.\<close>

definition wrap64 :: "int \<Rightarrow> int" where
  "wrap64 x = (x + 2 ^ 63) mod 2 ^ 64 - 2 ^ 63"

definition parseRetryAfter :: "(string \<Rightarrow> int option) \<Rightarrow> string \<Rightarrow> int \<Rightarrow> int" where
  "parseRetryAfter date value now =
     (case (case Atoi value of Some s \<Rightarrow> if s \<ge> 0 then Some s else None | None \<Rightarrow> None) of
        Some s \<Rightarrow> wrap64 (s * second)
      | None \<Rightarrow> (case date value of Some retryAt \<Rightarrow> if retryAt > now then retryAt - now else 0 | None \<Rightarrow> 0))"

definition api_error :: "'v transport \<Rightarrow> client \<Rightarrow> reply \<Rightarrow> APIError" where
  "api_error tr c re =
     (let (code, message) = tr_error tr (re_Body re); retryAfter = TrimSpace (re_RetryAfter re) in
      \<lparr>ae_Status = re_Status re, ae_StatusCode = re_Status re, ae_Code = TrimSpace code, ae_Message = TrimSpace message,
       ae_Body = safeAPIErrorBody (re_Body re) (ct_token c), ae_RetryAfter = retryAfter,
       ae_RetryAfterDuration = parseRetryAfter (tr_date tr) retryAfter (tr_now tr)\<rparr>)"

text \<open>\<open>None\<close> is an empty body, which leaves the target as it was.\<close>

definition doWithHeaders :: "'v transport \<Rightarrow> client \<Rightarrow> http_call \<Rightarrow> (cli_error, 'v option) result" where
  "doWithHeaders tr c call =
     (if ct_token c = [] then Inl (OtherError ''SLATE_API_TOKEN is required; create one in Slate settings'')
      else
        let req = build_request c call in
        if \<not> tr_url_ok tr (wr_url req) then Inl RequestBuild
        else (case tr_send tr req of
            Inl SendCanceled \<Rightarrow> Inl Canceled
          | Inl (SendFailed message) \<Rightarrow> Inl (OtherError message)
          | Inr re \<Rightarrow>
              if re_Status re < 200 \<or> re_Status re \<ge> 300 then Inl (Api (api_error tr c re))
              else if length (re_Body re) > 0 then
                (case tr_value tr (re_Body re) of None \<Rightarrow> Inl ResponseFormat | Some v \<Rightarrow> Inr (Some v))
              else Inr None))"

text \<open>The text that the user sees of an error of the API.\<close>

definition APIError_text :: "APIError \<Rightarrow> string" where
  "APIError_text e =
     (let status = (if ae_StatusCode e = 0 then ae_Status e else ae_StatusCode e);
          detail = (if ae_Body e = [] then ae_Message e else ae_Body e) in
      ''slate API '' @ Itoa status @ '': '' @ detail)"

end
