(* ===== verification/Entitlements.thy ===== *)
theory Entitlements
  imports Prelude
begin

section \<open>Plans and limits (server/internal/entitlements)\<close>

text \<open>
  The plan catalogue and \<open>Resolve\<close>, which turns an account's role and its optional
  entitlement row into the limits every quota check uses.
\<close>

abbreviation PlanFree :: string where "PlanFree \<equiv> ''free''"
abbreviation PlanPro :: string where "PlanPro \<equiv> ''pro''"
abbreviation SourceFree :: string where "SourceFree \<equiv> ''free''"
abbreviation SourceInviteCode :: string where "SourceInviteCode \<equiv> ''invite_code''"
abbreviation SourceAdmin :: string where "SourceAdmin \<equiv> ''admin''"

record Limits =
  lim_Lists :: int
  lim_ActiveItemsPerList :: int
  lim_Agents :: int
  lim_StoredTasks :: int
  lim_StoredContentBytes :: int
  lim_APITokens :: int

record Entitlement =
  ent_Plan :: string
  ent_Source :: string
  ent_Limits :: Limits

definition planCatalog :: "string \<rightharpoonup> Limits" where
  "planCatalog = [
     PlanFree \<mapsto> \<lparr>lim_Lists = 5, lim_ActiveItemsPerList = 20, lim_Agents = 1,
       lim_StoredTasks = 500, lim_StoredContentBytes = 10 * 1024 * 1024, lim_APITokens = 3\<rparr>,
     PlanPro \<mapsto> \<lparr>lim_Lists = 45, lim_ActiveItemsPerList = 20, lim_Agents = 5,
       lim_StoredTasks = 10000, lim_StoredContentBytes = 250 * 1024 * 1024, lim_APITokens = 20\<rparr>]"

text \<open>A Go map read of an absent key gives the zero value.\<close>

definition zero_limits :: Limits where
  "zero_limits = \<lparr>lim_Lists = 0, lim_ActiveItemsPerList = 0, lim_Agents = 0,
     lim_StoredTasks = 0, lim_StoredContentBytes = 0, lim_APITokens = 0\<rparr>"

definition LimitsForPlan :: "string \<Rightarrow> Limits \<times> bool" where
  "LimitsForPlan plan = (case planCatalog plan of None \<Rightarrow> (zero_limits, False) | Some l \<Rightarrow> (l, True))"

definition FreeLimits :: Limits where
  "FreeLimits = fst (LimitsForPlan PlanFree)"

definition ProLimits :: Limits where
  "ProLimits = fst (LimitsForPlan PlanPro)"

definition Free :: Entitlement where
  "Free = \<lparr>ent_Plan = PlanFree, ent_Source = SourceFree, ent_Limits = FreeLimits\<rparr>"

definition Pro :: "string \<Rightarrow> Entitlement" where
  "Pro source = \<lparr>ent_Plan = PlanPro, ent_Source = source, ent_Limits = ProLimits\<rparr>"

definition Resolve :: "string \<Rightarrow> string \<Rightarrow> string \<Rightarrow> Entitlement" where
  "Resolve role plan source =
     (if role = ''admin'' then Pro SourceAdmin
      else if plan = PlanPro then Pro source
      else Free)"

lemma FreeLimits_simps [simp]:
  "lim_Lists FreeLimits = 5" "lim_ActiveItemsPerList FreeLimits = 20" "lim_Agents FreeLimits = 1"
  "lim_StoredTasks FreeLimits = 500" "lim_StoredContentBytes FreeLimits = 10485760"
  "lim_APITokens FreeLimits = 3"
  by (simp_all add: FreeLimits_def LimitsForPlan_def planCatalog_def)

lemma ProLimits_simps [simp]:
  "lim_Lists ProLimits = 45" "lim_ActiveItemsPerList ProLimits = 20" "lim_Agents ProLimits = 5"
  "lim_StoredTasks ProLimits = 10000" "lim_StoredContentBytes ProLimits = 262144000"
  "lim_APITokens ProLimits = 20"
  by (simp_all add: ProLimits_def LimitsForPlan_def planCatalog_def)

lemma Resolve_limits_cases: "ent_Limits (Resolve role plan source) \<in> {FreeLimits, ProLimits}"
  by (simp add: Resolve_def Pro_def Free_def)

lemma Resolve_limits_bounds:
  "500 \<le> lim_StoredTasks (ent_Limits (Resolve role plan source))"
  "lim_StoredTasks (ent_Limits (Resolve role plan source)) \<le> 10000"
  "lim_StoredContentBytes (ent_Limits (Resolve role plan source)) \<le> 262144000"
  "5 \<le> lim_Lists (ent_Limits (Resolve role plan source))"
  "lim_Lists (ent_Limits (Resolve role plan source)) \<le> 45"
  by (simp_all add: Resolve_def Pro_def Free_def)

end
