(* ===== verification/Schema.thy ===== *)
theory Schema
  imports GoStrings Entitlements
begin

section \<open>The data model of the boards store\<close>

text \<open>
  The structs of \<open>boards/types.go\<close>, the errors of \<open>boards/store.go\<close>, and the tables the
  store reads and writes, with the columns, checks, triggers and foreign keys the
  migrations give them. A table is a list of rows in insertion order; a statement without
  \<open>ORDER BY\<close> sees them in that order. A transaction is a function from the database to
  either an error, after which the database is unchanged, or the new database and a result.
  Timestamps are integers (microseconds); the transaction time \<open>now()\<close> and the identifier
  drawn by \<open>gen_random_uuid()\<close> are arguments of the operations that use them.
\<close>

subsection \<open>Constants (types.go)\<close>

abbreviation KindAction :: string where "KindAction \<equiv> ''action''"
abbreviation StatusNew :: string where "StatusNew \<equiv> ''new''"
abbreviation StatusQueued :: string where "StatusQueued \<equiv> ''queued''"
abbreviation StatusWorking :: string where "StatusWorking \<equiv> ''working''"
abbreviation StatusNeedsReview :: string where "StatusNeedsReview \<equiv> ''needs_review''"
abbreviation StatusDone :: string where "StatusDone \<equiv> ''done''"

definition MaxTaskEntries :: int where "MaxTaskEntries = 200"
definition TaskIdempotencyBytes :: nat where "TaskIdempotencyBytes = 200"
definition TaskEntryBytes :: nat where "TaskEntryBytes = 16 * 1024"

definition minPostgresInteger :: int where "minPostgresInteger = - (2 ^ 31)"
definition maxPostgresInteger :: int where "maxPostgresInteger = 2 ^ 31 - 1"

definition fits_int4 :: "int \<Rightarrow> bool" where
  "fits_int4 n \<longleftrightarrow> minPostgresInteger \<le> n \<and> n \<le> maxPostgresInteger"

text \<open>The positions 0, 1, ... written along \<open>ids\<close> are encoded as 32-bit integers.\<close>

definition positions_fit :: "string list \<Rightarrow> bool" where
  "positions_fit ids \<longleftrightarrow> int (length ids) \<le> maxPostgresInteger + 1"

subsection \<open>Structs (types.go)\<close>

record Task =
  tID :: string
  tBucketID :: string
  tTitle :: string
  tDescription :: string
  tScheduledDate :: string
  tKind :: string
  tStatus :: string
  tPriority :: string
  tAssigneeAgentID :: string
  tAssigneeAgentName :: string
  tExecutionRunID :: string
  tParentTaskID :: string
  tParentTaskTitle :: string
  tBucketName :: string
  tSortOrder :: int
  tCreatedAt :: int
  tUpdatedAt :: int

record Bucket =
  bID :: string
  bName :: string
  bGoal :: string
  bColor :: string
  bIsInbox :: bool
  bLimitCount :: int
  bSortOrder :: int
  bOpenCount :: int
  bCreatedAt :: int
  bUpdatedAt :: int
  bTasks :: "Task list"
  bCompletedNextCursor :: string

record CreateBucketInput =
  cbName :: string
  cbGoal :: string
  cbColor :: string
  cbLimitCount :: int
  cbIsInbox :: bool

record UpdateBucketInput =
  ubName :: "string option"
  ubGoal :: "string option"
  ubColor :: "string option"
  ubLimitCount :: "int option"
  ubIsInbox :: "bool option"
  ubSortOrder :: "int option"

record CreateTaskInput =
  ciTitle :: string
  ciDescription :: string
  ciScheduledDate :: string
  ciKind :: string
  ciStatus :: string
  ciPriority :: string
  ciOverrideLimit :: bool
  ciAssigneeAgentID :: string
  ciParentTaskID :: string
  ciIdempotencyKey :: string

record UpdateTaskInput =
  uiTitle :: "string option"
  uiDescription :: "string option"
  uiScheduledDate :: "string option"
  uiKind :: "string option"
  uiBucketID :: "string option"
  uiStatus :: "string option"
  uiDone :: "bool option"
  uiPriority :: "string option"
  uiAssigneeAgentID :: "string option"
  uiSortOrder :: "int option"
  uiRunID :: string

record MoveTaskInput =
  miBucketID :: string
  miPosition :: "int option"
  miReferenceTaskID :: string
  miPlacement :: string
  miPreservePosition :: bool
  miAppend :: bool
  miStatus :: string

record TaskEntry =
  teID :: string
  teTaskID :: string
  teKind :: string
  teBody :: string
  teAuthorKind :: string
  teAuthorID :: string
  teAuthorName :: string
  teRunID :: string
  teCreatedAt :: int
  teTaskStatus :: string
  teTaskReviewReason :: string

record CreateTaskEntryInput =
  ceKind :: string
  ceBody :: string
  ceIdempotencyKey :: string
  ceRunID :: string

subsection \<open>Errors\<close>

datatype pg_error = NoRows | InvalidUUID | IntegerOutOfRange | DateOutOfRange | UniqueViolation
  | ForeignKeyViolation

text \<open>The sentinel errors of \<open>store.go\<close>; \<open>ErrInvalidData\<close> carries the message it wraps.\<close>

datatype store_error =
    ErrNotFound
  | ErrLimitFull
  | ErrListLimit
  | ErrActiveItemLimit
  | ErrInvalidData string
  | ErrTaskUnavailable
  | ErrIdempotencyKey
  | ErrIdempotencyGone
  | ErrAgentTaskScope
  | ErrManagedRunMismatch
  | ErrManagedRunStatusLocked
  | StorageQuotaError string int int
  | ErrNegativeCounters string
  | ErrDB pg_error

subsection \<open>Tables\<close>

record user_row =
  us_id :: string
  us_email :: string
  us_password :: string
  us_role :: string
  us_theme :: string
  us_name :: string
  us_disabled_at :: "int option"
  us_created :: int

abbreviation us_disabled :: "user_row \<Rightarrow> bool" where
  "us_disabled u \<equiv> us_disabled_at u \<noteq> None"

record entitlement_row =
  en_user :: string
  en_plan :: string
  en_source :: string

record usage_row =
  su_user :: string
  su_tasks :: int
  su_bytes :: int

record agent_row =
  ag_id :: string
  ag_owner :: string
  ag_name :: string
  ag_purpose :: "string option"
  ag_archived :: bool
  ag_created :: int
  ag_updated :: int

record bucket_row =
  bk_id :: string
  bk_user :: string
  bk_name :: string
  bk_goal :: string
  bk_color :: string
  bk_inbox :: bool
  bk_limit :: int
  bk_sort :: int
  bk_created :: int
  bk_updated :: int

record task_row =
  tk_id :: string
  tk_bucket :: string
  tk_owner :: string
  tk_title :: string
  tk_description :: string
  tk_date :: "string option"
  tk_kind :: string
  tk_status :: string
  tk_priority :: string
  tk_sort :: int
  tk_created :: int
  tk_updated :: int
  tk_assignee :: "string option"
  tk_parent :: "string option"
  tk_run :: "string option"
  tk_review :: string
  tk_completed :: "int option"

record entry_row =
  er_id :: string
  er_task :: string
  er_kind :: string
  er_body :: string
  er_author_kind :: string
  er_author :: string
  er_author_name :: string
  er_key :: "string option"
  er_hash :: string
  er_run :: "string option"
  er_created :: int

record idem_row =
  ik_user :: string
  ik_key :: string
  ik_hash :: string
  ik_task :: "string option"
  ik_data_hash :: "string option"
  ik_created :: int

record run_start_row =
  rs_owner :: string
  rs_run :: string
  rs_task :: "string option"
  rs_started :: int

record db =
  users :: "user_row list"
  entitlement_rows :: "entitlement_row list"
  usages :: "usage_row list"
  agent_rows :: "agent_row list"
  buckets :: "bucket_row list"
  tasks :: "task_row list"
  entries :: "entry_row list"
  idem_keys :: "idem_row list"
  run_starts :: "run_start_row list"

type_synonym 'a tx = "(store_error, db \<times> 'a) result"

subsection \<open>What the store relies on outside the sources\<close>

text \<open>
  PostgreSQL's reading of a text as a \<open>uuid\<close> (the canonical text of the value, or an
  error), SHA-256 over \<open>json.Marshal\<close> in Go and over a \<open>jsonb\<close> value in SQL, and the
  locale-dependent \<open>lower\<close> of SQL. They are
  parameters of the model; a JSON text is represented by the value it encodes.
\<close>

datatype json = JStr string | JBool bool | JObj "(string \<times> json) list"

record env =
  uuid_in :: "string \<Rightarrow> string option"
  sha_json :: "json \<Rightarrow> string"
  sha_jsonb :: "json \<Rightarrow> string"
  sql_lower :: "string \<Rightarrow> string"

definition uuid_arg :: "env \<Rightarrow> string \<Rightarrow> (store_error, string) result" where
  "uuid_arg e s = (case uuid_in e s of None \<Rightarrow> Inl (ErrDB InvalidUUID) | Some v \<Rightarrow> Inr v)"

lemma uuid_arg_eq_Inr [simp, result_simps]: "uuid_arg e s = Inr v \<longleftrightarrow> uuid_in e s = Some v"
  by (auto simp: uuid_arg_def split: option.splits)

definition null_text :: "string option \<Rightarrow> string" where
  "null_text v = (case v of None \<Rightarrow> [] | Some s \<Rightarrow> s)"

definition nullif_empty :: "string \<Rightarrow> string option" where
  "nullif_empty s = (if s = [] then None else Some s)"

lemma null_text_simps [simp]: "null_text None = []" "null_text (Some s) = s"
  by (simp_all add: null_text_def)

lemma null_text_nullif [simp]: "null_text (nullif_empty s) = s"
  by (simp add: nullif_empty_def)

lemma nullif_empty_simps [simp]:
  "nullif_empty [] = None" "nullif_empty (c # s) = Some (c # s)"
  "nullif_empty s = None \<longleftrightarrow> s = []"
  by (simp_all add: nullif_empty_def)

end
