(* ===== verification/StorageQuota.thy ===== *)
theory StorageQuota
  imports Schema
begin

section \<open>Storage quotas (boards/storage\_quota.go)\<close>

text \<open>
  The per-account counters of stored tasks and stored bytes: locking and reading them,
  \<open>apply\<close>, which checks a change against the account's limits before writing the counters,
  and the measures of what a deletion frees. The second half states what the counters
  should say, \<open>accounting_ok\<close>, and how each elementary change of the tables moves both sides.
\<close>

subsection \<open>The operations\<close>

record storageUsage =
  u_Tasks :: int
  u_ContentBytes :: int

record storageQuota =
  q_userID :: string
  q_limits :: Limits
  q_usage :: storageUsage

definition StoredTaskLimitCode :: string where
  "StoredTaskLimitCode = ''stored_task_limit_reached''"

definition StoredContentLimitCode :: string where
  "StoredContentLimitCode = ''stored_content_limit_reached''"

definition accountLimitsForUpdate :: "db \<Rightarrow> string \<Rightarrow> (store_error, Limits) result" where
  "accountLimitsForUpdate db userID =
     (case List.find (\<lambda>u. us_id u = userID \<and> \<not> us_disabled u) (users db) of
        None \<Rightarrow> Inl ErrNotFound
      | Some u \<Rightarrow>
          (case List.find (\<lambda>e. en_user e = us_id u) (entitlement_rows db) of
             None \<Rightarrow> Inr (ent_Limits (Resolve (us_role u) [] []))
           | Some e \<Rightarrow> Inr (ent_Limits (Resolve (us_role u) (en_plan e) (en_source e)))))"

definition accountStorageUsage :: "db \<Rightarrow> string \<Rightarrow> (store_error, storageUsage) result" where
  "accountStorageUsage db userID =
     (case List.find (\<lambda>r. su_user r = userID) (usages db) of
        None \<Rightarrow> Inl (ErrDB NoRows)
      | Some r \<Rightarrow> Inr \<lparr>u_Tasks = su_tasks r, u_ContentBytes = su_bytes r\<rparr>)"

text \<open>\<open>INSERT INTO account_storage_usage ... ON CONFLICT DO NOTHING\<close>: new rows start at zero.\<close>

definition ensure_usage_row :: "db \<Rightarrow> string \<Rightarrow> db" where
  "ensure_usage_row db userID =
     (case List.find (\<lambda>r. su_user r = userID) (usages db) of
        Some _ \<Rightarrow> db
      | None \<Rightarrow> db\<lparr>usages := usages db @ [\<lparr>su_user = userID, su_tasks = 0, su_bytes = 0\<rparr>]\<rparr>)"

definition lockStorageQuota :: "db \<Rightarrow> string \<Rightarrow> storageQuota tx" where
  "lockStorageQuota db userID =
     rbind (accountLimitsForUpdate db userID) (\<lambda>limits.
     let db1 = ensure_usage_row db userID in
     rbind (accountStorageUsage db1 userID) (\<lambda>usage.
     Inr (db1, \<lparr>q_userID = userID, q_limits = limits, q_usage = usage\<rparr>)))"

definition write_usage :: "db \<Rightarrow> string \<Rightarrow> storageUsage \<Rightarrow> db" where
  "write_usage db userID usage =
     db\<lparr>usages := update_where (\<lambda>r. su_user r = userID)
          (\<lambda>r. r\<lparr>su_tasks := u_Tasks usage, su_bytes := u_ContentBytes usage\<rparr>) (usages db)\<rparr>"

definition quota_apply :: "db \<Rightarrow> storageQuota \<Rightarrow> int \<Rightarrow> int \<Rightarrow> storageQuota tx" where
  "quota_apply db q taskDelta contentDelta =
     (if taskDelta = 0 \<and> contentDelta = 0 then Inr (db, q)
      else if taskDelta > 0 \<and> u_Tasks (q_usage q) + taskDelta > lim_StoredTasks (q_limits q) then
        Inl (StorageQuotaError StoredTaskLimitCode (u_Tasks (q_usage q)) (lim_StoredTasks (q_limits q)))
      else if contentDelta > 0
          \<and> u_ContentBytes (q_usage q) + contentDelta > lim_StoredContentBytes (q_limits q) then
        Inl (StorageQuotaError StoredContentLimitCode (u_ContentBytes (q_usage q))
               (lim_StoredContentBytes (q_limits q)))
      else
        let projected = \<lparr>u_Tasks = u_Tasks (q_usage q) + taskDelta,
                         u_ContentBytes = u_ContentBytes (q_usage q) + contentDelta\<rparr> in
        if u_Tasks projected < 0 \<or> u_ContentBytes projected < 0
        then Inl (ErrNegativeCounters (q_userID q))
        else Inr (write_usage db (q_userID q) projected, q\<lparr>q_usage := projected\<rparr>))"

text \<open>The generated column \<open>storage_bytes\<close> and the bytes of a task's card entries.\<close>

definition storage_bytes :: "task_row \<Rightarrow> int" where
  "storage_bytes t = int (length (tk_title t) + length (tk_description t))"

definition entry_bytes :: "entry_row list \<Rightarrow> string \<Rightarrow> int" where
  "entry_bytes es taskID = sum_where (\<lambda>e. er_task e = taskID) (\<lambda>e. int (length (er_body e))) es"

definition content_bytes :: "entry_row list \<Rightarrow> task_row \<Rightarrow> int" where
  "content_bytes es t = storage_bytes t + entry_bytes es (tk_id t)"

definition lockedTaskStorage :: "db \<Rightarrow> (task_row \<Rightarrow> bool) \<Rightarrow> storageUsage" where
  "lockedTaskStorage db P =
     fold (\<lambda>t usage. usage\<lparr>u_Tasks := u_Tasks usage + 1,
              u_ContentBytes := u_ContentBytes usage + content_bytes (entries db) t\<rparr>)
       (filter P (tasks db)) \<lparr>u_Tasks = 0, u_ContentBytes = 0\<rparr>"

text \<open>
  The rows an \<open>ON DELETE CASCADE\<close> along \<open>parent_task_id\<close> takes with the rows satisfying
  \<open>P\<close>, which is also the recursive query \<open>cascade_tasks\<close>: a row satisfies \<open>P\<close> or one of its
  ancestors does. The walk up visits a row at most once before repeating itself, so the
  number of tasks bounds it.
\<close>

fun in_cascade :: "nat \<Rightarrow> task_row list \<Rightarrow> (task_row \<Rightarrow> bool) \<Rightarrow> task_row \<Rightarrow> bool" where
  "in_cascade 0 ts P t = P t"
| "in_cascade (Suc n) ts P t =
     (P t \<or> (case tk_parent t of None \<Rightarrow> False
             | Some p \<Rightarrow> (case List.find (\<lambda>x. tk_id x = p) ts of
                            None \<Rightarrow> False | Some x \<Rightarrow> in_cascade n ts P x)))"

definition cascade_tasks :: "task_row list \<Rightarrow> (task_row \<Rightarrow> bool) \<Rightarrow> task_row \<Rightarrow> bool" where
  "cascade_tasks ts P t = in_cascade (length ts) ts P t"

definition lockedBucketTaskStorage :: "db \<Rightarrow> string \<Rightarrow> storageUsage" where
  "lockedBucketTaskStorage db bucketID =
     lockedTaskStorage db (cascade_tasks (tasks db) (\<lambda>t. tk_bucket t = bucketID))"

definition taskContentBytes :: "Task \<Rightarrow> int" where
  "taskContentBytes task = int (length (tTitle task) + length (tDescription task))"

definition inputContentBytes :: "string \<Rightarrow> string \<Rightarrow> int" where
  "inputContentBytes title description = int (length title + length description)"

text \<open>
  \<open>DELETE FROM tasks\<close> with the foreign keys that point at tasks: subtasks and card entries
  go with the row, idempotency keys and run starts keep their row without the reference.
\<close>

definition delete_tasks :: "db \<Rightarrow> (task_row \<Rightarrow> bool) \<Rightarrow> db" where
  "delete_tasks db P =
     (let gone = cascade_tasks (tasks db) P;
          gone_ids = map tk_id (filter gone (tasks db));
          clear = (\<lambda>r. case r of None \<Rightarrow> None
                     | Some i \<Rightarrow> if i \<in> set gone_ids then None else Some i) in
      db\<lparr>tasks := delete_where gone (tasks db),
         entries := delete_where (\<lambda>e. er_task e \<in> set gone_ids) (entries db),
         idem_keys := map (\<lambda>k. k\<lparr>ik_task := clear (ik_task k)\<rparr>) (idem_keys db),
         run_starts := map (\<lambda>r. r\<lparr>rs_task := clear (rs_task r)\<rparr>) (run_starts db)\<rparr>)"

subsection \<open>What the counters should say\<close>

definition stored_tasks_of :: "db \<Rightarrow> string \<Rightarrow> int" where
  "stored_tasks_of db u = count_where (\<lambda>t. tk_owner t = u) (tasks db)"

definition stored_bytes_of :: "db \<Rightarrow> string \<Rightarrow> int" where
  "stored_bytes_of db u = sum_where (\<lambda>t. tk_owner t = u) (content_bytes (entries db)) (tasks db)"

definition usage_of :: "db \<Rightarrow> string \<Rightarrow> storageUsage" where
  "usage_of db u =
     (case List.find (\<lambda>r. su_user r = u) (usages db) of
        None \<Rightarrow> \<lparr>u_Tasks = 0, u_ContentBytes = 0\<rparr>
      | Some r \<Rightarrow> \<lparr>u_Tasks = su_tasks r, u_ContentBytes = su_bytes r\<rparr>)"

definition accounting_ok :: "db \<Rightarrow> bool" where
  "accounting_ok db \<longleftrightarrow>
     (\<forall>u. usage_of db u = \<lparr>u_Tasks = stored_tasks_of db u, u_ContentBytes = stored_bytes_of db u\<rparr>)"

subsection \<open>Reading and writing the counters\<close>

definition has_usage_row :: "db \<Rightarrow> string \<Rightarrow> bool" where
  "has_usage_row db u \<longleftrightarrow> List.find (\<lambda>r. su_user r = u) (usages db) \<noteq> None"

lemma find_append: "List.find P (xs @ ys) = (case List.find P xs of None \<Rightarrow> List.find P ys | Some x \<Rightarrow> Some x)"
  by (induction xs) auto

lemma ensure_usage_row_frame [simp]:
  "users (ensure_usage_row db u) = users db"
  "entitlement_rows (ensure_usage_row db u) = entitlement_rows db"
  "agent_rows (ensure_usage_row db u) = agent_rows db" "buckets (ensure_usage_row db u) = buckets db"
  "tasks (ensure_usage_row db u) = tasks db" "entries (ensure_usage_row db u) = entries db"
  "idem_keys (ensure_usage_row db u) = idem_keys db" "run_starts (ensure_usage_row db u) = run_starts db"
  by (simp_all add: ensure_usage_row_def split: option.splits)

lemma usage_of_ensure [simp]: "usage_of (ensure_usage_row db u) v = usage_of db v"
  by (auto simp: ensure_usage_row_def usage_of_def find_append split: option.splits)

lemma has_usage_row_ensure [simp]: "has_usage_row (ensure_usage_row db u) u"
  by (auto simp: ensure_usage_row_def has_usage_row_def find_append split: option.splits)

lemma lockStorageQuota_eq_Inr [result_simps]:
  "lockStorageQuota db u = Inr (db1, q) \<longleftrightarrow>
     (\<exists>limits. accountLimitsForUpdate db u = Inr limits \<and> db1 = ensure_usage_row db u
        \<and> q = \<lparr>q_userID = u, q_limits = limits, q_usage = usage_of db u\<rparr>)"
proof -
  obtain r where "List.find (\<lambda>r. su_user r = u) (usages (ensure_usage_row db u)) = Some r"
    using has_usage_row_ensure [of db u] by (auto simp: has_usage_row_def)
  then have "accountStorageUsage (ensure_usage_row db u) u = Inr (usage_of (ensure_usage_row db u) u)"
    by (simp add: accountStorageUsage_def usage_of_def)
  then show ?thesis
    by (auto simp: lockStorageQuota_def Let_def rbind_eq_Inr)
qed

lemma write_usage_frame [simp]:
  "users (write_usage db u s) = users db" "entitlement_rows (write_usage db u s) = entitlement_rows db"
  "agent_rows (write_usage db u s) = agent_rows db" "buckets (write_usage db u s) = buckets db"
  "tasks (write_usage db u s) = tasks db" "entries (write_usage db u s) = entries db"
  "idem_keys (write_usage db u s) = idem_keys db" "run_starts (write_usage db u s) = run_starts db"
  by (simp_all add: write_usage_def)

lemma find_update_where:
  assumes "\<And>r. Q (f r) = Q r"
  shows "List.find Q (update_where P f rows) =
    map_option (\<lambda>r. if P r then f r else r) (List.find Q rows)"
  using assms by (induction rows) auto

lemma usage_of_write:
  "has_usage_row db u \<Longrightarrow> usage_of (write_usage db u s) v = (if v = u then s else usage_of db v)"
  by (auto simp: usage_of_def write_usage_def has_usage_row_def find_update_where
      split: option.splits dest: find_SomeD)

text \<open>
  A granted change moves the account's counters by exactly the deltas asked for, touches
  nothing else, and keeps a counter it raised within the account's limit.
\<close>

definition moved_usage :: "storageUsage \<Rightarrow> int \<Rightarrow> int \<Rightarrow> storageUsage" where
  "moved_usage s a b = \<lparr>u_Tasks = u_Tasks s + a, u_ContentBytes = u_ContentBytes s + b\<rparr>"

lemma quota_apply_moves:
  assumes "quota_apply db q a b = Inr (db', q')"
    and "q_usage q = usage_of db (q_userID q)" and "has_usage_row db (q_userID q)"
  shows "usage_of db' v = (if v = q_userID q then moved_usage (usage_of db v) a b else usage_of db v)"
  using assms
  by (auto simp: quota_apply_def Let_def usage_of_write moved_usage_def split: if_splits)

lemma quota_apply_frame:
  assumes "quota_apply db q a b = Inr (db', q')"
  shows "users db' = users db" "entitlement_rows db' = entitlement_rows db"
    "agent_rows db' = agent_rows db" "buckets db' = buckets db" "tasks db' = tasks db"
    "entries db' = entries db" "idem_keys db' = idem_keys db" "run_starts db' = run_starts db"
  using assms by (auto simp: quota_apply_def Let_def split: if_splits)

lemma quota_apply_within_limits:
  assumes "quota_apply db q a b = Inr (db', q')"
  shows "a > 0 \<Longrightarrow> u_Tasks (q_usage q) + a \<le> lim_StoredTasks (q_limits q)"
    and "b > 0 \<Longrightarrow> u_ContentBytes (q_usage q) + b \<le> lim_StoredContentBytes (q_limits q)"
  using assms by (auto simp: quota_apply_def Let_def split: if_splits)

lemma quota_apply_shrink_ok:
  assumes "a \<le> 0" "b \<le> 0" "0 \<le> u_Tasks (q_usage q) + a" "0 \<le> u_ContentBytes (q_usage q) + b"
  shows "\<exists>db' q'. quota_apply db q a b = Inr (db', q')"
  using assms by (auto simp: quota_apply_def Let_def)

subsection \<open>Moving both sides together\<close>

lemma accounting_moved:
  assumes "accounting_ok db"
    and "\<And>v. stored_tasks_of db' v = stored_tasks_of db v + (if v = u then a else 0)"
    and "\<And>v. stored_bytes_of db' v = stored_bytes_of db v + (if v = u then b else 0)"
    and "\<And>v. usage_of db' v = (if v = u then moved_usage (usage_of db v) a b else usage_of db v)"
  shows "accounting_ok db'"
  using assms by (simp add: accounting_ok_def moved_usage_def)

lemma accounting_unmoved:
  assumes "accounting_ok db" and "\<And>v. stored_tasks_of db' v = stored_tasks_of db v"
    and "\<And>v. stored_bytes_of db' v = stored_bytes_of db v" and "\<And>v. usage_of db' v = usage_of db v"
  shows "accounting_ok db'"
  using assms by (simp add: accounting_ok_def)

lemma stored_of_cong:
  assumes "tasks db' = tasks db" "entries db' = entries db"
  shows "stored_tasks_of db' u = stored_tasks_of db u" "stored_bytes_of db' u = stored_bytes_of db u"
  using assms by (simp_all add: stored_tasks_of_def stored_bytes_of_def)

lemma accounting_ensure [simp]: "accounting_ok (ensure_usage_row db u) \<longleftrightarrow> accounting_ok db"
  by (simp add: accounting_ok_def stored_tasks_of_def stored_bytes_of_def)

lemma lockedTaskStorage_eq:
  "lockedTaskStorage db P =
     \<lparr>u_Tasks = count_where P (tasks db),
      u_ContentBytes = sum_where P (content_bytes (entries db)) (tasks db)\<rparr>"
proof -
  have "fold (\<lambda>t usage. usage\<lparr>u_Tasks := u_Tasks usage + 1,
            u_ContentBytes := u_ContentBytes usage + v t\<rparr>) ts s =
        \<lparr>u_Tasks = u_Tasks s + int (length ts), u_ContentBytes = u_ContentBytes s + sum_list (map v ts)\<rparr>"
    for ts :: "task_row list" and v and s :: storageUsage
    by (induction ts arbitrary: s) simp_all
  then show ?thesis
    by (simp add: lockedTaskStorage_def count_where_def sum_where_def)
qed

lemma storage_bytes_nonneg [simp]: "0 \<le> storage_bytes t"
  by (simp add: storage_bytes_def)

lemma content_bytes_nonneg [simp]: "0 \<le> content_bytes es t"
  by (simp add: content_bytes_def entry_bytes_def sum_where_nonneg)

lemma entry_bytes_append:
  "entry_bytes (es @ [e]) i = entry_bytes es i + (if er_task e = i then int (length (er_body e)) else 0)"
  by (simp add: entry_bytes_def)

lemma entry_bytes_delete:
  "i \<notin> gone \<Longrightarrow> entry_bytes (delete_where (\<lambda>e. er_task e \<in> gone) es) i = entry_bytes es i"
  by (induction es) (auto simp: entry_bytes_def delete_where_def)

lemma delete_tasks_frame [simp]:
  "users (delete_tasks db P) = users db" "entitlement_rows (delete_tasks db P) = entitlement_rows db"
  "usages (delete_tasks db P) = usages db" "agent_rows (delete_tasks db P) = agent_rows db"
  "buckets (delete_tasks db P) = buckets db"
  "tasks (delete_tasks db P) = delete_where (cascade_tasks (tasks db) P) (tasks db)"
  by (simp_all add: delete_tasks_def Let_def)

lemma usage_of_cong: "usages db' = usages db \<Longrightarrow> usage_of db' u = usage_of db u"
  by (simp add: usage_of_def)

lemma stored_tasks_delete:
  "stored_tasks_of (delete_tasks db P) u =
     stored_tasks_of db u - count_where (\<lambda>t. tk_owner t = u \<and> cascade_tasks (tasks db) P t) (tasks db)"
  by (simp add: stored_tasks_of_def count_where_delete)

lemma stored_bytes_delete:
  assumes "distinct (map tk_id (tasks db))"
  shows "stored_bytes_of (delete_tasks db P) u = stored_bytes_of db u
    - sum_where (\<lambda>t. tk_owner t = u \<and> cascade_tasks (tasks db) P t) (content_bytes (entries db)) (tasks db)"
proof -
  let ?gone = "cascade_tasks (tasks db) P"
  let ?ids = "set (map tk_id (filter ?gone (tasks db)))"
  have kept: "entry_bytes (entries (delete_tasks db P)) (tk_id t) = entry_bytes (entries db) (tk_id t)"
    if "t \<in> set (tasks db)" "\<not> ?gone t" for t
  proof -
    have "tk_id t \<notin> ?ids" using that assms by (auto dest: distinct_key_inj)
    then show ?thesis by (simp add: delete_tasks_def Let_def entry_bytes_delete)
  qed
  have "stored_bytes_of (delete_tasks db P) u =
      sum_where (\<lambda>t. tk_owner t = u) (content_bytes (entries db)) (delete_where ?gone (tasks db))"
    unfolding stored_bytes_of_def delete_tasks_frame by (rule sum_where_cong) (auto simp: content_bytes_def kept)
  then show ?thesis by (simp add: stored_bytes_of_def sum_where_delete)
qed

end
