(* ===== verification/Ordering.thy ===== *)
theory Ordering
  imports Prelude
begin

section \<open>Manually ordered rows\<close>

text \<open>
  Lists and tasks are shown in \<open>ORDER BY sort_order, created_at, id\<close>, and the store
  reorders them by writing 0, 1, 2, ... to \<open>sort_order\<close> along a list of identifiers. The
  locale states what such a table offers; its lemmas show that the order read back after
  writing a complete list of identifiers is that list. It is interpreted on the tasks and
  on the buckets table.
\<close>

fun index_of :: "'a list \<Rightarrow> 'a \<Rightarrow> nat option" where
  "index_of [] x = None"
| "index_of (y # ys) x = (if y = x then Some 0 else map_option Suc (index_of ys x))"

lemma index_of_None [simp]: "index_of xs x = None \<longleftrightarrow> x \<notin> set xs"
  by (induction xs) auto

lemma index_of_Some: "index_of xs x = Some i \<Longrightarrow> i < length xs \<and> xs ! i = x"
  by (induction xs arbitrary: i) (auto split: if_splits)

lemma index_of_in: "index_of xs x = Some i \<Longrightarrow> x \<in> set xs"
  using index_of_Some by force

lemma index_of_nth: "distinct xs \<Longrightarrow> i < length xs \<Longrightarrow> index_of xs (xs ! i) = Some i"
proof (induction xs arbitrary: i)
  case (Cons y ys)
  then show ?case by (cases i) auto
qed simp

lemma sorted_positions_unique:
  assumes "distinct ids" and "mset xs = mset ids" and "sorted (map (\<lambda>x. the (index_of ids x)) xs)"
  shows "xs = ids"
proof -
  let ?pos = "\<lambda>x. the (index_of ids x)"
  have ids: "map ?pos ids = [0..<length ids]"
    using index_of_nth [OF assms(1)] by (intro nth_equalityI) simp_all
  have "mset (map ?pos xs) = mset [0..<length ids]"
    unfolding ids [symmetric] using assms(2) by simp
  then have "sort [0..<length ids] = map ?pos xs"
    using assms(3) by (rule properties_for_sort)
  then have eq: "map ?pos xs = map ?pos ids" by (simp add: ids sorted_sort_id)
  moreover have "inj_on ?pos (set ids)"
    using ids by (metis distinct_map distinct_upt)
  moreover have "set xs = set ids" using assms(2) by (rule mset_eq_setD)
  ultimately show ?thesis by (metis map_inj_on sup.idem)
qed

text \<open>\<open>for i, id := range ids { UPDATE ... SET sort_order = i WHERE id = id }\<close>\<close>

fun write_positions ::
    "('a \<Rightarrow> string) \<Rightarrow> (int \<Rightarrow> 'a \<Rightarrow> 'a) \<Rightarrow> int \<Rightarrow> string list \<Rightarrow> 'a list \<Rightarrow> 'a list" where
  "write_positions rid put i [] rows = rows"
| "write_positions rid put i (x # ids) rows =
     write_positions rid put (i + 1) ids (update_where (\<lambda>r. rid r = x) (put i) rows)"

definition order_key :: "('a \<Rightarrow> string) \<Rightarrow> ('a \<Rightarrow> int) \<Rightarrow> ('a \<Rightarrow> int) \<Rightarrow> 'a \<Rightarrow> int \<times> int \<times> string" where
  "order_key rid rsort rcreated r = (rsort r, rcreated r, rid r)"

definition ordered_ids ::
    "('a \<Rightarrow> string) \<Rightarrow> ('a \<Rightarrow> int) \<Rightarrow> ('a \<Rightarrow> int) \<Rightarrow> ('a \<Rightarrow> bool) \<Rightarrow> 'a list \<Rightarrow> string list" where
  "ordered_ids rid rsort rcreated P rows =
     map rid (sort_key (order_key rid rsort rcreated) (filter P rows))"

lemma set_ordered_ids [simp]: "set (ordered_ids rid rsort rcreated P rows) = rid ` {r \<in> set rows. P r}"
  by (simp add: ordered_ids_def)

lemma distinct_ordered_ids:
  assumes "distinct (map rid rows)"
  shows "distinct (ordered_ids rid rsort rcreated P rows)"
  using distinct_map_filter [OF assms, of P] by (simp add: ordered_ids_def distinct_map)

lemma insort_key_map: "insort_key k (f x) (map f xs) = map f (insort_key (\<lambda>x. k (f x)) x xs)"
  by (induction xs) auto

lemma sort_key_map: "sort_key k (map f xs) = map f (sort_key (\<lambda>x. k (f x)) xs)"
  by (induction xs) (simp_all add: insort_key_map)

lemma insort_key_same: "(\<And>y. y \<in> insert x (set xs) \<Longrightarrow> k y = k' y) \<Longrightarrow> insort_key k x xs = insort_key k' x xs"
  by (induction xs) auto

lemma sort_key_same: "(\<And>y. y \<in> set xs \<Longrightarrow> k y = k' y) \<Longrightarrow> sort_key k xs = sort_key k' xs"
proof (induction xs)
  case (Cons x xs)
  have "insort_key k x (sort_key k' xs) = insort_key k' x (sort_key k' xs)"
    using Cons.prems by (intro insort_key_same) auto
  then show ?case using Cons by simp
qed simp

text \<open>Changing other columns of the rows does not change their order.\<close>

lemma ordered_ids_map:
  assumes "\<And>r. r \<in> set rows \<Longrightarrow> rid (f r) = rid r \<and> rsort (f r) = rsort r \<and> rcreated (f r) = rcreated r \<and> P (f r) = Q r"
  shows "ordered_ids rid rsort rcreated P (map f rows) = ordered_ids rid rsort rcreated Q rows"
proof -
  have "filter (\<lambda>r. P (f r)) rows = filter Q rows" using assms by (intro filter_cong) auto
  then have "ordered_ids rid rsort rcreated P (map f rows) =
      map rid (map f (sort_key (\<lambda>r. order_key rid rsort rcreated (f r)) (filter Q rows)))"
    by (simp add: ordered_ids_def filter_map o_def sort_key_map)
  also have "sort_key (\<lambda>r. order_key rid rsort rcreated (f r)) (filter Q rows) =
      sort_key (order_key rid rsort rcreated) (filter Q rows)"
    using assms by (intro sort_key_same) (auto simp: order_key_def)
  also have "map rid (map f (sort_key (order_key rid rsort rcreated) (filter Q rows))) =
      map rid (sort_key (order_key rid rsort rcreated) (filter Q rows))"
    using assms by auto
  finally show ?thesis by (simp add: ordered_ids_def)
qed

lemma filter_ordered_ids:
  "filter Q (ordered_ids rid rsort rcreated P rows) = ordered_ids rid rsort rcreated (\<lambda>r. P r \<and> Q (rid r)) rows"
  by (simp add: ordered_ids_def filter_map filter_sort o_def conj_commute)

locale ordered_rows =
  fixes rid :: "'a \<Rightarrow> string" and rsort :: "'a \<Rightarrow> int" and rcreated :: "'a \<Rightarrow> int"
    and put :: "int \<Rightarrow> 'a \<Rightarrow> 'a"
  assumes rid_put: "rid (put i r) = rid r"
    and rsort_put: "rsort (put i r) = i"
    and put_put: "put i (put j r) = put i r"
begin

lemma write_positions_map:
  "distinct ids \<Longrightarrow> write_positions rid put i ids rows =
     map (\<lambda>r. case index_of ids (rid r) of None \<Rightarrow> r | Some k \<Rightarrow> put (i + int k) r) rows"
proof (induction ids arbitrary: i rows)
  case (Cons x ids)
  have "write_positions rid put i (x # ids) rows =
      map (\<lambda>r. case index_of ids (rid r) of None \<Rightarrow> r | Some k \<Rightarrow> put (i + 1 + int k) r)
        (update_where (\<lambda>r. rid r = x) (put i) rows)"
    using Cons by simp
  also have "\<dots> = map (\<lambda>r. case index_of (x # ids) (rid r) of None \<Rightarrow> r | Some k \<Rightarrow> put (i + int k) r) rows"
    using Cons.prems
    by (auto simp: update_where_def rid_put add.assoc split: option.splits dest: index_of_in)
  finally show ?case .
qed simp

lemma map_rid_write: "map rid (write_positions rid put i ids rows) = map rid rows"
proof (induction ids arbitrary: i rows)
  case (Cons x ids)
  then show ?case by (simp add: map_update_where rid_put)
qed simp

lemma write_position:
  assumes "distinct ids" "i < length ids" "r \<in> set (write_positions rid put 0 ids rows)" "rid r = ids ! i"
  shows "rsort r = int i"
proof -
  from assms(3) obtain r0 where "r0 \<in> set rows"
    and r: "r = (case index_of ids (rid r0) of None \<Rightarrow> r0 | Some k \<Rightarrow> put (0 + int k) r0)"
    unfolding write_positions_map [OF assms(1)] by auto
  moreover have "rid r0 = ids ! i"
    using r assms(4) by (auto simp: rid_put split: option.splits)
  ultimately show ?thesis using index_of_nth [OF assms(1,2)] by (simp add: rsort_put)
qed

text \<open>Writing a complete order and reading it back gives the order written.\<close>

lemma order_after_write:
  assumes "distinct (map rid rows)" and "distinct ids"
    and complete: "set ids = rid ` {r \<in> set rows. P r}"
    and P_put: "\<And>i r. P (put i r) = P r"
  shows "ordered_ids rid rsort rcreated P (write_positions rid put 0 ids rows) = ids"
proof -
  define rows' where "rows' = filter P (write_positions rid put 0 ids rows)"
  have "distinct (map rid (write_positions rid put 0 ids rows))"
    by (simp add: map_rid_write assms(1))
  then have dist: "distinct (map rid rows')"
    unfolding rows'_def by (rule distinct_map_filter)
  have key: "order_key rid rsort rcreated r = order_key rid rsort rcreated r' \<Longrightarrow> rid r = rid r'" for r r'
    by (simp add: order_key_def)
  have "set (map rid rows') = set ids"
  proof -
    define f where "f r = (case index_of ids (rid r) of None \<Rightarrow> r | Some k \<Rightarrow> put (0 + int k) r)" for r
    have f: "rid (f r) = rid r" "P (f r) = P r" for r
      by (simp_all add: f_def rid_put P_put split: option.splits)
    have "map rid rows' = map rid (filter P rows)"
      by (simp add: rows'_def write_positions_map [OF assms(2)] filter_map f o_def flip: f_def)
    then have "set (map rid rows') = set (map rid (filter P rows))" by (rule arg_cong)
    then show ?thesis by (simp add: complete)
  qed
  then have perm: "mset (map rid rows') = mset ids"
    using dist assms(2) set_eq_iff_mset_eq_distinct by blast
  define ys where "ys = sort_key (order_key rid rsort rcreated) rows'"
  have "mset (map rid ys) = mset ids"
    using perm by (simp add: ys_def)
  then have ys_ids: "set (map rid ys) = set ids" by (rule mset_eq_setD)
  have sort_pos: "rsort r = int (the (index_of ids (rid r)))" if "r \<in> set ys" for r
  proof -
    have "r \<in> set (write_positions rid put 0 ids rows)" using that by (simp add: ys_def rows'_def)
    moreover have "rid r \<in> set ids" using that ys_ids by auto
    then obtain i where "i < length ids" "rid r = ids ! i" by (metis in_set_conv_nth)
    ultimately show ?thesis
      using write_position [OF assms(2)] index_of_nth [OF assms(2)] by simp
  qed
  have "sorted (map (order_key rid rsort rcreated) ys)"
    by (simp add: ys_def)
  then have "sorted (map rsort ys)"
    by (simp add: sorted_map sorted_wrt_iff_nth_less order_key_def less_eq_prod_def) fastforce
  also have "map rsort ys = map int (map (\<lambda>x. the (index_of ids x)) (map rid ys))"
    using sort_pos by simp
  finally have "sorted (map (\<lambda>x. the (index_of ids x)) (map rid ys))"
    by (simp add: sorted_map)
  then have "map rid ys = ids"
    by (rule sorted_positions_unique [OF assms(2) \<open>mset (map rid ys) = mset ids\<close>])
  then show ?thesis by (simp add: ordered_ids_def ys_def rows'_def)
qed

end

end
