(* ===== verification/StoreInvariant.thy ===== *)
theory StoreInvariant
  imports StorageQuota Ordering
begin

section \<open>What the tables of the boards store always satisfy\<close>

text \<open>
  The invariant of the database: keys are unique, references point somewhere, a subtask
  hangs below a top-level task of its own list, an account has at most one Inbox, every row
  respects the checks of the schema and the workflow rules of the store, and the storage
  counters agree with what is stored. The lemmas say what an \<open>UPDATE tasks\<close> that keeps
  identity, owner and parent of every row has to guarantee to preserve it.
\<close>

subsection \<open>Validators of the store\<close>

definition validStatus :: "string \<Rightarrow> bool" where
  "validStatus status \<longleftrightarrow>
     status \<in> set [StatusNew, StatusQueued, StatusWorking, StatusNeedsReview, StatusDone]"

definition validKind :: "string \<Rightarrow> bool" where
  "validKind kind \<longleftrightarrow> kind = KindAction"

definition validPriority :: "string \<Rightarrow> bool" where
  "validPriority priority \<longleftrightarrow> priority \<in> set ['''', ''p0'', ''p1'', ''p2'', ''p3'']"

definition validListColor :: "string \<Rightarrow> bool" where
  "validListColor color \<longleftrightarrow> color \<in> set [''slate'', ''red'', ''orange'', ''yellow'', ''green'',
     ''teal'', ''blue'', ''indigo'', ''purple'', ''pink'']"

subsection \<open>The invariant\<close>

definition list_owner :: "db \<Rightarrow> string \<Rightarrow> string option" where
  "list_owner db bucketID = map_option bk_user (List.find (\<lambda>b. bk_id b = bucketID) (buckets db))"

definition task_row_ok :: "task_row \<Rightarrow> bool" where
  "task_row_ok t \<longleftrightarrow>
     tk_title t \<noteq> [] \<and> clean (tk_title t) = tk_title t \<and> validKind (tk_kind t)
     \<and> validStatus (tk_status t) \<and> validPriority (tk_priority t) \<and> fits_int4 (tk_sort t)
     \<and> (tk_assignee t \<noteq> None \<longrightarrow> tk_status t \<noteq> StatusNew)
     \<and> (tk_run t \<noteq> None \<longrightarrow> tk_status t \<noteq> StatusQueued)
     \<and> (tk_review t = [] \<or> tk_review t = ''output'' \<and> tk_status t = StatusNeedsReview)
     \<and> (tk_completed t \<noteq> None \<longleftrightarrow> tk_status t = StatusDone)"

definition bucket_row_ok :: "bucket_row \<Rightarrow> bool" where
  "bucket_row_ok b \<longleftrightarrow> bk_name b \<noteq> [] \<and> validListColor (bk_color b) \<and> 1 \<le> bk_limit b
     \<and> fits_int4 (bk_limit b) \<and> fits_int4 (bk_sort b)"

definition assigned_ok :: "db \<Rightarrow> task_row \<Rightarrow> bool" where
  "assigned_ok db t \<longleftrightarrow> opt_all (\<lambda>a. a \<noteq> [] \<and>
     list_ex (\<lambda>g. ag_id g = a \<and> ag_owner g = tk_owner t) (agent_rows db)) (tk_assignee t)"

definition parent_ok :: "task_row list \<Rightarrow> task_row \<Rightarrow> bool" where
  "parent_ok ts t \<longleftrightarrow> opt_all (\<lambda>p.
     list_ex (\<lambda>q. tk_id q = p \<and> tk_parent q = None \<and> tk_bucket q = tk_bucket t) ts) (tk_parent t)"

definition keys_ok :: "db \<Rightarrow> bool" where
  "keys_ok db \<longleftrightarrow> distinct (map bk_id (buckets db)) \<and> distinct (map tk_id (tasks db))
     \<and> distinct (map er_id (entries db)) \<and> distinct (map (\<lambda>k. (ik_user k, ik_key k)) (idem_keys db))
     \<and> [] \<notin> set (map tk_id (tasks db)) \<and> [] \<notin> set (map bk_id (buckets db))"

definition refs_ok :: "db \<Rightarrow> bool" where
  "refs_ok db \<longleftrightarrow>
     list_all (\<lambda>b. bk_user b \<in> set (map us_id (users db))) (buckets db)
     \<and> list_all (\<lambda>t. list_owner db (tk_bucket t) = Some (tk_owner t) \<and> assigned_ok db t) (tasks db)
     \<and> list_all (\<lambda>e. er_task e \<in> set (map tk_id (tasks db))) (entries db)
     \<and> list_all (\<lambda>k. opt_all (\<lambda>i. i \<in> set (map tk_id (tasks db))) (ik_task k)) (idem_keys db)"

definition inbox_ok :: "db \<Rightarrow> bool" where
  "inbox_ok db \<longleftrightarrow> (\<forall>u. count_where (\<lambda>b. bk_user b = u \<and> bk_inbox b) (buckets db) \<le> 1)"

definition rows_ok :: "db \<Rightarrow> bool" where
  "rows_ok db \<longleftrightarrow> list_all task_row_ok (tasks db) \<and> list_all bucket_row_ok (buckets db)
     \<and> list_all (parent_ok (tasks db)) (tasks db)"

definition structure_ok :: "db \<Rightarrow> bool" where
  "structure_ok db \<longleftrightarrow> keys_ok db \<and> refs_ok db \<and> inbox_ok db \<and> rows_ok db"

definition store_inv :: "db \<Rightarrow> bool" where
  "store_inv db \<longleftrightarrow> structure_ok db \<and> accounting_ok db"

lemmas structure_defs = structure_ok_def keys_ok_def refs_ok_def rows_ok_def list_all_iff list_ex_iff

subsection \<open>Consequences\<close>

lemma task_idD:
  assumes "structure_ok db" "t \<in> set (tasks db)" "t' \<in> set (tasks db)" "tk_id t = tk_id t'"
  shows "t = t'"
  using assms by (auto simp: structure_defs dest: distinct_key_inj)

lemma task_rowD: "structure_ok db \<Longrightarrow> t \<in> set (tasks db) \<Longrightarrow> task_row_ok t"
  by (simp add: structure_defs)

lemma task_ownerD: "structure_ok db \<Longrightarrow> t \<in> set (tasks db) \<Longrightarrow> list_owner db (tk_bucket t) = Some (tk_owner t)"
  by (simp add: structure_defs)

lemma task_assignedD: "structure_ok db \<Longrightarrow> t \<in> set (tasks db) \<Longrightarrow> assigned_ok db t"
  by (simp add: structure_defs)

lemma task_parentD:
  assumes "structure_ok db" "t \<in> set (tasks db)" "tk_parent t = Some p"
  obtains q where "q \<in> set (tasks db)" "tk_id q = p" "tk_parent q = None" "tk_bucket q = tk_bucket t"
    "tk_owner q = tk_owner t"
proof -
  have "parent_ok (tasks db) t" using assms by (simp add: structure_defs)
  then obtain q where q: "q \<in> set (tasks db)" "tk_id q = p" "tk_parent q = None" "tk_bucket q = tk_bucket t"
    using assms(3) by (auto simp: parent_ok_def list_ex_iff)
  moreover have "tk_owner q = tk_owner t"
    using assms q task_ownerD [of db q] task_ownerD [of db t] by simp
  ultimately show thesis by (rule that)
qed

lemma list_ownerD: "list_owner db i = Some u \<Longrightarrow> \<exists>b \<in> set (buckets db). bk_id b = i \<and> bk_user b = u"
  by (auto simp: list_owner_def dest: find_SomeD)

lemma list_owner_iff:
  assumes "structure_ok db" "b \<in> set (buckets db)"
  shows "list_owner db (bk_id b) = Some (bk_user b)"
proof -
  have "distinct (map bk_id (buckets db))" using assms by (simp add: structure_defs)
  then have "List.find (\<lambda>x. bk_id x = bk_id b) (buckets db) = Some b"
    using assms(2) by (rule find_unique_key) simp_all
  then show ?thesis by (simp add: list_owner_def)
qed

lemma list_owner_updates [simp]:
  "list_owner (db\<lparr>tasks := ts\<rparr>) i = list_owner db i" "list_owner (db\<lparr>entries := es\<rparr>) i = list_owner db i"
  "list_owner (db\<lparr>idem_keys := ks\<rparr>) i = list_owner db i" "list_owner (db\<lparr>usages := us\<rparr>) i = list_owner db i"
  "list_owner (db\<lparr>run_starts := rs\<rparr>) i = list_owner db i"
  by (simp_all add: list_owner_def)

lemma assigned_ok_updates [simp]:
  "assigned_ok (db\<lparr>tasks := ts\<rparr>) t = assigned_ok db t" "assigned_ok (db\<lparr>entries := es\<rparr>) t = assigned_ok db t"
  "assigned_ok (db\<lparr>idem_keys := ks\<rparr>) t = assigned_ok db t" "assigned_ok (db\<lparr>usages := us\<rparr>) t = assigned_ok db t"
  "assigned_ok (db\<lparr>run_starts := rs\<rparr>) t = assigned_ok db t" "assigned_ok (db\<lparr>buckets := bs\<rparr>) t = assigned_ok db t"
  by (simp_all add: assigned_ok_def)

lemma list_owner_cong: "buckets db' = buckets db \<Longrightarrow> list_owner db' i = list_owner db i"
  by (simp add: list_owner_def)

text \<open>
  The same tables, for a database in which only the counters or the run starts differ.
\<close>

lemma structure_cong:
  assumes "structure_ok db" and "users db' = users db" "agent_rows db' = agent_rows db"
    "buckets db' = buckets db" "tasks db' = tasks db" "entries db' = entries db" "idem_keys db' = idem_keys db"
  shows "structure_ok db'"
  using assms
  by (simp add: structure_ok_def keys_ok_def refs_ok_def rows_ok_def inbox_ok_def list_owner_cong [of db' db]
      assigned_ok_def)

lemma structure_ensure [simp]: "structure_ok db \<Longrightarrow> structure_ok (ensure_usage_row db u)"
  by (rule structure_cong [of db]) simp_all

lemma store_inv_ensure [simp]: "store_inv db \<Longrightarrow> store_inv (ensure_usage_row db u)"
  by (simp add: store_inv_def)

subsection \<open>Updating task rows\<close>

text \<open>\<open>same_task\<close>: what an update of a task row never changes, and the row checks.\<close>

definition same_task :: "task_row \<Rightarrow> task_row \<Rightarrow> bool" where
  "same_task t t' \<longleftrightarrow> tk_id t' = tk_id t \<and> tk_owner t' = tk_owner t \<and> tk_parent t' = tk_parent t"

definition tasks_updated :: "db \<Rightarrow> (task_row \<Rightarrow> string) \<Rightarrow> task_row list \<Rightarrow> bool" where
  "tasks_updated db g ts' \<longleftrightarrow> list_all2 (\<lambda>t t'. same_task t t' \<and> tk_bucket t' = g t
      \<and> task_row_ok t' \<and> assigned_ok db t') (tasks db) ts'"

lemma list_all2_map_eq: "list_all2 R xs ys \<Longrightarrow> (\<And>x y. R x y \<Longrightarrow> k y = k x) \<Longrightarrow> map k ys = map k xs"
  by (induction xs ys rule: list_all2_induct) auto

lemma list_all2_setD1: "list_all2 R xs ys \<Longrightarrow> x \<in> set xs \<Longrightarrow> \<exists>y \<in> set ys. R x y"
  by (induction xs ys rule: list_all2_induct) auto

lemma list_all2_setD2: "list_all2 R xs ys \<Longrightarrow> y \<in> set ys \<Longrightarrow> \<exists>x \<in> set xs. R x y"
  by (induction xs ys rule: list_all2_induct) auto

lemma structure_tasks_updated:
  assumes db: "structure_ok db" and upd: "tasks_updated db g ts'"
    and owner: "\<And>t. t \<in> set (tasks db) \<Longrightarrow> list_owner db (g t) = Some (tk_owner t)"
    and child: "\<And>t q. t \<in> set (tasks db) \<Longrightarrow> q \<in> set (tasks db) \<Longrightarrow> tk_parent t = Some (tk_id q) \<Longrightarrow> g t = g q"
  shows "structure_ok (db\<lparr>tasks := ts'\<rparr>)"
proof -
  note rel = upd [unfolded tasks_updated_def]
  have ids: "map tk_id ts' = map tk_id (tasks db)"
    using rel by (rule list_all2_map_eq) (simp add: same_task_def)
  then have id_set: "tk_id ` set ts' = tk_id ` set (tasks db)" by (metis list.set_map)
  have lo: "list_owner (db\<lparr>tasks := ts'\<rparr>) i = list_owner db i" for i
    by (simp add: list_owner_def)
  have as: "assigned_ok (db\<lparr>tasks := ts'\<rparr>) t = assigned_ok db t" for t
    by (simp add: assigned_ok_def)
  have "keys_ok (db\<lparr>tasks := ts'\<rparr>)"
    using db ids id_set by (simp add: structure_ok_def keys_ok_def)
  moreover have "list_all (\<lambda>t. list_owner db (tk_bucket t) = Some (tk_owner t) \<and> assigned_ok db t) ts'"
    using list_all2_setD2 [OF rel] owner by (fastforce simp: list_all_iff same_task_def)
  then have "refs_ok (db\<lparr>tasks := ts'\<rparr>)"
    using db by (simp add: structure_ok_def refs_ok_def lo as id_set)
  moreover have "inbox_ok (db\<lparr>tasks := ts'\<rparr>)"
    using db by (simp add: structure_ok_def inbox_ok_def)
  moreover have "parent_ok ts' t'" if mem: "t' \<in> set ts'" for t'
  proof (cases "tk_parent t'")
    case (Some p)
    obtain t where t: "t \<in> set (tasks db)" "same_task t t'" "tk_bucket t' = g t"
      using list_all2_setD2 [OF rel mem] by auto
    have pt: "tk_parent t = Some p" using t Some by (simp add: same_task_def)
    with db t(1) obtain q where q: "q \<in> set (tasks db)" "tk_id q = p" "tk_parent q = None"
      by (rule task_parentD)
    obtain q' where "q' \<in> set ts'" "same_task q q'" "tk_bucket q' = g q"
      using list_all2_setD1 [OF rel q(1)] by blast
    moreover have "g t = g q" using child [OF t(1) q(1)] pt q(2) by simp
    ultimately have "list_ex (\<lambda>q. tk_id q = p \<and> tk_parent q = None \<and> tk_bucket q = tk_bucket t') ts'"
      using t q by (auto simp: list_ex_iff same_task_def)
    then show ?thesis by (simp add: parent_ok_def Some)
  qed (simp add: parent_ok_def)
  then have "rows_ok (db\<lparr>tasks := ts'\<rparr>)"
    using db list_all2_setD2 [OF rel] by (auto simp: structure_ok_def rows_ok_def list_all_iff)
  ultimately show ?thesis by (simp add: structure_ok_def)
qed

lemma stored_tasks_updated:
  assumes "list_all2 (\<lambda>t t'. tk_id t' = tk_id t \<and> tk_owner t' = tk_owner t) (tasks db) ts'"
  shows "stored_tasks_of (db\<lparr>tasks := ts'\<rparr>) u = stored_tasks_of db u"
proof -
  have "count_where (\<lambda>t. tk_owner t = u) ts' = count_where (\<lambda>t. tk_owner t = u) ts"
    if "list_all2 (\<lambda>t t'. tk_id t' = tk_id t \<and> tk_owner t' = tk_owner t) ts ts'" for ts
    using that by (induction ts ts' rule: list_all2_induct) auto
  then show ?thesis using assms by (simp add: stored_tasks_of_def)
qed

lemma stored_bytes_updated:
  assumes "list_all2 (\<lambda>t t'. tk_id t' = tk_id t \<and> tk_owner t' = tk_owner t \<and> storage_bytes t' = storage_bytes t)
    (tasks db) ts'"
  shows "stored_bytes_of (db\<lparr>tasks := ts'\<rparr>) u = stored_bytes_of db u"
proof -
  have "sum_where (\<lambda>t. tk_owner t = u) (content_bytes es) ts' = sum_where (\<lambda>t. tk_owner t = u) (content_bytes es) ts"
    if "list_all2 (\<lambda>t t'. tk_id t' = tk_id t \<and> tk_owner t' = tk_owner t \<and> storage_bytes t' = storage_bytes t) ts ts'"
    for ts es
    using that by (induction ts ts' rule: list_all2_induct) (auto simp: content_bytes_def)
  then show ?thesis using assms by (simp add: stored_bytes_of_def)
qed

end
