(* ===== verification/Example.thy ===== *)
theory Example
  imports StoreInvariant
begin

section \<open>A small account\<close>

text \<open>
  A concrete environment and database on which the hypotheses of the properties are shown
  to hold: one Pro account with an Inbox and a second list, one agent, a queued task that is
  assigned to the agent, a task with a subtask, and a comment.
\<close>

definition ex_env :: env where
  "ex_env = \<lparr>uuid_in = (\<lambda>s. if s = [] then None else Some (map lower_byte s)),
     sha_json = (\<lambda>j. case j of JObj _ \<Rightarrow> ''object'' | _ \<Rightarrow> ''scalar''),
     sha_jsonb = (\<lambda>j. case j of JObj _ \<Rightarrow> ''object'' | _ \<Rightarrow> ''scalar''),
     sql_lower = map lower_byte\<rparr>"

definition ex_task_uuid :: string where
  "ex_task_uuid = ''0000000a-0000-4000-8000-000000000001''"

definition ex_run_uuid :: string where
  "ex_run_uuid = ''0000000b-0000-4000-8000-000000000002''"

definition ex_agent_uuid :: string where
  "ex_agent_uuid = ''0000000c-0000-4000-8000-000000000003''"

definition ex_bucket :: "string \<Rightarrow> bool \<Rightarrow> int \<Rightarrow> bucket_row" where
  "ex_bucket i inbox position =
     \<lparr>bk_id = i, bk_user = ''u1'', bk_name = ''List'', bk_goal = [], bk_color = ''slate'',
      bk_inbox = inbox, bk_limit = 20, bk_sort = position, bk_created = 1, bk_updated = 1\<rparr>"

definition ex_task :: "string \<Rightarrow> string \<Rightarrow> string \<Rightarrow> string option \<Rightarrow> string option \<Rightarrow> int \<Rightarrow> task_row" where
  "ex_task i bucket status assignee parent position =
     \<lparr>tk_id = i, tk_bucket = bucket, tk_owner = ''u1'', tk_title = ''Task'', tk_description = ''notes'',
      tk_date = None, tk_kind = ''action'', tk_status = status, tk_priority = [], tk_sort = position,
      tk_created = 2, tk_updated = 2, tk_assignee = assignee, tk_parent = parent, tk_run = None,
      tk_review = [], tk_completed = None\<rparr>"

definition ex_db :: db where
  "ex_db =
     \<lparr>users = [\<lparr>us_id = ''u1'', us_email = ''ann@example.org'', us_password = ''pw1'', us_role = ''member'', us_theme = ''light'',
                us_name = ''ann'', us_disabled_at = None, us_created = 1\<rparr>],
      entitlement_rows = [\<lparr>en_user = ''u1'', en_plan = ''pro'', en_source = ''manual''\<rparr>],
      usages = [\<lparr>su_user = ''u1'', su_tasks = 4, su_bytes = 40\<rparr>],
      agent_rows = [\<lparr>ag_id = ex_agent_uuid, ag_owner = ''u1'', ag_name = ''Robot'', ag_purpose = None,
                     ag_archived = False, ag_created = 1, ag_updated = 1\<rparr>],
      buckets = [ex_bucket ''b1'' True 0, ex_bucket ''b2'' False 1],
      tasks = [ex_task ex_task_uuid ''b1'' ''queued'' (Some ex_agent_uuid) None 0,
               ex_task ''t2'' ''b1'' ''new'' None None 1,
               ex_task ''t3'' ''b1'' ''new'' None (Some ''t2'') 2,
               ex_task ''t4'' ''b2'' ''queued'' None None 0],
      entries = [\<lparr>er_id = ''e1'', er_task = ''t2'', er_kind = ''comment'', er_body = ''note'',
                  er_author_kind = ''human'', er_author = ''u1'', er_author_name = ''You'',
                  er_key = None, er_hash = ''h'', er_run = None, er_created = 3\<rparr>],
      idem_keys = [], run_starts = []\<rparr>"

lemmas ex_defs = ex_db_def ex_bucket_def ex_task_def ex_task_uuid_def ex_run_uuid_def ex_agent_uuid_def ex_env_def

lemma clean_Task: "clean ''Task'' = ''Task''"
  by code_simp

lemma ex_store_inv: "store_inv ex_db"
proof -
  have "keys_ok ex_db" "refs_ok ex_db" "rows_ok ex_db" by code_simp+
  moreover have "inbox_ok ex_db"
    by (simp add: inbox_ok_def ex_defs)
  moreover have "accounting_ok ex_db"
    by (simp add: accounting_ok_def usage_of_def stored_tasks_of_def stored_bytes_of_def
        content_bytes_def storage_bytes_def entry_bytes_def ex_defs)
  ultimately show ?thesis by (simp add: store_inv_def structure_ok_def)
qed

end
