(* ===== verification/Lists.thy ===== *)
theory Lists
  imports StoreInvariant Example
begin

section \<open>Lists (the bucket operations of boards/store.go)\<close>

text \<open>
  Creating, updating, deleting and reordering lists, the account's Inbox and its repair, and
  the default lists of a new account. A statement parameter of type \<open>uuid\<close> that a client
  supplied as text passes through \<open>uuid_arg\<close>; identifiers the store read from the database
  are canonical and are compared directly.
\<close>

subsection \<open>Rows and structs\<close>

definition bucket_of_row :: "int \<Rightarrow> bucket_row \<Rightarrow> Bucket" where
  "bucket_of_row openCount b =
     \<lparr>bID = bk_id b, bName = bk_name b, bGoal = bk_goal b, bColor = bk_color b, bIsInbox = bk_inbox b,
      bLimitCount = bk_limit b, bSortOrder = bk_sort b, bOpenCount = openCount,
      bCreatedAt = bk_created b, bUpdatedAt = bk_updated b, bTasks = [], bCompletedNextCursor = []\<rparr>"

definition open_count :: "db \<Rightarrow> bucket_row \<Rightarrow> int" where
  "open_count db b = count_where (\<lambda>t. tk_bucket t = bk_id b \<and> tk_kind t = ''action''
      \<and> tk_status t \<noteq> ''done'' \<and> tk_parent t = None) (tasks db)"

definition getBucket :: "env \<Rightarrow> db \<Rightarrow> string \<Rightarrow> string \<Rightarrow> (store_error, Bucket) result" where
  "getBucket e db userID listID =
     rbind (uuid_arg e listID) (\<lambda>i.
     rbind (query_row ErrNotFound (\<lambda>b. bk_user b = userID \<and> bk_id b = i) (buckets db)) (\<lambda>b.
     Inr (bucket_of_row (open_count db b) b)))"

definition lockedBucket :: "db \<Rightarrow> string \<Rightarrow> string \<Rightarrow> (store_error, Bucket) result" where
  "lockedBucket db userID listID =
     rbind (query_row ErrNotFound (\<lambda>b. bk_user b = userID \<and> bk_id b = listID) (buckets db)) (\<lambda>b.
     Inr (bucket_of_row 0 b))"

definition GetBucketForAgent :: "env \<Rightarrow> db \<Rightarrow> string \<Rightarrow> string \<Rightarrow> string \<Rightarrow> (store_error, Bucket) result" where
  "GetBucketForAgent e db userID agentID listID =
     rbind (uuid_arg e listID) (\<lambda>i.
     rbind (query_row ErrNotFound (\<lambda>b. bk_user b = userID \<and> bk_id b = i) (buckets db)) (\<lambda>b.
     let mine = filter (\<lambda>t. tk_bucket t = bk_id b \<and> tk_assignee t = Some agentID) (tasks db) in
     rbind (require (mine \<noteq> []) ErrNotFound) (\<lambda>_.
     Inr (bucket_of_row (count_where (\<lambda>t. tk_kind t = ''action'' \<and> tk_status t \<noteq> ''done''
            \<and> tk_parent t = None) mine) b))))"

abbreviation bucket_ids :: "(bucket_row \<Rightarrow> bool) \<Rightarrow> bucket_row list \<Rightarrow> string list" where
  "bucket_ids \<equiv> ordered_ids bk_id bk_sort bk_created"

definition ListAllBuckets :: "db \<Rightarrow> string \<Rightarrow> Bucket list" where
  "ListAllBuckets db userID =
     map (\<lambda>b. bucket_of_row (open_count db b) b)
       (sort_key (order_key bk_id bk_sort bk_created) (filter (\<lambda>b. bk_user b = userID) (buckets db)))"

definition InboxBucketID :: "db \<Rightarrow> string \<Rightarrow> (store_error, string) result" where
  "InboxBucketID db userID =
     rbind (query_row ErrNotFound (\<lambda>b. bk_user b = userID \<and> bk_inbox b) (buckets db)) (\<lambda>b.
     Inr (bk_id b))"

subsection \<open>Statements\<close>

text \<open>\<open>COALESCE((SELECT max(sort_order) + 1 ...), 0)\<close>, computed in 32-bit integers.\<close>

definition next_sort :: "int list \<Rightarrow> (store_error, int) result" where
  "next_sort sorts =
     (if sorts = [] then Inr 0
      else let n = Max (set sorts) + 1 in
        if fits_int4 n then Inr n else Inl (ErrDB IntegerOutOfRange))"

text \<open>The partial unique index \<open>buckets_one_inbox_per_user_idx\<close>.\<close>

definition one_inbox :: "bucket_row list \<Rightarrow> string \<Rightarrow> bool" where
  "one_inbox bs userID \<longleftrightarrow> count_where (\<lambda>b. bk_user b = userID \<and> bk_inbox b) bs \<le> 1"

definition insert_bucket :: "db \<Rightarrow> bucket_row \<Rightarrow> (store_error, db) result" where
  "insert_bucket db row =
     rbind (require (fits_int4 (bk_limit row) \<and> fits_int4 (bk_sort row)) (ErrDB IntegerOutOfRange)) (\<lambda>_.
     rbind (require (bk_id row \<notin> set (map bk_id (buckets db)) \<and> one_inbox (buckets db @ [row]) (bk_user row))
              (ErrDB UniqueViolation)) (\<lambda>_.
     Inr (db\<lparr>buckets := buckets db @ [row]\<rparr>)))"

definition releaseInboxMarker :: "db \<Rightarrow> int \<Rightarrow> string \<Rightarrow> string \<Rightarrow> db" where
  "releaseInboxMarker db now userID exceptBucketID =
     db\<lparr>buckets := update_where
          (\<lambda>b. bk_user b = userID \<and> bk_inbox b \<and> (exceptBucketID = [] \<or> bk_id b \<noteq> exceptBucketID))
          (\<lambda>b. b\<lparr>bk_inbox := False, bk_updated := now\<rparr>) (buckets db)\<rparr>"

definition ensureInboxSurvives :: "db \<Rightarrow> string \<Rightarrow> string \<Rightarrow> (store_error, unit) result" where
  "ensureInboxSurvives db userID excludedBucketID =
     require (list_ex (\<lambda>b. bk_user b = userID \<and> bk_inbox b
                 \<and> (excludedBucketID = [] \<or> bk_id b \<noteq> excludedBucketID)) (buckets db))
       (ErrInvalidData ''the account must keep an Inbox list'')"

subsection \<open>Operations\<close>

definition new_bucket ::
    "int \<Rightarrow> string \<Rightarrow> string \<Rightarrow> string \<Rightarrow> string \<Rightarrow> string \<Rightarrow> bool \<Rightarrow> int \<Rightarrow> int \<Rightarrow> bucket_row" where
  "new_bucket now fresh userID name goal color inbox limit position =
     \<lparr>bk_id = fresh, bk_user = userID, bk_name = name, bk_goal = goal, bk_color = color,
      bk_inbox = inbox, bk_limit = limit, bk_sort = position, bk_created = now, bk_updated = now\<rparr>"

definition CreateBucket :: "db \<Rightarrow> int \<Rightarrow> string \<Rightarrow> string \<Rightarrow> CreateBucketInput \<Rightarrow> Bucket tx" where
  "CreateBucket db now fresh userID input =
     (let name = clean (cbName input);
          limit = (if cbLimitCount input = 0 then 5 else cbLimitCount input);
          color = (if clean (cbColor input) = [] then ''slate'' else clean (cbColor input)) in
      rbind (require (name \<noteq> []) (ErrInvalidData ''bucket name is required'')) (\<lambda>_.
      rbind (require (\<not> limit < 1) (ErrInvalidData ''bucket limit must be positive'')) (\<lambda>_.
      rbind (require (validListColor color) (ErrInvalidData ''invalid list color'')) (\<lambda>_.
      rbind (accountLimitsForUpdate db userID) (\<lambda>limits.
      rbind (require (list_ex (\<lambda>u. us_id u = userID \<and> \<not> us_disabled u) (users db)) ErrNotFound) (\<lambda>_.
      rbind (require (\<not> count_where (\<lambda>b. bk_user b = userID) (buckets db) \<ge> lim_Lists limits) ErrListLimit) (\<lambda>_.
      let db1 = (if cbIsInbox input then releaseInboxMarker db now userID [] else db) in
      rbind (next_sort (map bk_sort (filter (\<lambda>b. bk_user b = userID) (buckets db1)))) (\<lambda>sort.
      let row = new_bucket now fresh userID name (cbGoal input) color (cbIsInbox input) limit sort in
      rbind (insert_bucket db1 row) (\<lambda>db2.
      Inr (db2, bucket_of_row 0 row))))))))))"

definition merge_bucket :: "UpdateBucketInput \<Rightarrow> Bucket \<Rightarrow> Bucket" where
  "merge_bucket input current =
     current\<lparr>bName := (case ubName input of None \<Rightarrow> bName current | Some v \<Rightarrow> clean v),
             bGoal := (case ubGoal input of None \<Rightarrow> bGoal current | Some v \<Rightarrow> clean v),
             bColor := (case ubColor input of None \<Rightarrow> bColor current | Some v \<Rightarrow> clean v),
             bLimitCount := (case ubLimitCount input of None \<Rightarrow> bLimitCount current | Some v \<Rightarrow> v),
             bIsInbox := (case ubIsInbox input of None \<Rightarrow> bIsInbox current | Some v \<Rightarrow> v),
             bSortOrder := (case ubSortOrder input of None \<Rightarrow> bSortOrder current | Some v \<Rightarrow> v)\<rparr>"

definition set_bucket :: "int \<Rightarrow> Bucket \<Rightarrow> bucket_row \<Rightarrow> bucket_row" where
  "set_bucket now current b =
     b\<lparr>bk_name := bName current, bk_goal := bGoal current, bk_color := bColor current,
       bk_limit := bLimitCount current, bk_inbox := bIsInbox current,
       bk_sort := bSortOrder current, bk_updated := now\<rparr>"

definition write_bucket :: "db \<Rightarrow> int \<Rightarrow> string \<Rightarrow> string \<Rightarrow> Bucket \<Rightarrow> Bucket tx" where
  "write_bucket db now userID listID current =
     (let bs = update_where (\<lambda>b. bk_user b = userID \<and> bk_id b = listID) (set_bucket now current) (buckets db) in
      rbind (require (fits_int4 (bLimitCount current) \<and> fits_int4 (bSortOrder current))
               (ErrDB IntegerOutOfRange)) (\<lambda>_.
      rbind (require (one_inbox bs userID) (ErrDB UniqueViolation)) (\<lambda>_.
      rbind (query_row ErrNotFound (\<lambda>b. bk_user b = userID \<and> bk_id b = listID) bs) (\<lambda>b.
      Inr (db\<lparr>buckets := bs\<rparr>, bucket_of_row 0 b)))))"

definition UpdateBucket :: "env \<Rightarrow> db \<Rightarrow> int \<Rightarrow> string \<Rightarrow> string \<Rightarrow> UpdateBucketInput \<Rightarrow> Bucket tx" where
  "UpdateBucket e db now userID listID input =
     rbind (lockStorageQuota db userID) (\<lambda>(db1, q).
     rbind (uuid_arg e listID) (\<lambda>i.
     rbind (lockedBucket db1 userID i) (\<lambda>found.
     let wasInbox = bIsInbox found;
         current = merge_bucket input found in
     rbind (require (bName current \<noteq> []) (ErrInvalidData ''bucket name is required'')) (\<lambda>_.
     rbind (require (\<not> bLimitCount current < 1) (ErrInvalidData ''bucket limit must be positive'')) (\<lambda>_.
     rbind (require (validListColor (bColor current)) (ErrInvalidData ''invalid list color'')) (\<lambda>_.
     rbind (if wasInbox \<and> \<not> bIsInbox current then ensureInboxSurvives db1 userID (bID current)
            else Inr ()) (\<lambda>_.
     let db2 = (if \<not> wasInbox \<and> bIsInbox current then releaseInboxMarker db1 now userID (bID current)
                else db1) in
     write_bucket db2 now userID i current)))))))"

definition DeleteBucket :: "env \<Rightarrow> db \<Rightarrow> string \<Rightarrow> string \<Rightarrow> unit tx" where
  "DeleteBucket e db userID listID =
     rbind (lockStorageQuota db userID) (\<lambda>(db1, q).
     rbind (uuid_arg e listID) (\<lambda>i.
     rbind (lockedBucket db1 userID i) (\<lambda>found.
     rbind (if bIsInbox found then ensureInboxSurvives db1 userID (bID found) else Inr ()) (\<lambda>_.
     let usage = lockedBucketTaskStorage db1 (bID found) in
     rbind (quota_apply db1 q (- u_Tasks usage) (- u_ContentBytes usage)) (\<lambda>(db2, q').
     let db3 = delete_tasks db2 (\<lambda>t. tk_bucket t = bID found) in
     Inr (db3\<lparr>buckets := delete_where (\<lambda>b. bk_id b = bID found) (buckets db3)\<rparr>, ()))))))"

definition ensureInboxBucketID :: "db \<Rightarrow> int \<Rightarrow> string \<Rightarrow> string \<Rightarrow> string tx" where
  "ensureInboxBucketID db now fresh userID =
     rbind (accountLimitsForUpdate db userID) (\<lambda>_.
     case List.find (\<lambda>b. bk_user b = userID \<and> bk_inbox b) (buckets db) of
       Some b \<Rightarrow> Inr (db, bk_id b)
     | None \<Rightarrow>
         (case bucket_ids (\<lambda>b. bk_user b = userID) (buckets db) of
            firstListID # _ \<Rightarrow>
              Inr (db\<lparr>buckets := update_where (\<lambda>b. bk_id b = firstListID)
                        (\<lambda>b. b\<lparr>bk_inbox := True, bk_updated := now\<rparr>) (buckets db)\<rparr>, firstListID)
          | [] \<Rightarrow>
              rbind (insert_bucket db (new_bucket now fresh userID ''Inbox'' ''Capture now, organise later''
                       ''slate'' True (lim_ActiveItemsPerList ProLimits) 0)) (\<lambda>db1. Inr (db1, fresh))))"

definition EnsureInboxBucketID :: "db \<Rightarrow> int \<Rightarrow> string \<Rightarrow> string \<Rightarrow> string tx" where
  "EnsureInboxBucketID db now fresh userID = ensureInboxBucketID db now fresh userID"

text \<open>The loop over \<open>ids\<close> in \<open>ReorderBuckets\<close> rejects an unknown or repeated identifier.\<close>

fun reorder_seen :: "string list \<Rightarrow> string list \<Rightarrow> string list \<Rightarrow> (store_error, string list) result" where
  "reorder_seen existing seen [] = Inr seen"
| "reorder_seen existing seen (listID # ids) =
     (if listID \<notin> set existing \<or> listID \<in> set seen
      then Inl (ErrInvalidData ''list order contains an unknown or duplicate list'')
      else reorder_seen existing (seen @ [listID]) ids)"

definition put_bucket_sort :: "int \<Rightarrow> int \<Rightarrow> bucket_row \<Rightarrow> bucket_row" where
  "put_bucket_sort now i b = b\<lparr>bk_sort := i, bk_updated := now\<rparr>"

definition ReorderBuckets :: "db \<Rightarrow> int \<Rightarrow> string \<Rightarrow> string list \<Rightarrow> unit tx" where
  "ReorderBuckets db now userID ids =
     rbind (accountLimitsForUpdate db userID) (\<lambda>_.
     let existingOrder = bucket_ids (\<lambda>b. bk_user b = userID) (buckets db) in
     rbind (reorder_seen existingOrder [] ids) (\<lambda>seen.
     let ordered = ids @ filter (\<lambda>listID. listID \<notin> set seen) existingOrder in
     rbind (require (positions_fit ordered) (ErrDB IntegerOutOfRange)) (\<lambda>_.
     Inr (db\<lparr>buckets := write_positions bk_id (put_bucket_sort now) 0 ordered (buckets db)\<rparr>, ()))))"

definition defaultBuckets :: "CreateBucketInput list" where
  "defaultBuckets =
     (let mk = (\<lambda>name goal inbox. \<lparr>cbName = name, cbGoal = goal, cbColor = [],
                  cbLimitCount = lim_ActiveItemsPerList ProLimits, cbIsInbox = inbox\<rparr>) in
      [mk ''Inbox'' ''Capture now, organise later'' True,
       mk ''Product'' ''Make the thing more useful'' False,
       mk ''Content'' ''Publish work that teaches or helps'' False,
       mk ''Growth'' ''Reach and serve more people'' False,
       mk ''Operations'' ''Keep everything running smoothly'' False])"

text \<open>
  Every list is created in a transaction of its own, so a failure keeps the earlier ones.
\<close>

fun seed_lists :: "db \<Rightarrow> int \<Rightarrow> string \<Rightarrow> (string \<times> CreateBucketInput) list \<Rightarrow> db \<times> store_error option" where
  "seed_lists db now userID [] = (db, None)"
| "seed_lists db now userID ((fresh, input) # rest) =
     (case CreateBucket db now fresh userID input of
        Inl err \<Rightarrow> (db, Some err)
      | Inr (db', _) \<Rightarrow> seed_lists db' now userID rest)"

definition SeedDefaultLists :: "db \<Rightarrow> int \<Rightarrow> string list \<Rightarrow> string \<Rightarrow> db \<times> store_error option" where
  "SeedDefaultLists db now freshs userID =
     (if count_where (\<lambda>b. bk_user b = userID) (buckets db) > 0 then (db, None)
      else seed_lists db now userID (zip freshs defaultBuckets))"

subsection \<open>What an update of the buckets table has to guarantee\<close>

lemma inbox_ok_iff: "inbox_ok db \<longleftrightarrow> (\<forall>u. one_inbox (buckets db) u)"
  by (simp add: inbox_ok_def one_inbox_def)

lemma list_all2_find_key:
  assumes "list_all2 R xs ys" and "\<And>x y. R x y \<Longrightarrow> k y = k x \<and> v y = v x"
  shows "map_option v (List.find (\<lambda>y. k y = i) ys) = map_option v (List.find (\<lambda>x. k x = i) xs)"
  using assms by (induction xs ys rule: list_all2_induct) auto

lemma structure_buckets_updated:
  assumes db: "structure_ok db"
    and rel: "list_all2 (\<lambda>b b'. bk_id b' = bk_id b \<and> bk_user b' = bk_user b \<and> bucket_row_ok b') (buckets db) bs'"
    and inbox: "\<And>u. one_inbox bs' u"
  shows "structure_ok (db\<lparr>buckets := bs'\<rparr>)"
proof -
  let ?db' = "db\<lparr>buckets := bs'\<rparr>"
  have ids: "map bk_id bs' = map bk_id (buckets db)"
    using rel by (rule list_all2_map_eq) simp
  have sets: "bk_id ` set bs' = bk_id ` set (buckets db)"
    using ids by (metis list.set_map)
  have "map_option bk_user (List.find (\<lambda>y. bk_id y = i) bs') =
      map_option bk_user (List.find (\<lambda>x. bk_id x = i) (buckets db))" for i
    using rel by (rule list_all2_find_key) simp
  then have lo: "list_owner ?db' i = list_owner db i" for i
    by (simp add: list_owner_def)
  have as: "assigned_ok ?db' t = assigned_ok db t" for t
    by (simp add: assigned_ok_def)
  have "list_all (\<lambda>b. bk_user b \<in> us_id ` set (users db)) bs'"
    using db list_all2_setD2 [OF rel] by (fastforce simp: structure_defs)
  then have "refs_ok ?db'"
    using db by (simp add: structure_ok_def refs_ok_def lo as)
  moreover have "keys_ok ?db'"
    using db ids sets by (simp add: structure_ok_def keys_ok_def)
  moreover have "rows_ok ?db'"
    using db list_all2_setD2 [OF rel] by (auto simp: structure_ok_def rows_ok_def list_all_iff)
  ultimately show ?thesis using inbox by (simp add: structure_ok_def inbox_ok_iff)
qed

lemma structure_bucket_added:
  assumes db: "structure_ok db" and row: "bucket_row_ok row" "bk_id row \<noteq> []" "bk_user row \<in> us_id ` set (users db)"
    and new: "bk_id row \<notin> bk_id ` set (buckets db)" and inbox: "one_inbox (buckets db @ [row]) (bk_user row)"
  shows "structure_ok (db\<lparr>buckets := buckets db @ [row]\<rparr>)"
proof -
  let ?db' = "db\<lparr>buckets := buckets db @ [row]\<rparr>"
  have lo: "list_owner ?db' i = Some u" if "list_owner db i = Some u" for i u
    using that by (auto simp: list_owner_def find_append split: option.splits)
  have as: "assigned_ok ?db' t = assigned_ok db t" for t
    by (simp add: assigned_ok_def)
  have "refs_ok ?db'"
    using db row lo by (auto simp: structure_ok_def refs_ok_def as list_all_iff)
  moreover have "one_inbox (buckets db @ [row]) u" for u
  proof (cases "u = bk_user row")
    case False
    then show ?thesis using db by (simp add: structure_ok_def inbox_ok_iff one_inbox_def)
  qed (use inbox in simp)
  ultimately show ?thesis
    using db row new by (auto simp: structure_ok_def inbox_ok_iff keys_ok_def rows_ok_def)
qed

lemma accounting_buckets [simp]: "accounting_ok (db\<lparr>buckets := bs\<rparr>) \<longleftrightarrow> accounting_ok db"
  by (simp add: accounting_ok_def stored_tasks_of_def stored_bytes_of_def usage_of_def)

lemma accountLimits_user:
  "accountLimitsForUpdate db u = Inr limits \<Longrightarrow> u \<in> us_id ` set (users db)"
  by (auto simp: accountLimitsForUpdate_def split: option.splits dest!: find_SomeD)

lemma next_sort_fits [simp]: "next_sort sorts = Inr n \<Longrightarrow> fits_int4 n"
  by (auto simp: next_sort_def Let_def fits_int4_def minPostgresInteger_def maxPostgresInteger_def
      split: if_splits)

lemma insert_bucket_eq_Inr [result_simps]:
  "insert_bucket db row = Inr db' \<longleftrightarrow> fits_int4 (bk_limit row) \<and> fits_int4 (bk_sort row)
     \<and> bk_id row \<notin> bk_id ` set (buckets db) \<and> one_inbox (buckets db @ [row]) (bk_user row)
     \<and> db' = db\<lparr>buckets := buckets db @ [row]\<rparr>"
  by (auto simp: insert_bucket_def result_simps)

lemma list_all2_update_where:
  "(\<And>x. x \<in> set xs \<Longrightarrow> P x \<Longrightarrow> R x (f x)) \<Longrightarrow> (\<And>x. x \<in> set xs \<Longrightarrow> \<not> P x \<Longrightarrow> R x x)
     \<Longrightarrow> list_all2 R xs (update_where P f xs)"
  by (induction xs) auto

lemma count_update_le:
  "(\<And>r. r \<in> set rows \<Longrightarrow> P r \<Longrightarrow> Q (f r) \<Longrightarrow> Q r) \<Longrightarrow> count_where Q (update_where P f rows) \<le> count_where Q rows"
  by (induction rows) (auto simp: add_increasing)

lemma bucket_rowD: "structure_ok db \<Longrightarrow> b \<in> set (buckets db) \<Longrightarrow> bucket_row_ok b"
  by (simp add: structure_defs)

lemma releaseInboxMarker_structure:
  assumes "structure_ok db"
  shows "structure_ok (releaseInboxMarker db now u except)"
  unfolding releaseInboxMarker_def
proof (rule structure_buckets_updated [OF assms list_all2_update_where])
  fix v
  have "count_where Q (update_where P (\<lambda>b. b\<lparr>bk_inbox := False, bk_updated := now\<rparr>) (buckets db))
      \<le> count_where Q (buckets db)" if "Q = (\<lambda>b. bk_user b = v \<and> bk_inbox b)" for P Q
    using that by (intro count_update_le) simp
  from order_trans [OF this [OF refl]] assms
  show "one_inbox (update_where
      (\<lambda>b. bk_user b = u \<and> bk_inbox b \<and> (except = [] \<or> bk_id b \<noteq> except))
      (\<lambda>b. b\<lparr>bk_inbox := False, bk_updated := now\<rparr>) (buckets db)) v"
    unfolding one_inbox_def structure_ok_def inbox_ok_def by blast
qed (use assms in \<open>auto dest: bucket_rowD simp: bucket_row_ok_def\<close>)

lemma releaseInboxMarker_frame [simp]:
  "users (releaseInboxMarker db now u x) = users db" "tasks (releaseInboxMarker db now u x) = tasks db"
  "accounting_ok (releaseInboxMarker db now u x) = accounting_ok db"
  by (simp_all add: releaseInboxMarker_def)

subsection \<open>The operations keep the invariant\<close>

lemma CreateBucket_InrE:
  assumes "CreateBucket db now fresh userID input = Inr (db', b)"
  obtains limits n name color limit where "accountLimitsForUpdate db userID = Inr limits"
    "count_where (\<lambda>b. bk_user b = userID) (buckets db) < lim_Lists limits"
    "name \<noteq> []" "1 \<le> limit" "validListColor color"
    "insert_bucket (if cbIsInbox input then releaseInboxMarker db now userID [] else db)
       (new_bucket now fresh userID name (cbGoal input) color (cbIsInbox input) limit n) = Inr db'"
    "b = bucket_of_row 0 (new_bucket now fresh userID name (cbGoal input) color (cbIsInbox input) limit n)"
  using assms unfolding CreateBucket_def Let_def
  by (elim rbind_elims) (simp only: not_le not_less sum.inject prod.inject)

lemma new_bucket_simps [simp]:
  "bk_id (new_bucket now f u nm g c i l s) = f" "bk_user (new_bucket now f u nm g c i l s) = u"
  "bk_inbox (new_bucket now f u nm g c i l s) = i" "bk_limit (new_bucket now f u nm g c i l s) = l"
  "bk_sort (new_bucket now f u nm g c i l s) = s" "bk_name (new_bucket now f u nm g c i l s) = nm"
  "bk_color (new_bucket now f u nm g c i l s) = c"
  by (simp_all add: new_bucket_def)

lemma insert_bucket_inv:
  assumes "store_inv db" "insert_bucket db row = Inr db'" "bk_id row \<noteq> []" "bk_name row \<noteq> []"
    "validListColor (bk_color row)" "1 \<le> bk_limit row" "accountLimitsForUpdate db (bk_user row) = Inr limits"
  shows "store_inv db'"
  using assms structure_bucket_added [of db row] accountLimits_user [OF assms(7)]
  by (auto simp: result_simps store_inv_def bucket_row_ok_def)

lemma accountLimits_cong:
  "users db' = users db \<Longrightarrow> entitlement_rows db' = entitlement_rows db \<Longrightarrow>
     accountLimitsForUpdate db' u = accountLimitsForUpdate db u"
  unfolding accountLimitsForUpdate_def by presburger

lemma releaseInboxMarker_inv: "store_inv db \<Longrightarrow> store_inv (releaseInboxMarker db now u x)"
  by (simp add: store_inv_def releaseInboxMarker_structure)

lemma CreateBucket_inv:
  assumes "store_inv db" "fresh \<noteq> []" "CreateBucket db now fresh userID input = Inr (db', b)"
  shows "store_inv db'"
proof -
  let ?db1 = "if cbIsInbox input then releaseInboxMarker db now userID [] else db"
  have "store_inv ?db1" using assms(1) by (simp add: releaseInboxMarker_inv)
  moreover have "accountLimitsForUpdate ?db1 userID = accountLimitsForUpdate db userID"
    by (intro accountLimits_cong) (simp_all add: releaseInboxMarker_def)
  ultimately show ?thesis
    using assms(2,3) insert_bucket_inv [of ?db1 _ db'] by (auto elim!: CreateBucket_InrE)
qed

lemma one_inbox_other:
  assumes "structure_ok db" "\<And>b. P b \<Longrightarrow> bk_user b = u \<and> bk_user (f b) = u" "one_inbox (update_where P f (buckets db)) u"
  shows "one_inbox (update_where P f (buckets db)) v"
proof (cases "v = u")
  case False
  then have "count_where (\<lambda>b. bk_user b = v \<and> bk_inbox b) (update_where P f (buckets db)) =
      count_where (\<lambda>b. bk_user b = v \<and> bk_inbox b) (buckets db)"
    using assms(2) by (intro count_where_update) auto
  then show ?thesis using assms(1) by (simp add: one_inbox_def structure_ok_def inbox_ok_def)
qed (use assms(3) in simp)

lemma write_bucket_inv:
  assumes "store_inv db" "write_bucket db now u i current = Inr (db', b)"
    "bName current \<noteq> []" "1 \<le> bLimitCount current" "validListColor (bColor current)"
  shows "store_inv db'"
proof -
  let ?P = "\<lambda>b. bk_user b = u \<and> bk_id b = i"
  let ?f = "set_bucket now current"
  have w: "fits_int4 (bLimitCount current)" "fits_int4 (bSortOrder current)"
    "one_inbox (update_where ?P ?f (buckets db)) u" "db' = db\<lparr>buckets := update_where ?P ?f (buckets db)\<rparr>"
    using assms(2) unfolding write_bucket_def Let_def
    by (elim rbind_elims, simp)+
  have "structure_ok (db\<lparr>buckets := update_where ?P ?f (buckets db)\<rparr>)"
  proof (rule structure_buckets_updated [OF _ list_all2_update_where])
    show "one_inbox (update_where ?P ?f (buckets db)) v" for v
      by (rule one_inbox_other [where u = u]) (use assms(1) w(3) in \<open>simp_all add: store_inv_def set_bucket_def\<close>)
    show "structure_ok db" using assms(1) by (simp add: store_inv_def)
    then show "bk_id x = bk_id x \<and> bk_user x = bk_user x \<and> bucket_row_ok x" if "x \<in> set (buckets db)" for x
      using that by (simp add: bucket_rowD)
  qed (simp add: bucket_row_ok_def set_bucket_def assms w)
  then show ?thesis using assms(1) w(4) by (simp add: store_inv_def)
qed

lemma UpdateBucket_inv:
  assumes "store_inv db" "UpdateBucket e db now u i input = Inr (db', b)"
  shows "store_inv db'"
proof -
  from assms(2) obtain found j db2 where
    "db2 = ensure_usage_row db u \<or>
       db2 = releaseInboxMarker (ensure_usage_row db u) now u (bID (merge_bucket input found))"
    and w: "write_bucket db2 now u j (merge_bucket input found) = Inr (db', b)"
      "bName (merge_bucket input found) \<noteq> []" "1 \<le> bLimitCount (merge_bucket input found)"
      "validListColor (bColor (merge_bucket input found))"
    unfolding UpdateBucket_def Let_def
    by (elim rbind_elims) (rule that, auto simp: lockStorageQuota_eq_Inr)
  then have "store_inv db2" using assms(1) by (auto simp: releaseInboxMarker_inv)
  then show ?thesis using w by (rule write_bucket_inv)
qed

text \<open>
  Subtasks have no subtasks, so a cascade reaches a row directly or through its parent only.
\<close>

lemma find_task_id:
  assumes "structure_ok db" "q \<in> set (tasks db)"
  shows "List.find (\<lambda>x. tk_id x = tk_id q) (tasks db) = Some q"
proof -
  have "distinct (map tk_id (tasks db))" using assms by (simp add: structure_defs)
  then show ?thesis using assms(2) by (rule find_unique_key) simp_all
qed

lemma cascade_iff:
  assumes db: "structure_ok db" and t: "t \<in> set (tasks db)"
  shows "cascade_tasks (tasks db) P t \<longleftrightarrow>
    P t \<or> (\<exists>q \<in> set (tasks db). tk_parent t = Some (tk_id q) \<and> P q)"
proof -
  obtain n where n: "length (tasks db) = Suc n" using t by (cases "tasks db") auto
  show ?thesis
  proof (cases "tk_parent t")
    case None
    then show ?thesis by (simp add: cascade_tasks_def n)
  next
    case (Some p)
    obtain q where q: "q \<in> set (tasks db)" "tk_id q = p" "tk_parent q = None"
      using db t Some by (elim task_parentD)
    have "List.find (\<lambda>x. tk_id x = p) (tasks db) = Some q"
      using find_task_id [OF db q(1)] q(2) by simp
    moreover have "in_cascade n (tasks db) P q = P q" using q(3) by (cases n) simp_all
    ultimately have lhs: "cascade_tasks (tasks db) P t \<longleftrightarrow> P t \<or> P q"
      using Some by (simp add: cascade_tasks_def n)
    have "(\<exists>q' \<in> set (tasks db). tk_parent t = Some (tk_id q') \<and> P q') \<longleftrightarrow> P q"
    proof
      assume "\<exists>q' \<in> set (tasks db). tk_parent t = Some (tk_id q') \<and> P q'"
      then obtain q' where q': "q' \<in> set (tasks db)" "tk_id q' = tk_id q" "P q'" using Some q(2) by auto
      then show "P q" using task_idD [OF db q'(1) q(1)] by simp
    qed (use Some q(1,2) in auto)
    then show ?thesis by (simp only: lhs)
  qed
qed

lemma cascade_self: "P t \<Longrightarrow> cascade_tasks ts P t"
  unfolding cascade_tasks_def by (cases "length ts") auto

lemma cascade_closed:
  assumes "structure_ok db" "t \<in> set (tasks db)" "q \<in> set (tasks db)" "tk_parent t = Some (tk_id q)"
    "cascade_tasks (tasks db) P q"
  shows "cascade_tasks (tasks db) P t"
proof -
  obtain q' where "q' \<in> set (tasks db)" "tk_id q' = tk_id q" "tk_parent q' = None"
    using assms(1,2,4) by (elim task_parentD)
  then have "tk_parent q = None" using assms task_idD [of db q' q] by simp
  then have "P q" using assms by (simp add: cascade_iff)
  then show ?thesis using assms by (auto simp: cascade_iff)
qed

text \<open>If the rows satisfying \<open>P\<close> belong to one account, so do the rows the cascade takes.\<close>

lemma cascade_owner:
  assumes "structure_ok db" "t \<in> set (tasks db)" "cascade_tasks (tasks db) P t"
    and "\<And>x. x \<in> set (tasks db) \<Longrightarrow> P x \<Longrightarrow> tk_owner x = u"
  shows "tk_owner t = u"
proof (cases "P t")
  case False
  then obtain q where q: "q \<in> set (tasks db)" "tk_parent t = Some (tk_id q)" "P q"
    using assms(1-3) by (auto simp: cascade_iff)
  obtain q' where "q' \<in> set (tasks db)" "tk_id q' = tk_id q" "tk_owner q' = tk_owner t"
    using assms(1,2) q(2) by (elim task_parentD)
  then show ?thesis using q assms(1,4) task_idD [of db q' q] by simp
qed (use assms in simp)

lemma structure_delete_tasks:
  assumes db: "structure_ok db"
  shows "structure_ok (delete_tasks db P)"
proof -
  let ?db' = "delete_tasks db P" and ?gone = "cascade_tasks (tasks db) P"
  let ?ids = "set (map tk_id (filter ?gone (tasks db)))"
  have kept: "i \<in> tk_id ` set (tasks ?db')" if "i \<in> tk_id ` set (tasks db)" "i \<notin> ?ids" for i
    using that by auto
  have lo: "list_owner ?db' i = list_owner db i" for i
    by (simp add: list_owner_def)
  have as: "assigned_ok ?db' t = assigned_ok db t" for t
    by (simp add: assigned_ok_def)
  have ents: "entries ?db' = delete_where (\<lambda>e. er_task e \<in> ?ids) (entries db)"
    by (simp add: delete_tasks_def Let_def)
  have keyrows: "map (\<lambda>k. (ik_user k, ik_key k)) (idem_keys ?db') = map (\<lambda>k. (ik_user k, ik_key k)) (idem_keys db)"
    by (simp add: delete_tasks_def Let_def comp_def)
  have idem: "opt_all (\<lambda>i. i \<in> tk_id ` set (tasks ?db')) (ik_task k)" if "k \<in> set (idem_keys ?db')" for k
  proof -
    from that obtain k0 where "k0 \<in> set (idem_keys db)"
      and k: "ik_task k = (case ik_task k0 of None \<Rightarrow> None | Some i \<Rightarrow> if i \<in> ?ids then None else Some i)"
      by (auto simp: delete_tasks_def Let_def)
    then have "opt_all (\<lambda>i. i \<in> tk_id ` set (tasks db)) (ik_task k0)"
      using db by (simp add: structure_defs)
    then show ?thesis using k kept by (auto split: option.splits if_splits)
  qed
  have "keys_ok ?db'"
    using db unfolding structure_ok_def keys_ok_def ents keyrows
    by (auto intro: distinct_map_delete_where)
  moreover have "refs_ok ?db'"
    using db idem kept unfolding structure_ok_def refs_ok_def lo as ents
    by (auto simp: list_all_iff)
  moreover have "inbox_ok ?db'"
    using db by (simp add: structure_ok_def inbox_ok_def)
  moreover have "parent_ok (tasks ?db') t" if t: "t \<in> set (tasks ?db')" for t
  proof (cases "tk_parent t")
    case (Some p)
    from t have "t \<in> set (tasks db)" "\<not> ?gone t" by auto
    with db Some obtain q where q: "q \<in> set (tasks db)" "tk_id q = p" "tk_parent q = None" "tk_bucket q = tk_bucket t"
      by (elim task_parentD)
    then have "\<not> ?gone q" using cascade_closed [OF db, of t q P] \<open>t \<in> set (tasks db)\<close> \<open>\<not> ?gone t\<close> Some by auto
    then have "list_ex (\<lambda>q. tk_id q = p \<and> tk_parent q = None \<and> tk_bucket q = tk_bucket t) (tasks ?db')"
      using q by (auto simp: list_ex_iff)
    then show ?thesis by (simp add: parent_ok_def Some)
  qed (simp add: parent_ok_def)
  then have "rows_ok ?db'"
    using db by (auto simp: structure_ok_def rows_ok_def list_all_iff)
  ultimately show ?thesis by (simp add: structure_ok_def)
qed

text \<open>
  Deleting rows of one account and taking what the cascade frees off the counters leaves
  the counters exact.
\<close>

lemma accounting_delete:
  assumes inv: "structure_ok db" "accounting_ok db"
    and own: "\<And>x. x \<in> set (tasks db) \<Longrightarrow> P x \<Longrightarrow> tk_owner x = u"
    and q: "q_userID q = u" "q_usage q = usage_of db u" "has_usage_row db u"
    and ap: "quota_apply db q (- u_Tasks (lockedTaskStorage db (cascade_tasks (tasks db) P)))
      (- u_ContentBytes (lockedTaskStorage db (cascade_tasks (tasks db) P))) = Inr (db', q')"
  shows "accounting_ok (delete_tasks db' P)"
proof -
  let ?gone = "cascade_tasks (tasks db) P"
  have dist: "distinct (map tk_id (tasks db))" using inv by (simp add: structure_defs)
  note frame = quota_apply_frame [OF ap]
  have own': "tk_owner t = u" if "t \<in> set (tasks db)" "?gone t" for t
    using inv(1) that own by (rule cascade_owner)
  have cnt: "count_where (\<lambda>t. tk_owner t = v \<and> ?gone t) (tasks db) = (if v = u then count_where ?gone (tasks db) else 0)" for v
  proof -
    have "count_where (\<lambda>t. tk_owner t = v \<and> ?gone t) (tasks db) = count_where (\<lambda>t. v = u \<and> ?gone t) (tasks db)"
      using own' by (intro count_where_cong) blast
    then show ?thesis by (simp add: count_where_def)
  qed
  have sum: "sum_where (\<lambda>t. tk_owner t = v \<and> ?gone t) (content_bytes (entries db)) (tasks db) =
      (if v = u then sum_where ?gone (content_bytes (entries db)) (tasks db) else 0)" for v
  proof -
    have "sum_where (\<lambda>t. tk_owner t = v \<and> ?gone t) (content_bytes (entries db)) (tasks db) =
        sum_where (\<lambda>t. v = u \<and> ?gone t) (content_bytes (entries db)) (tasks db)"
      using own' by (intro sum_where_cong) blast+
    then show ?thesis by (simp add: sum_where_def)
  qed
  show ?thesis
  proof (rule accounting_moved [OF inv(2), where u = u])
    show "stored_tasks_of (delete_tasks db' P) v = stored_tasks_of db v + (if v = u then - count_where ?gone (tasks db) else 0)" for v
      by (simp add: stored_tasks_delete frame stored_of_cong [OF frame(5,6)] cnt)
    show "stored_bytes_of (delete_tasks db' P) v = stored_bytes_of db v
        + (if v = u then - sum_where ?gone (content_bytes (entries db)) (tasks db) else 0)" for v
      using dist by (simp add: stored_bytes_delete frame stored_of_cong [OF frame(5,6)] sum)
    show "usage_of (delete_tasks db' P) v = (if v = u then moved_usage (usage_of db v) (- count_where ?gone (tasks db))
        (- sum_where ?gone (content_bytes (entries db)) (tasks db)) else usage_of db v)" for v
      using quota_apply_moves [OF ap] q by (simp add: usage_of_cong [of "delete_tasks db' P" db'] lockedTaskStorage_eq)
  qed
qed

lemma lockedBucket_InrD:
  "lockedBucket db u i = Inr b \<Longrightarrow> \<exists>r \<in> set (buckets db). bk_id r = i \<and> bk_user r = u \<and> b = bucket_of_row 0 r"
  by (auto simp: lockedBucket_def rbind_eq_Inr dest!: query_row_InrD)

lemma bucket_of_row_simps [simp]:
  "bID (bucket_of_row n r) = bk_id r" "bIsInbox (bucket_of_row n r) = bk_inbox r"
  "bName (bucket_of_row n r) = bk_name r" "bSortOrder (bucket_of_row n r) = bk_sort r"
  by (simp_all add: bucket_of_row_def)

lemma find_delete_where:
  "(\<And>x. P x \<Longrightarrow> \<not> D x) \<Longrightarrow> List.find P (delete_where D rows) = List.find P rows"
  by (induction rows) (auto simp: delete_where_def)

lemma count_where_filter_le: "count_where P (delete_where D rows) \<le> count_where P rows"
  by (simp add: count_where_delete)

lemma structure_bucket_removed:
  assumes db: "structure_ok db" and unused: "\<And>t. t \<in> set (tasks db) \<Longrightarrow> tk_bucket t \<noteq> i"
  shows "structure_ok (db\<lparr>buckets := delete_where (\<lambda>b. bk_id b = i) (buckets db)\<rparr>)" (is "structure_ok ?db'")
proof -
  have lo: "list_owner ?db' j = list_owner db j" if "j \<noteq> i" for j
    using that by (simp add: list_owner_def find_delete_where)
  have as: "assigned_ok ?db' t = assigned_ok db t" for t
    by (simp add: assigned_ok_def)
  have "list_all (\<lambda>t. list_owner ?db' (tk_bucket t) = Some (tk_owner t) \<and> assigned_ok ?db' t) (tasks db)"
    using db unused by (simp add: structure_ok_def refs_ok_def list_all_iff lo as)
  then have "refs_ok ?db'"
    using db by (simp add: structure_ok_def refs_ok_def list_all_iff)
  moreover have "inbox_ok ?db'"
    using db unfolding structure_ok_def inbox_ok_def by (auto intro: order_trans [OF count_where_filter_le])
  moreover have "keys_ok ?db'" "rows_ok ?db'"
    using db by (auto simp: structure_ok_def keys_ok_def rows_ok_def list_all_iff intro: distinct_map_delete_where)
  ultimately show ?thesis by (simp add: structure_ok_def)
qed

lemma DeleteBucket_inv:
  assumes inv: "store_inv db" and run: "DeleteBucket e db u listID = Inr (db', x)"
  shows "store_inv db'"
proof -
  let ?db1 = "ensure_usage_row db u"
  from run obtain limits i found q' db2 where found: "lockedBucket ?db1 u i = Inr found"
    and ap: "quota_apply ?db1 \<lparr>q_userID = u, q_limits = limits, q_usage = usage_of db u\<rparr>
      (- u_Tasks (lockedTaskStorage ?db1 (cascade_tasks (tasks ?db1) (\<lambda>t. tk_bucket t = bID found))))
      (- u_ContentBytes (lockedTaskStorage ?db1 (cascade_tasks (tasks ?db1) (\<lambda>t. tk_bucket t = bID found)))) = Inr (db2, q')"
    and db': "db' = (delete_tasks db2 (\<lambda>t. tk_bucket t = bID found))\<lparr>buckets :=
      delete_where (\<lambda>b. bk_id b = bID found) (buckets db2)\<rparr>"
    unfolding DeleteBucket_def Let_def lockedBucketTaskStorage_def
    by (elim rbind_elims) (simp add: lockStorageQuota_eq_Inr del: ensure_usage_row_frame, blast)
  let ?P = "\<lambda>t. tk_bucket t = bID found"
  have s1: "structure_ok ?db1" and a1: "accounting_ok ?db1" using inv by (simp_all add: store_inv_def)
  obtain r where r: "r \<in> set (buckets ?db1)" "bk_user r = u" "bID found = bk_id r"
    using lockedBucket_InrD [OF found] by auto
  have own: "tk_owner t = u" if "t \<in> set (tasks ?db1)" "?P t" for t
    using that task_ownerD [OF s1, of t] list_owner_iff [OF s1 r(1)] r by simp
  have "accounting_ok (delete_tasks db2 ?P)"
    by (rule accounting_delete [OF s1 a1 own _ _ _ ap]) simp_all
  then have acc: "accounting_ok db'" by (simp add: db')
  have "structure_ok db2"
    using s1 by (rule structure_cong) (simp_all add: quota_apply_frame [OF ap])
  then have "structure_ok (delete_tasks db2 ?P)" by (rule structure_delete_tasks)
  moreover have "tk_bucket t \<noteq> bID found" if "t \<in> set (tasks (delete_tasks db2 ?P))" for t
    using that cascade_self [of ?P t] by auto
  ultimately have "structure_ok ((delete_tasks db2 ?P)\<lparr>buckets :=
      delete_where (\<lambda>b. bk_id b = bID found) (buckets (delete_tasks db2 ?P))\<rparr>)"
    by (rule structure_bucket_removed)
  then have "structure_ok db'" by (simp only: db' delete_tasks_frame)
  then show ?thesis using acc by (simp add: store_inv_def)
qed

lemma ensureInbox_insert_inv:
  assumes "store_inv db" "fresh \<noteq> []" "accountLimitsForUpdate db u = Inr limits"
    "insert_bucket db (new_bucket now fresh u ''Inbox'' g ''slate'' True 20 0) = Inr db'"
  shows "store_inv db'"
  using assms by (intro insert_bucket_inv [OF assms(1,4)]) (simp_all add: validListColor_def)

lemma bucket_unique:
  "structure_ok db \<Longrightarrow> a \<in> set (buckets db) \<Longrightarrow> b \<in> set (buckets db) \<Longrightarrow> bk_id a = bk_id b \<Longrightarrow> a = b"
  by (auto simp: structure_defs dest: distinct_key_inj)

lemma bucket_id_nonempty: "structure_ok db \<Longrightarrow> b \<in> set (buckets db) \<Longrightarrow> bk_id b \<noteq> []"
  unfolding structure_ok_def keys_ok_def by (metis image_eqI list.set_map)

lemma count_where_key_le_1:
  assumes "distinct (map k rows)" "\<And>r. r \<in> set rows \<Longrightarrow> P r \<Longrightarrow> k r = i"
  shows "count_where P rows \<le> 1"
proof -
  have "distinct (map k (filter P rows))" using assms(1) by (rule distinct_map_filter)
  moreover have "set (map k (filter P rows)) \<subseteq> {i}" using assms(2) by auto
  ultimately have "length (map k (filter P rows)) \<le> card {i}"
    by (metis card_mono distinct_card finite.emptyI finite_insert)
  then show ?thesis by (simp add: count_where_def)
qed

text \<open>Marking one list of an account without an Inbox gives it exactly that Inbox.\<close>

lemma promote_one_inbox:
  assumes s: "structure_ok db" and r: "r \<in> set (buckets db)" "bk_user r = u" "bk_id r = first"
    and none: "List.find (\<lambda>b. bk_user b = u \<and> bk_inbox b) (buckets db) = None"
  shows "one_inbox (update_where (\<lambda>b. bk_id b = first) (\<lambda>b. b\<lparr>bk_inbox := True, bk_updated := now\<rparr>) (buckets db)) v"
    (is "one_inbox ?bs v")
proof (cases "v = u")
  case True
  have "map bk_id ?bs = map bk_id (buckets db)" by (rule map_update_where) simp
  then have "distinct (map bk_id ?bs)" using s by (simp add: structure_defs)
  moreover have "bk_id b = first" if "b \<in> set ?bs" "bk_user b = v \<and> bk_inbox b" for b
    using that none True by (auto simp: set_update_where find_None_iff split: if_splits)
  ultimately show ?thesis unfolding one_inbox_def by (rule count_where_key_le_1)
next
  case False
  have "count_where (\<lambda>b. bk_user b = v \<and> bk_inbox b) ?bs = count_where (\<lambda>b. bk_user b = v \<and> bk_inbox b) (buckets db)"
    using bucket_unique [OF s r(1)] r False by (intro count_where_update) auto
  then show ?thesis using s by (simp add: one_inbox_def structure_ok_def inbox_ok_def)
qed

lemma ensureInboxBucketID_inv:
  assumes inv: "store_inv db" and fresh: "fresh \<noteq> []" and run: "ensureInboxBucketID db now fresh u = Inr (db', i)"
  shows "store_inv db'"
proof -
  obtain limits where lim: "accountLimitsForUpdate db u = Inr limits"
    using run by (auto simp: ensureInboxBucketID_def rbind_eq_Inr)
  show ?thesis
  proof (cases "List.find (\<lambda>b. bk_user b = u \<and> bk_inbox b) (buckets db)")
    case (Some b)
    then show ?thesis using run inv lim by (simp add: ensureInboxBucketID_def)
  next
    case none: None
    show ?thesis
    proof (cases "bucket_ids (\<lambda>b. bk_user b = u) (buckets db)")
      case Nil
      then show ?thesis
        using run lim none ensureInbox_insert_inv [OF inv fresh lim]
        by (auto simp: ensureInboxBucketID_def rbind_eq_Inr)
    next
      case (Cons first rest)
      let ?bs = "update_where (\<lambda>b. bk_id b = first) (\<lambda>b. b\<lparr>bk_inbox := True, bk_updated := now\<rparr>) (buckets db)"
      have db': "db' = db\<lparr>buckets := ?bs\<rparr>"
        using run lim none Cons by (auto simp: ensureInboxBucketID_def)
      have "first \<in> set (bucket_ids (\<lambda>b. bk_user b = u) (buckets db))" by (simp add: Cons del: set_ordered_ids)
      then obtain r where r: "r \<in> set (buckets db)" "bk_user r = u" "bk_id r = first" by auto
      have s: "structure_ok db" using inv by (simp add: store_inv_def)
      have "structure_ok (db\<lparr>buckets := ?bs\<rparr>)"
      proof (rule structure_buckets_updated [OF s list_all2_update_where])
        show "one_inbox ?bs v" for v
          using promote_one_inbox [OF s r none] by simp
      qed (use bucket_rowD [OF s] in \<open>simp_all add: bucket_row_ok_def\<close>)
      then show ?thesis using inv by (simp add: store_inv_def db')
    qed
  qed
qed

subsection \<open>Reordering lists\<close>

interpretation bucket_order: ordered_rows bk_id bk_sort bk_created "put_bucket_sort now" for now
  by unfold_locales (simp_all add: put_bucket_sort_def)

lemma reorder_seen_Inr:
  "reorder_seen existing seen ids = Inr seen' \<Longrightarrow>
     seen' = seen @ ids \<and> set ids \<subseteq> set existing \<and> distinct ids \<and> set ids \<inter> set seen = {}"
  by (induction existing seen ids rule: reorder_seen.induct) (auto split: if_splits)

lemma reorder_seen_ok:
  "set ids \<subseteq> set existing \<Longrightarrow> distinct ids \<Longrightarrow> set ids \<inter> set seen = {} \<Longrightarrow>
     reorder_seen existing seen ids = Inr (seen @ ids)"
  by (induction existing seen ids rule: reorder_seen.induct) auto

lemma ReorderBuckets_InrD:
  assumes "ReorderBuckets db now u ids = Inr (db', x)"
  defines "old \<equiv> bucket_ids (\<lambda>b. bk_user b = u) (buckets db)"
  shows "set ids \<subseteq> set old \<and> distinct ids \<and> positions_fit (ids @ filter (\<lambda>i. i \<notin> set ids) old)
    \<and> db' = db\<lparr>buckets := write_positions bk_id (put_bucket_sort now) 0
       (ids @ filter (\<lambda>i. i \<notin> set ids) old) (buckets db)\<rparr>"
  using assms(1) unfolding ReorderBuckets_def Let_def old_def [symmetric]
  by (elim rbind_elims) (drule reorder_seen_Inr, simp)

lemma write_positions_put_bucket:
  "distinct ids \<Longrightarrow> positions_fit ids \<Longrightarrow> \<forall>b \<in> set bs. bucket_row_ok b \<Longrightarrow>
   list_all2 (\<lambda>b b'. bk_id b' = bk_id b \<and> bk_user b' = bk_user b \<and> bk_inbox b' = bk_inbox b \<and> bucket_row_ok b') bs
     (write_positions bk_id (put_bucket_sort now) 0 ids bs)"
  by (auto simp: bucket_order.write_positions_map list_all2_map2 list_all2_same put_bucket_sort_def
      bucket_row_ok_def fits_int4_def minPostgresInteger_def maxPostgresInteger_def positions_fit_def
      split: option.splits dest!: index_of_Some)

lemma list_all2_count_eq:
  "list_all2 R xs ys \<Longrightarrow> (\<And>x y. R x y \<Longrightarrow> P y = P x) \<Longrightarrow> count_where P ys = count_where P xs"
  by (induction xs ys rule: list_all2_induct) auto

lemma distinct_order_with_rest:
  "distinct ids \<Longrightarrow> distinct old \<Longrightarrow> distinct (ids @ filter (\<lambda>i. i \<notin> set ids) old)"
  by auto

lemma distinct_bucket_ids: "structure_ok db \<Longrightarrow> distinct (bucket_ids P (buckets db))"
  by (rule distinct_ordered_ids) (simp add: structure_defs)

lemma ReorderBuckets_inv:
  assumes inv: "store_inv db" and run: "ReorderBuckets db now u ids = Inr (db', x)"
  shows "store_inv db'"
proof -
  let ?ids = "ids @ filter (\<lambda>i. i \<notin> set ids) (bucket_ids (\<lambda>b. bk_user b = u) (buckets db))"
  have s: "structure_ok db" using inv by (simp add: store_inv_def)
  note run = ReorderBuckets_InrD [OF run]
  have rel: "list_all2 (\<lambda>b b'. bk_id b' = bk_id b \<and> bk_user b' = bk_user b \<and> bk_inbox b' = bk_inbox b \<and> bucket_row_ok b')
      (buckets db) (write_positions bk_id (put_bucket_sort now) 0 ?ids (buckets db))"
    using run s distinct_bucket_ids [OF s]
    by (intro write_positions_put_bucket) (auto intro: bucket_rowD)
  have "one_inbox (write_positions bk_id (put_bucket_sort now) 0 ?ids (buckets db)) v" for v
    using s list_all2_count_eq [OF rel, of "\<lambda>b. bk_user b = v \<and> bk_inbox b"]
    by (simp add: one_inbox_def structure_ok_def inbox_ok_def)
  then have "structure_ok db'"
    using run list_all2_mono [OF rel] by (auto intro!: structure_buckets_updated [OF s])
  then show ?thesis using inv run by (simp add: store_inv_def)
qed

subsection \<open>An account that has an Inbox keeps one\<close>

definition has_inbox :: "db \<Rightarrow> string \<Rightarrow> bool" where
  "has_inbox db u \<longleftrightarrow> list_ex (\<lambda>b. bk_user b = u \<and> bk_inbox b) (buckets db)"

lemma has_inboxI: "b \<in> set (buckets db) \<Longrightarrow> bk_user b = u \<Longrightarrow> bk_inbox b \<Longrightarrow> has_inbox db u"
  by (auto simp: has_inbox_def list_ex_iff)

lemma has_inbox_ensure [simp]: "has_inbox (ensure_usage_row db u) v = has_inbox db v"
  by (simp add: has_inbox_def)

lemma has_inbox_release_other: "has_inbox db v \<Longrightarrow> v \<noteq> u \<Longrightarrow> has_inbox (releaseInboxMarker db now u x) v"
  by (auto simp: has_inbox_def releaseInboxMarker_def list_ex_iff set_update_where image_iff)

lemma CreateBucket_inbox:
  assumes "has_inbox db v" "CreateBucket db now fresh u input = Inr (db', b)"
  shows "has_inbox db' v"
proof -
  let ?db1 = "if cbIsInbox input then releaseInboxMarker db now u [] else db"
  from assms(2) obtain row where row: "bk_user row = u" "bk_inbox row = cbIsInbox input"
    and db': "db' = ?db1\<lparr>buckets := buckets ?db1 @ [row]\<rparr>"
    by (elim CreateBucket_InrE) (metis insert_bucket_eq_Inr new_bucket_simps(2,3))
  show ?thesis
  proof (cases "cbIsInbox input \<and> v = u")
    case True
    then show ?thesis using row by (simp add: db' has_inbox_def)
  next
    case False
    then have "has_inbox ?db1 v" using assms(1) by (auto intro: has_inbox_release_other)
    then show ?thesis by (simp add: db' has_inbox_def)
  qed
qed

lemma write_bucket_InrD:
  assumes "write_bucket db now u i current = Inr (db', b)"
  shows "db' = db\<lparr>buckets := update_where (\<lambda>b. bk_user b = u \<and> bk_id b = i) (set_bucket now current) (buckets db)\<rparr>
    \<and> (\<exists>r \<in> set (buckets db). bk_user r = u \<and> bk_id r = i)"
  using assms unfolding write_bucket_def Let_def
  by (elim rbind_elims) (auto dest!: query_row_InrD simp: set_update_where split: if_splits)

lemma UpdateBucket_InrE:
  assumes "UpdateBucket e db now u listID input = Inr (db', b)"
  obtains i found db2 where "lockedBucket (ensure_usage_row db u) u i = Inr found"
    "bIsInbox found \<and> \<not> bIsInbox (merge_bucket input found) \<longrightarrow>
       ensureInboxSurvives (ensure_usage_row db u) u (bID found) = Inr ()"
    "db2 = (if \<not> bIsInbox found \<and> bIsInbox (merge_bucket input found)
       then releaseInboxMarker (ensure_usage_row db u) now u (bID found) else ensure_usage_row db u)"
    "write_bucket db2 now u i (merge_bucket input found) = Inr (db', b)"
proof -
  have [simp]: "bID (merge_bucket input x) = bID x" for x by (simp add: merge_bucket_def)
  show thesis
    using assms unfolding UpdateBucket_def Let_def
    by (elim rbind_elims)
      (simp only: lockStorageQuota_eq_Inr, elim exE conjE, hypsubst, rule that [OF _ _ refl],
       assumption, auto split: if_splits)
qed

lemma UpdateBucket_inbox:
  assumes inv: "store_inv db" and had: "has_inbox db v" and run: "UpdateBucket e db now u listID input = Inr (db', b)"
  shows "has_inbox db' v"
proof -
  from run obtain i found db2 where found: "lockedBucket (ensure_usage_row db u) u i = Inr found"
    and survives: "bIsInbox found \<and> \<not> bIsInbox (merge_bucket input found) \<longrightarrow>
       ensureInboxSurvives (ensure_usage_row db u) u (bID found) = Inr ()"
    and db2: "db2 = (if \<not> bIsInbox found \<and> bIsInbox (merge_bucket input found)
       then releaseInboxMarker (ensure_usage_row db u) now u (bID found) else ensure_usage_row db u)"
    and w: "write_bucket db2 now u i (merge_bucket input found) = Inr (db', b)"
    by (rule UpdateBucket_InrE)
  note w = write_bucket_InrD [OF w]
  obtain r where r: "r \<in> set (buckets db)" "bk_id r = i" "bk_user r = u" "found = bucket_of_row 0 r"
    using lockedBucket_InrD [OF found] by auto
  have s: "structure_ok db" using inv by (simp add: store_inv_def)
  then have rne: "bk_id r \<noteq> []" using r(1) by (rule bucket_id_nonempty)
  let ?cur = "merge_bucket input found"
  consider (now) "v = u" "bIsInbox ?cur" | (other) x where "x \<in> set (buckets db2)" "bk_user x = v" "bk_inbox x" "x \<noteq> r"
    "bk_id x \<noteq> i"
  proof (cases "v = u \<and> bIsInbox ?cur")
    case False
    have neq: "bk_id x \<noteq> i" if "x \<in> set (buckets db)" "x \<noteq> r" for x
      using bucket_unique [OF s that(1) r(1)] r(2) that(2) by auto
    have "\<exists>x \<in> set (buckets db). bk_user x = v \<and> bk_inbox x \<and> bk_id x \<noteq> i"
    proof (cases "v = u \<and> bk_inbox r")
      case True
      then have "ensureInboxSurvives (ensure_usage_row db u) u i = Inr ()"
        using survives False r by simp
      then show ?thesis using True rne r(2) by (auto simp: ensureInboxSurvives_def list_ex_iff)
    next
      case False
      obtain x where "x \<in> set (buckets db)" "bk_user x = v" "bk_inbox x"
        using had by (auto simp: has_inbox_def list_ex_iff)
      moreover from this False have "x \<noteq> r" using r(3) by auto
      ultimately show ?thesis using neq by blast
    qed
    then obtain x where x: "x \<in> set (buckets db)" "bk_user x = v" "bk_inbox x" "bk_id x \<noteq> i" by blast
    have "x \<in> set (buckets db2)"
      using x False by (auto simp: db2 releaseInboxMarker_def set_update_where image_iff)
    then show thesis using x r(2) other by blast
  qed auto
  then show ?thesis
  proof cases
    case now
    let ?P = "\<lambda>b. bk_user b = u \<and> bk_id b = i" and ?f = "set_bucket now (merge_bucket input found)"
    obtain x where x: "x \<in> set (buckets db2)" "?P x" using w by blast
    have "?f x \<in> set (buckets db')" using update_where_hit [where P = ?P and f = ?f, OF x] w by simp
    moreover have "bk_user (?f x) = u" "bk_inbox (?f x)" using now x by (simp_all add: set_bucket_def)
    ultimately show ?thesis using now by (auto simp: has_inbox_def list_ex_iff simp del: split_paired_Ex)
  next
    case (other x)
    let ?P = "\<lambda>b. bk_user b = u \<and> bk_id b = i" and ?f = "set_bucket now (merge_bucket input found)"
    have "x \<in> set (buckets db')"
      using update_where_miss [where P = ?P and f = ?f, OF other(1)] other w by simp
    then show ?thesis using other by (auto simp: has_inbox_def list_ex_iff)
  qed
qed

lemma DeleteBucket_inbox:
  assumes inv: "store_inv db" and had: "has_inbox db v" and run: "DeleteBucket e db u listID = Inr (db', x)"
  shows "has_inbox db' v"
proof -
  have s: "structure_ok db" using inv by (simp add: store_inv_def)
  from run obtain i found db2 where found: "lockedBucket (ensure_usage_row db u) u i = Inr found"
    and survives: "bIsInbox found \<longrightarrow> ensureInboxSurvives (ensure_usage_row db u) u (bID found) = Inr ()"
    and db': "buckets db' = delete_where (\<lambda>b. bk_id b = bID found) (buckets db)"
    unfolding DeleteBucket_def Let_def
    by (elim rbind_elims)
      (simp only: lockStorageQuota_eq_Inr, elim exE conjE, hypsubst, rule that, assumption,
       auto dest: quota_apply_frame(4))
  obtain r where r: "r \<in> set (buckets db)" "bk_id r = i" "bk_user r = u" "found = bucket_of_row 0 r"
    using lockedBucket_InrD [OF found] by auto
  have "\<exists>y \<in> set (buckets db). bk_user y = v \<and> bk_inbox y \<and> bk_id y \<noteq> bID found"
  proof (cases "v = u \<and> bk_inbox r")
    case True
    then show ?thesis
      using survives r bucket_id_nonempty [OF s r(1)] by (auto simp: ensureInboxSurvives_def list_ex_iff)
  next
    case False
    obtain y where y: "y \<in> set (buckets db)" "bk_user y = v" "bk_inbox y"
      using had by (auto simp: has_inbox_def list_ex_iff)
    moreover from y False have "y \<noteq> r" using r(3) by auto
    then have "bk_id y \<noteq> bID found" using bucket_unique [OF s y(1) r(1)] r(4) by auto
    ultimately show ?thesis by blast
  qed
  then show ?thesis by (auto simp: has_inbox_def list_ex_iff db')
qed

lemma ReorderBuckets_inbox:
  assumes inv: "store_inv db" and had: "has_inbox db v" and run: "ReorderBuckets db now u ids = Inr (db', x)"
  shows "has_inbox db' v"
proof -
  have s: "structure_ok db" using inv by (simp add: store_inv_def)
  note run = ReorderBuckets_InrD [OF run]
  obtain b where b: "b \<in> set (buckets db)" "bk_user b = v" "bk_inbox b"
    using had by (auto simp: has_inbox_def list_ex_iff)
  have "list_all2 (\<lambda>b b'. bk_id b' = bk_id b \<and> bk_user b' = bk_user b \<and> bk_inbox b' = bk_inbox b \<and> bucket_row_ok b')
      (buckets db) (buckets db')"
    using run s distinct_bucket_ids [OF s]
    by (auto intro!: write_positions_put_bucket intro: bucket_rowD)
  from list_all2_setD1 [OF this b(1)] b show ?thesis by (auto simp: has_inbox_def list_ex_iff)
qed

lemma ensureInboxBucketID_inbox:
  assumes inv: "store_inv db" and run: "ensureInboxBucketID db now fresh u = Inr (db', i)"
  shows "has_inbox db' u \<and> (has_inbox db v \<longrightarrow> has_inbox db' v)"
    and "\<exists>b \<in> set (buckets db'). bk_id b = i \<and> bk_user b = u \<and> bk_inbox b"
proof -
  have s: "structure_ok db" using inv by (simp add: store_inv_def)
  obtain limits where lim: "accountLimitsForUpdate db u = Inr limits"
    using run by (auto simp: ensureInboxBucketID_def rbind_eq_Inr)
  note def = run [unfolded ensureInboxBucketID_def lim rbind_Inr]
  show "\<exists>b \<in> set (buckets db'). bk_id b = i \<and> bk_user b = u \<and> bk_inbox b"
  proof (cases "List.find (\<lambda>b. bk_user b = u \<and> bk_inbox b) (buckets db)")
    case (Some b)
    then show ?thesis using def by (auto dest: find_SomeD)
  next
    case none: None
    show ?thesis
    proof (cases "bucket_ids (\<lambda>b. bk_user b = u) (buckets db)")
      case Nil
      then show ?thesis using def none by (auto simp: rbind_eq_Inr insert_bucket_eq_Inr)
    next
      case (Cons first rest)
      have "first \<in> set (bucket_ids (\<lambda>b. bk_user b = u) (buckets db))" by (simp add: Cons del: set_ordered_ids)
      then obtain r where r: "r \<in> set (buckets db)" "bk_user r = u" "bk_id r = first" by auto
      let ?f = "\<lambda>b. b\<lparr>bk_inbox := True, bk_updated := now\<rparr>"
      have "?f r \<in> set (update_where (\<lambda>b. bk_id b = first) ?f (buckets db))"
        using r by (intro update_where_hit) simp_all
      moreover have "db' = db\<lparr>buckets := update_where (\<lambda>b. bk_id b = first) ?f (buckets db)\<rparr>" "i = first"
        using def none Cons by auto
      ultimately show ?thesis using r by (intro bexI [of _ "?f r"]) simp_all
    qed
  qed
  then have "has_inbox db' u" by (auto simp: has_inbox_def list_ex_iff)
  moreover have "has_inbox db' v" if had: "has_inbox db v"
  proof -
    obtain b where b: "b \<in> set (buckets db)" "bk_user b = v" "bk_inbox b"
      using had by (auto simp: has_inbox_def list_ex_iff)
    have "b \<in> set (buckets db') \<or> b\<lparr>bk_inbox := True, bk_updated := now\<rparr> \<in> set (buckets db')"
      using def b(1)
      by (auto simp: rbind_eq_Inr insert_bucket_eq_Inr set_update_where split: option.splits list.splits)
    then show ?thesis using b by (auto intro: has_inboxI)
  qed
  ultimately show "has_inbox db' u \<and> (has_inbox db v \<longrightarrow> has_inbox db' v)" by blast
qed

subsection \<open>Properties\<close>

lemma ListAllBuckets_ids: "map bID (ListAllBuckets db u) = bucket_ids (\<lambda>b. bk_user b = u) (buckets db)"
  by (simp add: ListAllBuckets_def ordered_ids_def)

text \<open>
  C23: After a successful \<open>ReorderBuckets\<close> the account's lists are shown in the requested order,
  followed by the lists the request did not name in the order they had before.
\<close>

theorem ReorderBuckets_order:
  assumes "store_inv db" and "ReorderBuckets db now u ids = Inr (db', x)"
  shows "map bID (ListAllBuckets db' u) =
    ids @ filter (\<lambda>i. i \<notin> set ids) (map bID (ListAllBuckets db u))"
proof -
  let ?mine = "\<lambda>b. bk_user b = u"
  let ?ids = "ids @ filter (\<lambda>i. i \<notin> set ids) (bucket_ids ?mine (buckets db))"
  have s: "structure_ok db" using assms(1) by (simp add: store_inv_def)
  note run = ReorderBuckets_InrD [OF assms(2)]
  have "bucket_ids ?mine (write_positions bk_id (put_bucket_sort now) 0 ?ids (buckets db)) = ?ids"
  proof (rule bucket_order.order_after_write)
    show "distinct (map bk_id (buckets db))" using s by (simp add: structure_defs)
    show "distinct ?ids" using run distinct_bucket_ids [OF s] by (intro distinct_order_with_rest) auto
    show "set ?ids = bk_id ` {b \<in> set (buckets db). ?mine b}" using run by auto
  qed (simp add: put_bucket_sort_def)
  then show ?thesis using run by (simp add: ListAllBuckets_ids)
qed

theorem ReorderBuckets_order_witness:
  "map bID (ListAllBuckets (fst (projr (ReorderBuckets ex_db 9 ''u1'' [''b2'']))) ''u1'') = [''b2'', ''b1'']"
proof -
  obtain db' where run: "ReorderBuckets ex_db 9 ''u1'' [''b2''] = Inr (db', ())"
    by (simp add: ReorderBuckets_def accountLimitsForUpdate_def ordered_ids_def order_key_def
        positions_fit_def maxPostgresInteger_def ex_defs)
  moreover have "map bID (ListAllBuckets ex_db ''u1'') = [''b1'', ''b2'']" by code_simp
  ultimately show ?thesis
    using ReorderBuckets_order [OF ex_store_inv run] by simp
qed

text \<open>
  \<open>ReorderBuckets\<close> accepts exactly the requests that name lists of the account, each once.
\<close>

theorem ReorderBuckets_accepts:
  assumes "accountLimitsForUpdate db u = Inr limits"
    and "positions_fit (ids @ filter (\<lambda>i. i \<notin> set ids) (map bID (ListAllBuckets db u)))"
  shows "(\<exists>db'. ReorderBuckets db now u ids = Inr (db', ())) \<longleftrightarrow>
    distinct ids \<and> set ids \<subseteq> set (map bID (ListAllBuckets db u))"
proof
  assume "\<exists>db'. ReorderBuckets db now u ids = Inr (db', ())"
  then show "distinct ids \<and> set ids \<subseteq> set (map bID (ListAllBuckets db u))"
    unfolding ListAllBuckets_ids by (blast dest: ReorderBuckets_InrD)
next
  assume ok: "distinct ids \<and> set ids \<subseteq> set (map bID (ListAllBuckets db u))"
  have "reorder_seen (bucket_ids (\<lambda>b. bk_user b = u) (buckets db)) [] ids = Inr ids"
    using ok reorder_seen_ok [of ids _ "[]"] unfolding ListAllBuckets_ids by simp
  then show "\<exists>db'. ReorderBuckets db now u ids = Inr (db', ())"
    using assms by (simp add: ReorderBuckets_def ListAllBuckets_ids Let_def)
qed

theorem ReorderBuckets_accepts_witness:
  "\<not> (\<exists>db'. ReorderBuckets ex_db 9 ''u1'' [''b2'', ''b2''] = Inr (db', ()))"
proof -
  have "accountLimitsForUpdate ex_db ''u1'' = Inr ProLimits" by code_simp
  moreover have "positions_fit ([''b2'', ''b2''] @ filter (\<lambda>i. i \<notin> set [''b2'', ''b2'']) (map bID (ListAllBuckets ex_db ''u1'')))"
    by code_simp
  ultimately show ?thesis
    using ReorderBuckets_accepts [of ex_db "''u1''" ProLimits "[''b2'', ''b2'']" 9] by simp
qed

text \<open>
  C40: A list whose \<open>sort_order\<close> was set to the largest 32-bit integer, which
  \<open>UpdateBucket\<close> accepts, makes every later \<open>CreateBucket\<close> of the account fail: the next
  position overflows.
\<close>

theorem CreateBucket_sort_overflow:
  assumes "b \<in> set (buckets db)" and "bk_user b = u" and "bk_sort b = maxPostgresInteger"
  shows "\<nexists>db' bucket. CreateBucket db now fresh u input = Inr (db', bucket)"
proof (intro notI, elim exE)
  fix db' bucket
  assume run: "CreateBucket db now fresh u input = Inr (db', bucket)"
  define db1 where "db1 = (if cbIsInbox input then releaseInboxMarker db now u [] else db)"
  define sorts where "sorts = map bk_sort (filter (\<lambda>b. bk_user b = u) (buckets db1))"
  from run obtain n where n: "next_sort sorts = Inr n"
    unfolding CreateBucket_def Let_def sorts_def db1_def by (elim rbind_elims) blast
  have "map (\<lambda>b. (bk_user b, bk_sort b)) (buckets db1) = map (\<lambda>b. (bk_user b, bk_sort b)) (buckets db)"
    by (simp add: db1_def releaseInboxMarker_def map_update_where)
  then have "(u, maxPostgresInteger) \<in> (\<lambda>b. (bk_user b, bk_sort b)) ` set (buckets db1)"
    using assms by (metis (mono_tags, lifting) image_eqI list.set_map)
  then have "maxPostgresInteger \<in> set sorts" by (auto simp: sorts_def image_iff)
  then have "maxPostgresInteger \<le> Max (set sorts)" "sorts \<noteq> []" by auto
  then show False using n by (simp add: next_sort_def Let_def fits_int4_def split: if_splits)
qed

definition ex_db_full_sort :: db where
  "ex_db_full_sort = ex_db\<lparr>buckets := [ex_bucket ''b1'' True maxPostgresInteger]\<rparr>"

theorem CreateBucket_sort_overflow_witness:
  "\<nexists>db' bucket. CreateBucket ex_db_full_sort 9 ''b3'' ''u1''
     \<lparr>cbName = ''More'', cbGoal = [], cbColor = [], cbLimitCount = 0, cbIsInbox = False\<rparr> = Inr (db', bucket)"
  by (rule CreateBucket_sort_overflow [where b = "ex_bucket ''b1'' True maxPostgresInteger"])
    (simp_all add: ex_db_full_sort_def ex_bucket_def)

end
