(* ===== verification/Tasks.thy ===== *)
theory Tasks
  imports Lists
begin

section \<open>Creating tasks (boards/store.go)\<close>

text \<open>
  Reading task rows, the checks on a create request, the request fingerprints behind
  idempotency keys, and the create transaction with its replay of an earlier request. The
  per-list working limit is no longer enforced: \<open>checkTaskCapacity\<close> always succeeds.
\<close>

subsection \<open>Rows and structs\<close>

definition task_of_row :: "task_row \<Rightarrow> Task" where
  "task_of_row t =
     \<lparr>tID = tk_id t, tBucketID = tk_bucket t, tTitle = tk_title t, tDescription = tk_description t,
      tScheduledDate = null_text (tk_date t), tKind = tk_kind t, tStatus = tk_status t,
      tPriority = tk_priority t, tAssigneeAgentID = null_text (tk_assignee t), tAssigneeAgentName = [],
      tExecutionRunID = [], tParentTaskID = null_text (tk_parent t), tParentTaskTitle = [],
      tBucketName = [], tSortOrder = tk_sort t, tCreatedAt = tk_created t, tUpdatedAt = tk_updated t\<rparr>"

definition lockedTaskForAgent :: "db \<Rightarrow> string \<Rightarrow> string \<Rightarrow> string \<Rightarrow> (store_error, Task) result" where
  "lockedTaskForAgent db userID agentID taskID =
     rbind (query_row ErrNotFound (\<lambda>t. tk_owner t = userID \<and> tk_id t = taskID
              \<and> (agentID \<noteq> [] \<longrightarrow> tk_assignee t = Some agentID)) (tasks db)) (\<lambda>t.
     Inr (task_of_row t))"

definition lockedTask :: "db \<Rightarrow> string \<Rightarrow> string \<Rightarrow> (store_error, Task) result" where
  "lockedTask db userID taskID = lockedTaskForAgent db userID [] taskID"

definition getTask :: "env \<Rightarrow> db \<Rightarrow> string \<Rightarrow> string \<Rightarrow> string \<Rightarrow> (store_error, Task) result" where
  "getTask e db userID agentID taskID =
     rbind (uuid_arg e taskID) (\<lambda>i.
     rbind (query_row ErrNotFound (\<lambda>t. tk_owner t = userID \<and> tk_id t = i
              \<and> (agentID \<noteq> [] \<longrightarrow> tk_assignee t = Some agentID)) (tasks db)) (\<lambda>t.
     Inr ((task_of_row t)\<lparr>tExecutionRunID := null_text (tk_run t)\<rparr>)))"

definition GetTask :: "env \<Rightarrow> db \<Rightarrow> string \<Rightarrow> string \<Rightarrow> (store_error, Task) result" where
  "GetTask e db userID taskID = getTask e db userID [] taskID"

definition GetTaskForAgent :: "env \<Rightarrow> db \<Rightarrow> string \<Rightarrow> string \<Rightarrow> string \<Rightarrow> (store_error, Task) result" where
  "GetTaskForAgent e db userID agentID taskID = getTask e db userID agentID taskID"

definition taskByID :: "db \<Rightarrow> string \<Rightarrow> (store_error, Task) result" where
  "taskByID db taskID =
     rbind (query_row ErrIdempotencyGone (\<lambda>t. tk_id t = taskID) (tasks db)) (\<lambda>t. Inr (task_of_row t))"

subsection \<open>Checks\<close>

definition validDate :: "string \<Rightarrow> (store_error, string) result" where
  "validDate v =
     (let d = clean v in
      if d = [] then Inr []
      else if date_only d = None then Inl (ErrInvalidData ''date must use YYYY-MM-DD'')
      else Inr d)"

text \<open>The cast of the checked text to \<open>date\<close>: the year 0 passes Go and not PostgreSQL.\<close>

definition pg_date :: "string \<Rightarrow> (store_error, string option) result" where
  "pg_date s =
     (if s = [] then Inr None
      else case date_only s of
        Some (y, _, _) \<Rightarrow> if y = 0 then Inl (ErrDB DateOutOfRange) else Inr (Some s)
      | None \<Rightarrow> Inl (ErrDB DateOutOfRange))"

definition applyTaskStatus :: "Task \<Rightarrow> string \<Rightarrow> bool \<Rightarrow> (store_error, Task) result" where
  "applyTaskStatus task status allowWorking =
     (let s = clean status in
      if \<not> validStatus s then Inl (ErrInvalidData ''invalid status'')
      else if s = StatusWorking \<and> \<not> allowWorking then Inl (ErrInvalidData ''working status requires claim'')
      else if tKind task \<noteq> KindAction then Inl (ErrInvalidData ''only actions have workflow status'')
      else Inr (task\<lparr>tStatus := s\<rparr>))"

definition checkTaskCapacity :: "db \<Rightarrow> Bucket \<Rightarrow> string \<Rightarrow> bool \<Rightarrow> (store_error, unit) result" where
  "checkTaskCapacity db bucket exceptTaskID overrideWorkingLimit = Inr ()"

definition activeAgentAssignment :: "env \<Rightarrow> db \<Rightarrow> string \<Rightarrow> string \<Rightarrow> (store_error, string) result" where
  "activeAgentAssignment e db userID agentID0 =
     (let agentID = clean agentID0 in
      if agentID = [] then Inr []
      else if \<not> validUUID agentID then Inl (ErrInvalidData ''agent assignee not found'')
      else rbind (uuid_arg e agentID) (\<lambda>i.
           rbind (query_row (ErrInvalidData ''agent assignee not found'')
                    (\<lambda>g. ag_owner g = userID \<and> ag_id g = i \<and> \<not> ag_archived g) (agent_rows db)) (\<lambda>g.
           Inr (ag_id g))))"

subsection \<open>Request fingerprints\<close>

definition parentAwareTaskCreateFingerprint ::
    "env \<Rightarrow> string \<Rightarrow> string \<Rightarrow> string \<Rightarrow> string \<Rightarrow> string \<Rightarrow> string \<Rightarrow> string \<Rightarrow> bool \<Rightarrow> string" where
  "parentAwareTaskCreateFingerprint e bucketID title description scheduledDate kind assigneeAgentID parentTaskID overrideLimit =
     sha_json e (JObj [(''bucketId'', JStr bucketID), (''title'', JStr title), (''description'', JStr description),
       (''scheduledDate'', JStr scheduledDate), (''kind'', JStr kind),
       (''assigneeAgentId'', JStr (TrimSpace assigneeAgentID)), (''parentTaskId'', JStr parentTaskID),
       (''overrideLimit'', JBool overrideLimit)])"

definition topLevelTaskCreateFingerprint ::
    "env \<Rightarrow> string \<Rightarrow> string \<Rightarrow> string \<Rightarrow> string \<Rightarrow> string \<Rightarrow> string \<Rightarrow> bool \<Rightarrow> string" where
  "topLevelTaskCreateFingerprint e bucketID title description scheduledDate kind assigneeAgentID overrideLimit =
     sha_json e (JObj [(''bucketId'', JStr bucketID), (''title'', JStr title), (''description'', JStr description),
       (''scheduledDate'', JStr scheduledDate), (''kind'', JStr kind),
       (''assigneeAgentId'', JStr (TrimSpace assigneeAgentID)), (''overrideLimit'', JBool overrideLimit)])"

definition taskCreateFingerprint ::
    "env \<Rightarrow> string \<Rightarrow> string \<Rightarrow> string \<Rightarrow> string \<Rightarrow> string \<Rightarrow> string \<Rightarrow> string \<Rightarrow> bool \<Rightarrow> string" where
  "taskCreateFingerprint e bucketID title description scheduledDate kind assigneeAgentID parentTaskID overrideLimit =
     (if parentTaskID = []
      then topLevelTaskCreateFingerprint e bucketID title description scheduledDate kind assigneeAgentID overrideLimit
      else parentAwareTaskCreateFingerprint e bucketID title description scheduledDate kind assigneeAgentID
             parentTaskID overrideLimit)"

definition taskCreateRequestData :: "string \<Rightarrow> string \<Rightarrow> string \<Rightarrow> string \<Rightarrow> string \<Rightarrow> string \<Rightarrow> json" where
  "taskCreateRequestData title description scheduledDate kind assigneeAgentID parentTaskID =
     JObj [(''title'', JStr title), (''description'', JStr description), (''scheduledDate'', JStr scheduledDate),
       (''kind'', JStr kind), (''assigneeAgentId'', JStr (TrimSpace assigneeAgentID)), (''parentTaskId'', JStr parentTaskID)]"

definition taskCreateRequestDataV2 ::
    "string \<Rightarrow> string \<Rightarrow> string \<Rightarrow> string \<Rightarrow> string \<Rightarrow> string \<Rightarrow> string \<Rightarrow> string \<Rightarrow> json" where
  "taskCreateRequestDataV2 title description scheduledDate kind status priority assigneeAgentID parentTaskID =
     JObj [(''title'', JStr title), (''description'', JStr description), (''scheduledDate'', JStr scheduledDate),
       (''kind'', JStr kind), (''status'', JStr status), (''priority'', JStr priority),
       (''assigneeAgentId'', JStr (TrimSpace assigneeAgentID)), (''parentTaskId'', JStr parentTaskID)]"

subsection \<open>Preparing a create request\<close>

record preparedTaskCreate =
  pc_title :: string
  pc_description :: string
  pc_scheduledDate :: string
  pc_kind :: string
  pc_status :: string
  pc_priority :: string
  pc_assigneeAgentID :: string
  pc_parentTaskID :: string
  pc_idempotencyKey :: string
  pc_fingerprint :: string
  pc_requestData :: json
  pc_legacyRequestData :: json
  pc_compatibleFingerprints :: "string list"
  pc_strictRequestData :: bool
  pc_overrideLimit :: bool

definition prepareTaskCreate :: "env \<Rightarrow> CreateTaskInput \<Rightarrow> string \<Rightarrow> (store_error, preparedTaskCreate) result" where
  "prepareTaskCreate e input fingerprintTarget =
     (let title = clean (ciTitle input);
          kind = (if clean (ciKind input) = [] then KindAction else clean (ciKind input));
          status = clean (ciStatus input);
          priority = clean (ciPriority input);
          parentTaskID = clean (ciParentTaskID input);
          idempotencyKey = TrimSpace (ciIdempotencyKey input);
          description = ciDescription input;
          assignee = ciAssigneeAgentID input in
      rbind (require (title \<noteq> []) (ErrInvalidData ''task title is required'')) (\<lambda>_.
      rbind (validDate (ciScheduledDate input)) (\<lambda>date.
      rbind (require (validKind kind) (ErrInvalidData ''invalid item kind'')) (\<lambda>_.
      rbind (require (\<not> (status \<noteq> [] \<and> \<not> validStatus status)) (ErrInvalidData ''invalid task status'')) (\<lambda>_.
      rbind (require (validPriority priority) (ErrInvalidData ''invalid priority'')) (\<lambda>_.
      rbind (require (\<not> (parentTaskID \<noteq> [] \<and> \<not> validUUID parentTaskID))
               (ErrInvalidData ''parentTaskId must be a valid ID'')) (\<lambda>_.
      rbind (require (length idempotencyKey \<le> TaskIdempotencyBytes)
               (ErrInvalidData ''idempotency key must be 200 UTF-8 bytes or fewer'')) (\<lambda>_.
      let prepared =
        \<lparr>pc_title = title, pc_description = description, pc_scheduledDate = date, pc_kind = kind,
         pc_status = status, pc_priority = priority, pc_assigneeAgentID = assignee,
         pc_parentTaskID = parentTaskID, pc_idempotencyKey = idempotencyKey, pc_fingerprint = [],
         pc_requestData = JStr [], pc_legacyRequestData = JStr [], pc_compatibleFingerprints = [],
         pc_strictRequestData = (status \<noteq> [] \<or> priority \<noteq> []), pc_overrideLimit = ciOverrideLimit input\<rparr> in
      if idempotencyKey = [] then Inr prepared
      else Inr (prepared\<lparr>
        pc_requestData := taskCreateRequestDataV2 title description date kind status priority assignee parentTaskID,
        pc_legacyRequestData := taskCreateRequestData title description date kind assignee parentTaskID,
        pc_fingerprint := taskCreateFingerprint e fingerprintTarget title description date kind assignee
          parentTaskID (ciOverrideLimit input),
        pc_compatibleFingerprints := (if parentTaskID = []
          then [parentAwareTaskCreateFingerprint e fingerprintTarget title description date kind assignee []
                  (ciOverrideLimit input)]
          else [])\<rparr>)))))))))"

subsection \<open>The create transaction\<close>

definition new_task ::
    "int \<Rightarrow> string \<Rightarrow> string \<Rightarrow> string \<Rightarrow> preparedTaskCreate \<Rightarrow> string option \<Rightarrow> string \<Rightarrow> string \<Rightarrow> string option \<Rightarrow> int \<Rightarrow> task_row" where
  "new_task now fresh bucketID owner input date status assignee parent position =
     \<lparr>tk_id = fresh, tk_bucket = bucketID, tk_owner = owner, tk_title = pc_title input,
      tk_description = pc_description input, tk_date = date, tk_kind = pc_kind input, tk_status = status,
      tk_priority = pc_priority input, tk_sort = position, tk_created = now, tk_updated = now,
      tk_assignee = nullif_empty assignee, tk_parent = parent, tk_run = None, tk_review = [],
      tk_completed = (if status = StatusDone then Some now else None)\<rparr>"

text \<open>
  \<open>insertTask\<close>, with the triggers that set the owner from the list and the completion time.
\<close>

definition insertTask ::
    "db \<Rightarrow> int \<Rightarrow> string \<Rightarrow> Bucket \<Rightarrow> preparedTaskCreate \<Rightarrow> string \<Rightarrow> string option \<Rightarrow> Task tx" where
  "insertTask db now fresh bucket input assignee parent =
     (let status0 = (if pc_status input = [] then StatusNew else pc_status input);
          status = (if assignee \<noteq> [] then StatusQueued else status0) in
      rbind (pg_date (pc_scheduledDate input)) (\<lambda>date.
      rbind (next_sort (map tk_sort (filter (\<lambda>t. tk_bucket t = bID bucket) (tasks db)))) (\<lambda>position.
      rbind (case list_owner db (bID bucket) of
               None \<Rightarrow> Inl (ErrDB ForeignKeyViolation) | Some owner \<Rightarrow> Inr owner) (\<lambda>owner.
      rbind (require (fresh \<notin> set (map tk_id (tasks db))) (ErrDB UniqueViolation)) (\<lambda>_.
      let row = new_task now fresh (bID bucket) owner input date status assignee parent position in
      Inr (db\<lparr>tasks := tasks db @ [row]\<rparr>, task_of_row row))))))"

text \<open>
  The lookup of an idempotency key: \<open>None\<close> when the key is new, otherwise the outcome of the
  replay. \<open>COALESCE(... = ..., false)\<close> makes a missing data hash match nothing.
\<close>

definition idempotent_replay :: "env \<Rightarrow> db \<Rightarrow> string \<Rightarrow> preparedTaskCreate \<Rightarrow> (store_error, Task) result option" where
  "idempotent_replay e db userID input =
     (case List.find (\<lambda>k. ik_user k = userID \<and> ik_key k = pc_idempotencyKey input) (idem_keys db) of
        None \<Rightarrow> None
      | Some k \<Rightarrow>
          let existingTaskID = null_text (ik_task k);
              existingParentTaskID = (case ik_task k of None \<Rightarrow> []
                | Some i \<Rightarrow> (case List.find (\<lambda>t. tk_id t = i) (tasks db) of
                     None \<Rightarrow> [] | Some t \<Rightarrow> null_text (tk_parent t)));
              legacyMatches = (ik_data_hash k = Some (sha_jsonb e (pc_legacyRequestData input)));
              dataMatches = (ik_data_hash k = Some (sha_jsonb e (pc_requestData input))
                \<or> \<not> pc_strictRequestData input \<and> legacyMatches);
              fingerprintMatches = ((ik_hash k = pc_fingerprint input
                  \<or> ik_hash k \<in> set (pc_compatibleFingerprints input))
                \<and> \<not> (pc_strictRequestData input \<and> \<not> dataMatches));
              requestDataFallback = (pc_parentTaskID input \<noteq> [] \<and> existingTaskID \<noteq> [] \<and> dataMatches);
              legacyParentFallback = (\<not> pc_strictRequestData input \<and> pc_parentTaskID input \<noteq> []
                \<and> existingTaskID \<noteq> [] \<and> ik_data_hash k = None \<and> existingParentTaskID = pc_parentTaskID input) in
          Some (if \<not> fingerprintMatches \<and> \<not> requestDataFallback \<and> \<not> legacyParentFallback
                then Inl ErrIdempotencyKey
                else if existingTaskID = [] then Inl ErrIdempotencyGone
                else taskByID db existingTaskID))"

text \<open>
  The list a create names is a text from the client (\<open>uuid_arg\<close>) or an identifier from the
  database (\<open>Inr\<close>); a parent's list replaces it.
\<close>

definition create_target ::
    "env \<Rightarrow> db \<Rightarrow> string \<Rightarrow> (store_error, string) result \<Rightarrow> preparedTaskCreate \<Rightarrow> (store_error, string \<times> string option) result" where
  "create_target e db userID bucketRef input =
     (if pc_parentTaskID input \<noteq> [] then
        rbind (uuid_arg e (pc_parentTaskID input)) (\<lambda>p.
        rbind (lockedTask db userID p) (\<lambda>parent.
        rbind (require (tParentTaskID parent = []) (ErrInvalidData ''subtasks cannot contain subtasks'')) (\<lambda>_.
        Inr (tBucketID parent, Some p))))
      else rbind bucketRef (\<lambda>b. Inr (b, None)))"

definition new_key :: "env \<Rightarrow> int \<Rightarrow> string \<Rightarrow> preparedTaskCreate \<Rightarrow> Task \<Rightarrow> idem_row" where
  "new_key e now userID input task =
     \<lparr>ik_user = userID, ik_key = pc_idempotencyKey input, ik_hash = pc_fingerprint input,
      ik_task = Some (tID task), ik_data_hash = Some (sha_jsonb e (pc_requestData input)), ik_created = now\<rparr>"

definition insert_key :: "env \<Rightarrow> db \<Rightarrow> int \<Rightarrow> string \<Rightarrow> preparedTaskCreate \<Rightarrow> Task \<Rightarrow> (store_error, db) result" where
  "insert_key e db now userID input task =
     rbind (require (\<not> list_ex (\<lambda>k. ik_user k = userID \<and> ik_key k = pc_idempotencyKey input) (idem_keys db))
              (ErrDB UniqueViolation)) (\<lambda>_.
     Inr (db\<lparr>idem_keys := idem_keys db @ [new_key e now userID input task]\<rparr>))"

definition create_new_task ::
    "env \<Rightarrow> db \<Rightarrow> int \<Rightarrow> string \<Rightarrow> string \<Rightarrow> (store_error, string) result \<Rightarrow> preparedTaskCreate \<Rightarrow> Task tx" where
  "create_new_task e db now fresh userID bucketRef input =
     rbind (lockStorageQuota db userID) (\<lambda>(db1, q).
     rbind (create_target e db1 userID bucketRef input) (\<lambda>(bucketID, parent).
     rbind (lockedBucket db1 userID bucketID) (\<lambda>bucket.
     rbind (checkTaskCapacity db1 bucket [] (pc_overrideLimit input)) (\<lambda>_.
     rbind (quota_apply db1 q 1 (inputContentBytes (pc_title input) (pc_description input))) (\<lambda>(db2, q').
     rbind (activeAgentAssignment e db2 userID (pc_assigneeAgentID input)) (\<lambda>assignee.
     rbind (insertTask db2 now fresh bucket input assignee parent) (\<lambda>(db3, task).
     if pc_idempotencyKey input \<noteq> []
     then rbind (insert_key e db3 now userID input task) (\<lambda>db4. Inr (db4, task))
     else Inr (db3, task))))))))"

definition createTask ::
    "env \<Rightarrow> db \<Rightarrow> int \<Rightarrow> string \<Rightarrow> string \<Rightarrow> (store_error, string) result \<Rightarrow> preparedTaskCreate \<Rightarrow> Task tx" where
  "createTask e db now fresh userID bucketRef input =
     (if pc_idempotencyKey input \<noteq> [] then
        (case idempotent_replay e db userID input of
           Some outcome \<Rightarrow> rbind outcome (\<lambda>task. Inr (db, task))
         | None \<Rightarrow> create_new_task e db now fresh userID bucketRef input)
      else create_new_task e db now fresh userID bucketRef input)"

definition createPreparedTask ::
    "env \<Rightarrow> db \<Rightarrow> int \<Rightarrow> string \<Rightarrow> string \<Rightarrow> (store_error, string) result \<Rightarrow> preparedTaskCreate \<Rightarrow> Task tx" where
  "createPreparedTask e db now fresh userID bucketRef prepared =
     createTask e db now fresh userID bucketRef prepared"

definition createTaskForTarget ::
    "env \<Rightarrow> db \<Rightarrow> int \<Rightarrow> string \<Rightarrow> string \<Rightarrow> string \<Rightarrow> string \<Rightarrow> CreateTaskInput \<Rightarrow> Task tx" where
  "createTaskForTarget e db now fresh userID bucketID fingerprintTarget input =
     rbind (prepareTaskCreate e input fingerprintTarget) (\<lambda>prepared.
     createPreparedTask e db now fresh userID (uuid_arg e bucketID) prepared)"

definition CreateTask :: "env \<Rightarrow> db \<Rightarrow> int \<Rightarrow> string \<Rightarrow> string \<Rightarrow> string \<Rightarrow> CreateTaskInput \<Rightarrow> Task tx" where
  "CreateTask e db now fresh userID bucketID input =
     createTaskForTarget e db now fresh userID bucketID bucketID input"

definition inboxCaptureFingerprintTarget :: string where
  "inboxCaptureFingerprintTarget = ''account-inbox''"

definition CreateInboxTask :: "env \<Rightarrow> db \<Rightarrow> int \<Rightarrow> string \<Rightarrow> string \<Rightarrow> string \<Rightarrow> CreateTaskInput \<Rightarrow> Task tx" where
  "CreateInboxTask e db now freshList fresh userID input =
     rbind (prepareTaskCreate e input inboxCaptureFingerprintTarget) (\<lambda>prepared.
     rbind (ensureInboxBucketID db now freshList userID) (\<lambda>(db1, bucketID).
     createTask e db1 now fresh userID (Inr bucketID) prepared))"

definition CreateSubtask :: "env \<Rightarrow> db \<Rightarrow> int \<Rightarrow> string \<Rightarrow> string \<Rightarrow> string \<Rightarrow> CreateTaskInput \<Rightarrow> Task tx" where
  "CreateSubtask e db now fresh userID parentTaskID input =
     rbind (require (validUUID parentTaskID) (ErrInvalidData ''parent task ID must be a valid ID'')) (\<lambda>_.
     rbind (GetTask e db userID parentTaskID) (\<lambda>parent.
     rbind (require (tParentTaskID parent = []) (ErrInvalidData ''subtasks cannot contain subtasks'')) (\<lambda>_.
     rbind (prepareTaskCreate e (input\<lparr>ciParentTaskID := tID parent\<rparr>) (''parent:'' @ tID parent)) (\<lambda>prepared.
     let compat = (if pc_idempotencyKey prepared = [] then []
           else map (\<lambda>b. parentAwareTaskCreateFingerprint e (bk_id b) (pc_title prepared)
                  (pc_description prepared) (pc_scheduledDate prepared) (pc_kind prepared)
                  (pc_assigneeAgentID prepared) (pc_parentTaskID prepared) (pc_overrideLimit prepared))
                (filter (\<lambda>b. bk_user b = userID) (buckets db))) in
     createPreparedTask e db now fresh userID (Inr (tBucketID parent))
       (prepared\<lparr>pc_compatibleFingerprints := pc_compatibleFingerprints prepared @ compat\<rparr>)))))"

subsection \<open>Adding a task row\<close>

lemma task_of_row_simps [simp]:
  "tID (task_of_row t) = tk_id t" "tBucketID (task_of_row t) = tk_bucket t" "tTitle (task_of_row t) = tk_title t"
  "tDescription (task_of_row t) = tk_description t" "tStatus (task_of_row t) = tk_status t"
  "tKind (task_of_row t) = tk_kind t" "tPriority (task_of_row t) = tk_priority t"
  "tAssigneeAgentID (task_of_row t) = null_text (tk_assignee t)" "tSortOrder (task_of_row t) = tk_sort t"
  "tParentTaskID (task_of_row t) = null_text (tk_parent t)" "tScheduledDate (task_of_row t) = null_text (tk_date t)"
  by (simp_all add: task_of_row_def)

lemma lockedTaskForAgent_InrD:
  "lockedTaskForAgent db u a i = Inr task \<Longrightarrow> \<exists>t \<in> set (tasks db). tk_owner t = u \<and> tk_id t = i
     \<and> (a \<noteq> [] \<longrightarrow> tk_assignee t = Some a) \<and> task = task_of_row t"
  by (auto simp: lockedTaskForAgent_def rbind_eq_Inr dest!: query_row_InrD)

lemma lockedTask_InrD:
  "lockedTask db u i = Inr task \<Longrightarrow> \<exists>t \<in> set (tasks db). tk_owner t = u \<and> tk_id t = i \<and> task = task_of_row t"
  by (auto simp: lockedTask_def dest!: lockedTaskForAgent_InrD)

lemma structure_task_added:
  assumes db: "structure_ok db" and row: "task_row_ok row" "tk_id row \<noteq> []" "tk_id row \<notin> tk_id ` set (tasks db)"
    "list_owner db (tk_bucket row) = Some (tk_owner row)" "assigned_ok db row" "parent_ok (tasks db) row"
  shows "structure_ok (db\<lparr>tasks := tasks db @ [row]\<rparr>)" (is "structure_ok ?db'")
proof -
  have lo: "list_owner ?db' i = list_owner db i" for i by (simp add: list_owner_def)
  have as: "assigned_ok ?db' t = assigned_ok db t" for t by (simp add: assigned_ok_def)
  have mono: "parent_ok (tasks db @ [row]) t" if "parent_ok (tasks db) t" for t
    using that by (cases "tk_parent t") (auto simp: parent_ok_def)
  have opt: "opt_all (\<lambda>i. i = x \<or> P i) v" if "opt_all P v" for P v and x :: string
    using that by (cases v) auto
  have "keys_ok ?db'" using db row by (auto simp: structure_ok_def keys_ok_def)
  moreover have "refs_ok ?db'"
    using db row by (simp add: structure_ok_def refs_ok_def lo as list_all_iff opt)
  moreover have "rows_ok ?db'"
    using db row mono by (simp add: structure_ok_def rows_ok_def list_all_iff)
  moreover have "inbox_ok ?db'" using db by (simp add: structure_ok_def inbox_ok_def)
  ultimately show ?thesis by (simp add: structure_ok_def)
qed

lemma entry_bytes_none:
  assumes "structure_ok db" "i \<notin> tk_id ` set (tasks db)"
  shows "entry_bytes (entries db) i = 0"
proof -
  have "\<forall>e \<in> set (entries db). er_task e \<noteq> i" using assms by (auto simp: structure_defs)
  then have "entry_bytes (entries db) i = sum_where (\<lambda>_. False) (\<lambda>_. 0) (entries db)"
    unfolding entry_bytes_def by (intro sum_where_cong) auto
  then show ?thesis by (simp add: sum_where_def)
qed

lemma stored_task_added:
  assumes "structure_ok db" "tk_id row \<notin> tk_id ` set (tasks db)"
  shows "stored_tasks_of (db\<lparr>tasks := tasks db @ [row]\<rparr>) v = stored_tasks_of db v + (if v = tk_owner row then 1 else 0)"
    and "stored_bytes_of (db\<lparr>tasks := tasks db @ [row]\<rparr>) v = stored_bytes_of db v + (if v = tk_owner row then storage_bytes row else 0)"
  using entry_bytes_none [OF assms] by (auto simp: stored_tasks_of_def stored_bytes_of_def content_bytes_def)

definition prepared_ok :: "preparedTaskCreate \<Rightarrow> bool" where
  "prepared_ok p \<longleftrightarrow> pc_title p \<noteq> [] \<and> clean (pc_title p) = pc_title p \<and> validKind (pc_kind p)
     \<and> (pc_status p = [] \<or> validStatus (pc_status p)) \<and> validPriority (pc_priority p)"

lemma prepareTaskCreate_ok: "prepareTaskCreate e input target = Inr p \<Longrightarrow> prepared_ok p"
  unfolding prepareTaskCreate_def Let_def
  by (elim rbind_elims) (auto simp: prepared_ok_def split: if_splits)

lemma activeAgentAssignment_InrD:
  assumes "activeAgentAssignment e db u a = Inr i"
  shows "i = [] \<or> (\<exists>g \<in> set (agent_rows db). ag_id g = i \<and> ag_owner g = u \<and> \<not> ag_archived g)"
  using assms unfolding activeAgentAssignment_def Let_def
  by (auto simp: rbind_eq_Inr split: if_splits dest!: query_row_InrD)

lemma insertTask_InrE:
  assumes "insertTask db now fresh bucket input assignee parent = Inr (db', task)"
  obtains date position owner row where "pg_date (pc_scheduledDate input) = Inr date"
    "next_sort (map tk_sort (filter (\<lambda>t. tk_bucket t = bID bucket) (tasks db))) = Inr position"
    "list_owner db (bID bucket) = Some owner" "fresh \<notin> tk_id ` set (tasks db)"
    "row = new_task now fresh (bID bucket) owner input date
       (if assignee \<noteq> [] then StatusQueued else if pc_status input = [] then StatusNew else pc_status input)
       assignee parent position"
    "db' = db\<lparr>tasks := tasks db @ [row]\<rparr>" "task = task_of_row row"
    "tk_id row = fresh" "tasks db' = tasks db @ [row]"
  using assms unfolding insertTask_def Let_def
  by (elim rbind_elims) (rule that [OF _ _ _ _ refl], auto simp: new_task_def split: option.splits)

lemma create_new_task_InrE:
  assumes "create_new_task e db now fresh u ref input = Inr (db', task)"
  obtains limits db1 q db2 q' bid parent bucket assignee db3 where
    "accountLimitsForUpdate db u = Inr limits" "db1 = ensure_usage_row db u"
    "q = \<lparr>q_userID = u, q_limits = limits, q_usage = usage_of db u\<rparr>"
    "create_target e db1 u ref input = Inr (bid, parent)" "lockedBucket db1 u bid = Inr bucket"
    "quota_apply db1 q 1 (inputContentBytes (pc_title input) (pc_description input)) = Inr (db2, q')"
    "activeAgentAssignment e db2 u (pc_assigneeAgentID input) = Inr assignee"
    "insertTask db2 now fresh bucket input assignee parent = Inr (db3, task)"
    "pc_idempotencyKey input = [] \<longrightarrow> db' = db3"
    "pc_idempotencyKey input \<noteq> [] \<longrightarrow> insert_key e db3 now u input task = Inr db'"
  using assms unfolding create_new_task_def
  by (elim rbind_elims) (simp only: lockStorageQuota_eq_Inr, elim exE conjE, hypsubst,
      rule that [OF _ refl refl], assumption+, auto simp: rbind_eq_Inr split: if_splits)

subsection \<open>Creating a task keeps the invariant\<close>

lemma task_id_nonempty: "structure_ok db \<Longrightarrow> t \<in> set (tasks db) \<Longrightarrow> tk_id t \<noteq> []"
  unfolding structure_ok_def keys_ok_def by (metis image_eqI list.set_map)

lemma parent_text_empty:
  assumes "structure_ok db" "t \<in> set (tasks db)"
  shows "null_text (tk_parent t) = [] \<longleftrightarrow> tk_parent t = None"
proof (cases "tk_parent t")
  case (Some p)
  with assms obtain q where "q \<in> set (tasks db)" "tk_id q = p" by (elim task_parentD)
  then show ?thesis using Some task_id_nonempty [OF assms(1)] by auto
qed simp

lemma create_target_InrD:
  assumes "structure_ok db" "create_target e db u ref input = Inr (bid, parent)"
  shows "parent = None \<and> ref = Inr bid \<or>
    (\<exists>q \<in> set (tasks db). parent = Some (tk_id q) \<and> tk_parent q = None \<and> tk_bucket q = bid \<and> tk_owner q = u)"
proof (cases "pc_parentTaskID input = []")
  case True
  then show ?thesis using assms by (simp add: create_target_def rbind_eq_Inr)
next
  case False
  from assms(2) False obtain p t where "lockedTask db u p = Inr t" "tParentTaskID t = []"
    "bid = tBucketID t" "parent = Some p"
    unfolding create_target_def by (auto elim!: rbind_elims)
  moreover from this obtain q where "q \<in> set (tasks db)" "tk_owner q = u" "tk_id q = p" "t = task_of_row q"
    using lockedTask_InrD by blast
  ultimately show ?thesis using parent_text_empty [OF assms(1), of q] by auto
qed

lemma new_task_simps [simp]:
  "tk_id (new_task now f b ow i d st a p n) = f" "tk_bucket (new_task now f b ow i d st a p n) = b"
  "tk_owner (new_task now f b ow i d st a p n) = ow" "tk_parent (new_task now f b ow i d st a p n) = p"
  "tk_assignee (new_task now f b ow i d st a p n) = nullif_empty a"
  "storage_bytes (new_task now f b ow i d st a p n) = inputContentBytes (pc_title i) (pc_description i)"
  by (simp_all add: new_task_def storage_bytes_def inputContentBytes_def)

lemma new_task_row_ok:
  assumes "prepared_ok i" "fits_int4 n"
  shows "task_row_ok (new_task now f b ow i d (if a \<noteq> [] then StatusQueued else if pc_status i = [] then StatusNew
    else pc_status i) a p n)"
  using assms by (auto simp: task_row_ok_def new_task_def prepared_ok_def validStatus_def)

lemma insert_key_eq_Inr:
  "insert_key e db now u input task = Inr db' \<longleftrightarrow>
     (\<forall>k \<in> set (idem_keys db). \<not> (ik_user k = u \<and> ik_key k = pc_idempotencyKey input))
     \<and> db' = db\<lparr>idem_keys := idem_keys db @ [new_key e now u input task]\<rparr>"
  by (auto simp: insert_key_def rbind_eq_Inr list_ex_iff)

lemma structure_key_added:
  assumes "structure_ok db" "insert_key e db now u input task = Inr db'" "tID task \<in> tk_id ` set (tasks db)"
  shows "structure_ok db'"
proof -
  have db': "db' = db\<lparr>idem_keys := idem_keys db @ [new_key e now u input task]\<rparr>"
    and new: "(u, pc_idempotencyKey input) \<notin> (\<lambda>k. (ik_user k, ik_key k)) ` set (idem_keys db)"
    using assms(2) by (auto simp: insert_key_eq_Inr)
  show ?thesis
    using assms(1,3) new
    by (simp add: structure_ok_def keys_ok_def refs_ok_def rows_ok_def inbox_ok_def db' new_key_def)
qed

lemma insert_key_frame:
  "insert_key e db now u input task = Inr db' \<Longrightarrow> accounting_ok db' = accounting_ok db \<and> tasks db' = tasks db
     \<and> buckets db' = buckets db \<and> usages db' = usages db \<and> entries db' = entries db"
  by (auto simp: insert_key_eq_Inr accounting_ok_def stored_tasks_of_def stored_bytes_of_def usage_of_def)

lemma create_new_task_inv:
  assumes inv: "store_inv db" and fresh: "fresh \<noteq> []" and input: "prepared_ok input"
    and run: "create_new_task e db now fresh u ref input = Inr (db', task)"
  shows "store_inv db'"
  using run
proof (rule create_new_task_InrE)
  fix limits db1 q db2 q' bid parent bucket assignee db3
  assume db1: "db1 = ensure_usage_row db u" and q: "q = \<lparr>q_userID = u, q_limits = limits, q_usage = usage_of db u\<rparr>"
    and target: "create_target e db1 u ref input = Inr (bid, parent)" and bucket: "lockedBucket db1 u bid = Inr bucket"
    and ap: "quota_apply db1 q 1 (inputContentBytes (pc_title input) (pc_description input)) = Inr (db2, q')"
    and agent: "activeAgentAssignment e db2 u (pc_assigneeAgentID input) = Inr assignee"
    and ins: "insertTask db2 now fresh bucket input assignee parent = Inr (db3, task)"
    and nokey: "pc_idempotencyKey input = [] \<longrightarrow> db' = db3"
    and key: "pc_idempotencyKey input \<noteq> [] \<longrightarrow> insert_key e db3 now u input task = Inr db'"
  note frame = quota_apply_frame [OF ap]
  have s1: "structure_ok db1" and a1: "accounting_ok db1" using inv by (simp_all add: db1 store_inv_def)
  have s2: "structure_ok db2" using s1 by (rule structure_cong) (simp_all add: frame)
  from ins obtain date position owner row where pos: "next_sort (map tk_sort (filter (\<lambda>t. tk_bucket t = bID bucket) (tasks db2))) = Inr position"
    and owner: "list_owner db2 (bID bucket) = Some owner" and new: "fresh \<notin> tk_id ` set (tasks db2)"
    and row: "row = new_task now fresh (bID bucket) owner input date
       (if assignee \<noteq> [] then StatusQueued else if pc_status input = [] then StatusNew else pc_status input)
       assignee parent position"
    and db3: "db3 = db2\<lparr>tasks := tasks db2 @ [row]\<rparr>" and task: "task = task_of_row row"
    by (rule insertTask_InrE)
  obtain r where r: "r \<in> set (buckets db2)" "bk_id r = bid" "bk_user r = u" "bucket = bucket_of_row 0 r"
    using lockedBucket_InrD [OF bucket] frame(4) by auto
  then have own: "owner = u" using list_owner_iff [OF s2 r(1)] owner by simp
  have "structure_ok db3"
    unfolding db3
  proof (rule structure_task_added [OF s2])
    show "task_row_ok row" unfolding row using input pos by (intro new_task_row_ok) auto
    show "list_owner db2 (tk_bucket row) = Some (tk_owner row)" using owner by (simp add: row)
    show "assigned_ok db2 row"
      using activeAgentAssignment_InrD [OF agent] own
      by (cases assignee) (auto simp: assigned_ok_def row list_ex_iff)
    show "parent_ok (tasks db2) row"
      using create_target_InrD [OF s1 target] r frame by (auto simp: parent_ok_def row list_ex_iff)
  qed (use fresh new in \<open>simp_all add: row\<close>)
  moreover have "accounting_ok db3"
  proof (rule accounting_moved [OF a1, where u = u])
    show "stored_tasks_of db3 v = stored_tasks_of db1 v + (if v = u then 1 else 0)" for v
      using stored_task_added(1) [OF s2, of row v] new own stored_of_cong [OF frame(5,6), of v]
      by (simp add: db3 row)
    show "stored_bytes_of db3 v = stored_bytes_of db1 v
        + (if v = u then inputContentBytes (pc_title input) (pc_description input) else 0)" for v
      using stored_task_added(2) [OF s2, of row v] new own stored_of_cong [OF frame(5,6), of v]
      by (simp add: db3 row)
    show "usage_of db3 v = (if v = u then moved_usage (usage_of db1 v) 1
        (inputContentBytes (pc_title input) (pc_description input)) else usage_of db1 v)" for v
      using quota_apply_moves [OF ap, of v] usage_of_cong [of db3 db2 v] by (simp add: q db1 db3)
  qed
  ultimately show "store_inv db'"
    using key nokey insert_key_frame [of e db3 now u input task db'] structure_key_added [of db3 e now u input task db']
    by (cases "pc_idempotencyKey input = []") (auto simp: store_inv_def db3 task)
qed

lemma createTask_inv:
  assumes "store_inv db" "fresh \<noteq> []" "prepared_ok input" "createTask e db now fresh u ref input = Inr (db', task)"
  shows "store_inv db'"
  using assms create_new_task_inv [OF assms(1-3)]
  by (auto simp: createTask_def rbind_eq_Inr split: if_splits option.splits)

lemma CreateTask_inv:
  assumes "store_inv db" "fresh \<noteq> []" "CreateTask e db now fresh u b input = Inr (db', task)"
  shows "store_inv db'"
  using assms createTask_inv [OF assms(1,2)] prepareTaskCreate_ok
  unfolding CreateTask_def createTaskForTarget_def createPreparedTask_def by (blast elim: rbind_elims)

lemma CreateInboxTask_inv:
  assumes "store_inv db" "fresh \<noteq> []" "freshList \<noteq> []" "CreateInboxTask e db now freshList fresh u input = Inr (db', task)"
  shows "store_inv db'"
  using assms(4) unfolding CreateInboxTask_def
  by (elim rbind_elims) (metis assms(1-3) createTask_inv ensureInboxBucketID_inv prepareTaskCreate_ok)

lemma prepared_ok_compat [simp]: "prepared_ok (p\<lparr>pc_compatibleFingerprints := c\<rparr>) = prepared_ok p"
  by (simp add: prepared_ok_def)

lemma CreateSubtask_inv:
  assumes "store_inv db" "fresh \<noteq> []" "CreateSubtask e db now fresh u p input = Inr (db', task)"
  shows "store_inv db'"
  using assms(3) unfolding CreateSubtask_def createPreparedTask_def Let_def
  by (elim rbind_elims) (metis assms(1,2) createTask_inv prepareTaskCreate_ok prepared_ok_compat)

subsection \<open>Idempotent creation\<close>

lemma replay_of_new_key:
  assumes "List.find (\<lambda>k. ik_user k = u \<and> ik_key k = pc_idempotencyKey input) (idem_keys db) = Some (new_key e now u input task)"
    and "tID task \<noteq> []"
  shows "idempotent_replay e db u input = Some (taskByID db (tID task))"
  using assms by (simp add: idempotent_replay_def new_key_def Let_def)

lemma replay_None_iff:
  "idempotent_replay e db u input = None \<longleftrightarrow>
     List.find (\<lambda>k. ik_user k = u \<and> ik_key k = pc_idempotencyKey input) (idem_keys db) = None"
  by (auto simp: idempotent_replay_def Let_def split: option.splits)

lemma createTask_after_create:
  assumes "store_inv db" "fresh \<noteq> []" "pc_idempotencyKey input \<noteq> []"
    and "createTask e db now fresh u ref input = Inr (db', task)"
  shows "createTask e db' now' fresh' u ref' input = Inr (db', task)"
proof (cases "idempotent_replay e db u input")
  case (Some outcome)
  then show ?thesis using assms by (auto simp: createTask_def rbind_eq_Inr)
next
  case None
  then have "create_new_task e db now fresh u ref input = Inr (db', task)"
    using assms by (simp add: createTask_def)
  then show ?thesis
  proof (rule create_new_task_InrE)
    fix db1 db2 db3 q q' bucket assignee parent
    assume db1: "db1 = ensure_usage_row db u"
      and ap: "quota_apply db1 q 1 (inputContentBytes (pc_title input) (pc_description input)) = Inr (db2, q')"
      and ins: "insertTask db2 now fresh bucket input assignee parent = Inr (db3, task)"
      and key: "pc_idempotencyKey input \<noteq> [] \<longrightarrow> insert_key e db3 now u input task = Inr db'"
    have keys: "idem_keys db3 = idem_keys db"
      using ins quota_apply_frame(7) [OF ap] by (elim insertTask_InrE) (simp add: db1)
    have db': "db' = db3\<lparr>idem_keys := idem_keys db @ [new_key e now u input task]\<rparr>"
      using key assms(3) keys by (simp add: insert_key_eq_Inr)
    from ins obtain row where row: "tk_id row = fresh" "fresh \<notin> tk_id ` set (tasks db2)"
      "tasks db3 = tasks db2 @ [row]" "task = task_of_row row"
      by (elim insertTask_InrE) (rule that, assumption+)
    have none: "List.find (\<lambda>k. ik_user k = u \<and> ik_key k = pc_idempotencyKey input) (idem_keys db) = None"
      using None by (simp add: replay_None_iff)
    have "idempotent_replay e db' u input = Some (taskByID db' (tID task))"
      using none row assms(2) by (intro replay_of_new_key) (simp_all add: db' find_append new_key_def)
    moreover have "List.find (\<lambda>t. tk_id t = fresh) (tasks db2) = None"
      using row(2) by (auto simp: find_None_iff)
    then have "taskByID db' (tID task) = Inr task"
      using row by (simp add: taskByID_def query_row_def db' find_append)
    ultimately show ?thesis using assms(3) by (simp add: createTask_def)
  qed
qed

text \<open>
  C34: Retrying a create that succeeded under an idempotency key returns the same task and
  stores nothing a second time, whatever list the retry's transaction would have used.
\<close>

theorem CreateTask_retry:
  assumes "store_inv db" and "fresh \<noteq> []" and "TrimSpace (ciIdempotencyKey input) \<noteq> []"
    and "CreateTask e db now fresh u b input = Inr (db', task)"
  shows "CreateTask e db' now' fresh' u b input = Inr (db', task)"
proof -
  from assms(4) obtain p where p: "prepareTaskCreate e input b = Inr p"
    and run: "createTask e db now fresh u (uuid_arg e b) p = Inr (db', task)"
    unfolding CreateTask_def createTaskForTarget_def createPreparedTask_def by (elim rbind_elims)
  have "pc_idempotencyKey p = TrimSpace (ciIdempotencyKey input)"
    using p unfolding prepareTaskCreate_def Let_def by (elim rbind_elims) (auto split: if_splits)
  then show ?thesis
    using createTask_after_create [OF assms(1,2) _ run] p assms(3)
    by (simp add: CreateTask_def createTaskForTarget_def createPreparedTask_def)
qed

definition ex_create :: "string \<Rightarrow> CreateTaskInput" where
  "ex_create title = \<lparr>ciTitle = title, ciDescription = ''body'', ciScheduledDate = [], ciKind = [], ciStatus = [],
     ciPriority = ''p1'', ciOverrideLimit = False, ciAssigneeAgentID = [], ciParentTaskID = [],
     ciIdempotencyKey = ''key-1''\<rparr>"

theorem CreateTask_retry_witness:
  "\<exists>db' task. CreateTask ex_env ex_db 9 ''t9'' ''u1'' ''b1'' (ex_create ''Write'') = Inr (db', task) \<and>
     CreateTask ex_env db' 10 ''t10'' ''u1'' ''b1'' (ex_create ''Write'') = Inr (db', task)"
proof -
  have "case CreateTask ex_env ex_db 9 ''t9'' ''u1'' ''b1'' (ex_create ''Write'') of Inr _ \<Rightarrow> True | Inl _ \<Rightarrow> False"
    by code_simp
  then obtain db' task where run: "CreateTask ex_env ex_db 9 ''t9'' ''u1'' ''b1'' (ex_create ''Write'') = Inr (db', task)"
    by (auto split: sum.splits)
  moreover have "TrimSpace (ciIdempotencyKey (ex_create ''Write'')) \<noteq> []" by code_simp
  ultimately show ?thesis using CreateTask_retry [OF ex_store_inv _ _ run] by blast
qed

subsection \<open>Creation respects the quota\<close>

lemma inputContentBytes_pos: "title \<noteq> [] \<Longrightarrow> 0 < inputContentBytes title d"
  by (cases title) (simp_all add: inputContentBytes_def)

lemma accounting_usage:
  "accounting_ok db \<Longrightarrow> stored_tasks_of db u = u_Tasks (usage_of db u) \<and> stored_bytes_of db u = u_ContentBytes (usage_of db u)"
  by (simp add: accounting_ok_def)

lemma create_new_task_quota:
  assumes inv: "store_inv db" "fresh \<noteq> []" "prepared_ok input"
    and run: "create_new_task e db now fresh u ref input = Inr (db', task)"
    and lim: "accountLimitsForUpdate db u = Inr limits"
  shows "stored_tasks_of db' u \<le> lim_StoredTasks limits \<and> stored_bytes_of db' u \<le> lim_StoredContentBytes limits"
  using run
proof (rule create_new_task_InrE)
  fix limits' db1 q db2 q' bid parent bucket assignee db3
  let ?n = "inputContentBytes (pc_title input) (pc_description input)"
  assume "accountLimitsForUpdate db u = Inr limits'" and db1: "db1 = ensure_usage_row db u"
    and q: "q = \<lparr>q_userID = u, q_limits = limits', q_usage = usage_of db u\<rparr>"
    and ap: "quota_apply db1 q 1 ?n = Inr (db2, q')"
    and ins: "insertTask db2 now fresh bucket input assignee parent = Inr (db3, task)"
    and keys: "pc_idempotencyKey input = [] \<longrightarrow> db' = db3"
      "pc_idempotencyKey input \<noteq> [] \<longrightarrow> insert_key e db3 now u input task = Inr db'"
  then have l: "limits' = limits" using lim by simp
  have "usage_of db' u = usage_of db2 u"
    using keys insert_key_frame [of e db3 now u input task db'] ins
    by (elim insertTask_InrE, cases "pc_idempotencyKey input = []") (auto simp: usage_of_def)
  also have "\<dots> = moved_usage (usage_of db u) 1 ?n"
    using quota_apply_moves [OF ap, of u] by (simp add: q db1)
  finally have "stored_tasks_of db' u = u_Tasks (usage_of db u) + 1"
    "stored_bytes_of db' u = u_ContentBytes (usage_of db u) + ?n"
    using create_new_task_inv [OF inv run] accounting_usage [of db' u]
    by (simp_all add: store_inv_def moved_usage_def)
  then show ?thesis
    using quota_apply_within_limits [OF ap] inputContentBytes_pos [of "pc_title input"] inv(3) l
    by (auto simp: q prepared_ok_def)
qed

text \<open>
  C35: A create that stores a task leaves the account within the limits of its plan, both in
  the number of stored tasks and in stored bytes, counted over the tables themselves.
\<close>

theorem CreateTask_within_quota:
  assumes "store_inv db" and "fresh \<noteq> []" and "accountLimitsForUpdate db u = Inr limits"
    and "CreateTask e db now fresh u b input = Inr (db', task)" and "tasks db' \<noteq> tasks db"
  shows "stored_tasks_of db' u \<le> lim_StoredTasks limits \<and> stored_bytes_of db' u \<le> lim_StoredContentBytes limits"
proof -
  from assms(4) obtain p where p: "prepareTaskCreate e input b = Inr p"
    and run: "createTask e db now fresh u (uuid_arg e b) p = Inr (db', task)"
    unfolding CreateTask_def createTaskForTarget_def createPreparedTask_def by (elim rbind_elims)
  then have "create_new_task e db now fresh u (uuid_arg e b) p = Inr (db', task)"
    using assms(5) by (auto simp: createTask_def rbind_eq_Inr split: if_splits option.splits)
  then show ?thesis
    using create_new_task_quota [OF assms(1,2) prepareTaskCreate_ok [OF p] _ assms(3)] by blast
qed

theorem CreateTask_within_quota_witness:
  "\<exists>db' task. CreateTask ex_env ex_db 9 ''t9'' ''u1'' ''b1'' (ex_create ''Write'') = Inr (db', task) \<and>
     stored_tasks_of db' ''u1'' \<le> 10000"
proof -
  have "case CreateTask ex_env ex_db 9 ''t9'' ''u1'' ''b1'' (ex_create ''Write'') of
      Inr (db', task) \<Rightarrow> length (tasks db') = 5 | Inl _ \<Rightarrow> False"
    by code_simp
  then obtain db' task where run: "CreateTask ex_env ex_db 9 ''t9'' ''u1'' ''b1'' (ex_create ''Write'') = Inr (db', task)"
    and "length (tasks db') = 5"
    by (auto split: sum.splits)
  then have "tasks db' \<noteq> tasks ex_db" by (auto simp: ex_db_def)
  moreover have "accountLimitsForUpdate ex_db ''u1'' = Inr ProLimits" by code_simp
  ultimately show ?thesis
    using CreateTask_within_quota [OF ex_store_inv _ _ run] run by fastforce
qed

end
