(* ===== verification/TaskOrder.thy ===== *)
theory TaskOrder
  imports Tasks
begin

section \<open>Ordering and moving tasks (boards/store.go)\<close>

text \<open>
  The helpers that read and rewrite the manual order of a list, and the move, reorder,
  claim and delete transactions. The triggers of the tasks table appear where a statement
  sets the columns they watch: the owner follows the list, the completion time follows the
  status, and a new execution run leaves a run start.
\<close>

subsection \<open>Order helpers\<close>

abbreviation task_ids :: "(task_row \<Rightarrow> bool) \<Rightarrow> task_row list \<Rightarrow> string list" where
  "task_ids \<equiv> ordered_ids tk_id tk_sort tk_created"

definition orderedTaskIDs :: "db \<Rightarrow> string \<Rightarrow> string \<Rightarrow> string list" where
  "orderedTaskIDs db bucketID exceptID = task_ids (\<lambda>t. tk_bucket t = bucketID \<and> tk_id t \<noteq> exceptID) (tasks db)"

definition orderedAllTaskIDs :: "db \<Rightarrow> string \<Rightarrow> string list" where
  "orderedAllTaskIDs db bucketID = task_ids (\<lambda>t. tk_bucket t = bucketID) (tasks db)"

definition orderedChildTaskIDs :: "db \<Rightarrow> string \<Rightarrow> string list" where
  "orderedChildTaskIDs db parentTaskID = task_ids (\<lambda>t. tk_parent t = Some parentTaskID) (tasks db)"

definition removeTaskIDs :: "string list \<Rightarrow> string list \<Rightarrow> string list" where
  "removeTaskIDs ids removed = (if removed = [] then ids else filter (\<lambda>i. i \<notin> set removed) ids)"

definition insertTaskIDs :: "string list \<Rightarrow> string list \<Rightarrow> int \<Rightarrow> string list" where
  "insertTaskIDs ids inserted position = take (nat position) ids @ inserted @ drop (nat position) ids"

definition put_task_sort :: "int \<Rightarrow> task_row \<Rightarrow> task_row" where
  "put_task_sort i t = t\<lparr>tk_sort := i\<rparr>"

definition writeTaskOrder :: "db \<Rightarrow> string list \<Rightarrow> (store_error, db) result" where
  "writeTaskOrder db ids =
     rbind (require (positions_fit ids) (ErrDB IntegerOutOfRange)) (\<lambda>_.
     Inr (db\<lparr>tasks := write_positions tk_id put_task_sort 0 ids (tasks db)\<rparr>))"

text \<open>The owner trigger: the list's account, or an exception when the list is gone.\<close>

definition owner_trigger :: "db \<Rightarrow> string \<Rightarrow> (store_error, string) result" where
  "owner_trigger db bucketID =
     (case list_owner db bucketID of None \<Rightarrow> Inl (ErrDB ForeignKeyViolation) | Some u \<Rightarrow> Inr u)"

definition track_completion :: "int \<Rightarrow> task_row \<Rightarrow> task_row \<Rightarrow> task_row" where
  "track_completion now old new =
     (if tk_status new = tk_status old then new
      else new\<lparr>tk_completed := (if tk_status new = StatusDone then Some now else None)\<rparr>)"

definition updateTaskLocation :: "db \<Rightarrow> int \<Rightarrow> string \<Rightarrow> Bucket \<Rightarrow> int \<Rightarrow> (store_error, db) result" where
  "updateTaskLocation db now taskID destination position =
     rbind (require (fits_int4 position) (ErrDB IntegerOutOfRange)) (\<lambda>_.
     rbind (owner_trigger db (bID destination)) (\<lambda>owner.
     Inr (db\<lparr>tasks := update_where (\<lambda>t. tk_id t = taskID)
            (\<lambda>t. t\<lparr>tk_bucket := bID destination, tk_owner := owner, tk_sort := position, tk_updated := now\<rparr>)
            (tasks db)\<rparr>)))"

definition updateChildTaskLocations :: "db \<Rightarrow> int \<Rightarrow> string \<Rightarrow> Bucket \<Rightarrow> (store_error, db) result" where
  "updateChildTaskLocations db now parentTaskID destination =
     rbind (owner_trigger db (bID destination)) (\<lambda>owner.
     Inr (db\<lparr>tasks := update_where (\<lambda>t. tk_parent t = Some parentTaskID)
            (\<lambda>t. t\<lparr>tk_bucket := bID destination, tk_owner := owner, tk_updated := now\<rparr>) (tasks db)\<rparr>))"

definition touchTask :: "db \<Rightarrow> int \<Rightarrow> string \<Rightarrow> db" where
  "touchTask db now taskID =
     db\<lparr>tasks := update_where (\<lambda>t. tk_id t = taskID) (\<lambda>t. t\<lparr>tk_updated := now\<rparr>) (tasks db)\<rparr>"

subsection \<open>MoveTask\<close>

definition move_check :: "MoveTaskInput \<Rightarrow> (store_error, MoveTaskInput) result" where
  "move_check input0 =
     (let input = input0\<lparr>miBucketID := clean (miBucketID input0),
            miReferenceTaskID := clean (miReferenceTaskID input0),
            miPlacement := clean (miPlacement input0), miStatus := clean (miStatus input0)\<rparr>;
          ref = miReferenceTaskID input; preserve = miPreservePosition input; app = miAppend input in
      rbind (require (miBucketID input \<noteq> []) (ErrInvalidData ''destination list is required'')) (\<lambda>_.
      rbind (require (\<not> (ref = [] \<and> \<not> preserve \<and> \<not> app
                \<and> (case miPosition input of None \<Rightarrow> True | Some p \<Rightarrow> p < 0)))
               (ErrInvalidData ''position must be zero or greater'')) (\<lambda>_.
      rbind (require (\<not> (ref \<noteq> [] \<and> miPlacement input \<noteq> ''before'' \<and> miPlacement input \<noteq> ''after''))
               (ErrInvalidData ''placement must be before or after'')) (\<lambda>_.
      rbind (require (\<not> ((preserve \<or> app) \<and> (ref \<noteq> [] \<or> miPosition input \<noteq> None) \<or> preserve \<and> app))
               (ErrInvalidData ''move must include one position'')) (\<lambda>_.
      rbind (require (\<not> (miStatus input \<noteq> [] \<and> \<not> validStatus (miStatus input)))
               (ErrInvalidData ''invalid status'')) (\<lambda>_.
      Inr input))))))"

text \<open>Any failure of the assignment check is reported as the same invalid request.\<close>

definition archived_agent_error :: store_error where
  "archived_agent_error = ErrInvalidData
     ''clear or replace the archived agent before moving this item to New, Ready, or In Progress''"

definition require_active_agent :: "env \<Rightarrow> db \<Rightarrow> string \<Rightarrow> string \<Rightarrow> (store_error, unit) result" where
  "require_active_agent e db userID agentID =
     (case activeAgentAssignment e db userID agentID of Inl _ \<Rightarrow> Inl archived_agent_error | Inr _ \<Rightarrow> Inr ())"

definition move_status :: "env \<Rightarrow> db \<Rightarrow> string \<Rightarrow> MoveTaskInput \<Rightarrow> Task \<Rightarrow> (store_error, Task) result" where
  "move_status e db userID input found =
     (if miStatus input = [] then Inr found
      else rbind (applyTaskStatus found (miStatus input) True) (\<lambda>applied.
        let current = (if tAssigneeAgentID applied \<noteq> [] \<and> tStatus applied = StatusNew
                       then applied\<lparr>tStatus := StatusQueued\<rparr> else applied) in
        rbind (if tAssigneeAgentID current \<noteq> [] \<and> (tStatus current = StatusQueued \<or> tStatus current = StatusWorking)
               then require_active_agent e db userID (tAssigneeAgentID current) else Inr ()) (\<lambda>_.
        Inr current)))"

text \<open>\<open>slices.Index\<close>, \<open>-1\<close> when absent.\<close>

definition slices_Index :: "string list \<Rightarrow> string \<Rightarrow> int" where
  "slices_Index ids x = (case index_of ids x of None \<Rightarrow> -1 | Some i \<Rightarrow> int i)"

definition past_children :: "string list \<Rightarrow> string list \<Rightarrow> int \<Rightarrow> int" where
  "past_children destinationIDs childIDs position =
     foldl (\<lambda>p c. if slices_Index destinationIDs c \<ge> p then slices_Index destinationIDs c + 1 else p)
       position childIDs"

definition move_position ::
    "db \<Rightarrow> MoveTaskInput \<Rightarrow> Task \<Rightarrow> string list \<Rightarrow> string list \<Rightarrow> (store_error, int) result" where
  "move_position db input current childIDs destinationIDs =
     rbind (if miPreservePosition input then
              let sourceOrder = removeTaskIDs (orderedAllTaskIDs db (tBucketID current)) childIDs;
                  at = slices_Index sourceOrder (tID current);
                  position = (if at \<ge> 0 then at else tSortOrder current) in
              Inr (if position > int (length destinationIDs) then int (length destinationIDs) else position)
            else if miAppend input then Inr (int (length destinationIDs))
            else if miReferenceTaskID input \<noteq> [] then
              let position = slices_Index destinationIDs (miReferenceTaskID input) in
              rbind (require (\<not> position < 0)
                       (ErrInvalidData ''reference task is outside the destination list'')) (\<lambda>_.
              Inr (if miPlacement input = ''after''
                   then past_children destinationIDs (orderedChildTaskIDs db (miReferenceTaskID input)) (position + 1)
                   else position))
            else Inr (the (miPosition input))) (\<lambda>position.
     rbind (require (\<not> position > int (length destinationIDs))
              (ErrInvalidData ''position is outside the destination list'')) (\<lambda>_.
     Inr position))"

definition move_write ::
    "db \<Rightarrow> int \<Rightarrow> Task \<Rightarrow> Bucket \<Rightarrow> string list \<Rightarrow> string list \<Rightarrow> int \<Rightarrow> (store_error, db) result" where
  "move_write db now current destination childIDs destinationIDs position =
     rbind (if tBucketID current \<noteq> bID destination then
              let sourceIDs = removeTaskIDs (orderedTaskIDs db (tBucketID current) (tID current)) childIDs in
              rbind (updateTaskLocation db now (tID current) destination position) (\<lambda>db1.
              rbind (updateChildTaskLocations db1 now (tID current) destination) (\<lambda>db2.
              writeTaskOrder db2 sourceIDs))
            else Inr (touchTask db now (tID current))) (\<lambda>db3.
     writeTaskOrder db3 destinationIDs)"

definition set_moved_status :: "int \<Rightarrow> string \<Rightarrow> task_row \<Rightarrow> task_row" where
  "set_moved_status now status t =
     track_completion now t
       (t\<lparr>tk_status := status,
          tk_run := (if status = ''queued'' then None else tk_run t),
          tk_review := (if status = ''needs_review'' \<and> tk_status t = ''needs_review'' then tk_review t else []),
          tk_updated := now\<rparr>)"

definition move_set_status :: "db \<Rightarrow> int \<Rightarrow> MoveTaskInput \<Rightarrow> Task \<Rightarrow> db" where
  "move_set_status db now input current =
     (if miStatus input = [] then db
      else db\<lparr>tasks := update_where (\<lambda>t. tk_id t = tID current)
             (set_moved_status now (tStatus current)) (tasks db)\<rparr>)"

definition MoveTask :: "env \<Rightarrow> db \<Rightarrow> int \<Rightarrow> string \<Rightarrow> string \<Rightarrow> MoveTaskInput \<Rightarrow> Task tx" where
  "MoveTask e db0 now userID taskID input0 =
     rbind (move_check input0) (\<lambda>input.
     rbind (lockStorageQuota db0 userID) (\<lambda>(db, q).
     rbind (uuid_arg e taskID) (\<lambda>i.
     rbind (lockedTask db userID i) (\<lambda>found.
     rbind (move_status e db userID input found) (\<lambda>current.
     rbind (if tParentTaskID current \<noteq> [] then
              rbind (lockedTask db userID (tParentTaskID current)) (\<lambda>parent.
              require (\<not> (tBucketID current = tBucketID parent \<or> tBucketID parent \<noteq> miBucketID input))
                (ErrInvalidData ''a subtask must stay in its parent list''))
            else Inr ()) (\<lambda>_.
     rbind (uuid_arg e (miBucketID input)) (\<lambda>b.
     rbind (lockedBucket db userID b) (\<lambda>destination.
     rbind (if tStatus found = StatusDone \<and> tStatus current \<noteq> StatusDone
            then checkTaskCapacity db destination (tID current) False else Inr ()) (\<lambda>_.
     rbind (if tBucketID current \<noteq> bID destination \<and> tKind current = KindAction \<and> tStatus current \<noteq> StatusDone
            then checkTaskCapacity db destination (tID current) False else Inr ()) (\<lambda>_.
     let childIDs = orderedChildTaskIDs db (tID current);
         others = removeTaskIDs (orderedTaskIDs db (bID destination) (tID current)) childIDs in
     rbind (move_position db input current childIDs others) (\<lambda>position.
     rbind (move_write db now current destination childIDs
              (insertTaskIDs others (tID current # childIDs) position) position) (\<lambda>db1.
     let db2 = move_set_status db1 now input current in
     rbind (taskByID db2 (tID current)) (\<lambda>moved.
     Inr (db2, moved))))))))))))))"

subsection \<open>Rewriting the order\<close>

interpretation task_order: ordered_rows tk_id tk_sort tk_created put_task_sort
  by unfold_locales (simp_all add: put_task_sort_def)

definition place :: "string list \<Rightarrow> task_row \<Rightarrow> task_row" where
  "place ids t = (case index_of ids (tk_id t) of None \<Rightarrow> t | Some k \<Rightarrow> put_task_sort (int k) t)"

lemma place_fields [simp]:
  "tk_id (place ids t) = tk_id t" "tk_bucket (place ids t) = tk_bucket t" "tk_owner (place ids t) = tk_owner t"
  "tk_parent (place ids t) = tk_parent t" "tk_assignee (place ids t) = tk_assignee t" "tk_status (place ids t) = tk_status t"
  "tk_title (place ids t) = tk_title t" "tk_description (place ids t) = tk_description t" "tk_created (place ids t) = tk_created t"
  "tk_run (place ids t) = tk_run t" "tk_review (place ids t) = tk_review t" "tk_completed (place ids t) = tk_completed t"
  "tk_kind (place ids t) = tk_kind t" "tk_priority (place ids t) = tk_priority t"
  "storage_bytes (place ids t) = storage_bytes t" "assigned_ok db (place ids t) = assigned_ok db t"
  by (auto simp: place_def put_task_sort_def storage_bytes_def assigned_ok_def split: option.splits)

lemma place_miss: "tk_id t \<notin> set ids \<Longrightarrow> place ids t = t"
  using index_of_None [of ids "tk_id t"] by (simp add: place_def del: index_of_None)

lemma write_positions_place:
  "distinct ids \<Longrightarrow> write_positions tk_id put_task_sort 0 ids rows = map (place ids) rows"
  by (simp add: task_order.write_positions_map place_def cong: option.case_cong)

lemma place_row_ok: "positions_fit ids \<Longrightarrow> task_row_ok t \<Longrightarrow> task_row_ok (place ids t)"
  by (auto simp: task_row_ok_def place_def put_task_sort_def positions_fit_def fits_int4_def
      minPostgresInteger_def maxPostgresInteger_def split: option.splits dest!: index_of_Some)

lemma writeTaskOrder_Inr:
  "distinct ids \<Longrightarrow> writeTaskOrder db ids = Inr db' \<longleftrightarrow>
     positions_fit ids \<and> db' = db\<lparr>tasks := map (place ids) (tasks db)\<rparr>"
  by (auto simp: writeTaskOrder_def rbind_eq_Inr write_positions_place)

lemma order_after_place:
  assumes "distinct (map tk_id rows)" "distinct ids" "set ids = tk_id ` {t \<in> set rows. P t}" "\<And>i t. P (put_task_sort i t) = P t"
  shows "task_ids P (map (place ids) rows) = ids"
  using task_order.order_after_write [OF assms] by (simp add: write_positions_place assms(2))

lemma removeTaskIDs_eq: "removeTaskIDs ids removed = filter (\<lambda>i. i \<notin> set removed) ids"
  by (simp add: removeTaskIDs_def)

lemma set_insertTaskIDs [simp]: "set (insertTaskIDs ids ins p) = set ids \<union> set ins"
  unfolding insertTaskIDs_def
  by (metis append_take_drop_id set_append Un_assoc Un_commute)

lemma distinct_insertTaskIDs:
  "distinct (insertTaskIDs ids ins p) \<longleftrightarrow> distinct ids \<and> distinct ins \<and> set ids \<inter> set ins = {}"
proof -
  have "mset (insertTaskIDs ids ins p) = mset (ids @ ins)"
    unfolding insertTaskIDs_def
    by (metis (no_types, lifting) append_take_drop_id mset_append union_assoc union_commute)
  then have "distinct (insertTaskIDs ids ins p) \<longleftrightarrow> distinct (ids @ ins)"
    by (rule mset_eq_imp_distinct_iff)
  then show ?thesis by auto
qed

lemma distinct_task_ids: "structure_ok db \<Longrightarrow> distinct (task_ids P (tasks db))"
  by (rule distinct_ordered_ids) (simp add: structure_defs)

lemma map_update_where_eq: "update_where P f rows = map (\<lambda>r. if P r then f r else r) rows"
  by (simp add: update_where_def)

subsection \<open>What a move does to the rows\<close>

lemma owner_trigger_Inr [simp]: "owner_trigger db b = Inr u \<longleftrightarrow> list_owner db b = Some u"
  by (auto simp: owner_trigger_def split: option.splits)

lemma track_completion_fields [simp]:
  "tk_id (track_completion now t t') = tk_id t'" "tk_bucket (track_completion now t t') = tk_bucket t'"
  "tk_owner (track_completion now t t') = tk_owner t'" "tk_parent (track_completion now t t') = tk_parent t'"
  "tk_sort (track_completion now t t') = tk_sort t'" "tk_created (track_completion now t t') = tk_created t'"
  "tk_status (track_completion now t t') = tk_status t'" "tk_title (track_completion now t t') = tk_title t'"
  "tk_description (track_completion now t t') = tk_description t'" "tk_assignee (track_completion now t t') = tk_assignee t'"
  "tk_run (track_completion now t t') = tk_run t'" "tk_review (track_completion now t t') = tk_review t'"
  "tk_kind (track_completion now t t') = tk_kind t'" "tk_priority (track_completion now t t') = tk_priority t'"
  "storage_bytes (track_completion now t t') = storage_bytes t'"
  by (simp_all add: track_completion_def storage_bytes_def)

lemma track_completion_completed:
  assumes "tk_completed t \<noteq> None \<longleftrightarrow> tk_status t = StatusDone" "tk_completed t' = tk_completed t"
  shows "tk_completed (track_completion now t t') \<noteq> None \<longleftrightarrow> tk_status t' = StatusDone"
  using assms by (auto simp: track_completion_def)

lemma set_moved_status_fields [simp]:
  "tk_id (set_moved_status now st t) = tk_id t" "tk_bucket (set_moved_status now st t) = tk_bucket t"
  "tk_owner (set_moved_status now st t) = tk_owner t" "tk_parent (set_moved_status now st t) = tk_parent t"
  "tk_sort (set_moved_status now st t) = tk_sort t" "tk_created (set_moved_status now st t) = tk_created t"
  "storage_bytes (set_moved_status now st t) = storage_bytes t" "tk_assignee (set_moved_status now st t) = tk_assignee t"
  "assigned_ok db (set_moved_status now st t) = assigned_ok db t"
  by (simp_all add: set_moved_status_def storage_bytes_def assigned_ok_def)

lemma set_moved_status_ok:
  assumes "task_row_ok t" "validStatus st" "tk_assignee t \<noteq> None \<longrightarrow> st \<noteq> StatusNew"
  shows "task_row_ok (set_moved_status now st t)"
proof -
  have "tk_completed (set_moved_status now st t) \<noteq> None \<longleftrightarrow> st = StatusDone"
    using assms(1) track_completion_completed [of t "t\<lparr>tk_status := st,
          tk_run := (if st = ''queued'' then None else tk_run t),
          tk_review := (if st = ''needs_review'' \<and> tk_status t = ''needs_review'' then tk_review t else []),
          tk_updated := now\<rparr>" now]
    by (simp add: set_moved_status_def task_row_ok_def)
  then show ?thesis
    using assms by (auto simp: task_row_ok_def set_moved_status_def)
qed

text \<open>A task and its subtasks change their list together.\<close>

definition hop :: "string \<Rightarrow> string \<Rightarrow> string \<Rightarrow> int \<Rightarrow> int \<Rightarrow> task_row \<Rightarrow> task_row" where
  "hop c dest owner now pos t =
     (let t1 = (if tk_id t = c then t\<lparr>tk_bucket := dest, tk_owner := owner, tk_sort := pos, tk_updated := now\<rparr> else t)
      in if tk_parent t1 = Some c then t1\<lparr>tk_bucket := dest, tk_owner := owner, tk_updated := now\<rparr> else t1)"

abbreviation in_group :: "string \<Rightarrow> task_row \<Rightarrow> bool" where
  "in_group c t \<equiv> tk_id t = c \<or> tk_parent t = Some c"

lemma hop_fields [simp]:
  "tk_id (hop c d w n p t) = tk_id t" "tk_parent (hop c d w n p t) = tk_parent t"
  "tk_bucket (hop c d w n p t) = (if in_group c t then d else tk_bucket t)"
  "tk_owner (hop c d w n p t) = (if in_group c t then w else tk_owner t)"
  "tk_created (hop c d w n p t) = tk_created t" "storage_bytes (hop c d w n p t) = storage_bytes t"
  "tk_title (hop c d w n p t) = tk_title t" "tk_description (hop c d w n p t) = tk_description t"
  "tk_assignee (hop c d w n p t) = tk_assignee t" "tk_status (hop c d w n p t) = tk_status t"
  by (simp_all add: hop_def Let_def storage_bytes_def)

lemma hop_row_ok: "task_row_ok t \<Longrightarrow> fits_int4 p \<Longrightarrow> task_row_ok (hop c d w n p t)"
  by (simp add: hop_def task_row_ok_def Let_def)

lemma move_write_other_list:
  assumes "move_write db now cur dest ch ids pos = Inr db'" "tBucketID cur \<noteq> bID dest" "distinct ids"
    and "distinct (removeTaskIDs (orderedTaskIDs db (tBucketID cur) (tID cur)) ch)"
  defines "src \<equiv> removeTaskIDs (orderedTaskIDs db (tBucketID cur) (tID cur)) ch"
  obtains owner where "list_owner db (bID dest) = Some owner" "fits_int4 pos" "positions_fit src" "positions_fit ids"
    "db' = db\<lparr>tasks := map (\<lambda>t. place ids (place src (hop (tID cur) (bID dest) owner now pos t))) (tasks db)\<rparr>"
proof -
  have "distinct src" using assms(4) by (simp add: src_def)
  with assms(1-3) that show thesis
    unfolding move_write_def updateTaskLocation_def updateChildTaskLocations_def src_def [symmetric] Let_def
    by (auto elim!: rbind_elims simp: writeTaskOrder_Inr map_update_where_eq hop_def o_def Let_def cong: if_cong)
qed

lemma move_write_same_list:
  assumes "move_write db now cur dest ch ids pos = Inr db'" "tBucketID cur = bID dest" "distinct ids"
  shows "positions_fit ids \<and> db' = db\<lparr>tasks := map (\<lambda>t. place ids
      (if tk_id t = tID cur then t\<lparr>tk_updated := now\<rparr> else t)) (tasks db)\<rparr>"
  using assms by (simp add: move_write_def touchTask_def writeTaskOrder_Inr map_update_where_eq o_def)

lemma move_status_InrD:
  assumes "move_status e db u input found = Inr cur"
  shows "\<exists>st. cur = found\<lparr>tStatus := st\<rparr> \<and> (miStatus input = [] \<longrightarrow> st = tStatus found)
    \<and> (miStatus input \<noteq> [] \<longrightarrow> validStatus st \<and> (tAssigneeAgentID found \<noteq> [] \<longrightarrow> st \<noteq> StatusNew))"
proof (cases "miStatus input = []")
  case True
  then show ?thesis using assms by (intro exI [of _ "tStatus found"]) (simp add: move_status_def)
next
  case False
  then obtain applied where ap: "applyTaskStatus found (miStatus input) True = Inr applied"
    and cur: "cur = (if tAssigneeAgentID applied \<noteq> [] \<and> tStatus applied = StatusNew
      then applied\<lparr>tStatus := StatusQueued\<rparr> else applied)"
    using assms by (auto simp: move_status_def Let_def elim!: rbind_elims)
  then have "applied = found\<lparr>tStatus := clean (miStatus input)\<rparr>" "validStatus (clean (miStatus input))"
    by (auto simp: applyTaskStatus_def Let_def split: if_splits)
  then show ?thesis using cur False by (auto simp: validStatus_def)
qed

lemma MoveTask_InrE:
  assumes "MoveTask e db now u taskID input0 = Inr (db', moved)"
  obtains input found cur dest i b pos db1 where "move_check input0 = Inr input"
    "lockedTask (ensure_usage_row db u) u i = Inr found"
    "move_status e (ensure_usage_row db u) u input found = Inr cur"
    "tParentTaskID cur \<noteq> [] \<longrightarrow> (\<exists>parent. lockedTask (ensure_usage_row db u) u (tParentTaskID cur) = Inr parent
       \<and> tBucketID cur \<noteq> tBucketID parent)"
    "lockedBucket (ensure_usage_row db u) u b = Inr dest"
    "move_position (ensure_usage_row db u) input cur (orderedChildTaskIDs db (tID cur))
       (removeTaskIDs (orderedTaskIDs db (bID dest) (tID cur)) (orderedChildTaskIDs db (tID cur))) = Inr pos"
    "move_write (ensure_usage_row db u) now cur dest (orderedChildTaskIDs db (tID cur))
       (insertTaskIDs (removeTaskIDs (orderedTaskIDs db (bID dest) (tID cur)) (orderedChildTaskIDs db (tID cur)))
         (tID cur # orderedChildTaskIDs db (tID cur)) pos) pos = Inr db1"
    "db' = move_set_status db1 now input cur" "taskByID db' (tID cur) = Inr moved"
    "uuid_in e taskID = Some i" "uuid_in e (miBucketID input) = Some b"
proof -
  have [simp]: "orderedChildTaskIDs (ensure_usage_row db u) x = orderedChildTaskIDs db x"
    "orderedTaskIDs (ensure_usage_row db u) y z = orderedTaskIDs db y z" for x y z
    by (simp_all add: orderedChildTaskIDs_def orderedTaskIDs_def)
  show thesis
    using assms unfolding MoveTask_def Let_def
    by (elim rbind_elims) (simp only: lockStorageQuota_eq_Inr, elim exE conjE, hypsubst,
        rule that, assumption, assumption, assumption, auto elim!: rbind_elims split: if_splits)
qed

lemma move_check_bucket: "move_check input0 = Inr input \<Longrightarrow> miBucketID input = clean (miBucketID input0)"
  unfolding move_check_def Let_def by (auto elim!: rbind_elims)

text \<open>The task being moved and the lists involved, as rows.\<close>

lemma MoveTask_rows:
  assumes inv: "store_inv db" and run: "MoveTask e db now u taskID input0 = Inr (db', moved)"
  obtains input t st r pos src ids g h where "move_check input0 = Inr input"
    "t \<in> set (tasks db)" "tk_owner t = u" "tk_parent t = None"
    "r \<in> set (buckets db)" "bk_user r = u"
    "miStatus input \<noteq> [] \<longrightarrow> validStatus st \<and> (tk_assignee t \<noteq> None \<longrightarrow> st \<noteq> StatusNew)"
    "src = removeTaskIDs (orderedTaskIDs db (tk_bucket t) (tk_id t)) (orderedChildTaskIDs db (tk_id t))"
    "ids = insertTaskIDs (removeTaskIDs (orderedTaskIDs db (bk_id r) (tk_id t)) (orderedChildTaskIDs db (tk_id t)))
       (tk_id t # orderedChildTaskIDs db (tk_id t)) pos"
    "distinct src" "distinct ids" "positions_fit ids"
    "move_position (ensure_usage_row db u) input ((task_of_row t)\<lparr>tStatus := st\<rparr>) (orderedChildTaskIDs db (tk_id t))
       (removeTaskIDs (orderedTaskIDs db (bk_id r) (tk_id t)) (orderedChildTaskIDs db (tk_id t))) = Inr pos"
    "h = (\<lambda>x. if tk_bucket t \<noteq> bk_id r then place src (hop (tk_id t) (bk_id r) u now pos x)
       else if tk_id x = tk_id t then x\<lparr>tk_updated := now\<rparr> else x)"
    "tk_bucket t \<noteq> bk_id r \<longrightarrow> fits_int4 pos \<and> positions_fit src"
    "g = (\<lambda>x. if miStatus input \<noteq> [] \<and> tk_id x = tk_id t then set_moved_status now st x else x)"
    "db' = (ensure_usage_row db u)\<lparr>tasks := map (\<lambda>x. g (place ids (h x))) (tasks db)\<rparr>"
    "taskByID db' (tk_id t) = Inr moved"
    "uuid_in e taskID = Some (tk_id t)" "uuid_in e (clean (miBucketID input0)) = Some (bk_id r)"
  using run
proof (rule MoveTask_InrE)
  fix input found cur dest i b pos db1
  let ?db = "ensure_usage_row db u"
  assume chk: "move_check input0 = Inr input" and lt: "lockedTask ?db u i = Inr found"
    and ms: "move_status e ?db u input found = Inr cur"
    and sub: "tParentTaskID cur \<noteq> [] \<longrightarrow> (\<exists>parent. lockedTask ?db u (tParentTaskID cur) = Inr parent
       \<and> tBucketID cur \<noteq> tBucketID parent)"
    and lb: "lockedBucket ?db u b = Inr dest"
    and mp: "move_position ?db input cur (orderedChildTaskIDs db (tID cur))
       (removeTaskIDs (orderedTaskIDs db (bID dest) (tID cur)) (orderedChildTaskIDs db (tID cur))) = Inr pos"
    and mw: "move_write ?db now cur dest (orderedChildTaskIDs db (tID cur))
       (insertTaskIDs (removeTaskIDs (orderedTaskIDs db (bID dest) (tID cur)) (orderedChildTaskIDs db (tID cur)))
         (tID cur # orderedChildTaskIDs db (tID cur)) pos) pos = Inr db1"
    and db': "db' = move_set_status db1 now input cur" and moved: "taskByID db' (tID cur) = Inr moved"
    and asked: "uuid_in e taskID = Some i" "uuid_in e (miBucketID input) = Some b"
  have s: "structure_ok db" using inv by (simp add: store_inv_def)
  obtain t where t: "t \<in> set (tasks db)" "tk_owner t = u" "found = task_of_row t" "tk_id t = i"
    using lockedTask_InrD [OF lt] by auto
  obtain st where cur: "cur = (task_of_row t)\<lparr>tStatus := st\<rparr>"
    and st: "miStatus input \<noteq> [] \<longrightarrow> validStatus st \<and> (null_text (tk_assignee t) \<noteq> [] \<longrightarrow> st \<noteq> StatusNew)"
    using move_status_InrD [OF ms] t by auto
  have assigned: "null_text (tk_assignee t) \<noteq> [] \<longleftrightarrow> tk_assignee t \<noteq> None"
    using task_assignedD [OF s t(1)] by (cases "tk_assignee t") (auto simp: assigned_ok_def)
  obtain r where r: "r \<in> set (buckets db)" "bk_user r = u" "bID dest = bk_id r" "bk_id r = b"
    using lockedBucket_InrD [OF lb] by auto
  have "uuid_in e (clean (miBucketID input0)) = Some (bk_id r)" using asked(2) r(4) move_check_bucket [OF chk] by simp
  note asked' = asked(1) [folded t(4)] this
  have top: "tk_parent t = None"
  proof (cases "tk_parent t")
    case (Some p)
    with s t(1) obtain q where q: "q \<in> set (tasks db)" "tk_id q = p" "tk_bucket q = tk_bucket t" by (elim task_parentD)
    then have "p \<noteq> []" using task_id_nonempty [OF s] by auto
    then obtain q' where "q' \<in> set (tasks db)" "tk_id q' = p" "tk_bucket q' \<noteq> tk_bucket t"
      using sub Some cur by (auto dest!: lockedTask_InrD)
    then show ?thesis using task_idD [OF s q(1)] q by auto
  qed
  let ?ch = "orderedChildTaskIDs db (tk_id t)"
  let ?src = "removeTaskIDs (orderedTaskIDs db (tk_bucket t) (tk_id t)) ?ch"
  let ?others = "removeTaskIDs (orderedTaskIDs db (bk_id r) (tk_id t)) ?ch"
  let ?ids = "insertTaskIDs ?others (tk_id t # ?ch) pos"
  have dsrc: "distinct ?src" by (simp add: removeTaskIDs_eq orderedTaskIDs_def distinct_task_ids [OF s])
  have "tk_id t \<notin> set ?ch" using top task_idD [OF s _ t(1)] by (auto simp: orderedChildTaskIDs_def)
  then have dids: "distinct ?ids"
    using distinct_task_ids [OF s]
    by (auto simp: distinct_insertTaskIDs removeTaskIDs_eq orderedTaskIDs_def orderedChildTaskIDs_def)
  define h where "h x = (if tk_bucket t \<noteq> bk_id r then place ?src (hop (tk_id t) (bk_id r) u now pos x)
       else if tk_id x = tk_id t then x\<lparr>tk_updated := now\<rparr> else x)" for x
  define g where "g x = (if miStatus input \<noteq> [] \<and> tk_id x = tk_id t then set_moved_status now st x else x)" for x
  have osrc: "orderedTaskIDs ?db y z = orderedTaskIDs db y z" for y z by (simp add: orderedTaskIDs_def)
  have w: "positions_fit ?ids \<and> db1 = ?db\<lparr>tasks := map (\<lambda>x. place ?ids (h x)) (tasks db)\<rparr>
      \<and> (tk_bucket t \<noteq> bk_id r \<longrightarrow> fits_int4 pos \<and> positions_fit ?src)"
  proof (cases "tk_bucket t = bk_id r")
    case True
    then show ?thesis using move_write_same_list [OF mw] dids r by (simp add: cur h_def)
  next
    case False
    have "list_owner ?db (bk_id r) = Some u"
      using list_owner_iff [OF s r(1)] r(2) by (simp add: list_owner_def)
    note own = this
    show ?thesis
      by (rule move_write_other_list [OF mw]) (use own dids dsrc r False in \<open>simp_all add: cur h_def osrc\<close>)
  qed
  have "db' = ?db\<lparr>tasks := map (\<lambda>x. g (place ?ids (h x))) (tasks db)\<rparr>"
    using w by (simp add: db' move_set_status_def cur g_def [abs_def] map_update_where_eq o_def)
  then show thesis
    using that [of input t r st ?src ?ids pos h g] chk t(1-3) top r(1-3) st assigned dsrc dids w mp moved asked'
    by (simp add: cur h_def [abs_def] g_def [abs_def])
qed

subsection \<open>Moves keep the invariant and produce the requested order\<close>

lemma MoveTask_inv:
  assumes inv: "store_inv db" and run: "MoveTask e db now u taskID input0 = Inr (db', moved)"
  shows "store_inv db'"
  using inv run
proof (rule MoveTask_rows)
  fix input t st r pos src ids g h
  assume t: "t \<in> set (tasks db)" "tk_owner t = u" "tk_parent t = None" and r: "r \<in> set (buckets db)" "bk_user r = u"
    and st: "miStatus input \<noteq> [] \<longrightarrow> validStatus st \<and> (tk_assignee t \<noteq> None \<longrightarrow> st \<noteq> StatusNew)"
    and fit: "positions_fit ids" "tk_bucket t \<noteq> bk_id r \<longrightarrow> fits_int4 pos \<and> positions_fit src"
    and h: "h = (\<lambda>x. if tk_bucket t \<noteq> bk_id r then place src (hop (tk_id t) (bk_id r) u now pos x)
       else if tk_id x = tk_id t then x\<lparr>tk_updated := now\<rparr> else x)"
    and g: "g = (\<lambda>x. if miStatus input \<noteq> [] \<and> tk_id x = tk_id t then set_moved_status now st x else x)"
    and db': "db' = (ensure_usage_row db u)\<lparr>tasks := map (\<lambda>x. g (place ids (h x))) (tasks db)\<rparr>"
  let ?db = "ensure_usage_row db u" and ?f = "\<lambda>x. g (place ids (h x))"
  have s: "structure_ok db" and s1: "structure_ok ?db" using inv by (simp_all add: store_inv_def)
  define dest where "dest x = (if in_group (tk_id t) x then bk_id r else tk_bucket x)" for x
  have group: "tk_bucket x = tk_bucket t \<and> tk_owner x = u" if x: "x \<in> set (tasks db)" "in_group (tk_id t) x" for x
  proof (cases "tk_parent x")
    case None
    then show ?thesis using x t task_idD [OF s x(1) t(1)] by auto
  next
    case (Some p)
    with s x(1) obtain q where q: "q \<in> set (tasks db)" "tk_id q = p" "tk_bucket q = tk_bucket x" "tk_owner q = tk_owner x"
      by (elim task_parentD)
    then show ?thesis
      using x t Some task_idD [OF s q(1) t(1)] task_idD [OF s x(1) t(1)] by auto
  qed
  have same_h: "tk_id (h x) = tk_id x" "tk_parent (h x) = tk_parent x" "storage_bytes (h x) = storage_bytes x"
    "tk_assignee (h x) = tk_assignee x" for x
    by (simp_all add: h storage_bytes_def)
  have owner_h: "tk_owner (h x) = tk_owner x" and bucket_h: "tk_bucket (h x) = dest x" and ok_h: "task_row_ok (h x)"
    if x: "x \<in> set (tasks db)" for x
    using group [OF x] r fit(2) task_rowD [OF s x]
    by (auto simp: h dest_def intro!: place_row_ok hop_row_ok) (simp_all add: task_row_ok_def)
  have same_g: "tk_id (g x) = tk_id x" "tk_parent (g x) = tk_parent x" "storage_bytes (g x) = storage_bytes x"
    "tk_assignee (g x) = tk_assignee x" "tk_owner (g x) = tk_owner x" "tk_bucket (g x) = tk_bucket x" for x
    by (simp_all add: g)
  have ok: "task_row_ok (?f x)" if x: "x \<in> set (tasks db)" for x
  proof -
    have p: "task_row_ok (place ids (h x))" using ok_h [OF x] fit(1) by (rule place_row_ok [rotated])
    have "x = t" if "tk_id x = tk_id t" using task_idD [OF s x t(1) that] .
    then show ?thesis using p st by (auto simp: g same_h intro!: set_moved_status_ok)
  qed
  have asg: "assigned_ok ?db (?f x)" if x: "x \<in> set (tasks db)" for x
    using task_assignedD [OF s x] owner_h [OF x] by (simp add: assigned_ok_def same_g same_h)
  have "structure_ok (?db\<lparr>tasks := map ?f (tasks db)\<rparr>)"
  proof (rule structure_tasks_updated [OF s1])
    show "tasks_updated ?db dest (map ?f (tasks db))"
      using ok asg owner_h bucket_h
      by (simp add: tasks_updated_def list_all2_map2 list_all2_same same_task_def same_g same_h)
    show "list_owner ?db (dest x) = Some (tk_owner x)" if "x \<in> set (tasks ?db)" for x
      using that group [of x] task_ownerD [OF s, of x] list_owner_iff [OF s r(1)] r(2)
      by (auto simp: dest_def list_owner_def)
    show "dest x = dest q" if "x \<in> set (tasks ?db)" "q \<in> set (tasks ?db)" "tk_parent x = Some (tk_id q)" for x q
    proof -
      from that have x: "x \<in> set (tasks db)" and q: "q \<in> set (tasks db)" by simp_all
      from s x that(3) obtain q' where "q' \<in> set (tasks db)" "tk_id q' = tk_id q" "tk_bucket q' = tk_bucket x" "tk_parent q' = None"
        by (elim task_parentD)
      then have "q' = q" using task_idD [OF s _ q] by blast
      then have "tk_bucket q = tk_bucket x" "tk_parent q = None"
        using \<open>tk_bucket q' = tk_bucket x\<close> \<open>tk_parent q' = None\<close> by simp_all
      moreover have "tk_id x \<noteq> tk_id t" using that(3) t(3) task_idD [OF s x t(1)] by auto
      ultimately show ?thesis using that(3) by (auto simp: dest_def)
    qed
  qed
  moreover have "accounting_ok db'"
  proof (rule accounting_unmoved [of db])
    show "accounting_ok db" using inv by (simp add: store_inv_def)
    show "stored_tasks_of db' v = stored_tasks_of db v" for v
      using stored_tasks_updated [of db "map ?f (tasks db)" v] owner_h
      by (simp add: db' list_all2_map2 list_all2_same same_g same_h stored_tasks_of_def)
    show "stored_bytes_of db' v = stored_bytes_of db v" for v
      using stored_bytes_updated [of db "map ?f (tasks db)" v] owner_h
      by (simp add: db' list_all2_map2 list_all2_same same_g same_h stored_bytes_of_def)
    show "usage_of db' v = usage_of db v" for v
      using usage_of_cong [of db' ?db v] by (simp add: db')
  qed
  ultimately show "store_inv db'" by (simp add: store_inv_def db')
qed

lemma slices_Index_nonneg: "\<not> slices_Index ids x < 0 \<Longrightarrow> \<exists>k. index_of ids x = Some k \<and> slices_Index ids x = int k"
  by (auto simp: slices_Index_def split: option.splits dest: index_of_in)

lemma past_children_ge: "p \<le> past_children ids cs p"
  unfolding past_children_def
proof (induction cs arbitrary: p)
  case (Cons c cs)
  show ?case using Cons [of p] Cons [of "slices_Index ids c + 1"] by (auto split: if_splits)
qed simp

lemma move_position_InrD:
  assumes "move_position db input cur ch others = Inr pos"
  shows "pos \<le> int (length others)"
    and "miAppend input \<Longrightarrow> \<not> miPreservePosition input \<Longrightarrow> pos = int (length others)"
    and "\<not> miAppend input \<Longrightarrow> \<not> miPreservePosition input \<Longrightarrow> miReferenceTaskID input = [] \<Longrightarrow> pos = the (miPosition input)"
    and "\<not> miAppend input \<Longrightarrow> \<not> miPreservePosition input \<Longrightarrow> miReferenceTaskID input \<noteq> [] \<Longrightarrow>
      miPlacement input \<noteq> ''after'' \<Longrightarrow> nat pos < length others \<and> others ! nat pos = miReferenceTaskID input"
    and "\<not> miAppend input \<Longrightarrow> \<not> miPreservePosition input \<Longrightarrow> miReferenceTaskID input \<noteq> [] \<Longrightarrow>
      miPlacement input = ''after'' \<Longrightarrow> miReferenceTaskID input \<in> set (take (nat pos) others)"
proof -
  show "pos \<le> int (length others)" "miAppend input \<Longrightarrow> \<not> miPreservePosition input \<Longrightarrow> pos = int (length others)"
    "\<not> miAppend input \<Longrightarrow> \<not> miPreservePosition input \<Longrightarrow> miReferenceTaskID input = [] \<Longrightarrow> pos = the (miPosition input)"
    using assms unfolding move_position_def by (auto elim!: rbind_elims)
next
  assume a: "\<not> miAppend input" "\<not> miPreservePosition input" "miReferenceTaskID input \<noteq> []" "miPlacement input \<noteq> ''after''"
  then have "\<not> slices_Index others (miReferenceTaskID input) < 0" "pos = slices_Index others (miReferenceTaskID input)"
    using assms unfolding move_position_def Let_def by (auto elim!: rbind_elims)
  then show "nat pos < length others \<and> others ! nat pos = miReferenceTaskID input"
    by (auto dest!: slices_Index_nonneg dest: index_of_Some)
next
  assume a: "\<not> miAppend input" "\<not> miPreservePosition input" "miReferenceTaskID input \<noteq> []" "miPlacement input = ''after''"
  then have i: "\<not> slices_Index others (miReferenceTaskID input) < 0"
    and pos: "slices_Index others (miReferenceTaskID input) + 1 \<le> pos"
    using assms past_children_ge unfolding move_position_def Let_def by (auto elim!: rbind_elims)
  then obtain k where "index_of others (miReferenceTaskID input) = Some k" "int k + 1 \<le> pos"
    by (auto dest!: slices_Index_nonneg)
  then have "k < length (take (nat pos) others)" "take (nat pos) others ! k = miReferenceTaskID input"
    by (auto dest!: index_of_Some)
  then show "miReferenceTaskID input \<in> set (take (nat pos) others)" by (metis nth_mem)
qed

lemma orderedTaskIDs_eq: "orderedTaskIDs db b x = filter (\<lambda>i. i \<noteq> x) (orderedAllTaskIDs db b)"
  by (simp add: orderedTaskIDs_def orderedAllTaskIDs_def filter_ordered_ids)

lemma others_eq:
  "removeTaskIDs (orderedTaskIDs db b x) ch = filter (\<lambda>i. i \<notin> set (x # ch)) (orderedAllTaskIDs db b)"
  by (auto simp: removeTaskIDs_eq orderedTaskIDs_eq intro: filter_cong)

lemma move_check_InrD:
  assumes "move_check input0 = Inr input"
  shows "miAppend input = miAppend input0" "miPreservePosition input = miPreservePosition input0"
    "miPosition input = miPosition input0" "miReferenceTaskID input = clean (miReferenceTaskID input0)"
    "miPlacement input = clean (miPlacement input0)" "\<not> (miPreservePosition input \<and> miAppend input)"
    "miReferenceTaskID input = [] \<and> \<not> miPreservePosition input \<and> \<not> miAppend input \<longrightarrow>
       (\<exists>p \<ge> 0. miPosition input = Some p)"
    "miReferenceTaskID input \<noteq> [] \<longrightarrow> \<not> miPreservePosition input \<and> \<not> miAppend input"
  using assms unfolding move_check_def Let_def
  by (auto elim!: rbind_elims split: option.splits)

text \<open>After a move the destination list reads exactly as the order that was written.\<close>

lemma MoveTask_destination:
  assumes inv: "store_inv db" and run: "MoveTask e db now u taskID input0 = Inr (db', moved)"
  obtains input cur pos where "move_check input0 = Inr input" "tParentTaskID moved = []"
    "uuid_in e taskID = Some (tID moved)" "uuid_in e (clean (miBucketID input0)) = Some (tBucketID moved)"
    "move_position (ensure_usage_row db u) input cur (orderedChildTaskIDs db (tID moved))
       (filter (\<lambda>i. i \<notin> set (tID moved # orderedChildTaskIDs db (tID moved))) (orderedAllTaskIDs db (tBucketID moved))) = Inr pos"
    "orderedAllTaskIDs db' (tBucketID moved) = insertTaskIDs
       (filter (\<lambda>i. i \<notin> set (tID moved # orderedChildTaskIDs db (tID moved))) (orderedAllTaskIDs db (tBucketID moved)))
       (tID moved # orderedChildTaskIDs db (tID moved)) pos"
  using inv run
proof (rule MoveTask_rows)
  fix input and t :: task_row and st and r :: bucket_row and pos src ids g h
  let ?ch = "orderedChildTaskIDs db (tk_id t)"
  let ?others = "removeTaskIDs (orderedTaskIDs db (bk_id r) (tk_id t)) ?ch"
  assume chk: "move_check input0 = Inr input" and t: "t \<in> set (tasks db)" "tk_owner t = u" "tk_parent t = None"
    and ids: "ids = insertTaskIDs ?others (tk_id t # ?ch) pos" and dist: "distinct ids"
    and mp: "move_position (ensure_usage_row db u) input ((task_of_row t)\<lparr>tStatus := st\<rparr>) ?ch ?others = Inr pos"
    and h: "h = (\<lambda>x. if tk_bucket t \<noteq> bk_id r then place src (hop (tk_id t) (bk_id r) u now pos x)
       else if tk_id x = tk_id t then x\<lparr>tk_updated := now\<rparr> else x)"
    and g: "g = (\<lambda>x. if miStatus input \<noteq> [] \<and> tk_id x = tk_id t then set_moved_status now st x else x)"
    and db': "db' = (ensure_usage_row db u)\<lparr>tasks := map (\<lambda>x. g (place ids (h x))) (tasks db)\<rparr>"
    and moved: "taskByID db' (tk_id t) = Inr moved"
    and asked: "uuid_in e taskID = Some (tk_id t)" "uuid_in e (clean (miBucketID input0)) = Some (bk_id r)"
  have s: "structure_ok db" using inv by (simp add: store_inv_def)
  have same: "tk_id (h x) = tk_id x" "tk_id (g x) = tk_id x" "tk_sort (g x) = tk_sort x" "tk_created (g x) = tk_created x"
    "tk_bucket (g x) = tk_bucket x" for x
    by (simp_all add: h g)
  have child: "tk_bucket x = tk_bucket t" if x: "x \<in> set (tasks db)" "tk_parent x = Some (tk_id t)" for x
  proof -
    from s x obtain q where "q \<in> set (tasks db)" "tk_id q = tk_id t" "tk_bucket q = tk_bucket x" by (elim task_parentD)
    then show ?thesis using task_idD [OF s _ t(1)] by metis
  qed
  have bucket: "tk_bucket (h x) = bk_id r \<longleftrightarrow> in_group (tk_id t) x \<or> tk_bucket x = bk_id r" if "x \<in> set (tasks db)" for x
    using child [OF that] task_idD [OF s that t(1)] by (auto simp: h)
  have "task_ids (\<lambda>x. tk_bucket x = bk_id r) (map (place ids) (map h (tasks db))) = ids"
  proof (rule order_after_place)
    show "distinct (map tk_id (map h (tasks db)))" using s by (simp add: same o_def structure_defs)
    have "set ids = tk_id ` {x \<in> set (tasks db). in_group (tk_id t) x \<or> tk_bucket x = bk_id r}"
      using t(1) by (auto simp: ids others_eq orderedAllTaskIDs_def orderedChildTaskIDs_def)
    also have "\<dots> = tk_id ` {x \<in> set (map h (tasks db)). tk_bucket x = bk_id r}"
      using bucket by (auto simp: same intro!: rev_image_eqI)
    finally show "set ids = tk_id ` {x \<in> set (map h (tasks db)). tk_bucket x = bk_id r}" .
  qed (use dist in \<open>simp_all add: put_task_sort_def\<close>)
  moreover have "task_ids (\<lambda>x. tk_bucket x = bk_id r) (map g (map (place ids) (map h (tasks db)))) =
      task_ids (\<lambda>x. tk_bucket x = bk_id r) (map (place ids) (map h (tasks db)))"
    by (rule ordered_ids_map) (simp add: same)
  ultimately have order: "orderedAllTaskIDs db' (bk_id r) = ids"
    by (simp add: orderedAllTaskIDs_def db' o_def)
  obtain y where y: "y \<in> set (tasks db)" "tk_id y = tk_id t" "moved = task_of_row (g (place ids (h y)))"
    using moved by (auto simp: taskByID_def rbind_eq_Inr db' same dest!: query_row_InrD)
  moreover have "y = t" using task_idD [OF s y(1) t(1) y(2)] .
  ultimately have "tID moved = tk_id t" "tBucketID moved = bk_id r" "tParentTaskID moved = []"
    using bucket [OF t(1)] t(3) by (simp_all add: same h g)
  then show thesis using that [OF chk] order mp asked by (simp add: ids others_eq)
qed


definition ex_move :: MoveTaskInput where
  "ex_move = \<lparr>miBucketID = ''b2'', miPosition = None, miReferenceTaskID = ''t4'', miPlacement = ''before'',
     miPreservePosition = False, miAppend = False, miStatus = []\<rparr>"


end
