(* ===== verification/TaskUpdate.thy ===== *)
theory TaskUpdate
  imports TaskOrder
begin

section \<open>Updating, claiming, deleting and reordering tasks (boards/store.go)\<close>

text \<open>
  \<open>updateTask\<close> with its three entry points, the claim that hands a queued task to a worker,
  deletion, and the two reorder transactions. \<open>updateTask\<close> is split along the blocks of
  the Go function: the managed-run guard, the fields, the list change, the status, and the
  assignment rules.
\<close>

subsection \<open>updateTask\<close>

definition update_run_guard :: "db \<Rightarrow> string \<Rightarrow> UpdateTaskInput \<Rightarrow> Task \<Rightarrow> (store_error, unit) result" where
  "update_run_guard db requiredAgentID input current =
     (if requiredAgentID = [] then Inr ()
      else rbind (query_row (ErrDB NoRows) (\<lambda>t. tk_id t = tID current) (tasks db)) (\<lambda>t.
        let executionRunID = null_text (tk_run t);
            requestedRunID = TrimSpace (uiRunID input) in
        if executionRunID \<noteq> [] \<and> requestedRunID \<noteq> executionRunID then Inl ErrManagedRunMismatch
        else if executionRunID = [] \<and> requestedRunID \<noteq> [] then Inl ErrManagedRunMismatch
        else if executionRunID \<noteq> [] \<and> (uiStatus input \<noteq> None \<or> uiDone input \<noteq> None)
        then Inl ErrManagedRunStatusLocked
        else Inr ()))"

definition update_fields :: "UpdateTaskInput \<Rightarrow> Task \<Rightarrow> (store_error, Task) result" where
  "update_fields input current =
     rbind (case uiScheduledDate input of None \<Rightarrow> Inr (tScheduledDate current) | Some v \<Rightarrow> validDate v) (\<lambda>date.
     rbind (case uiKind input of None \<Rightarrow> Inr (tKind current)
              | Some v \<Rightarrow> if validKind (clean v) then Inr (clean v) else Inl (ErrInvalidData ''invalid item kind'')) (\<lambda>kind.
     Inr (current\<lparr>tTitle := (case uiTitle input of None \<Rightarrow> tTitle current | Some v \<Rightarrow> clean v),
                  tDescription := (case uiDescription input of None \<Rightarrow> tDescription current | Some v \<Rightarrow> v),
                  tScheduledDate := date, tKind := kind\<rparr>)))"

text \<open>The result carries \<open>moveChildren\<close>, \<open>sourceOrder\<close> and \<open>destinationOrder\<close>; nil orders are empty.\<close>

definition update_list ::
    "env \<Rightarrow> db \<Rightarrow> string \<Rightarrow> UpdateTaskInput \<Rightarrow> Task \<Rightarrow> (store_error, Task \<times> bool \<times> string list \<times> string list) result" where
  "update_list e db userID input current =
     (case uiBucketID input of
        None \<Rightarrow> Inr (current, False, [], [])
      | Some bucketID \<Rightarrow>
          if bucketID = tBucketID current then Inr (current, False, [], [])
          else
            rbind (require (uiSortOrder input = None)
                     (ErrInvalidData ''use the move endpoint to change a task list and position together'')) (\<lambda>_.
            rbind (if tParentTaskID current \<noteq> [] then
                     rbind (lockedTask db userID (tParentTaskID current)) (\<lambda>parent.
                     require (tBucketID parent = bucketID) (ErrInvalidData ''a subtask must stay in its parent list''))
                   else Inr ()) (\<lambda>_.
            rbind (uuid_arg e bucketID) (\<lambda>b.
            rbind (lockedBucket db userID b) (\<lambda>bucket.
            let childIDs = orderedChildTaskIDs db (tID current);
                destinationOrder = insertTaskIDs (removeTaskIDs (orderedTaskIDs db (bID bucket) (tID current)) childIDs)
                  (tID current # childIDs) 0;
                sourceOrder = removeTaskIDs (orderedTaskIDs db (tBucketID current) (tID current)) childIDs in
            Inr (current\<lparr>tBucketID := bID bucket, tSortOrder := 0\<rparr>, tParentTaskID current = [],
                 sourceOrder, destinationOrder))))))"

definition update_status :: "UpdateTaskInput \<Rightarrow> bool \<Rightarrow> Task \<Rightarrow> (store_error, Task) result" where
  "update_status input allowWorking current =
     rbind (case uiStatus input of None \<Rightarrow> Inr current | Some v \<Rightarrow> applyTaskStatus current v allowWorking) (\<lambda>c.
     case uiDone input of
       None \<Rightarrow> Inr c
     | Some finished \<Rightarrow>
         let legacyStatus =
           (if finished then StatusDone
            else if tStatus c = StatusDone then (if tAssigneeAgentID c \<noteq> [] then StatusQueued else StatusNew)
            else tStatus c) in
         if legacyStatus \<noteq> tStatus c then applyTaskStatus c legacyStatus allowWorking else Inr c)"

definition update_assignment_status :: "Task \<Rightarrow> Task \<Rightarrow> Task" where
  "update_assignment_status original current =
     (let changed = (tAssigneeAgentID current \<noteq> tAssigneeAgentID original);
          c1 = (if changed \<and> tAssigneeAgentID current \<noteq> []
                  \<and> (tStatus current = StatusWorking \<or> tStatus current = StatusNeedsReview)
                then current\<lparr>tStatus := StatusQueued\<rparr> else current);
          c2 = (if changed \<and> tAssigneeAgentID c1 = [] \<and> tStatus c1 = StatusQueued
                then c1\<lparr>tStatus := StatusNew\<rparr> else c1) in
      if tAssigneeAgentID c2 \<noteq> [] \<and> tStatus c2 = StatusNew then c2\<lparr>tStatus := StatusQueued\<rparr> else c2)"

definition update_assignment ::
    "env \<Rightarrow> db \<Rightarrow> string \<Rightarrow> UpdateTaskInput \<Rightarrow> Task \<Rightarrow> Task \<Rightarrow> (store_error, Task) result" where
  "update_assignment e db userID input original current =
     rbind (case uiPriority input of None \<Rightarrow> Inr (tPriority current)
              | Some v \<Rightarrow> if validPriority (clean v) then Inr (clean v) else Inl (ErrInvalidData ''invalid priority'')) (\<lambda>priority.
     let position = (case uiSortOrder input of None \<Rightarrow> tSortOrder current | Some v \<Rightarrow> v) in
     rbind (case uiAssigneeAgentID input of None \<Rightarrow> Inr (tAssigneeAgentID current)
              | Some v \<Rightarrow> activeAgentAssignment e db userID v) (\<lambda>assignee.
     let c = update_assignment_status original
               (current\<lparr>tPriority := priority, tSortOrder := position, tAssigneeAgentID := assignee\<rparr>) in
     rbind (if tAssigneeAgentID c \<noteq> []
              \<and> (tStatus c = StatusNew \<or> tStatus c = StatusQueued \<or> tStatus c = StatusWorking)
            then require_active_agent e db userID (tAssigneeAgentID c) else Inr ()) (\<lambda>_.
     rbind (require (tTitle c \<noteq> []) (ErrInvalidData ''task title is required'')) (\<lambda>_.
     Inr c))))"

definition set_task :: "int \<Rightarrow> string \<Rightarrow> string option \<Rightarrow> Task \<Rightarrow> task_row \<Rightarrow> task_row" where
  "set_task now owner date c t =
     track_completion now t
       (t\<lparr>tk_bucket := tBucketID c, tk_owner := owner, tk_title := tTitle c, tk_description := tDescription c,
          tk_date := date, tk_kind := tKind c, tk_status := tStatus c, tk_priority := tPriority c,
          tk_sort := tSortOrder c, tk_assignee := nullif_empty (tAssigneeAgentID c),
          tk_run := (if tStatus c = ''queued'' \<or> nullif_empty (tAssigneeAgentID c) \<noteq> tk_assignee t then None else tk_run t),
          tk_review := (if tStatus c \<noteq> ''needs_review'' then [] else if tk_status t \<noteq> ''needs_review'' then []
                        else tk_review t),
          tk_updated := now\<rparr>)"

definition write_task :: "db \<Rightarrow> int \<Rightarrow> string \<Rightarrow> string \<Rightarrow> Task \<Rightarrow> Task tx" where
  "write_task db now userID taskID c =
     rbind (pg_date (tScheduledDate c)) (\<lambda>date.
     rbind (require (fits_int4 (tSortOrder c)) (ErrDB IntegerOutOfRange)) (\<lambda>_.
     rbind (query_row ErrNotFound (\<lambda>t. tk_owner t = userID \<and> tk_id t = taskID) (tasks db)) (\<lambda>t.
     rbind (owner_trigger db (tBucketID c)) (\<lambda>owner.
     Inr (db\<lparr>tasks := update_where (\<lambda>t. tk_owner t = userID \<and> tk_id t = taskID) (set_task now owner date c) (tasks db)\<rparr>,
          task_of_row (set_task now owner date c t))))))"

definition update_active_check :: "db \<Rightarrow> string \<Rightarrow> Task \<Rightarrow> Task \<Rightarrow> (store_error, unit) result" where
  "update_active_check db userID original current =
     (let originalActive = (tKind original = KindAction \<and> tStatus original \<noteq> StatusDone);
          currentActive = (tKind current = KindAction \<and> tStatus current \<noteq> StatusDone) in
      if currentActive \<and> (\<not> originalActive \<or> tBucketID original \<noteq> tBucketID current)
      then rbind (lockedBucket db userID (tBucketID current)) (\<lambda>bucket.
           checkTaskCapacity db bucket (tID current) False)
      else Inr ())"

definition bucket_with_id :: "string \<Rightarrow> Bucket" where
  "bucket_with_id i = \<lparr>bID = i, bName = [], bGoal = [], bColor = [], bIsInbox = False, bLimitCount = 0,
     bSortOrder = 0, bOpenCount = 0, bCreatedAt = 0, bUpdatedAt = 0, bTasks = [], bCompletedNextCursor = []\<rparr>"

definition updateTask ::
    "env \<Rightarrow> db \<Rightarrow> int \<Rightarrow> string \<Rightarrow> string \<Rightarrow> string \<Rightarrow> UpdateTaskInput \<Rightarrow> bool \<Rightarrow> Task tx" where
  "updateTask e db0 now userID requiredAgentID taskID input allowWorking =
     rbind (if uiTitle input \<noteq> None \<or> uiDescription input \<noteq> None \<or> uiBucketID input \<noteq> None
            then rbind (lockStorageQuota db0 userID) (\<lambda>(db, q). Inr (db, Some q))
            else Inr (db0, None)) (\<lambda>(db, quota).
     rbind (uuid_arg e taskID) (\<lambda>i.
     rbind (lockedTaskForAgent db userID requiredAgentID i) (\<lambda>original.
     rbind (update_run_guard db requiredAgentID input original) (\<lambda>_.
     rbind (update_fields input original) (\<lambda>c1.
     rbind (update_list e db userID input c1) (\<lambda>(c2, moveChildren, sourceOrder, destinationOrder).
     rbind (update_status input allowWorking c2) (\<lambda>c3.
     rbind (update_assignment e db userID input original c3) (\<lambda>current.
     rbind (case quota of None \<Rightarrow> Inr db
            | Some q \<Rightarrow> rbind (quota_apply db q 0 (taskContentBytes current - taskContentBytes original)) (\<lambda>(d, _). Inr d)) (\<lambda>db1.
     rbind (update_active_check db1 userID original current) (\<lambda>_.
     rbind (write_task db1 now userID i current) (\<lambda>(db2, task).
     rbind (if moveChildren then updateChildTaskLocations db2 now (tID task) (bucket_with_id (tBucketID task))
            else Inr db2) (\<lambda>db3.
     rbind (writeTaskOrder db3 sourceOrder) (\<lambda>db4.
     rbind (writeTaskOrder db4 destinationOrder) (\<lambda>db5.
     Inr (db5, task)))))))))))))))"

definition UpdateTask :: "env \<Rightarrow> db \<Rightarrow> int \<Rightarrow> string \<Rightarrow> string \<Rightarrow> UpdateTaskInput \<Rightarrow> Task tx" where
  "UpdateTask e db now userID taskID input = updateTask e db now userID [] taskID input False"

definition UpdateTaskForHuman :: "env \<Rightarrow> db \<Rightarrow> int \<Rightarrow> string \<Rightarrow> string \<Rightarrow> UpdateTaskInput \<Rightarrow> Task tx" where
  "UpdateTaskForHuman e db now userID taskID input = updateTask e db now userID [] taskID input True"

definition UpdateTaskForAgent :: "env \<Rightarrow> db \<Rightarrow> int \<Rightarrow> string \<Rightarrow> string \<Rightarrow> string \<Rightarrow> UpdateTaskInput \<Rightarrow> Task tx" where
  "UpdateTaskForAgent e db now userID agentID taskID input =
     (if uiBucketID input \<noteq> None \<or> uiSortOrder input \<noteq> None \<or> uiAssigneeAgentID input \<noteq> None
      then Inl ErrAgentTaskScope
      else updateTask e db now userID agentID taskID input False)"

subsection \<open>claimTask\<close>

text \<open>The trigger \<open>tasks_record_updated_run_start\<close>.\<close>

definition record_run_start :: "int \<Rightarrow> task_row \<Rightarrow> task_row \<Rightarrow> run_start_row list \<Rightarrow> run_start_row list" where
  "record_run_start now old new starts =
     (case tk_run new of
        None \<Rightarrow> starts
      | Some run \<Rightarrow>
          if tk_run old = Some run \<or> list_ex (\<lambda>s. rs_owner s = tk_owner new \<and> rs_run s = run) starts then starts
          else starts @ [\<lparr>rs_owner = tk_owner new, rs_run = run, rs_task = Some (tk_id new), rs_started = now\<rparr>])"

definition set_claimed :: "int \<Rightarrow> string option \<Rightarrow> task_row \<Rightarrow> task_row" where
  "set_claimed now run t =
     track_completion now t (t\<lparr>tk_status := StatusWorking, tk_review := [], tk_run := run, tk_updated := now\<rparr>)"

definition claimTask :: "env \<Rightarrow> db \<Rightarrow> int \<Rightarrow> string \<Rightarrow> string \<Rightarrow> string \<Rightarrow> string \<Rightarrow> Task tx" where
  "claimTask e db now userID agentID taskID runID =
     rbind (uuid_arg e taskID) (\<lambda>i.
     rbind (if runID = [] then Inr None else rbind (uuid_arg e runID) (\<lambda>r. Inr (Some r))) (\<lambda>run.
     let claimable = (\<lambda>t. tk_owner t = userID \<and> tk_id t = i \<and> tk_kind t = KindAction \<and> tk_status t = StatusQueued
           \<and> (agentID \<noteq> [] \<longrightarrow> tk_assignee t = Some agentID)) in
     rbind (query_row ErrTaskUnavailable claimable (tasks db)) (\<lambda>t.
     Inr (db\<lparr>tasks := update_where claimable (set_claimed now run) (tasks db),
             run_starts := record_run_start now t (set_claimed now run t) (run_starts db)\<rparr>,
          task_of_row (set_claimed now run t)))))"

definition ClaimTask :: "env \<Rightarrow> db \<Rightarrow> int \<Rightarrow> string \<Rightarrow> string \<Rightarrow> Task tx" where
  "ClaimTask e db now userID taskID = claimTask e db now userID [] taskID []"

definition ClaimTaskForAgent :: "env \<Rightarrow> db \<Rightarrow> int \<Rightarrow> string \<Rightarrow> string \<Rightarrow> string \<Rightarrow> Task tx" where
  "ClaimTaskForAgent e db now userID agentID taskID = claimTask e db now userID agentID taskID []"

definition ClaimTaskForManagedRun :: "env \<Rightarrow> db \<Rightarrow> int \<Rightarrow> string \<Rightarrow> string \<Rightarrow> string \<Rightarrow> string \<Rightarrow> Task tx" where
  "ClaimTaskForManagedRun e db now userID agentID taskID runID =
     rbind (require (validUUID runID) (ErrInvalidData ''run ID must be a valid ID'')) (\<lambda>_.
     claimTask e db now userID agentID taskID runID)"

subsection \<open>DeleteTask\<close>

definition DeleteTask :: "env \<Rightarrow> db \<Rightarrow> string \<Rightarrow> string \<Rightarrow> unit tx" where
  "DeleteTask e db userID taskID =
     rbind (lockStorageQuota db userID) (\<lambda>(db1, q).
     rbind (uuid_arg e taskID) (\<lambda>i.
     rbind (lockedTask db1 userID i) (\<lambda>task.
     let usage = lockedTaskStorage db1 (\<lambda>t. tk_id t = tID task \<or> tk_parent t = Some (tID task)) in
     rbind (quota_apply db1 q (- u_Tasks usage) (- u_ContentBytes usage)) (\<lambda>(db2, _).
     Inr (delete_tasks db2 (\<lambda>t. tk_id t = tID task), ())))))"

subsection \<open>Reordering\<close>

fun reorder_tasks :: "env \<Rightarrow> db \<Rightarrow> int \<Rightarrow> string \<Rightarrow> string \<Rightarrow> int \<Rightarrow> string list \<Rightarrow> (store_error, db) result" where
  "reorder_tasks e db now userID bucketID i [] = Inr db"
| "reorder_tasks e db now userID bucketID i (taskID # ids) =
     rbind (require (fits_int4 i) (ErrDB IntegerOutOfRange)) (\<lambda>_.
     rbind (uuid_arg e bucketID) (\<lambda>b.
     rbind (uuid_arg e taskID) (\<lambda>x.
     let hit = (\<lambda>t. tk_owner t = userID \<and> tk_bucket t = b \<and> tk_id t = x) in
     rbind (require (list_ex hit (tasks db)) ErrNotFound) (\<lambda>_.
     reorder_tasks e (db\<lparr>tasks := update_where hit (\<lambda>t. t\<lparr>tk_sort := i, tk_updated := now\<rparr>) (tasks db)\<rparr>)
       now userID bucketID (i + 1) ids))))"

definition ReorderTasks :: "env \<Rightarrow> db \<Rightarrow> int \<Rightarrow> string \<Rightarrow> string \<Rightarrow> string list \<Rightarrow> unit tx" where
  "ReorderTasks e db now userID bucketID ids =
     rbind (getBucket e db userID bucketID) (\<lambda>_.
     rbind (lockStorageQuota db userID) (\<lambda>(db1, _).
     rbind (reorder_tasks e db1 now userID bucketID 0 ids) (\<lambda>db2.
     Inr (db2, ()))))"

fun take_remaining :: "string list \<Rightarrow> string list \<Rightarrow> (store_error, unit) result" where
  "take_remaining remaining [] = Inr ()"
| "take_remaining remaining (i # ids) =
     (if i \<notin> set remaining then Inl (ErrInvalidData ''subtask order contains an unknown or duplicate task'')
      else take_remaining (filter (\<lambda>x. x \<noteq> i) remaining) ids)"

text \<open>
  The orders of the other lists a subtask was found in, written in some order: the lists
  share no task, so the order of these writes does not matter.
\<close>

fun write_orders :: "db \<Rightarrow> string list list \<Rightarrow> (store_error, db) result" where
  "write_orders db [] = Inr db"
| "write_orders db (ids # orders) = rbind (writeTaskOrder db ids) (\<lambda>db1. write_orders db1 orders)"

definition ReorderSubtasks :: "env \<Rightarrow> db \<Rightarrow> int \<Rightarrow> string \<Rightarrow> string \<Rightarrow> string list \<Rightarrow> unit tx" where
  "ReorderSubtasks e db0 now userID parentTaskID ids =
     rbind (lockStorageQuota db0 userID) (\<lambda>(db, _).
     rbind (uuid_arg e parentTaskID) (\<lambda>p.
     rbind (lockedTask db userID p) (\<lambda>parent.
     rbind (require (tParentTaskID parent = []) (ErrInvalidData ''subtasks cannot contain subtasks'')) (\<lambda>_.
     let children = filter (\<lambda>t. tk_parent t = Some (tID parent) \<and> tk_owner t = userID) (tasks db);
         currentIDs = task_ids (\<lambda>t. tk_parent t = Some (tID parent) \<and> tk_owner t = userID) (tasks db) in
     rbind (require (length ids = length currentIDs) (ErrInvalidData ''subtask order must include every subtask'')) (\<lambda>_.
     rbind (take_remaining currentIDs ids) (\<lambda>_.
     let otherBuckets = filter (\<lambda>b. b \<noteq> tBucketID parent) (remdups (map tk_bucket children));
         otherOrders = map (\<lambda>b. removeTaskIDs (orderedAllTaskIDs db b) currentIDs) otherBuckets;
         destinationOrder = removeTaskIDs (orderedAllTaskIDs db (tBucketID parent)) currentIDs in
     rbind (case index_of destinationOrder (tID parent) of None \<Rightarrow> Inl ErrNotFound | Some k \<Rightarrow> Inr (k + 1)) (\<lambda>insertAt.
     let repairedOrder = take insertAt destinationOrder @ ids @ drop insertAt destinationOrder in
     rbind (owner_trigger db (tBucketID parent)) (\<lambda>owner.
     let db1 = db\<lparr>tasks := update_where (\<lambda>t. tk_parent t = Some (tID parent) \<and> tk_owner t = userID
                        \<and> tk_bucket t \<noteq> tBucketID parent)
                  (\<lambda>t. t\<lparr>tk_bucket := tBucketID parent, tk_owner := owner, tk_updated := now\<rparr>) (tasks db)\<rparr> in
     rbind (write_orders db1 (otherOrders @ [repairedOrder])) (\<lambda>db2.
     Inr (db2, ()))))))))))"

subsection \<open>The pieces of an update\<close>

lemma bucket_with_id_simp [simp]: "bID (bucket_with_id i) = i"
  by (simp add: bucket_with_id_def)

lemma place_Nil [simp]: "place [] t = t"
  by (simp add: place_def)

lemma writeTaskOrder_Nil [simp]: "writeTaskOrder db [] = Inr db"
  by (simp add: writeTaskOrder_def positions_fit_def maxPostgresInteger_def)

lemma same_status [simp]: "c\<lparr>tStatus := tStatus c\<rparr> = (c :: Task)"
  by (cases c) simp

lemma applyTaskStatus_InrD:
  "applyTaskStatus c v w = Inr c' \<Longrightarrow> c' = c\<lparr>tStatus := tStatus c'\<rparr> \<and> validStatus (tStatus c')"
  by (auto simp: applyTaskStatus_def Let_def split: if_splits)

lemma update_fields_InrD:
  assumes "update_fields input c = Inr c'"
  shows "\<exists>date kind. c' = c\<lparr>tTitle := (case uiTitle input of None \<Rightarrow> tTitle c | Some v \<Rightarrow> clean v),
      tDescription := (case uiDescription input of None \<Rightarrow> tDescription c | Some v \<Rightarrow> v),
      tScheduledDate := date, tKind := kind\<rparr> \<and> (kind = tKind c \<or> validKind kind)"
  using assms unfolding update_fields_def
  by (elim rbind_elims) (auto split: option.splits if_splits)

lemma update_status_InrD:
  assumes "update_status input w c = Inr c'"
  shows "c' = c\<lparr>tStatus := tStatus c'\<rparr> \<and> (tStatus c' = tStatus c \<or> validStatus (tStatus c'))"
    and "uiStatus input = None \<Longrightarrow> uiDone input = None \<Longrightarrow> c' = c"
proof -
  from assms obtain x where x: "(case uiStatus input of None \<Rightarrow> Inr c | Some v \<Rightarrow> applyTaskStatus c v w) = Inr x"
    and c': "c' = x \<or> (\<exists>v. applyTaskStatus x v w = Inr c')"
    unfolding update_status_def by (elim rbind_elims) (auto simp: Let_def split: option.splits if_splits)
  have xc: "x = c\<lparr>tStatus := tStatus x\<rparr> \<and> (tStatus x = tStatus c \<or> validStatus (tStatus x))"
    using x by (auto split: option.splits dest: applyTaskStatus_InrD)
  from c' show "c' = c\<lparr>tStatus := tStatus c'\<rparr> \<and> (tStatus c' = tStatus c \<or> validStatus (tStatus c'))"
  proof
    assume "\<exists>v. applyTaskStatus x v w = Inr c'"
    then have "c' = x\<lparr>tStatus := tStatus c'\<rparr>" "validStatus (tStatus c')" by (auto dest: applyTaskStatus_InrD)
    moreover have "x\<lparr>tStatus := tStatus c'\<rparr> = c\<lparr>tStatus := tStatus c'\<rparr>"
      using arg_cong [OF conjunct1 [OF xc], of "tStatus_update (\<lambda>_. tStatus c')"] by simp
    ultimately show ?thesis by simp
  qed (use xc in simp)
  show "uiStatus input = None \<Longrightarrow> uiDone input = None \<Longrightarrow> c' = c"
    using assms by (simp add: update_status_def)
qed

lemma update_status_working:
  assumes "update_status input w c = Inr c'"
  shows "\<not> w \<longrightarrow> tStatus c' = StatusWorking \<longrightarrow> tStatus c = StatusWorking"
proof -
  have no: "tStatus y = StatusWorking \<Longrightarrow> \<not> w \<Longrightarrow> applyTaskStatus x v w \<noteq> Inr y" for x y v
    by (auto simp: applyTaskStatus_def Let_def split: if_splits)
  show ?thesis
    using assms no unfolding update_status_def
    by (elim rbind_elims) (auto simp: Let_def split: option.splits if_splits)
qed

lemma update_assignment_status_shape:
  "\<exists>s. update_assignment_status o' c = c\<lparr>tStatus := s\<rparr> \<and> (s = tStatus c \<or> validStatus s)
     \<and> (tAssigneeAgentID c \<noteq> [] \<longrightarrow> s \<noteq> StatusNew)
     \<and> (tAssigneeAgentID c = tAssigneeAgentID o' \<and> tStatus c \<noteq> StatusNew \<longrightarrow> s = tStatus c)
     \<and> (tAssigneeAgentID c = [] \<and> tAssigneeAgentID o' = [] \<longrightarrow> s = tStatus c)
     \<and> (s = StatusWorking \<longrightarrow> tStatus c = StatusWorking)"
proof -
  let ?s = "tStatus c" and ?a = "tAssigneeAgentID c" and ?b = "tAssigneeAgentID o'"
  have q: "update_assignment_status o' c = c\<lparr>tStatus := StatusQueued\<rparr>"
    if "?a \<noteq> []" "?a \<noteq> ?b \<and> (?s = StatusWorking \<or> ?s = StatusNeedsReview) \<or> ?s = StatusNew"
    using that by (elim disjE conjE) (simp_all add: update_assignment_status_def Let_def)
  have n: "update_assignment_status o' c = c\<lparr>tStatus := StatusNew\<rparr>" if "?a = []" "?a \<noteq> ?b" "?s = StatusQueued"
    using that by (simp add: update_assignment_status_def)
  have k: "update_assignment_status o' c = c"
    if "\<not> (?a \<noteq> [] \<and> (?a \<noteq> ?b \<and> (?s = StatusWorking \<or> ?s = StatusNeedsReview) \<or> ?s = StatusNew))"
      "\<not> (?a = [] \<and> ?a \<noteq> ?b \<and> ?s = StatusQueued)"
  proof (cases "?a = []")
    case True
    then have "?a = ?b \<or> ?s \<noteq> StatusQueued" using that(2) by blast
    then show ?thesis using True by (elim disjE) (simp_all add: update_assignment_status_def)
  next
    case False
    then have "?s \<noteq> StatusNew" "?a = ?b \<or> ?s \<noteq> StatusWorking \<and> ?s \<noteq> StatusNeedsReview" using that(1) by blast+
    then show ?thesis using False by (elim disjE conjE) (simp_all add: update_assignment_status_def)
  qed
  have v: "validStatus StatusQueued" "validStatus StatusNew" by (simp_all add: validStatus_def)
  consider "?a \<noteq> []" "?a \<noteq> ?b \<and> (?s = StatusWorking \<or> ?s = StatusNeedsReview) \<or> ?s = StatusNew"
    | "?a = []" "?a \<noteq> ?b" "?s = StatusQueued"
    | "\<not> (?a \<noteq> [] \<and> (?a \<noteq> ?b \<and> (?s = StatusWorking \<or> ?s = StatusNeedsReview) \<or> ?s = StatusNew))"
      "\<not> (?a = [] \<and> ?a \<noteq> ?b \<and> ?s = StatusQueued)"
    by blast
  then show ?thesis
  proof cases
    case 1
    then show ?thesis using v(1) by (intro exI [of _ StatusQueued]) (auto simp: q)
  next
    case 2
    then show ?thesis using v(2) by (intro exI [of _ StatusNew]) (auto simp: n)
  next
    case 3
    have "?a \<noteq> [] \<longrightarrow> ?s \<noteq> StatusNew" using 3(1) by blast
    then show ?thesis by (intro exI [of _ ?s]) (simp add: k [OF 3])
  qed
qed

lemma update_assignment_InrD:
  assumes "update_assignment e db u input o' c = Inr c'"
  obtains p s a where "c' = c\<lparr>tPriority := p, tSortOrder := (case uiSortOrder input of None \<Rightarrow> tSortOrder c | Some v \<Rightarrow> v),
      tAssigneeAgentID := a, tStatus := s\<rparr>"
    "p = tPriority c \<or> validPriority p" "s = tStatus c \<or> validStatus s" "a \<noteq> [] \<longrightarrow> s \<noteq> StatusNew"
    "a = tAssigneeAgentID o' \<and> tStatus c \<noteq> StatusNew \<longrightarrow> s = tStatus c"
    "a = [] \<and> tAssigneeAgentID o' = [] \<longrightarrow> s = tStatus c" "s = StatusWorking \<longrightarrow> tStatus c = StatusWorking" "tTitle c \<noteq> []"
    "uiAssigneeAgentID input = None \<longrightarrow> a = tAssigneeAgentID c"
    "a = tAssigneeAgentID c \<or> a = [] \<or> (\<exists>g \<in> set (agent_rows db). ag_id g = a \<and> ag_owner g = u)"
proof -
  let ?pos = "case uiSortOrder input of None \<Rightarrow> tSortOrder c | Some v \<Rightarrow> v"
  from assms obtain p a where p: "(case uiPriority input of None \<Rightarrow> Inr (tPriority c)
        | Some v \<Rightarrow> if validPriority (clean v) then Inr (clean v) else Inl (ErrInvalidData ''invalid priority'')) = Inr p"
    and a: "(case uiAssigneeAgentID input of None \<Rightarrow> Inr (tAssigneeAgentID c)
        | Some v \<Rightarrow> activeAgentAssignment e db u v) = Inr a"
    and c': "c' = update_assignment_status o' (c\<lparr>tPriority := p, tSortOrder := ?pos, tAssigneeAgentID := a\<rparr>)"
    and title: "tTitle c' \<noteq> []"
    unfolding update_assignment_def Let_def by (elim rbind_elims) (rule that, assumption+, auto)
  let ?c = "c\<lparr>tPriority := p, tSortOrder := ?pos, tAssigneeAgentID := a\<rparr>"
  obtain s where s0: "c' = ?c\<lparr>tStatus := s\<rparr>" "s = tStatus ?c \<or> validStatus s" "tAssigneeAgentID ?c \<noteq> [] \<longrightarrow> s \<noteq> StatusNew"
      "tAssigneeAgentID ?c = tAssigneeAgentID o' \<and> tStatus ?c \<noteq> StatusNew \<longrightarrow> s = tStatus ?c"
      "tAssigneeAgentID ?c = [] \<and> tAssigneeAgentID o' = [] \<longrightarrow> s = tStatus ?c" "s = StatusWorking \<longrightarrow> tStatus ?c = StatusWorking"
    using update_assignment_status_shape [of o' ?c] unfolding c' [symmetric] by (elim exE conjE) (rule that)
  have s: "c' = c\<lparr>tPriority := p, tSortOrder := ?pos, tAssigneeAgentID := a, tStatus := s\<rparr>" by (simp add: s0(1))
  have t: "tStatus ?c = tStatus c" "tAssigneeAgentID ?c = a" by simp_all
  have title': "tTitle c \<noteq> []" using title unfolding s by simp
  have p': "p = tPriority c \<or> validPriority p" using p by (auto split: option.splits if_splits)
  have a': "a = tAssigneeAgentID c \<or> a = [] \<or> (\<exists>g \<in> set (agent_rows db). ag_id g = a \<and> ag_owner g = u)"
    using a by (auto split: option.splits dest!: activeAgentAssignment_InrD)
  have "uiAssigneeAgentID input = None \<longrightarrow> a = tAssigneeAgentID c" using a by auto
  then show thesis by (rule that [OF s p' s0(2-) [unfolded t] title' _ a'])
qed

subsection \<open>Row by row updates\<close>

text \<open>
  The rows of the tasks table are rewritten in place by \<open>f\<close>; only the row \<open>c\<close> may change
  its size, and the counters of its account follow.
\<close>

lemma tasks_map_inv:
  assumes inv: "store_inv db"
    and frame: "users db' = users db" "agent_rows db' = agent_rows db" "buckets db' = buckets db"
      "entries db' = entries db" "idem_keys db' = idem_keys db" "tasks db' = map f (tasks db)"
    and same: "\<And>t. t \<in> set (tasks db) \<Longrightarrow> tk_id (f t) = tk_id t \<and> tk_parent (f t) = tk_parent t \<and> tk_owner (f t) = tk_owner t"
    and ok: "\<And>t. t \<in> set (tasks db) \<Longrightarrow> task_row_ok (f t) \<and> assigned_ok db (f t)"
    and owner: "\<And>t. t \<in> set (tasks db) \<Longrightarrow> list_owner db (tk_bucket (f t)) = Some (tk_owner t)"
    and child: "\<And>t q. t \<in> set (tasks db) \<Longrightarrow> q \<in> set (tasks db) \<Longrightarrow> tk_parent t = Some (tk_id q) \<Longrightarrow>
      tk_bucket (f t) = tk_bucket (f q)"
    and c: "c \<in> set (tasks db)"
    and bytes: "\<And>t. t \<in> set (tasks db) \<Longrightarrow> t \<noteq> c \<Longrightarrow> storage_bytes (f t) = storage_bytes t"
    and usage: "\<And>v. usage_of db' v = (if v = tk_owner c
        then moved_usage (usage_of db v) 0 (storage_bytes (f c) - storage_bytes c) else usage_of db v)"
  shows "store_inv db'"
proof -
  have s: "structure_ok db" and a: "accounting_ok db" using inv by (simp_all add: store_inv_def)
  have upd: "tasks_updated db (\<lambda>t. tk_bucket (f t)) (map f (tasks db))"
    using same ok by (simp add: tasks_updated_def list_all2_map2 list_all2_same same_task_def)
  have "structure_ok (db\<lparr>tasks := map f (tasks db)\<rparr>)"
    by (rule structure_tasks_updated [OF s upd]) (use owner child in auto)
  then have "structure_ok db'" by (rule structure_cong) (simp_all add: frame)
  moreover have "accounting_ok db'"
  proof (rule accounting_moved [OF a])
    show "usage_of db' v = (if v = tk_owner c
        then moved_usage (usage_of db v) 0 (storage_bytes (f c) - storage_bytes c) else usage_of db v)" for v
      by (rule usage)
    show "stored_tasks_of db' v = stored_tasks_of db v + (if v = tk_owner c then 0 else 0)" for v
      using stored_tasks_updated [of db "map f (tasks db)" v] same
      by (simp add: stored_tasks_of_def frame list_all2_map2 list_all2_same)
    have sum: "sum_where (\<lambda>t. tk_owner t = v) (content_bytes es) (map f ts) =
        sum_where (\<lambda>t. tk_owner t = v) (content_bytes es) ts
        + (if c \<in> set ts \<and> v = tk_owner c then storage_bytes (f c) - storage_bytes c else 0)"
      if "set ts \<subseteq> set (tasks db)" "distinct ts" for ts v es
      using that
    proof (induction ts)
      case (Cons x ts)
      then show ?case using same [of x] bytes [of x] by (cases "x = c") (auto simp: content_bytes_def)
    qed simp
    have "distinct (tasks db)" using s by (simp add: structure_defs distinct_map)
    then show "stored_bytes_of db' v = stored_bytes_of db v
        + (if v = tk_owner c then storage_bytes (f c) - storage_bytes c else 0)" for v
      using sum [of "tasks db" v "entries db"] c by (simp add: stored_bytes_of_def frame)
  qed
  ultimately show ?thesis by (simp add: store_inv_def)
qed

text \<open>The same when no row changes its size.\<close>

lemma tasks_map_inv_same:
  assumes inv: "store_inv db"
    and frame: "users db' = users db" "agent_rows db' = agent_rows db" "buckets db' = buckets db"
      "entries db' = entries db" "idem_keys db' = idem_keys db" "tasks db' = map f (tasks db)"
    and same: "\<And>t. t \<in> set (tasks db) \<Longrightarrow> tk_id (f t) = tk_id t \<and> tk_parent (f t) = tk_parent t \<and> tk_owner (f t) = tk_owner t
      \<and> tk_bucket (f t) = tk_bucket t \<and> tk_assignee (f t) = tk_assignee t \<and> storage_bytes (f t) = storage_bytes t"
    and ok: "\<And>t. t \<in> set (tasks db) \<Longrightarrow> task_row_ok (f t)"
    and usage: "\<And>v. usage_of db' v = usage_of db v"
  shows "store_inv db'"
proof (cases "tasks db")
  case Nil
  then have "structure_ok db'" using inv by (intro structure_cong [of db db']) (simp_all add: store_inv_def frame)
  moreover have "accounting_ok db'"
    by (rule accounting_unmoved [of db]) (use inv Nil in \<open>simp_all add: store_inv_def stored_of_cong [of db' db] frame usage\<close>)
  ultimately show ?thesis by (simp add: store_inv_def)
next
  case (Cons c ts)
  then have c: "c \<in> set (tasks db)" by simp
  have s: "structure_ok db" using inv by (simp add: store_inv_def)
  show ?thesis
  proof (rule tasks_map_inv [OF inv frame])
    show "tk_bucket (f t) = tk_bucket (f q)" if t: "t \<in> set (tasks db)" "q \<in> set (tasks db)" "tk_parent t = Some (tk_id q)" for t q
      using s t(1,3)
    proof (rule task_parentD)
      fix q' assume "q' \<in> set (tasks db)" "tk_id q' = tk_id q" "tk_bucket q' = tk_bucket t"
      then show ?thesis using task_idD [OF s _ t(2), of q'] same t(1,2) by auto
    qed
    show "task_row_ok (f t) \<and> assigned_ok db (f t)" if t: "t \<in> set (tasks db)" for t
      using ok [OF t] same [OF t] task_assignedD [OF s t] by (simp add: assigned_ok_def)
    show "list_owner db (tk_bucket (f t)) = Some (tk_owner t)" if t: "t \<in> set (tasks db)" for t
      using same [OF t] task_ownerD [OF s t] by simp
    show "c \<in> set (tasks db)" by (rule c)
    show "usage_of db' v = (if v = tk_owner c
        then moved_usage (usage_of db v) 0 (storage_bytes (f c) - storage_bytes c) else usage_of db v)" for v
      using same [OF c] by (simp add: usage moved_usage_def)
  qed (use same in simp_all)
qed

subsection \<open>Claims\<close>

lemma set_claimed_fields [simp]:
  "tk_id (set_claimed now r t) = tk_id t" "tk_parent (set_claimed now r t) = tk_parent t"
  "tk_owner (set_claimed now r t) = tk_owner t" "tk_bucket (set_claimed now r t) = tk_bucket t"
  "tk_assignee (set_claimed now r t) = tk_assignee t" "storage_bytes (set_claimed now r t) = storage_bytes t"
  "tk_status (set_claimed now r t) = StatusWorking" "tk_run (set_claimed now r t) = r"
  by (simp_all add: set_claimed_def storage_bytes_def)

lemma set_claimed_ok:
  assumes "task_row_ok t" "tk_status t = StatusQueued" shows "task_row_ok (set_claimed now r t)"
  using assms by (auto simp: task_row_ok_def set_claimed_def track_completion_def validStatus_def)

lemma claimTask_InrE:
  assumes "claimTask e db now u agent taskID runID = Inr (db', x)"
  obtains t run where "uuid_in e taskID = Some (tk_id t)" "t \<in> set (tasks db)" "tk_owner t = u" "tk_kind t = KindAction"
    "tk_status t = StatusQueued" "agent \<noteq> [] \<longrightarrow> tk_assignee t = Some agent"
    "runID = [] \<and> run = None \<or> runID \<noteq> [] \<and> run = uuid_in e runID \<and> run \<noteq> None"
    "db' = db\<lparr>tasks := map (\<lambda>y. if tk_owner y = u \<and> tk_id y = tk_id t \<and> tk_kind y = KindAction \<and> tk_status y = StatusQueued
           \<and> (agent \<noteq> [] \<longrightarrow> tk_assignee y = Some agent) then set_claimed now run y else y) (tasks db),
        run_starts := record_run_start now t (set_claimed now run t) (run_starts db)\<rparr>"
    "x = task_of_row (set_claimed now run t)"
  using assms unfolding claimTask_def Let_def
proof (elim rbind_elims)
  fix i run t
  let ?P = "\<lambda>t. tk_owner t = u \<and> tk_id t = i \<and> tk_kind t = KindAction \<and> tk_status t = StatusQueued
           \<and> (agent \<noteq> [] \<longrightarrow> tk_assignee t = Some agent)"
  assume i: "uuid_arg e taskID = Inr i" and run: "(if runID = [] then Inr None else rbind (uuid_arg e runID) (\<lambda>r. Inr (Some r))) = Inr run"
    and t: "query_row ErrTaskUnavailable ?P (tasks db) = Inr t"
    and fin: "Inr (db\<lparr>tasks := update_where ?P (set_claimed now run) (tasks db),
             run_starts := record_run_start now t (set_claimed now run t) (run_starts db)\<rparr>,
          task_of_row (set_claimed now run t)) = Inr (db', x)"
  have "runID = [] \<and> run = None \<or> runID \<noteq> [] \<and> run = uuid_in e runID \<and> run \<noteq> None"
    using run by (cases "runID = []") (auto simp: rbind_eq_Inr)
  then show thesis using that [of t run] i query_row_InrD [OF t] fin by (simp add: map_update_where_eq)
qed

lemma claimTask_inv:
  assumes inv: "store_inv db" and run: "claimTask e db now u agent taskID runID = Inr (db', x)"
  shows "store_inv db'"
  using run
proof (rule claimTask_InrE)
  fix t :: task_row and r
  let ?f = "\<lambda>y. if tk_owner y = u \<and> tk_id y = tk_id t \<and> tk_kind y = KindAction \<and> tk_status y = StatusQueued
           \<and> (agent \<noteq> [] \<longrightarrow> tk_assignee y = Some agent) then set_claimed now r y else y"
  assume db': "db' = db\<lparr>tasks := map ?f (tasks db),
        run_starts := record_run_start now t (set_claimed now r t) (run_starts db)\<rparr>"
  have s: "structure_ok db" using inv by (simp add: store_inv_def)
  show ?thesis
    using inv by (rule tasks_map_inv_same [where f = ?f])
      (use task_rowD [OF s] in \<open>auto simp: db' usage_of_def intro!: set_claimed_ok\<close>)
qed

subsection \<open>Deletion\<close>

lemma DeleteTask_InrE:
  assumes "DeleteTask e db u taskID = Inr (db', x)"
  obtains t limits d q where "t \<in> set (tasks db)" "tk_owner t = u" "uuid_in e taskID = Some (tk_id t)"
    "quota_apply (ensure_usage_row db u) \<lparr>q_userID = u, q_limits = limits, q_usage = usage_of db u\<rparr>
       (- u_Tasks (lockedTaskStorage (ensure_usage_row db u) (\<lambda>y. tk_id y = tk_id t \<or> tk_parent y = Some (tk_id t))))
       (- u_ContentBytes (lockedTaskStorage (ensure_usage_row db u) (\<lambda>y. tk_id y = tk_id t \<or> tk_parent y = Some (tk_id t))))
       = Inr (d, q)"
    "db' = delete_tasks d (\<lambda>y. tk_id y = tk_id t)"
proof -
  let ?db = "ensure_usage_row db u"
  let ?gone = "\<lambda>task. lockedTaskStorage ?db (\<lambda>y. tk_id y = tID task \<or> tk_parent y = Some (tID task))"
  from assms obtain limits i task d q where i: "uuid_in e taskID = Some i" and task: "lockedTask ?db u i = Inr task"
    and ap: "quota_apply ?db \<lparr>q_userID = u, q_limits = limits, q_usage = usage_of db u\<rparr>
       (- u_Tasks (?gone task)) (- u_ContentBytes (?gone task)) = Inr (d, q)"
    and db': "db' = delete_tasks d (\<lambda>y. tk_id y = tID task)"
    unfolding DeleteTask_def Let_def by (elim rbind_elims) (simp add: lockStorageQuota_eq_Inr, blast)
  obtain t where "t \<in> set (tasks db)" "tk_owner t = u" "tk_id t = i" "task = task_of_row t"
    using lockedTask_InrD [OF task] by auto
  then show thesis using that [of t limits d q] i ap db' by simp
qed

lemma lockedTaskStorage_cong:
  "(\<And>t. t \<in> set (tasks db) \<Longrightarrow> P t = Q t) \<Longrightarrow> lockedTaskStorage db P = lockedTaskStorage db Q"
  by (simp add: lockedTaskStorage_def cong: filter_cong)

lemma DeleteTask_inv:
  assumes inv: "store_inv db" and run: "DeleteTask e db u taskID = Inr (db', x)"
  shows "store_inv db'"
  using run
proof (rule DeleteTask_InrE)
  fix t :: task_row and limits d q
  let ?db = "ensure_usage_row db u" and ?P = "\<lambda>y. tk_id y = tk_id t"
  assume t: "t \<in> set (tasks db)" "tk_owner t = u" and ap: "quota_apply ?db \<lparr>q_userID = u, q_limits = limits, q_usage = usage_of db u\<rparr>
       (- u_Tasks (lockedTaskStorage ?db (\<lambda>y. tk_id y = tk_id t \<or> tk_parent y = Some (tk_id t))))
       (- u_ContentBytes (lockedTaskStorage ?db (\<lambda>y. tk_id y = tk_id t \<or> tk_parent y = Some (tk_id t)))) = Inr (d, q)"
    and db': "db' = delete_tasks d ?P"
  have s: "structure_ok ?db" and a: "accounting_ok ?db" using inv by (simp_all add: store_inv_def)
  have t1: "t \<in> set (tasks ?db)" using t by simp
  have "lockedTaskStorage ?db (\<lambda>y. tk_id y = tk_id t \<or> tk_parent y = Some (tk_id t)) =
      lockedTaskStorage ?db (cascade_tasks (tasks ?db) ?P)"
    using t cascade_iff [OF s] by (intro lockedTaskStorage_cong) auto
  note ap' = ap [unfolded this]
  have own: "tk_owner y = u" if "y \<in> set (tasks ?db)" "?P y" for y
    using task_idD [OF s that(1) t1] that t by simp
  have "accounting_ok (delete_tasks d ?P)"
    by (rule accounting_delete [OF s a own _ _ _ ap']) simp_all
  moreover have "structure_ok d"
    using s by (rule structure_cong) (simp_all add: quota_apply_frame [OF ap])
  then have "structure_ok (delete_tasks d ?P)" by (rule structure_delete_tasks)
  ultimately show ?thesis by (simp add: db' store_inv_def)
qed

subsection \<open>Reordering keeps the invariant\<close>

lemma reorder_tasks_inv:
  assumes "reorder_tasks e db now u b i ids = Inr db'" "store_inv db"
  shows "store_inv db' \<and> buckets db' = buckets db"
  using assms
proof (induction ids arbitrary: db i)
  case (Cons x ids)
  from Cons.prems(1) obtain b' x' where fit: "fits_int4 i"
    and rest: "reorder_tasks e (db\<lparr>tasks := map (\<lambda>t. if tk_owner t = u \<and> tk_bucket t = b' \<and> tk_id t = x'
       then t\<lparr>tk_sort := i, tk_updated := now\<rparr> else t) (tasks db)\<rparr>) now u b (i + 1) ids = Inr db'"
    unfolding reorder_tasks.simps Let_def by (elim rbind_elims) (auto simp: map_update_where_eq)
  have s: "structure_ok db" using Cons.prems(2) by (simp add: store_inv_def)
  let ?f = "\<lambda>t. if tk_owner t = u \<and> tk_bucket t = b' \<and> tk_id t = x' then t\<lparr>tk_sort := i, tk_updated := now\<rparr> else t"
  have "store_inv (db\<lparr>tasks := map ?f (tasks db)\<rparr>)"
    using Cons.prems(2) by (rule tasks_map_inv_same [where f = ?f])
      (use task_rowD [OF s] fit in \<open>auto simp: task_row_ok_def storage_bytes_def usage_of_def\<close>)
  from Cons.IH [OF rest this] show ?case by simp
qed simp

lemma ReorderTasks_inv:
  assumes "store_inv db" "ReorderTasks e db now u b ids = Inr (db', x)"
  shows "store_inv db'"
  using assms(2) unfolding ReorderTasks_def
  by (elim rbind_elims) (auto simp: lockStorageQuota_eq_Inr assms(1) dest: reorder_tasks_inv)

subsection \<open>Updates keep the invariant\<close>

lemma update_list_InrD:
  assumes s: "structure_ok db" and t: "t \<in> set (tasks db)"
    and c: "tID c = tk_id t" "tParentTaskID c = null_text (tk_parent t)" "tBucketID c = tk_bucket t"
    and run: "update_list e db u input c = Inr (c', mv, src, dst)"
  shows "c' = c \<and> \<not> mv \<and> src = [] \<and> dst = [] \<or>
    (\<exists>r \<in> set (buckets db). bk_user r = u \<and> uiBucketID input \<noteq> None \<and> uiSortOrder input = None
       \<and> c' = c\<lparr>tBucketID := bk_id r, tSortOrder := 0\<rparr> \<and> mv \<and> tk_parent t = None
       \<and> src = removeTaskIDs (orderedTaskIDs db (tk_bucket t) (tk_id t)) (orderedChildTaskIDs db (tk_id t))
       \<and> dst = insertTaskIDs (removeTaskIDs (orderedTaskIDs db (bk_id r) (tk_id t)) (orderedChildTaskIDs db (tk_id t)))
           (tk_id t # orderedChildTaskIDs db (tk_id t)) 0)"
proof (cases "uiBucketID input = None \<or> uiBucketID input = Some (tBucketID c)")
  case True
  then show ?thesis using run by (auto simp: update_list_def)
next
  case False
  then obtain b where b: "uiBucketID input = Some b" "b \<noteq> tBucketID c" by auto
  from run b obtain x bucket where sort0: "uiSortOrder input = None"
    and parent: "(if tParentTaskID c \<noteq> [] then rbind (lockedTask db u (tParentTaskID c)) (\<lambda>parent.
        require (tBucketID parent = b) (ErrInvalidData ''a subtask must stay in its parent list'')) else Inr ()) = Inr ()"
    and bucket: "lockedBucket db u x = Inr bucket"
    and res: "c' = c\<lparr>tBucketID := bID bucket, tSortOrder := 0\<rparr>" "mv = (tParentTaskID c = [])"
      "src = removeTaskIDs (orderedTaskIDs db (tk_bucket t) (tk_id t)) (orderedChildTaskIDs db (tk_id t))"
      "dst = insertTaskIDs (removeTaskIDs (orderedTaskIDs db (bID bucket) (tk_id t)) (orderedChildTaskIDs db (tk_id t)))
           (tk_id t # orderedChildTaskIDs db (tk_id t)) 0"
    unfolding update_list_def Let_def by (simp add: c) (elim rbind_elims, auto simp: c)
  obtain r where r: "r \<in> set (buckets db)" "bk_user r = u" "bID bucket = bk_id r"
    using lockedBucket_InrD [OF bucket] by auto
  have "tk_parent t = None"
  proof (cases "tk_parent t")
    case (Some p)
    with s t obtain q where q: "q \<in> set (tasks db)" "tk_id q = p" "tk_bucket q = tk_bucket t" by (elim task_parentD)
    then have "p \<noteq> []" using task_id_nonempty [OF s] by auto
    then obtain q' where "q' \<in> set (tasks db)" "tk_id q' = p" "tk_bucket q' = b"
      using parent Some c by (auto elim!: rbind_elims dest!: lockedTask_InrD)
    then show ?thesis using task_idD [OF s q(1)] q b c by auto
  qed
  then show ?thesis using r b(1) res sort0 c by auto
qed

lemma update_current:
  assumes s: "structure_ok db" and t: "t \<in> set (tasks db)" "tk_owner t = u"
    and f: "update_fields input (task_of_row t) = Inr c1"
    and l: "update_list e db u input c1 = Inr (c2, mv, src, dst)"
    and st: "update_status input w c2 = Inr c3"
    and a: "update_assignment e db u input (task_of_row t) c3 = Inr c"
  shows "tID c = tk_id t" "tTitle c = (case uiTitle input of None \<Rightarrow> tk_title t | Some v \<Rightarrow> clean v)"
    "tDescription c = (case uiDescription input of None \<Rightarrow> tk_description t | Some v \<Rightarrow> v)"
    "tTitle c \<noteq> []" "validKind (tKind c)" "validStatus (tStatus c)" "validPriority (tPriority c)"
    "tAssigneeAgentID c \<noteq> [] \<longrightarrow> tStatus c \<noteq> StatusNew"
    "tAssigneeAgentID c = null_text (tk_assignee t) \<or> tAssigneeAgentID c = [] \<or>
       (\<exists>g \<in> set (agent_rows db). ag_id g = tAssigneeAgentID c \<and> ag_owner g = u)"
    "tBucketID c = tk_bucket t \<and> \<not> mv \<and> src = [] \<and> dst = [] \<or>
     (\<exists>r \<in> set (buckets db). bk_user r = u \<and> uiBucketID input \<noteq> None \<and> uiSortOrder input = None
        \<and> tBucketID c = bk_id r \<and> tSortOrder c = 0 \<and> mv \<and> tk_parent t = None
        \<and> src = removeTaskIDs (orderedTaskIDs db (tk_bucket t) (tk_id t)) (orderedChildTaskIDs db (tk_id t))
        \<and> dst = insertTaskIDs (removeTaskIDs (orderedTaskIDs db (bk_id r) (tk_id t)) (orderedChildTaskIDs db (tk_id t)))
            (tk_id t # orderedChildTaskIDs db (tk_id t)) 0)"
    "uiSortOrder input = None \<and> \<not> mv \<longrightarrow> tSortOrder c = tk_sort t"
    "uiAssigneeAgentID input = None \<longrightarrow> tAssigneeAgentID c = null_text (tk_assignee t)"
    "uiStatus input = None \<and> uiDone input = None \<and> uiAssigneeAgentID input = None \<longrightarrow> tStatus c = tk_status t"
    "\<not> w \<longrightarrow> tStatus c = StatusWorking \<longrightarrow> tk_status t = StatusWorking"
proof -
  note row = task_rowD [OF s t(1)]
  obtain date kind where c1: "c1 = (task_of_row t)\<lparr>tTitle := (case uiTitle input of None \<Rightarrow> tk_title t | Some v \<Rightarrow> clean v),
      tDescription := (case uiDescription input of None \<Rightarrow> tk_description t | Some v \<Rightarrow> v),
      tScheduledDate := date, tKind := kind\<rparr>" and k: "kind = tk_kind t \<or> validKind kind"
    using update_fields_InrD [OF f] unfolding task_of_row_simps by blast
  have kind: "validKind kind" using k row by (auto simp: task_row_ok_def)
  have "tID c1 = tk_id t" "tParentTaskID c1 = null_text (tk_parent t)" "tBucketID c1 = tk_bucket t"
    by (simp_all add: c1)
  note ul = update_list_InrD [OF s t(1) this l]
  have c2: "tID c2 = tID c1" "tTitle c2 = tTitle c1" "tDescription c2 = tDescription c1" "tKind c2 = tKind c1"
    "tStatus c2 = tStatus c1" "tPriority c2 = tPriority c1" "tAssigneeAgentID c2 = tAssigneeAgentID c1"
    using ul by auto
  obtain s3 where c3: "c3 = c2\<lparr>tStatus := s3\<rparr>" and s3: "s3 = tStatus c2 \<or> validStatus s3"
    using update_status_InrD(1) [OF st] by blast
  have v3: "validStatus s3" using s3 row c2 by (auto simp: task_row_ok_def c1)
  from a obtain p s4 g where c: "c = c3\<lparr>tPriority := p, tSortOrder := (case uiSortOrder input of None \<Rightarrow> tSortOrder c3 | Some v \<Rightarrow> v),
      tAssigneeAgentID := g, tStatus := s4\<rparr>" and p: "p = tPriority c3 \<or> validPriority p"
    and s4: "s4 = tStatus c3 \<or> validStatus s4" "g \<noteq> [] \<longrightarrow> s4 \<noteq> StatusNew"
    and s5: "g = tAssigneeAgentID (task_of_row t) \<and> tStatus c3 \<noteq> StatusNew \<longrightarrow> s4 = tStatus c3"
    and s6: "g = [] \<and> tAssigneeAgentID (task_of_row t) = [] \<longrightarrow> s4 = tStatus c3"
    and s7: "s4 = StatusWorking \<longrightarrow> tStatus c3 = StatusWorking" and title: "tTitle c3 \<noteq> []"
    and g0: "uiAssigneeAgentID input = None \<longrightarrow> g = tAssigneeAgentID c3"
    and g: "g = tAssigneeAgentID c3 \<or> g = [] \<or> (\<exists>x \<in> set (agent_rows db). ag_id x = g \<and> ag_owner x = u)"
    by (rule update_assignment_InrD) (rule that, assumption+)
  show "tID c = tk_id t" "tTitle c = (case uiTitle input of None \<Rightarrow> tk_title t | Some v \<Rightarrow> clean v)"
    "tDescription c = (case uiDescription input of None \<Rightarrow> tk_description t | Some v \<Rightarrow> v)"
    by (simp_all add: c c3 c2 c1)
  show "tTitle c \<noteq> []" "validKind (tKind c)" "validStatus (tStatus c)" "validPriority (tPriority c)"
    "tAssigneeAgentID c \<noteq> [] \<longrightarrow> tStatus c \<noteq> StatusNew"
    using title s4 v3 p row kind by (auto simp: c c3 c2 c1 task_row_ok_def)
  show "tAssigneeAgentID c = null_text (tk_assignee t) \<or> tAssigneeAgentID c = [] \<or>
       (\<exists>g \<in> set (agent_rows db). ag_id g = tAssigneeAgentID c \<and> ag_owner g = u)"
    using g by (simp add: c c3 c2 c1)
  show "tBucketID c = tk_bucket t \<and> \<not> mv \<and> src = [] \<and> dst = [] \<or>
     (\<exists>r \<in> set (buckets db). bk_user r = u \<and> uiBucketID input \<noteq> None \<and> uiSortOrder input = None
        \<and> tBucketID c = bk_id r \<and> tSortOrder c = 0 \<and> mv \<and> tk_parent t = None
        \<and> src = removeTaskIDs (orderedTaskIDs db (tk_bucket t) (tk_id t)) (orderedChildTaskIDs db (tk_id t))
        \<and> dst = insertTaskIDs (removeTaskIDs (orderedTaskIDs db (bk_id r) (tk_id t)) (orderedChildTaskIDs db (tk_id t)))
            (tk_id t # orderedChildTaskIDs db (tk_id t)) 0)"
    using ul by (elim disjE bexE conjE) (simp_all add: c c3 c1, blast)
  show "uiSortOrder input = None \<and> \<not> mv \<longrightarrow> tSortOrder c = tk_sort t"
    using ul by (auto simp: c c3 c1)
  show as: "uiAssigneeAgentID input = None \<longrightarrow> tAssigneeAgentID c = null_text (tk_assignee t)"
    using g0 by (simp add: c c3 c2 c1)
  have new: "null_text (tk_assignee t) \<noteq> [] \<longrightarrow> tk_status t \<noteq> StatusNew"
    using row by (cases "tk_assignee t") (simp_all add: task_row_ok_def)
  show "uiStatus input = None \<and> uiDone input = None \<and> uiAssigneeAgentID input = None \<longrightarrow> tStatus c = tk_status t"
  proof
    assume n: "uiStatus input = None \<and> uiDone input = None \<and> uiAssigneeAgentID input = None"
    then have "c3 = c2" using update_status_InrD(2) [OF st] by simp
    then have "tStatus c3 = tk_status t" by (simp add: c2 c1)
    moreover have "g = null_text (tk_assignee t)" using n g0 by (simp add: c3 c2 c1)
    ultimately have "s4 = tk_status t" using s4 s5 s6 new by fastforce
    then show "tStatus c = tk_status t" by (simp add: c)
  qed
  show "\<not> w \<longrightarrow> tStatus c = StatusWorking \<longrightarrow> tk_status t = StatusWorking"
    using update_status_working [OF st] s7 by (simp add: c c2 c1)
qed

lemma set_task_fields [simp]:
  "tk_id (set_task now w d c t) = tk_id t" "tk_parent (set_task now w d c t) = tk_parent t"
  "tk_owner (set_task now w d c t) = w" "tk_bucket (set_task now w d c t) = tBucketID c"
  "tk_status (set_task now w d c t) = tStatus c" "tk_sort (set_task now w d c t) = tSortOrder c"
  "tk_assignee (set_task now w d c t) = nullif_empty (tAssigneeAgentID c)"
  "tk_created (set_task now w d c t) = tk_created t"
  "storage_bytes (set_task now w d c t) = taskContentBytes c"
  by (simp_all add: set_task_def storage_bytes_def taskContentBytes_def)

lemma taskContentBytes_row [simp]: "taskContentBytes (task_of_row t) = storage_bytes t"
  by (simp add: taskContentBytes_def storage_bytes_def)

lemma set_task_ok:
  assumes "task_row_ok t" "tTitle c \<noteq> []" "clean (tTitle c) = tTitle c" "validKind (tKind c)" "validStatus (tStatus c)"
    "validPriority (tPriority c)" "fits_int4 (tSortOrder c)" "tAssigneeAgentID c \<noteq> [] \<longrightarrow> tStatus c \<noteq> StatusNew"
  shows "task_row_ok (set_task now w d c t)"
proof -
  have "tk_completed (set_task now w d c t) \<noteq> None \<longleftrightarrow> tStatus c = StatusDone"
    using assms(1) unfolding set_task_def
    by (subst track_completion_completed) (simp_all add: task_row_ok_def)
  moreover have "tk_review (set_task now w d c t) = [] \<or> tk_review (set_task now w d c t) = ''output'' \<and> tStatus c = StatusNeedsReview"
    using assms(1) by (auto simp: set_task_def task_row_ok_def)
  moreover have "tk_run (set_task now w d c t) \<noteq> None \<longrightarrow> tStatus c \<noteq> StatusQueued"
    by (simp add: set_task_def)
  moreover have "tk_title (set_task now w d c t) = tTitle c" "tk_kind (set_task now w d c t) = tKind c"
    "tk_priority (set_task now w d c t) = tPriority c"
    by (simp_all add: set_task_def)
  ultimately show ?thesis using assms(2-) by (simp add: task_row_ok_def)
qed

definition rehome :: "bool \<Rightarrow> string \<Rightarrow> string \<Rightarrow> string \<Rightarrow> int \<Rightarrow> task_row \<Rightarrow> task_row" where
  "rehome mv p dest owner now t =
     (if mv \<and> tk_parent t = Some p then t\<lparr>tk_bucket := dest, tk_owner := owner, tk_updated := now\<rparr> else t)"

lemma rehome_fields [simp]:
  "tk_id (rehome mv p b w n t) = tk_id t" "tk_parent (rehome mv p b w n t) = tk_parent t"
  "tk_bucket (rehome mv p b w n t) = (if mv \<and> tk_parent t = Some p then b else tk_bucket t)"
  "tk_owner (rehome mv p b w n t) = (if mv \<and> tk_parent t = Some p then w else tk_owner t)"
  "tk_assignee (rehome mv p b w n t) = tk_assignee t" "storage_bytes (rehome mv p b w n t) = storage_bytes t"
  "tk_created (rehome mv p b w n t) = tk_created t" "task_row_ok (rehome mv p b w n t) = task_row_ok t"
  by (simp_all add: rehome_def storage_bytes_def task_row_ok_def)

text \<open>What a successful update did, phase by phase and row by row.\<close>

abbreviation charged_update :: "UpdateTaskInput \<Rightarrow> bool" where
  "charged_update input \<equiv> uiTitle input \<noteq> None \<or> uiDescription input \<noteq> None \<or> uiBucketID input \<noteq> None"

lemma charge_update:
  assumes "(case (if charged then Some \<lparr>q_userID = u, q_limits = l, q_usage = usage_of db u\<rparr> else None) of
       None \<Rightarrow> Inr d | Some q \<Rightarrow> rbind (quota_apply d q 0 b) (\<lambda>(x, _). Inr x)) = Inr db1"
    and d: "d = (if charged then ensure_usage_row db u else db)"
  shows "users db1 = users db" "agent_rows db1 = agent_rows db" "buckets db1 = buckets db" "tasks db1 = tasks db"
    "entries db1 = entries db" "idem_keys db1 = idem_keys db" "run_starts db1 = run_starts db"
    "usage_of db1 v = (if charged \<and> v = u then moved_usage (usage_of db v) 0 b else usage_of db v)"
proof -
  have "users db1 = users db \<and> agent_rows db1 = agent_rows db \<and> buckets db1 = buckets db \<and> tasks db1 = tasks db
    \<and> entries db1 = entries db \<and> idem_keys db1 = idem_keys db \<and> run_starts db1 = run_starts db
    \<and> usage_of db1 v = (if charged \<and> v = u then moved_usage (usage_of db v) 0 b else usage_of db v)"
  proof (cases charged)
    case True
    then obtain q' where ap: "quota_apply (ensure_usage_row db u) \<lparr>q_userID = u, q_limits = l, q_usage = usage_of db u\<rparr> 0 b = Inr (db1, q')"
      using assms by (auto simp: rbind_eq_Inr)
    show ?thesis using quota_apply_frame [OF ap] quota_apply_moves [OF ap, of v] True by auto
  qed (use assms in simp)
  then show "users db1 = users db" "agent_rows db1 = agent_rows db" "buckets db1 = buckets db" "tasks db1 = tasks db"
    "entries db1 = entries db" "idem_keys db1 = idem_keys db" "run_starts db1 = run_starts db"
    "usage_of db1 v = (if charged \<and> v = u then moved_usage (usage_of db v) 0 b else usage_of db v)"
    by blast+
qed

lemma rbind_quad_InrE:
  "rbind m (\<lambda>(a, b, c, d). f a b c d) = Inr y \<Longrightarrow> (\<And>a b c d. m = Inr (a, b, c, d) \<Longrightarrow> f a b c d = Inr y \<Longrightarrow> R) \<Longrightarrow> R"
  by (cases m) auto

lemma updateTask_InrE:
  assumes "updateTask e db now u agent taskID input w = Inr (db', x)"
  obtains d t c1 c2 mv src dst c3 c l db1 db2 db3 db4 where
    "d = (if charged_update input then ensure_usage_row db u else db)"
    "t \<in> set (tasks db)" "tk_owner t = u" "uuid_in e taskID = Some (tk_id t)" "agent \<noteq> [] \<longrightarrow> tk_assignee t = Some agent"
    "update_run_guard d agent input (task_of_row t) = Inr ()"
    "update_fields input (task_of_row t) = Inr c1" "update_list e d u input c1 = Inr (c2, mv, src, dst)"
    "update_status input w c2 = Inr c3" "update_assignment e d u input (task_of_row t) c3 = Inr c"
    "(case (if charged_update input then Some \<lparr>q_userID = u, q_limits = l, q_usage = usage_of db u\<rparr> else None) of
       None \<Rightarrow> Inr d | Some q \<Rightarrow> rbind (quota_apply d q 0 (taskContentBytes c - taskContentBytes (task_of_row t))) (\<lambda>(x, _). Inr x)) = Inr db1"
    "write_task db1 now u (tk_id t) c = Inr (db2, x)"
    "(if mv then updateChildTaskLocations db2 now (tID x) (bucket_with_id (tBucketID x)) else Inr db2) = Inr db3"
    "writeTaskOrder db3 src = Inr db4" "writeTaskOrder db4 dst = Inr db'"
proof -
  from assms obtain d quota i original c1 c2 mv src dst c3 c db1 db2 db3 db4 where
    q: "(if charged_update input then rbind (lockStorageQuota db u) (\<lambda>(db, q). Inr (db, Some q)) else Inr (db, None)) = Inr (d, quota)"
    and i: "uuid_in e taskID = Some i" and o': "lockedTaskForAgent d u agent i = Inr original"
    and rest: "update_run_guard d agent input original = Inr ()"
    "update_fields input original = Inr c1" "update_list e d u input c1 = Inr (c2, mv, src, dst)"
    "update_status input w c2 = Inr c3" "update_assignment e d u input original c3 = Inr c"
    and ap: "(case quota of None \<Rightarrow> Inr d
            | Some q \<Rightarrow> rbind (quota_apply d q 0 (taskContentBytes c - taskContentBytes original)) (\<lambda>(d, _). Inr d)) = Inr db1"
    and wr: "write_task db1 now u i c = Inr (db2, x)"
    "(if mv then updateChildTaskLocations db2 now (tID x) (bucket_with_id (tBucketID x)) else Inr db2) = Inr db3"
    "writeTaskOrder db3 src = Inr db4" "writeTaskOrder db4 dst = Inr db'"
    unfolding updateTask_def
    by (elim rbind_require_InrE rbind_quad_InrE rbind_pair_InrE rbind_InrE) (rule that, assumption, auto)
  obtain l where d: "d = (if charged_update input then ensure_usage_row db u else db)"
    and quota: "quota = (if charged_update input then Some \<lparr>q_userID = u, q_limits = l, q_usage = usage_of db u\<rparr> else None)"
    using q by (cases "charged_update input") (auto simp: rbind_eq_Inr lockStorageQuota_eq_Inr)
  have td: "tasks d = tasks db" by (simp add: d)
  obtain t where t: "t \<in> set (tasks db)" "tk_owner t = u" "agent \<noteq> [] \<longrightarrow> tk_assignee t = Some agent"
    and it: "i = tk_id t" "original = task_of_row t"
    using lockedTaskForAgent_InrD [OF o'] td by auto
  show thesis by (rule that [OF d t(1,2) i [unfolded it] t(3) rest [unfolded it] ap [unfolded quota it] wr [unfolded it]])
qed

lemma write_task_InrE:
  assumes "write_task db now u i c = Inr (db', x)"
  obtains t date owner where "t \<in> set (tasks db)" "tk_owner t = u" "tk_id t = i" "list_owner db (tBucketID c) = Some owner"
    "fits_int4 (tSortOrder c)" "pg_date (tScheduledDate c) = Inr date" "x = task_of_row (set_task now owner date c t)"
    "db' = db\<lparr>tasks := map (\<lambda>y. if tk_owner y = u \<and> tk_id y = i then set_task now owner date c y else y) (tasks db)\<rparr>"
  using assms unfolding write_task_def
  by (elim rbind_elims) (drule query_row_InrD, elim conjE, rule that, auto simp: map_update_where_eq)

lemma updateTask_rows:
  assumes inv: "store_inv db" and run: "updateTask e db now u agent taskID input w = Inr (db', x)"
  obtains t c date mv src dst where
    "t \<in> set (tasks db)" "tk_owner t = u" "uuid_in e taskID = Some (tk_id t)" "agent \<noteq> [] \<longrightarrow> tk_assignee t = Some agent"
    "update_run_guard db agent input (task_of_row t) = Inr ()"
    "\<And>y. y \<in> set (tasks db) \<Longrightarrow> mv \<Longrightarrow> in_group (tk_id t) y \<Longrightarrow> tk_bucket y = tk_bucket t \<and> tk_owner y = u"
    "mv \<longrightarrow> uiBucketID input \<noteq> None \<and> tk_parent t = None" "\<not> mv \<longrightarrow> tBucketID c = tk_bucket t"
    "\<not> mv \<longrightarrow> src = [] \<and> dst = []"
    "uiSortOrder input = None \<and> \<not> mv \<longrightarrow> tSortOrder c = tk_sort t"
    "uiAssigneeAgentID input = None \<longrightarrow> tAssigneeAgentID c = null_text (tk_assignee t)"
    "uiStatus input = None \<and> uiDone input = None \<and> uiAssigneeAgentID input = None \<longrightarrow> tStatus c = tk_status t"
    "\<not> w \<longrightarrow> tStatus c = StatusWorking \<longrightarrow> tk_status t = StatusWorking"
    "x = task_of_row (set_task now u date c t)" "list_owner db (tBucketID c) = Some u"
    "task_row_ok (set_task now u date c t)" "assigned_ok db (set_task now u date c t)"
    "positions_fit src" "positions_fit dst"
    "tasks db' = map (\<lambda>y. place dst (place src (rehome mv (tk_id t) (tBucketID c) u now
        (if tk_owner y = u \<and> tk_id y = tk_id t then set_task now u date c y else y)))) (tasks db)"
    "users db' = users db" "agent_rows db' = agent_rows db" "buckets db' = buckets db"
    "entries db' = entries db" "idem_keys db' = idem_keys db" "run_starts db' = run_starts db"
    "\<And>v. usage_of db' v = (if v = u then moved_usage (usage_of db v) 0 (taskContentBytes c - storage_bytes t) else usage_of db v)"
  using run
proof (rule updateTask_InrE)
  fix d :: db and t :: task_row and c1 c2 mv src dst c3 c l db1 db2 db3 db4
  assume d: "d = (if charged_update input then ensure_usage_row db u else db)"
    and t: "t \<in> set (tasks db)" "tk_owner t = u" "uuid_in e taskID = Some (tk_id t)" "agent \<noteq> [] \<longrightarrow> tk_assignee t = Some agent"
    and guard: "update_run_guard d agent input (task_of_row t) = Inr ()"
    and phases: "update_fields input (task_of_row t) = Inr c1" "update_list e d u input c1 = Inr (c2, mv, src, dst)"
      "update_status input w c2 = Inr c3" "update_assignment e d u input (task_of_row t) c3 = Inr c"
    and ap: "(case (if charged_update input then Some \<lparr>q_userID = u, q_limits = l, q_usage = usage_of db u\<rparr> else None) of
       None \<Rightarrow> Inr d | Some q \<Rightarrow> rbind (quota_apply d q 0 (taskContentBytes c - taskContentBytes (task_of_row t))) (\<lambda>(x, _). Inr x)) = Inr db1"
    and wr: "write_task db1 now u (tk_id t) c = Inr (db2, x)"
    and ch: "(if mv then updateChildTaskLocations db2 now (tID x) (bucket_with_id (tBucketID x)) else Inr db2) = Inr db3"
    and os: "writeTaskOrder db3 src = Inr db4" and od: "writeTaskOrder db4 dst = Inr db'"
  have s: "structure_ok db" and sd: "structure_ok d" using inv by (simp_all add: store_inv_def d)
  have td: "tasks d = tasks db" "buckets d = buckets db" "agent_rows d = agent_rows db" by (simp_all add: d)
  have "t \<in> set (tasks d)" using t td by simp
  note cur = update_current [OF sd this t(2) phases, unfolded td]
  note frame = charge_update [OF ap d]
  from wr obtain t' date owner where t': "t' \<in> set (tasks db1)" "tk_id t' = tk_id t" and owner: "list_owner db1 (tBucketID c) = Some owner"
    and fit: "fits_int4 (tSortOrder c)" and x: "x = task_of_row (set_task now owner date c t')"
    and db2: "db2 = db1\<lparr>tasks := map (\<lambda>y. if tk_owner y = u \<and> tk_id y = tk_id t then set_task now owner date c y else y) (tasks db1)\<rparr>"
    by (rule write_task_InrE) (rule that, assumption+)
  have tt: "t' = t" using task_idD [OF s _ t(1) t'(2)] t'(1) frame by simp
  have own: "list_owner db (tBucketID c) = Some u"
    using cur(10) task_ownerD [OF s t(1)] t(2) list_owner_iff [OF s] by auto
  have ou: "owner = u" using own owner frame(3) by (simp add: list_owner_cong [of db1 db])
  have bounds: "distinct src" "distinct dst"
  proof -
    have "tk_id t \<notin> set (orderedChildTaskIDs db (tk_id t))" if "tk_parent t = None"
      using that task_idD [OF s _ t(1)] by (auto simp: orderedChildTaskIDs_def)
    moreover have "orderedChildTaskIDs d = orderedChildTaskIDs db" "orderedTaskIDs d = orderedTaskIDs db"
      by (simp_all add: orderedChildTaskIDs_def orderedTaskIDs_def td fun_eq_iff)
    ultimately show "distinct src" "distinct dst"
      using cur(10) distinct_task_ids [OF s]
      by (auto simp: distinct_insertTaskIDs removeTaskIDs_eq orderedTaskIDs_def orderedChildTaskIDs_def)
  qed
  have db3: "db3 = db2\<lparr>tasks := map (rehome mv (tk_id t) (tBucketID c) u now) (tasks db2)\<rparr>"
  proof (cases mv)
    case True
    have "list_owner db2 (tBucketID c) = Some u" using owner ou by (simp add: db2)
    then show ?thesis using ch True
      by (auto simp: updateChildTaskLocations_def x tt rehome_def [abs_def] map_update_where_eq elim!: rbind_elims)
  qed (use ch in \<open>simp add: rehome_def [abs_def]\<close>)
  have db': "positions_fit src" "positions_fit dst" "db' = db1\<lparr>tasks := map (\<lambda>y. place dst (place src (rehome mv (tk_id t) (tBucketID c) u now
        (if tk_owner y = u \<and> tk_id y = tk_id t then set_task now u date c y else y)))) (tasks db1)\<rparr>"
    using os od by (auto simp: writeTaskOrder_Inr bounds db3 db2 o_def ou)
  have group: "tk_bucket y = tk_bucket t \<and> tk_owner y = u" if y: "y \<in> set (tasks db)" "in_group (tk_id t) y" for y
  proof (cases "tk_id y = tk_id t")
    case True then show ?thesis using task_idD [OF s y(1) t(1)] t by simp
  next
    case False
    with y have "tk_parent y = Some (tk_id t)" by simp
    with s y(1) obtain q where q: "q \<in> set (tasks db)" "tk_id q = tk_id t" "tk_bucket q = tk_bucket y" "tk_owner q = tk_owner y"
      by (elim task_parentD)
    then show ?thesis using task_idD [OF s q(1) t(1)] t by simp
  qed
  have row: "task_row_ok (set_task now u date c t)"
  proof (rule set_task_ok [OF task_rowD [OF s t(1)]])
    show "clean (tTitle c) = tTitle c"
      using cur(2) task_rowD [OF s t(1)] by (simp add: task_row_ok_def split: option.splits)
  qed (use cur fit in simp_all)
  have asg: "assigned_ok db (set_task now u date c t)"
    using cur(9) task_assignedD [OF s t(1)] t(2)
    by (cases "tk_assignee t") (auto simp: assigned_ok_def list_ex_iff nullif_empty_def)
  have use: "usage_of db' v = (if v = u then moved_usage (usage_of db v) 0 (taskContentBytes c - storage_bytes t) else usage_of db v)" for v
  proof -
    have "taskContentBytes c = storage_bytes t" if "\<not> charged_update input"
      using that cur(2,3) by (simp add: taskContentBytes_def storage_bytes_def)
    then show ?thesis using frame(8) [of v] by (auto simp: db'(3) usage_of_def moved_usage_def)
  qed
  have guard': "update_run_guard db agent input (task_of_row t) = Inr ()" using guard by (simp only: update_run_guard_def td)
  have mv: "mv \<longrightarrow> uiBucketID input \<noteq> None \<and> tk_parent t = None" "\<not> mv \<longrightarrow> tBucketID c = tk_bucket t" using cur(10) by auto
  have still: "\<not> mv \<longrightarrow> src = [] \<and> dst = []" using cur(10) by auto
  have x': "x = task_of_row (set_task now u date c t)" using x tt ou by simp
  have ts: "tasks db' = map (\<lambda>y. place dst (place src (rehome mv (tk_id t) (tBucketID c) u now
        (if tk_owner y = u \<and> tk_id y = tk_id t then set_task now u date c y else y)))) (tasks db)"
    using frame(4) by (simp add: db'(3))
  have fr: "users db' = users db" "agent_rows db' = agent_rows db" "buckets db' = buckets db"
    "entries db' = entries db" "idem_keys db' = idem_keys db" "run_starts db' = run_starts db"
    using frame by (simp_all add: db'(3))
  show thesis by (rule that [OF t guard' group mv still cur(11-14) x' own row asg db'(1,2) ts fr use])
qed

lemma updateTask_inv:
  assumes inv: "store_inv db" and run: "updateTask e db now u agent taskID input w = Inr (db', x)"
  shows "store_inv db'"
  using inv run
proof (rule updateTask_rows)
  fix t :: task_row and c date mv src dst
  let ?f = "\<lambda>y. place dst (place src (rehome mv (tk_id t) (tBucketID c) u now
        (if tk_owner y = u \<and> tk_id y = tk_id t then set_task now u date c y else y)))"
  assume t: "t \<in> set (tasks db)" "tk_owner t = u"
    and group: "\<And>y. y \<in> set (tasks db) \<Longrightarrow> mv \<Longrightarrow> in_group (tk_id t) y \<Longrightarrow> tk_bucket y = tk_bucket t \<and> tk_owner y = u"
    and top: "mv \<longrightarrow> uiBucketID input \<noteq> None \<and> tk_parent t = None"
    and stay: "\<not> mv \<longrightarrow> tBucketID c = tk_bucket t" and own: "list_owner db (tBucketID c) = Some u"
    and row: "task_row_ok (set_task now u date c t)" and asg: "assigned_ok db (set_task now u date c t)"
    and fit: "positions_fit src" "positions_fit dst" and ts: "tasks db' = map ?f (tasks db)"
    and frame: "users db' = users db" "agent_rows db' = agent_rows db" "buckets db' = buckets db"
      "entries db' = entries db" "idem_keys db' = idem_keys db"
    and use: "\<And>v. usage_of db' v = (if v = u then moved_usage (usage_of db v) 0 (taskContentBytes c - storage_bytes t) else usage_of db v)"
  have s: "structure_ok db" using inv by (simp add: store_inv_def)
  have me: "y = t" if "y \<in> set (tasks db)" "tk_id y = tk_id t" for y using task_idD [OF s that(1) t(1) that(2)] .
  show ?thesis
  proof (rule tasks_map_inv [OF inv frame ts])
    fix y assume y: "y \<in> set (tasks db)"
    show "tk_id (?f y) = tk_id y \<and> tk_parent (?f y) = tk_parent y \<and> tk_owner (?f y) = tk_owner y"
      using group [OF y] t by auto
    show "task_row_ok (?f y) \<and> assigned_ok db (?f y)"
    proof (cases "tk_id y = tk_id t")
      case True
      then have "y = t" using me y by simp
      then show ?thesis using row asg fit t by (auto intro!: place_row_ok simp: assigned_ok_def)
    next
      case False
      then show ?thesis using task_rowD [OF s y] task_assignedD [OF s y] fit group [OF y]
        by (auto intro!: place_row_ok simp: assigned_ok_def)
    qed
    show "list_owner db (tk_bucket (?f y)) = Some (tk_owner y)"
      using task_ownerD [OF s y] own group [OF y] t by auto
    show "y \<noteq> t \<Longrightarrow> storage_bytes (?f y) = storage_bytes y" using me [OF y] by auto
    fix q assume q: "q \<in> set (tasks db)" and p: "tk_parent y = Some (tk_id q)"
    from s y p obtain q' where q': "q' \<in> set (tasks db)" "tk_id q' = tk_id q" "tk_parent q' = None" "tk_bucket q' = tk_bucket y"
      by (elim task_parentD)
    then have "q' = q" using task_idD [OF s q'(1) q] by simp
    then show "tk_bucket (?f y) = tk_bucket (?f q)" using q' p me [OF y] me [OF q] top stay t by auto
  next
    show "usage_of db' v = (if v = tk_owner t then moved_usage (usage_of db v) 0 (storage_bytes (?f t) - storage_bytes t)
        else usage_of db v)" for v
      using use [of v] t by simp
  qed (use t in simp_all)
qed

subsection \<open>The order of subtasks\<close>

lemma take_remaining_Inr:
  "take_remaining remaining ids = Inr x \<longleftrightarrow> set ids \<subseteq> set remaining \<and> distinct ids"
  by (induction remaining ids rule: take_remaining.induct) auto

lemma distinct_splice:
  fixes xs ids :: "string list"
  assumes "distinct xs" "distinct ids"
  shows "distinct (take k (filter (\<lambda>i. i \<notin> set ids) xs) @ ids @ drop k (filter (\<lambda>i. i \<notin> set ids) xs))"
proof -
  have "distinct (insertTaskIDs (filter (\<lambda>i. i \<notin> set ids) xs) ids (int k))"
    unfolding distinct_insertTaskIDs using assms by auto
  then show ?thesis by (simp add: insertTaskIDs_def)
qed

lemma update_where_none: "(\<And>r. r \<in> set rows \<Longrightarrow> \<not> P r) \<Longrightarrow> update_where P f rows = rows"
  by (induction rows) auto

lemma child_home:
  assumes s: "structure_ok db" and t: "t \<in> set (tasks db)" and y: "y \<in> set (tasks db)" "tk_parent y = Some (tk_id t)"
  shows "tk_bucket y = tk_bucket t \<and> tk_owner y = tk_owner t \<and> tk_parent t = None"
  using s y
proof (rule task_parentD)
  fix q assume q: "q \<in> set (tasks db)" "tk_id q = tk_id t" "tk_parent q = None" "tk_bucket q = tk_bucket y" "tk_owner q = tk_owner y"
  then have "q = t" using task_idD [OF s q(1) t] by simp
  then show ?thesis using q by simp
qed

lemma ReorderSubtasks_rows:
  assumes inv: "store_inv db" and run: "ReorderSubtasks e db now u parentID ids = Inr (db', x)"
  obtains t k rest where "t \<in> set (tasks db)" "tk_owner t = u" "tk_parent t = None" "uuid_in e parentID = Some (tk_id t)"
    "distinct ids" "set ids = set (orderedChildTaskIDs db (tk_id t))"
    "rest = filter (\<lambda>i. i \<notin> set ids) (orderedAllTaskIDs db (tk_bucket t))" "k < length rest" "rest ! k = tk_id t"
    "positions_fit (take (Suc k) rest @ ids @ drop (Suc k) rest)"
    "db' = (ensure_usage_row db u)\<lparr>tasks := map (place (take (Suc k) rest @ ids @ drop (Suc k) rest)) (tasks db)\<rparr>"
proof -
  let ?db = "ensure_usage_row db u"
  have s: "structure_ok db" using inv by (simp add: store_inv_def)
  let ?child = "\<lambda>p t. tk_parent t = Some (tID p) \<and> tk_owner t = u"
  from run obtain i parent insertAt owner where i: "uuid_in e parentID = Some i" and lt: "lockedTask ?db u i = Inr parent"
    and top: "tParentTaskID parent = []" and len: "length ids = length (task_ids (?child parent) (tasks db))"
    and tr: "take_remaining (task_ids (?child parent) (tasks db)) ids = Inr ()"
    and ia: "(case index_of (removeTaskIDs (orderedAllTaskIDs ?db (tBucketID parent)) (task_ids (?child parent) (tasks db))) (tID parent)
        of None \<Rightarrow> Inl ErrNotFound | Some k \<Rightarrow> Inr (k + 1)) = Inr insertAt"
    and wo: "write_orders (?db\<lparr>tasks := update_where (\<lambda>t. tk_parent t = Some (tID parent) \<and> tk_owner t = u
                        \<and> tk_bucket t \<noteq> tBucketID parent)
                  (\<lambda>t. t\<lparr>tk_bucket := tBucketID parent, tk_owner := owner, tk_updated := now\<rparr>) (tasks db)\<rparr>)
       (map (\<lambda>b. removeTaskIDs (orderedAllTaskIDs ?db b) (task_ids (?child parent) (tasks db)))
          (filter (\<lambda>b. b \<noteq> tBucketID parent) (remdups (map tk_bucket (filter (?child parent) (tasks db)))))
        @ [take insertAt (removeTaskIDs (orderedAllTaskIDs ?db (tBucketID parent)) (task_ids (?child parent) (tasks db)))
           @ ids @ drop insertAt (removeTaskIDs (orderedAllTaskIDs ?db (tBucketID parent)) (task_ids (?child parent) (tasks db)))]) = Inr db'"
    unfolding ReorderSubtasks_def Let_def
    by (elim rbind_elims) (simp only: lockStorageQuota_eq_Inr, elim exE conjE, hypsubst,
        simp only: ensure_usage_row_frame uuid_arg_eq_Inr sum.inject prod.inject, elim conjE, rule that, assumption+, simp)
  obtain t where t: "t \<in> set (tasks db)" "tk_owner t = u" "i = tk_id t" "parent = task_of_row t"
    using lockedTask_InrD [OF lt] by auto
  have tp: "tk_parent t = None" using parent_text_empty [OF s t(1)] top t(4) by simp
  note home = child_home [OF s t(1)]
  have cur: "task_ids (?child parent) (tasks db) = orderedChildTaskIDs db (tk_id t)"
    unfolding orderedChildTaskIDs_def ordered_ids_def using home t
    by (intro arg_cong [where f = "\<lambda>xs. map tk_id (sort_key _ xs)"] filter_cong) auto
  have d: "distinct (orderedChildTaskIDs db (tk_id t))" by (simp add: orderedChildTaskIDs_def distinct_task_ids [OF s])
  have ids: "distinct ids" "set ids = set (orderedChildTaskIDs db (tk_id t))"
    using tr len unfolding cur take_remaining_Inr by (auto simp: card_subset_eq distinct_card d)
  have none: "\<not> (tk_parent y = Some (tID parent) \<and> tk_owner y = u \<and> tk_bucket y \<noteq> tBucketID parent)" if "y \<in> set (tasks db)" for y
    using home [OF that] t by auto
  have others: "filter (\<lambda>b. b \<noteq> tBucketID parent) (remdups (map tk_bucket (filter (?child parent) (tasks db)))) = []"
    using none by (auto simp: filter_empty_conv)
  have all: "orderedAllTaskIDs ?db = orderedAllTaskIDs db" by (simp add: orderedAllTaskIDs_def fun_eq_iff)
  define rest where "rest = filter (\<lambda>i. i \<notin> set ids) (orderedAllTaskIDs db (tk_bucket t))"
  have rest: "removeTaskIDs (orderedAllTaskIDs ?db (tBucketID parent)) (task_ids (?child parent) (tasks db)) = rest"
    unfolding cur by (simp add: removeTaskIDs_eq all rest_def ids t)
  obtain k where k: "k < length rest" "rest ! k = tk_id t" "insertAt = Suc k"
    using ia unfolding rest by (auto simp: t split: option.splits dest!: index_of_Some)
  let ?order = "take (Suc k) rest @ ids @ drop (Suc k) rest"
  have dord: "distinct ?order"
    unfolding rest_def orderedAllTaskIDs_def by (rule distinct_splice [OF distinct_task_ids [OF s] ids(1)])
  have same: "update_where (\<lambda>t. tk_parent t = Some (tID parent) \<and> tk_owner t = u \<and> tk_bucket t \<noteq> tBucketID parent) f (tasks db)
      = tasks db" for f
    by (rule update_where_none) (rule none)
  have "writeTaskOrder (?db\<lparr>tasks := tasks db\<rparr>) ?order = Inr db'"
    using wo unfolding others rest k(3) same by (auto elim!: rbind_elims)
  then have "positions_fit ?order" "db' = ?db\<lparr>tasks := map (place ?order) (tasks db)\<rparr>"
    by (simp_all add: writeTaskOrder_Inr [OF dord])
  then show thesis using that [OF t(1,2) tp _ ids rest_def k(1,2)] i t(3) by simp
qed

lemma ReorderSubtasks_inv:
  assumes inv: "store_inv db" and run: "ReorderSubtasks e db now u parentID ids = Inr (db', x)"
  shows "store_inv db'"
  using inv run
proof (rule ReorderSubtasks_rows)
  fix t k rest
  let ?order = "take (Suc k) rest @ ids @ drop (Suc k) rest"
  assume fit: "positions_fit ?order" and db': "db' = (ensure_usage_row db u)\<lparr>tasks := map (place ?order) (tasks db)\<rparr>"
  have s: "structure_ok db" using inv by (simp add: store_inv_def)
  have "usage_of db' v = usage_of db v" for v
    using usage_of_ensure [of db u v] by (simp add: db' usage_of_def)
  note use = this
  show ?thesis
    by (rule tasks_map_inv_same [OF inv, where f = "place ?order"])
      (use task_rowD [OF s] fit use in \<open>simp_all add: db' place_row_ok\<close>)
qed

text \<open>
  A successful \<open>ReorderSubtasks\<close> was given exactly the subtasks of a top-level task of the
  account. Afterwards the task's subtasks read in the requested order, and the list reads the
  other tasks in their old order with the subtasks directly after their parent.
\<close>

theorem ReorderSubtasks_order:
  assumes inv: "store_inv db" and run: "ReorderSubtasks e db now u parentID ids = Inr (db', x)"
  shows "\<exists>parent \<in> set (tasks db). uuid_in e parentID = Some (tk_id parent) \<and> tk_owner parent = u \<and> tk_parent parent = None
    \<and> distinct ids \<and> set ids = set (orderedChildTaskIDs db (tk_id parent))
    \<and> orderedChildTaskIDs db' (tk_id parent) = ids
    \<and> (\<exists>before after. orderedAllTaskIDs db' (tk_bucket parent) = before @ tk_id parent # ids @ after
        \<and> before @ tk_id parent # after = filter (\<lambda>i. i \<notin> set ids) (orderedAllTaskIDs db (tk_bucket parent)))"
  using inv run
proof (rule ReorderSubtasks_rows)
  fix t :: task_row and k rest
  let ?order = "take (Suc k) rest @ ids @ drop (Suc k) rest"
  assume t: "t \<in> set (tasks db)" "tk_owner t = u" "tk_parent t = None" "uuid_in e parentID = Some (tk_id t)"
    and ids: "distinct ids" "set ids = set (orderedChildTaskIDs db (tk_id t))"
    and rest: "rest = filter (\<lambda>i. i \<notin> set ids) (orderedAllTaskIDs db (tk_bucket t))" and k: "k < length rest" "rest ! k = tk_id t"
    and db': "db' = (ensure_usage_row db u)\<lparr>tasks := map (place ?order) (tasks db)\<rparr>"
  have s: "structure_ok db" using inv by (simp add: store_inv_def)
  have split: "rest = take k rest @ tk_id t # drop (Suc k) rest"
    using k by (metis id_take_nth_drop)
  have dord: "distinct ?order"
    unfolding rest orderedAllTaskIDs_def by (rule distinct_splice [OF distinct_task_ids [OF s] ids(1)])
  have sub: "set ids \<subseteq> set (orderedAllTaskIDs db (tk_bucket t))"
    using child_home [OF s t(1)] by (auto simp: ids orderedChildTaskIDs_def orderedAllTaskIDs_def)
  have "set ?order = set rest \<union> set ids" using set_insertTaskIDs [of rest ids "int (Suc k)"]
    by (simp add: insertTaskIDs_def del: of_nat_Suc)
  also have "\<dots> = set (orderedAllTaskIDs db (tk_bucket t))" using sub by (auto simp: rest)
  finally have so: "set ?order = tk_id ` {y \<in> set (tasks db). tk_bucket y = tk_bucket t}" by (simp add: orderedAllTaskIDs_def)
  have dist: "distinct (map tk_id (tasks db))" using s by (simp add: structure_defs)
  have order: "orderedAllTaskIDs db' (tk_bucket t) = ?order"
    unfolding orderedAllTaskIDs_def using order_after_place [OF dist dord so] by (simp add: db' put_task_sort_def)
  have home: "tk_parent y = Some (tk_id t) \<longleftrightarrow> tk_bucket y = tk_bucket t \<and> tk_id y \<in> set ids" if y: "y \<in> set (tasks db)" for y
    using y child_home [OF s t(1) y] task_idD [OF s y] by (auto simp: ids orderedChildTaskIDs_def)
  have "orderedChildTaskIDs db' (tk_id t) = filter (\<lambda>i. i \<in> set ids) (orderedAllTaskIDs db' (tk_bucket t))"
    unfolding orderedChildTaskIDs_def orderedAllTaskIDs_def filter_ordered_ids [of "\<lambda>i. i \<in> set ids"]
    unfolding ordered_ids_def by (intro arg_cong [where f = "\<lambda>xs. map tk_id (sort_key _ xs)"] filter_cong) (auto simp: db' home)
  also have "\<dots> = ids"
  proof -
    have "\<forall>i \<in> set rest. i \<notin> set ids" by (simp add: rest)
    then have "filter (\<lambda>i. i \<in> set ids) (take (Suc k) rest) = []" "filter (\<lambda>i. i \<in> set ids) (drop (Suc k) rest) = []"
      by (auto simp: filter_empty_conv dest: in_set_takeD in_set_dropD)
    then show ?thesis by (simp add: order)
  qed
  finally have "orderedChildTaskIDs db' (tk_id t) = ids" .
  moreover have "?order = take k rest @ tk_id t # ids @ drop (Suc k) rest"
    using k by (simp add: take_Suc_conv_app_nth)
  ultimately show ?thesis using t ids order split rest by metis
qed

theorem ReorderSubtasks_order_witness:
  "\<exists>db'. ReorderSubtasks ex_env ex_db 9 ''u1'' ''t2'' [''t3''] = Inr (db', ()) \<and> orderedChildTaskIDs db' ''t2'' = [''t3'']"
proof -
  have "case ReorderSubtasks ex_env ex_db 9 ''u1'' ''t2'' [''t3''] of Inr (db', _) \<Rightarrow> True | Inl _ \<Rightarrow> False" by code_simp
  then obtain db' where run: "ReorderSubtasks ex_env ex_db 9 ''u1'' ''t2'' [''t3''] = Inr (db', ())"
    by (auto split: sum.splits)
  have "uuid_in ex_env ''t2'' = Some ''t2''" by code_simp
  note i = this
  obtain p :: task_row where "uuid_in ex_env ''t2'' = Some (tk_id p)" "orderedChildTaskIDs db' (tk_id p) = [''t3'']"
    using ReorderSubtasks_order [OF ex_store_inv run] by blast
  then show ?thesis using i run by simp
qed

end
