(* ===== verification/Entries.thy ===== *)
theory Entries
  imports TaskUpdate
begin

section \<open>Card entries (boards/store.go)\<close>

text \<open>
  The conversation of a task: posting a comment or an output, with its idempotent replay, the
  rules for agents and managed runs, the quota, and the review an output asks for; and
  reading the entries of a task, or of one run.
\<close>

subsection \<open>Posting an entry\<close>

definition cardEntryFingerprint :: "env \<Rightarrow> string \<Rightarrow> string \<Rightarrow> string" where
  "cardEntryFingerprint e kind body = sha_json e (JObj [(''kind'', JStr kind), (''body'', JStr body)])"

record entry_request =
  eq_kind :: string
  eq_body :: string
  eq_key :: string
  eq_run :: string

definition entry_check :: "string \<Rightarrow> CreateTaskEntryInput \<Rightarrow> (store_error, entry_request) result" where
  "entry_check taskID input =
     rbind (require (validUUID taskID) (ErrInvalidData ''task ID must be a valid ID'')) (\<lambda>_.
     let body = TrimSpace (ceBody input); kind = TrimSpace (ceKind input);
         key = TrimSpace (ceIdempotencyKey input); runID = TrimSpace (ceRunID input) in
     rbind (require (body \<noteq> []) (ErrInvalidData ''entry body is required'')) (\<lambda>_.
     rbind (require (\<not> (kind \<noteq> ''comment'' \<and> kind \<noteq> ''output''))
              (ErrInvalidData ''entry kind must be comment or output'')) (\<lambda>_.
     rbind (require (length body \<le> TaskEntryBytes)
              (ErrInvalidData ''entry body must be 16384 UTF-8 bytes or fewer'')) (\<lambda>_.
     rbind (require (length key \<le> TaskIdempotencyBytes)
              (ErrInvalidData ''idempotency key must be 200 UTF-8 bytes or fewer'')) (\<lambda>_.
     rbind (require (\<not> (runID \<noteq> [] \<and> \<not> validUUID runID)) (ErrInvalidData ''run ID must be a valid ID'')) (\<lambda>_.
     rbind (require (\<not> (runID \<noteq> [] \<and> key = []))
              (ErrInvalidData ''managed run entries require an idempotency key'')) (\<lambda>_.
     Inr \<lparr>eq_kind = kind, eq_body = body, eq_key = key, eq_run = runID\<rparr>)))))))"

definition entry_author :: "string \<Rightarrow> string \<Rightarrow> string \<times> string" where
  "entry_author userID agentID = (if agentID \<noteq> [] then (''agent'', agentID) else (''human'', userID))"

definition entry_of_row :: "entry_row \<Rightarrow> string \<Rightarrow> string \<Rightarrow> TaskEntry" where
  "entry_of_row c status reason =
     \<lparr>teID = er_id c, teTaskID = er_task c, teKind = er_kind c, teBody = er_body c, teAuthorKind = er_author_kind c,
      teAuthorID = er_author c, teAuthorName = er_author_name c, teRunID = null_text (er_run c), teCreatedAt = er_created c,
      teTaskStatus = status, teTaskReviewReason = reason\<rparr>"

text \<open>
  The lookup of an earlier request with the same key: \<open>None\<close> when there is none the caller
  may still replay. \<open>run\<close> is the identifier the text \<open>eq_run\<close> denotes, if it is not empty.
\<close>

definition replayable :: "string \<Rightarrow> string \<Rightarrow> string \<Rightarrow> string option \<Rightarrow> task_row \<Rightarrow> bool" where
  "replayable userID agentID i run t \<longleftrightarrow>
     tk_owner t = userID \<and> tk_id t = i \<and> (agentID \<noteq> [] \<longrightarrow> tk_assignee t = Some agentID \<and> tk_run t = run)"

definition keyed_entry :: "string \<Rightarrow> string \<Rightarrow> string \<Rightarrow> string \<Rightarrow> entry_row \<Rightarrow> bool" where
  "keyed_entry userID agentID i key c \<longleftrightarrow>
     er_task c = i \<and> (er_author_kind c, er_author c) = entry_author userID agentID \<and> er_key c = Some key"

definition entry_replay ::
    "env \<Rightarrow> db \<Rightarrow> string \<Rightarrow> string \<Rightarrow> string \<Rightarrow> string option \<Rightarrow> entry_request \<Rightarrow> (store_error, TaskEntry) result option" where
  "entry_replay e db userID agentID i run r =
     (case (List.find (replayable userID agentID i run) (tasks db), List.find (keyed_entry userID agentID i (eq_key r)) (entries db)) of
        (Some t, Some c) \<Rightarrow>
          if er_hash c \<noteq> cardEntryFingerprint e (eq_kind r) (eq_body r) \<or> null_text (er_run c) \<noteq> eq_run r
          then Some (Inl ErrIdempotencyKey)
          else if null_text (er_run c) \<noteq> [] then
            (if er_kind c = ''output'' then Some (Inr (entry_of_row c StatusNeedsReview ''output''))
             else Some (Inr (entry_of_row c StatusWorking [])))
          else Some (Inr (entry_of_row c (tk_status t) (tk_review t)))
      | _ \<Rightarrow> None)"

definition entry_run_guard :: "string \<Rightarrow> entry_request \<Rightarrow> task_row \<Rightarrow> (store_error, unit) result" where
  "entry_run_guard agentID r t =
     (let executionRunID = null_text (tk_run t) in
      if agentID = [] then Inr ()
      else if executionRunID \<noteq> [] then
        (if eq_run r = [] \<or> eq_run r \<noteq> executionRunID then Inl ErrManagedRunMismatch
         else if tk_status t \<noteq> StatusWorking then Inl ErrTaskUnavailable
         else Inr ())
      else if eq_run r \<noteq> [] then Inl ErrManagedRunMismatch
      else Inr ())"

definition entry_author_name :: "db \<Rightarrow> string \<Rightarrow> string \<Rightarrow> string \<Rightarrow> (store_error, string) result" where
  "entry_author_name db userID agentID authorName =
     rbind (if agentID = [] then Inr authorName
            else rbind (query_row ErrNotFound (\<lambda>g. ag_id g = agentID \<and> ag_owner g = userID \<and> \<not> ag_archived g) (agent_rows db))
                   (\<lambda>g. Inr (ag_name g))) (\<lambda>name0.
     let name = TrimSpace name0 in Inr (if name = [] then ''You'' else name))"

definition new_entry ::
    "env \<Rightarrow> int \<Rightarrow> string \<Rightarrow> string \<Rightarrow> string \<Rightarrow> string \<Rightarrow> string option \<Rightarrow> string \<Rightarrow> entry_request \<Rightarrow> entry_row" where
  "new_entry e now fresh userID agentID i run name r =
     \<lparr>er_id = fresh, er_task = i, er_kind = eq_kind r, er_body = eq_body r,
      er_author_kind = fst (entry_author userID agentID), er_author = snd (entry_author userID agentID), er_author_name = name,
      er_key = nullif_empty (eq_key r), er_hash = cardEntryFingerprint e (eq_kind r) (eq_body r), er_run = run, er_created = now\<rparr>"

text \<open>The primary key and the unique index over the keys of one author on one task.\<close>

definition insert_entry :: "db \<Rightarrow> entry_row \<Rightarrow> (store_error, db) result" where
  "insert_entry db c =
     rbind (require (er_id c \<notin> set (map er_id (entries db))
              \<and> \<not> (er_key c \<noteq> None \<and> list_ex (\<lambda>x. er_task x = er_task c \<and> er_author_kind x = er_author_kind c
                     \<and> er_author x = er_author c \<and> er_key x = er_key c) (entries db)))
              (ErrDB UniqueViolation)) (\<lambda>_.
     Inr (db\<lparr>entries := entries db @ [c]\<rparr>))"

definition set_reviewed :: "int \<Rightarrow> task_row \<Rightarrow> task_row" where
  "set_reviewed now t = track_completion now t (t\<lparr>tk_status := StatusNeedsReview, tk_review := ''output'', tk_updated := now\<rparr>)"

definition output_review :: "db \<Rightarrow> int \<Rightarrow> string \<Rightarrow> string option \<Rightarrow> (store_error, db) result" where
  "output_review db now i run =
     (let hit = (\<lambda>t. tk_id t = i \<and> (run \<noteq> None \<longrightarrow> tk_status t = StatusWorking \<and> tk_run t = run)) in
      rbind (require (count_where hit (tasks db) = 1) ErrManagedRunMismatch) (\<lambda>_.
      Inr (db\<lparr>tasks := update_where hit (set_reviewed now) (tasks db)\<rparr>)))"

definition create_entry ::
    "env \<Rightarrow> db \<Rightarrow> int \<Rightarrow> string \<Rightarrow> string \<Rightarrow> string \<Rightarrow> string \<Rightarrow> string \<Rightarrow> string option \<Rightarrow> entry_request \<Rightarrow> TaskEntry tx" where
  "create_entry e db0 now fresh userID agentID authorName i run r =
     rbind (lockStorageQuota db0 userID) (\<lambda>(db, q).
     rbind (query_row ErrNotFound (\<lambda>t. tk_owner t = userID \<and> tk_id t = i
              \<and> (agentID \<noteq> [] \<longrightarrow> tk_assignee t = Some agentID)) (tasks db)) (\<lambda>t.
     rbind (entry_run_guard agentID r t) (\<lambda>_.
     rbind (entry_author_name db userID agentID authorName) (\<lambda>name.
     rbind (require (count_where (\<lambda>c. er_task c = i) (entries db) < MaxTaskEntries)
              (ErrInvalidData ''tasks can contain at most 200 conversation entries'')) (\<lambda>_.
     let c = new_entry e now fresh userID agentID i run name r in
     rbind (insert_entry db c) (\<lambda>db1.
     rbind (quota_apply db1 q 0 (int (length (eq_body r)))) (\<lambda>(db2, _).
     if eq_kind r = ''output'' then
       rbind (output_review db2 now i run) (\<lambda>db3. Inr (db3, entry_of_row c StatusNeedsReview ''output''))
     else Inr (db2, entry_of_row c (tk_status t) (tk_review t)))))))))"

definition CreateTaskEntry ::
    "env \<Rightarrow> db \<Rightarrow> int \<Rightarrow> string \<Rightarrow> string \<Rightarrow> string \<Rightarrow> string \<Rightarrow> string \<Rightarrow> CreateTaskEntryInput \<Rightarrow> TaskEntry tx" where
  "CreateTaskEntry e db now fresh userID agentID authorName taskID input =
     rbind (entry_check taskID input) (\<lambda>r.
     rbind (uuid_arg e taskID) (\<lambda>i.
     rbind (if eq_run r = [] then Inr None else rbind (uuid_arg e (eq_run r)) (\<lambda>v. Inr (Some v))) (\<lambda>run.
     if eq_key r \<noteq> [] then
       (case entry_replay e db userID agentID i run r of
          Some outcome \<Rightarrow> rbind outcome (\<lambda>x. Inr (db, x))
        | None \<Rightarrow> create_entry e db now fresh userID agentID authorName i run r)
     else create_entry e db now fresh userID agentID authorName i run r)))"

subsection \<open>Reading entries\<close>

definition listTaskEntries :: "env \<Rightarrow> db \<Rightarrow> string \<Rightarrow> string \<Rightarrow> string \<Rightarrow> string \<Rightarrow> (store_error, TaskEntry list) result" where
  "listTaskEntries e db userID agentID taskID runID =
     rbind (require (validUUID taskID) (ErrInvalidData ''task ID must be a valid ID'')) (\<lambda>_.
     rbind (uuid_arg e taskID) (\<lambda>i.
     rbind (query_row ErrNotFound (\<lambda>t. tk_owner t = userID \<and> tk_id t = i
              \<and> (agentID \<noteq> [] \<longrightarrow> tk_assignee t = Some agentID)) (tasks db)) (\<lambda>_.
     rbind (if runID = [] then Inr None else rbind (uuid_arg e runID) (\<lambda>v. Inr (Some v))) (\<lambda>run.
     Inr (map (\<lambda>c. entry_of_row c [] [])
            (sort_key (\<lambda>c. (er_created c, er_id c))
              (filter (\<lambda>c. er_task c = i \<and> (runID \<noteq> [] \<longrightarrow> er_run c = run)) (entries db))))))))"

definition ListTaskEntries :: "env \<Rightarrow> db \<Rightarrow> string \<Rightarrow> string \<Rightarrow> string \<Rightarrow> (store_error, TaskEntry list) result" where
  "ListTaskEntries e db userID agentID taskID = listTaskEntries e db userID agentID taskID []"

definition ListTaskEntriesForRun :: "env \<Rightarrow> db \<Rightarrow> string \<Rightarrow> string \<Rightarrow> string \<Rightarrow> string \<Rightarrow> (store_error, TaskEntry list) result" where
  "ListTaskEntriesForRun e db userID agentID taskID runID =
     rbind (require (validUUID runID) (ErrInvalidData ''run ID must be a valid ID'')) (\<lambda>_.
     listTaskEntries e db userID agentID taskID runID)"

subsection \<open>The invariant\<close>

lemma structure_entry_added:
  assumes s: "structure_ok db" and "er_id c \<notin> set (map er_id (entries db))" "er_task c \<in> set (map tk_id (tasks db))"
  shows "structure_ok (db\<lparr>entries := entries db @ [c]\<rparr>)"
  using assms by (simp add: structure_ok_def keys_ok_def refs_ok_def rows_ok_def inbox_ok_def)

lemma stored_entry_added:
  assumes s: "structure_ok db" and t: "t \<in> set (tasks db)" "er_task c = tk_id t"
  shows "stored_bytes_of (db\<lparr>entries := entries db @ [c]\<rparr>) u =
    stored_bytes_of db u + (if u = tk_owner t then int (length (er_body c)) else 0)"
proof -
  have "sum_where (\<lambda>x. tk_owner x = u) (content_bytes (entries db @ [c])) ts =
      sum_where (\<lambda>x. tk_owner x = u) (content_bytes (entries db)) ts
      + (if t \<in> set ts \<and> u = tk_owner t then int (length (er_body c)) else 0)"
    if "set ts \<subseteq> set (tasks db)" "distinct ts" for ts
    using that
  proof (induction ts)
    case (Cons x ts)
    have "tk_id x = tk_id t \<longleftrightarrow> x = t" using Cons.prems t task_idD [OF s, of x t] by auto
    then show ?case using Cons t by (auto simp: content_bytes_def entry_bytes_append)
  qed simp
  moreover have "distinct (tasks db)" using s by (simp add: structure_defs distinct_map)
  ultimately show ?thesis using t by (simp add: stored_bytes_of_def)
qed

lemma set_reviewed_fields [simp]:
  "tk_id (set_reviewed now t) = tk_id t" "tk_parent (set_reviewed now t) = tk_parent t" "tk_owner (set_reviewed now t) = tk_owner t"
  "tk_bucket (set_reviewed now t) = tk_bucket t" "tk_assignee (set_reviewed now t) = tk_assignee t"
  "storage_bytes (set_reviewed now t) = storage_bytes t" "tk_status (set_reviewed now t) = StatusNeedsReview"
  "tk_run (set_reviewed now t) = tk_run t" "tk_review (set_reviewed now t) = ''output''" "tk_sort (set_reviewed now t) = tk_sort t"
  by (simp_all add: set_reviewed_def storage_bytes_def)

lemma set_reviewed_ok: "task_row_ok t \<Longrightarrow> task_row_ok (set_reviewed now t)"
  by (auto simp: task_row_ok_def set_reviewed_def track_completion_def validStatus_def)

lemma create_entry_InrE:
  assumes "create_entry e db now fresh u agent author i run r = Inr (db', x)"
  obtains t name limits db2 q where "t \<in> set (tasks db)" "tk_owner t = u" "tk_id t = i" "agent \<noteq> [] \<longrightarrow> tk_assignee t = Some agent"
    "entry_run_guard agent r t = Inr ()" "entry_author_name (ensure_usage_row db u) u agent author = Inr name"
    "count_where (\<lambda>c. er_task c = i) (entries db) < MaxTaskEntries"
    "insert_entry (ensure_usage_row db u) (new_entry e now fresh u agent i run name r) =
       Inr ((ensure_usage_row db u)\<lparr>entries := entries db @ [new_entry e now fresh u agent i run name r]\<rparr>)"
    "quota_apply ((ensure_usage_row db u)\<lparr>entries := entries db @ [new_entry e now fresh u agent i run name r]\<rparr>)
       \<lparr>q_userID = u, q_limits = limits, q_usage = usage_of db u\<rparr> 0 (int (length (eq_body r))) = Inr (db2, q)"
    "(if eq_kind r = ''output'' then output_review db2 now i run = Inr db' \<and>
         x = entry_of_row (new_entry e now fresh u agent i run name r) StatusNeedsReview ''output''
      else db' = db2 \<and> x = entry_of_row (new_entry e now fresh u agent i run name r) (tk_status t) (tk_review t))"
proof -
  let ?db = "ensure_usage_row db u"
  from assms obtain limits t name db1 db2 q where
    t: "query_row ErrNotFound (\<lambda>t. tk_owner t = u \<and> tk_id t = i \<and> (agent \<noteq> [] \<longrightarrow> tk_assignee t = Some agent)) (tasks db) = Inr t"
    and g: "entry_run_guard agent r t = Inr ()" "entry_author_name ?db u agent author = Inr name"
    and cnt: "count_where (\<lambda>c. er_task c = i) (entries db) < MaxTaskEntries"
    and ins: "insert_entry ?db (new_entry e now fresh u agent i run name r) = Inr db1"
    and ap: "quota_apply db1 \<lparr>q_userID = u, q_limits = limits, q_usage = usage_of db u\<rparr> 0 (int (length (eq_body r))) = Inr (db2, q)"
    and out: "(if eq_kind r = ''output'' then rbind (output_review db2 now i run) (\<lambda>db3. Inr (db3,
          entry_of_row (new_entry e now fresh u agent i run name r) StatusNeedsReview ''output''))
       else Inr (db2, entry_of_row (new_entry e now fresh u agent i run name r) (tk_status t) (tk_review t))) = Inr (db', x)"
    unfolding create_entry_def Let_def
    by (elim rbind_elims) (simp only: lockStorageQuota_eq_Inr, elim exE conjE, hypsubst,
        simp (no_asm_use) only: ensure_usage_row_frame, rule that, assumption, simp, assumption+)
  have db1: "db1 = ?db\<lparr>entries := entries db @ [new_entry e now fresh u agent i run name r]\<rparr>"
    using ins unfolding insert_entry_def by (elim rbind_elims) simp
  have "(if eq_kind r = ''output'' then output_review db2 now i run = Inr db' \<and>
         x = entry_of_row (new_entry e now fresh u agent i run name r) StatusNeedsReview ''output''
      else db' = db2 \<and> x = entry_of_row (new_entry e now fresh u agent i run name r) (tk_status t) (tk_review t))"
    using out by (cases "eq_kind r = ''output''") (auto simp: rbind_eq_Inr)
  then show thesis
    using that [of t name limits db2 q] query_row_InrD [OF t] g cnt ins ap unfolding db1 by simp
qed

lemma output_review_InrD:
  assumes "output_review db now i run = Inr db'"
  shows "\<exists>f. db' = db\<lparr>tasks := map f (tasks db)\<rparr> \<and> (\<forall>t. f t = t \<or> f t = set_reviewed now t \<and> tk_id t = i
    \<and> (run \<noteq> None \<longrightarrow> tk_status t = StatusWorking \<and> tk_run t = run))"
proof -
  have "db' = db\<lparr>tasks := map (\<lambda>t. if tk_id t = i \<and> (run \<noteq> None \<longrightarrow> tk_status t = StatusWorking \<and> tk_run t = run)
      then set_reviewed now t else t) (tasks db)\<rparr>"
    using assms unfolding output_review_def Let_def by (elim rbind_elims) (simp add: map_update_where_eq)
  then show ?thesis
    by (intro exI [of _ "\<lambda>t. if tk_id t = i \<and> (run \<noteq> None \<longrightarrow> tk_status t = StatusWorking \<and> tk_run t = run)
      then set_reviewed now t else t"]) auto
qed

lemma output_review_inv:
  assumes inv: "store_inv db" and run: "output_review db now i run = Inr db'"
  shows "store_inv db' \<and> buckets db' = buckets db"
proof -
  obtain f where db': "db' = db\<lparr>tasks := map f (tasks db)\<rparr>" and f: "\<And>t. f t = t \<or> f t = set_reviewed now t"
    using output_review_InrD [OF run] by blast
  have s: "structure_ok db" using inv by (simp add: store_inv_def)
  have "store_inv db'"
  proof (rule tasks_map_inv_same [OF inv, where f = f])
    fix t assume t: "t \<in> set (tasks db)"
    show "task_row_ok (f t)" using f [of t] task_rowD [OF s t] set_reviewed_ok by metis
    show "tk_id (f t) = tk_id t \<and> tk_parent (f t) = tk_parent t \<and> tk_owner (f t) = tk_owner t
      \<and> tk_bucket (f t) = tk_bucket t \<and> tk_assignee (f t) = tk_assignee t \<and> storage_bytes (f t) = storage_bytes t"
      using f [of t] by auto
  qed (simp_all add: db' usage_of_def)
  then show ?thesis by (simp add: db')
qed

lemma new_entry_simps [simp]:
  "er_id (new_entry e now fresh u a i run name r) = fresh" "er_task (new_entry e now fresh u a i run name r) = i"
  "er_body (new_entry e now fresh u a i run name r) = eq_body r" "er_kind (new_entry e now fresh u a i run name r) = eq_kind r"
  "er_run (new_entry e now fresh u a i run name r) = run" "er_key (new_entry e now fresh u a i run name r) = nullif_empty (eq_key r)"
  "er_hash (new_entry e now fresh u a i run name r) = cardEntryFingerprint e (eq_kind r) (eq_body r)"
  "(er_author_kind (new_entry e now fresh u a i run name r), er_author (new_entry e now fresh u a i run name r)) = entry_author u a"
  by (simp_all add: new_entry_def)

lemma create_entry_inv:
  assumes inv: "store_inv db" and run: "create_entry e db now fresh u agent author i r q = Inr (db', x)"
  shows "store_inv db' \<and> buckets db' = buckets db"
  using run
proof (rule create_entry_InrE)
  fix t :: task_row and name limits db2 qq
  let ?db = "ensure_usage_row db u" and ?c = "new_entry e now fresh u agent i r name q"
  let ?db1 = "?db\<lparr>entries := entries db @ [?c]\<rparr>"
  assume t: "t \<in> set (tasks db)" "tk_owner t = u" "tk_id t = i" and ins: "insert_entry ?db ?c = Inr ?db1"
    and ap: "quota_apply ?db1 \<lparr>q_userID = u, q_limits = limits, q_usage = usage_of db u\<rparr> 0 (int (length (eq_body q))) = Inr (db2, qq)"
    and out: "if eq_kind q = ''output'' then output_review db2 now i r = Inr db' \<and> x = entry_of_row ?c StatusNeedsReview ''output''
      else db' = db2 \<and> x = entry_of_row ?c (tk_status t) (tk_review t)"
  have s: "structure_ok ?db" and a: "accounting_ok ?db" using inv by (simp_all add: store_inv_def)
  have fresh: "fresh \<notin> set (map er_id (entries ?db))"
    using ins unfolding insert_entry_def by (elim rbind_elims) simp
  have "structure_ok (?db\<lparr>entries := entries ?db @ [?c]\<rparr>)"
    using t by (intro structure_entry_added [OF s]) (use fresh in auto)
  then have "structure_ok ?db1" by simp
  then have s2: "structure_ok db2" by (rule structure_cong) (use quota_apply_frame [OF ap] in simp_all)
  have u1: "usage_of ?db1 v = usage_of db v" for v using usage_of_ensure [of db u v] by (simp add: usage_of_def)
  have h1: "has_usage_row ?db1 u" using has_usage_row_ensure [of db u] by (simp add: has_usage_row_def)
  have "accounting_ok db2"
  proof (rule accounting_moved [OF a, where u = u])
    show "stored_tasks_of db2 v = stored_tasks_of ?db v + (if v = u then 0 else 0)" for v
      by (simp add: stored_tasks_of_def quota_apply_frame [OF ap])
    show "stored_bytes_of db2 v = stored_bytes_of ?db v + (if v = u then int (length (eq_body q)) else 0)" for v
      using stored_entry_added [OF s, of t ?c v] t stored_of_cong(2) [OF quota_apply_frame(5,6) [OF ap], of v] by simp
    show "usage_of db2 v = (if v = u then moved_usage (usage_of ?db v) 0 (int (length (eq_body q))) else usage_of ?db v)" for v
      using quota_apply_moves [OF ap, of v] u1 h1 by simp
  qed
  then have inv2: "store_inv db2" using s2 by (simp add: store_inv_def)
  have b2: "buckets db2 = buckets db" using quota_apply_frame [OF ap] by simp
  show ?thesis
  proof (cases "eq_kind q = ''output''")
    case True
    then show ?thesis using output_review_inv [OF inv2] out b2 by auto
  qed (use out inv2 b2 in simp)
qed

lemma CreateTaskEntry_cases:
  assumes "CreateTaskEntry e db now fresh u agent author taskID input = Inr (db', x)"
  obtains (replay) i run r where "entry_check taskID input = Inr r" "uuid_in e taskID = Some i"
      "run = (if eq_run r = [] then None else uuid_in e (eq_run r))" "eq_run r \<noteq> [] \<longrightarrow> run \<noteq> None"
      "eq_key r \<noteq> []" "entry_replay e db u agent i run r = Some (Inr x)" "db' = db"
  | (new) i run r where "entry_check taskID input = Inr r" "uuid_in e taskID = Some i"
      "run = (if eq_run r = [] then None else uuid_in e (eq_run r))" "eq_run r \<noteq> [] \<longrightarrow> run \<noteq> None"
      "eq_key r = [] \<or> entry_replay e db u agent i run r = None"
      "create_entry e db now fresh u agent author i run r = Inr (db', x)"
  using assms unfolding CreateTaskEntry_def
proof (elim rbind_elims)
  fix r i run
  assume r: "entry_check taskID input = Inr r" and i: "uuid_arg e taskID = Inr i"
    and run: "(if eq_run r = [] then Inr None else rbind (uuid_arg e (eq_run r)) (\<lambda>v. Inr (Some v))) = Inr run"
    and res: "(if eq_key r \<noteq> [] then (case entry_replay e db u agent i run r of
          Some outcome \<Rightarrow> rbind outcome (\<lambda>x. Inr (db, x))
        | None \<Rightarrow> create_entry e db now fresh u agent author i run r)
     else create_entry e db now fresh u agent author i run r) = Inr (db', x)"
  have run': "run = (if eq_run r = [] then None else uuid_in e (eq_run r))" "eq_run r \<noteq> [] \<longrightarrow> run \<noteq> None"
    using run by (cases "eq_run r = []"; auto simp: rbind_eq_Inr)+
  show thesis
  proof (cases "eq_key r \<noteq> [] \<and> entry_replay e db u agent i run r \<noteq> None")
    case True
    then show thesis using replay [OF r _ run'(1,2)] i res by (auto simp: rbind_eq_Inr)
  next
    case False
    then show thesis using new [OF r _ run'(1,2)] i res by (auto split: if_splits option.splits)
  qed
qed

lemma CreateTaskEntry_inv:
  assumes "store_inv db" "CreateTaskEntry e db now fresh u agent author taskID input = Inr (db', x)"
  shows "store_inv db' \<and> buckets db' = buckets db"
  using assms(2) by (cases rule: CreateTaskEntry_cases) (use assms(1) create_entry_inv in auto)

subsection \<open>What posting an entry guarantees\<close>

lemma create_entry_task:
  assumes inv: "store_inv db" and run: "create_entry e db now fresh u agent author i run r = Inr (db', x)"
  obtains t t' name where "t \<in> set (tasks db)" "tk_owner t = u" "tk_id t = i" "agent \<noteq> [] \<longrightarrow> tk_assignee t = Some agent"
    "entry_run_guard agent r t = Inr ()" "entries db' = entries db @ [new_entry e now fresh u agent i run name r]"
    "tasks db' = map (\<lambda>y. if tk_id y = i then t' else y) (tasks db)"
    "t' = (if eq_kind r = ''output'' then set_reviewed now t else t)"
    "x = entry_of_row (new_entry e now fresh u agent i run name r) (tk_status t') (tk_review t')"
    "agent_rows db' = agent_rows db" "count_where (\<lambda>c. er_task c = i) (entries db) < MaxTaskEntries"
    "usage_of db' u = moved_usage (usage_of db u) 0 (int (length (eq_body r)))"
    "eq_kind r = ''output'' \<and> run \<noteq> None \<longrightarrow> tk_status t = StatusWorking \<and> tk_run t = run"
  using run
proof (rule create_entry_InrE)
  fix t :: task_row and name limits db2 q
  let ?db = "ensure_usage_row db u" and ?c = "new_entry e now fresh u agent i run name r"
  let ?db1 = "?db\<lparr>entries := entries db @ [?c]\<rparr>"
  assume t: "t \<in> set (tasks db)" "tk_owner t = u" "tk_id t = i" "agent \<noteq> [] \<longrightarrow> tk_assignee t = Some agent"
    and g: "entry_run_guard agent r t = Inr ()" and cnt: "count_where (\<lambda>c. er_task c = i) (entries db) < MaxTaskEntries"
    and ap: "quota_apply ?db1 \<lparr>q_userID = u, q_limits = limits, q_usage = usage_of db u\<rparr> 0 (int (length (eq_body r))) = Inr (db2, q)"
    and out: "if eq_kind r = ''output'' then output_review db2 now i run = Inr db' \<and> x = entry_of_row ?c StatusNeedsReview ''output''
      else db' = db2 \<and> x = entry_of_row ?c (tk_status t) (tk_review t)"
  have s: "structure_ok db" using inv by (simp add: store_inv_def)
  note fr = quota_apply_frame [OF ap]
  have u1: "usage_of ?db1 v = usage_of db v" for v using usage_of_ensure [of db u v] by (simp add: usage_of_def)
  have h1: "has_usage_row ?db1 u" using has_usage_row_ensure [of db u] by (simp add: has_usage_row_def)
  have use2: "usage_of db2 u = moved_usage (usage_of db u) 0 (int (length (eq_body r)))"
    using quota_apply_moves [OF ap, of u] u1 h1 by simp
  define t' where "t' = (if eq_kind r = ''output'' then set_reviewed now t else t)"
  have me: "y = t" if "y \<in> set (tasks db)" "tk_id y = i" for y using task_idD [OF s that(1) t(1)] that t(3) by simp
  have rows: "db' = db2\<lparr>tasks := map (\<lambda>y. if tk_id y = i then t' else y) (tasks db)\<rparr>
      \<and> (eq_kind r = ''output'' \<and> run \<noteq> None \<longrightarrow> tk_status t = StatusWorking \<and> tk_run t = run)"
  proof (cases "eq_kind r = ''output''")
    case True
    let ?hit = "\<lambda>y. tk_id y = i \<and> (run \<noteq> None \<longrightarrow> tk_status y = StatusWorking \<and> tk_run y = run)"
    have one: "count_where ?hit (tasks db) = 1" and db': "db' = db2\<lparr>tasks := update_where ?hit (set_reviewed now) (tasks db)\<rparr>"
      using out True fr unfolding output_review_def Let_def by (auto elim!: rbind_elims)
    have "\<exists>y \<in> set (tasks db). ?hit y"
      using one by (auto simp: count_where_def length_Suc_conv filter_eq_Cons_iff)
    then have "?hit t" using me by blast
    then have "update_where ?hit (set_reviewed now) (tasks db) = map (\<lambda>y. if tk_id y = i then t' else y) (tasks db)"
      using me True by (auto simp: map_update_where_eq t'_def)
    then show ?thesis using db' \<open>?hit t\<close> by simp
  next
    case False
    have "map (\<lambda>y. if tk_id y = i then t' else y) (tasks db) = tasks db2"
      using me False fr by (auto simp: t'_def intro!: map_idI)
    then show ?thesis using out False by simp
  qed
  show thesis
  proof (rule that [OF t g _ _ t'_def _ _ cnt])
    show "entries db' = entries db @ [?c]" "agent_rows db' = agent_rows db" using rows fr by simp_all
    show "tasks db' = map (\<lambda>y. if tk_id y = i then t' else y) (tasks db)" using rows by simp
    show "x = entry_of_row ?c (tk_status t') (tk_review t')" using out by (auto simp: t'_def split: if_splits)
    show "usage_of db' u = moved_usage (usage_of db u) 0 (int (length (eq_body r)))" using rows use2 by (simp add: usage_of_def)
    show "eq_kind r = ''output'' \<and> run \<noteq> None \<longrightarrow> tk_status t = StatusWorking \<and> tk_run t = run" using rows by simp
  qed
qed

text \<open>The run identifiers stored with tasks are in the form PostgreSQL prints.\<close>

definition runs_canonical :: "env \<Rightarrow> db \<Rightarrow> bool" where
  "runs_canonical e db \<longleftrightarrow> list_all (\<lambda>t. opt_all (\<lambda>v. v \<noteq> [] \<and> uuid_in e v = Some v) (tk_run t)) (tasks db)"

lemma entry_check_InrD:
  assumes "entry_check taskID input = Inr r"
  shows "eq_key r = TrimSpace (ceIdempotencyKey input)" "eq_run r = TrimSpace (ceRunID input)"
    "eq_body r = TrimSpace (ceBody input)" "eq_kind r = TrimSpace (ceKind input)"
    "length (eq_body r) \<le> TaskEntryBytes" "eq_body r \<noteq> []" "eq_kind r = ''comment'' \<or> eq_kind r = ''output''"
  using assms unfolding entry_check_def Let_def by (auto elim!: rbind_elims)

lemma run_guard_run:
  assumes "runs_canonical e db" "t \<in> set (tasks db)" "entry_run_guard agent r t = Inr ()" "agent \<noteq> []"
    and "run = (if eq_run r = [] then None else uuid_in e (eq_run r))"
  shows "tk_run t = run" "null_text run = eq_run r" "run \<noteq> None \<longrightarrow> tk_status t = StatusWorking"
proof -
  have "opt_all (\<lambda>v. v \<noteq> [] \<and> uuid_in e v = Some v) (tk_run t)" using assms by (simp add: runs_canonical_def list_all_iff)
  then show "tk_run t = run" "null_text run = eq_run r" "run \<noteq> None \<longrightarrow> tk_status t = StatusWorking"
    using assms(3-) by (cases "tk_run t"; auto simp: entry_run_guard_def Let_def split: if_splits)+
qed

lemma uuid_arg_eq: "uuid_in e s = Some v \<Longrightarrow> uuid_arg e s = Inr v"
  by simp

lemma run_arg_eq:
  assumes "run = (if eq_run r = [] then None else uuid_in e (eq_run r))" "eq_run r \<noteq> [] \<longrightarrow> run \<noteq> None"
  shows "(if eq_run r = [] then Inr None else rbind (uuid_arg e (eq_run r)) (\<lambda>v. Inr (Some v))) = Inr run"
  using assms by (cases "eq_run r = []") (auto simp: rbind_eq_Inr)

lemma find_key_map:
  assumes "t \<in> set ts" "distinct (map tk_id ts)" "P t'" "tk_id t' = tk_id t" "\<And>y. P y \<Longrightarrow> tk_id y = tk_id t"
  shows "List.find P (map (\<lambda>y. if tk_id y = tk_id t then t' else y) ts) = Some t'"
proof (rule find_unique_key [where k = tk_id])
  have "map tk_id (map (\<lambda>y. if tk_id y = tk_id t then t' else y) ts) = map tk_id ts" using assms(4) by auto
  note ids = this
  show "distinct (map tk_id (map (\<lambda>y. if tk_id y = tk_id t then t' else y) ts))" unfolding ids by (rule assms(2))
  show "t' \<in> set (map (\<lambda>y. if tk_id y = tk_id t then t' else y) ts)" using assms(1) by (auto intro!: image_eqI [of _ _ t])
qed (use assms in auto)

lemma entry_replay_after:
  assumes inv: "store_inv db" and can: "runs_canonical e db" and key: "eq_key r \<noteq> []"
    and run: "run = (if eq_run r = [] then None else uuid_in e (eq_run r))" and canon: "agent \<noteq> [] \<or> eq_run r = []"
    and none: "entry_replay e db u agent i run r = None"
    and ok: "create_entry e db now fresh u agent author i run r = Inr (db', x)"
  shows "entry_replay e db' u agent i run r = Some (Inr x)"
  using inv ok
proof (rule create_entry_task)
  fix t t' :: task_row and name
  let ?c = "new_entry e now fresh u agent i run name r"
  assume t: "t \<in> set (tasks db)" "tk_owner t = u" "tk_id t = i" "agent \<noteq> [] \<longrightarrow> tk_assignee t = Some agent"
    and g: "entry_run_guard agent r t = Inr ()" and es: "entries db' = entries db @ [?c]"
    and ts: "tasks db' = map (\<lambda>y. if tk_id y = i then t' else y) (tasks db)"
    and t': "t' = (if eq_kind r = ''output'' then set_reviewed now t else t)"
    and x: "x = entry_of_row ?c (tk_status t') (tk_review t')"
  have s: "structure_ok db" using inv by (simp add: store_inv_def)
  have dist: "distinct (map tk_id (tasks db))" using s by (simp add: structure_defs)
  note held = run_guard_run [OF can t(1) g _ run]
  have rt: "null_text run = eq_run r" using held canon run by (cases "agent = []") auto
  have rep: "replayable u agent i run t" using t held by (auto simp: replayable_def)
  have "List.find (replayable u agent i run) (tasks db) \<noteq> None"
    using rep t(1) by (auto simp: find_None_iff)
  then have old: "List.find (keyed_entry u agent i (eq_key r)) (entries db) = None"
    using none by (auto simp: entry_replay_def split: option.splits if_splits)
  have "keyed_entry u agent i (eq_key r) ?c"
    using key by (simp add: keyed_entry_def nullif_empty_def)
  then have fc: "List.find (keyed_entry u agent i (eq_key r)) (entries db') = Some ?c"
    by (simp add: es find_append old)
  have "replayable u agent i run t'" using rep by (simp add: t' replayable_def)
  then have ft: "List.find (replayable u agent i run) (tasks db') = Some t'"
    using find_key_map [OF t(1) dist, of "replayable u agent i run" t'] t(3) t' by (auto simp: ts replayable_def)
  have st: "tk_review t = []" if "tk_status t = StatusWorking"
    using task_rowD [OF s t(1)] that by (auto simp: task_row_ok_def)
  show ?thesis
  proof (cases "eq_run r = []")
    case True
    then show ?thesis using rt by (simp add: entry_replay_def ft fc x)
  next
    case False
    then have "agent \<noteq> []" "run \<noteq> None" using canon rt by (cases run; auto)+
    then have "tk_status t = StatusWorking" using held by blast
    then show ?thesis using False rt st by (simp add: entry_replay_def ft fc x t')
  qed
qed

text \<open>
  C36: Posting an entry again with the same idempotency key, by the same author to the same
  task, returns the entry of the first request and changes nothing, whatever the clock says
  and whatever identifier the database would have drawn. Agents may be inside a managed run.
\<close>

theorem CreateTaskEntry_retry:
  assumes inv: "store_inv db" and can: "runs_canonical e db"
    and run: "CreateTaskEntry e db now fresh u agent author taskID input = Inr (db', x)"
    and key: "TrimSpace (ceIdempotencyKey input) \<noteq> []" and canon: "agent \<noteq> [] \<or> TrimSpace (ceRunID input) = []"
  shows "CreateTaskEntry e db' now2 fresh2 u agent author2 taskID input = Inr (db', x)"
  using run
proof (cases rule: CreateTaskEntry_cases)
  case (replay i rr r)
  then show ?thesis by (simp add: CreateTaskEntry_def uuid_arg_eq run_arg_eq)
next
  case (new i rr r)
  have k: "eq_key r \<noteq> []" "agent \<noteq> [] \<or> eq_run r = []" using entry_check_InrD [OF new(1)] key canon by simp_all
  then have "entry_replay e db u agent i rr r = None" using new(5) by blast
  from entry_replay_after [OF inv can k(1) new(3) k(2) this new(6)]
  have rep: "entry_replay e db' u agent i rr r = Some (Inr x)" .
  show ?thesis using new(1-4) k(1) rep by (simp add: CreateTaskEntry_def uuid_arg_eq run_arg_eq)
qed

definition ex_post :: CreateTaskEntryInput where
  "ex_post = \<lparr>ceKind = ''output'', ceBody = ''Result'', ceIdempotencyKey = ''k1'', ceRunID = []\<rparr>"

lemma ex_runs_canonical: "runs_canonical ex_env ex_db"
  by code_simp

lemma ex_post_runs:
  obtains db' x where "CreateTaskEntry ex_env ex_db 9 ''e2'' ''u1'' ex_agent_uuid [] ex_task_uuid ex_post = Inr (db', x)"
proof -
  have "case CreateTaskEntry ex_env ex_db 9 ''e2'' ''u1'' ex_agent_uuid [] ex_task_uuid ex_post of Inr (db', x) \<Rightarrow> True | Inl _ \<Rightarrow> False"
    by code_simp
  then show thesis using that by (auto split: sum.splits)
qed

theorem CreateTaskEntry_retry_witness:
  "\<exists>db' x. CreateTaskEntry ex_env ex_db 9 ''e2'' ''u1'' ex_agent_uuid [] ex_task_uuid ex_post = Inr (db', x) \<and>
     CreateTaskEntry ex_env db' 10 ''e3'' ''u1'' ex_agent_uuid [] ex_task_uuid ex_post = Inr (db', x)"
proof -
  obtain db' x where run: "CreateTaskEntry ex_env ex_db 9 ''e2'' ''u1'' ex_agent_uuid [] ex_task_uuid ex_post = Inr (db', x)"
    by (rule ex_post_runs)
  have "TrimSpace (ceIdempotencyKey ex_post) \<noteq> []" "ex_agent_uuid \<noteq> []" by code_simp+
  then show ?thesis using CreateTaskEntry_retry [OF ex_store_inv ex_runs_canonical run] run by blast
qed

text \<open>
  C37: An entry that was not a replay appends one row to the conversation of a task of the
  account, within 16 KiB and with at most 200 entries on that task. An agent posts only to a
  task assigned to it; if a managed run holds the task, the request names that run and the
  task is still being worked on, and without a run it names none. An output sends exactly that
  task to review; a comment changes no task.
\<close>

theorem CreateTaskEntry_effect:
  assumes inv: "store_inv db" and run: "CreateTaskEntry e db now fresh u agent author taskID input = Inr (db', x)"
    and new: "db' \<noteq> db"
  shows "\<exists>t \<in> set (tasks db). \<exists>c t'. uuid_in e taskID = Some (tk_id t) \<and> tk_owner t = u
    \<and> entries db' = entries db @ [c] \<and> er_task c = tk_id t \<and> er_body c = TrimSpace (ceBody input)
    \<and> length (er_body c) \<le> TaskEntryBytes \<and> count_where (\<lambda>c. er_task c = tk_id t) (entries db') \<le> MaxTaskEntries
    \<and> (agent \<noteq> [] \<longrightarrow> tk_assignee t = Some agent \<and> null_text (tk_run t) = TrimSpace (ceRunID input)
         \<and> (null_text (tk_run t) \<noteq> [] \<longrightarrow> tk_status t = StatusWorking))
    \<and> tasks db' = map (\<lambda>y. if tk_id y = tk_id t then t' else y) (tasks db)
    \<and> t' = (if TrimSpace (ceKind input) = ''output'' then set_reviewed now t else t)"
  using run
proof (cases rule: CreateTaskEntry_cases)
  case (replay i rr r)
  then show ?thesis using new by simp
next
  case (new i rr r)
  note chk = entry_check_InrD [OF new(1)]
  from inv new(6) show ?thesis
  proof (rule create_entry_task)
    fix t t' :: task_row and name
    let ?c = "new_entry e now fresh u agent i rr name r"
    assume t: "t \<in> set (tasks db)" "tk_owner t = u" "tk_id t = i" "agent \<noteq> [] \<longrightarrow> tk_assignee t = Some agent"
      and g: "entry_run_guard agent r t = Inr ()" and es: "entries db' = entries db @ [?c]"
      and ts: "tasks db' = map (\<lambda>y. if tk_id y = i then t' else y) (tasks db)"
      and t': "t' = (if eq_kind r = ''output'' then set_reviewed now t else t)"
      and cnt: "count_where (\<lambda>c. er_task c = i) (entries db) < MaxTaskEntries"
    have "agent \<noteq> [] \<longrightarrow> null_text (tk_run t) = eq_run r \<and> (null_text (tk_run t) \<noteq> [] \<longrightarrow> tk_status t = StatusWorking)"
      using g by (auto simp: entry_run_guard_def Let_def split: if_splits)
    then show ?thesis
      using t es ts t' cnt new(2) chk by (intro bexI [OF _ t(1)] exI [of _ ?c] exI [of _ t']) simp
  qed
qed

theorem CreateTaskEntry_effect_witness:
  "\<exists>db' x. CreateTaskEntry ex_env ex_db 9 ''e2'' ''u1'' ex_agent_uuid [] ex_task_uuid ex_post = Inr (db', x) \<and>
     (\<exists>c. entries db' = entries ex_db @ [c] \<and> er_task c = ex_task_uuid)"
proof -
  have "case CreateTaskEntry ex_env ex_db 9 ''e2'' ''u1'' ex_agent_uuid [] ex_task_uuid ex_post of
      Inr (db', x) \<Rightarrow> length (entries db') \<noteq> length (entries ex_db) | Inl _ \<Rightarrow> False"
    by code_simp
  then obtain db' x where run: "CreateTaskEntry ex_env ex_db 9 ''e2'' ''u1'' ex_agent_uuid [] ex_task_uuid ex_post = Inr (db', x)"
    and ne: "db' \<noteq> ex_db"
    by (auto split: sum.splits)
  have i: "uuid_in ex_env ex_task_uuid = Some ex_task_uuid" by code_simp
  obtain t :: task_row and c where "uuid_in ex_env ex_task_uuid = Some (tk_id t)" "entries db' = entries ex_db @ [c]" "er_task c = tk_id t"
    using CreateTaskEntry_effect [OF ex_store_inv run ne] by blast
  then show ?thesis using run i by auto
qed

end
