(* ===== verification/Systems.thy ===== *)
theory Systems
  imports Main
begin

section \<open>Transition systems and their invariants\<close>

text \<open>
  A component whose transactions follow one another is a transition system: the states it may
  start in and a step relation. The locale \<open>invariant_system\<close> is the contract every operation
  of such a component has to meet; what it gives is the invariant in every reachable state. It
  is interpreted on the account system, which contains the boards store, on the HTTP server, on
  the rate limiter and on the processes of a deployment.
\<close>

inductive reachable :: "('s \<Rightarrow> bool) \<Rightarrow> ('s \<Rightarrow> 's \<Rightarrow> bool) \<Rightarrow> 's \<Rightarrow> bool" for init step where
  reachable_start: "init s \<Longrightarrow> reachable init step s"
| reachable_step: "reachable init step s \<Longrightarrow> step s s' \<Longrightarrow> reachable init step s'"

locale invariant_system =
  fixes init :: "'s \<Rightarrow> bool" and step :: "'s \<Rightarrow> 's \<Rightarrow> bool" and good :: "'s \<Rightarrow> bool"
  assumes good_start: "init s \<Longrightarrow> good s"
    and good_step: "good s \<Longrightarrow> step s s' \<Longrightarrow> good s'"
begin

lemma good_reachable: "reachable init step s \<Longrightarrow> good s"
  by (induction rule: reachable.induct) (auto intro: good_start good_step)

lemma good_steps: "step\<^sup>*\<^sup>* s s' \<Longrightarrow> good s \<Longrightarrow> good s'"
  by (induction rule: rtranclp_induct) (auto intro: good_step)

end

lemma reachable_steps: "step\<^sup>*\<^sup>* s s' \<Longrightarrow> reachable init step s \<Longrightarrow> reachable init step s'"
  by (induction rule: rtranclp_induct) (auto intro: reachable_step)

end
