(* ===== verification/Accounts.thy ===== *)
theory Accounts
  imports Entries Systems
begin

section \<open>Accounts, sessions and tokens (auth/pgstore.go)\<close>

text \<open>
  The account tables and the statements of \<open>PGStore\<close>. The state wraps the tables of the boards
  store, which the account operations share: a new member gets its default lists, and deleting
  an agent unassigns its tasks. Timestamps and durations are in microseconds, the resolution of
  the database. Passwords and tokens appear only as the hashes the callers computed.
\<close>

subsection \<open>Types\<close>

record Usage =
  usLists :: int
  usMaxActiveItemsPerList :: int
  usAgents :: int
  usStoredTasks :: int
  usStoredContentBytes :: int
  usAPITokens :: int

definition no_usage :: Usage where
  "no_usage = \<lparr>usLists = 0, usMaxActiveItemsPerList = 0, usAgents = 0, usStoredTasks = 0, usStoredContentBytes = 0, usAPITokens = 0\<rparr>"

record User =
  uID :: string
  uEmail :: string
  uRole :: string
  uTheme :: string
  uDisplayName :: string
  uAgentID :: string
  uAgentPurpose :: string
  uEntitlement :: Entitlement
  uUsage :: Usage

record APIToken =
  atID :: string
  atName :: string
  atLastUsedAt :: "int option"
  atCreatedAt :: int

record PasswordResetRequest =
  prID :: string
  prEmail :: string
  prAttempts :: int

record MemberAccount =
  maEmail :: string
  maDisabledAt :: "int option"
  maCreatedAt :: int

datatype auth_error = ErrEmailTaken | ErrInvalidAuth | ErrUnauthorized | ErrAdminExists | ErrMemberNotFound | ErrInvalidResetToken
  | ErrNoPendingReset | ErrAPITokenLimit | ErrAgentLimit | ErrAgentNameTaken | ErrAgentNotFound | ErrIdempotencyConflict
  | ErrCheck | ErrAuthDB pg_error

subsection \<open>Tables\<close>

record session_row =
  se_user :: string
  se_hash :: string
  se_expires :: int

record api_token_row =
  ap_id :: string
  ap_user :: string
  ap_name :: string
  ap_hash :: string
  ap_last_used :: "int option"
  ap_revoked :: "int option"
  ap_created :: int

record credential_row =
  cd_id :: string
  cd_agent :: string
  cd_hash :: string
  cd_prefix :: "string option"
  cd_last_used :: "int option"
  cd_revoked :: "int option"
  cd_created :: int
  cd_updated :: int

record rotation_row =
  ro_owner :: string
  ro_key :: string
  ro_agent :: string
  ro_credential :: string
  ro_created :: int

record reset_token_row =
  rt_user :: string
  rt_hash :: string
  rt_expires :: int
  rt_used :: "int option"

record reset_request_row =
  rr_id :: string
  rr_email :: string
  rr_available :: int
  rr_claimed :: "int option"
  rr_attempts :: int
  rr_processed :: "int option"
  rr_created :: int

record attempt_row =
  aw_dimension :: string
  aw_hash :: string
  aw_started :: int
  aw_attempts :: int

record auth_db =
  store :: db
  sessions :: "session_row list"
  api_tokens :: "api_token_row list"
  credentials :: "credential_row list"
  rotations :: "rotation_row list"
  reset_tokens :: "reset_token_row list"
  reset_requests :: "reset_request_row list"
  signup_limits :: "attempt_row list"
  reset_limits :: "attempt_row list"
  confirm_limits :: "attempt_row list"

type_synonym 'a auth_tx = "(auth_error, auth_db \<times> 'a) result"

definition hours24 :: int where "hours24 = 24 * 60 * 60 * 1000000"
definition minutes5 :: int where "minutes5 = 5 * 60 * 1000000"

definition auth_uuid :: "env \<Rightarrow> string \<Rightarrow> (auth_error, string) result" where
  "auth_uuid e s = (case uuid_in e s of None \<Rightarrow> Inl (ErrAuthDB InvalidUUID) | Some v \<Rightarrow> Inr v)"

lemma auth_uuid_eq_Inr [simp, result_simps]: "auth_uuid e s = Inr v \<longleftrightarrow> uuid_in e s = Some v"
  by (auto simp: auth_uuid_def split: option.splits)

subsection \<open>Users and entitlements\<close>

definition stored_entitlement :: "db \<Rightarrow> string \<Rightarrow> string \<times> string" where
  "stored_entitlement db userID = (case List.find (\<lambda>e. en_user e = userID) (entitlement_rows db) of
     None \<Rightarrow> ([], []) | Some e \<Rightarrow> (en_plan e, en_source e))"

definition resolved :: "db \<Rightarrow> user_row \<Rightarrow> Entitlement" where
  "resolved db u = (let (plan, source) = stored_entitlement db (us_id u) in Resolve (us_role u) plan source)"

definition user_of_row :: "db \<Rightarrow> user_row \<Rightarrow> User" where
  "user_of_row db u = \<lparr>uID = us_id u, uEmail = us_email u, uRole = us_role u, uTheme = us_theme u, uDisplayName = us_name u,
     uAgentID = [], uAgentPurpose = [], uEntitlement = resolved db u, uUsage = no_usage\<rparr>"

definition resolvedEntitlementForLockedUser :: "db \<Rightarrow> string \<Rightarrow> (auth_error, Entitlement) result" where
  "resolvedEntitlementForLockedUser db userID =
     rbind (query_row ErrUnauthorized (\<lambda>u. us_id u = userID \<and> \<not> us_disabled u) (users db)) (\<lambda>u. Inr (resolved db u))"

text \<open>The part of an address before the first \<open>@\<close>: \<open>split_part($1, '@', 1)\<close>.\<close>

definition split_local :: "string \<Rightarrow> string" where
  "split_local email = takeWhile (\<lambda>c. c \<noteq> CHR ''@'') email"

definition insert_user :: "db \<Rightarrow> int \<Rightarrow> string \<Rightarrow> string \<Rightarrow> string \<Rightarrow> string \<Rightarrow> (auth_error, db \<times> user_row) result" where
  "insert_user db now fresh email passwordHash role =
     (let row = \<lparr>us_id = fresh, us_email = email, us_password = passwordHash, us_role = role, us_theme = ''light'',
                  us_name = split_local email, us_disabled_at = None, us_created = now\<rparr> in
      rbind (require (email \<notin> set (map us_email (users db)) \<and> fresh \<notin> set (map us_id (users db))) ErrEmailTaken) (\<lambda>_.
      Inr (db\<lparr>users := users db @ [row]\<rparr>, row)))"

definition insert_entitlement :: "db \<Rightarrow> string \<Rightarrow> string \<Rightarrow> string \<Rightarrow> (auth_error, db) result" where
  "insert_entitlement db userID plan source =
     rbind (require (userID \<notin> set (map en_user (entitlement_rows db))) (ErrAuthDB UniqueViolation)) (\<lambda>_.
     Inr (db\<lparr>entitlement_rows := entitlement_rows db @ [\<lparr>en_user = userID, en_plan = plan, en_source = source\<rparr>]\<rparr>))"

definition insert_session :: "session_row list \<Rightarrow> session_row \<Rightarrow> (auth_error, session_row list) result" where
  "insert_session rows row =
     rbind (require (se_hash row \<notin> set (map se_hash rows)) (ErrAuthDB UniqueViolation)) (\<lambda>_. Inr (rows @ [row]))"

definition CreateAdmin :: "auth_db \<Rightarrow> int \<Rightarrow> string \<Rightarrow> string \<Rightarrow> string \<Rightarrow> User auth_tx" where
  "CreateAdmin adb now fresh email passwordHash =
     rbind (insert_user (store adb) now fresh email passwordHash ''admin'') (\<lambda>(db1, row).
     rbind (insert_entitlement db1 (us_id row) PlanPro SourceAdmin) (\<lambda>db2.
     Inr (adb\<lparr>store := db2\<rparr>, (user_of_row db1 row)\<lparr>uEntitlement := Pro SourceAdmin\<rparr>)))"

definition defaultLists :: "(string \<times> string \<times> bool) list" where
  "defaultLists =
     [(''Inbox'', ''Capture now, organise later'', True), (''Product'', ''Make the thing more useful'', False),
      (''Content'', ''Publish work that teaches or helps'', False), (''Growth'', ''Reach and serve more people'', False),
      (''Operations'', ''Keep everything running smoothly'', False)]"

text \<open>The identifiers the database draws for the lists are \<open>gen 0\<close>, \<open>gen 1\<close>, and so on.\<close>

fun insert_lists :: "db \<Rightarrow> int \<Rightarrow> string \<Rightarrow> (nat \<Rightarrow> string) \<Rightarrow> nat \<Rightarrow> (string \<times> string \<times> bool) list \<Rightarrow> (auth_error, db) result" where
  "insert_lists db now userID gen index [] = Inr db"
| "insert_lists db now userID gen index ((name, goal, inbox) # rest) =
     (case insert_bucket db (new_bucket now (gen index) userID name goal ''slate'' inbox
              (lim_ActiveItemsPerList ProLimits) (int index)) of
        Inl (ErrDB err) \<Rightarrow> Inl (ErrAuthDB err)
      | Inl _ \<Rightarrow> Inl ErrCheck
      | Inr db1 \<Rightarrow> insert_lists db1 now userID gen (Suc index) rest)"

definition CreateInvitedMember ::
    "auth_db \<Rightarrow> int \<Rightarrow> string \<Rightarrow> (nat \<Rightarrow> string) \<Rightarrow> string \<Rightarrow> string \<Rightarrow> string \<Rightarrow> int \<Rightarrow> User auth_tx" where
  "CreateInvitedMember adb now fresh gen email passwordHash sessionHash expiresAt =
     rbind (insert_user (store adb) now fresh email passwordHash ''member'') (\<lambda>(db1, row).
     rbind (insert_entitlement db1 (us_id row) ''pro'' ''invite_code'') (\<lambda>db2.
     rbind (insert_lists db2 now (us_id row) gen 0 defaultLists) (\<lambda>db3.
     rbind (insert_session (sessions adb) \<lparr>se_user = us_id row, se_hash = sessionHash, se_expires = expiresAt\<rparr>) (\<lambda>ss.
     Inr (adb\<lparr>store := db3, sessions := ss\<rparr>,
       (user_of_row db1 row)\<lparr>uEntitlement := Pro SourceInviteCode, uUsage := no_usage\<lparr>usLists := int (length defaultLists)\<rparr>\<rparr>)))))"

subsection \<open>Attempt windows\<close>

definition drop_old_attempts :: "(attempt_row \<Rightarrow> bool) \<Rightarrow> attempt_row list \<Rightarrow> int \<Rightarrow> attempt_row list" where
  "drop_old_attempts skip rows now =
     (let chosen = take 100 (sort_key aw_started (filter (\<lambda>r. aw_started r < now - hours24 \<and> \<not> skip r) rows)) in
      delete_where (\<lambda>r. r \<in> set chosen) rows)"

definition count_attempt :: "int \<Rightarrow> int \<Rightarrow> attempt_row \<Rightarrow> attempt_row" where
  "count_attempt now window r =
     (if aw_started r \<le> now - window then r\<lparr>aw_started := now, aw_attempts := 1\<rparr>
      else r\<lparr>aw_attempts := aw_attempts r + 1\<rparr>)"

definition attempt_key :: "attempt_row \<Rightarrow> string \<times> string" where
  "attempt_key r = (aw_dimension r, aw_hash r)"

definition upsert_attempt :: "attempt_row list \<Rightarrow> int \<Rightarrow> int \<Rightarrow> string \<times> string \<Rightarrow> (auth_error, attempt_row list \<times> attempt_row) result" where
  "upsert_attempt rows now window k = (case List.find (\<lambda>r. attempt_key r = k) rows of
     None \<Rightarrow> (let r = \<lparr>aw_dimension = fst k, aw_hash = snd k, aw_started = now, aw_attempts = 1\<rparr> in Inr (rows @ [r], r))
   | Some r \<Rightarrow>
       rbind (require (fits_int4 (aw_attempts (count_attempt now window r))) (ErrAuthDB IntegerOutOfRange)) (\<lambda>_.
       Inr (update_where (\<lambda>x. attempt_key x = k) (count_attempt now window) rows, count_attempt now window r)))"

fun consume_keys :: "attempt_row list \<Rightarrow> int \<Rightarrow> int \<Rightarrow> int \<Rightarrow> int \<Rightarrow> (string \<times> string) list \<Rightarrow>
    (auth_error, attempt_row list \<times> int) result" where
  "consume_keys rows now window limit retryAfter [] = Inr (rows, retryAfter)"
| "consume_keys rows now window limit retryAfter (k # ks) =
     rbind (upsert_attempt rows now window k) (\<lambda>(rows1, r).
     let remaining = window - (now - aw_started r) in
     consume_keys rows1 now window limit
       (if aw_attempts r > limit \<and> remaining > retryAfter then remaining else retryAfter) ks)"

text \<open>
  The rows after the attempt, and the time to wait when it is one too many: the transaction
  commits in both cases.
\<close>

definition consumeRateLimit :: "(attempt_row \<Rightarrow> bool) \<Rightarrow> attempt_row list \<Rightarrow> (string \<times> string) list \<Rightarrow> int \<Rightarrow> int \<Rightarrow> int \<Rightarrow>
    (auth_error, attempt_row list \<times> int option) result" where
  "consumeRateLimit skip rows keys now window limit =
     rbind (consume_keys (drop_old_attempts skip rows now) now window limit 0 keys) (\<lambda>(rows1, retryAfter).
     Inr (rows1, if retryAfter > 0 then Some retryAfter else None))"

definition ConsumeSignupAttempt :: "(attempt_row \<Rightarrow> bool) \<Rightarrow> auth_db \<Rightarrow> string \<Rightarrow> string \<Rightarrow> int \<Rightarrow> int \<Rightarrow> int \<Rightarrow> int option auth_tx" where
  "ConsumeSignupAttempt skip adb ipHash emailHash now window limit =
     rbind (consumeRateLimit skip (signup_limits adb) [(''ip'', ipHash), (''email'', emailHash)] now window limit) (\<lambda>(rows, r).
     Inr (adb\<lparr>signup_limits := rows\<rparr>, r))"

definition ConsumePasswordResetAttempt :: "(attempt_row \<Rightarrow> bool) \<Rightarrow> auth_db \<Rightarrow> string \<Rightarrow> string \<Rightarrow> int \<Rightarrow> int \<Rightarrow> int \<Rightarrow> int option auth_tx" where
  "ConsumePasswordResetAttempt skip adb ipHash emailHash now window limit =
     rbind (consumeRateLimit skip (reset_limits adb) [(''ip'', ipHash), (''email'', emailHash)] now window limit) (\<lambda>(rows, r).
     Inr (adb\<lparr>reset_limits := rows\<rparr>, r))"

definition ConsumePasswordResetConfirmationAttempt ::
    "(attempt_row \<Rightarrow> bool) \<Rightarrow> auth_db \<Rightarrow> string \<Rightarrow> string \<Rightarrow> int \<Rightarrow> int \<Rightarrow> int \<Rightarrow> int option auth_tx" where
  "ConsumePasswordResetConfirmationAttempt skip adb ipHash tokenHash now window limit =
     rbind (consumeRateLimit skip (confirm_limits adb) [(''ip'', ipHash), (''token'', tokenHash)] now window limit) (\<lambda>(rows, r).
     Inr (adb\<lparr>confirm_limits := rows\<rparr>, r))"

subsection \<open>Password reset requests\<close>

definition QueuePasswordResetRequest :: "auth_db \<Rightarrow> int \<Rightarrow> string \<Rightarrow> string \<Rightarrow> int \<Rightarrow> unit auth_tx" where
  "QueuePasswordResetRequest adb txnow fresh email now =
     rbind (require (fresh \<notin> set (map rr_id (reset_requests adb))) (ErrAuthDB UniqueViolation)) (\<lambda>_.
     Inr (adb\<lparr>reset_requests := reset_requests adb @ [\<lparr>rr_id = fresh, rr_email = email, rr_available = now, rr_claimed = None,
            rr_attempts = 0, rr_processed = None, rr_created = txnow\<rparr>]\<rparr>, ()))"

definition claimable :: "int \<Rightarrow> reset_request_row \<Rightarrow> bool" where
  "claimable now r \<longleftrightarrow> rr_processed r = None \<and> rr_available r \<le> now
     \<and> (case rr_claimed r of None \<Rightarrow> True | Some t \<Rightarrow> t < now - minutes5)"

definition ClaimPasswordResetRequest :: "(reset_request_row \<Rightarrow> bool) \<Rightarrow> auth_db \<Rightarrow> int \<Rightarrow> PasswordResetRequest auth_tx" where
  "ClaimPasswordResetRequest skip adb now =
     (case sort_key (\<lambda>r. (rr_available r, rr_created r)) (filter (\<lambda>r. claimable now r \<and> \<not> skip r) (reset_requests adb)) of
        [] \<Rightarrow> Inl ErrNoPendingReset
      | r # _ \<Rightarrow>
          rbind (require (fits_int4 (rr_attempts r + 1)) (ErrAuthDB IntegerOutOfRange)) (\<lambda>_.
          Inr (adb\<lparr>reset_requests := update_where (\<lambda>x. rr_id x = rr_id r)
                 (\<lambda>x. x\<lparr>rr_claimed := Some now, rr_attempts := rr_attempts x + 1\<rparr>) (reset_requests adb)\<rparr>,
               \<lparr>prID = rr_id r, prEmail = rr_email r, prAttempts = rr_attempts r + 1\<rparr>)))"

definition drop_processed :: "(reset_request_row \<Rightarrow> bool) \<Rightarrow> int \<Rightarrow> reset_request_row list \<Rightarrow> reset_request_row list" where
  "drop_processed skip now rows =
     (let old = (\<lambda>r. case rr_processed r of None \<Rightarrow> False | Some t \<Rightarrow> t < now - hours24);
          chosen = take 100 (sort_key (\<lambda>r. case rr_processed r of None \<Rightarrow> 0 | Some t \<Rightarrow> t) (filter (\<lambda>r. old r \<and> \<not> skip r) rows)) in
      delete_where (\<lambda>r. r \<in> set chosen) rows)"

definition CompletePasswordResetRequest :: "(reset_request_row \<Rightarrow> bool) \<Rightarrow> auth_db \<Rightarrow> string \<Rightarrow> int \<Rightarrow> auth_db" where
  "CompletePasswordResetRequest skip adb i now =
     (let rows = update_where (\<lambda>r. rr_id r = i \<and> rr_processed r = None)
                   (\<lambda>r. r\<lparr>rr_processed := Some now, rr_claimed := None\<rparr>) (reset_requests adb) in
      adb\<lparr>reset_requests := drop_processed skip now rows\<rparr>)"

definition RetryPasswordResetRequest :: "auth_db \<Rightarrow> int \<Rightarrow> string \<Rightarrow> int \<Rightarrow> auth_db" where
  "RetryPasswordResetRequest adb txnow i availableAt =
     adb\<lparr>reset_requests := update_where (\<lambda>r. rr_id r = i \<and> rr_processed r = None)
       (\<lambda>r. r\<lparr>rr_claimed := None, rr_available := availableAt, rr_processed := (if rr_attempts r \<ge> 5 then Some txnow else None)\<rparr>)
       (reset_requests adb)\<rparr>"

subsection \<open>Password reset tokens\<close>

definition drop_expired_resets :: "(reset_token_row \<Rightarrow> bool) \<Rightarrow> int \<Rightarrow> reset_token_row list \<Rightarrow> reset_token_row list" where
  "drop_expired_resets skip txnow rows =
     (let chosen = take 100 (sort_key rt_expires (filter (\<lambda>r. rt_used r = None \<and> rt_expires r < txnow - hours24 \<and> \<not> skip r) rows)) in
      delete_where (\<lambda>r. r \<in> set chosen) rows)"

definition void_resets :: "int \<Rightarrow> string \<Rightarrow> reset_token_row list \<Rightarrow> reset_token_row list" where
  "void_resets now userID = update_where (\<lambda>r. rt_user r = userID \<and> rt_used r = None) (\<lambda>r. r\<lparr>rt_used := Some now\<rparr>)"

definition CreatePasswordResetToken ::
    "(reset_token_row \<Rightarrow> bool) \<Rightarrow> auth_db \<Rightarrow> int \<Rightarrow> string \<Rightarrow> string \<Rightarrow> int \<Rightarrow> unit auth_tx" where
  "CreatePasswordResetToken skip adb txnow email tokenHash expiresAt =
     rbind (query_row ErrInvalidAuth (\<lambda>u. us_email u = email \<and> \<not> us_disabled u) (users (store adb))) (\<lambda>u.
     let rows = void_resets txnow (us_id u) (drop_expired_resets skip txnow (reset_tokens adb)) in
     rbind (require (tokenHash \<notin> set (map rt_hash rows)) (ErrAuthDB UniqueViolation)) (\<lambda>_.
     Inr (adb\<lparr>reset_tokens := rows @ [\<lparr>rt_user = us_id u, rt_hash = tokenHash, rt_expires = expiresAt, rt_used = None\<rparr>]\<rparr>, ())))"

definition open_reset :: "string \<Rightarrow> int \<Rightarrow> reset_token_row \<Rightarrow> bool" where
  "open_reset tokenHash now r \<longleftrightarrow> rt_hash r = tokenHash \<and> rt_used r = None \<and> rt_expires r > now"

definition PasswordResetTokenValid :: "auth_db \<Rightarrow> string \<Rightarrow> int \<Rightarrow> bool" where
  "PasswordResetTokenValid adb tokenHash now =
     list_ex (\<lambda>r. open_reset tokenHash now r \<and> list_ex (\<lambda>u. us_id u = rt_user r \<and> \<not> us_disabled u) (users (store adb))) (reset_tokens adb)"

definition ResetPassword :: "auth_db \<Rightarrow> string \<Rightarrow> string \<Rightarrow> int \<Rightarrow> unit auth_tx" where
  "ResetPassword adb tokenHash passwordHash now =
     rbind (query_row ErrInvalidResetToken (open_reset tokenHash now) (reset_tokens adb)) (\<lambda>t.
     let tokens1 = update_where (open_reset tokenHash now) (\<lambda>r. r\<lparr>rt_used := Some now\<rparr>) (reset_tokens adb);
         userID = rt_user t; hit = (\<lambda>u. us_id u = userID \<and> \<not> us_disabled u) in
     rbind (require (count_where hit (users (store adb)) = 1) ErrInvalidResetToken) (\<lambda>_.
     Inr (adb\<lparr>store := (store adb)\<lparr>users := update_where hit (\<lambda>u. u\<lparr>us_password := passwordHash\<rparr>) (users (store adb))\<rparr>,
              sessions := delete_where (\<lambda>s. se_user s = userID) (sessions adb),
              reset_tokens := void_resets now userID tokens1\<rparr>, ())))"

subsection \<open>Authentication\<close>

definition FindUserByEmail :: "auth_db \<Rightarrow> string \<Rightarrow> (auth_error, User \<times> string) result" where
  "FindUserByEmail adb email =
     rbind (query_row ErrInvalidAuth (\<lambda>u. us_email u = email \<and> \<not> us_disabled u) (users (store adb))) (\<lambda>u.
     Inr (user_of_row (store adb) u, us_password u))"

definition active_owner :: "auth_db \<Rightarrow> string \<Rightarrow> user_row option" where
  "active_owner adb userID = List.find (\<lambda>u. us_id u = userID \<and> \<not> us_disabled u) (users (store adb))"

definition FindUserBySessionHash :: "auth_db \<Rightarrow> string \<Rightarrow> int \<Rightarrow> (auth_error, User) result" where
  "FindUserBySessionHash adb tokenHash now =
     (case List.find (\<lambda>s. se_hash s = tokenHash \<and> se_expires s > now) (sessions adb) of
        None \<Rightarrow> Inl ErrUnauthorized
      | Some s \<Rightarrow> (case active_owner adb (se_user s) of None \<Rightarrow> Inl ErrUnauthorized | Some u \<Rightarrow> Inr (user_of_row (store adb) u)))"

definition CreateSession :: "auth_db \<Rightarrow> string \<Rightarrow> string \<Rightarrow> string \<Rightarrow> int \<Rightarrow> unit auth_tx" where
  "CreateSession adb userID expectedPasswordHash tokenHash expiresAt =
     rbind (query_row ErrUnauthorized (\<lambda>u. us_id u = userID \<and> us_password u = expectedPasswordHash \<and> \<not> us_disabled u)
              (users (store adb))) (\<lambda>u.
     rbind (insert_session (sessions adb) \<lparr>se_user = us_id u, se_hash = tokenHash, se_expires = expiresAt\<rparr>) (\<lambda>ss.
     Inr (adb\<lparr>sessions := ss\<rparr>, ())))"

definition DeleteSession :: "auth_db \<Rightarrow> string \<Rightarrow> auth_db" where
  "DeleteSession adb tokenHash = adb\<lparr>sessions := delete_where (\<lambda>s. se_hash s = tokenHash) (sessions adb)\<rparr>"

text \<open>
  A bearer token is an API token of the account or the credential of one of its agents. Both
  updates of the statement run; the result prefers the account's own token.
\<close>

definition human_token :: "auth_db \<Rightarrow> string \<Rightarrow> api_token_row \<Rightarrow> bool" where
  "human_token adb tokenHash t \<longleftrightarrow> ap_hash t = tokenHash \<and> ap_revoked t = None \<and> active_owner adb (ap_user t) \<noteq> None"

definition agent_of :: "auth_db \<Rightarrow> string \<Rightarrow> agent_row option" where
  "agent_of adb agentID = List.find (\<lambda>a. ag_id a = agentID \<and> \<not> ag_archived a) (agent_rows (store adb))"

definition agent_token :: "auth_db \<Rightarrow> string \<Rightarrow> credential_row \<Rightarrow> bool" where
  "agent_token adb tokenHash c \<longleftrightarrow> cd_hash c = tokenHash \<and> cd_revoked c = None
     \<and> (case agent_of adb (cd_agent c) of None \<Rightarrow> False | Some a \<Rightarrow> active_owner adb (ag_owner a) \<noteq> None)"

definition token_entitlement :: "db \<Rightarrow> user_row \<Rightarrow> string \<Rightarrow> Entitlement" where
  "token_entitlement db u role = (let (plan, source) = stored_entitlement db (us_id u) in
     if us_role u = ''admin'' then Resolve role ''pro'' ''admin'' else Resolve role plan source)"

definition FindUserByAPITokenHash :: "auth_db \<Rightarrow> string \<Rightarrow> int \<Rightarrow> User auth_tx" where
  "FindUserByAPITokenHash adb tokenHash now =
     (let db = store adb;
          adb1 = adb\<lparr>api_tokens := update_where (human_token adb tokenHash) (\<lambda>t. t\<lparr>ap_last_used := Some now\<rparr>) (api_tokens adb),
                     credentials := update_where (agent_token adb tokenHash)
                       (\<lambda>c. c\<lparr>cd_last_used := Some now, cd_updated := now\<rparr>) (credentials adb)\<rparr> in
      case List.find (human_token adb tokenHash) (api_tokens adb) of
        Some t \<Rightarrow> (case active_owner adb (ap_user t) of
            None \<Rightarrow> Inl ErrUnauthorized
          | Some u \<Rightarrow> Inr (adb1, (user_of_row db u)\<lparr>uEntitlement := token_entitlement db u (us_role u)\<rparr>))
      | None \<Rightarrow>
          (case List.find (agent_token adb tokenHash) (credentials adb) of
             None \<Rightarrow> Inl ErrUnauthorized
           | Some c \<Rightarrow> (case agent_of adb (cd_agent c) of
               None \<Rightarrow> Inl ErrUnauthorized
             | Some a \<Rightarrow> (case active_owner adb (ag_owner a) of
                 None \<Rightarrow> Inl ErrUnauthorized
               | Some u \<Rightarrow> Inr (adb1, \<lparr>uID = us_id u, uEmail = [], uRole = ''agent'', uTheme = us_theme u, uDisplayName = ag_name a,
                     uAgentID = ag_id a, uAgentPurpose = null_text (ag_purpose a),
                     uEntitlement = token_entitlement db u ''agent'', uUsage = no_usage\<rparr>)))))"

subsection \<open>API tokens\<close>

definition token_of_row :: "api_token_row \<Rightarrow> APIToken" where
  "token_of_row t = \<lparr>atID = ap_id t, atName = ap_name t, atLastUsedAt = ap_last_used t, atCreatedAt = ap_created t\<rparr>"

definition active_token :: "string \<Rightarrow> api_token_row \<Rightarrow> bool" where
  "active_token userID t \<longleftrightarrow> ap_user t = userID \<and> ap_revoked t = None"

definition ListAPITokens :: "auth_db \<Rightarrow> string \<Rightarrow> APIToken list" where
  "ListAPITokens adb userID =
     map token_of_row (sort_key (\<lambda>t. - ap_created t) (filter (active_token userID) (api_tokens adb)))"

definition CreateAPIToken :: "auth_db \<Rightarrow> int \<Rightarrow> string \<Rightarrow> string \<Rightarrow> string \<Rightarrow> string \<Rightarrow> APIToken auth_tx" where
  "CreateAPIToken adb now fresh userID name tokenHash =
     rbind (resolvedEntitlementForLockedUser (store adb) userID) (\<lambda>entitlement.
     rbind (require (\<not> count_where (active_token userID) (api_tokens adb) \<ge> lim_APITokens (ent_Limits entitlement)) ErrAPITokenLimit) (\<lambda>_.
     rbind (require (fresh \<notin> set (map ap_id (api_tokens adb)) \<and> tokenHash \<notin> set (map ap_hash (api_tokens adb)))
              (ErrAuthDB UniqueViolation)) (\<lambda>_.
     let row = \<lparr>ap_id = fresh, ap_user = userID, ap_name = name, ap_hash = tokenHash, ap_last_used = None, ap_revoked = None,
                 ap_created = now\<rparr> in
     Inr (adb\<lparr>api_tokens := api_tokens adb @ [row]\<rparr>, token_of_row row))))"

definition RevokeAPIToken :: "env \<Rightarrow> auth_db \<Rightarrow> int \<Rightarrow> string \<Rightarrow> string \<Rightarrow> unit auth_tx" where
  "RevokeAPIToken e adb now userID tokenID =
     rbind (auth_uuid e tokenID) (\<lambda>i.
     Inr (adb\<lparr>api_tokens := update_where (\<lambda>t. ap_user t = userID \<and> ap_id t = i \<and> ap_revoked t = None)
            (\<lambda>t. t\<lparr>ap_revoked := Some now\<rparr>) (api_tokens adb)\<rparr>, ()))"

subsection \<open>Profile, members and usage\<close>

definition stringValue :: "string option \<Rightarrow> string" where
  "stringValue v = (case v of None \<Rightarrow> [] | Some s \<Rightarrow> s)"

definition set_profile :: "string option \<Rightarrow> string option \<Rightarrow> user_row \<Rightarrow> user_row" where
  "set_profile theme displayName u =
     u\<lparr>us_theme := (if theme \<noteq> None then stringValue theme else us_theme u),
       us_name := (if displayName \<noteq> None then stringValue displayName else us_name u)\<rparr>"

definition UpdateProfile :: "auth_db \<Rightarrow> string \<Rightarrow> string option \<Rightarrow> string option \<Rightarrow> User auth_tx" where
  "UpdateProfile adb userID theme displayName =
     (let hit = (\<lambda>u. us_id u = userID \<and> \<not> us_disabled u);
          db1 = (store adb)\<lparr>users := update_where hit (set_profile theme displayName) (users (store adb))\<rparr> in
      rbind (query_row ErrUnauthorized hit (users db1)) (\<lambda>u.
      rbind (require (us_theme u \<in> {''light'', ''dark''}) ErrCheck) (\<lambda>_.
      Inr (adb\<lparr>store := db1\<rparr>, user_of_row db1 u))))"

definition UpdateTheme :: "auth_db \<Rightarrow> string \<Rightarrow> string \<Rightarrow> User auth_tx" where
  "UpdateTheme adb userID theme = UpdateProfile adb userID (Some theme) None"

definition ListMembers :: "auth_db \<Rightarrow> MemberAccount list" where
  "ListMembers adb = map (\<lambda>u. \<lparr>maEmail = us_email u, maDisabledAt = us_disabled_at u, maCreatedAt = us_created u\<rparr>)
     (sort_key us_email (filter (\<lambda>u. us_role u = ''member'') (users (store adb))))"

definition revoke_credentials :: "int \<Rightarrow> (credential_row \<Rightarrow> bool) \<Rightarrow> credential_row list \<Rightarrow> credential_row list" where
  "revoke_credentials now hit =
     update_where (\<lambda>c. hit c \<and> cd_revoked c = None) (\<lambda>c. c\<lparr>cd_revoked := Some now, cd_updated := now\<rparr>)"

definition owned_agent_ids :: "db \<Rightarrow> string \<Rightarrow> string list" where
  "owned_agent_ids db userID = map ag_id (filter (\<lambda>a. ag_owner a = userID) (agent_rows db))"

text \<open>\<open>toLower\<close> is Go's \<open>strings.ToLower\<close>, which follows the Unicode tables.\<close>

definition normalizeEmail :: "(string \<Rightarrow> string) \<Rightarrow> string \<Rightarrow> string" where
  "normalizeEmail toLower email = toLower (TrimSpace email)"

definition SetMemberDisabled :: "(string \<Rightarrow> string) \<Rightarrow> auth_db \<Rightarrow> int \<Rightarrow> string \<Rightarrow> bool \<Rightarrow> unit auth_tx" where
  "SetMemberDisabled toLower adb now email0 disabled =
     (let email = normalizeEmail toLower email0; hit = (\<lambda>u. us_email u = email \<and> us_role u = ''member'') in
      rbind (require (email \<noteq> []) ErrMemberNotFound) (\<lambda>_.
      rbind (query_row ErrMemberNotFound hit (users (store adb))) (\<lambda>member.
      let userID = us_id member;
          adb1 = adb\<lparr>store := (store adb)\<lparr>users :=
                   update_where hit (\<lambda>u. u\<lparr>us_disabled_at := (if disabled then Some now else None)\<rparr>) (users (store adb))\<rparr>\<rparr> in
      if disabled then
        Inr (adb1\<lparr>sessions := delete_where (\<lambda>s. se_user s = userID) (sessions adb1),
                  api_tokens := update_where (\<lambda>t. ap_user t = userID \<and> ap_revoked t = None) (\<lambda>t. t\<lparr>ap_revoked := Some now\<rparr>)
                    (api_tokens adb1),
                  credentials := revoke_credentials now (\<lambda>c. cd_agent c \<in> set (owned_agent_ids (store adb1) userID)) (credentials adb1)\<rparr>, ())
      else Inr (adb1, ()))))"

definition bucket_active :: "db \<Rightarrow> string \<Rightarrow> string \<Rightarrow> int" where
  "bucket_active db userID bucketID =
     count_where (\<lambda>t. tk_owner t = userID \<and> tk_kind t = ''action'' \<and> tk_status t \<noteq> ''done'' \<and> tk_bucket t = bucketID) (tasks db)"

definition AccountUsage :: "auth_db \<Rightarrow> string \<Rightarrow> Usage" where
  "AccountUsage adb userID =
     (let db = store adb; mine = filter (\<lambda>t. tk_owner t = userID) (tasks db) in
      \<lparr>usLists = count_where (\<lambda>b. bk_user b = userID) (buckets db),
       usMaxActiveItemsPerList = fold max (map (\<lambda>t. bucket_active db userID (tk_bucket t)) mine) 0,
       usAgents = count_where (\<lambda>a. ag_owner a = userID \<and> \<not> ag_archived a) (agent_rows db),
       usStoredTasks = int (length mine),
       usStoredContentBytes = sum_list (map storage_bytes mine),
       usAPITokens = count_where (active_token userID) (api_tokens adb)\<rparr>)"

end
