(* ===== verification/Agents.thy ===== *)
theory Agents
  imports Accounts
begin

section \<open>Agents, their credentials and their work (auth/pgstore.go, agents/store.go)\<close>

text \<open>
  Creating, renaming and deleting agents, rotating and revoking their credentials, and the
  reports on the work assigned to them. Names are compared by SQL's \<open>lower\<close>, a parameter of
  the environment, and listed in the byte order of that key.
\<close>

subsection \<open>Reading agents\<close>

record AgentCredential =
  acID :: string
  acTokenPrefix :: string
  acLastUsedAt :: "int option"
  acRevokedAt :: "int option"
  acCreatedAt :: int
  acUpdatedAt :: int

record AgentWorkCounts =
  wcReady :: int
  wcWorking :: int
  wcReview :: int

record AgentUser =
  auID :: string
  auDisplayName :: string
  auPurpose :: string
  auCreatedAt :: int
  auUpdatedAt :: int
  auCredential :: "AgentCredential option"
  auLastUsedAt :: "int option"
  auRevokedAt :: "int option"
  auWorkCounts :: AgentWorkCounts

definition credential_of_row :: "credential_row \<Rightarrow> AgentCredential" where
  "credential_of_row c = \<lparr>acID = cd_id c, acTokenPrefix = null_text (cd_prefix c), acLastUsedAt = cd_last_used c,
     acRevokedAt = cd_revoked c, acCreatedAt = cd_created c, acUpdatedAt = cd_updated c\<rparr>"

text \<open>The credential shown: an active one first, then the one revoked first, the newest among equals.\<close>

definition latest_credential :: "auth_db \<Rightarrow> string \<Rightarrow> credential_row option" where
  "latest_credential adb agentID =
     (case sort_key (\<lambda>c. (case cd_revoked c of None \<Rightarrow> (0 :: int, 0) | Some t \<Rightarrow> (1, t), - cd_created c))
             (filter (\<lambda>c. cd_agent c = agentID) (credentials adb)) of
        [] \<Rightarrow> None | c # _ \<Rightarrow> Some c)"

definition work_count :: "db \<Rightarrow> agent_row \<Rightarrow> string \<Rightarrow> int" where
  "work_count db a status = count_where (\<lambda>t. tk_owner t = ag_owner a \<and> tk_assignee t = Some (ag_id a) \<and> tk_status t = status) (tasks db)"

definition scanAgent :: "auth_db \<Rightarrow> agent_row \<Rightarrow> AgentUser" where
  "scanAgent adb a =
     (let credential = map_option credential_of_row (latest_credential adb (ag_id a)) in
      \<lparr>auID = ag_id a, auDisplayName = ag_name a, auPurpose = null_text (ag_purpose a), auCreatedAt = ag_created a,
       auUpdatedAt = ag_updated a, auCredential = credential,
       auLastUsedAt = (case credential of None \<Rightarrow> None | Some c \<Rightarrow> acLastUsedAt c),
       auRevokedAt = (case credential of None \<Rightarrow> None | Some c \<Rightarrow> acRevokedAt c),
       auWorkCounts = \<lparr>wcReady = work_count (store adb) a ''queued'', wcWorking = work_count (store adb) a ''working'',
         wcReview = work_count (store adb) a ''needs_review''\<rparr>\<rparr>)"

definition ListAgents :: "env \<Rightarrow> auth_db \<Rightarrow> string \<Rightarrow> AgentUser list" where
  "ListAgents e adb userID =
     map (scanAgent adb) (sort_key (\<lambda>a. (sql_lower e (ag_name a), ag_created a))
       (filter (\<lambda>a. ag_owner a = userID \<and> \<not> ag_archived a) (agent_rows (store adb))))"

definition owned_agent :: "string \<Rightarrow> string \<Rightarrow> agent_row \<Rightarrow> bool" where
  "owned_agent userID agentID a \<longleftrightarrow> ag_owner a = userID \<and> ag_id a = agentID \<and> \<not> ag_archived a"

definition GetAgent :: "auth_db \<Rightarrow> string \<Rightarrow> string \<Rightarrow> (auth_error, AgentUser) result" where
  "GetAgent adb userID agentID =
     rbind (query_row ErrAgentNotFound (owned_agent userID agentID) (agent_rows (store adb))) (\<lambda>a. Inr (scanAgent adb a))"

subsection \<open>Creating, renaming and deleting agents\<close>

definition utf8_continuation :: "char \<Rightarrow> bool" where
  "utf8_continuation c \<longleftrightarrow> (let n = (of_char c :: nat) in 128 \<le> n \<and> n < 192)"

definition char_length :: "string \<Rightarrow> nat" where
  "char_length s = length (filter (\<lambda>c. \<not> utf8_continuation c) s)"

definition sql_trim :: "string \<Rightarrow> string" where
  "sql_trim s = rev (dropWhile (\<lambda>c. c = CHR '' '') (rev (dropWhile (\<lambda>c. c = CHR '' '') s)))"

text \<open>The checks of the table: names of 1 to 100 characters, purposes of 1 to 4096 bytes, prefixes of 1 to 32 characters.\<close>

definition agent_checks :: "string \<Rightarrow> string option \<Rightarrow> bool" where
  "agent_checks name purpose \<longleftrightarrow> 1 \<le> char_length (sql_trim name) \<and> char_length (sql_trim name) \<le> 100
     \<and> opt_all (\<lambda>p. 1 \<le> length (sql_trim p) \<and> length (sql_trim p) \<le> 4096) purpose"

definition prefix_check :: "string \<Rightarrow> bool" where
  "prefix_check p \<longleftrightarrow> 1 \<le> char_length p \<and> char_length p \<le> 32"

definition name_key :: "env \<Rightarrow> string \<Rightarrow> string" where
  "name_key e name = sql_lower e (sql_trim name)"

definition name_taken :: "env \<Rightarrow> db \<Rightarrow> string \<Rightarrow> string \<Rightarrow> string \<Rightarrow> bool" where
  "name_taken e db userID exceptID name =
     list_ex (\<lambda>a. ag_owner a = userID \<and> \<not> ag_archived a \<and> ag_id a \<noteq> exceptID \<and> name_key e (ag_name a) = name_key e name) (agent_rows db)"

definition insert_credential ::
    "auth_db \<Rightarrow> int \<Rightarrow> string \<Rightarrow> string \<Rightarrow> string \<Rightarrow> string \<Rightarrow> (auth_error, auth_db \<times> credential_row) result" where
  "insert_credential adb now fresh agentID tokenHash tokenPrefix =
     rbind (require (prefix_check tokenPrefix) ErrCheck) (\<lambda>_.
     rbind (require (fresh \<notin> set (map cd_id (credentials adb)) \<and> tokenHash \<notin> set (map cd_hash (credentials adb))
              \<and> \<not> list_ex (\<lambda>c. cd_agent c = agentID \<and> cd_revoked c = None) (credentials adb)) (ErrAuthDB UniqueViolation)) (\<lambda>_.
     let row = \<lparr>cd_id = fresh, cd_agent = agentID, cd_hash = tokenHash, cd_prefix = Some tokenPrefix, cd_last_used = None,
                 cd_revoked = None, cd_created = now, cd_updated = now\<rparr> in
     Inr (adb\<lparr>credentials := credentials adb @ [row]\<rparr>, row)))"

definition CreateAgent ::
    "env \<Rightarrow> auth_db \<Rightarrow> int \<Rightarrow> string \<Rightarrow> string \<Rightarrow> string \<Rightarrow> string \<Rightarrow> string \<Rightarrow> string \<Rightarrow> string \<Rightarrow> AgentUser auth_tx" where
  "CreateAgent e adb now fresh freshCredential userID displayName0 purpose0 tokenHash tokenPrefix =
     (let displayName = TrimSpace displayName0; purpose = TrimSpace purpose0; db = store adb in
      rbind (resolvedEntitlementForLockedUser db userID) (\<lambda>entitlement.
      rbind (require (\<not> count_where (\<lambda>a. ag_owner a = userID \<and> \<not> ag_archived a) (agent_rows db)
               \<ge> lim_Agents (ent_Limits entitlement)) ErrAgentLimit) (\<lambda>_.
      rbind (require (agent_checks displayName (nullif_empty purpose)) ErrCheck) (\<lambda>_.
      rbind (require (fresh \<notin> set (map ag_id (agent_rows db))) (ErrAuthDB UniqueViolation)) (\<lambda>_.
      rbind (require (\<not> name_taken e db userID [] displayName) ErrAgentNameTaken) (\<lambda>_.
      let row = \<lparr>ag_id = fresh, ag_owner = userID, ag_name = displayName, ag_purpose = nullif_empty purpose,
                  ag_archived = False, ag_created = now, ag_updated = now\<rparr>;
          adb1 = adb\<lparr>store := db\<lparr>agent_rows := agent_rows db @ [row]\<rparr>\<rparr> in
      rbind (insert_credential adb1 now freshCredential fresh tokenHash tokenPrefix) (\<lambda>(adb2, c).
      Inr (adb2, \<lparr>auID = fresh, auDisplayName = displayName, auPurpose = purpose, auCreatedAt = now, auUpdatedAt = now,
         auCredential = Some (credential_of_row c), auLastUsedAt = None, auRevokedAt = None,
         auWorkCounts = \<lparr>wcReady = 0, wcWorking = 0, wcReview = 0\<rparr>\<rparr>))))))))"

text \<open>
  The update is a statement of its own: it stays when the agent read after it is archived and
  is not found, so the answer of \<open>GetAgent\<close> is part of the result.
\<close>

definition UpdateAgent ::
    "env \<Rightarrow> auth_db \<Rightarrow> int \<Rightarrow> string \<Rightarrow> string \<Rightarrow> string \<Rightarrow> string \<Rightarrow> (auth_error, AgentUser) result auth_tx" where
  "UpdateAgent e adb now userID agentID displayName0 purpose0 =
     (let displayName = TrimSpace displayName0; purpose = TrimSpace purpose0; db = store adb;
          hit = (\<lambda>a. ag_owner a = userID \<and> ag_id a = agentID) in
      rbind (query_row ErrAgentNotFound hit (agent_rows db)) (\<lambda>a.
      rbind (require (agent_checks displayName (nullif_empty purpose)) ErrCheck) (\<lambda>_.
      rbind (require (ag_archived a \<or> \<not> name_taken e db userID agentID displayName) ErrAgentNameTaken) (\<lambda>_.
      let adb1 = adb\<lparr>store := db\<lparr>agent_rows := update_where hit
            (\<lambda>a. a\<lparr>ag_name := displayName, ag_purpose := nullif_empty purpose, ag_updated := now\<rparr>) (agent_rows db)\<rparr>\<rparr> in
      Inr (adb1, GetAgent adb1 userID (ag_id a))))))"

definition RevokeAgentToken :: "env \<Rightarrow> auth_db \<Rightarrow> int \<Rightarrow> string \<Rightarrow> string \<Rightarrow> unit auth_tx" where
  "RevokeAgentToken e adb now userID agentID =
     rbind (auth_uuid e agentID) (\<lambda>i.
     rbind (query_row ErrAgentNotFound (owned_agent userID i) (agent_rows (store adb))) (\<lambda>a.
     Inr (adb\<lparr>credentials := update_where (\<lambda>c. cd_agent c = ag_id a)
            (\<lambda>c. c\<lparr>cd_revoked := (case cd_revoked c of None \<Rightarrow> Some now | Some t \<Rightarrow> Some t), cd_updated := now\<rparr>) (credentials adb)\<rparr>, ())))"

text \<open>
  Deleting an agent: the foreign keys unassign its tasks and delete its credentials and the
  rotations of them; card entries keep their author.
\<close>

definition unassign :: "string \<Rightarrow> task_row \<Rightarrow> task_row" where
  "unassign agentID t = (if tk_assignee t = Some agentID then t\<lparr>tk_assignee := None\<rparr> else t)"

definition DeleteAgent :: "env \<Rightarrow> auth_db \<Rightarrow> string \<Rightarrow> string \<Rightarrow> unit auth_tx" where
  "DeleteAgent e adb userID agentID =
     rbind (auth_uuid e agentID) (\<lambda>i.
     let db = store adb in
     rbind (query_row ErrAgentNotFound (\<lambda>a. ag_owner a = userID \<and> ag_id a = i) (agent_rows db)) (\<lambda>a.
     let gone = map cd_id (filter (\<lambda>c. cd_agent c = i) (credentials adb)) in
     Inr (adb\<lparr>store := db\<lparr>tasks := map (unassign i) (tasks db),
                          agent_rows := delete_where (\<lambda>a. ag_owner a = userID \<and> ag_id a = i) (agent_rows db)\<rparr>,
              credentials := delete_where (\<lambda>c. cd_agent c = i) (credentials adb),
              rotations := delete_where (\<lambda>r. ro_agent r = i \<or> ro_credential r \<in> set gone) (rotations adb)\<rparr>, ())))"

subsection \<open>Rotating and revoking credentials\<close>

definition rotation_key_check :: "string \<Rightarrow> bool" where
  "rotation_key_check key \<longleftrightarrow> 16 \<le> char_length key \<and> char_length key \<le> 128"

definition recorded_rotation :: "auth_db \<Rightarrow> string \<Rightarrow> string \<Rightarrow> (rotation_row \<times> credential_row) option" where
  "recorded_rotation adb userID key =
     (case List.find (\<lambda>r. ro_owner r = userID \<and> ro_key r = key) (rotations adb) of
        None \<Rightarrow> None
      | Some r \<Rightarrow> map_option (Pair r) (List.find (\<lambda>c. cd_id c = ro_credential r) (credentials adb)))"

definition RotateCredential :: "auth_db \<Rightarrow> int \<Rightarrow> string \<Rightarrow> string \<Rightarrow> string \<Rightarrow> string \<Rightarrow> string \<Rightarrow> string \<Rightarrow>
    (AgentCredential \<times> bool) auth_tx" where
  "RotateCredential adb now fresh userID agentID idempotencyKey tokenHash tokenPrefix =
     (case recorded_rotation adb userID idempotencyKey of
        Some (r, c) \<Rightarrow>
          if ro_agent r \<noteq> agentID then Inl ErrIdempotencyConflict
          else Inr (adb, (credential_of_row c, False))
      | None \<Rightarrow>
          rbind (query_row ErrAgentNotFound (owned_agent userID agentID) (agent_rows (store adb))) (\<lambda>a.
          let adb1 = adb\<lparr>credentials := revoke_credentials now (\<lambda>c. cd_agent c = ag_id a) (credentials adb)\<rparr> in
          rbind (insert_credential adb1 now fresh (ag_id a) tokenHash tokenPrefix) (\<lambda>(adb2, c).
          rbind (require (rotation_key_check idempotencyKey) ErrCheck) (\<lambda>_.
          rbind (require (\<not> list_ex (\<lambda>r. ro_owner r = userID \<and> ro_key r = idempotencyKey \<or> ro_credential r = cd_id c) (rotations adb2))
                   (ErrAuthDB UniqueViolation)) (\<lambda>_.
          Inr (adb2\<lparr>rotations := rotations adb2 @ [\<lparr>ro_owner = userID, ro_key = idempotencyKey, ro_agent = ag_id a,
                 ro_credential = cd_id c, ro_created = now\<rparr>]\<rparr>, (credential_of_row c, True)))))))"

definition RevokeCredential :: "auth_db \<Rightarrow> int \<Rightarrow> string \<Rightarrow> string \<Rightarrow> unit auth_tx" where
  "RevokeCredential adb now userID agentID =
     rbind (query_row ErrAgentNotFound (owned_agent userID agentID) (agent_rows (store adb))) (\<lambda>a.
     Inr (adb\<lparr>credentials := revoke_credentials now (\<lambda>c. cd_agent c = ag_id a) (credentials adb)\<rparr>, ()))"

subsection \<open>Reports on assigned work\<close>

definition InitialOpenLimit :: int where "InitialOpenLimit = 50"
definition InitialCompletedLimit :: int where "InitialCompletedLimit = 20"
definition MaxPageSize :: int where "MaxPageSize = 50"

record WorkItem =
  wiID :: string
  wiParentTaskID :: string
  wiBucketID :: string
  wiBucketName :: string
  wiTitle :: string
  wiDescription :: string
  wiScheduledDate :: string
  wiKind :: string
  wiStatus :: string
  wiAssigneeAgentID :: string
  wiCreatedAt :: int
  wiUpdatedAt :: int

record WorkTotals =
  wtReady :: int
  wtWorking :: int
  wtReview :: int
  wtCompleted :: int

record AssignedWork =
  awReady :: "WorkItem list"
  awWorking :: "WorkItem list"
  awReview :: "WorkItem list"
  awRecentlyCompleted :: "WorkItem list"
  awTotals :: WorkTotals
  awOpenLimit :: int
  awCompletedLimit :: int

record Detail =
  dtAgent :: AgentUser
  dtWork :: AssignedWork

record WorkPage =
  wpItems :: "WorkItem list"
  wpPage :: int
  wpPageSize :: int
  wpTotal :: int
  wpHasNext :: bool
  wpHasPrevious :: bool

definition assigned_action :: "string \<Rightarrow> string \<Rightarrow> task_row \<Rightarrow> bool" where
  "assigned_action userID agentID t \<longleftrightarrow> tk_owner t = userID \<and> tk_assignee t = Some agentID \<and> tk_kind t = ''action''"

definition scanWorkItems :: "db \<Rightarrow> task_row \<Rightarrow> WorkItem" where
  "scanWorkItems db t =
     \<lparr>wiID = tk_id t, wiParentTaskID = null_text (tk_parent t), wiBucketID = tk_bucket t,
      wiBucketName = (case List.find (\<lambda>b. bk_id b = tk_bucket t) (buckets db) of None \<Rightarrow> [] | Some b \<Rightarrow> bk_name b),
      wiTitle = tk_title t, wiDescription = [], wiScheduledDate = null_text (tk_date t), wiKind = tk_kind t,
      wiStatus = tk_status t, wiAssigneeAgentID = null_text (tk_assignee t), wiCreatedAt = tk_created t, wiUpdatedAt = tk_updated t\<rparr>"

text \<open>The join with \<open>buckets\<close> drops a task without a list.\<close>

definition workSelect :: "db \<Rightarrow> (task_row \<Rightarrow> bool) \<Rightarrow> (task_row \<Rightarrow> int \<times> int \<times> string) \<Rightarrow> WorkItem list" where
  "workSelect db P key =
     map (scanWorkItems db) (sort_key key (filter (\<lambda>t. P t \<and> list_ex (\<lambda>b. bk_id b = tk_bucket t) (buckets db)) (tasks db)))"

definition recent_first :: "task_row \<Rightarrow> int \<times> int \<times> string" where
  "recent_first t = (0, - tk_updated t, tk_id t)"

definition workTotals :: "db \<Rightarrow> string \<Rightarrow> string \<Rightarrow> WorkTotals" where
  "workTotals db userID agentID =
     (let n = (\<lambda>status. count_where (\<lambda>t. assigned_action userID agentID t \<and> tk_status t = status) (tasks db)) in
      \<lparr>wtReady = n ''queued'', wtWorking = n ''working'', wtReview = n ''needs_review'', wtCompleted = n ''done''\<rparr>)"

definition open_rank :: "string \<Rightarrow> int" where
  "open_rank status = (if status = ''working'' then 0 else if status = ''needs_review'' then 1 else 2)"

definition listInitialOpen :: "db \<Rightarrow> string \<Rightarrow> string \<Rightarrow> WorkItem list" where
  "listInitialOpen db userID agentID =
     take (nat InitialOpenLimit) (workSelect db
       (\<lambda>t. assigned_action userID agentID t \<and> tk_status t \<in> {''queued'', ''working'', ''needs_review''})
       (\<lambda>t. (open_rank (tk_status t), - tk_updated t, tk_id t)))"

definition listRecentlyCompleted :: "db \<Rightarrow> string \<Rightarrow> string \<Rightarrow> WorkItem list" where
  "listRecentlyCompleted db userID agentID =
     take (nat InitialCompletedLimit) (workSelect db (\<lambda>t. assigned_action userID agentID t \<and> tk_status t = ''done'') recent_first)"

text \<open>After \<open>GetAgent\<close> the text of the agent is that of a stored identifier, so the casts succeed.\<close>

definition GetDetail :: "auth_db \<Rightarrow> string \<Rightarrow> string \<Rightarrow> (auth_error, Detail) result" where
  "GetDetail adb userID agentID =
     rbind (GetAgent adb userID agentID) (\<lambda>agent.
     let items = listInitialOpen (store adb) userID agentID in
     Inr \<lparr>dtAgent = agent, dtWork =
       \<lparr>awReady = filter (\<lambda>i. wiStatus i = ''queued'') items, awWorking = filter (\<lambda>i. wiStatus i = ''working'') items,
        awReview = filter (\<lambda>i. wiStatus i = ''needs_review'') items,
        awRecentlyCompleted = listRecentlyCompleted (store adb) userID agentID,
        awTotals = workTotals (store adb) userID agentID, awOpenLimit = InitialOpenLimit, awCompletedLimit = InitialCompletedLimit\<rparr>\<rparr>)"

text \<open>Go's \<open>int\<close> has 64 bits, and PostgreSQL refuses a negative offset.\<close>

definition wrap64 :: "int \<Rightarrow> int" where
  "wrap64 n = (n + 2 ^ 63) mod 2 ^ 64 - 2 ^ 63"

definition ListWork :: "auth_db \<Rightarrow> string \<Rightarrow> string \<Rightarrow> int \<Rightarrow> int \<Rightarrow> (auth_error, WorkPage) result" where
  "ListWork adb userID agentID page0 pageSize0 =
     rbind (GetAgent adb userID agentID) (\<lambda>_.
     let page = (if page0 < 1 then 1 else page0);
         pageSize = (if pageSize0 < 1 \<or> pageSize0 > MaxPageSize then MaxPageSize else pageSize0);
         total = count_where (assigned_action userID agentID) (tasks (store adb));
         offset = wrap64 ((page - 1) * pageSize) in
     rbind (require (0 \<le> offset) (ErrAuthDB IntegerOutOfRange)) (\<lambda>_.
     let items = take (nat pageSize) (drop (nat offset) (workSelect (store adb) (assigned_action userID agentID) recent_first)) in
     Inr \<lparr>wpItems = items, wpPage = page, wpPageSize = pageSize, wpTotal = total,
          wpHasNext = (offset + int (length items) < total), wpHasPrevious = (page > 1)\<rparr>))"

end
