(* ===== verification/RateLimit.thy ===== *)
theory RateLimit
  imports Prelude Systems
begin

section \<open>The API rate limiter (ratelimit/ratelimit.go)\<close>

text \<open>
  The sliding window limiter. The table \<open>api_rate_limit_state\<close> keeps, for each scope, hashed key
  and route class, the times of the requests admitted in the last minute; every operation is
  one transaction. Times and durations are in nanoseconds, the unit of \<open>time.Duration\<close>; \<open>now\<close>
  is what the database clock returned to the transaction. The column \<open>updated_at\<close>, which no
  statement reads, is left out, and so is the overflow of the 64-bit metric counter. The hash of
  a key is a parameter \<open>sha\<close>; \<open>skip\<close> tells which rows other transactions hold locked when
  expired state is deleted.
\<close>

subsection \<open>Types and tables\<close>

abbreviation ScopeAccount :: string where "ScopeAccount \<equiv> ''account''"
abbreviation ScopeCredential :: string where "ScopeCredential \<equiv> ''credential''"
abbreviation ScopeIP :: string where "ScopeIP \<equiv> ''ip''"
abbreviation ClassAuthenticatedRead :: string where "ClassAuthenticatedRead \<equiv> ''authenticated_read''"
abbreviation ClassAuthenticatedWrite :: string where "ClassAuthenticatedWrite \<equiv> ''authenticated_write''"
abbreviation ClassPublicAuth :: string where "ClassPublicAuth \<equiv> ''public_auth''"
abbreviation OutcomeAllowed :: string where "OutcomeAllowed \<equiv> ''allowed''"
abbreviation OutcomeRejected :: string where "OutcomeRejected \<equiv> ''rejected''"

definition Second :: int where "Second = 1000000000"
definition window :: int where "window = 60 * Second"

lemma window_pos [simp]: "0 < window" "0 \<le> window" "0 < Second"
  by (simp_all add: window_def Second_def)

record Key =
  kScope :: string
  kValue :: string

record Decision =
  dAllowed :: bool
  dLimit :: int
  dRemaining :: int
  dRetryAfter :: int

text \<open>\<open>crRecordedAt\<close> is \<open>None\<close> for the zero time.\<close>

record CredentialReservation =
  crScope :: string
  crKeyHash :: string
  crRouteClass :: string
  crRecordedAt :: "int option"
  crDecision :: Decision

definition zero_decision :: Decision where
  "zero_decision = \<lparr>dAllowed = False, dLimit = 0, dRemaining = 0, dRetryAfter = 0\<rparr>"

definition no_reservation :: CredentialReservation where
  "no_reservation = \<lparr>crScope = [], crKeyHash = [], crRouteClass = [], crRecordedAt = None, crDecision = zero_decision\<rparr>"

definition Active :: "CredentialReservation \<Rightarrow> bool" where
  "Active r \<longleftrightarrow> crScope r \<noteq> [] \<and> crKeyHash r \<noteq> [] \<and> crRecordedAt r \<noteq> None"

record limit_settings =
  set_reads :: int
  set_writes :: int
  set_public :: int

record state_row =
  st_scope :: string
  st_hash :: string
  st_class :: string
  st_times :: "int list"
  st_expires :: int

record metric_row =
  me_bucket :: int
  me_class :: string
  me_outcome :: string
  me_shard :: int
  me_count :: int

record limiter_db =
  rl_settings :: "limit_settings option"
  rl_state :: "state_row list"
  rl_metrics :: "metric_row list"

record PG =
  pg_configured :: bool
  pg_cleanupExpired :: bool

datatype limit_error = NotConfigured | CredentialKeyRequired | AccountKeyRequired | KeyRequired | OutcomeRequired
  | ReservationRequired | UnknownRouteClass | SettingsMissing | CheckViolation | NotNullViolation

type_synonym 'a limit_tx = "(limit_error, limiter_db \<times> 'a) result"

subsection \<open>Keys\<close>

definition hashKey :: "(string \<Rightarrow> string) \<Rightarrow> string \<Rightarrow> string \<Rightarrow> string" where
  "hashKey sha scope v = sha (scope @ [CHR 0x00] @ v)"

text \<open>The keys collected in a map and then sorted: each key once, in the order of scope and hash.\<close>

definition normalizedKeys :: "(string \<Rightarrow> string) \<Rightarrow> Key list \<Rightarrow> Key list" where
  "normalizedKeys sha keys =
     sort_key (\<lambda>k. (kScope k, kValue k)) (remdups
       (map (\<lambda>k. k\<lparr>kValue := hashKey sha (kScope k) (kValue k)\<rparr>)
         (filter (\<lambda>k. \<not> (kValue k = [] \<or> (kScope k \<noteq> ScopeAccount \<and> kScope k \<noteq> ScopeCredential \<and> kScope k \<noteq> ScopeIP))) keys)))"

definition hex_digit :: "char \<Rightarrow> int option" where
  "hex_digit c = (let n = int (of_char c) in
     if 48 \<le> n \<and> n \<le> 57 then Some (n - 48)
     else if 97 \<le> n \<and> n \<le> 102 then Some (n - 87)
     else if 65 \<le> n \<and> n \<le> 70 then Some (n - 55)
     else None)"

definition metricShard :: "Key list \<Rightarrow> int" where
  "metricShard keys = (case keys of
     [] \<Rightarrow> 0
   | k # _ \<Rightarrow> (case kValue k of
       a # b # _ \<Rightarrow> (case (hex_digit a, hex_digit b) of (Some x, Some y) \<Rightarrow> (16 * x + y) mod 32 | _ \<Rightarrow> 0)
     | _ \<Rightarrow> 0))"

subsection \<open>Statements on the tables\<close>

definition routeLimit :: "limiter_db \<Rightarrow> string \<Rightarrow> (limit_error, int) result" where
  "routeLimit db routeClass = (case rl_settings db of
     None \<Rightarrow> Inl SettingsMissing
   | Some s \<Rightarrow>
       if routeClass = ClassAuthenticatedRead then Inr (set_reads s)
       else if routeClass = ClassAuthenticatedWrite then Inr (set_writes s)
       else if routeClass = ClassPublicAuth then Inr (set_public s)
       else Inl UnknownRouteClass)"

definition state_key :: "state_row \<Rightarrow> string \<times> string \<times> string" where
  "state_key r = (st_scope r, st_hash r, st_class r)"

definition deleteExpiredState :: "(state_row \<Rightarrow> bool) \<Rightarrow> limiter_db \<Rightarrow> int \<Rightarrow> limiter_db" where
  "deleteExpiredState skip db now =
     (let chosen = take 100 (sort_key st_expires (filter (\<lambda>r. st_expires r \<le> now \<and> \<not> skip r) (rl_state db))) in
      db\<lparr>rl_state := delete_where (\<lambda>r. r \<in> set chosen) (rl_state db)\<rparr>)"

definition ensure_state :: "string \<times> string \<times> string \<Rightarrow> int \<Rightarrow> state_row list \<Rightarrow> state_row list" where
  "ensure_state k now rows =
     (if list_ex (\<lambda>r. state_key r = k) rows then rows
      else rows @ [\<lparr>st_scope = fst k, st_hash = fst (snd k), st_class = snd (snd k), st_times = [], st_expires = now + window\<rparr>])"

definition lookup_state :: "state_row list \<Rightarrow> string \<times> string \<times> string \<Rightarrow> state_row option" where
  "lookup_state rows k = List.find (\<lambda>r. state_key r = k) rows"

definition recorded :: "state_row option \<Rightarrow> int list" where
  "recorded r = (case r of None \<Rightarrow> [] | Some row \<Rightarrow> st_times row)"

definition active_times :: "int \<Rightarrow> int list \<Rightarrow> int list" where
  "active_times now ts = sort (filter (\<lambda>x. now - window < x) ts)"

definition table_key :: "Key \<Rightarrow> string \<Rightarrow> string \<times> string \<times> string" where
  "table_key key routeClass = (kScope key, kValue key, routeClass)"

definition lockedState :: "limiter_db \<Rightarrow> Key \<Rightarrow> string \<Rightarrow> int \<Rightarrow> limiter_db \<times> int list" where
  "lockedState db key routeClass now =
     (let rows = ensure_state (table_key key routeClass) now (rl_state db) in
      (db\<lparr>rl_state := rows\<rparr>, active_times now (recorded (lookup_state rows (table_key key routeClass)))))"

definition expiry :: "int list \<Rightarrow> int option" where
  "expiry ts = (if ts = [] then None else Some (last ts + window))"

definition put_state :: "string \<times> string \<times> string \<Rightarrow> int list \<Rightarrow> state_row list \<Rightarrow> state_row list" where
  "put_state k ts = update_where (\<lambda>r. state_key r = k)
     (\<lambda>r. r\<lparr>st_times := ts, st_expires := (case expiry ts of None \<Rightarrow> st_expires r | Some x \<Rightarrow> x)\<rparr>)"

definition writeState :: "limiter_db \<Rightarrow> Key \<Rightarrow> string \<Rightarrow> int list \<Rightarrow> (limit_error, limiter_db) result" where
  "writeState db key routeClass active =
     rbind (require (expiry active \<noteq> None) NotNullViolation) (\<lambda>_.
     Inr (db\<lparr>rl_state := put_state (table_key key routeClass) active (rl_state db)\<rparr>))"

text \<open>The scan from the end of the array removes the last time that equals the reservation's.\<close>

definition remove_last :: "'a \<Rightarrow> 'a list \<Rightarrow> 'a list" where
  "remove_last x xs = rev (remove1 x (rev xs))"

definition removeReservation :: "limiter_db \<Rightarrow> CredentialReservation \<Rightarrow> limiter_db" where
  "removeReservation db res =
     (let k = (crScope res, crKeyHash res, crRouteClass res) in
      case lookup_state (rl_state db) k of
        None \<Rightarrow> db
      | Some row \<Rightarrow>
          db\<lparr>rl_state := put_state k
            (case crRecordedAt res of None \<Rightarrow> st_times row | Some x \<Rightarrow> remove_last x (st_times row)) (rl_state db)\<rparr>)"

definition metric_key :: "metric_row \<Rightarrow> int \<times> string \<times> string \<times> int" where
  "metric_key m = (me_bucket m, me_class m, me_outcome m, me_shard m)"

definition trunc_minute :: "int \<Rightarrow> int" where
  "trunc_minute now = now - now mod window"

definition recordMetric :: "limiter_db \<Rightarrow> int \<Rightarrow> string \<Rightarrow> string \<Rightarrow> int \<Rightarrow> (limit_error, limiter_db) result" where
  "recordMetric db now routeClass outcome shard =
     rbind (require (routeClass \<in> {ClassAuthenticatedRead, ClassAuthenticatedWrite, ClassPublicAuth}
              \<and> outcome \<in> {OutcomeAllowed, OutcomeRejected} \<and> 0 \<le> shard \<and> shard \<le> 31) CheckViolation) (\<lambda>_.
     let k = (trunc_minute now, routeClass, outcome, shard) in
     Inr (db\<lparr>rl_metrics :=
       (if list_ex (\<lambda>m. metric_key m = k) (rl_metrics db)
        then update_where (\<lambda>m. metric_key m = k) (\<lambda>m. m\<lparr>me_count := me_count m + 1\<rparr>) (rl_metrics db)
        else rl_metrics db @ [\<lparr>me_bucket = trunc_minute now, me_class = routeClass, me_outcome = outcome,
               me_shard = shard, me_count = 1\<rparr>])\<rparr>))"

text \<open>The expression \<open>times[len(times)-limit]\<close>; every caller has at least \<open>limit\<close> times.\<close>

definition retryAfter :: "int list \<Rightarrow> int \<Rightarrow> int \<Rightarrow> int" where
  "retryAfter ts limit now = ts ! nat (int (length ts) - limit) + window - now"

definition RetryAfterSeconds :: "int \<Rightarrow> int" where
  "RetryAfterSeconds duration =
     (let seconds = - ((- duration) div Second) in if seconds < 1 then 1 else seconds)"

subsection \<open>Operations\<close>

definition credential_key :: "(string \<Rightarrow> string) \<Rightarrow> Key \<Rightarrow> (limit_error, Key) result" where
  "credential_key sha key = (case normalizedKeys sha [key] of
     [k] \<Rightarrow> if kScope k \<noteq> ScopeCredential then Inl CredentialKeyRequired else Inr k
   | _ \<Rightarrow> Inl CredentialKeyRequired)"

definition account_key :: "(string \<Rightarrow> string) \<Rightarrow> Key \<Rightarrow> (limit_error, Key) result" where
  "account_key sha key = (case normalizedKeys sha [key] of
     [k] \<Rightarrow> if kScope k \<noteq> ScopeAccount then Inl AccountKeyRequired else Inr k
   | _ \<Rightarrow> Inl AccountKeyRequired)"

definition positive_retry :: "int \<Rightarrow> int" where
  "positive_retry retry = (if retry \<le> 0 then Second else retry)"

definition slot_decision :: "int list \<Rightarrow> int \<Rightarrow> int \<Rightarrow> Decision" where
  "slot_decision active limit now =
     (if int (length active) < limit
      then \<lparr>dAllowed = True, dLimit = limit, dRemaining = limit - int (length active) - 1, dRetryAfter = 0\<rparr>
      else \<lparr>dAllowed = False, dLimit = limit, dRemaining = 0, dRetryAfter = positive_retry (retryAfter active limit now)\<rparr>)"

definition ReserveCredential ::
    "(string \<Rightarrow> string) \<Rightarrow> (state_row \<Rightarrow> bool) \<Rightarrow> PG \<Rightarrow> limiter_db \<Rightarrow> int \<Rightarrow> Key \<Rightarrow> string \<Rightarrow> (CredentialReservation \<times> Decision) limit_tx" where
  "ReserveCredential sha skip p db0 now key routeClass =
     rbind (require (pg_configured p) NotConfigured) (\<lambda>_.
     rbind (credential_key sha key) (\<lambda>k.
     rbind (routeLimit db0 routeClass) (\<lambda>limit.
     let db = (if pg_cleanupExpired p then deleteExpiredState skip db0 now else db0);
         (db1, active) = lockedState db k routeClass now;
         decision = slot_decision active limit now in
     if \<not> dAllowed decision then Inr (db1, (no_reservation, decision))
     else
       rbind (writeState db1 k routeClass (active @ [now])) (\<lambda>db2.
       Inr (db2, (\<lparr>crScope = kScope k, crKeyHash = kValue k, crRouteClass = routeClass, crRecordedAt = Some now,
                   crDecision = decision\<rparr>, decision))))))"

definition RecordCredentialOutcome ::
    "(string \<Rightarrow> string) \<Rightarrow> limiter_db \<Rightarrow> int \<Rightarrow> Key \<Rightarrow> string \<Rightarrow> string \<Rightarrow> unit limit_tx" where
  "RecordCredentialOutcome sha db now key routeClass outcome =
     rbind (credential_key sha key) (\<lambda>k.
     rbind (require (\<not> (outcome \<noteq> OutcomeAllowed \<and> outcome \<noteq> OutcomeRejected)) OutcomeRequired) (\<lambda>_.
     rbind (recordMetric db now routeClass outcome (metricShard [k])) (\<lambda>db1. Inr (db1, ()))))"

definition FinalizeCredential ::
    "(string \<Rightarrow> string) \<Rightarrow> limiter_db \<Rightarrow> int \<Rightarrow> CredentialReservation \<Rightarrow> Key option \<Rightarrow> Decision limit_tx" where
  "FinalizeCredential sha db now reservation account =
     rbind (require (Active reservation) ReservationRequired) (\<lambda>_.
     case account of
       None \<Rightarrow> Inr (db, crDecision reservation)
     | Some key \<Rightarrow>
         rbind (account_key sha key) (\<lambda>k.
         rbind (routeLimit db (crRouteClass reservation)) (\<lambda>limit.
         let (db1, active) = lockedState db k (crRouteClass reservation) now;
             decision = slot_decision active limit now in
         if \<not> dAllowed decision then
           rbind (recordMetric (removeReservation db1 reservation) now (crRouteClass reservation) OutcomeRejected (metricShard [k]))
             (\<lambda>db2. Inr (db2, decision))
         else
           rbind (writeState db1 k (crRouteClass reservation) (active @ [now])) (\<lambda>db2.
           rbind (recordMetric db2 now (crRouteClass reservation) OutcomeAllowed (metricShard [k])) (\<lambda>db3.
           Inr (db3, decision))))))"

definition CancelCredential :: "limiter_db \<Rightarrow> CredentialReservation \<Rightarrow> limiter_db" where
  "CancelCredential db reservation = (if \<not> Active reservation then db else removeReservation db reservation)"

fun lockedStates :: "limiter_db \<Rightarrow> Key list \<Rightarrow> string \<Rightarrow> int \<Rightarrow> limiter_db \<times> (Key \<times> int list) list" where
  "lockedStates db [] routeClass now = (db, [])"
| "lockedStates db (key # keys) routeClass now =
     (let (db1, active) = lockedState db key routeClass now;
          (db2, states) = lockedStates db1 keys routeClass now in
      (db2, (key, active) # states))"

fun decide :: "int \<Rightarrow> int \<Rightarrow> Decision \<Rightarrow> (Key \<times> int list) list \<Rightarrow> Decision" where
  "decide limit now d [] = d"
| "decide limit now d ((key, ts) # states) =
     (let remaining = limit - int (length ts);
          d1 = (if remaining < dRemaining d then d\<lparr>dRemaining := remaining\<rparr> else d);
          d2 = (if int (length ts) \<ge> limit then
                  (let retry = retryAfter ts limit now; d' = d1\<lparr>dAllowed := False\<rparr> in
                   if retry > dRetryAfter d' then d'\<lparr>dRetryAfter := retry\<rparr> else d')
                else d1) in
      decide limit now d2 states)"

fun admit_states :: "limiter_db \<Rightarrow> string \<Rightarrow> int \<Rightarrow> (Key \<times> int list) list \<Rightarrow> (limit_error, limiter_db) result" where
  "admit_states db routeClass now [] = Inr db"
| "admit_states db routeClass now ((key, ts) # states) =
     rbind (writeState db key routeClass (sort (ts @ [now]))) (\<lambda>db1. admit_states db1 routeClass now states)"

fun keep_states :: "limiter_db \<Rightarrow> string \<Rightarrow> (Key \<times> int list) list \<Rightarrow> limiter_db" where
  "keep_states db routeClass [] = db"
| "keep_states db routeClass ((key, ts) # states) =
     keep_states (db\<lparr>rl_state := put_state (table_key key routeClass) ts (rl_state db)\<rparr>) routeClass states"

definition Allow ::
    "(string \<Rightarrow> string) \<Rightarrow> (state_row \<Rightarrow> bool) \<Rightarrow> PG \<Rightarrow> limiter_db \<Rightarrow> int \<Rightarrow> Key list \<Rightarrow> string \<Rightarrow> Decision limit_tx" where
  "Allow sha skip p db0 now keys0 routeClass =
     rbind (require (pg_configured p) NotConfigured) (\<lambda>_.
     let keys = normalizedKeys sha keys0 in
     rbind (require (keys \<noteq> []) KeyRequired) (\<lambda>_.
     rbind (routeLimit db0 routeClass) (\<lambda>limit.
     let db = (if pg_cleanupExpired p then deleteExpiredState skip db0 now else db0);
         (db1, states) = lockedStates db keys routeClass now;
         decision = decide limit now \<lparr>dAllowed = True, dLimit = limit, dRemaining = limit, dRetryAfter = 0\<rparr> states in
     if dAllowed decision then
       rbind (admit_states db1 routeClass now states) (\<lambda>db2.
       rbind (recordMetric db2 now routeClass OutcomeAllowed (metricShard keys)) (\<lambda>db3.
       Inr (db3, decision\<lparr>dRemaining := dRemaining decision - 1\<rparr>)))
     else
       rbind (recordMetric (keep_states db1 routeClass states) now routeClass OutcomeRejected (metricShard keys)) (\<lambda>db3.
       Inr (db3, decision\<lparr>dRemaining := 0, dRetryAfter := positive_retry (dRetryAfter decision)\<rparr>)))))"

end
