(* ===== verification/Keyset.thy ===== *)
theory Keyset
  imports Ordering
begin

section \<open>Reading a table page by page\<close>

text \<open>
  The list endpoints return a page and a cursor; the next request repeats the filter and asks
  for the rows after the cursor. \<open>desc\<close> is the order of a column sorted \<open>DESC\<close>. The locale
  \<open>cursor_pages\<close> states what such an endpoint offers, and shows that a client that follows the
  cursors reads the whole list, once and in order. It is interpreted on the task pages and on
  the pages of the inbox.
\<close>

datatype 'a desc = Desc (undesc: 'a)

instantiation desc :: (linorder) linorder
begin

definition less_eq_desc :: "'a desc \<Rightarrow> 'a desc \<Rightarrow> bool" where
  "less_eq_desc x y \<longleftrightarrow> undesc y \<le> undesc x"

definition less_desc :: "'a desc \<Rightarrow> 'a desc \<Rightarrow> bool" where
  "less_desc x y \<longleftrightarrow> undesc y < undesc x"

instance
  by standard (auto simp: less_eq_desc_def less_desc_def desc.expand)

end

lemma desc_less [simp]: "Desc x < Desc y \<longleftrightarrow> y < x" and desc_le [simp]: "Desc x \<le> Desc y \<longleftrightarrow> y \<le> x"
  by (simp_all add: less_desc_def less_eq_desc_def)

subsection \<open>The rows after a row\<close>

lemma filter_after_sorted:
  assumes "sorted (map k xs)" "distinct (map k xs)" "i < length xs"
  shows "filter (\<lambda>r. k (xs ! i) < k r) xs = drop (Suc i) xs"
proof -
  have "filter (\<lambda>r. k (xs ! i) < k r) (take (Suc i) xs) = []"
  proof (rule filter_False, rule ballI)
    fix x assume "x \<in> set (take (Suc i) xs)"
    then obtain j where j: "j < Suc i" "x = xs ! j" using assms(3) by (auto simp: in_set_conv_nth)
    then have "k x \<le> k (xs ! i)" using sorted_nth_mono [OF assms(1), of j i] assms(3) by simp
    then show "\<not> k (xs ! i) < k x" by simp
  qed
  moreover have "filter (\<lambda>r. k (xs ! i) < k r) (drop (Suc i) xs) = drop (Suc i) xs"
  proof (rule filter_True, rule ballI)
    fix x assume "x \<in> set (drop (Suc i) xs)"
    then obtain j where "j < length (drop (Suc i) xs)" "x = drop (Suc i) xs ! j" unfolding in_set_conv_nth by blast
    then have j: "Suc i + j < length xs" "x = xs ! (Suc i + j)" by simp_all
    have "k (xs ! i) \<le> k x" using sorted_nth_mono [OF assms(1), of i "Suc i + j"] j by simp
    moreover have "k (xs ! i) \<noteq> k x"
      using nth_eq_iff_index_eq [OF assms(2), of i "Suc i + j"] j assms(3) by simp
    ultimately show "k (xs ! i) < k x" by simp
  qed
  ultimately have "filter (\<lambda>r. k (xs ! i) < k r) (take (Suc i) xs @ drop (Suc i) xs) = drop (Suc i) xs" by (simp only: filter_append append_Nil)
  then show ?thesis by simp
qed

lemma sort_key_after:
  assumes "distinct (map k (filter P rows))" "i < length (sort_key k (filter P rows))"
  shows "sort_key k (filter (\<lambda>r. P r \<and> k (sort_key k (filter P rows) ! i) < k r) rows) = drop (Suc i) (sort_key k (filter P rows))"
proof -
  let ?xs = "sort_key k (filter P rows)"
  have "sort_key k (filter (\<lambda>r. P r \<and> k (?xs ! i) < k r) rows) = filter (\<lambda>r. k (?xs ! i) < k r) ?xs"
    by (simp add: filter_sort [symmetric] conj_commute)
  also have "\<dots> = drop (Suc i) ?xs"
    by (rule filter_after_sorted [OF _ _ assms(2)]) (use assms(1) in \<open>simp_all add: distinct_map\<close>)
  finally show ?thesis .
qed

subsection \<open>Following the cursors\<close>

fun read_pages :: "(string \<Rightarrow> ('e, 'x list \<times> string) result) \<Rightarrow> nat \<Rightarrow> string \<Rightarrow> ('e, 'x list) result option" where
  "read_pages fetch fuel cursor =
     (case fetch cursor of
        Inl err \<Rightarrow> Some (Inl err)
      | Inr (items, nxt) \<Rightarrow>
          if nxt = [] then Some (Inr items)
          else (case fuel of 0 \<Rightarrow> None
                | Suc n \<Rightarrow> map_option (map_sum id (\<lambda>rest. items @ rest)) (read_pages fetch n nxt)))"

declare read_pages.simps [simp del]

locale cursor_pages =
  fixes good :: "'s \<Rightarrow> bool" and fetch :: "'s \<Rightarrow> string \<Rightarrow> ('e, 'x list \<times> string) result"
    and rows :: "'s \<Rightarrow> 'x list" and page :: "'s \<Rightarrow> nat" and mark :: "'s \<Rightarrow> nat \<Rightarrow> string"
  assumes mark_0: "mark s 0 = []"
    and mark_pos: "good s \<Longrightarrow> 0 < m \<Longrightarrow> m < length (rows s) \<Longrightarrow> mark s m \<noteq> []"
    and page_pos: "good s \<Longrightarrow> 0 < page s"
    and fetch_mark: "good s \<Longrightarrow> m = 0 \<or> m < length (rows s) \<Longrightarrow> fetch s (mark s m) =
      Inr (take (page s) (drop m (rows s)), if m + page s < length (rows s) then mark s (m + page s) else [])"
begin

lemma read_from:
  assumes "good s" "m = 0 \<or> m < length (rows s)" "length (rows s) \<le> m + fuel * page s + page s"
  shows "read_pages (fetch s) fuel (mark s m) = Some (Inr (drop m (rows s)))"
  using assms(2,3)
proof (induction fuel arbitrary: m)
  case 0
  then show ?case by (subst read_pages.simps) (simp add: fetch_mark [OF assms(1) 0(1)])
next
  case (Suc n)
  show ?case
  proof (cases "m + page s < length (rows s)")
    case False
    then show ?thesis by (subst read_pages.simps) (simp add: fetch_mark [OF assms(1) Suc.prems(1)])
  next
    case True
    have "mark s (m + page s) \<noteq> []" using mark_pos [OF assms(1) _ True] page_pos [OF assms(1)] by simp
    moreover have "read_pages (fetch s) n (mark s (m + page s)) = Some (Inr (drop (m + page s) (rows s)))"
      using Suc.IH [of "m + page s"] True Suc.prems(2) by (simp add: algebra_simps)
    moreover have "take (page s) (drop m (rows s)) @ drop (m + page s) (rows s) = drop m (rows s)"
      by (metis append_take_drop_id drop_drop add.commute)
    ultimately show ?thesis using True by (subst read_pages.simps) (simp add: fetch_mark [OF assms(1) Suc.prems(1)])
  qed
qed

text \<open>As many requests as there are rows are enough, one more than the full pages.\<close>

lemma read_all:
  assumes "good s" "length (rows s) \<le> fuel"
  shows "read_pages (fetch s) fuel [] = Some (Inr (rows s))"
proof -
  have "fuel \<le> fuel * page s" using page_pos [OF assms(1)] by (cases "page s") auto
  then have "length (rows s) \<le> 0 + fuel * page s + page s" using assms(2) by linarith
  then show ?thesis using read_from [OF assms(1), of 0 fuel] by (simp add: mark_0)
qed

end

end
