(* ===== verification/Cursors.thy ===== *)
theory Cursors
  imports Schema Keyset
begin

section \<open>Page cursors (boards/store.go)\<close>

text \<open>
  A cursor is the base64 text of a JSON object or, for the inbox, of a time and an identifier.
  Base64 is modelled; the JSON text of a cursor, the RFC 3339 text of a time and the SHA-256 of
  the filter are parameters, with the round trips they promise as \<open>codec_ok\<close>.
\<close>

subsection \<open>base64.RawURLEncoding\<close>

definition b64_alphabet :: string where
  "b64_alphabet = ''ABCDEFGHIJKLMNOPQRSTUVWXYZabcdefghijklmnopqrstuvwxyz0123456789-_''"

fun to_sextets :: "nat list \<Rightarrow> nat list" where
  "to_sextets [] = []"
| "to_sextets [a] = [a div 4, (a mod 4) * 16]"
| "to_sextets [a, b] = [a div 4, (a mod 4) * 16 + b div 16, (b mod 16) * 4]"
| "to_sextets (a # b # c # rest) = (a div 4) # ((a mod 4) * 16 + b div 16) # ((b mod 16) * 4 + c div 64) # (c mod 64) # to_sextets rest"

fun of_sextets :: "nat list \<Rightarrow> nat list option" where
  "of_sextets [] = Some []"
| "of_sextets [w] = None"
| "of_sextets [w, x] = Some [w * 4 + x div 16]"
| "of_sextets [w, x, y] = Some [w * 4 + x div 16, (x mod 16) * 16 + y div 4]"
| "of_sextets (w # x # y # z # rest) =
     map_option (\<lambda>bs. (w * 4 + x div 16) # ((x mod 16) * 16 + y div 4) # ((y mod 4) * 64 + z) # bs) (of_sextets rest)"

definition EncodeToString :: "string \<Rightarrow> string" where
  "EncodeToString s = map (\<lambda>n. b64_alphabet ! n) (to_sextets (map of_char s))"

text \<open>The decoder skips line breaks, refuses any other foreign character, and ignores trailing bits.\<close>

definition DecodeString :: "string \<Rightarrow> string option" where
  "DecodeString t =
     (let cs = filter (\<lambda>c. c \<noteq> CHR 0x0A \<and> c \<noteq> CHR 0x0D) t in
      if list_all (\<lambda>c. c \<in> set b64_alphabet) cs
      then map_option (map char_of) (of_sextets (map (\<lambda>c. the (index_of b64_alphabet c)) cs)) else None)"

lemma sextets_bound: "list_all (\<lambda>b. b < 256) bs \<Longrightarrow> list_all (\<lambda>n. n < 64) (to_sextets bs)"
  by (induction bs rule: to_sextets.induct) auto

lemma unpack: "(y :: nat) < n \<Longrightarrow> (x * n + y) div n = x" "(y :: nat) < n \<Longrightarrow> (x * n + y) mod n = y"
  by simp_all

lemma sextets_roundtrip: "list_all (\<lambda>b. b < 256) bs \<Longrightarrow> of_sextets (to_sextets bs) = Some bs"
proof (induction bs rule: to_sextets.induct)
  case (3 a b)
  then have "b div 16 < 16" by (simp add: less_mult_imp_div_less)
  then show ?case by (simp add: unpack mult.commute [of 4])
next
  case (4 a b c rest)
  then have "b div 16 < 16" "c div 64 < 4" by (simp_all add: less_mult_imp_div_less)
  then show ?case using 4 by (simp add: unpack mult.commute [of 4] mult.commute [of 64])
qed simp_all

lemma b64_alphabet_facts: "length b64_alphabet = 64" "distinct b64_alphabet"
  "CHR 0x0A \<notin> set b64_alphabet" "CHR 0x0D \<notin> set b64_alphabet"
  by code_simp+

lemma DecodeString_Encode: "DecodeString (EncodeToString s) = Some s"
proof -
  let ?ns = "to_sextets (map of_char s)"
  have bytes: "list_all (\<lambda>b. b < 256) (map of_char s :: nat list)" by (simp add: list_all_iff)
  have ns: "list_all (\<lambda>n. n < 64) ?ns" by (rule sextets_bound [OF bytes])
  have mem: "b64_alphabet ! n \<in> set b64_alphabet" if "n \<in> set ?ns" for n
    using ns that by (simp add: list_all_iff b64_alphabet_facts(1))
  then have cs: "filter (\<lambda>c. c \<noteq> CHR 0x0A \<and> c \<noteq> CHR 0x0D) (EncodeToString s) = EncodeToString s"
    using b64_alphabet_facts(3,4) unfolding EncodeToString_def by (intro filter_True ballI) (metis imageE list.set_map)
  have "list_all (\<lambda>c. c \<in> set b64_alphabet) (EncodeToString s)" using mem by (simp add: EncodeToString_def list_all_iff)
  moreover have "map (\<lambda>c. the (index_of b64_alphabet c)) (EncodeToString s) = ?ns"
  proof -
    have "the (index_of b64_alphabet (b64_alphabet ! n)) = n" if "n \<in> set ?ns" for n
      using ns that by (simp add: list_all_iff b64_alphabet_facts index_of_nth)
    then show ?thesis by (simp add: EncodeToString_def map_idI)
  qed
  moreover have "map char_of (map of_char s :: nat list) = s" by (simp add: map_idI)
  ultimately show ?thesis using cs sextets_roundtrip [OF bytes] by (simp add: DecodeString_def Let_def)
qed

lemma EncodeToString_Nil: "EncodeToString s = [] \<longleftrightarrow> s = []"
proof (cases s)
  case (Cons c cs)
  have "to_sextets (map of_char s) \<noteq> []" unfolding Cons by (cases "map of_char cs :: nat list" rule: to_sextets.cases) auto
  then show ?thesis using Cons by (simp add: EncodeToString_def)
qed (simp add: EncodeToString_def)

subsection \<open>Cursor values and their texts\<close>

record completedTaskCursor =
  ccUpdatedAt :: int
  ccID :: string
  ccScope :: string

record agentQueueCursor =
  aqPriorityRank :: int
  aqCreatedAt :: int
  aqID :: string
  aqScope :: string

record workspaceTaskCursor =
  wtPriorityRank :: int
  wtBucketSortOrder :: int
  wtBucketCreatedAt :: int
  wtBucketID :: string
  wtCreatedAt :: int
  wtID :: string
  wtScope :: string

record codec =
  json_completed :: "completedTaskCursor \<Rightarrow> string"
  parse_completed :: "string \<Rightarrow> completedTaskCursor option"
  json_queue :: "agentQueueCursor \<Rightarrow> string"
  parse_queue :: "string \<Rightarrow> agentQueueCursor option"
  json_workspace :: "workspaceTaskCursor \<Rightarrow> string"
  parse_workspace :: "string \<Rightarrow> workspaceTaskCursor option"
  format_time :: "int \<Rightarrow> string"
  parse_time :: "string \<Rightarrow> int option"
  sha_hex :: "string \<Rightarrow> string"
  date_in :: "string \<Rightarrow> string option"

text \<open>
  What the codec promises: \<open>json.Unmarshal\<close> after \<open>json.Marshal\<close> and \<open>time.Parse\<close> after
  \<open>Format\<close> give the value back, no JSON object is the empty text, and the text of a time has
  no \<open>|\<close>.
\<close>

definition codec_ok :: "codec \<Rightarrow> bool" where
  "codec_ok c \<longleftrightarrow> (\<forall>v. parse_completed c (json_completed c v) = Some v \<and> json_completed c v \<noteq> [])
     \<and> (\<forall>v. parse_queue c (json_queue c v) = Some v \<and> json_queue c v \<noteq> [])
     \<and> (\<forall>v. parse_workspace c (json_workspace c v) = Some v \<and> json_workspace c v \<noteq> [])
     \<and> (\<forall>t. parse_time c (format_time c t) = Some t \<and> CHR ''|'' \<notin> set (format_time c t))"

text \<open>\<open>time.Time.IsZero\<close>: the first microsecond of year 1.\<close>

definition zero_time :: int where "zero_time = - 62135596800 * 1000000"

record TaskFilter =
  tfBucketID :: string
  tfStatus :: string
  tfDone :: "bool option"
  tfPriority :: string
  tfSort :: string
  tfLimit :: int
  tfCursor :: string
  tfActionsOnly :: bool
  tfAssigneeAgentID :: string
  tfUnassigned :: bool
  tfQuery :: string
  tfScheduledFrom :: string
  tfScheduledTo :: string
  tfParentTaskID :: string
  tfTopLevelOnly :: bool
  tfInboxOnly :: bool
  tfAgentQueue :: bool

definition sprint_bool :: "bool \<Rightarrow> string" where
  "sprint_bool b = (if b then ''true'' else ''false'')"

fun join :: "string \<Rightarrow> string list \<Rightarrow> string" where
  "join sep [] = []"
| "join sep [p] = p"
| "join sep (p # ps) = p @ sep @ join sep ps"

definition taskCursorScope :: "codec \<Rightarrow> string \<Rightarrow> TaskFilter \<Rightarrow> string" where
  "taskCursorScope c userID f =
     (let parts =
        [userID, tfBucketID f, tfStatus f, tfPriority f, sprint_bool (tfActionsOnly f), tfAssigneeAgentID f,
         sprint_bool (tfUnassigned f), tfQuery f, tfScheduledFrom f, tfScheduledTo f, tfParentTaskID f,
         sprint_bool (tfTopLevelOnly f), sprint_bool (tfInboxOnly f), sprint_bool (tfAgentQueue f)]
        @ (if tfSort f \<noteq> [] then [''sort='' @ tfSort f] else [])
        @ (if tfAgentQueue f \<or> tfSort f = ''priority'' \<or> tfSort f = ''list_priority'' then [''priority-rank=v2''] else [])
        @ (case tfDone f of None \<Rightarrow> []
           | Some d \<Rightarrow> if \<not> (d \<and> tfStatus f = StatusDone) then [''done='' @ sprint_bool d] else []) in
      sha_hex c (join [CHR 0x00] parts))"

definition agentQueuePriorityRank :: "string \<Rightarrow> int" where
  "agentQueuePriorityRank p =
     (if p = ''p0'' then 0 else if p = ''p1'' then 1 else if p = ''p2'' then 2 else if p = ''p3'' then 3 else 4)"

lemma agentQueuePriorityRank_range: "0 \<le> agentQueuePriorityRank p \<and> agentQueuePriorityRank p \<le> 4"
  by (simp add: agentQueuePriorityRank_def)

definition encodeCompletedTaskCursor :: "codec \<Rightarrow> Task \<Rightarrow> string \<Rightarrow> string" where
  "encodeCompletedTaskCursor c task scope =
     EncodeToString (json_completed c \<lparr>ccUpdatedAt = tUpdatedAt task, ccID = tID task, ccScope = scope\<rparr>)"

definition decodeCompletedTaskCursor :: "codec \<Rightarrow> string \<Rightarrow> string \<Rightarrow> (store_error, completedTaskCursor) result" where
  "decodeCompletedTaskCursor c raw scope =
     (let bad = Inl (ErrInvalidData ''invalid completed-task cursor'') in
      case DecodeString raw of None \<Rightarrow> bad
      | Some decoded \<Rightarrow> (case parse_completed c decoded of None \<Rightarrow> bad
        | Some v \<Rightarrow> if ccUpdatedAt v = zero_time \<or> \<not> validUUIDText (ccID v) \<or> ccScope v \<noteq> scope then bad else Inr v))"

definition encodeAgentQueueCursor :: "codec \<Rightarrow> Task \<Rightarrow> string \<Rightarrow> string" where
  "encodeAgentQueueCursor c task scope =
     EncodeToString (json_queue c
       \<lparr>aqPriorityRank = agentQueuePriorityRank (tPriority task), aqCreatedAt = tCreatedAt task, aqID = tID task, aqScope = scope\<rparr>)"

definition decodeAgentQueueCursor :: "codec \<Rightarrow> string \<Rightarrow> string \<Rightarrow> (store_error, agentQueueCursor) result" where
  "decodeAgentQueueCursor c raw scope =
     (let bad = Inl (ErrInvalidData ''invalid cursor'') in
      case DecodeString raw of None \<Rightarrow> bad
      | Some decoded \<Rightarrow> (case parse_queue c decoded of None \<Rightarrow> bad
        | Some v \<Rightarrow>
            if aqCreatedAt v = zero_time \<or> \<not> validUUID (aqID v) \<or> aqScope v \<noteq> scope \<or> aqPriorityRank v < 0 \<or> aqPriorityRank v > 4
            then bad else Inr v))"

definition encodeWorkspaceTaskCursor ::
    "codec \<Rightarrow> db \<Rightarrow> string \<Rightarrow> Task \<Rightarrow> string \<Rightarrow> string \<Rightarrow> (store_error, string) result" where
  "encodeWorkspaceTaskCursor c db userID task scope srt =
     (let v = \<lparr>wtPriorityRank = 0, wtBucketSortOrder = 0, wtBucketCreatedAt = zero_time, wtBucketID = [],
               wtCreatedAt = tCreatedAt task, wtID = tID task, wtScope = scope\<rparr>;
          rank = agentQueuePriorityRank (tPriority task) in
      rbind (if srt = ''priority'' then Inr (v\<lparr>wtPriorityRank := rank\<rparr>)
             else if srt = ''list'' \<or> srt = ''list_priority'' then
               rbind (query_row (ErrDB NoRows) (\<lambda>b. bk_user b = userID \<and> bk_id b = tBucketID task) (buckets db)) (\<lambda>b.
               Inr (v\<lparr>wtPriorityRank := (if srt = ''list_priority'' then rank else 0), wtBucketSortOrder := bk_sort b,
                      wtBucketCreatedAt := bk_created b, wtBucketID := tBucketID task\<rparr>))
             else Inl (ErrInvalidData ''invalid task sort'')) (\<lambda>v.
      Inr (EncodeToString (json_workspace c v))))"

definition decodeWorkspaceTaskCursor :: "codec \<Rightarrow> string \<Rightarrow> string \<Rightarrow> string \<Rightarrow> (store_error, workspaceTaskCursor) result" where
  "decodeWorkspaceTaskCursor c raw scope srt =
     (let bad = Inl (ErrInvalidData ''invalid cursor'') in
      case DecodeString raw of None \<Rightarrow> bad
      | Some decoded \<Rightarrow> (case parse_workspace c decoded of None \<Rightarrow> bad
        | Some v \<Rightarrow>
            if wtCreatedAt v = zero_time \<or> \<not> validUUIDText (wtID v) \<or> wtScope v \<noteq> scope then bad
            else if srt = ''priority'' then (if wtPriorityRank v < 0 \<or> wtPriorityRank v > 4 then bad else Inr v)
            else if srt = ''list'' \<or> srt = ''list_priority'' then
              (if wtBucketSortOrder v < minPostgresInteger \<or> wtBucketSortOrder v > maxPostgresInteger
                 \<or> wtBucketCreatedAt v = zero_time \<or> \<not> validUUIDText (wtBucketID v) then bad
               else if srt = ''list_priority'' \<and> (wtPriorityRank v < 0 \<or> wtPriorityRank v > 4) then bad
               else Inr v)
            else Inl (ErrInvalidData ''invalid task sort'')))"

definition encodeInboxCursor :: "codec \<Rightarrow> int \<Rightarrow> string \<Rightarrow> string" where
  "encodeInboxCursor c createdAt i = EncodeToString (format_time c createdAt @ ''|'' @ i)"

definition decodeInboxCursor :: "codec \<Rightarrow> string \<Rightarrow> (store_error, int \<times> string) result" where
  "decodeInboxCursor c cursor =
     (let bad = Inl (ErrInvalidData ''inbox cursor is not valid'') in
      case DecodeString cursor of None \<Rightarrow> bad
      | Some raw \<Rightarrow>
          let first = takeWhile (\<lambda>x. x \<noteq> CHR ''|'') raw; rest = dropWhile (\<lambda>x. x \<noteq> CHR ''|'') raw in
          if rest = [] \<or> \<not> validUUID (tl rest) then bad
          else (case parse_time c first of None \<Rightarrow> bad | Some t \<Rightarrow> Inr (t, tl rest)))"

subsection \<open>Round trips\<close>

lemma completed_cursor_roundtrip:
  assumes "codec_ok c" "validUUID (tID task)" "tUpdatedAt task \<noteq> zero_time"
  shows "decodeCompletedTaskCursor c (encodeCompletedTaskCursor c task scope) scope
      = Inr \<lparr>ccUpdatedAt = tUpdatedAt task, ccID = tID task, ccScope = scope\<rparr>"
    and "encodeCompletedTaskCursor c task scope \<noteq> []"
  using assms
  by (simp_all add: codec_ok_def decodeCompletedTaskCursor_def encodeCompletedTaskCursor_def DecodeString_Encode EncodeToString_Nil
      validUUIDText_eq)

lemma queue_cursor_roundtrip:
  assumes "codec_ok c" "validUUID (tID task)" "tCreatedAt task \<noteq> zero_time"
  shows "decodeAgentQueueCursor c (encodeAgentQueueCursor c task scope) scope
      = Inr \<lparr>aqPriorityRank = agentQueuePriorityRank (tPriority task), aqCreatedAt = tCreatedAt task, aqID = tID task, aqScope = scope\<rparr>"
    and "encodeAgentQueueCursor c task scope \<noteq> []"
  using assms agentQueuePriorityRank_range [of "tPriority task"]
  by (simp_all add: codec_ok_def decodeAgentQueueCursor_def encodeAgentQueueCursor_def DecodeString_Encode EncodeToString_Nil)

lemma inbox_cursor_roundtrip:
  assumes "codec_ok c" "validUUID i"
  shows "decodeInboxCursor c (encodeInboxCursor c t i) = Inr (t, i)" and "encodeInboxCursor c t i \<noteq> []"
proof -
  have n: "x \<noteq> CHR ''|''" if "x \<in> set (format_time c t)" for x using assms(1) that by (auto simp: codec_ok_def)
  then have "takeWhile (\<lambda>x. x \<noteq> CHR ''|'') (format_time c t @ ''|'' @ i) = format_time c t"
    "dropWhile (\<lambda>x. x \<noteq> CHR ''|'') (format_time c t @ ''|'' @ i) = ''|'' @ i"
    by (simp_all add: takeWhile_append2 dropWhile_append2)
  moreover have "parse_time c (format_time c t) = Some t" using assms(1) by (simp add: codec_ok_def)
  ultimately show "decodeInboxCursor c (encodeInboxCursor c t i) = Inr (t, i)"
    using assms(2) by (simp add: decodeInboxCursor_def encodeInboxCursor_def DecodeString_Encode Let_def)
  show "encodeInboxCursor c t i \<noteq> []" by (simp add: encodeInboxCursor_def EncodeToString_Nil)
qed

end
