(* ===== verification/Paging.thy ===== *)
theory Paging
  imports Tasks Entries Cursors
begin

section \<open>Reading tasks, lists and the inbox (boards/store.go)\<close>

text \<open>
  The queries behind the list endpoints. A \<open>WHERE\<close> clause is a predicate on the row, an
  \<open>ORDER BY\<close> a key: the columns sorted \<open>DESC\<close> are negated times and \<open>Desc\<close> identifiers, and a
  column an order does not use is constant.
\<close>

definition defaultCompletedHistoryLimit :: int where "defaultCompletedHistoryLimit = 20"
definition maxCompletedHistoryLimit :: int where "maxCompletedHistoryLimit = 100"
definition inboxPageSize :: nat where "inboxPageSize = 50"

subsection \<open>Searching\<close>

definition taskSearchPattern :: "string \<Rightarrow> string" where
  "taskSearchPattern query =
     ''%'' @ concat (map (\<lambda>c. if c = CHR 0x5C \<or> c = CHR ''%'' \<or> c = CHR ''_'' then [CHR 0x5C, c] else [c]) query) @ ''%''"

text \<open>
  \<open>LIKE ... ESCAPE\<close> with the backslash. \<open>_\<close> stands for one character, here one byte; the
  patterns of the store contain it only escaped.
\<close>

fun like :: "string \<Rightarrow> string \<Rightarrow> bool" where
  "like [] s \<longleftrightarrow> s = []"
| "like (c # p) s \<longleftrightarrow>
     (if c = CHR ''%'' then like p s \<or> (case s of [] \<Rightarrow> False | _ # s' \<Rightarrow> like (c # p) s')
      else if c = CHR ''_'' then (case s of [] \<Rightarrow> False | _ # s' \<Rightarrow> like p s')
      else if c = CHR 0x5C then (case p of [] \<Rightarrow> False | c' # p' \<Rightarrow> (case s of [] \<Rightarrow> False | x # s' \<Rightarrow> x = c' \<and> like p' s'))
      else (case s of [] \<Rightarrow> False | x # s' \<Rightarrow> x = c \<and> like p s'))"

definition ilike :: "env \<Rightarrow> string \<Rightarrow> string \<Rightarrow> bool" where
  "ilike e s pattern = like (sql_lower e pattern) (sql_lower e s)"

subsection \<open>The task query\<close>

definition list_of_task :: "db \<Rightarrow> task_row \<Rightarrow> bucket_row option" where
  "list_of_task db t = List.find (\<lambda>b. bk_id b = tk_bucket t) (buckets db)"

definition scanTaskSummary :: "db \<Rightarrow> task_row \<Rightarrow> Task" where
  "scanTaskSummary db t =
     (task_of_row t)\<lparr>tDescription := [],
        tAssigneeAgentName := (case tk_assignee t of None \<Rightarrow> []
          | Some a \<Rightarrow> (case List.find (\<lambda>g. ag_id g = a) (agent_rows db) of None \<Rightarrow> [] | Some g \<Rightarrow> ag_name g)),
        tParentTaskTitle := (case tk_parent t of None \<Rightarrow> []
          | Some p \<Rightarrow> (case List.find (\<lambda>q. tk_id q = p \<and> tk_bucket q = tk_bucket t) (tasks db) of None \<Rightarrow> [] | Some q \<Rightarrow> tk_title q)),
        tBucketName := (case list_of_task db t of None \<Rightarrow> [] | Some l \<Rightarrow> bk_name l)\<rparr>"

text \<open>The arguments of the query that the database casts: identifiers and dates.\<close>

record filter_args =
  fa_bucket :: string
  fa_assignee :: string
  fa_from :: string
  fa_to :: string
  fa_parent :: string

definition date_arg :: "codec \<Rightarrow> string \<Rightarrow> (store_error, string) result" where
  "date_arg c s = (case date_in c s of None \<Rightarrow> Inl (ErrDB DateOutOfRange) | Some d \<Rightarrow> Inr d)"

definition cast_filter :: "env \<Rightarrow> codec \<Rightarrow> TaskFilter \<Rightarrow> (store_error, filter_args) result" where
  "cast_filter e c f =
     (let opt = (\<lambda>cast s. if s = [] then Inr [] else cast s) in
      rbind (opt (uuid_arg e) (tfBucketID f)) (\<lambda>b.
      rbind (opt (uuid_arg e) (tfAssigneeAgentID f)) (\<lambda>a.
      rbind (opt (date_arg c) (tfScheduledFrom f)) (\<lambda>d1.
      rbind (opt (date_arg c) (tfScheduledTo f)) (\<lambda>d2.
      rbind (opt (uuid_arg e) (tfParentTaskID f)) (\<lambda>p.
      Inr \<lparr>fa_bucket = b, fa_assignee = a, fa_from = d1, fa_to = d2, fa_parent = p\<rparr>))))))"

definition matches_filter :: "env \<Rightarrow> db \<Rightarrow> string \<Rightarrow> TaskFilter \<Rightarrow> filter_args \<Rightarrow> task_row \<Rightarrow> bool" where
  "matches_filter e db userID f args t \<longleftrightarrow> tk_owner t = userID \<and> list_of_task db t \<noteq> None
     \<and> (tfBucketID f \<noteq> [] \<longrightarrow> tk_bucket t = fa_bucket args)
     \<and> (tfStatus f \<noteq> [] \<longrightarrow> tk_status t = tfStatus f)
     \<and> (case tfDone f of None \<Rightarrow> True | Some d \<Rightarrow> if d then tk_status t = ''done'' else tk_status t \<noteq> ''done'')
     \<and> (tfPriority f \<noteq> [] \<longrightarrow> tk_priority t = tfPriority f)
     \<and> (tfActionsOnly f \<longrightarrow> tk_kind t = KindAction)
     \<and> (tfAssigneeAgentID f \<noteq> [] \<longrightarrow> tk_assignee t = Some (fa_assignee args))
     \<and> (tfUnassigned f \<longrightarrow> tk_assignee t = None)
     \<and> (tfQuery f \<noteq> [] \<longrightarrow> ilike e (tk_title t) (taskSearchPattern (tfQuery f))
          \<or> ilike e (tk_description t) (taskSearchPattern (tfQuery f)))
     \<and> (tfScheduledFrom f \<noteq> [] \<longrightarrow> (case tk_date t of None \<Rightarrow> False | Some d \<Rightarrow> d \<ge> fa_from args))
     \<and> (tfScheduledTo f \<noteq> [] \<longrightarrow> (case tk_date t of None \<Rightarrow> False | Some d \<Rightarrow> d \<le> fa_to args))
     \<and> (if tfParentTaskID f \<noteq> [] then tk_parent t = Some (fa_parent args) else tfTopLevelOnly f \<longrightarrow> tk_parent t = None)
     \<and> (tfInboxOnly f \<longrightarrow> (case list_of_task db t of None \<Rightarrow> False | Some l \<Rightarrow> bk_inbox l))"

definition completed_history :: "TaskFilter \<Rightarrow> bool" where
  "completed_history f \<longleftrightarrow> tfStatus f = StatusDone"

definition page_limit :: "TaskFilter \<Rightarrow> int" where
  "page_limit f =
     (if completed_history f then
        (let limit = (if tfLimit f \<le> 0 then defaultCompletedHistoryLimit else tfLimit f) in
         if limit > maxCompletedHistoryLimit then maxCompletedHistoryLimit else limit)
      else if tfLimit f \<le> 0 \<or> tfLimit f > 200 then 100 else tfLimit f)"

type_synonym task_key = "int \<times> int \<times> string \<times> int \<times> int \<times> string \<times> string desc"

definition list_columns :: "db \<Rightarrow> task_row \<Rightarrow> int \<times> int \<times> string" where
  "list_columns db t = (case list_of_task db t of None \<Rightarrow> (0, 0, []) | Some l \<Rightarrow> (bk_sort l, bk_created l, bk_id l))"

definition order_task :: "db \<Rightarrow> TaskFilter \<Rightarrow> task_row \<Rightarrow> task_key" where
  "order_task db f t =
     (let rank = agentQueuePriorityRank (tk_priority t); (ls, lc, li) = list_columns db t in
      if tfAgentQueue f then (0, 0, [], rank, tk_created t, tk_id t, Desc [])
      else if tfSort f = ''priority'' then (0, 0, [], rank, - tk_created t, [], Desc (tk_id t))
      else if tfSort f = ''list'' then (ls, lc, li, 0, - tk_created t, [], Desc (tk_id t))
      else if tfSort f = ''list_priority'' then (ls, lc, li, rank, - tk_created t, [], Desc (tk_id t))
      else if completed_history f then (0, 0, [], 0, - tk_updated t, [], Desc (tk_id t))
      else (0, 0, [], 0, - tk_created t, [], Desc (tk_id t)))"

text \<open>The condition a cursor adds: the disjunctions of the query, the identifiers cast first.\<close>

definition after_cursor :: "env \<Rightarrow> codec \<Rightarrow> db \<Rightarrow> string \<Rightarrow> TaskFilter \<Rightarrow> (store_error, task_row \<Rightarrow> bool) result" where
  "after_cursor e c db userID f =
     (let rank = (\<lambda>t. agentQueuePriorityRank (tk_priority t)); scope = taskCursorScope c userID f in
      if tfCursor f = [] then Inr (\<lambda>t. True)
      else if tfAgentQueue f then
        rbind (decodeAgentQueueCursor c (tfCursor f) scope) (\<lambda>v.
        rbind (uuid_arg e (aqID v)) (\<lambda>i.
        Inr (\<lambda>t. rank t > aqPriorityRank v \<or> (rank t = aqPriorityRank v \<and>
               (tk_created t > aqCreatedAt v \<or> (tk_created t = aqCreatedAt v \<and> tk_id t > i))))))
      else if tfSort f = ''priority'' then
        rbind (decodeWorkspaceTaskCursor c (tfCursor f) scope (tfSort f)) (\<lambda>v.
        rbind (uuid_arg e (wtID v)) (\<lambda>i.
        Inr (\<lambda>t. rank t > wtPriorityRank v \<or> (rank t = wtPriorityRank v \<and>
               (tk_created t < wtCreatedAt v \<or> (tk_created t = wtCreatedAt v \<and> tk_id t < i))))))
      else if tfSort f = ''list'' \<or> tfSort f = ''list_priority'' then
        rbind (decodeWorkspaceTaskCursor c (tfCursor f) scope (tfSort f)) (\<lambda>v.
        rbind (uuid_arg e (wtBucketID v)) (\<lambda>j.
        rbind (uuid_arg e (wtID v)) (\<lambda>i.
        let older = (\<lambda>t. tk_created t < wtCreatedAt v \<or> (tk_created t = wtCreatedAt v \<and> tk_id t < i));
            inner = (\<lambda>t. if tfSort f = ''list_priority''
                         then rank t > wtPriorityRank v \<or> (rank t = wtPriorityRank v \<and> older t) else older t) in
        Inr (\<lambda>t. case list_of_task db t of None \<Rightarrow> False | Some l \<Rightarrow>
               bk_sort l > wtBucketSortOrder v \<or> (bk_sort l = wtBucketSortOrder v \<and>
                 (bk_created l > wtBucketCreatedAt v \<or> (bk_created l = wtBucketCreatedAt v \<and>
                   (bk_id l > j \<or> (bk_id l = j \<and> inner t)))))))))
      else
        rbind (decodeCompletedTaskCursor c (tfCursor f) scope) (\<lambda>v.
        rbind (uuid_arg e (ccID v)) (\<lambda>i.
        let column = (\<lambda>t. if completed_history f then tk_updated t else tk_created t) in
        Inr (\<lambda>t. column t < ccUpdatedAt v \<or> (column t = ccUpdatedAt v \<and> tk_id t < i)))))"

record TaskPage =
  tpTasks :: "Task list"
  tpNextCursor :: string

definition next_cursor :: "codec \<Rightarrow> db \<Rightarrow> string \<Rightarrow> TaskFilter \<Rightarrow> Task \<Rightarrow> (store_error, string) result" where
  "next_cursor c db userID f task =
     (let scope = taskCursorScope c userID f in
      if tfAgentQueue f then Inr (encodeAgentQueueCursor c task scope)
      else if tfSort f \<noteq> [] then encodeWorkspaceTaskCursor c db userID task scope (tfSort f)
      else Inr (encodeCompletedTaskCursor c
             (if completed_history f then task else task\<lparr>tUpdatedAt := tCreatedAt task\<rparr>) scope))"

definition ListTaskPage :: "env \<Rightarrow> codec \<Rightarrow> db \<Rightarrow> string \<Rightarrow> TaskFilter \<Rightarrow> (store_error, TaskPage) result" where
  "ListTaskPage e c db userID f =
     rbind (require (tfBucketID f = [] \<or> validUUID (tfBucketID f)) (ErrInvalidData ''bucketId must be a valid ID'')) (\<lambda>_.
     rbind (after_cursor e c db userID f) (\<lambda>after.
     rbind (cast_filter e c f) (\<lambda>args.
     let limit = nat (page_limit f);
         found = map (scanTaskSummary db) (take (limit + 1)
           (sort_key (order_task db f) (filter (\<lambda>t. matches_filter e db userID f args t \<and> after t) (tasks db)))) in
     if length found > limit then
       rbind (next_cursor c db userID f (last (take limit found))) (\<lambda>cursor.
       Inr \<lparr>tpTasks = take limit found, tpNextCursor = cursor\<rparr>)
     else Inr \<lparr>tpTasks = found, tpNextCursor = []\<rparr>)))"

definition ListTasks :: "env \<Rightarrow> codec \<Rightarrow> db \<Rightarrow> string \<Rightarrow> TaskFilter \<Rightarrow> (store_error, Task list) result" where
  "ListTasks e c db userID f = rbind (ListTaskPage e c db userID f) (\<lambda>page. Inr (tpTasks page))"

subsection \<open>Subtasks, lists and the summary\<close>

definition ListSubtasks :: "env \<Rightarrow> db \<Rightarrow> string \<Rightarrow> string \<Rightarrow> (store_error, Task list) result" where
  "ListSubtasks e db userID parentTaskID =
     rbind (GetTask e db userID parentTaskID) (\<lambda>parent.
     rbind (require (tParentTaskID parent = []) (ErrInvalidData ''subtasks cannot contain subtasks'')) (\<lambda>_.
     Inr (map (\<lambda>t. (scanTaskSummary db t)\<lparr>tParentTaskTitle := tTitle parent\<rparr>)
       (sort_key (order_key tk_id tk_sort tk_created)
         (filter (\<lambda>t. tk_owner t = userID \<and> tk_parent t = Some (tID parent) \<and> list_of_task db t \<noteq> None) (tasks db))))))"

text \<open>The active tasks of a list in its order, then the newest completed ones.\<close>

definition listBucketTasks :: "env \<Rightarrow> codec \<Rightarrow> db \<Rightarrow> string \<Rightarrow> string \<Rightarrow> (store_error, Task list \<times> string) result" where
  "listBucketTasks e c db userID bucketID =
     rbind (uuid_arg e bucketID) (\<lambda>b.
     let mine = filter (\<lambda>t. tk_owner t = userID \<and> tk_bucket t = b) (tasks db);
         scan = (\<lambda>t. (task_of_row t)\<lparr>tDescription := []\<rparr>);
         active = sort_key (\<lambda>t. (tk_sort t, tk_created t)) (filter (\<lambda>t. tk_status t \<noteq> ''done'') mine);
         completed = take 21 (sort_key (\<lambda>t. (- tk_updated t, Desc (tk_id t))) (filter (\<lambda>t. tk_status t = ''done'') mine));
         keep = nat defaultCompletedHistoryLimit in
     if length completed > keep then
       Inr (map scan active @ map scan (take keep completed),
            encodeCompletedTaskCursor c (last (map scan (take keep completed)))
              (taskCursorScope c userID
                 \<lparr>tfBucketID = bucketID, tfStatus = StatusDone, tfDone = None, tfPriority = [], tfSort = [], tfLimit = 0,
                  tfCursor = [], tfActionsOnly = False, tfAssigneeAgentID = [], tfUnassigned = False, tfQuery = [],
                  tfScheduledFrom = [], tfScheduledTo = [], tfParentTaskID = [], tfTopLevelOnly = False, tfInboxOnly = False,
                  tfAgentQueue = False\<rparr>))
     else Inr (map scan active @ map scan completed, []))"

definition GetBucket :: "env \<Rightarrow> codec \<Rightarrow> db \<Rightarrow> string \<Rightarrow> string \<Rightarrow> (store_error, Bucket) result" where
  "GetBucket e c db userID i =
     rbind (getBucket e db userID i) (\<lambda>bucket.
     rbind (listBucketTasks e c db userID i) (\<lambda>(ts, nextCursor).
     Inr (bucket\<lparr>bTasks := ts, bCompletedNextCursor := nextCursor\<rparr>)))"

record WorkspaceSummaryCounts =
  wsActiveTasks :: int
  wsInProgress :: int
  wsInReview :: int
  wsCompleted :: int
  wsRuns :: int

definition one_day :: int where "one_day = 24 * 60 * 60 * 1000000"

definition WorkspaceSummary :: "db \<Rightarrow> int \<Rightarrow> string \<Rightarrow> WorkspaceSummaryCounts" where
  "WorkspaceSummary db now userID =
     (let n = (\<lambda>P. count_where (\<lambda>t. tk_owner t = userID \<and> tk_kind t = ''action'' \<and> tk_parent t = None \<and> P t) (tasks db)) in
      \<lparr>wsActiveTasks = n (\<lambda>t. tk_status t \<noteq> ''done''),
       wsInProgress = n (\<lambda>t. tk_status t = ''working''),
       wsInReview = n (\<lambda>t. tk_status t = ''needs_review''),
       wsCompleted = n (\<lambda>t. tk_status t = ''done'' \<and> (case tk_completed t of None \<Rightarrow> False | Some x \<Rightarrow> x \<ge> now - one_day)),
       wsRuns = count_where (\<lambda>r. rs_owner r = userID \<and> rs_started r \<ge> now - one_day) (run_starts db)\<rparr>)"

subsection \<open>The inbox\<close>

record InboxMessage =
  imID :: string
  imTaskID :: string
  imTaskTitle :: string
  imKind :: string
  imBody :: string
  imAuthorID :: string
  imAuthorName :: string
  imRunID :: string
  imCreatedAt :: int

definition inbox_message :: "db \<Rightarrow> entry_row \<Rightarrow> InboxMessage" where
  "inbox_message db en =
     \<lparr>imID = er_id en, imTaskID = er_task en,
      imTaskTitle = (case List.find (\<lambda>t. tk_id t = er_task en) (tasks db) of None \<Rightarrow> [] | Some t \<Rightarrow> tk_title t),
      imKind = er_kind en, imBody = er_body en, imAuthorID = er_author en, imAuthorName = er_author_name en,
      imRunID = null_text (er_run en), imCreatedAt = er_created en\<rparr>"

definition inbox_entry :: "db \<Rightarrow> string \<Rightarrow> entry_row \<Rightarrow> bool" where
  "inbox_entry db userID en \<longleftrightarrow> er_author_kind en = ''agent''
     \<and> (case List.find (\<lambda>t. tk_id t = er_task en) (tasks db) of None \<Rightarrow> False | Some t \<Rightarrow> tk_owner t = userID)"

definition ListInbox :: "env \<Rightarrow> codec \<Rightarrow> db \<Rightarrow> string \<Rightarrow> string \<Rightarrow> (store_error, InboxMessage list \<times> string) result" where
  "ListInbox e c db userID cursor =
     rbind (if cursor = [] then Inr (\<lambda>en. True)
            else rbind (decodeInboxCursor c cursor) (\<lambda>(createdAt, i0).
                 rbind (uuid_arg e i0) (\<lambda>i.
                 Inr (\<lambda>en. er_created en < createdAt \<or> (er_created en = createdAt \<and> er_id en < i))))) (\<lambda>before.
     let messages = map (inbox_message db) (take (inboxPageSize + 1)
           (sort_key (\<lambda>en. (- er_created en, Desc (er_id en))) (filter (\<lambda>en. inbox_entry db userID en \<and> before en) (entries db)))) in
     if length messages > inboxPageSize then
       let last_message = messages ! (inboxPageSize - 1) in
       Inr (take inboxPageSize messages, encodeInboxCursor c (imCreatedAt last_message) (imID last_message))
     else Inr (messages, []))"

end
