(* ===== verification/Authenticate.thy ===== *)
theory Authenticate
  imports Agents RateLimit Paging
begin

section \<open>Authenticating a request (auth/auth.go, server/app.go)\<close>

text \<open>
  From the headers of a request to the user behind it, and the rate limiter around that. A
  request presents a session cookie, a bearer token, or both. The limiter's gate is asked before
  each credential is looked up; what becomes of the reservations depends on the outcome. The
  function \<open>sha\<close> is the hexadecimal SHA-256, which hashes tokens, addresses and limiter keys.
\<close>

subsection \<open>Requests and responses\<close>

text \<open>
  \<open>hr_cookie\<close> is the value of the session cookie, \<open>hr_path\<close> the parts of the path between the
  slashes, \<open>hr_id\<close> the part that stands for \<open>{id}\<close>, \<open>hr_query\<close> the query's first value of a name
  (empty if there is none), and \<open>hr_idempotency\<close> and \<open>hr_run\<close> the headers \<open>Idempotency-Key\<close> and
  \<open>X-Slate-Run-ID\<close>.
\<close>

record request =
  hr_method :: string
  hr_host :: string
  hr_origin :: string
  hr_cookie :: "string option"
  hr_authorization :: string
  hr_forwarded :: string
  hr_remote :: string
  hr_path :: "string list"
  hr_id :: string
  hr_query :: "string \<Rightarrow> string"
  hr_idempotency :: string
  hr_run :: string

datatype body =
    ErrorBody string
  | CodedError string string
  | MeBody bool "User option" bool
  | UserBody User
  | OkBody
  | AcceptedBody
  | TokenBody string APIToken
  | TokensBody "APIToken list"
  | AgentsBody "AgentUser list" int int
  | AgentTokenBody string AgentUser
  | AgentBody AgentUser
  | RotationBody string bool AgentCredential
  | DetailBody Detail
  | WorkBody WorkPage
  | ListsBody "Bucket list"
  | BucketBody Bucket
  | SummaryBody WorkspaceSummaryCounts
  | BoardTaskBody Task
  | SubtasksBody "Task list"
  | PageBody TaskPage
  | InboxBody "InboxMessage list" string
  | EntriesBody "TaskEntry list"
  | EntryBody TaskEntry
  | QuotaBody string string int int
  | HealthBody string int int
  | FileBody string string
  | FileServer string
  | TextBody string
  | FieldTooLong string int string
  | NotFoundBody
  | EmptyBody

datatype cookie = SetCookie string int | ClearCookie

text \<open>The status, the body, the cookie, the two rate limit headers and \<open>Retry-After\<close>.\<close>

record response =
  rs_status :: int
  rs_body :: body
  rs_cookie :: "cookie option"
  rs_limit :: "(int \<times> int) option"
  rs_retry :: "int option"

definition writeJSON :: "int \<Rightarrow> body \<Rightarrow> response" where
  "writeJSON status b = \<lparr>rs_status = status, rs_body = b, rs_cookie = None, rs_limit = None, rs_retry = None\<rparr>"

definition writeError :: "int \<Rightarrow> string \<Rightarrow> response" where
  "writeError status message = writeJSON status (ErrorBody message)"

definition writeCodedError :: "int \<Rightarrow> string \<Rightarrow> string \<Rightarrow> response" where
  "writeCodedError status code message = writeJSON status (CodedError code message)"

text \<open>The errors of the model are not capacity errors, so \<open>WriteServiceUnavailable\<close> declines them.\<close>

definition writeInternalError :: "string \<Rightarrow> response" where
  "writeInternalError message = writeError 500 message"

subsection \<open>Reading a request\<close>

definition cut_at :: "char \<Rightarrow> string \<Rightarrow> (string \<times> string) option" where
  "cut_at c s = (if c \<in> set s then Some (takeWhile (\<lambda>x. x \<noteq> c) s, tl (dropWhile (\<lambda>x. x \<noteq> c) s)) else None)"

definition readSessionToken :: "request \<Rightarrow> string option" where
  "readSessionToken r =
     (case hr_cookie r of None \<Rightarrow> None | Some v \<Rightarrow> if TrimSpace v = [] then None else Some v)"

definition readBearerToken :: "request \<Rightarrow> string option" where
  "readBearerToken r =
     (let header = TrimSpace (hr_authorization r) in
      if header = [] then None
      else (case cut_at (CHR '' '') header of
          None \<Rightarrow> None
        | Some (kind, token) \<Rightarrow>
            if \<not> EqualFold kind ''Bearer'' \<or> TrimSpace token = [] then None else Some (TrimSpace token)))"

text \<open>
  \<open>addr\<close> and \<open>addr_port\<close> are \<open>netip.ParseAddr\<close> and \<open>netip.ParseAddrPort\<close>, each followed by the
  text of the unmapped address.
\<close>

fun split_on :: "char \<Rightarrow> string \<Rightarrow> string list" where
  "split_on c [] = [[]]"
| "split_on c (x # xs) = (if x = c then [] # split_on c xs else
     (case split_on c xs of [] \<Rightarrow> [[x]] | part # parts \<Rightarrow> (x # part) # parts))"

definition clientIP :: "(string \<Rightarrow> string option) \<Rightarrow> (string \<Rightarrow> string option) \<Rightarrow> request \<Rightarrow> string" where
  "clientIP addr addr_port r =
     (let forwarded = List.map_filter (\<lambda>part. addr (TrimSpace part)) (split_on (CHR '','') (hr_forwarded r)) in
      if length forwarded \<ge> 2 then forwarded ! (length forwarded - 2)
      else if length forwarded = 1 then forwarded ! 0
      else let host = TrimSpace (hr_remote r) in
        (case addr_port host of Some a \<Rightarrow> a
         | None \<Rightarrow> (case addr host of Some a \<Rightarrow> a | None \<Rightarrow> ''unknown'')))"

text \<open>\<open>parse\<close> is \<open>url.Parse\<close>: the scheme, the host and whether there is user information.\<close>

definition validateSameOrigin :: "(string \<Rightarrow> (string \<times> string \<times> bool) option) \<Rightarrow> request \<Rightarrow> (response, unit) result" where
  "validateSameOrigin parse r =
     (if hr_origin r = [] then Inr ()
      else if hr_host r = [] then Inr ()
      else (case parse (hr_origin r) of
          None \<Rightarrow> Inl (writeError 403 ''cross-origin request blocked'')
        | Some (scheme, host, user) \<Rightarrow>
            if (scheme = ''http'' \<or> scheme = ''https'') \<and> EqualFold host (hr_host r) \<and> \<not> user then Inr ()
            else Inl (writeError 403 ''cross-origin request blocked'')))"

definition validateAuthPost :: "(string \<Rightarrow> (string \<times> string \<times> bool) option) \<Rightarrow> request \<Rightarrow> (response, unit) result" where
  "validateAuthPost parse r =
     rbind (require (hr_method r = ''POST'') (writeError 405 ''method not allowed'')) (\<lambda>_. validateSameOrigin parse r)"

subsection \<open>Resolving credentials\<close>

datatype resolve_error = Unauthorized | CredentialRejected | LookupFailed auth_error

definition lookup_error :: "auth_error \<Rightarrow> resolve_error" where
  "lookup_error err = (if err = ErrUnauthorized then Unauthorized else LookupFailed err)"

text \<open>A gate is a function with a state of its own; \<open>None\<close> is the missing gate.\<close>

type_synonym 'g gate = "string \<Rightarrow> 'g \<Rightarrow> bool \<times> 'g"

definition ask_gate :: "'g gate option \<Rightarrow> string \<Rightarrow> 'g \<Rightarrow> bool \<times> 'g" where
  "ask_gate gate credential g = (case gate of None \<Rightarrow> (True, g) | Some f \<Rightarrow> f credential g)"

definition ResolveSessionUserFromRequestWithGate ::
    "(string \<Rightarrow> string) \<Rightarrow> auth_db \<Rightarrow> int \<Rightarrow> request \<Rightarrow> 'g gate option \<Rightarrow> 'g \<Rightarrow> (resolve_error, User \<times> string) result \<times> 'g" where
  "ResolveSessionUserFromRequestWithGate sha adb now r gate g =
     (case readSessionToken r of
        None \<Rightarrow> (Inl Unauthorized, g)
      | Some token \<Rightarrow>
          let credential = ''session:'' @ sha token; (ok, g) = ask_gate gate credential g in
          if \<not> ok then (Inl CredentialRejected, g)
          else (case FindUserBySessionHash adb (sha token) now of
              Inl err \<Rightarrow> (Inl (lookup_error err), g)
            | Inr user \<Rightarrow> (Inr (user, credential), g)))"

text \<open>\<open>now 0\<close> and \<open>now 1\<close> are the readings of the clock for the session and for the token.\<close>

definition ResolveUserFromRequestWithGate ::
    "(string \<Rightarrow> string) \<Rightarrow> auth_db \<Rightarrow> (nat \<Rightarrow> int) \<Rightarrow> request \<Rightarrow> 'g gate option \<Rightarrow> 'g \<Rightarrow> (resolve_error, User \<times> string) result \<times> auth_db \<times> 'g" where
  "ResolveUserFromRequestWithGate sha adb now r gate g =
     (let (res, g) = (case readSessionToken r of
             None \<Rightarrow> (Inl Unauthorized, g)
           | Some _ \<Rightarrow> ResolveSessionUserFromRequestWithGate sha adb (now 0) r gate g);
          sessionRejected = (res = Inl CredentialRejected) in
      case res of
        Inr found \<Rightarrow> (Inr found, adb, g)
      | Inl (LookupFailed err) \<Rightarrow> (Inl (LookupFailed err), adb, g)
      | Inl _ \<Rightarrow>
          (case readBearerToken r of
             None \<Rightarrow> (Inl (if sessionRejected then CredentialRejected else Unauthorized), adb, g)
           | Some token \<Rightarrow>
               let credential = ''bearer:'' @ sha token; (ok, g) = ask_gate gate credential g in
               if \<not> ok then (Inl CredentialRejected, adb, g)
               else (case FindUserByAPITokenHash adb (sha token) (now 1) of
                   Inl err \<Rightarrow> (Inl (lookup_error err), adb, g)
                 | Inr (adb, user) \<Rightarrow> (Inr (user, credential), adb, g))))"

subsection \<open>Authentication under the limiter\<close>

definition authenticatedRouteClass :: "request \<Rightarrow> string" where
  "authenticatedRouteClass r =
     (if hr_method r = ''GET'' \<or> hr_method r = ''HEAD'' then ClassAuthenticatedRead else ClassAuthenticatedWrite)"

datatype limiter_error = LimiterError limit_error | ReservationMissing

definition zero_user :: User where
  "zero_user = \<lparr>uID = [], uEmail = [], uRole = [], uTheme = [], uDisplayName = [], uAgentID = [], uAgentPurpose = [],
     uEntitlement = \<lparr>ent_Plan = [], ent_Source = [], ent_Limits = zero_limits\<rparr>, uUsage = no_usage\<rparr>"

record authenticationResult =
  ar_user :: User
  ar_authErr :: "resolve_error option"
  ar_decision :: Decision
  ar_limitErr :: "limiter_error option"
  ar_checked :: bool
  ar_limited :: bool

definition zero_result :: authenticationResult where
  "zero_result = \<lparr>ar_user = zero_user, ar_authErr = None, ar_decision = zero_decision, ar_limitErr = None, ar_checked = False,
     ar_limited = False\<rparr>"

text \<open>
  What the gate captures: the reservations by credential, the last and the rejected credential
  with its decision, and an error; further the limiter's tables and the number of calls. Each
  transaction of the limiter has a clock reading of its own, the gate's calls come first.
\<close>

record gate_state =
  gt_db :: limiter_db
  gt_calls :: nat
  gt_reservations :: "(string \<times> CredentialReservation) list"
  gt_rejected :: string
  gt_last :: string
  gt_decision :: Decision
  gt_err :: "limit_error option"

definition start_gate :: "limiter_db \<Rightarrow> gate_state" where
  "start_gate db = \<lparr>gt_db = db, gt_calls = 0, gt_reservations = [], gt_rejected = [], gt_last = [], gt_decision = zero_decision,
     gt_err = None\<rparr>"

definition credential_of :: "string \<Rightarrow> Key" where
  "credential_of credential = \<lparr>kScope = ScopeCredential, kValue = credential\<rparr>"

text \<open>\<open>tick\<close> and \<open>skip\<close> are the clock readings and the locked rows of the limiter's transactions, in their order.\<close>

definition reserve_gate ::
    "(string \<Rightarrow> string) \<Rightarrow> (nat \<Rightarrow> state_row \<Rightarrow> bool) \<Rightarrow> (nat \<Rightarrow> int) \<Rightarrow> PG \<Rightarrow> string \<Rightarrow> gate_state gate" where
  "reserve_gate sha skip tick p routeClass credential g0 =
     (let n = gt_calls g0; g = g0\<lparr>gt_last := credential, gt_calls := n + 1\<rparr> in
      case ReserveCredential sha (skip n) p (gt_db g) (tick n) (credential_of credential) routeClass of
        Inl err \<Rightarrow> (False, g\<lparr>gt_err := Some err\<rparr>)
      | Inr (db, (reservation, decision)) \<Rightarrow>
          let g = g\<lparr>gt_db := db\<rparr> in
          if \<not> dAllowed decision then (False, g\<lparr>gt_rejected := credential, gt_decision := decision\<rparr>)
          else (True, g\<lparr>gt_reservations := (credential, reservation) # filter (\<lambda>x. fst x \<noteq> credential) (gt_reservations g)\<rparr>))"

text \<open>The order in which Go walks the map is open; here it is the order of the list.\<close>

definition cancelReservations :: "string \<Rightarrow> (string \<times> CredentialReservation) list \<Rightarrow> limiter_db \<Rightarrow> limiter_db" where
  "cancelReservations except reservations db =
     fold (\<lambda>(candidate, reservation) db. if candidate = except then db else CancelCredential db reservation) reservations db"

fun finalizeReservations ::
    "(string \<Rightarrow> string) \<Rightarrow> int \<Rightarrow> (string \<times> CredentialReservation) list \<Rightarrow> limiter_db \<Rightarrow> (limit_error, limiter_db) result" where
  "finalizeReservations sha now [] db = Inr db"
| "finalizeReservations sha now ((_, reservation) # rest) db =
     rbind (FinalizeCredential sha db now reservation None) (\<lambda>(db, _). finalizeReservations sha now rest db)"

definition settle_user ::
    "(string \<Rightarrow> string) \<Rightarrow> int \<Rightarrow> gate_state \<Rightarrow> User \<times> string \<Rightarrow> authenticationResult \<times> limiter_db" where
  "settle_user sha now g found =
     (case found of (user, credential) \<Rightarrow>
        let db = cancelReservations credential (gt_reservations g) (gt_db g) in
        (case map_of (gt_reservations g) credential of
           None \<Rightarrow> (zero_result\<lparr>ar_limitErr := Some ReservationMissing, ar_checked := True\<rparr>, db)
         | Some reservation \<Rightarrow>
             (case FinalizeCredential sha db now reservation (Some \<lparr>kScope = ScopeAccount, kValue = uID user\<rparr>) of
                Inl err \<Rightarrow> (zero_result\<lparr>ar_user := user, ar_limitErr := Some (LimiterError err), ar_checked := True\<rparr>, db)
              | Inr (db, decision) \<Rightarrow>
                  (zero_result\<lparr>ar_user := user, ar_decision := decision, ar_checked := True, ar_limited := \<not> dAllowed decision\<rparr>, db))))"

definition settle_unknown ::
    "(string \<Rightarrow> string) \<Rightarrow> int \<Rightarrow> string \<Rightarrow> bool \<Rightarrow> gate_state \<Rightarrow> authenticationResult \<times> limiter_db" where
  "settle_unknown sha now routeClass recordUnauthorizedOutcome g =
     (case finalizeReservations sha now (gt_reservations g) (gt_db g) of
        Inl err \<Rightarrow> (zero_result\<lparr>ar_limitErr := Some (LimiterError err), ar_checked := True\<rparr>, gt_db g)
      | Inr db \<Rightarrow>
          if gt_rejected g \<noteq> [] then
            (case RecordCredentialOutcome sha db now (credential_of (gt_rejected g)) routeClass OutcomeRejected of
               Inl err \<Rightarrow> (zero_result\<lparr>ar_limitErr := Some (LimiterError err), ar_checked := True\<rparr>, db)
             | Inr (db, _) \<Rightarrow> (zero_result\<lparr>ar_authErr := Some CredentialRejected, ar_decision := gt_decision g, ar_checked := True,
                   ar_limited := True\<rparr>, db))
          else if gt_last g \<noteq> [] \<and> recordUnauthorizedOutcome then
            (case RecordCredentialOutcome sha db now (credential_of (gt_last g)) routeClass OutcomeAllowed of
               Inl err \<Rightarrow> (zero_result\<lparr>ar_limitErr := Some (LimiterError err), ar_checked := True\<rparr>, db)
             | Inr (db, _) \<Rightarrow> (zero_result\<lparr>ar_authErr := Some Unauthorized, ar_checked := True\<rparr>, db))
          else (zero_result\<lparr>ar_authErr := Some Unauthorized, ar_checked := True\<rparr>, db))"

text \<open>The service's clock \<open>now\<close> and the limiter's \<open>tick\<close> and \<open>skip\<close>, for one request.\<close>

record readings =
  rd_now :: "nat \<Rightarrow> int"
  rd_tick :: "nat \<Rightarrow> int"
  rd_skip :: "nat \<Rightarrow> state_row \<Rightarrow> bool"

record server =
  sv_auth :: auth_db
  sv_limits :: limiter_db

text \<open>\<open>limits\<close> is \<open>None\<close> for an application without a limiter.\<close>

definition authenticateWithLimits ::
    "(string \<Rightarrow> string) \<Rightarrow> PG option \<Rightarrow> readings \<Rightarrow> server \<Rightarrow> request \<Rightarrow> bool \<Rightarrow> bool \<Rightarrow> authenticationResult \<times> server" where
  "authenticateWithLimits sha limits rd sv r sessionOnly recordUnauthorizedOutcome =
     (case limits of
        None \<Rightarrow>
          let (res, adb, _) = (if sessionOnly
                then (case ResolveSessionUserFromRequestWithGate sha (sv_auth sv) (rd_now rd 0) r None () of (res, g) \<Rightarrow> (res, sv_auth sv, g))
                else ResolveUserFromRequestWithGate sha (sv_auth sv) (rd_now rd) r None ()) in
          (case res of
             Inl err \<Rightarrow> (zero_result\<lparr>ar_authErr := Some err\<rparr>, sv\<lparr>sv_auth := adb\<rparr>)
           | Inr (user, _) \<Rightarrow> (zero_result\<lparr>ar_user := user\<rparr>, sv\<lparr>sv_auth := adb\<rparr>))
      | Some p \<Rightarrow>
          let routeClass = authenticatedRouteClass r;
              gate = Some (reserve_gate sha (rd_skip rd) (rd_tick rd) p routeClass);
              g0 = start_gate (sv_limits sv);
              (res, adb, g) = (if sessionOnly
                then (case ResolveSessionUserFromRequestWithGate sha (sv_auth sv) (rd_now rd 0) r gate g0 of (res, g) \<Rightarrow> (res, sv_auth sv, g))
                else ResolveUserFromRequestWithGate sha (sv_auth sv) (rd_now rd) r gate g0);
              now = rd_tick rd (gt_calls g) in
          (case gt_err g of
             Some err \<Rightarrow> (zero_result\<lparr>ar_limitErr := Some (LimiterError err), ar_checked := True\<rparr>,
                \<lparr>sv_auth = adb, sv_limits = cancelReservations [] (gt_reservations g) (gt_db g)\<rparr>)
           | None \<Rightarrow>
             (case res of
                Inr found \<Rightarrow> (case settle_user sha now g found of (result, db) \<Rightarrow> (result, \<lparr>sv_auth = adb, sv_limits = db\<rparr>))
              | Inl (LookupFailed err) \<Rightarrow> (zero_result\<lparr>ar_authErr := Some (LookupFailed err), ar_checked := True\<rparr>,
                   \<lparr>sv_auth = adb, sv_limits = cancelReservations [] (gt_reservations g) (gt_db g)\<rparr>)
              | Inl _ \<Rightarrow> (case settle_unknown sha now routeClass recordUnauthorizedOutcome g of (result, db) \<Rightarrow>
                   (result, \<lparr>sv_auth = adb, sv_limits = db\<rparr>)))))"

end
