(* ===== verification/AuthService.thy ===== *)
theory AuthService
  imports Authenticate Cursors
begin

section \<open>The account endpoints (auth/auth.go, httpapi/request.go)\<close>

text \<open>
  One definition per handler of \<open>Service\<close>: from the request, its decoded body and the database to
  the response and the database. Left as arguments are the passwords' hash function, the parsers
  of the Go library, the random bytes, the clocks and the identifiers that the database draws.
  A body comes decoded or as the response that \<open>DecodeJSON\<close> has written for it.
\<close>

subsection \<open>The service and its surroundings\<close>

record Service =
  sc_inviteCode :: string
  sc_appBaseURL :: string
  sc_sender :: bool

text \<open>\<open>lb_email\<close> is the address that \<open>mail.ParseAddress\<close> finds; \<open>lb_compare\<close> is \<open>bcrypt.CompareHashAndPassword\<close>.\<close>

record library =
  lb_sha :: "string \<Rightarrow> string"
  lb_lower :: "string \<Rightarrow> string"
  lb_email :: "string \<Rightarrow> string option"
  lb_origin :: "string \<Rightarrow> (string \<times> string \<times> bool) option"
  lb_addr :: "string \<Rightarrow> string option"
  lb_addr_port :: "string \<Rightarrow> string option"
  lb_escape :: "string \<Rightarrow> string"
  lb_compare :: "string \<Rightarrow> string \<Rightarrow> bool"

text \<open>
  What one request draws: the readings of the service's clock, the time of the transaction, new
  identifiers, 32 random bytes and a salted password hash, each of which may fail, and the rows
  that other transactions hold locked.
\<close>

record draws =
  dw_now :: "nat \<Rightarrow> int"
  dw_tx :: int
  dw_fresh :: string
  dw_fresh2 :: string
  dw_lists :: "nat \<Rightarrow> string"
  dw_random :: "string option"
  dw_bcrypt :: "string \<Rightarrow> string option"
  dw_attempts :: "attempt_row \<Rightarrow> bool"
  dw_requests :: "reset_request_row \<Rightarrow> bool"
  dw_tokens :: "reset_token_row \<Rightarrow> bool"

definition seconds :: "int \<Rightarrow> int" where "seconds n = n * 1000000"
definition sessionDuration :: int where "sessionDuration = seconds (30 * 24 * 60 * 60)"
definition signupWindow :: int where "signupWindow = seconds (15 * 60)"
definition signupLimit :: int where "signupLimit = 5"
definition passwordResetDuration :: int where "passwordResetDuration = seconds (60 * 60)"
definition passwordResetWindow :: int where "passwordResetWindow = seconds (15 * 60)"
definition passwordResetLimit :: int where "passwordResetLimit = 5"
definition passwordConfirmWindow :: int where "passwordConfirmWindow = seconds (15 * 60)"
definition passwordConfirmLimit :: int where "passwordConfirmLimit = 10"
definition minPasswordLen :: nat where "minPasswordLen = 8"
definition maxPasswordBytes :: nat where "maxPasswordBytes = 72"
definition EmailBytes :: nat where "EmailBytes = 254"
definition DisplayNameRunes :: nat where "DisplayNameRunes = 80"
definition APITokenNameRunes :: nat where "APITokenNameRunes = 80"
definition AgentNameRunes :: nat where "AgentNameRunes = 100"
definition AgentInstructionsBytes :: nat where "AgentInstructionsBytes = 4 * 1024"

text \<open>
  \<open>DecodeJSON\<close> with the decoder of the library as its arguments: the announced length of the body,
  the value or the error of the first decoding, which stops at the limit, and the error of the
  second, which must find the end.
\<close>

definition MaxJSONBodyBytes :: int where "MaxJSONBodyBytes = 64 * 1024"

datatype decode_error = MaxBytesError | OtherDecodeError

definition body_too_large :: response where
  "body_too_large = writeCodedError 413 ''request_body_too_large''
     (''JSON request body must be '' @ Itoa MaxJSONBodyBytes @ '' bytes or fewer.'')"

definition writeDecodeError :: "decode_error \<Rightarrow> response" where
  "writeDecodeError err = (case err of MaxBytesError \<Rightarrow> body_too_large
     | OtherDecodeError \<Rightarrow> writeCodedError 400 ''invalid_json'' ''Invalid JSON body.'')"

definition DecodeJSON :: "int \<Rightarrow> (decode_error, 'a) result \<Rightarrow> decode_error option \<Rightarrow> (response, 'a) result" where
  "DecodeJSON contentLength first second =
     (if contentLength > MaxJSONBodyBytes then Inl body_too_large
      else (case first of
          Inl err \<Rightarrow> Inl (writeDecodeError err)
        | Inr target \<Rightarrow> (case second of None \<Rightarrow> Inr target | Some err \<Rightarrow> Inl (writeDecodeError err))))"

text \<open>A decoded body is valid UTF-8, so its runes are its bytes that continue no other.\<close>

definition RuneLimit :: "string \<Rightarrow> string \<Rightarrow> nat \<Rightarrow> (response, unit) result" where
  "RuneLimit field v limit = require (char_length v \<le> limit) (writeJSON 400 (FieldTooLong field (int limit) ''characters''))"

definition ByteLimit :: "string \<Rightarrow> string \<Rightarrow> nat \<Rightarrow> (response, unit) result" where
  "ByteLimit field v limit = require (length v \<le> limit) (writeJSON 400 (FieldTooLong field (int limit) ''UTF-8 bytes''))"

text \<open>The outcome of a handler: a guard that has answered leaves the database alone.\<close>

definition answer :: "'d \<Rightarrow> (response, response \<times> 'd) result \<Rightarrow> response \<times> 'd" where
  "answer adb m = (case m of Inl resp \<Rightarrow> (resp, adb) | Inr out \<Rightarrow> out)"

lemma answer_simps [simp]: "answer adb (Inl resp) = (resp, adb)" "answer adb (Inr out) = out"
  by (simp_all add: answer_def)

definition randomToken :: "draws \<Rightarrow> string \<Rightarrow> string option" where
  "randomToken d kind = map_option (\<lambda>bytes. kind @ ''_'' @ EncodeToString bytes) (dw_random d)"

definition tokenDisplayPrefix :: "string \<Rightarrow> string" where
  "tokenDisplayPrefix token = (if length token \<le> 20 then token else take 20 token)"

definition constantTimeEqual :: "library \<Rightarrow> string \<Rightarrow> string \<Rightarrow> bool" where
  "constantTimeEqual lib left right \<longleftrightarrow> lb_sha lib left = lb_sha lib right"

definition validEmail :: "library \<Rightarrow> string \<Rightarrow> bool" where
  "validEmail lib email \<longleftrightarrow> (if length email > EmailBytes then False else lb_email lib email = Some email)"

definition valid_password :: "string \<Rightarrow> bool" where
  "valid_password password \<longleftrightarrow> \<not> (char_length password < minPasswordLen \<or> length password > maxPasswordBytes)"

definition password_rule :: response where
  "password_rule = writeError 400 ''password must be at least 8 characters and no more than 72 bytes''"

text \<open>\<open>wait\<close> in whole seconds, rounded up, at least one.\<close>

definition retrySeconds :: "int \<Rightarrow> int" where
  "retrySeconds wait = (let s = (wait + seconds 1 - 1) div seconds 1 in if s < 1 then 1 else s)"

definition too_many :: "int \<Rightarrow> string \<Rightarrow> response" where
  "too_many wait message = (writeError 429 message)\<lparr>rs_retry := Some (retrySeconds wait)\<rparr>"

definition setSessionCookie :: "string \<Rightarrow> int \<Rightarrow> response \<Rightarrow> response" where
  "setSessionCookie token expiresAt resp = resp\<lparr>rs_cookie := Some (SetCookie token expiresAt)\<rparr>"

definition clearSessionCookie :: "response \<Rightarrow> response" where
  "clearSessionCookie resp = resp\<lparr>rs_cookie := Some ClearCookie\<rparr>"

definition ip_hash :: "library \<Rightarrow> request \<Rightarrow> string" where
  "ip_hash lib r = lb_sha lib (clientIP (lb_addr lib) (lb_addr_port lib) r)"

text \<open>The store has \<open>AccountUsage\<close>, whose query does not fail in the model.\<close>

definition populateUsage :: "auth_db \<Rightarrow> User \<Rightarrow> User" where
  "populateUsage adb user = user\<lparr>uUsage := AccountUsage adb (uID user)\<rparr>"

subsection \<open>Signing up\<close>

definition SignupEnabled :: "Service \<Rightarrow> bool" where
  "SignupEnabled s \<longleftrightarrow> sc_inviteCode s \<noteq> []"

record signupInput =
  si_Email :: string
  si_Password :: string
  si_InviteCode :: string

text \<open>The part of \<open>Register\<close> after the attempt has been counted.\<close>

definition register_member ::
    "library \<Rightarrow> Service \<Rightarrow> draws \<Rightarrow> auth_db \<Rightarrow> string \<Rightarrow> signupInput \<Rightarrow> response \<times> auth_db" where
  "register_member lib s d adb email input =
     answer adb
       (rbind (require (\<not> (email = [] \<or> si_Password input = [] \<or> si_InviteCode input = []))
                 (writeError 400 ''email, password, and invite code are required'')) (\<lambda>_.
        rbind (require (validEmail lib email) (writeError 400 ''enter a valid email address'')) (\<lambda>_.
        rbind (require (valid_password (si_Password input)) password_rule) (\<lambda>_.
        rbind (require (constantTimeEqual lib (si_InviteCode input) (sc_inviteCode s)) (writeError 401 ''invalid invite code'')) (\<lambda>_.
        case (dw_bcrypt d (si_Password input), randomToken d ''sess'') of
          (Some passwordHash, Some sessionToken) \<Rightarrow>
            let expiresAt = dw_now d 1 + sessionDuration in
            (case CreateInvitedMember adb (dw_tx d) (dw_fresh d) (dw_lists d) email passwordHash (lb_sha lib sessionToken) expiresAt of
               Inl err \<Rightarrow> Inl (if err = ErrEmailTaken then writeError 409 ''an account with that email already exists''
                              else writeInternalError ''account could not be created'')
             | Inr (adb1, user) \<Rightarrow> Inr (setSessionCookie sessionToken expiresAt (writeJSON 201 (MeBody True (Some user) False)), adb1))
        | _ \<Rightarrow> Inl (writeInternalError ''account could not be created''))))))"

definition Register ::
    "library \<Rightarrow> Service \<Rightarrow> draws \<Rightarrow> auth_db \<Rightarrow> request \<Rightarrow> (response, signupInput) result \<Rightarrow> response \<times> auth_db" where
  "Register lib s d adb r decoded =
     answer adb
       (rbind (require (SignupEnabled s) (writeJSON 404 NotFoundBody)) (\<lambda>_.
        rbind (validateAuthPost (lb_origin lib) r) (\<lambda>_.
        rbind decoded (\<lambda>input.
        let email = normalizeEmail (lb_lower lib) (si_Email input) in
        rbind (ByteLimit ''email'' email EmailBytes) (\<lambda>_.
        case ConsumeSignupAttempt (dw_attempts d) adb (ip_hash lib r) (lb_sha lib email) (dw_now d 0) signupWindow signupLimit of
          Inl _ \<Rightarrow> Inl (writeInternalError ''registration is temporarily unavailable'')
        | Inr (adb1, Some wait) \<Rightarrow> Inr (too_many wait ''too many registration attempts; try again later'', adb1)
        | Inr (adb1, None) \<Rightarrow> Inr (register_member lib s d adb1 email input))))))"

datatype seed_error = SeedEmailRequired | SeedPasswordShort | SeedHashFailed | SeedStore auth_error

definition SeedAdmin :: "library \<Rightarrow> draws \<Rightarrow> auth_db \<Rightarrow> string \<Rightarrow> string \<Rightarrow> (seed_error, auth_db \<times> User) result" where
  "SeedAdmin lib d adb email0 password =
     (let email = normalizeEmail (lb_lower lib) email0 in
      rbind (require (email \<noteq> []) SeedEmailRequired) (\<lambda>_.
      rbind (require (\<not> length password < 12) SeedPasswordShort) (\<lambda>_.
      case FindUserByEmail adb email of
        Inr (existing, _) \<Rightarrow> Inl (SeedStore (if uRole existing = ''admin'' then ErrAdminExists else ErrEmailTaken))
      | Inl err \<Rightarrow>
          if err \<noteq> ErrInvalidAuth then Inl (SeedStore err)
          else (case dw_bcrypt d password of
              None \<Rightarrow> Inl SeedHashFailed
            | Some hash \<Rightarrow> (case CreateAdmin adb (dw_tx d) (dw_fresh d) email hash of
                Inl err \<Rightarrow> Inl (SeedStore err) | Inr out \<Rightarrow> Inr out)))))"

subsection \<open>Signing in and out\<close>

record credentialsInput =
  ci_Email :: string
  ci_Password :: string

definition createSession :: "library \<Rightarrow> draws \<Rightarrow> auth_db \<Rightarrow> User \<Rightarrow> string \<Rightarrow> (response, string \<times> int \<times> auth_db) result" where
  "createSession lib d adb user expectedPasswordHash =
     (case randomToken d ''sess'' of
        None \<Rightarrow> Inl (writeInternalError ''session could not be created'')
      | Some token \<Rightarrow>
          let expiresAt = dw_now d 0 + sessionDuration in
          (case CreateSession adb (uID user) expectedPasswordHash (lb_sha lib token) expiresAt of
             Inl err \<Rightarrow> Inl (if err = ErrUnauthorized then clearSessionCookie (writeError 401 ''invalid email or password'')
                            else writeInternalError ''session could not be created'')
           | Inr (adb1, _) \<Rightarrow> Inr (token, expiresAt, adb1)))"

definition Login ::
    "library \<Rightarrow> draws \<Rightarrow> auth_db \<Rightarrow> request \<Rightarrow> (response, credentialsInput) result \<Rightarrow> response \<times> auth_db" where
  "Login lib d adb r decoded =
     answer adb
       (rbind (validateAuthPost (lb_origin lib) r) (\<lambda>_.
        rbind decoded (\<lambda>input.
        let email = normalizeEmail (lb_lower lib) (ci_Email input) in
        rbind (require (\<not> (email = [] \<or> ci_Password input = [])) (writeError 400 ''email and password are required'')) (\<lambda>_.
        case FindUserByEmail adb email of
          Inl err \<Rightarrow> Inl (if err = ErrInvalidAuth then writeError 401 ''invalid email or password'' else writeInternalError ''login failed'')
        | Inr (user, passwordHash) \<Rightarrow>
            rbind (require (lb_compare lib passwordHash (ci_Password input)) (writeError 401 ''invalid email or password'')) (\<lambda>_.
            let user = populateUsage adb user in
            rbind (createSession lib d adb user passwordHash) (\<lambda>(token, expiresAt, adb1).
            Inr (setSessionCookie token expiresAt (writeJSON 200 (MeBody True (Some user) False)), adb1)))))))"

definition Logout :: "library \<Rightarrow> auth_db \<Rightarrow> request \<Rightarrow> response \<times> auth_db" where
  "Logout lib adb r =
     answer adb
       (rbind (validateSameOrigin (lb_origin lib) r) (\<lambda>_.
        Inr (clearSessionCookie (writeJSON 200 OkBody),
             case readSessionToken r of None \<Rightarrow> adb | Some token \<Rightarrow> DeleteSession adb (lb_sha lib token))))"

definition MeForUser :: "auth_db \<Rightarrow> User \<Rightarrow> response" where
  "MeForUser adb user =
     writeJSON 200 (MeBody True (Some (if uAgentID user = [] then populateUsage adb user else user)) True)"

definition Me :: "library \<Rightarrow> (nat \<Rightarrow> int) \<Rightarrow> auth_db \<Rightarrow> request \<Rightarrow> response \<times> auth_db" where
  "Me lib now adb r =
     (case ResolveUserFromRequestWithGate (lb_sha lib) adb now r None () of
        (Inl err, adb1, _) \<Rightarrow>
          (if err = Unauthorized then writeJSON 200 (MeBody False None False) else writeInternalError ''authentication failed'', adb1)
      | (Inr (user, _), adb1, _) \<Rightarrow> (MeForUser adb1 user, adb1))"

subsection \<open>Resetting a password\<close>

definition writePasswordResetAccepted :: response where
  "writePasswordResetAccepted = writeJSON 202 AcceptedBody"

definition RequestPasswordReset ::
    "library \<Rightarrow> Service \<Rightarrow> draws \<Rightarrow> auth_db \<Rightarrow> request \<Rightarrow> (response, string) result \<Rightarrow> response \<times> auth_db" where
  "RequestPasswordReset lib s d adb r decoded =
     answer adb
       (rbind (validateAuthPost (lb_origin lib) r) (\<lambda>_.
        rbind decoded (\<lambda>input.
        let email = normalizeEmail (lb_lower lib) input in
        rbind (ByteLimit ''email'' email EmailBytes) (\<lambda>_.
        rbind (require (\<not> (email = [] \<or> \<not> validEmail lib email)) (writeError 400 ''enter a valid email address'')) (\<lambda>_.
        rbind (require (\<not> (\<not> sc_sender s \<or> sc_appBaseURL s = [])) (writeError 503 ''password reset is temporarily unavailable'')) (\<lambda>_.
        case ConsumePasswordResetAttempt (dw_attempts d) adb (ip_hash lib r) (lb_sha lib email) (dw_now d 0) passwordResetWindow
               passwordResetLimit of
          Inl _ \<Rightarrow> Inr (writePasswordResetAccepted, adb)
        | Inr (adb1, Some _) \<Rightarrow> Inr (writePasswordResetAccepted, adb1)
        | Inr (adb1, None) \<Rightarrow>
            (case QueuePasswordResetRequest adb1 (dw_tx d) (dw_fresh d) email (dw_now d 1) of
               Inl _ \<Rightarrow> Inr (writePasswordResetAccepted, adb1)
             | Inr (adb2, _) \<Rightarrow> Inr (writePasswordResetAccepted, adb2))))))))"

text \<open>A mail that the worker hands to the sender: the address, the link and the idempotency key.\<close>

record reset_mail =
  rm_email :: string
  rm_url :: string
  rm_key :: string

definition retry_request :: "draws \<Rightarrow> auth_db \<Rightarrow> PasswordResetRequest \<Rightarrow> auth_db" where
  "retry_request d adb q =
     (let delay = prAttempts q * seconds 60; delay = (if delay > seconds (60 * 60) then seconds (60 * 60) else delay) in
      RetryPasswordResetRequest adb (dw_tx d) (prID q) (dw_now d 0 + delay))"

text \<open>
  One turn of the worker: whether a request was processed, or an error, the mail that was sent and
  whether it arrived, and the database. \<open>sent\<close> is the answer of the sender.
\<close>

definition processPasswordResetRequest ::
    "library \<Rightarrow> Service \<Rightarrow> draws \<Rightarrow> auth_db \<Rightarrow> (reset_mail \<Rightarrow> bool) \<Rightarrow> (auth_error, bool) result \<times> reset_mail option \<times> auth_db" where
  "processPasswordResetRequest lib s d adb sent =
     (let now = dw_now d 0 in
      case ClaimPasswordResetRequest (dw_requests d) adb now of
        Inl err \<Rightarrow> (if err = ErrNoPendingReset then Inr False else Inl err, None, adb)
      | Inr (adb1, q) \<Rightarrow>
          (case randomToken d ''reset'' of
             None \<Rightarrow> (Inr True, None, retry_request d adb1 q)
           | Some token \<Rightarrow>
               (case CreatePasswordResetToken (dw_tokens d) adb1 (dw_tx d) (prEmail q) (lb_sha lib token) (now + passwordResetDuration) of
                  Inl err \<Rightarrow>
                    if err = ErrInvalidAuth then (Inr True, None, CompletePasswordResetRequest (dw_requests d) adb1 (prID q) now)
                    else (Inr True, None, retry_request d adb1 q)
                | Inr (adb2, _) \<Rightarrow>
                    let mail = \<lparr>rm_email = prEmail q, rm_url = sc_appBaseURL s @ ''/reset-password#token='' @ lb_escape lib token,
                                rm_key = ''password-reset-'' @ prID q @ ''-'' @ Itoa (prAttempts q)\<rparr> in
                    if \<not> sent mail then (Inr True, Some mail, retry_request d adb2 q)
                    else (Inr True, Some mail, CompletePasswordResetRequest (dw_requests d) adb2 (prID q) now))))"

record resetInput =
  ri_Token :: string
  ri_Password :: string

definition invalid_link :: response where
  "invalid_link = writeError 400 ''reset link is invalid or has expired''"

definition ResetPassword_post ::
    "library \<Rightarrow> draws \<Rightarrow> auth_db \<Rightarrow> request \<Rightarrow> (response, resetInput) result \<Rightarrow> response \<times> auth_db" where
  "ResetPassword_post lib d adb r decoded =
     answer adb
       (rbind (validateAuthPost (lb_origin lib) r) (\<lambda>_.
        rbind decoded (\<lambda>input.
        rbind (require (TrimSpace (ri_Token input) \<noteq> []) invalid_link) (\<lambda>_.
        rbind (require (valid_password (ri_Password input)) password_rule) (\<lambda>_.
        let hash = lb_sha lib (ri_Token input) in
        case ConsumePasswordResetConfirmationAttempt (dw_attempts d) adb (ip_hash lib r) hash (dw_now d 0) passwordConfirmWindow
               passwordConfirmLimit of
          Inl _ \<Rightarrow> Inl (writeError 503 ''password reset is temporarily unavailable'')
        | Inr (adb1, Some wait) \<Rightarrow> Inr (too_many wait ''too many reset attempts; try again later'', adb1)
        | Inr (adb1, None) \<Rightarrow> Inr (answer adb1
            (rbind (require (PasswordResetTokenValid adb1 hash (dw_now d 1)) invalid_link) (\<lambda>_.
             case dw_bcrypt d (ri_Password input) of
               None \<Rightarrow> Inl (writeError 500 ''password could not be reset'')
             | Some passwordHash \<Rightarrow>
                 (case ResetPassword adb1 hash passwordHash (dw_now d 2) of
                    Inl err \<Rightarrow> Inl (if err = ErrInvalidResetToken then invalid_link else writeInternalError ''password could not be reset'')
                  | Inr (adb2, _) \<Rightarrow> Inr (clearSessionCookie (writeJSON 200 OkBody), adb2))))))))))"

subsection \<open>Profile and API tokens\<close>

record profileInput =
  pi_Theme :: "string option"
  pi_DisplayName :: "string option"

definition trimmed_name :: "string option \<Rightarrow> (response, string option) result" where
  "trimmed_name displayName =
     (case displayName of
        None \<Rightarrow> Inr None
      | Some name0 \<Rightarrow>
          let name = TrimSpace name0 in
          rbind (require (name \<noteq> []) (writeError 400 ''display name is required'')) (\<lambda>_.
          rbind (RuneLimit ''displayName'' name DisplayNameRunes) (\<lambda>_. Inr (Some name))))"

definition signed_out_answer :: response where
  "signed_out_answer = clearSessionCookie (writeError 401 ''authentication required'')"

definition UpdateTheme_patch ::
    "library \<Rightarrow> auth_db \<Rightarrow> request \<Rightarrow> (response, profileInput) result \<Rightarrow> User \<Rightarrow> response \<times> auth_db" where
  "UpdateTheme_patch lib adb r decoded user =
     answer adb
       (rbind (validateSameOrigin (lb_origin lib) r) (\<lambda>_.
        rbind decoded (\<lambda>input.
        rbind (require (\<not> (pi_Theme input = None \<and> pi_DisplayName input = None)) (writeError 400 ''theme or display name is required'')) (\<lambda>_.
        rbind (require (pi_Theme input = None \<or> pi_Theme input = Some ''light'' \<or> pi_Theme input = Some ''dark'')
                 (writeError 400 ''theme must be light or dark'')) (\<lambda>_.
        rbind (trimmed_name (pi_DisplayName input)) (\<lambda>displayName.
        case UpdateProfile adb (uID user) (pi_Theme input) displayName of
          Inl err \<Rightarrow> Inl (if err = ErrUnauthorized then signed_out_answer else writeInternalError ''profile could not be updated'')
        | Inr (adb1, updated) \<Rightarrow> Inr (writeJSON 200 (UserBody (populateUsage adb1 updated)), adb1)))))))"

definition ListAPITokens_get :: "auth_db \<Rightarrow> User \<Rightarrow> response" where
  "ListAPITokens_get adb user = writeJSON 200 (TokensBody (ListAPITokens adb (uID user)))"

definition planName :: "string \<Rightarrow> string" where
  "planName plan = (if plan = PlanPro then ''Pro'' else ''Free'')"

definition CreateAPIToken_post ::
    "library \<Rightarrow> draws \<Rightarrow> auth_db \<Rightarrow> request \<Rightarrow> (response, string) result \<Rightarrow> User \<Rightarrow> response \<times> auth_db" where
  "CreateAPIToken_post lib d adb r decoded user =
     answer adb
       (rbind (validateAuthPost (lb_origin lib) r) (\<lambda>_.
        rbind decoded (\<lambda>input.
        let name = TrimSpace input in
        rbind (require (name \<noteq> []) (writeError 400 ''token name is required'')) (\<lambda>_.
        rbind (RuneLimit ''name'' name APITokenNameRunes) (\<lambda>_.
        case randomToken d ''slate'' of
          None \<Rightarrow> Inl (writeInternalError ''API token could not be created'')
        | Some plain \<Rightarrow>
            (case CreateAPIToken adb (dw_tx d) (dw_fresh d) (uID user) name (lb_sha lib plain) of
               Inl err \<Rightarrow> Inl (if err = ErrAPITokenLimit then writeCodedError 409 ''api_token_limit_reached''
                                 (planName (ent_Plan (uEntitlement user)) @ '' allows up to '' @
                                  Itoa (lim_APITokens (ent_Limits (uEntitlement user))) @ '' API tokens.'')
                               else if err = ErrUnauthorized then signed_out_answer
                               else writeInternalError ''API token could not be created'')
             | Inr (adb1, token) \<Rightarrow> Inr (writeJSON 201 (TokenBody plain token), adb1)))))))"

definition RevokeAPIToken_delete :: "library \<Rightarrow> env \<Rightarrow> draws \<Rightarrow> auth_db \<Rightarrow> request \<Rightarrow> User \<Rightarrow> response \<times> auth_db" where
  "RevokeAPIToken_delete lib e d adb r user =
     answer adb
       (rbind (validateSameOrigin (lb_origin lib) r) (\<lambda>_.
        rbind (require (validUUID (hr_id r)) (writeError 404 ''API token not found'')) (\<lambda>_.
        case RevokeAPIToken e adb (dw_tx d) (uID user) (hr_id r) of
          Inl _ \<Rightarrow> Inl (writeInternalError ''API token could not be revoked'')
        | Inr (adb1, _) \<Rightarrow> Inr (writeJSON 200 OkBody, adb1))))"

subsection \<open>Agents of the account\<close>

definition ListAgents_get :: "env \<Rightarrow> auth_db \<Rightarrow> User \<Rightarrow> response" where
  "ListAgents_get e adb user =
     (let agents = ListAgents e adb (uID user) in
      writeJSON 200 (AgentsBody agents (int (length agents)) (lim_Agents (ent_Limits (uEntitlement user)))))"

record agentInput =
  ai_DisplayName :: string
  ai_Purpose :: string

definition name_taken_answer :: response where
  "name_taken_answer = writeCodedError 409 ''agent_name_taken'' ''An active agent with that name already exists.''"

definition CreateAgent_post ::
    "library \<Rightarrow> env \<Rightarrow> draws \<Rightarrow> auth_db \<Rightarrow> request \<Rightarrow> (response, agentInput) result \<Rightarrow> User \<Rightarrow> response \<times> auth_db" where
  "CreateAgent_post lib e d adb r decoded user =
     answer adb
       (rbind (validateAuthPost (lb_origin lib) r) (\<lambda>_.
        rbind decoded (\<lambda>input.
        let displayName = TrimSpace (ai_DisplayName input); purpose = TrimSpace (ai_Purpose input) in
        rbind (require (displayName \<noteq> []) (writeError 400 ''agent name is required'')) (\<lambda>_.
        rbind (RuneLimit ''displayName'' displayName AgentNameRunes) (\<lambda>_.
        rbind (ByteLimit ''purpose'' purpose AgentInstructionsBytes) (\<lambda>_.
        case randomToken d ''slate_agent'' of
          None \<Rightarrow> Inl (writeInternalError ''agent could not be created'')
        | Some plain \<Rightarrow>
            (case CreateAgent e adb (dw_tx d) (dw_fresh d) (dw_fresh2 d) (uID user) displayName purpose (lb_sha lib plain)
                    (tokenDisplayPrefix plain) of
               Inl err \<Rightarrow> Inl (if err = ErrAgentLimit then writeCodedError 409 ''agent_limit_reached''
                                 (planName (ent_Plan (uEntitlement user)) @ '' allows up to '' @
                                  Itoa (lim_Agents (ent_Limits (uEntitlement user))) @
                                  '' agents. Delete an agent before creating another.'')
                               else if err = ErrAgentNameTaken then name_taken_answer
                               else if err = ErrUnauthorized then signed_out_answer
                               else writeInternalError ''agent could not be created'')
             | Inr (adb1, agent) \<Rightarrow> Inr (writeJSON 201 (AgentTokenBody plain agent), adb1))))))))"

text \<open>The two handlers that end an agent's access differ in the statement and a message.\<close>

definition agent_gone ::
    "library \<Rightarrow> (auth_db \<Rightarrow> unit auth_tx) \<Rightarrow> string \<Rightarrow> auth_db \<Rightarrow> request \<Rightarrow> response \<times> auth_db" where
  "agent_gone lib statement message adb r =
     answer adb
       (rbind (validateSameOrigin (lb_origin lib) r) (\<lambda>_.
        rbind (require (validUUID (hr_id r)) (writeError 404 ''agent not found'')) (\<lambda>_.
        case statement adb of
          Inl err \<Rightarrow> Inl (if err = ErrAgentNotFound then writeError 404 ''agent not found'' else writeInternalError message)
        | Inr (adb1, _) \<Rightarrow> Inr (writeJSON 200 OkBody, adb1))))"

definition RevokeAgentToken_delete :: "library \<Rightarrow> env \<Rightarrow> draws \<Rightarrow> auth_db \<Rightarrow> request \<Rightarrow> User \<Rightarrow> response \<times> auth_db" where
  "RevokeAgentToken_delete lib e d adb r user =
     agent_gone lib (\<lambda>adb. RevokeAgentToken e adb (dw_tx d) (uID user) (hr_id r)) ''agent token could not be revoked'' adb r"

definition DeleteAgent_delete :: "library \<Rightarrow> env \<Rightarrow> auth_db \<Rightarrow> request \<Rightarrow> User \<Rightarrow> response \<times> auth_db" where
  "DeleteAgent_delete lib e adb r user =
     agent_gone lib (\<lambda>adb. DeleteAgent e adb (uID user) (hr_id r)) ''agent could not be deleted'' adb r"

end
