(* ===== verification/App.thy ===== *)
theory App
  imports AuthService
begin

section \<open>Guarded endpoints (server/app.go)\<close>

text \<open>
  What stands between a request and a handler: the database is configured, the credential is
  resolved under the limiter, and the kind of user is allowed. A handler is a function of the
  user and the server's state.
\<close>

text \<open>
  \<open>ap_ready\<close> says whether there is a database, \<open>ap_ping\<close> whether it answers; \<open>ap_connections\<close> are
  the pool's maximum and the application's limit. \<open>ap_open\<close> and \<open>ap_read\<close> are the static files.
\<close>

datatype opened = Present | Missing | OpenFailed string

record App =
  ap_ready :: bool
  ap_limits :: "PG option"
  ap_ping :: bool
  ap_connections :: "int \<times> int"
  ap_open :: "string \<Rightarrow> opened"
  ap_read :: "string \<Rightarrow> string option"

type_synonym handler = "User \<Rightarrow> server \<Rightarrow> response \<times> server"

definition on_auth :: "(auth_db \<Rightarrow> response \<times> auth_db) \<Rightarrow> server \<Rightarrow> response \<times> server" where
  "on_auth h sv = (case h (sv_auth sv) of (resp, adb) \<Rightarrow> (resp, sv\<lparr>sv_auth := adb\<rparr>))"

definition ready :: "App \<Rightarrow> (response, unit) result" where
  "ready a = require (ap_ready a) (writeError 503 ''database is not configured'')"

subsection \<open>Rate limit headers\<close>

definition with_limit :: "(int \<times> int) option \<Rightarrow> response \<Rightarrow> response" where
  "with_limit h resp = (case h of None \<Rightarrow> resp | Some l \<Rightarrow> resp\<lparr>rs_limit := Some l\<rparr>)"

text \<open>\<open>Inr\<close> the headers when the request may go on, \<open>Inl\<close> the response when it may not.\<close>

definition writeRateLimitDecision :: "Decision \<Rightarrow> limiter_error option \<Rightarrow> (response, int \<times> int) result" where
  "writeRateLimitDecision d err =
     (if err \<noteq> None then Inl (writeCodedError 503 ''rate_limit_unavailable'' ''Request capacity could not be checked.'')
      else if dAllowed d then Inr (dLimit d, dRemaining d)
      else Inl ((writeCodedError 429 ''rate_limit_exceeded'' ''Too many requests. Retry later.'')
             \<lparr>rs_limit := Some (dLimit d, dRemaining d), rs_retry := Some (RetryAfterSeconds (dRetryAfter d))\<rparr>))"

text \<open>The response of a request that is over after the decision has been written.\<close>

definition stop_with :: "Decision \<Rightarrow> limiter_error option \<Rightarrow> response" where
  "stop_with d err = (case writeRateLimitDecision d err of Inl resp \<Rightarrow> resp | Inr h \<Rightarrow> with_limit (Some h) (writeJSON 200 EmptyBody))"

definition allowPublicAuth ::
    "library \<Rightarrow> App \<Rightarrow> readings \<Rightarrow> server \<Rightarrow> request \<Rightarrow> (response, (int \<times> int) option) result \<times> server" where
  "allowPublicAuth lib a rd sv r =
     (case ap_limits a of
        None \<Rightarrow> (Inr None, sv)
      | Some p \<Rightarrow>
          (case Allow (lb_sha lib) (rd_skip rd 3) p (sv_limits sv) (rd_tick rd 3) [\<lparr>kScope = ScopeIP, kValue = ip_hash lib r\<rparr>] ClassPublicAuth of
             Inl err \<Rightarrow> (map_sum id Some (writeRateLimitDecision zero_decision (Some (LimiterError err))), sv)
           | Inr (db, d) \<Rightarrow> (map_sum id Some (writeRateLimitDecision d None), sv\<lparr>sv_limits := db\<rparr>)))"

definition publicAuth ::
    "library \<Rightarrow> App \<Rightarrow> readings \<Rightarrow> (server \<Rightarrow> response \<times> server) \<Rightarrow> server \<Rightarrow> request \<Rightarrow> response \<times> server" where
  "publicAuth lib a rd next_handler sv r =
     (case allowPublicAuth lib a rd sv r of
        (Inl resp, sv1) \<Rightarrow> (resp, sv1)
      | (Inr h, sv1) \<Rightarrow> (case next_handler sv1 of (resp, sv2) \<Rightarrow> (with_limit h resp, sv2)))"

subsection \<open>Authenticated endpoints\<close>

definition resolveAuthenticated ::
    "library \<Rightarrow> App \<Rightarrow> readings \<Rightarrow> server \<Rightarrow> request \<Rightarrow> bool \<Rightarrow> (response, User \<times> (int \<times> int) option) result \<times> server" where
  "resolveAuthenticated lib a rd sv r sessionOnly =
     (case authenticateWithLimits (lb_sha lib) (ap_limits a) rd sv r sessionOnly True of (result, sv1) \<Rightarrow>
        (if ar_limitErr result \<noteq> None then Inl (stop_with zero_decision (ar_limitErr result))
         else if ar_limited result then Inl (stop_with (ar_decision result) None)
         else (case ar_authErr result of
             Some err \<Rightarrow> Inl (if err \<noteq> Unauthorized then writeError 500 ''authentication failed''
                              else writeError 401 ''authentication required'')
           | None \<Rightarrow>
               if ar_checked result then
                 (case writeRateLimitDecision (ar_decision result) None of
                    Inl resp \<Rightarrow> Inl resp | Inr h \<Rightarrow> Inr (ar_user result, Some h))
               else Inr (ar_user result, None)), sv1))"

definition guarded ::
    "library \<Rightarrow> App \<Rightarrow> readings \<Rightarrow> bool \<Rightarrow> handler \<Rightarrow> server \<Rightarrow> request \<Rightarrow> response \<times> server" where
  "guarded lib a rd sessionOnly next_handler sv r =
     (case ready a of
        Inl resp \<Rightarrow> (resp, sv)
      | Inr _ \<Rightarrow> (case resolveAuthenticated lib a rd sv r sessionOnly of
            (Inl resp, sv1) \<Rightarrow> (resp, sv1)
          | (Inr (user, h), sv1) \<Rightarrow> (case next_handler user sv1 of (resp, sv2) \<Rightarrow> (with_limit h resp, sv2))))"

definition any_user :: "library \<Rightarrow> App \<Rightarrow> readings \<Rightarrow> handler \<Rightarrow> server \<Rightarrow> request \<Rightarrow> response \<times> server" where
  "any_user lib a rd next_handler sv r = guarded lib a rd False next_handler sv r"

definition session_user :: "library \<Rightarrow> App \<Rightarrow> readings \<Rightarrow> handler \<Rightarrow> server \<Rightarrow> request \<Rightarrow> response \<times> server" where
  "session_user lib a rd next_handler sv r = guarded lib a rd True next_handler sv r"

definition accountRead :: "library \<Rightarrow> App \<Rightarrow> readings \<Rightarrow> handler \<Rightarrow> server \<Rightarrow> request \<Rightarrow> response \<times> server" where
  "accountRead lib a rd next_handler sv r = any_user lib a rd next_handler sv r"

definition person :: "library \<Rightarrow> App \<Rightarrow> readings \<Rightarrow> handler \<Rightarrow> server \<Rightarrow> request \<Rightarrow> response \<times> server" where
  "person lib a rd next_handler sv r =
     any_user lib a rd (\<lambda>user sv. if uAgentID user \<noteq> [] then (writeError 403 ''agent credentials cannot read account-wide data'', sv)
       else next_handler user sv) sv r"

definition accountManage :: "library \<Rightarrow> App \<Rightarrow> readings \<Rightarrow> handler \<Rightarrow> server \<Rightarrow> request \<Rightarrow> response \<times> server" where
  "accountManage lib a rd next_handler sv r =
     any_user lib a rd (\<lambda>user sv. if uAgentID user \<noteq> [] then (writeError 403 ''agent credentials cannot manage account resources'', sv)
       else next_handler user sv) sv r"

definition app_me :: "library \<Rightarrow> App \<Rightarrow> readings \<Rightarrow> server \<Rightarrow> request \<Rightarrow> response \<times> server" where
  "app_me lib a rd sv r =
     (if \<not> ap_ready a then (writeJSON 200 (MeBody False None False), sv)
      else (case authenticateWithLimits (lb_sha lib) (ap_limits a) rd sv r False False of (result, sv1) \<Rightarrow>
        if ar_limitErr result \<noteq> None then (stop_with zero_decision (ar_limitErr result), sv1)
        else if ar_limited result then (stop_with (ar_decision result) None, sv1)
        else (case ar_authErr result of
            Some err \<Rightarrow>
              if err \<noteq> Unauthorized then (writeError 500 ''authentication failed'', sv1)
              else (case allowPublicAuth lib a rd sv1 r of
                  (Inl resp, sv2) \<Rightarrow> (resp, sv2)
                | (Inr h, sv2) \<Rightarrow> (with_limit h (writeJSON 200 (MeBody False None False)), sv2))
          | None \<Rightarrow>
              if ar_checked result then
                (case writeRateLimitDecision (ar_decision result) None of
                   Inl resp \<Rightarrow> (resp, sv1)
                 | Inr h \<Rightarrow> (with_limit (Some h) (MeForUser (sv_auth sv1) (ar_user result)), sv1))
              else (MeForUser (sv_auth sv1) (ar_user result), sv1))))"

definition app_login ::
    "library \<Rightarrow> App \<Rightarrow> draws \<Rightarrow> request \<Rightarrow> (response, credentialsInput) result \<Rightarrow> server \<Rightarrow> response \<times> server" where
  "app_login lib a d r decoded sv =
     (case ready a of Inl resp \<Rightarrow> (resp, sv) | Inr _ \<Rightarrow> on_auth (\<lambda>adb. Login lib d adb r decoded) sv)"

definition app_register ::
    "library \<Rightarrow> App \<Rightarrow> Service \<Rightarrow> draws \<Rightarrow> request \<Rightarrow> (response, signupInput) result \<Rightarrow> server \<Rightarrow> response \<times> server" where
  "app_register lib a s d r decoded sv =
     (case ready a of Inl resp \<Rightarrow> (resp, sv) | Inr _ \<Rightarrow> on_auth (\<lambda>adb. Register lib s d adb r decoded) sv)"

definition app_logout :: "library \<Rightarrow> App \<Rightarrow> request \<Rightarrow> server \<Rightarrow> response \<times> server" where
  "app_logout lib a r sv = (if \<not> ap_ready a then (writeJSON 200 OkBody, sv) else on_auth (\<lambda>adb. Logout lib adb r) sv)"

definition app_requestPasswordReset ::
    "library \<Rightarrow> App \<Rightarrow> Service \<Rightarrow> draws \<Rightarrow> request \<Rightarrow> (response, string) result \<Rightarrow> server \<Rightarrow> response \<times> server" where
  "app_requestPasswordReset lib a s d r decoded sv =
     (case ready a of Inl resp \<Rightarrow> (resp, sv) | Inr _ \<Rightarrow> on_auth (\<lambda>adb. RequestPasswordReset lib s d adb r decoded) sv)"

definition app_resetPassword ::
    "library \<Rightarrow> App \<Rightarrow> draws \<Rightarrow> request \<Rightarrow> (response, resetInput) result \<Rightarrow> server \<Rightarrow> response \<times> server" where
  "app_resetPassword lib a d r decoded sv =
     (case ready a of Inl resp \<Rightarrow> (resp, sv) | Inr _ \<Rightarrow> on_auth (\<lambda>adb. ResetPassword_post lib d adb r decoded) sv)"

end
