(* ===== verification/Static.thy ===== *)
theory Static
  imports App
begin

section \<open>The static files (server/static.go)\<close>

text \<open>
  A path is the list of the parts between its slashes; a cleaned path has no empty part and no
  dots. A file that exists is served, a page may be asked for without its suffix, a route of the
  frontend gets the single page, everything else is not found.
\<close>

definition is_read :: "request \<Rightarrow> bool" where
  "is_read r \<longleftrightarrow> hr_method r = ''GET'' \<or> hr_method r = ''HEAD''"

definition not_found :: response where
  "not_found = writeJSON 404 NotFoundBody"

definition http_error :: "int \<Rightarrow> string \<Rightarrow> response" where
  "http_error status message = writeJSON status (TextBody message)"

definition serveFile :: "App \<Rightarrow> request \<Rightarrow> string \<Rightarrow> response" where
  "serveFile a r name =
     (case ap_read a name of
        None \<Rightarrow> http_error 503 ''static frontend has not been built''
      | Some content \<Rightarrow> writeJSON 200 (FileBody name (if hr_method r = ''HEAD'' then [] else content)))"

text \<open>\<open>path.Clean\<close> of a rooted path, and \<open>path.Ext\<close>, which looks at the last part.\<close>

fun clean_parts :: "string list \<Rightarrow> string list \<Rightarrow> string list" where
  "clean_parts done_parts [] = rev done_parts"
| "clean_parts done_parts (p # ps) =
     (if p = [] \<or> p = ''.'' then clean_parts done_parts ps
      else if p = ''..'' then clean_parts (tl done_parts) ps
      else clean_parts (p # done_parts) ps)"

definition ext :: "string \<Rightarrow> string" where
  "ext name = (if CHR ''.'' \<in> set name then CHR ''.'' # rev (takeWhile (\<lambda>c. c \<noteq> CHR ''.'') (rev name)) else [])"

definition app_pages :: "string list list" where
  "app_pages =
     [[], [''login''], [''app''], [''app'', ''tasks''], [''app'', ''inbox''], [''app'', ''runs''], [''app'', ''runners''],
      [''app'', ''settings''], [''early-access''], [''reset-password''], [''app'', ''today''], [''app'', ''week''], [''app'', ''review'']]"

definition isAppRoute :: "string list \<Rightarrow> bool" where
  "isAppRoute cleaned \<longleftrightarrow>
     (if cleaned \<in> set app_pages then True
      else (case cleaned of
          app # view # rest \<Rightarrow>
            if app \<noteq> ''app'' then False
            else if view = ''tasks'' \<or> view = ''lists'' then length rest = 1
            else if view = ''settings'' then rest \<noteq> []
            else if view = ''agents'' then rest = [] \<or> length rest = 1
              \<or> (length rest = 2 \<and> (rest ! 1 = ''work'' \<or> rest ! 1 = ''settings''))
            else if view = ''boards'' then length rest = 1 \<or> (length rest = 2 \<and> rest ! 0 \<noteq> [] \<and> rest ! 1 = ''settings'')
            else False
        | _ \<Rightarrow> False))"

definition StaticHandler :: "App \<Rightarrow> request \<Rightarrow> response" where
  "StaticHandler a r =
     (if \<not> is_read r then http_error 405 ''method not allowed''
      else if length (hr_path r) \<ge> 2 \<and> hr_path r ! 0 = ''api'' then not_found
      else
        let cleaned = clean_parts [] (hr_path r);
            name = (if cleaned = [] then ''index.html'' else join ''/'' cleaned);
            suffix = ext (if cleaned = [] then name else last cleaned);
            page = (if suffix \<noteq> [] \<or> \<not> isAppRoute cleaned then not_found else serveFile a r ''index.html'') in
        (case ap_open a name of
           OpenFailed message \<Rightarrow> http_error 500 message
         | Present \<Rightarrow> if suffix = ''.html'' then serveFile a r name else writeJSON 200 (FileServer name)
         | Missing \<Rightarrow>
             if suffix = [] then
               (case ap_open a (name @ ''.html'') of
                  OpenFailed message \<Rightarrow> http_error 500 message
                | Present \<Rightarrow> serveFile a r (name @ ''.html'')
                | Missing \<Rightarrow> page)
             else page))"

end
