(* ===== verification/AgentHandlers.thy ===== *)
theory AgentHandlers
  imports AuthService
begin

section \<open>The agent endpoints (agents/handler.go)\<close>

text \<open>
  What a person may do with one of its agents over HTTP: read its details and its work, change
  its settings, rotate and revoke its credential. The identifier comes from the path.
\<close>

definition path_agent :: "request \<Rightarrow> string" where
  "path_agent r = TrimSpace (hr_id r)"

definition agent_not_found :: response where
  "agent_not_found = writeError 404 ''agent not found''"

definition GetDetail_get :: "auth_db \<Rightarrow> request \<Rightarrow> User \<Rightarrow> response" where
  "GetDetail_get adb r user =
     (if path_agent r = [] then agent_not_found
      else (case GetDetail adb (uID user) (path_agent r) of
          Inl err \<Rightarrow> if err = ErrAgentNotFound then agent_not_found else writeInternalError ''agent details could not be loaded''
        | Inr detail \<Rightarrow> writeJSON 200 (DetailBody detail)))"

text \<open>\<open>raw0\<close> is the text of the query parameter.\<close>

definition positiveQueryInt :: "string \<Rightarrow> int \<Rightarrow> int \<Rightarrow> int option" where
  "positiveQueryInt raw0 fallback maximum =
     (let raw = TrimSpace raw0 in
      if raw = [] then Some fallback
      else (case Atoi raw of None \<Rightarrow> None | Some v \<Rightarrow> if v < 1 \<or> v > maximum then None else Some v))"

definition ListWork_get :: "auth_db \<Rightarrow> request \<Rightarrow> string \<Rightarrow> string \<Rightarrow> User \<Rightarrow> response" where
  "ListWork_get adb r page0 pageSize0 user =
     (if path_agent r = [] then agent_not_found
      else (case positiveQueryInt page0 1 100000 of
          None \<Rightarrow> writeError 400 ''page must be a positive integer''
        | Some page \<Rightarrow> (case positiveQueryInt pageSize0 MaxPageSize MaxPageSize of
            None \<Rightarrow> writeError 400 ''pageSize must be between 1 and 50''
          | Some pageSize \<Rightarrow> (case ListWork adb (uID user) (path_agent r) page pageSize of
              Inl err \<Rightarrow> if err = ErrAgentNotFound then agent_not_found else writeInternalError ''assigned work could not be loaded''
            | Inr work \<Rightarrow> writeJSON 200 (WorkBody work)))))"

definition validateMutation :: "(string \<Rightarrow> (string \<times> string \<times> bool) option) \<Rightarrow> request \<Rightarrow> (response, unit) result" where
  "validateMutation parse r =
     (if hr_origin r = [] \<or> hr_host r = [] then Inr ()
      else (case parse (hr_origin r) of
          None \<Rightarrow> Inl (writeError 403 ''cross-origin request blocked'')
        | Some (scheme, host, user) \<Rightarrow>
            if (scheme = ''http'' \<or> scheme = ''https'') \<and> EqualFold host (hr_host r) \<and> \<not> user then Inr ()
            else Inl (writeError 403 ''cross-origin request blocked'')))"

lemma validateMutation_same: "validateMutation parse r = validateSameOrigin parse r"
  by (simp add: validateMutation_def validateSameOrigin_def)

definition Update_patch ::
    "library \<Rightarrow> env \<Rightarrow> draws \<Rightarrow> auth_db \<Rightarrow> request \<Rightarrow> (response, agentInput) result \<Rightarrow> User \<Rightarrow> response \<times> auth_db" where
  "Update_patch lib e d adb r decoded user =
     answer adb
       (rbind (validateMutation (lb_origin lib) r) (\<lambda>_.
        rbind decoded (\<lambda>input.
        let displayName = TrimSpace (ai_DisplayName input); purpose = TrimSpace (ai_Purpose input) in
        rbind (require (displayName \<noteq> []) (writeError 400 ''agent name is required'')) (\<lambda>_.
        rbind (RuneLimit ''displayName'' displayName AgentNameRunes) (\<lambda>_.
        rbind (ByteLimit ''purpose'' purpose AgentInstructionsBytes) (\<lambda>_.
        let failed = (\<lambda>err. if err = ErrAgentNotFound then agent_not_found else if err = ErrAgentNameTaken then name_taken_answer
                      else writeInternalError ''agent settings could not be saved'') in
        case UpdateAgent e adb (dw_tx d) (uID user) (path_agent r) displayName purpose of
          Inl err \<Rightarrow> Inl (failed err)
        | Inr (adb1, Inl err) \<Rightarrow> Inr (failed err, adb1)
        | Inr (adb1, Inr agent) \<Rightarrow> Inr (writeJSON 200 (AgentBody agent), adb1)))))))"

definition AgentRotationKeyBytes :: nat where "AgentRotationKeyBytes = 128"

definition agentDisplayPrefix :: "string \<Rightarrow> string" where
  "agentDisplayPrefix token = (if length token \<le> 24 then token else take 24 token)"

definition randomAgentToken :: "draws \<Rightarrow> string option" where
  "randomAgentToken d = map_option (\<lambda>raw. ''slate_agent_'' @ EncodeToString raw) (dw_random d)"

definition RotateCredential_post ::
    "library \<Rightarrow> draws \<Rightarrow> auth_db \<Rightarrow> request \<Rightarrow> (response, string) result \<Rightarrow> User \<Rightarrow> response \<times> auth_db" where
  "RotateCredential_post lib d adb r decoded user =
     answer adb
       (rbind (validateMutation (lb_origin lib) r) (\<lambda>_.
        rbind decoded (\<lambda>input.
        let key = TrimSpace input in
        rbind (ByteLimit ''idempotencyKey'' key AgentRotationKeyBytes) (\<lambda>_.
        rbind (require (\<not> length key < 16) (writeError 400 ''a stable idempotency key is required'')) (\<lambda>_.
        case randomAgentToken d of
          None \<Rightarrow> Inl (writeInternalError ''credential could not be rotated'')
        | Some plain \<Rightarrow>
            (case RotateCredential adb (dw_tx d) (dw_fresh d) (uID user) (path_agent r) key (lb_sha lib plain) (agentDisplayPrefix plain) of
               Inl err \<Rightarrow> Inl (if err = ErrAgentNotFound then agent_not_found
                               else if err = ErrIdempotencyConflict then writeCodedError 409 ''idempotency_conflict''
                                 ''This rotation key was already used for another agent.''
                               else writeInternalError ''credential could not be rotated'')
             | Inr (adb1, (credential, applied)) \<Rightarrow>
                 Inr (writeJSON 200 (RotationBody (if applied then plain else []) (\<not> applied) credential), adb1)))))))"

definition RevokeCredential_delete :: "library \<Rightarrow> draws \<Rightarrow> auth_db \<Rightarrow> request \<Rightarrow> User \<Rightarrow> response \<times> auth_db" where
  "RevokeCredential_delete lib d adb r user =
     answer adb
       (rbind (validateMutation (lb_origin lib) r) (\<lambda>_.
        case RevokeCredential adb (dw_tx d) (uID user) (path_agent r) of
          Inl err \<Rightarrow> Inl (if err = ErrAgentNotFound then agent_not_found else writeInternalError ''credential could not be revoked'')
        | Inr (adb1, _) \<Rightarrow> Inr (writeJSON 200 OkBody, adb1)))"

end
