(* ===== verification/BoardHandlers.thy ===== *)
theory BoardHandlers
  imports AuthService
begin

section \<open>The board endpoints (boards/handler.go)\<close>

text \<open>
  One definition per handler: from the request, the decoded body and the user to the response
  and the store. An agent's credential reads and writes through the operations for agents;
  every error of the store has a status and a text of its own.
\<close>

subsection \<open>Limits on texts and identifiers\<close>

definition TaskTitleRunes :: nat where "TaskTitleRunes = 300"
definition TaskDescriptionBytes :: nat where "TaskDescriptionBytes = 16 * 1024"
definition ListNameRunes :: nat where "ListNameRunes = 100"
definition ListGoalBytes :: nat where "ListGoalBytes = 4 * 1024"

definition optionalRuneLimit :: "string \<Rightarrow> string option \<Rightarrow> nat \<Rightarrow> bool \<Rightarrow> (response, unit) result" where
  "optionalRuneLimit field value limit trim =
     (case value of None \<Rightarrow> Inr () | Some v \<Rightarrow> RuneLimit field (if trim then TrimSpace v else v) limit)"

definition optionalByteLimit :: "string \<Rightarrow> string option \<Rightarrow> nat \<Rightarrow> (response, unit) result" where
  "optionalByteLimit field value limit = (case value of None \<Rightarrow> Inr () | Some v \<Rightarrow> ByteLimit field v limit)"

definition validateCreateBucketText :: "CreateBucketInput \<Rightarrow> (response, unit) result" where
  "validateCreateBucketText input =
     rbind (RuneLimit ''name'' (TrimSpace (cbName input)) ListNameRunes) (\<lambda>_. ByteLimit ''goal'' (cbGoal input) ListGoalBytes)"

definition validateUpdateBucketText :: "UpdateBucketInput \<Rightarrow> (response, unit) result" where
  "validateUpdateBucketText input =
     rbind (optionalRuneLimit ''name'' (ubName input) ListNameRunes True) (\<lambda>_. optionalByteLimit ''goal'' (ubGoal input) ListGoalBytes)"

definition validateCreateTaskText :: "CreateTaskInput \<Rightarrow> (response, unit) result" where
  "validateCreateTaskText input =
     rbind (RuneLimit ''title'' (TrimSpace (ciTitle input)) TaskTitleRunes) (\<lambda>_.
     ByteLimit ''description'' (ciDescription input) TaskDescriptionBytes)"

definition validateUpdateTaskText :: "UpdateTaskInput \<Rightarrow> (response, unit) result" where
  "validateUpdateTaskText input =
     rbind (optionalRuneLimit ''title'' (uiTitle input) TaskTitleRunes True) (\<lambda>_.
     optionalByteLimit ''description'' (uiDescription input) TaskDescriptionBytes)"

definition validateTaskIdempotencyKey :: "string \<Rightarrow> (response, unit) result" where
  "validateTaskIdempotencyKey key = ByteLimit ''Idempotency-Key'' (TrimSpace key) TaskIdempotencyBytes"

definition validatePathID :: "string \<Rightarrow> string \<Rightarrow> (response, unit) result" where
  "validatePathID resource i = require (validUUID i) (writeError 400 (resource @ '' ID must be a valid ID''))"

subsection \<open>Errors of the store\<close>

text \<open>\<open>error_text\<close> is \<open>err.Error()\<close> of the errors whose text the handlers show.\<close>

fun error_text :: "store_error \<Rightarrow> string" where
  "error_text ErrTaskUnavailable = ''task is not available''"
| "error_text ErrIdempotencyKey = ''idempotency key already used with different data''"
| "error_text ErrIdempotencyGone = ''task created by idempotency key was deleted''"
| "error_text ErrAgentTaskScope = ''agent credentials cannot move, reorder, or reassign tasks''"
| "error_text ErrManagedRunMismatch = ''managed run does not own this task''"
| "error_text ErrManagedRunStatusLocked = ''managed run status is controlled by output''"
| "error_text (ErrInvalidData message) = ''invalid data: '' @ message"
| "error_text (StorageQuotaError code current limit) =
     code @ '': current usage is '' @ Itoa current @ '' and the limit is '' @ Itoa limit"
| "error_text _ = []"

definition plural :: "int \<Rightarrow> string \<Rightarrow> string \<Rightarrow> string" where
  "plural value singular multiple = (if value = 1 then singular else multiple)"

definition limitContext :: "Entitlement option \<Rightarrow> (Limits \<Rightarrow> int) \<Rightarrow> int \<Rightarrow> string \<times> string \<times> int" where
  "limitContext account value fallback =
     (case account of
        None \<Rightarrow> (''Pro'', ''pro'', fallback)
      | Some a \<Rightarrow>
          let limit = value (ent_Limits a); limit = (if limit = 0 then fallback else limit) in
          if ent_Plan a = PlanPro then (''Pro'', ''pro'', limit) else (''Free'', ''free'', limit))"

definition writeLimitError :: "string \<Rightarrow> string \<Rightarrow> response" where
  "writeLimitError code message = writeJSON 409 (CodedError code message)"

fun handleStoreError :: "store_error \<Rightarrow> Entitlement option \<Rightarrow> response" where
  "handleStoreError ErrNotFound account = writeError 404 ''not found''"
| "handleStoreError ErrLimitFull account = writeLimitError ''working_limit_reached'' ''This list's working limit has been reached.''"
| "handleStoreError ErrListLimit account =
     (case limitContext account lim_Lists (lim_Lists ProLimits) of (plan, code, limit) \<Rightarrow>
        writeLimitError (code @ ''_list_limit_reached'') (plan @ '' allows up to '' @ Itoa limit @ '' '' @ plural limit ''list'' ''lists'' @ ''.''))"
| "handleStoreError ErrActiveItemLimit account =
     (case limitContext account lim_ActiveItemsPerList (lim_ActiveItemsPerList ProLimits) of (plan, code, limit) \<Rightarrow>
        writeLimitError (code @ ''_active_item_limit_reached'') (''Max active items per list is '' @ Itoa limit @ '' on '' @ plan @ ''.''))"
| "handleStoreError (StorageQuotaError code current limit) account =
     writeJSON 409 (QuotaBody code (error_text (StorageQuotaError code current limit)) current limit)"
| "handleStoreError ErrTaskUnavailable account = writeError 409 (error_text ErrTaskUnavailable)"
| "handleStoreError ErrIdempotencyKey account = writeError 409 (error_text ErrIdempotencyKey)"
| "handleStoreError ErrIdempotencyGone account = writeError 410 (error_text ErrIdempotencyGone)"
| "handleStoreError ErrAgentTaskScope account = writeError 403 (error_text ErrAgentTaskScope)"
| "handleStoreError ErrManagedRunStatusLocked account = writeCodedError 409 ''managed_run_status_locked'' (error_text ErrManagedRunStatusLocked)"
| "handleStoreError ErrManagedRunMismatch account = writeCodedError 409 ''managed_run_mismatch'' (error_text ErrManagedRunMismatch)"
| "handleStoreError (ErrInvalidData message) account = writeError 400 (error_text (ErrInvalidData message))"
| "handleStoreError _ account = writeInternalError ''request failed''"

text \<open>A read that shows its result, and a transaction that shows its result and commits.\<close>

definition shown :: "('a \<Rightarrow> body) \<Rightarrow> (store_error, 'a) result \<Rightarrow> response" where
  "shown b m = (case m of Inl err \<Rightarrow> handleStoreError err None | Inr x \<Rightarrow> writeJSON 200 (b x))"

definition stored :: "Entitlement option \<Rightarrow> int \<Rightarrow> ('a \<Rightarrow> body) \<Rightarrow> 'a tx \<Rightarrow> (response, response \<times> db) result" where
  "stored account status b m =
     (case m of Inl err \<Rightarrow> Inl (handleStoreError err account) | Inr (db, x) \<Rightarrow> Inr (writeJSON status (b x), db))"

definition ok_body :: "unit \<Rightarrow> body" where
  "ok_body x = OkBody"

subsection \<open>Lists\<close>

definition ListAllBuckets_get :: "db \<Rightarrow> User \<Rightarrow> response" where
  "ListAllBuckets_get db user =
     (if uAgentID user \<noteq> [] then writeError 403 ''agent credentials cannot list workspace lists''
      else writeJSON 200 (ListsBody (ListAllBuckets db (uID user))))"

definition GetWorkspaceSummary_get :: "draws \<Rightarrow> db \<Rightarrow> User \<Rightarrow> response" where
  "GetWorkspaceSummary_get d db user =
     (if uAgentID user \<noteq> [] then writeError 403 ''agent credentials cannot view the workspace summary''
      else writeJSON 200 (SummaryBody (WorkspaceSummary db (dw_tx d) (uID user))))"

definition CreateBucket_post :: "draws \<Rightarrow> db \<Rightarrow> (response, CreateBucketInput) result \<Rightarrow> User \<Rightarrow> response \<times> db" where
  "CreateBucket_post d db decoded user =
     answer db
       (rbind decoded (\<lambda>input.
        rbind (validateCreateBucketText input) (\<lambda>_.
        stored (Some (uEntitlement user)) 201 BucketBody (CreateBucket db (dw_tx d) (dw_fresh d) (uID user) input))))"

definition GetBucket_get :: "env \<Rightarrow> codec \<Rightarrow> db \<Rightarrow> request \<Rightarrow> User \<Rightarrow> response" where
  "GetBucket_get e c db r user =
     shown BucketBody
       (if uAgentID user \<noteq> [] then GetBucketForAgent e db (uID user) (uAgentID user) (hr_id r)
        else GetBucket e c db (uID user) (hr_id r))"

definition UpdateBucket_patch ::
    "env \<Rightarrow> draws \<Rightarrow> db \<Rightarrow> request \<Rightarrow> (response, UpdateBucketInput) result \<Rightarrow> User \<Rightarrow> response \<times> db" where
  "UpdateBucket_patch e d db r decoded user =
     answer db
       (rbind decoded (\<lambda>input.
        rbind (validateUpdateBucketText input) (\<lambda>_.
        stored None 200 BucketBody (UpdateBucket e db (dw_tx d) (uID user) (hr_id r) input))))"

definition DeleteBucket_delete :: "env \<Rightarrow> db \<Rightarrow> request \<Rightarrow> User \<Rightarrow> response \<times> db" where
  "DeleteBucket_delete e db r user = answer db (stored None 200 ok_body (DeleteBucket e db (uID user) (hr_id r)))"

record reorderInput =
  riIDs :: "string list"

definition ReorderBuckets_post :: "draws \<Rightarrow> db \<Rightarrow> (response, reorderInput) result \<Rightarrow> User \<Rightarrow> response \<times> db" where
  "ReorderBuckets_post d db decoded user =
     answer db
       (rbind decoded (\<lambda>input.
        stored None 200 ok_body (ReorderBuckets db (dw_tx d) (uID user) (riIDs input))))"

subsection \<open>Creating tasks\<close>

text \<open>The three handlers decode and check the same way before they call the store.\<close>

definition create_input :: "request \<Rightarrow> (response, CreateTaskInput) result \<Rightarrow> (response, CreateTaskInput) result" where
  "create_input r decoded =
     rbind decoded (\<lambda>input.
     rbind (validateCreateTaskText input) (\<lambda>_.
     let input = input\<lparr>ciIdempotencyKey := TrimSpace (hr_idempotency r)\<rparr> in
     rbind (validateTaskIdempotencyKey (ciIdempotencyKey input)) (\<lambda>_. Inr input)))"

definition CreateTask_post ::
    "env \<Rightarrow> draws \<Rightarrow> db \<Rightarrow> request \<Rightarrow> (response, CreateTaskInput) result \<Rightarrow> User \<Rightarrow> response \<times> db" where
  "CreateTask_post e d db r decoded user =
     answer db
       (rbind (create_input r decoded) (\<lambda>input.
        stored (Some (uEntitlement user)) 201 BoardTaskBody (CreateTask e db (dw_tx d) (dw_fresh d) (uID user) (hr_id r) input)))"

definition CreateInboxTask_post ::
    "env \<Rightarrow> draws \<Rightarrow> db \<Rightarrow> request \<Rightarrow> (response, CreateTaskInput) result \<Rightarrow> User \<Rightarrow> response \<times> db" where
  "CreateInboxTask_post e d db r decoded user =
     answer db
       (rbind (create_input r decoded) (\<lambda>input.
        stored (Some (uEntitlement user)) 201 BoardTaskBody
          (CreateInboxTask e db (dw_tx d) (dw_fresh2 d) (dw_fresh d) (uID user) input)))"

definition CreateSubtask_post ::
    "env \<Rightarrow> draws \<Rightarrow> db \<Rightarrow> request \<Rightarrow> (response, CreateTaskInput) result \<Rightarrow> User \<Rightarrow> response \<times> db" where
  "CreateSubtask_post e d db r decoded user =
     answer db
       (rbind (validatePathID ''parent task'' (hr_id r)) (\<lambda>_.
        rbind (create_input r decoded) (\<lambda>input.
        stored (Some (uEntitlement user)) 201 BoardTaskBody (CreateSubtask e db (dw_tx d) (dw_fresh d) (uID user) (hr_id r) input))))"

definition ListSubtasks_get :: "env \<Rightarrow> db \<Rightarrow> request \<Rightarrow> User \<Rightarrow> response" where
  "ListSubtasks_get e db r user =
     (case validatePathID ''parent task'' (hr_id r) of
        Inl resp \<Rightarrow> resp
      | Inr _ \<Rightarrow> shown SubtasksBody (ListSubtasks e db (uID user) (hr_id r)))"

definition ReorderSubtasks_post ::
    "env \<Rightarrow> draws \<Rightarrow> db \<Rightarrow> request \<Rightarrow> (response, reorderInput) result \<Rightarrow> User \<Rightarrow> response \<times> db" where
  "ReorderSubtasks_post e d db r decoded user =
     answer db
       (rbind (validatePathID ''parent task'' (hr_id r)) (\<lambda>_.
        rbind decoded (\<lambda>input.
        stored None 200 ok_body (ReorderSubtasks e db (dw_tx d) (uID user) (hr_id r) (riIDs input)))))"

definition ReorderTasks_post ::
    "env \<Rightarrow> draws \<Rightarrow> db \<Rightarrow> request \<Rightarrow> (response, reorderInput) result \<Rightarrow> User \<Rightarrow> response \<times> db" where
  "ReorderTasks_post e d db r decoded user =
     answer db
       (rbind decoded (\<lambda>input.
        stored None 200 ok_body (ReorderTasks e db (dw_tx d) (uID user) (hr_id r) (riIDs input))))"

subsection \<open>Reading and changing tasks\<close>

definition GetTask_get :: "env \<Rightarrow> db \<Rightarrow> request \<Rightarrow> User \<Rightarrow> response" where
  "GetTask_get e db r user =
     shown BoardTaskBody
       (if uAgentID user \<noteq> [] then GetTaskForAgent e db (uID user) (uAgentID user) (hr_id r) else GetTask e db (uID user) (hr_id r))"

definition ListInbox_get :: "env \<Rightarrow> codec \<Rightarrow> db \<Rightarrow> request \<Rightarrow> User \<Rightarrow> response" where
  "ListInbox_get e c db r user =
     shown (\<lambda>(messages, nextCursor). InboxBody messages nextCursor) (ListInbox e c db (uID user) (TrimSpace (hr_query r ''cursor'')))"

definition ListTaskEntries_get :: "env \<Rightarrow> db \<Rightarrow> request \<Rightarrow> User \<Rightarrow> response" where
  "ListTaskEntries_get e db r user =
     (case validatePathID ''task'' (hr_id r) of
        Inl resp \<Rightarrow> resp
      | Inr _ \<Rightarrow>
          let runID = TrimSpace (hr_query r ''runId'') in
          shown EntriesBody
            (if runID \<noteq> [] then ListTaskEntriesForRun e db (uID user) (uAgentID user) (hr_id r) runID
             else ListTaskEntries e db (uID user) (uAgentID user) (hr_id r)))"

definition CreateTaskEntry_post ::
    "env \<Rightarrow> draws \<Rightarrow> db \<Rightarrow> request \<Rightarrow> (response, CreateTaskEntryInput) result \<Rightarrow> User \<Rightarrow> response \<times> db" where
  "CreateTaskEntry_post e d db r decoded user =
     answer db
       (rbind (validatePathID ''task'' (hr_id r)) (\<lambda>_.
        rbind decoded (\<lambda>input.
        rbind (ByteLimit ''body'' (ceBody input) TaskEntryBytes) (\<lambda>_.
        let input = input\<lparr>ceIdempotencyKey := TrimSpace (hr_idempotency r)\<rparr> in
        rbind (validateTaskIdempotencyKey (ceIdempotencyKey input)) (\<lambda>_.
        let input = (if uAgentID user \<noteq> [] then input\<lparr>ceRunID := TrimSpace (hr_run r)\<rparr> else input) in
        stored None 201 EntryBody
          (CreateTaskEntry e db (dw_tx d) (dw_fresh d) (uID user) (uAgentID user) (uDisplayName user) (hr_id r) input))))))"

text \<open>An update by an agent names the run in the header, one by a person has none.\<close>

definition update_as :: "env \<Rightarrow> draws \<Rightarrow> db \<Rightarrow> request \<Rightarrow> UpdateTaskInput \<Rightarrow> User \<Rightarrow> Task tx" where
  "update_as e d db r input user =
     (if uAgentID user \<noteq> []
      then UpdateTaskForAgent e db (dw_tx d) (uID user) (uAgentID user) (hr_id r) (input\<lparr>uiRunID := TrimSpace (hr_run r)\<rparr>)
      else UpdateTask e db (dw_tx d) (uID user) (hr_id r) input)"

definition UpdateTask_patch ::
    "env \<Rightarrow> draws \<Rightarrow> db \<Rightarrow> request \<Rightarrow> (response, UpdateTaskInput) result \<Rightarrow> User \<Rightarrow> response \<times> db" where
  "UpdateTask_patch e d db r decoded user =
     answer db
       (rbind decoded (\<lambda>input.
        rbind (validateUpdateTaskText input) (\<lambda>_.
        stored None 200 BoardTaskBody (update_as e d db r input user))))"

definition MoveTask_post ::
    "env \<Rightarrow> draws \<Rightarrow> db \<Rightarrow> request \<Rightarrow> (response, MoveTaskInput) result \<Rightarrow> User \<Rightarrow> response \<times> db" where
  "MoveTask_post e d db r decoded user =
     answer db
       (rbind decoded (\<lambda>input.
        stored None 200 BoardTaskBody (MoveTask e db (dw_tx d) (uID user) (hr_id r) input)))"

record statusInput =
  stTitle :: "string option"
  stDescription :: "string option"
  stScheduledDate :: "string option"
  stKind :: "string option"
  stBucketID :: "string option"
  stStatus :: "string option"
  stPriority :: "string option"
  stAssigneeAgentID :: "string option"

definition no_update :: UpdateTaskInput where
  "no_update = \<lparr>uiTitle = None, uiDescription = None, uiScheduledDate = None, uiKind = None, uiBucketID = None, uiStatus = None,
     uiDone = None, uiPriority = None, uiAssigneeAgentID = None, uiSortOrder = None, uiRunID = []\<rparr>"

definition UpdateTaskStatus_patch ::
    "env \<Rightarrow> draws \<Rightarrow> db \<Rightarrow> request \<Rightarrow> (response, statusInput) result \<Rightarrow> User \<Rightarrow> response \<times> db" where
  "UpdateTaskStatus_patch e d db r decoded user =
     answer db
       (rbind decoded (\<lambda>input.
        rbind (require (stStatus input \<noteq> None) (writeError 400 ''status is required'')) (\<lambda>_.
        let update = no_update\<lparr>uiTitle := stTitle input, uiDescription := stDescription input, uiScheduledDate := stScheduledDate input,
              uiKind := stKind input, uiBucketID := stBucketID input, uiStatus := stStatus input, uiPriority := stPriority input,
              uiAssigneeAgentID := stAssigneeAgentID input\<rparr> in
        rbind (validateUpdateTaskText update) (\<lambda>_.
        stored None 200 BoardTaskBody (UpdateTaskForHuman e db (dw_tx d) (uID user) (hr_id r) update)))))"

definition DeleteTask_delete :: "env \<Rightarrow> db \<Rightarrow> request \<Rightarrow> User \<Rightarrow> response \<times> db" where
  "DeleteTask_delete e db r user = answer db (stored None 200 ok_body (DeleteTask e db (uID user) (hr_id r)))"

subsection \<open>The task query\<close>

definition validateTaskFilterLocationIDs :: "TaskFilter \<Rightarrow> (string, unit) result" where
  "validateTaskFilterLocationIDs f =
     (if tfBucketID f \<noteq> [] \<and> \<not> validUUID (tfBucketID f) then Inl ''bucketId must be a valid ID'' else Inr ())"

text \<open>No rune outside ASCII has a lower case among the letters of \<open>true\<close> and \<open>false\<close>.\<close>

definition parseQueryBool :: "string \<Rightarrow> string \<Rightarrow> (string, bool) result" where
  "parseQueryBool name raw =
     (let v = map lower_byte raw in
      if v = ''true'' \<or> v = ''1'' then Inr True
      else if v = ''false'' \<or> v = ''0'' then Inr False
      else Inl (name @ '' must be true or false''))"

text \<open>A parameter that is empty after trimming is absent.\<close>

definition query_text :: "request \<Rightarrow> string \<Rightarrow> string" where
  "query_text r name = TrimSpace (hr_query r name)"

definition query_bool :: "request \<Rightarrow> string \<Rightarrow> (string, bool option) result" where
  "query_bool r name =
     (let raw = query_text r name in
      if raw = [] then Inr None else rbind (parseQueryBool name raw) (\<lambda>b. Inr (Some b)))"

definition query_filter :: "request \<Rightarrow> TaskFilter" where
  "query_filter r =
     \<lparr>tfBucketID = query_text r ''bucketId'', tfStatus = query_text r ''status'', tfDone = None, tfPriority = query_text r ''priority'',
      tfSort = query_text r ''sort'', tfLimit = 0, tfCursor = query_text r ''cursor'', tfActionsOnly = False, tfAssigneeAgentID = [],
      tfUnassigned = False, tfQuery = query_text r ''q'', tfScheduledFrom = query_text r ''plannedFrom'',
      tfScheduledTo = query_text r ''plannedTo'', tfParentTaskID = query_text r ''parentTaskId'', tfTopLevelOnly = False,
      tfInboxOnly = False, tfAgentQueue = False\<rparr>"

definition date_ok :: "string \<Rightarrow> bool" where
  "date_ok v \<longleftrightarrow> v = [] \<or> (case validDate v of Inl _ \<Rightarrow> False | Inr _ \<Rightarrow> True)"

definition query_limit :: "request \<Rightarrow> (string, int) result" where
  "query_limit r =
     (let raw = query_text r ''limit''; refused = Inl ''limit must be a positive integer'' in
      if raw = [] then Inr 0
      else (case Atoi raw of None \<Rightarrow> refused | Some limit \<Rightarrow> if limit < 1 then refused else Inr limit))"

definition taskFilterFromQuery :: "request \<Rightarrow> (string, TaskFilter) result" where
  "taskFilterFromQuery r =
     (let f = query_filter r in
      rbind (require (tfSort f = [] \<or> tfSort f = ''priority'' \<or> tfSort f = ''list'' \<or> tfSort f = ''list_priority'')
               ''sort must be priority, list, or list_priority'') (\<lambda>_.
      rbind (query_bool r ''done'') (\<lambda>completed.
      let f = f\<lparr>tfDone := completed, tfStatus := (if tfStatus f = [] \<and> completed = Some True then StatusDone else tfStatus f)\<rparr> in
      rbind (validateTaskFilterLocationIDs f) (\<lambda>_.
      let assignee = query_text r ''assigneeAgentId'';
          f = (if assignee = ''unassigned'' then f\<lparr>tfUnassigned := True\<rparr> else f\<lparr>tfAssigneeAgentID := assignee\<rparr>) in
      rbind (require (tfAssigneeAgentID f = [] \<or> validUUID (tfAssigneeAgentID f)) ''assigneeAgentId must be a valid ID'') (\<lambda>_.
      rbind (require (tfParentTaskID f = [] \<or> validUUID (tfParentTaskID f)) ''parentTaskId must be a valid ID'') (\<lambda>_.
      rbind (require (date_ok (tfScheduledFrom f)) ''plannedFrom must be YYYY-MM-DD'') (\<lambda>_.
      rbind (require (date_ok (tfScheduledTo f)) ''plannedTo must be YYYY-MM-DD'') (\<lambda>_.
      rbind (query_bool r ''topLevel'') (\<lambda>topLevel.
      rbind (query_bool r ''inbox'') (\<lambda>inboxOnly.
      rbind (query_limit r) (\<lambda>limit.
      Inr (f\<lparr>tfTopLevelOnly := (topLevel = Some True), tfInboxOnly := (inboxOnly = Some True), tfLimit := limit\<rparr>))))))))))))"

definition task_page :: "env \<Rightarrow> codec \<Rightarrow> db \<Rightarrow> TaskFilter \<Rightarrow> User \<Rightarrow> response" where
  "task_page e c db f user =
     (case ListTaskPage e c db (uID user) f of
        Inr page \<Rightarrow> writeJSON 200 (PageBody page)
      | Inl (ErrInvalidData message) \<Rightarrow> writeError 400 (error_text (ErrInvalidData message))
      | Inl _ \<Rightarrow> writeInternalError ''tasks could not be loaded'')"

definition ListTasks_get :: "env \<Rightarrow> codec \<Rightarrow> db \<Rightarrow> request \<Rightarrow> User \<Rightarrow> response" where
  "ListTasks_get e c db r user =
     (case taskFilterFromQuery r of
        Inl message \<Rightarrow> writeError 400 message
      | Inr f \<Rightarrow> task_page e c db
          (if uAgentID user \<noteq> [] then f\<lparr>tfAssigneeAgentID := uAgentID user, tfUnassigned := False\<rparr> else f) user)"

definition AgentTasks_get :: "env \<Rightarrow> codec \<Rightarrow> db \<Rightarrow> request \<Rightarrow> User \<Rightarrow> response" where
  "AgentTasks_get e c db r user =
     (case taskFilterFromQuery r of
        Inl message \<Rightarrow> writeError 400 message
      | Inr f \<Rightarrow>
          let f = (if tfStatus f = [] then f\<lparr>tfStatus := StatusQueued\<rparr> else f);
              f = f\<lparr>tfActionsOnly := True, tfAgentQueue := (tfStatus f = StatusQueued)\<rparr>;
              f = (if uAgentID user \<noteq> [] then f\<lparr>tfAssigneeAgentID := uAgentID user\<rparr> else f) in
          task_page e c db f user)"

subsection \<open>What workers call\<close>

definition claim_as :: "env \<Rightarrow> draws \<Rightarrow> db \<Rightarrow> request \<Rightarrow> User \<Rightarrow> Task tx" where
  "claim_as e d db r user =
     (if uAgentID user \<noteq> [] then
        let runID = TrimSpace (hr_run r) in
        if runID \<noteq> [] then ClaimTaskForManagedRun e db (dw_tx d) (uID user) (uAgentID user) (hr_id r) runID
        else ClaimTaskForAgent e db (dw_tx d) (uID user) (uAgentID user) (hr_id r)
      else ClaimTask e db (dw_tx d) (uID user) (hr_id r))"

definition AgentClaim_post :: "env \<Rightarrow> draws \<Rightarrow> db \<Rightarrow> request \<Rightarrow> User \<Rightarrow> response \<times> db" where
  "AgentClaim_post e d db r user = answer db (stored None 200 BoardTaskBody (claim_as e d db r user))"

definition AgentStatus_patch :: "env \<Rightarrow> draws \<Rightarrow> db \<Rightarrow> request \<Rightarrow> (response, string) result \<Rightarrow> User \<Rightarrow> response \<times> db" where
  "AgentStatus_patch e d db r decoded user =
     answer db
       (rbind decoded (\<lambda>status.
        stored None 200 BoardTaskBody (update_as e d db r (no_update\<lparr>uiStatus := Some status\<rparr>) user)))"

definition AgentDone_post :: "env \<Rightarrow> draws \<Rightarrow> db \<Rightarrow> request \<Rightarrow> User \<Rightarrow> response \<times> db" where
  "AgentDone_post e d db r user =
     answer db (stored None 200 BoardTaskBody (update_as e d db r (no_update\<lparr>uiStatus := Some StatusDone\<rparr>) user))"

end
