(* ===== verification/Routes.thy ===== *)
theory Routes
  imports Static AgentHandlers BoardHandlers
begin

section \<open>The routes of the server (server/app.go)\<close>

text \<open>
  The route table as data, the choice of a route as \<open>http.ServeMux\<close> makes it, and \<open>serve\<close>,
  which answers one request: it is the whole server as a function of its state. Paths come to the
  handlers in the form into which the mux redirects every other.
\<close>

subsection \<open>The server and one call\<close>

record world =
  wl_app :: App
  wl_service :: Service
  wl_lib :: library
  wl_env :: env
  wl_codec :: codec

text \<open>What \<open>DecodeJSON\<close> makes of the body for each type of input: the value, or the response.\<close>

record bodies =
  in_credentials :: "(response, credentialsInput) result"
  in_signup :: "(response, signupInput) result"
  in_reset_request :: "(response, string) result"
  in_reset :: "(response, resetInput) result"
  in_profile :: "(response, profileInput) result"
  in_token :: "(response, string) result"
  in_agent :: "(response, agentInput) result"
  in_rotation :: "(response, string) result"
  in_new_list :: "(response, CreateBucketInput) result"
  in_edit_list :: "(response, UpdateBucketInput) result"
  in_order :: "(response, reorderInput) result"
  in_new_task :: "(response, CreateTaskInput) result"
  in_entry :: "(response, CreateTaskEntryInput) result"
  in_edit_task :: "(response, UpdateTaskInput) result"
  in_move :: "(response, MoveTaskInput) result"
  in_task_status :: "(response, statusInput) result"
  in_agent_status :: "(response, string) result"

record call =
  cl_bodies :: bodies
  cl_draws :: draws
  cl_readings :: readings

subsection \<open>Endpoints\<close>

datatype open_endpoint =
    Health | MyAccount | SignIn | SignUp | SignOut | AskReset | ConfirmReset | EarlyAccess | EarlyAccessTree | ResetPage

datatype user_endpoint =
    UpdateMe | APITokens | NewAPIToken | DropAPIToken
  | Agents | NewAgent | AgentDetail | EditAgent | AgentWork | RotateAgent | RevokeAgent | DropAgent
  | Lists | Inbox | NewList | ReorderLists | OneList | EditList | DropList | NewListTask | ReorderListTasks
  | AllTasks | NewInboxTask | OneTask | TaskEntries | NewTaskEntry | Subtasks | NewSubtask | ReorderTaskSubtasks
  | EditTask | PlaceTask | SetTaskStatus | DropTask | Summary
  | QueuedTasks | ClaimQueued | SetAgentStatus | FinishTask

datatype guard = SessionOnly | AnyUser | AccountRead | Person | AccountManage

datatype target = Open open_endpoint | Guarded guard user_endpoint

datatype segment = Lit string | ID | Rest

definition api :: "segment list \<Rightarrow> segment list" where
  "api parts = Lit ''api'' # Lit ''v1'' # parts"

definition Routes :: "(string \<times> segment list \<times> target) list" where
  "Routes =
     [(''GET'', [Lit ''api'', Lit ''health''], Open Health),
      (''GET'', api [Lit ''me''], Open MyAccount),
      (''PATCH'', api [Lit ''me''], Guarded SessionOnly UpdateMe),
      (''POST'', api [Lit ''auth'', Lit ''login''], Open SignIn),
      (''POST'', api [Lit ''auth'', Lit ''register''], Open SignUp),
      (''POST'', api [Lit ''auth'', Lit ''logout''], Open SignOut),
      (''POST'', api [Lit ''auth'', Lit ''password-reset'', Lit ''request''], Open AskReset),
      (''POST'', api [Lit ''auth'', Lit ''password-reset'', Lit ''confirm''], Open ConfirmReset),
      (''GET'', api [Lit ''api-tokens''], Guarded SessionOnly APITokens),
      (''POST'', api [Lit ''api-tokens''], Guarded SessionOnly NewAPIToken),
      (''DELETE'', api [Lit ''api-tokens'', ID], Guarded SessionOnly DropAPIToken),
      (''GET'', api [Lit ''agents''], Guarded SessionOnly Agents),
      (''POST'', api [Lit ''agents''], Guarded SessionOnly NewAgent),
      (''GET'', api [Lit ''agents'', ID], Guarded SessionOnly AgentDetail),
      (''PATCH'', api [Lit ''agents'', ID], Guarded SessionOnly EditAgent),
      (''GET'', api [Lit ''agents'', ID, Lit ''work''], Guarded SessionOnly AgentWork),
      (''POST'', api [Lit ''agents'', ID, Lit ''credential'', Lit ''rotate''], Guarded SessionOnly RotateAgent),
      (''DELETE'', api [Lit ''agents'', ID, Lit ''credential''], Guarded SessionOnly RevokeAgent),
      (''DELETE'', api [Lit ''agents'', ID, Lit ''token''], Guarded SessionOnly RevokeAgent),
      (''DELETE'', api [Lit ''agents'', ID], Guarded SessionOnly DropAgent),
      (''GET'', api [Lit ''lists''], Guarded AccountRead Lists),
      (''GET'', api [Lit ''inbox''], Guarded Person Inbox),
      (''POST'', api [Lit ''lists''], Guarded AccountManage NewList),
      (''POST'', api [Lit ''lists'', Lit ''reorder''], Guarded AccountManage ReorderLists),
      (''GET'', api [Lit ''lists'', ID], Guarded AccountRead OneList),
      (''PATCH'', api [Lit ''lists'', ID], Guarded AccountManage EditList),
      (''DELETE'', api [Lit ''lists'', ID], Guarded AccountManage DropList),
      (''POST'', api [Lit ''lists'', ID, Lit ''tasks''], Guarded AccountManage NewListTask),
      (''POST'', api [Lit ''lists'', ID, Lit ''reorder-tasks''], Guarded AccountManage ReorderListTasks),
      (''GET'', api [Lit ''tasks''], Guarded AnyUser AllTasks),
      (''POST'', api [Lit ''tasks''], Guarded AccountManage NewInboxTask),
      (''GET'', api [Lit ''tasks'', ID], Guarded AnyUser OneTask),
      (''GET'', api [Lit ''tasks'', ID, Lit ''entries''], Guarded AnyUser TaskEntries),
      (''POST'', api [Lit ''tasks'', ID, Lit ''entries''], Guarded AnyUser NewTaskEntry),
      (''GET'', api [Lit ''tasks'', ID, Lit ''subtasks''], Guarded Person Subtasks),
      (''POST'', api [Lit ''tasks'', ID, Lit ''subtasks''], Guarded AccountManage NewSubtask),
      (''POST'', api [Lit ''tasks'', ID, Lit ''reorder-subtasks''], Guarded AccountManage ReorderTaskSubtasks),
      (''PATCH'', api [Lit ''tasks'', ID], Guarded AnyUser EditTask),
      (''POST'', api [Lit ''tasks'', ID, Lit ''move''], Guarded AccountManage PlaceTask),
      (''PATCH'', api [Lit ''tasks'', ID, Lit ''status''], Guarded SessionOnly SetTaskStatus),
      (''DELETE'', api [Lit ''tasks'', ID], Guarded AccountManage DropTask),
      (''GET'', api [Lit ''stats'', Lit ''summary''], Guarded AnyUser Summary),
      (''GET'', api [Lit ''agent'', Lit ''tasks''], Guarded AnyUser QueuedTasks),
      (''POST'', api [Lit ''agent'', Lit ''tasks'', ID, Lit ''claim''], Guarded AnyUser ClaimQueued),
      (''PATCH'', api [Lit ''agent'', Lit ''tasks'', ID, Lit ''status''], Guarded AnyUser SetAgentStatus),
      (''POST'', api [Lit ''agent'', Lit ''tasks'', ID, Lit ''done''], Guarded AnyUser FinishTask),
      (''GET'', [Lit ''early-access''], Open EarlyAccess),
      (''GET'', [Lit ''early-access'', Rest], Open EarlyAccessTree),
      (''GET'', [Lit ''reset-password''], Open ResetPage)]"

subsection \<open>Choosing a route\<close>

text \<open>The value of \<open>{id}\<close>, empty if the pattern has none. A part of the path that is empty is no identifier.\<close>

fun match_path :: "segment list \<Rightarrow> string list \<Rightarrow> string \<Rightarrow> string option" where
  "match_path [] [] i = Some i"
| "match_path [Rest] (p # ps) i = Some i"
| "match_path (Lit s # pattern) (p # ps) i = (if p = s then match_path pattern ps i else None)"
| "match_path (ID # pattern) (p # ps) i = (if p \<noteq> [] then match_path pattern ps p else None)"
| "match_path _ _ i = None"

definition match_method :: "string \<Rightarrow> string \<Rightarrow> bool" where
  "match_method m method \<longleftrightarrow> m = method \<or> (m = ''GET'' \<and> method = ''HEAD'')"

fun find_route :: "(string \<times> segment list \<times> target) list \<Rightarrow> request \<Rightarrow> (target \<times> string) option" where
  "find_route [] r = None"
| "find_route ((m, pattern, t) # rest) r =
     (case (if match_method m (hr_method r) then match_path pattern (hr_path r) [] else None) of
        Some i \<Rightarrow> Some (t, i)
      | None \<Rightarrow> find_route rest r)"

subsection \<open>Serving a request\<close>

definition on_board :: "(db \<Rightarrow> response \<times> db) \<Rightarrow> server \<Rightarrow> response \<times> server" where
  "on_board h sv = on_auth (\<lambda>adb. case h (store adb) of (resp, db) \<Rightarrow> (resp, adb\<lparr>store := db\<rparr>)) sv"

definition only_read :: "(auth_db \<Rightarrow> response) \<Rightarrow> server \<Rightarrow> response \<times> server" where
  "only_read h sv = (h (sv_auth sv), sv)"

definition health :: "App \<Rightarrow> response" where
  "health a =
     (if \<not> ap_ready a then writeJSON 200 (HealthBody ''not_configured'' 0 0)
      else if \<not> ap_ping a then writeCodedError 503 ''service_unavailable'' ''Database capacity is temporarily unavailable.''
      else writeJSON 200 (HealthBody ''ok'' (fst (ap_connections a)) (snd (ap_connections a))))"

definition earlyAccess :: "App \<Rightarrow> Service \<Rightarrow> request \<Rightarrow> response" where
  "earlyAccess a s r = (if \<not> ap_ready a \<or> \<not> SignupEnabled s then not_found else serveFile a r ''index.html'')"

definition resetPasswordPage :: "App \<Rightarrow> request \<Rightarrow> response" where
  "resetPasswordPage a r = serveFile a r ''index.html''"

fun serve_open :: "world \<Rightarrow> call \<Rightarrow> open_endpoint \<Rightarrow> server \<Rightarrow> request \<Rightarrow> response \<times> server" where
  "serve_open w c Health sv r = (health (wl_app w), sv)"
| "serve_open w c MyAccount sv r = app_me (wl_lib w) (wl_app w) (cl_readings c) sv r"
| "serve_open w c SignIn sv r = publicAuth (wl_lib w) (wl_app w) (cl_readings c)
     (app_login (wl_lib w) (wl_app w) (cl_draws c) r (in_credentials (cl_bodies c))) sv r"
| "serve_open w c SignUp sv r = publicAuth (wl_lib w) (wl_app w) (cl_readings c)
     (app_register (wl_lib w) (wl_app w) (wl_service w) (cl_draws c) r (in_signup (cl_bodies c))) sv r"
| "serve_open w c SignOut sv r = app_logout (wl_lib w) (wl_app w) r sv"
| "serve_open w c AskReset sv r = publicAuth (wl_lib w) (wl_app w) (cl_readings c)
     (app_requestPasswordReset (wl_lib w) (wl_app w) (wl_service w) (cl_draws c) r (in_reset_request (cl_bodies c))) sv r"
| "serve_open w c ConfirmReset sv r = publicAuth (wl_lib w) (wl_app w) (cl_readings c)
     (app_resetPassword (wl_lib w) (wl_app w) (cl_draws c) r (in_reset (cl_bodies c))) sv r"
| "serve_open w c EarlyAccess sv r = (earlyAccess (wl_app w) (wl_service w) r, sv)"
| "serve_open w c EarlyAccessTree sv r =
     (if hr_path r \<noteq> [''early-access'', []] then not_found else earlyAccess (wl_app w) (wl_service w) r, sv)"
| "serve_open w c ResetPage sv r = (resetPasswordPage (wl_app w) r, sv)"

fun serve_account :: "world \<Rightarrow> call \<Rightarrow> user_endpoint \<Rightarrow> request \<Rightarrow> handler option" where
  "serve_account w c UpdateMe r = Some (\<lambda>user. on_auth (\<lambda>adb. UpdateTheme_patch (wl_lib w) adb r (in_profile (cl_bodies c)) user))"
| "serve_account w c APITokens r = Some (\<lambda>user. only_read (\<lambda>adb. ListAPITokens_get adb user))"
| "serve_account w c NewAPIToken r =
     Some (\<lambda>user. on_auth (\<lambda>adb. CreateAPIToken_post (wl_lib w) (cl_draws c) adb r (in_token (cl_bodies c)) user))"
| "serve_account w c DropAPIToken r = Some (\<lambda>user. on_auth (\<lambda>adb. RevokeAPIToken_delete (wl_lib w) (wl_env w) (cl_draws c) adb r user))"
| "serve_account w c Agents r = Some (\<lambda>user. only_read (\<lambda>adb. ListAgents_get (wl_env w) adb user))"
| "serve_account w c NewAgent r =
     Some (\<lambda>user. on_auth (\<lambda>adb. CreateAgent_post (wl_lib w) (wl_env w) (cl_draws c) adb r (in_agent (cl_bodies c)) user))"
| "serve_account w c AgentDetail r = Some (\<lambda>user. only_read (\<lambda>adb. GetDetail_get adb r user))"
| "serve_account w c EditAgent r =
     Some (\<lambda>user. on_auth (\<lambda>adb. Update_patch (wl_lib w) (wl_env w) (cl_draws c) adb r (in_agent (cl_bodies c)) user))"
| "serve_account w c AgentWork r =
     Some (\<lambda>user. only_read (\<lambda>adb. ListWork_get adb r (hr_query r ''page'') (hr_query r ''pageSize'') user))"
| "serve_account w c RotateAgent r =
     Some (\<lambda>user. on_auth (\<lambda>adb. RotateCredential_post (wl_lib w) (cl_draws c) adb r (in_rotation (cl_bodies c)) user))"
| "serve_account w c RevokeAgent r = Some (\<lambda>user. on_auth (\<lambda>adb. RevokeCredential_delete (wl_lib w) (cl_draws c) adb r user))"
| "serve_account w c DropAgent r = Some (\<lambda>user. on_auth (\<lambda>adb. DeleteAgent_delete (wl_lib w) (wl_env w) adb r user))"
| "serve_account w c _ r = None"

fun serve_board :: "world \<Rightarrow> call \<Rightarrow> user_endpoint \<Rightarrow> request \<Rightarrow> User \<Rightarrow> db \<Rightarrow> response \<times> db" where
  "serve_board w c Lists r user db = (ListAllBuckets_get db user, db)"
| "serve_board w c Inbox r user db = (ListInbox_get (wl_env w) (wl_codec w) db r user, db)"
| "serve_board w c NewList r user db = CreateBucket_post (cl_draws c) db (in_new_list (cl_bodies c)) user"
| "serve_board w c ReorderLists r user db = ReorderBuckets_post (cl_draws c) db (in_order (cl_bodies c)) user"
| "serve_board w c OneList r user db = (GetBucket_get (wl_env w) (wl_codec w) db r user, db)"
| "serve_board w c EditList r user db = UpdateBucket_patch (wl_env w) (cl_draws c) db r (in_edit_list (cl_bodies c)) user"
| "serve_board w c DropList r user db = DeleteBucket_delete (wl_env w) db r user"
| "serve_board w c NewListTask r user db = CreateTask_post (wl_env w) (cl_draws c) db r (in_new_task (cl_bodies c)) user"
| "serve_board w c ReorderListTasks r user db = ReorderTasks_post (wl_env w) (cl_draws c) db r (in_order (cl_bodies c)) user"
| "serve_board w c AllTasks r user db = (ListTasks_get (wl_env w) (wl_codec w) db r user, db)"
| "serve_board w c NewInboxTask r user db = CreateInboxTask_post (wl_env w) (cl_draws c) db r (in_new_task (cl_bodies c)) user"
| "serve_board w c OneTask r user db = (GetTask_get (wl_env w) db r user, db)"
| "serve_board w c TaskEntries r user db = (ListTaskEntries_get (wl_env w) db r user, db)"
| "serve_board w c NewTaskEntry r user db = CreateTaskEntry_post (wl_env w) (cl_draws c) db r (in_entry (cl_bodies c)) user"
| "serve_board w c Subtasks r user db = (ListSubtasks_get (wl_env w) db r user, db)"
| "serve_board w c NewSubtask r user db = CreateSubtask_post (wl_env w) (cl_draws c) db r (in_new_task (cl_bodies c)) user"
| "serve_board w c ReorderTaskSubtasks r user db = ReorderSubtasks_post (wl_env w) (cl_draws c) db r (in_order (cl_bodies c)) user"
| "serve_board w c EditTask r user db = UpdateTask_patch (wl_env w) (cl_draws c) db r (in_edit_task (cl_bodies c)) user"
| "serve_board w c PlaceTask r user db = MoveTask_post (wl_env w) (cl_draws c) db r (in_move (cl_bodies c)) user"
| "serve_board w c SetTaskStatus r user db = UpdateTaskStatus_patch (wl_env w) (cl_draws c) db r (in_task_status (cl_bodies c)) user"
| "serve_board w c DropTask r user db = DeleteTask_delete (wl_env w) db r user"
| "serve_board w c Summary r user db = (GetWorkspaceSummary_get (cl_draws c) db user, db)"
| "serve_board w c QueuedTasks r user db = (AgentTasks_get (wl_env w) (wl_codec w) db r user, db)"
| "serve_board w c ClaimQueued r user db = AgentClaim_post (wl_env w) (cl_draws c) db r user"
| "serve_board w c SetAgentStatus r user db = AgentStatus_patch (wl_env w) (cl_draws c) db r (in_agent_status (cl_bodies c)) user"
| "serve_board w c FinishTask r user db = AgentDone_post (wl_env w) (cl_draws c) db r user"
| "serve_board w c _ r user db = (not_found, db)"

definition user_handler :: "world \<Rightarrow> call \<Rightarrow> user_endpoint \<Rightarrow> request \<Rightarrow> handler" where
  "user_handler w c u r =
     (case serve_account w c u r of Some h \<Rightarrow> h | None \<Rightarrow> \<lambda>user. on_board (serve_board w c u r user))"

fun guard_with :: "guard \<Rightarrow> library \<Rightarrow> App \<Rightarrow> readings \<Rightarrow> handler \<Rightarrow> server \<Rightarrow> request \<Rightarrow> response \<times> server" where
  "guard_with SessionOnly = session_user"
| "guard_with AnyUser = any_user"
| "guard_with AccountRead = accountRead"
| "guard_with Person = person"
| "guard_with AccountManage = accountManage"

definition serve :: "world \<Rightarrow> call \<Rightarrow> server \<Rightarrow> request \<Rightarrow> response \<times> server" where
  "serve w c sv r0 =
     (case find_route Routes r0 of
        None \<Rightarrow> (StaticHandler (wl_app w) r0, sv)
      | Some (t, i) \<Rightarrow>
          let r = r0\<lparr>hr_id := i\<rparr> in
          (case t of
             Open p \<Rightarrow> serve_open w c p sv r
           | Guarded g u \<Rightarrow> guard_with g (wl_lib w) (wl_app w) (cl_readings c) (user_handler w c u r) sv r))"

subsection \<open>The table is unambiguous\<close>

text \<open>No path matches two patterns of one method, so the order of the table does not matter.\<close>

fun overlap :: "segment list \<Rightarrow> segment list \<Rightarrow> bool" where
  "overlap [] [] \<longleftrightarrow> True"
| "overlap [] (x # xs) \<longleftrightarrow> False"
| "overlap (x # xs) [] \<longleftrightarrow> False"
| "overlap (Lit s # xs) (Lit t # ys) \<longleftrightarrow> s = t \<and> overlap xs ys"
| "overlap (Rest # xs) (y # ys) \<longleftrightarrow> True"
| "overlap (x # xs) (Rest # ys) \<longleftrightarrow> True"
| "overlap (x # xs) (y # ys) \<longleftrightarrow> overlap xs ys"

fun unambiguous :: "(string \<times> segment list \<times> target) list \<Rightarrow> bool" where
  "unambiguous [] \<longleftrightarrow> True"
| "unambiguous ((m, pattern, t) # rest) \<longleftrightarrow> (\<forall>(m', pattern', t') \<in> set rest. m \<noteq> m' \<or> \<not> overlap pattern pattern') \<and> unambiguous rest"

lemma match_overlap:
  "match_path xs p i = Some a \<Longrightarrow> match_path ys p j = Some b \<Longrightarrow> overlap xs ys"
  by (induction xs ys arbitrary: p i j rule: overlap.induct)
    (auto elim!: match_path.elims split: if_splits)

lemma find_route_in: "find_route rs r = Some (t, i) \<Longrightarrow>
    \<exists>(m, pattern, t') \<in> set rs. t' = t \<and> match_method m (hr_method r) \<and> match_path pattern (hr_path r) [] = Some i"
  by (induction rs) (auto split: if_splits option.splits)

lemma find_route_unique:
  assumes "unambiguous rs" "\<forall>(m, pattern, t) \<in> set rs. m \<noteq> ''HEAD''"
    and "(m, pattern, t) \<in> set rs" "match_method m (hr_method r)" "match_path pattern (hr_path r) [] = Some i"
  shows "find_route rs r = Some (t, i)"
  using assms
proof (induction rs)
  case (Cons entry rs)
  obtain m' pattern' t' where entry: "entry = (m', pattern', t')" by (cases entry)
  have same: "m = m'" if "match_method m' (hr_method r)"
    using that Cons.prems(2-4) by (auto simp: entry match_method_def)
  show ?case
  proof (cases "(m, pattern, t) = entry")
    case True
    then show ?thesis using Cons.prems(4,5) by (auto simp: entry)
  next
    case False
    then have in_rs: "(m, pattern, t) \<in> set rs" using Cons.prems(3) by auto
    then have "m' \<noteq> m \<or> \<not> overlap pattern' pattern" using Cons.prems(1) by (auto simp: entry)
    then have "\<not> match_method m' (hr_method r) \<or> match_path pattern' (hr_path r) [] = None"
      using same match_overlap [OF _ Cons.prems(5), of pattern' "[]"] by (cases "match_path pattern' (hr_path r) []") auto
    then show ?thesis using Cons.IH [OF _ _ in_rs Cons.prems(4,5)] Cons.prems(1,2) by (auto simp: entry split: option.splits)
  qed
qed simp

lemma Routes_unambiguous: "unambiguous Routes"
  by code_simp

end
