(* ===== verification/CommandRules.thy ===== *)
theory CommandRules
  imports CommandLine Routes
begin

section \<open>What the client's commands reach\<close>

text \<open>
  The client and the server are two programs that agree on paths only by convention. The section
  shows that every request of the client arrives at the endpoint its command names, with the
  identifier the user typed, whatever bytes it contains; that an error shown to the user does not
  contain the token; and what an entry command sends.
\<close>

subsection \<open>From the text of a path to the server's view of it\<close>

text \<open>The parts of an escaped path, each unescaped, as the server's mux sees them.\<close>

definition path_parts :: "string \<Rightarrow> string list" where
  "path_parts text =
     map (\<lambda>p. case PathUnescape p of Some s \<Rightarrow> s | None \<Rightarrow> p) (split_on (CHR ''/'') (tl (takeWhile (\<lambda>c. c \<noteq> CHR ''?'') text)))"

definition path_text :: "string list \<Rightarrow> string" where
  "path_text segs = concat (map (\<lambda>s. CHR ''/'' # PathEscape s) segs)"

lemma split_on_free: "c \<notin> set s \<Longrightarrow> split_on c s = [s]"
  by (induction s) auto

lemma split_on_append: "c \<notin> set s \<Longrightarrow> split_on c (s @ c # t) = s # split_on c t"
  by (induction s) auto

lemma split_on_path: "split_on (CHR ''/'') (PathEscape s @ path_text segs) = PathEscape s # map PathEscape segs"
proof (induction segs arbitrary: s)
  case Nil
  then show ?case using PathEscape_bytes [of _ s] by (auto simp: path_text_def intro!: split_on_free)
next
  case (Cons a segs)
  have "CHR ''/'' \<notin> set (PathEscape s)" using PathEscape_bytes by blast
  then show ?case using split_on_append [of "CHR ''/''" "PathEscape s"] Cons [of a] by (simp add: path_text_def)
qed

lemma no_query_in_path: "CHR ''?'' \<notin> set (path_text segs)"
  using PathEscape_bytes by (induction segs) (auto simp: path_text_def)

lemma path_parts_text:
  assumes "segs \<noteq> []"
  shows "path_parts (path_text segs) = segs" "path_parts (path_text segs @ CHR ''?'' # q) = segs"
proof -
  obtain s rest where segs: "segs = s # rest" using assms by (cases segs) auto
  have tail: "tl (path_text segs) = PathEscape s @ path_text rest" by (simp add: segs path_text_def)
  have parts: "map (\<lambda>p. case PathUnescape p of Some s \<Rightarrow> s | None \<Rightarrow> p) (split_on (CHR ''/'') (tl (path_text segs))) = segs"
    unfolding tail split_on_path by (simp add: PathUnescape_Escape comp_def segs)
  have cut: "takeWhile (\<lambda>c. c \<noteq> CHR ''?'') (path_text segs) = path_text segs"
    "takeWhile (\<lambda>c. c \<noteq> CHR ''?'') (path_text segs @ CHR ''?'' # q) = path_text segs"
    using no_query_in_path [of segs] takeWhile_tail [of "\<lambda>c. c \<noteq> CHR ''?''" "CHR ''?''"] by (auto simp: takeWhile_eq_all_conv)
  show "path_parts (path_text segs) = segs" "path_parts (path_text segs @ CHR ''?'' # q) = segs"
    unfolding path_parts_def cut by (rule parts)+
qed

text \<open>The paths that the commands write, as escaped parts.\<close>

lemma literal_paths:
  "''/api/v1/me'' = path_text [''api'', ''v1'', ''me'']"
  "''/api/v1/lists'' = path_text [''api'', ''v1'', ''lists'']"
  "''/api/v1/lists/reorder'' = path_text [''api'', ''v1'', ''lists'', ''reorder'']"
  "''/api/v1/tasks'' = path_text [''api'', ''v1'', ''tasks'']"
  "''/api/v1/agent/tasks'' = path_text [''api'', ''v1'', ''agent'', ''tasks'']"
  by code_simp+

lemma identified_paths:
  "''/api/v1/lists/'' @ PathEscape i = path_text [''api'', ''v1'', ''lists'', i]"
  "''/api/v1/tasks/'' @ PathEscape i = path_text [''api'', ''v1'', ''tasks'', i]"
  "''/api/v1/lists/'' @ PathEscape i @ ''/tasks'' = path_text [''api'', ''v1'', ''lists'', i, ''tasks'']"
  "''/api/v1/lists/'' @ PathEscape i @ ''/reorder-tasks'' = path_text [''api'', ''v1'', ''lists'', i, ''reorder-tasks'']"
  "''/api/v1/tasks/'' @ PathEscape i @ ''/subtasks'' = path_text [''api'', ''v1'', ''tasks'', i, ''subtasks'']"
  "''/api/v1/tasks/'' @ PathEscape i @ ''/entries'' = path_text [''api'', ''v1'', ''tasks'', i, ''entries'']"
  "''/api/v1/agent/tasks/'' @ PathEscape i @ ''/claim'' = path_text [''api'', ''v1'', ''agent'', ''tasks'', i, ''claim'']"
  "''/api/v1/agent/tasks/'' @ PathEscape i @ ''/status'' = path_text [''api'', ''v1'', ''agent'', ''tasks'', i, ''status'']"
  by (simp_all add: path_text_def unreserved_def digit_def less_eq_char_def)

subsection \<open>The endpoint a command names\<close>

text \<open>
  The specification: the command words, and for some commands the flags, determine the endpoint
  and the identifier. It knows nothing of paths and methods.
\<close>

definition flags_of :: "(string \<times> flag_kind) list \<Rightarrow> string list \<Rightarrow> assigned" where
  "flags_of defs args = (case Parse defs args of Inr (vs, _) \<Rightarrow> vs | Inl _ \<Rightarrow> [])"

definition created_in :: "string list \<Rightarrow> target \<times> string option" where
  "created_in rest =
     (let vs = flags_of tasks_create_flags rest;
          listID = firstNonEmpty [text_flag vs ''list'', text_flag vs ''bucket'']; parent = TrimSpace (text_flag vs ''parent'') in
      if listID \<noteq> [] then (Guarded AccountManage NewListTask, Some listID)
      else if parent \<noteq> [] then (Guarded AccountManage NewSubtask, Some parent)
      else (Guarded AccountManage NewInboxTask, None))"

definition lists_target :: "string \<Rightarrow> string list \<Rightarrow> target \<times> string option" where
  "lists_target sub rest =
     (if sub = ''list'' then (Guarded AccountRead Lists, None)
      else if sub = ''get'' then (Guarded AccountRead OneList, Some (hd rest))
      else if sub = ''create'' then (Guarded AccountManage NewList, None)
      else if sub = ''update'' then (Guarded AccountManage EditList, Some (hd rest))
      else if sub = ''delete'' then (Guarded AccountManage DropList, Some (hd rest))
      else (Guarded AccountManage ReorderLists, None))"

definition tasks_target :: "terminal \<Rightarrow> string \<Rightarrow> string list \<Rightarrow> target \<times> string option" where
  "tasks_target t sub rest =
     (if sub = ''list'' then (Guarded AnyUser AllTasks, None)
      else if sub = ''pull'' then (Guarded AnyUser QueuedTasks, None)
      else if sub = ''get'' then (Guarded AnyUser OneTask, Some (hd rest))
      else if sub = ''create'' then created_in rest
      else if sub = ''update'' then (Guarded AnyUser EditTask, Some (hd rest))
      else if sub = ''delete'' then (Guarded AccountManage DropTask, Some (hd rest))
      else if sub = ''reorder'' then
        (Guarded AccountManage ReorderListTasks, Some (text_flag (flags_of [(''list'', TextFlag)] rest) ''list''))
      else if sub = ''claim'' then (Guarded AnyUser ClaimQueued, Some (hd rest))
      else if sub = ''entries'' then (Guarded AnyUser TaskEntries, Some (hd rest))
      else if sub = ''status'' then
        (if rest ! 1 = ''working'' \<and> cli_env t ''SLATE_RUN_ID'' [] = [] then (Guarded AnyUser ClaimQueued, Some (hd rest))
         else (Guarded AnyUser SetAgentStatus, Some (hd rest)))
      else (Guarded AnyUser NewTaskEntry, Some (hd rest)))"

definition command_target :: "terminal \<Rightarrow> string list \<Rightarrow> target \<times> string option" where
  "command_target t args =
     (if args ! 1 = ''auth'' then (Open MyAccount, None)
      else if args ! 1 = ''tasks'' then tasks_target t (args ! 2) (drop 3 args)
      else lists_target (args ! 2) (drop 3 args))"

text \<open>An identifier that is a part of a path of its own: the mux rewrites a path with empty parts or dots.\<close>

definition plain_part :: "string \<Rightarrow> bool" where
  "plain_part i \<longleftrightarrow> i \<noteq> [] \<and> i \<noteq> ''.'' \<and> i \<noteq> ''..''"

definition arrives :: "http_call \<Rightarrow> target \<times> string option \<Rightarrow> bool" where
  "arrives call to \<longleftrightarrow>
     (opt_all plain_part (snd to) \<longrightarrow>
       (\<forall>r. hr_method r = hc_method call \<longrightarrow> hr_path r = path_parts (hc_path call) \<longrightarrow>
         find_route Routes r = Some (fst to, case snd to of None \<Rightarrow> [] | Some i \<Rightarrow> i)))"

lemma no_HEAD: "\<forall>(m, pattern, t) \<in> set Routes. m \<noteq> ''HEAD''"
  by (simp add: Routes_def)

lemma arrivesI:
  assumes "(m, pattern, tgt) \<in> set Routes" and "hc_method call = m"
    and "hc_path call = path_text segs \<or> (\<exists>q. hc_path call = path_text segs @ CHR ''?'' # q)"
    and "opt_all plain_part i \<Longrightarrow> match_path pattern segs [] = Some (case i of None \<Rightarrow> [] | Some i \<Rightarrow> i)" and "segs \<noteq> []"
  shows "arrives call (tgt, i)"
proof -
  have "path_parts (hc_path call) = segs" using assms(3,5) path_parts_text by auto
  then show ?thesis
    using find_route_unique [OF Routes_unambiguous no_HEAD assms(1)] assms(2,4) by (simp add: arrives_def match_method_def)
qed

lemma getJSON_path:
  assumes "getJSON path q = Send call"
  shows "hc_method call = ''GET''" "hc_path call = path \<or> (\<exists>u. hc_path call = path @ CHR ''?'' # u)"
  using assms by (cases "q = []"; force simp: getJSON_def)+

lemma sendJSON_path:
  assumes "sendJSONWithHeaders method path body headers = Send call"
  shows "hc_method call = method" "hc_path call = path"
  using assms by (auto simp: sendJSONWithHeaders_def)

lemma or_refuse_Send [simp]: "or_refuse r = Send call \<longleftrightarrow> r = Inr (Send call)"
  by (cases r) (auto simp: or_refuse_def)

lemma singleID_InrD: "singleID usage args = Inr i \<Longrightarrow> args = [i]"
  by (cases args) (auto simp: singleID_def split: if_splits)

lemma Parse_flags_of: "Parse defs args = Inr (vs, rest) \<Longrightarrow> flags_of defs args = vs"
  by (simp add: flags_of_def)

lemma some_routes:
  "(''GET'', api [Lit ''me''], Open MyAccount) \<in> set Routes"
  "(''GET'', api [Lit ''lists''], Guarded AccountRead Lists) \<in> set Routes"
  "(''GET'', api [Lit ''lists'', ID], Guarded AccountRead OneList) \<in> set Routes"
  "(''POST'', api [Lit ''lists''], Guarded AccountManage NewList) \<in> set Routes"
  "(''PATCH'', api [Lit ''lists'', ID], Guarded AccountManage EditList) \<in> set Routes"
  "(''DELETE'', api [Lit ''lists'', ID], Guarded AccountManage DropList) \<in> set Routes"
  "(''POST'', api [Lit ''lists'', Lit ''reorder''], Guarded AccountManage ReorderLists) \<in> set Routes"
  "(''POST'', api [Lit ''lists'', ID, Lit ''tasks''], Guarded AccountManage NewListTask) \<in> set Routes"
  "(''POST'', api [Lit ''lists'', ID, Lit ''reorder-tasks''], Guarded AccountManage ReorderListTasks) \<in> set Routes"
  "(''GET'', api [Lit ''tasks''], Guarded AnyUser AllTasks) \<in> set Routes"
  "(''POST'', api [Lit ''tasks''], Guarded AccountManage NewInboxTask) \<in> set Routes"
  "(''GET'', api [Lit ''tasks'', ID], Guarded AnyUser OneTask) \<in> set Routes"
  "(''GET'', api [Lit ''tasks'', ID, Lit ''entries''], Guarded AnyUser TaskEntries) \<in> set Routes"
  "(''POST'', api [Lit ''tasks'', ID, Lit ''entries''], Guarded AnyUser NewTaskEntry) \<in> set Routes"
  "(''POST'', api [Lit ''tasks'', ID, Lit ''subtasks''], Guarded AccountManage NewSubtask) \<in> set Routes"
  "(''PATCH'', api [Lit ''tasks'', ID], Guarded AnyUser EditTask) \<in> set Routes"
  "(''DELETE'', api [Lit ''tasks'', ID], Guarded AccountManage DropTask) \<in> set Routes"
  "(''GET'', api [Lit ''agent'', Lit ''tasks''], Guarded AnyUser QueuedTasks) \<in> set Routes"
  "(''POST'', api [Lit ''agent'', Lit ''tasks'', ID, Lit ''claim''], Guarded AnyUser ClaimQueued) \<in> set Routes"
  "(''PATCH'', api [Lit ''agent'', Lit ''tasks'', ID, Lit ''status''], Guarded AnyUser SetAgentStatus) \<in> set Routes"
  by (simp_all add: Routes_def)

lemma get_arrives:
  assumes "getJSON (path_text segs) q = Send call" and "(''GET'', pattern, tgt) \<in> set Routes" and "segs \<noteq> []"
    and "opt_all plain_part i \<Longrightarrow> match_path pattern segs [] = Some (case i of None \<Rightarrow> [] | Some i \<Rightarrow> i)"
  shows "arrives call (tgt, i)"
  using getJSON_path [OF assms(1)] by (intro arrivesI [OF assms(2) _ _ assms(4,3)]) auto

lemma send_arrives:
  assumes "sendJSONWithHeaders m (path_text segs) body hs = Send call" and "(m, pattern, tgt) \<in> set Routes" and "segs \<noteq> []"
    and "opt_all plain_part i \<Longrightarrow> match_path pattern segs [] = Some (case i of None \<Rightarrow> [] | Some i \<Rightarrow> i)"
  shows "arrives call (tgt, i)"
  using sendJSON_path [OF assms(1)] by (intro arrivesI [OF assms(2) _ _ assms(4,3)]) auto

text \<open>Every path a command writes, and where it arrives.\<close>

lemma literal_arrives:
  "getJSON ''/api/v1/me'' q = Send call \<Longrightarrow> arrives call (Open MyAccount, None)"
  "getJSON ''/api/v1/lists'' q = Send call \<Longrightarrow> arrives call (Guarded AccountRead Lists, None)"
  "getJSON ''/api/v1/tasks'' q = Send call \<Longrightarrow> arrives call (Guarded AnyUser AllTasks, None)"
  "getJSON ''/api/v1/agent/tasks'' q = Send call \<Longrightarrow> arrives call (Guarded AnyUser QueuedTasks, None)"
  "sendJSONWithHeaders ''POST'' ''/api/v1/lists'' body hs = Send call \<Longrightarrow> arrives call (Guarded AccountManage NewList, None)"
  "sendJSONWithHeaders ''POST'' ''/api/v1/lists/reorder'' body hs = Send call \<Longrightarrow> arrives call (Guarded AccountManage ReorderLists, None)"
  "sendJSONWithHeaders ''POST'' ''/api/v1/tasks'' body hs = Send call \<Longrightarrow> arrives call (Guarded AccountManage NewInboxTask, None)"
  unfolding literal_paths
  by (erule get_arrives send_arrives, rule some_routes, simp, simp add: api_def)+

lemma identified_arrives:
  "getJSON (''/api/v1/lists/'' @ PathEscape i) q = Send call \<Longrightarrow> arrives call (Guarded AccountRead OneList, Some i)"
  "sendJSONWithHeaders ''PATCH'' (''/api/v1/lists/'' @ PathEscape i) body hs = Send call \<Longrightarrow>
    arrives call (Guarded AccountManage EditList, Some i)"
  "sendJSONWithHeaders ''DELETE'' (''/api/v1/lists/'' @ PathEscape i) body hs = Send call \<Longrightarrow>
    arrives call (Guarded AccountManage DropList, Some i)"
  "sendJSONWithHeaders ''POST'' (''/api/v1/lists/'' @ PathEscape i @ ''/tasks'') body hs = Send call \<Longrightarrow>
    arrives call (Guarded AccountManage NewListTask, Some i)"
  "sendJSONWithHeaders ''POST'' (''/api/v1/lists/'' @ PathEscape i @ ''/reorder-tasks'') body hs = Send call \<Longrightarrow>
    arrives call (Guarded AccountManage ReorderListTasks, Some i)"
  "getJSON (''/api/v1/tasks/'' @ PathEscape i) q = Send call \<Longrightarrow> arrives call (Guarded AnyUser OneTask, Some i)"
  "getJSON (''/api/v1/tasks/'' @ PathEscape i @ ''/entries'') q = Send call \<Longrightarrow> arrives call (Guarded AnyUser TaskEntries, Some i)"
  "sendJSONWithHeaders ''POST'' (''/api/v1/tasks/'' @ PathEscape i @ ''/entries'') body hs = Send call \<Longrightarrow>
    arrives call (Guarded AnyUser NewTaskEntry, Some i)"
  "sendJSONWithHeaders ''POST'' (''/api/v1/tasks/'' @ PathEscape i @ ''/subtasks'') body hs = Send call \<Longrightarrow>
    arrives call (Guarded AccountManage NewSubtask, Some i)"
  "sendJSONWithHeaders ''PATCH'' (''/api/v1/tasks/'' @ PathEscape i) body hs = Send call \<Longrightarrow>
    arrives call (Guarded AnyUser EditTask, Some i)"
  "sendJSONWithHeaders ''DELETE'' (''/api/v1/tasks/'' @ PathEscape i) body hs = Send call \<Longrightarrow>
    arrives call (Guarded AccountManage DropTask, Some i)"
  "sendJSONWithHeaders ''POST'' (''/api/v1/agent/tasks/'' @ PathEscape i @ ''/claim'') body hs = Send call \<Longrightarrow>
    arrives call (Guarded AnyUser ClaimQueued, Some i)"
  "sendJSONWithHeaders ''PATCH'' (''/api/v1/agent/tasks/'' @ PathEscape i @ ''/status'') body hs = Send call \<Longrightarrow>
    arrives call (Guarded AnyUser SetAgentStatus, Some i)"
  unfolding identified_paths
  by (erule get_arrives send_arrives, rule some_routes, simp, simp add: api_def plain_part_def)+

lemmas command_arrives = literal_arrives identified_arrives

subsection \<open>Every command arrives\<close>

lemma lists_parts_arrive:
  "lists_create rest = Inr (Send call) \<Longrightarrow> arrives call (Guarded AccountManage NewList, None)"
  "lists_edit rest = Inr (Send call) \<Longrightarrow> arrives call (Guarded AccountManage EditList, Some (hd rest))"
  "lists_reorder rest = Inr (Send call) \<Longrightarrow> arrives call (Guarded AccountManage ReorderLists, None)"
  unfolding lists_create_def lists_edit_def lists_reorder_def sendJSON_def Let_def
  by (auto elim!: rbind_elims intro: command_arrives split: list.splits)

lemma tasks_list_arrives:
  "tasks_list ''list'' rest = Inr (Send call) \<Longrightarrow> arrives call (Guarded AnyUser AllTasks, None)"
  "tasks_list ''pull'' rest = Inr (Send call) \<Longrightarrow> arrives call (Guarded AnyUser QueuedTasks, None)"
  unfolding tasks_list_def Let_def by (auto elim!: rbind_elims intro: command_arrives)

lemma tasks_create_arrives: "tasks_create rest = Inr (Send call) \<Longrightarrow> arrives call (created_in rest)"
  unfolding tasks_create_def created_in_def Let_def
  by (elim rbind_elims) (auto dest!: Parse_flags_of intro: command_arrives split: if_splits)

lemma tasks_parts_arrive:
  "tasks_edit t rest = Inr (Send call) \<Longrightarrow> arrives call (Guarded AnyUser EditTask, Some (hd rest))"
  "tasks_entries rest = Inr (Send call) \<Longrightarrow> arrives call (Guarded AnyUser TaskEntries, Some (hd rest))"
  "taskEntryCmd t kind rest = Inr (Send call) \<Longrightarrow> arrives call (Guarded AnyUser NewTaskEntry, Some (hd rest))"
  "tasks_reorder rest = Inr (Send call) \<Longrightarrow>
    arrives call (Guarded AccountManage ReorderListTasks, Some (text_flag (flags_of [(''list'', TextFlag)] rest) ''list''))"
  unfolding tasks_edit_def tasks_entries_def taskEntryCmd_def tasks_reorder_def sendJSON_def Let_def
  by (auto simp del: append.simps elim!: rbind_elims dest!: Parse_flags_of intro: command_arrives split: list.splits)

lemma tasks_status_arrives:
  "tasks_status t rest = Inr (Send call) \<Longrightarrow>
    arrives call (if rest ! 1 = ''working'' \<and> cli_env t ''SLATE_RUN_ID'' [] = [] then (Guarded AnyUser ClaimQueued, Some (hd rest))
      else (Guarded AnyUser SetAgentStatus, Some (hd rest)))"
  unfolding tasks_status_def
  by (auto elim!: rbind_elims intro: command_arrives split: list.splits if_splits)

lemma if_chainE: "(if c then x else y) = z \<Longrightarrow> (c \<Longrightarrow> x = z \<Longrightarrow> P) \<Longrightarrow> (\<not> c \<Longrightarrow> y = z \<Longrightarrow> P) \<Longrightarrow> P"
  by (cases c) auto

lemma printHelp_Send [simp]: "printHelp topic \<noteq> Send call"
  by (simp add: printHelp_def)

lemma single_arrives:
  assumes "rbind (singleID usage rest) (\<lambda>i. Inr (f i)) = Inr (Send call)" and "\<And>i. f i = Send call \<Longrightarrow> arrives call (tgt, Some i)"
  shows "arrives call (tgt, Some (hd rest))"
  using assms by (auto elim!: rbind_InrE dest!: singleID_InrD)

lemma listsCmd_arrives:
  assumes "listsCmd args = Send call"
  shows "arrives call (lists_target (args ! 0) (drop 1 args))"
proof (cases args)
  case (Cons sub rest)
  then have "sub = ''list'' \<and> getJSON ''/api/v1/lists'' [] = Send call
      \<or> sub = ''get'' \<and> rbind (singleID ''slate lists get <list-id>'' rest) (\<lambda>i. Inr (getJSON (''/api/v1/lists/'' @ PathEscape i) [])) = Inr (Send call)
      \<or> sub = ''create'' \<and> lists_create rest = Inr (Send call)
      \<or> sub = ''update'' \<and> lists_edit rest = Inr (Send call)
      \<or> sub = ''delete'' \<and> rbind (singleID ''slate lists delete <list-id>'' rest) (\<lambda>i.
          Inr (sendJSON ''DELETE'' (''/api/v1/lists/'' @ PathEscape i) None)) = Inr (Send call)
      \<or> sub = ''reorder'' \<and> lists_reorder rest = Inr (Send call)"
    using assms unfolding listsCmd_def Cons list.case
    by (elim if_chainE; simp del: append.simps)
  then show ?thesis
    unfolding Cons by (elim disjE conjE) (auto simp: lists_target_def sendJSON_def simp del: append.simps
        intro: single_arrives command_arrives lists_parts_arrive)
qed (use assms in \<open>simp add: listsCmd_def wantsHelp_def\<close>)

lemma tasksCmd_arrives:
  assumes "tasksCmd t args = Send call"
  shows "arrives call (tasks_target t (args ! 0) (drop 1 args))"
proof (cases args)
  case (Cons sub rest)
  then have "(sub = ''list'' \<or> sub = ''pull'') \<and> tasks_list sub rest = Inr (Send call)
      \<or> sub = ''get'' \<and> rbind (singleID ''slate tasks get <task-id>'' rest) (\<lambda>i. Inr (getJSON (''/api/v1/tasks/'' @ PathEscape i) [])) = Inr (Send call)
      \<or> sub = ''create'' \<and> tasks_create rest = Inr (Send call)
      \<or> sub = ''update'' \<and> tasks_edit t rest = Inr (Send call)
      \<or> sub = ''delete'' \<and> rbind (singleID ''slate tasks delete <task-id>'' rest) (\<lambda>i.
          Inr (sendJSON ''DELETE'' (''/api/v1/tasks/'' @ PathEscape i) None)) = Inr (Send call)
      \<or> sub = ''reorder'' \<and> tasks_reorder rest = Inr (Send call)
      \<or> sub = ''claim'' \<and> rbind (singleID ''slate tasks claim <task-id>'' rest) (\<lambda>i.
          Inr (sendJSONWithHeaders ''POST'' (''/api/v1/agent/tasks/'' @ PathEscape i @ ''/claim'') (Some []) (managedRunHeaders t))) = Inr (Send call)
      \<or> sub = ''entries'' \<and> tasks_entries rest = Inr (Send call)
      \<or> (sub = ''comment'' \<or> sub = ''output'') \<and> taskEntryCmd t sub rest = Inr (Send call)
      \<or> sub = ''status'' \<and> tasks_status t rest = Inr (Send call)"
    using assms unfolding tasksCmd_def Cons list.case
    by (elim if_chainE; simp del: append.simps)
  then show ?thesis
    unfolding Cons by (elim disjE conjE) (auto simp: tasks_target_def sendJSON_def simp del: append.simps
        intro: single_arrives command_arrives tasks_list_arrives tasks_create_arrives tasks_parts_arrive
        dest: tasks_status_arrives split del: if_split)
qed (use assms in \<open>simp add: tasksCmd_def wantsHelp_def\<close>)

lemma watchCmd_Send [simp]: "watchCmd args \<noteq> Send call" "runsCmd args \<noteq> Send call"
  by (auto simp: watchCmd_def runsCmd_def Let_def elim!: rbind_elims)

text \<open>The requests of the watcher arrive too.\<close>

lemma get_call_arrives:
  assumes "(''GET'', pattern, tgt) \<in> set Routes" and "segs \<noteq> []"
    and "opt_all plain_part i \<Longrightarrow> match_path pattern segs [] = Some (case i of None \<Rightarrow> [] | Some i \<Rightarrow> i)"
  shows "arrives (get_call (path_text segs)) (tgt, i)" "arrives (get_call (path_text segs @ ''?'' @ q)) (tgt, i)"
  by (rule arrivesI [OF assms(1) _ _ assms(3,2)]; auto simp: get_call_def)+

lemma watcher_requests_arrive:
  "arrives identity_call (Open MyAccount, None)"
  "arrives (agentTasks_call status listID limit) (Guarded AnyUser QueuedTasks, None)"
  "arrives (task_call i) (Guarded AnyUser OneTask, Some i)"
  "arrives (entriesForRun_call i runID) (Guarded AnyUser TaskEntries, Some i)"
  unfolding identity_call_def agentTasks_call_def task_call_def entriesForRun_call_def literal_paths identified_paths Let_def
  by (rule get_call_arrives, rule some_routes, simp, simp add: api_def plain_part_def)+

text \<open>
  C16: Every request that the client sends reaches the endpoint that its command names, and the
  handler gets the identifier that the user typed, whatever bytes it is made of, unless it is
  empty or consists of dots.
\<close>
theorem client_requests_arrive:
  assumes "run_cli t args = Send call" and "hr_method r = hc_method call" and "hr_path r = path_parts (hc_path call)"
    and "opt_all plain_part (snd (command_target t args))"
  shows "find_route Routes r = Some (fst (command_target t args), case snd (command_target t args) of None \<Rightarrow> [] | Some i \<Rightarrow> i)"
proof -
  have parts: "drop 2 args ! 0 = args ! 2" "drop 1 (drop 2 args) = drop 3 args" if "\<not> length args < 2" "drop 2 args \<noteq> []"
    using that by (auto simp: nth_drop numeral_3_eq_3)
  have tasks: "arrives call (tasks_target t (args ! 2) (drop 3 args))" if "tasksCmd t (drop 2 args) = Send call" "\<not> length args < 2"
    using tasksCmd_arrives [OF that(1)] parts [OF that(2)] that(1) by (cases "drop 2 args = []") (auto simp: tasksCmd_def wantsHelp_def)
  have lists: "arrives call (lists_target (args ! 2) (drop 3 args))" if "listsCmd (drop 2 args) = Send call" "\<not> length args < 2"
    using listsCmd_arrives [OF that(1)] parts [OF that(2)] that(1) by (cases "drop 2 args = []") (auto simp: listsCmd_def wantsHelp_def)
  have "arrives call (command_target t args)"
    using assms(1) unfolding run_cli_def Let_def
    by (elim if_chainE) (auto simp: printVersion_def authCmd_def command_target_def simp del: append.simps
        intro: tasks lists command_arrives split: if_splits)
  then show ?thesis using assms(2-4) by (simp add: arrives_def)
qed

definition ex_terminal :: terminal where
  "ex_terminal =
     \<lparr>tm_getenv = (\<lambda>key. if key = ''SLATE_API_TOKEN'' then ''slate_9f3k'' else if key = ''SLATE_RUN_ID'' then '' run7 '' else []),
      tm_stdin = Inr ''All checks pass.'', tm_file = (\<lambda>_. Inl ''no such file'')\<rparr>"

definition base_request :: "string \<Rightarrow> request" where
  "base_request method = \<lparr>hr_method = method, hr_host = ''slate.do'', hr_origin = [], hr_cookie = None,
     hr_authorization = ''Bearer slate_9f3k'', hr_forwarded = [], hr_remote = ''192.0.2.1'', hr_path = [], hr_id = [],
     hr_query = (\<lambda>_. []), hr_idempotency = [], hr_run = []\<rparr>"

theorem client_requests_arrive_witness:
  "\<exists>call. run_cli ex_terminal [''slate'', ''tasks'', ''output'', ''a/b?c'', ''--body=All checks pass.'', ''--idempotency-key'', ''k1''] = Send call
    \<and> hc_path call = ''/api/v1/tasks/a%2Fb%3Fc/entries''
    \<and> find_route Routes ((base_request ''POST'')\<lparr>hr_path := path_parts (hc_path call)\<rparr>) = Some (Guarded AnyUser NewTaskEntry, ''a/b?c'')"
proof -
  let ?args = "[''slate'', ''tasks'', ''output'', ''a/b?c'', ''--body=All checks pass.'', ''--idempotency-key'', ''k1'']"
  let ?call = "\<lparr>hc_method = ''POST'', hc_path = ''/api/v1/tasks/a%2Fb%3Fc/entries'',
    hc_body = Some [(''kind'', JText ''output''), (''body'', JText ''All checks pass.'')],
    hc_headers = [(''X-Slate-Run-ID'', ''run7''), (''Idempotency-Key'', ''k1'')]\<rparr>"
  have run: "run_cli ex_terminal ?args = Send ?call" by code_simp
  have to: "command_target ex_terminal ?args = (Guarded AnyUser NewTaskEntry, Some ''a/b?c'')" by code_simp
  show ?thesis
    using run client_requests_arrive [OF run, of "(base_request ''POST'')\<lparr>hr_path := path_parts (hc_path ?call)\<rparr>"]
    by (intro exI [of _ ?call]) (simp add: to plain_part_def base_request_def)
qed

subsection \<open>Errors do not show the token\<close>

text \<open>
  A token the server issues is letters, digits, hyphens and underscores, and longer than the
  mark. For a token that is part of the mark itself, or that a bracket or the dots of a cut text
  could complete, there is nothing to show.
\<close>

definition redactable :: "string \<Rightarrow> bool" where
  "redactable token \<longleftrightarrow> token \<noteq> [] \<and> CHR ''['' \<notin> set token \<and> CHR '']'' \<notin> set token \<and> CHR ''.'' \<notin> set token
     \<and> \<not> sublist token ''REDACTED''"

lemma ReplaceAll_hides:
  assumes "redactable token"
  shows "\<not> sublist token (ReplaceAll s token ''[REDACTED]'')"
  using replace_removes [of token "CHR ''[''" "CHR '']''" "''REDACTED''" 0 s] assms by (simp add: redactable_def ReplaceAll_def)

lemma cut_hides:
  assumes "redactable token" and "\<not> sublist token s"
  shows "\<not> sublist token (take n s @ ''...'')"
proof
  assume "sublist token (take n s @ ''...'')"
  then have "sublist token (take n s) \<or> sublist token ''..''"
    using assms(1) sublist_around [of token "take n s" "CHR ''.''" "''..''"] by (simp add: redactable_def)
  moreover have "\<not> sublist token ''..''"
    using assms(1) sublist_around [of token "[]" "CHR ''.''" "''.''"] sublist_around [of token "[]" "CHR ''.''" "[]"]
    by (auto simp: redactable_def)
  moreover have "sublist (take n s) s" by simp
  ultimately show False using assms(2) by (meson sublist_order.order.trans)
qed

text \<open>
  C17: Whatever a server answers, the body that the client keeps of an error, prints and compares
  contains no occurrence of the API token, not even across a replacement or the cut after 4096
  bytes.
\<close>
theorem error_body_hides_token:
  assumes "doWithHeaders tr c call = Inl (Api e)" and "redactable (ct_token c)"
  shows "\<not> sublist (ct_token c) (ae_Body e)"
proof -
  obtain re where e: "e = api_error tr c re"
    using assms(1) by (auto simp: doWithHeaders_def Let_def split: if_splits sum.splits option.splits send_failure.splits)
  have "\<not> sublist (ct_token c) (safeAPIErrorBody (re_Body re) (ct_token c))"
    using ReplaceAll_hides [OF assms(2)] cut_hides [OF assms(2)] assms(2)
    by (simp add: safeAPIErrorBody_def Let_def redactable_def)
  then show ?thesis by (simp add: e api_error_def Let_def split: prod.splits)
qed

definition ex_transport :: "string transport" where
  "ex_transport =
     \<lparr>tr_url_ok = (\<lambda>_. True),
      tr_send = (\<lambda>w. Inr \<lparr>re_Status = 401, re_RetryAfter = [], re_Body = '' bad header: '' @ snd (hd (wr_headers w)) @ '' ''\<rparr>),
      tr_value = Some, tr_error = (\<lambda>_. ([], [])), tr_date = (\<lambda>_. None), tr_now = 0\<rparr>"

theorem error_body_hides_token_witness:
  "\<exists>e. doWithHeaders ex_transport (new_client ex_terminal) \<lparr>hc_method = ''GET'', hc_path = ''/api/v1/me'', hc_body = None, hc_headers = []\<rparr>
      = Inl (Api e) \<and> ae_Body e = ''bad header: Bearer [REDACTED]'' \<and> \<not> sublist ''slate_9f3k'' (ae_Body e)"
proof -
  let ?call = "\<lparr>hc_method = ''GET'', hc_path = ''/api/v1/me'', hc_body = None, hc_headers = []\<rparr>"
  let ?e = "\<lparr>ae_Status = 401, ae_StatusCode = 401, ae_Code = [], ae_Message = [], ae_Body = ''bad header: Bearer [REDACTED]'',
    ae_RetryAfter = [], ae_RetryAfterDuration = 0\<rparr>"
  have run: "doWithHeaders ex_transport (new_client ex_terminal) ?call = Inl (Api ?e)" by code_simp
  have token: "ct_token (new_client ex_terminal) = ''slate_9f3k''" by code_simp
  have "redactable ''slate_9f3k''"
    unfolding redactable_def by (auto dest!: set_mono_sublist)
  then show ?thesis
    using error_body_hides_token [OF run] run by (simp add: token ex_transport_def)
qed

subsection \<open>What an entry command sends\<close>

lemma taskEntryCmd_sends:
  assumes "taskEntryCmd t kind args = Inr (Send call)"
  shows "\<exists>body. hc_body call = Some [(''kind'', JText kind), (''body'', JText body)]
    \<and> TrimSpace body \<noteq> [] \<and> int (length body) \<le> maxTaskEntryBodyBytes
    \<and> (kind = ''output'' \<or> cli_env t ''SLATE_RUN_ID'' [] \<noteq> [] \<longrightarrow>
        (\<exists>key. (''Idempotency-Key'', key) \<in> set (wr_headers (build_request c call)) \<and> TrimSpace key \<noteq> []))
    \<and> (cli_env t ''SLATE_RUN_ID'' [] \<noteq> [] \<longrightarrow>
        (''X-Slate-Run-ID'', cli_env t ''SLATE_RUN_ID'' []) \<in> set (wr_headers (build_request c call)))"
  using assms unfolding taskEntryCmd_def Let_def
  by (auto elim!: rbind_elims simp: sendJSONWithHeaders_def build_request_def managedRunHeaders_def cli_env_def Let_def TrimSpace_idem
      split: list.splits if_splits intro: exI [of _ "TrimSpace x" for x])

end
