(* ===== verification/Prompt.thy ===== *)
theory Prompt
  imports CommandRules
begin

section \<open>What an executor is told (cli/cmd/slate/prompt.go)\<close>

text \<open>
  The prompt the watcher writes for a run, line by line, and the commands it asks the executor to
  use. \<open>quote\<close> is the verb \<open>%q\<close> of \<open>fmt\<close>.
\<close>

record promptDetails =
  pd_AgentID :: string
  pd_AgentName :: string
  pd_AgentPurpose :: string
  pd_TaskID :: string
  pd_TaskTitle :: string
  pd_TaskPriority :: string
  pd_ListName :: string
  pd_RunID :: string
  pd_Worktree :: string
  pd_Branch :: string

definition commentKey :: "promptDetails \<Rightarrow> string" where
  "commentKey d = ''watch-run:'' @ pd_TaskID d @ '':'' @ pd_RunID d @ '':blocked''"

definition outputKey :: "promptDetails \<Rightarrow> string" where
  "outputKey d = ''watch-run:'' @ pd_TaskID d @ '':'' @ pd_RunID d @ '':output''"

definition dquote :: string where "dquote = [CHR 0x22]"
definition backslash :: string where "backslash = [CHR 0x5C]"

text \<open>The rules, up to the reading of the task and the checks.\<close>

definition prompt_work :: "promptDetails \<Rightarrow> string list" where
  "prompt_work d =
     [''Run ID: '' @ pd_RunID d,
      ''Working directory: '' @ pd_Worktree d,
      ''Branch: '' @ pd_Branch d,
      [],
      ''This directory is a disposable Git worktree created for this run. Work'',
      ''only inside it. Do not look for or modify the repository it came from.'',
      [],
      ''Claim the task before anything else:'',
      [],
      ''    '' @ dquote @ ''$SLATE_BIN'' @ dquote @ '' tasks claim '' @ pd_TaskID d,
      [],
      ''If the claim fails, another run won it. Stop immediately and exit without'',
      ''changing anything further. Only the winning run may continue.'',
      [],
      ''After a successful claim, read the task and its conversation:'',
      [],
      ''    '' @ dquote @ ''$SLATE_BIN'' @ dquote @ '' tasks get '' @ pd_TaskID d,
      ''    '' @ dquote @ ''$SLATE_BIN'' @ dquote @ '' tasks entries '' @ pd_TaskID d,
      [],
      ''Then read any repository instructions, such as AGENTS.md, CLAUDE.md, or'',
      ''README.md, and follow them. Implement the task in this worktree and run'',
      ''the checks the repository defines. Do not skip verification.'',
      [],
      ''Write any note or report to a file OUTSIDE this worktree, such as one'',
      ''under ${TMPDIR:-/tmp}. A stray file left here counts as uncommitted work and'',
      ''will block the worktree from being cleaned up later.'',
      []]"

text \<open>How to report, and how to end.\<close>

definition prompt_report :: "promptDetails \<Rightarrow> string list" where
  "prompt_report d =
     [''If you cannot finish, report why and stop:'',
      [],
      ''    '' @ dquote @ ''$SLATE_BIN'' @ dquote @ '' tasks comment '' @ pd_TaskID d @ '' '' @ backslash,
      ''      --file '' @ dquote @ ''${TMPDIR:-/tmp}/slate-note-$SLATE_RUN_ID.md'' @ dquote @ '' '' @ backslash,
      ''      --idempotency-key '' @ commentKey d,
      [],
      ''The task stays in progress and a person will pick it up.'',
      [],
      ''When the work is done and verified, submit your completion report:'',
      [],
      ''    '' @ dquote @ ''$SLATE_BIN'' @ dquote @ '' tasks output '' @ pd_TaskID d @ '' '' @ backslash,
      ''      --file '' @ dquote @ ''${TMPDIR:-/tmp}/slate-report-$SLATE_RUN_ID.md'' @ dquote @ '' '' @ backslash,
      ''      --idempotency-key '' @ outputKey d,
      [],
      ''The report states what changed, which checks you ran and their results,'',
      ''the branch and any commit or pull request, and anything a reviewer should'',
      ''know. Submitting the output moves the task to review; do not try to set'',
      ''its status directly, because that is refused for this run.'',
      [],
      ''If a command returns an uncertain result, repeat it with the same'',
      ''idempotency key. That is safe and will not create a duplicate.'',
      [],
      ''Commit anything you want a reviewer to see, and leave nothing'',
      ''uncommitted in this worktree. Exit as soon as you have posted your'',
      ''comment or your output.'']"

definition prompt_lines :: "(string \<Rightarrow> string) \<Rightarrow> promptDetails \<Rightarrow> string list" where
  "prompt_lines quote d =
     [''You are the Slate agent '' @ quote (pd_AgentName d) @ '' (ID '' @ pd_AgentID d @ '').'']
     @ (if TrimSpace (pd_AgentPurpose d) \<noteq> [] then [''Your purpose: '' @ TrimSpace (pd_AgentPurpose d)] else [])
     @ [[],
        ''You have been offered one task. Its title is '' @ quote (pd_TaskTitle d) @ ''.'',
        ''Task ID: '' @ pd_TaskID d]
     @ (if pd_TaskPriority d \<noteq> [] then [''Priority: '' @ pd_TaskPriority d] else [])
     @ (if pd_ListName d \<noteq> [] then [''List: '' @ pd_ListName d] else [])
     @ prompt_work d @ prompt_report d"

definition buildPrompt :: "(string \<Rightarrow> string) \<Rightarrow> promptDetails \<Rightarrow> string" where
  "buildPrompt quote d = concat (map (\<lambda>line. line @ [CHR 0x0A]) (prompt_lines quote d))"

subsection \<open>The keys of a run\<close>

text \<open>
  A run has one key for its comment and one for its output, and no other run has either: a
  command that is repeated after an uncertain result finds its own first attempt and no other.
\<close>

lemma split_colon: "CHR '':'' \<notin> set a \<Longrightarrow> CHR '':'' \<notin> set b \<Longrightarrow> a @ CHR '':'' # x = b @ CHR '':'' # y \<Longrightarrow> a = b \<and> x = y"
proof (induction a arbitrary: b)
  case (Cons c a)
  then show ?case by (cases b) auto
qed (auto simp: Cons_eq_append_conv)

lemma run_keys:
  assumes "CHR '':'' \<notin> set (pd_TaskID d)" "CHR '':'' \<notin> set (pd_RunID d)" "CHR '':'' \<notin> set (pd_TaskID d')" "CHR '':'' \<notin> set (pd_RunID d')"
  shows "commentKey d = commentKey d' \<Longrightarrow> pd_TaskID d = pd_TaskID d' \<and> pd_RunID d = pd_RunID d'"
    and "outputKey d = outputKey d' \<Longrightarrow> pd_TaskID d = pd_TaskID d' \<and> pd_RunID d = pd_RunID d'"
    and "commentKey d \<noteq> outputKey d'"
proof -
  have parts: "pd_TaskID d = pd_TaskID d' \<and> pd_RunID d = pd_RunID d' \<and> x = y"
    if "pd_TaskID d @ CHR '':'' # pd_RunID d @ CHR '':'' # x = pd_TaskID d' @ CHR '':'' # pd_RunID d' @ CHR '':'' # y" for x y
    using split_colon [OF assms(1,3) that] split_colon [OF assms(2,4), of x y] by blast
  show "commentKey d = commentKey d' \<Longrightarrow> pd_TaskID d = pd_TaskID d' \<and> pd_RunID d = pd_RunID d'"
    using parts [of "''blocked''" "''blocked''"] by (simp add: commentKey_def)
  show "outputKey d = outputKey d' \<Longrightarrow> pd_TaskID d = pd_TaskID d' \<and> pd_RunID d = pd_RunID d'"
    using parts [of "''output''" "''output''"] by (simp add: outputKey_def)
  show "commentKey d \<noteq> outputKey d'"
    using parts [of "''blocked''" "''output''"] by (auto simp: commentKey_def outputKey_def)
qed

subsection \<open>The commands of the prompt\<close>

text \<open>The commands that the prompt names are ones the client sends: it claims and reads the task, and reports from a file.\<close>

lemma prompt_commands_arrive:
  assumes "TrimSpace (pd_TaskID d) \<noteq> []"
  shows "\<exists>call. run_cli t [''slate'', ''tasks'', ''claim'', pd_TaskID d] = Send call
      \<and> arrives call (Guarded AnyUser ClaimQueued, Some (pd_TaskID d))"
    and "\<exists>call. run_cli t [''slate'', ''tasks'', ''get'', pd_TaskID d] = Send call
      \<and> arrives call (Guarded AnyUser OneTask, Some (pd_TaskID d))"
    and "\<exists>call. run_cli t [''slate'', ''tasks'', ''entries'', pd_TaskID d] = Send call
      \<and> arrives call (Guarded AnyUser TaskEntries, Some (pd_TaskID d))"
  using assms
  by (auto simp: run_cli_def tasksCmd_def wantsHelp_def singleID_def or_refuse_def tasks_entries_def Parse_def text_flag_def setQuery_def
      sendJSONWithHeaders_def getJSON_def simp del: append.simps intro!: command_arrives exI conjI)

end
