(* ===== verification/TaskRules.thy ===== *)
theory TaskRules
  imports TaskUpdate
begin

section \<open>What the task operations promise\<close>

text \<open>
  Properties of the update, claim and delete transactions that span several of their
  phases: a queued task is handed out once, an agent's update stays within its scope and
  respects a managed run, only a claim or a person starts work, and a deletion frees
  exactly what it removes.
\<close>

lemma claimTask_rows:
  assumes inv: "store_inv db" and run: "claimTask e db now u agent taskID runID = Inr (db', x)"
  obtains t run where "t \<in> set (tasks db)" "uuid_in e taskID = Some (tk_id t)" "tk_owner t = u" "tk_status t = StatusQueued"
    "agent \<noteq> [] \<longrightarrow> tk_assignee t = Some agent" "run = (if runID = [] then None else uuid_in e runID)"
    "x = task_of_row (set_claimed now run t)"
    "tasks db' = map (\<lambda>y. if tk_id y = tk_id t then set_claimed now run t else y) (tasks db)"
    "run_starts db' = record_run_start now t (set_claimed now run t) (run_starts db)"
  using run
proof (rule claimTask_InrE)
  fix t :: task_row and run
  let ?P = "\<lambda>y. tk_owner y = u \<and> tk_id y = tk_id t \<and> tk_kind y = KindAction \<and> tk_status y = StatusQueued
           \<and> (agent \<noteq> [] \<longrightarrow> tk_assignee y = Some agent)"
  assume t: "uuid_in e taskID = Some (tk_id t)" "t \<in> set (tasks db)" "tk_owner t = u" "tk_kind t = KindAction"
    "tk_status t = StatusQueued" "agent \<noteq> [] \<longrightarrow> tk_assignee t = Some agent"
    and r: "runID = [] \<and> run = None \<or> runID \<noteq> [] \<and> run = uuid_in e runID \<and> run \<noteq> None"
    and db': "db' = db\<lparr>tasks := map (\<lambda>y. if ?P y then set_claimed now run y else y) (tasks db),
        run_starts := record_run_start now t (set_claimed now run t) (run_starts db)\<rparr>"
    and x: "x = task_of_row (set_claimed now run t)"
  have s: "structure_ok db" using inv by (simp add: store_inv_def)
  have "tasks db' = map (\<lambda>y. if tk_id y = tk_id t then set_claimed now run t else y) (tasks db)"
    using task_idD [OF s _ t(2)] t by (auto simp: db')
  moreover have "run = (if runID = [] then None else uuid_in e runID)" using r by auto
  ultimately show thesis using that [of t run] t x by (simp add: db')
qed



subsection \<open>Updates by an agent\<close>

lemma run_guard_InrD:
  assumes s: "structure_ok db" and t: "t \<in> set (tasks db)" and agent: "agent \<noteq> []"
    and ok: "update_run_guard db agent input (task_of_row t) = Inr ()"
  shows "TrimSpace (uiRunID input) = null_text (tk_run t)"
    and "null_text (tk_run t) \<noteq> [] \<Longrightarrow> uiStatus input = None \<and> uiDone input = None"
proof -
  have "query_row (ErrDB NoRows) (\<lambda>x. tk_id x = tk_id t) (tasks db) = Inr t"
    using find_task_id [OF s t] by (simp add: query_row_def)
  then show "TrimSpace (uiRunID input) = null_text (tk_run t)"
    "null_text (tk_run t) \<noteq> [] \<Longrightarrow> uiStatus input = None \<and> uiDone input = None"
    using ok agent by (auto simp: update_run_guard_def Let_def split: if_splits)
qed

lemma agent_update_row:
  assumes inv: "store_inv db" and agent: "agentID \<noteq> []"
    and run: "UpdateTaskForAgent e db now u agentID taskID input = Inr (db', x)"
  shows "\<exists>t \<in> set (tasks db). \<exists>t'. tasks db' = map (\<lambda>y. if tk_id y = tk_id t then t' else y) (tasks db)
    \<and> uuid_in e taskID = Some (tk_id t) \<and> tk_owner t = u \<and> tk_assignee t = Some agentID
    \<and> tk_id t' = tk_id t \<and> tk_bucket t' = tk_bucket t \<and> tk_sort t' = tk_sort t \<and> tk_assignee t' = tk_assignee t
    \<and> tk_parent t' = tk_parent t \<and> tk_owner t' = tk_owner t
    \<and> TrimSpace (uiRunID input) = null_text (tk_run t)
    \<and> (null_text (tk_run t) \<noteq> [] \<longrightarrow> tk_status t' = tk_status t \<and> tk_run t' = tk_run t)
    \<and> (tk_status t' = StatusWorking \<longrightarrow> tk_status t = StatusWorking)"
proof -
  from run have no: "uiBucketID input = None" "uiSortOrder input = None" "uiAssigneeAgentID input = None"
    and up: "updateTask e db now u agentID taskID input False = Inr (db', x)"
    by (auto simp: UpdateTaskForAgent_def split: if_splits)
  have s: "structure_ok db" using inv by (simp add: store_inv_def)
  from inv up show ?thesis
  proof (rule updateTask_rows)
    fix t :: task_row and c date mv src dst
    assume t: "t \<in> set (tasks db)" "tk_owner t = u" "uuid_in e taskID = Some (tk_id t)" "agentID \<noteq> [] \<longrightarrow> tk_assignee t = Some agentID"
      and guard: "update_run_guard db agentID input (task_of_row t) = Inr ()"
      and mv: "mv \<longrightarrow> uiBucketID input \<noteq> None \<and> tk_parent t = None" "\<not> mv \<longrightarrow> tBucketID c = tk_bucket t" "\<not> mv \<longrightarrow> src = [] \<and> dst = []"
      and c: "uiSortOrder input = None \<and> \<not> mv \<longrightarrow> tSortOrder c = tk_sort t"
        "uiAssigneeAgentID input = None \<longrightarrow> tAssigneeAgentID c = null_text (tk_assignee t)"
        "uiStatus input = None \<and> uiDone input = None \<and> uiAssigneeAgentID input = None \<longrightarrow> tStatus c = tk_status t"
        "\<not> False \<longrightarrow> tStatus c = StatusWorking \<longrightarrow> tk_status t = StatusWorking"
      and ts: "tasks db' = map (\<lambda>y. place dst (place src (rehome mv (tk_id t) (tBucketID c) u now
        (if tk_owner y = u \<and> tk_id y = tk_id t then set_task now u date c y else y)))) (tasks db)"
    let ?t' = "set_task now u date c t"
    have still: "\<not> mv" "src = []" "dst = []" using mv no by auto
    have asg: "nullif_empty (tAssigneeAgentID c) = tk_assignee t"
      using c(2) no(3) t(4) agent by (simp add: nullif_empty_def)
    note guard' = run_guard_InrD [OF s t(1) agent guard]
    have "tk_run t \<noteq> None \<longrightarrow> tk_status t \<noteq> StatusQueued" using task_rowD [OF s t(1)] by (simp add: task_row_ok_def)
    then have held: "null_text (tk_run t) \<noteq> [] \<longrightarrow> tk_status ?t' = tk_status t \<and> tk_run ?t' = tk_run t"
      using guard'(2) c(3) no(3) asg by (cases "tk_run t") (auto simp: set_task_def)
    have "tasks db' = map (\<lambda>y. if tk_id y = tk_id t then ?t' else y) (tasks db)"
      using task_idD [OF s _ t(1)] t(2) by (auto simp: ts still rehome_def)
    then show ?thesis
      using t guard'(1) held c no still mv(2) asg agent by (intro bexI [OF _ t(1)] exI [of _ ?t']) auto
  qed
qed

text \<open>
  C38: An update by an agent stays within its scope: the task is assigned to that agent, it is
  the only row that changes, and it keeps its list, its position, its assignee, its parent
  and its owner. The request has to name the run that holds the task, if one does, and while
  a run holds it the update changes neither its status nor the run.
\<close>

theorem UpdateTaskForAgent_scope:
  assumes inv: "store_inv db" and agent: "agentID \<noteq> []"
    and run: "UpdateTaskForAgent e db now u agentID taskID input = Inr (db', x)"
  shows "\<exists>t \<in> set (tasks db). \<exists>t'. tasks db' = map (\<lambda>y. if tk_id y = tk_id t then t' else y) (tasks db)
    \<and> uuid_in e taskID = Some (tk_id t) \<and> tk_owner t = u \<and> tk_assignee t = Some agentID
    \<and> tk_id t' = tk_id t \<and> tk_bucket t' = tk_bucket t \<and> tk_sort t' = tk_sort t \<and> tk_assignee t' = tk_assignee t
    \<and> tk_parent t' = tk_parent t \<and> tk_owner t' = tk_owner t
    \<and> TrimSpace (uiRunID input) = null_text (tk_run t)
    \<and> (null_text (tk_run t) \<noteq> [] \<longrightarrow> tk_status t' = tk_status t \<and> tk_run t' = tk_run t)
    \<and> (tk_status t' = StatusWorking \<longrightarrow> tk_status t = StatusWorking)"
  using assms by (rule agent_update_row)

definition ex_agent_update :: UpdateTaskInput where
  "ex_agent_update = \<lparr>uiTitle = Some ''Done soon'', uiDescription = None, uiScheduledDate = None, uiKind = None, uiBucketID = None,
     uiStatus = Some ''needs_review'', uiDone = None, uiPriority = None, uiAssigneeAgentID = None, uiSortOrder = None, uiRunID = []\<rparr>"

theorem UpdateTaskForAgent_scope_witness:
  "\<exists>db' x. UpdateTaskForAgent ex_env ex_db 9 ''u1'' ex_agent_uuid ex_task_uuid ex_agent_update = Inr (db', x) \<and>
     (\<exists>t'. tk_bucket t' = ''b1'' \<and> tasks db' = map (\<lambda>y. if tk_id y = ex_task_uuid then t' else y) (tasks ex_db))"
proof -
  have "case UpdateTaskForAgent ex_env ex_db 9 ''u1'' ex_agent_uuid ex_task_uuid ex_agent_update of Inr (db', x) \<Rightarrow> True | Inl _ \<Rightarrow> False"
    by code_simp
  then obtain db' x where run: "UpdateTaskForAgent ex_env ex_db 9 ''u1'' ex_agent_uuid ex_task_uuid ex_agent_update = Inr (db', x)"
    by (auto split: sum.splits)
  have i: "uuid_in ex_env ex_task_uuid = Some ex_task_uuid" "ex_agent_uuid \<noteq> []" by code_simp+
  have b: "\<forall>t \<in> set (tasks ex_db). tk_id t = ex_task_uuid \<longrightarrow> tk_bucket t = ''b1''" by code_simp
  obtain t t' :: task_row where t: "t \<in> set (tasks ex_db)" "tasks db' = map (\<lambda>y. if tk_id y = tk_id t then t' else y) (tasks ex_db)"
    "uuid_in ex_env ex_task_uuid = Some (tk_id t)" "tk_bucket t' = tk_bucket t"
    using UpdateTaskForAgent_scope [OF ex_store_inv i(2) run] by blast
  then have "tk_id t = ex_task_uuid" using i by simp
  then show ?thesis using run t b by auto
qed

subsection \<open>Deletion\<close>

lemma id_in_filter:
  assumes s: "structure_ok db" and y: "y \<in> set (tasks db)"
  shows "tk_id y \<in> set (map tk_id (filter Q (tasks db))) \<longleftrightarrow> Q y"
proof
  assume "tk_id y \<in> set (map tk_id (filter Q (tasks db)))"
  then obtain z where "z \<in> set (tasks db)" "Q z" "tk_id z = tk_id y" by auto
  then show "Q y" using task_idD [OF s _ y] by blast
qed (use y in simp)

text \<open>
  C39: A successful \<open>DeleteTask\<close> removes exactly the task and its subtasks, together with the
  card entries of the removed tasks, and lowers the counters of the account by exactly the
  tasks and bytes that are gone; every other account's counters stay as they are.
\<close>

theorem DeleteTask_frees:
  assumes inv: "store_inv db" and run: "DeleteTask e db u taskID = Inr (db', x)"
  shows "\<exists>i. uuid_in e taskID = Some i
    \<and> tasks db' = filter (\<lambda>t. tk_id t \<noteq> i \<and> tk_parent t \<noteq> Some i) (tasks db)
    \<and> (\<forall>c \<in> set (entries db'). c \<in> set (entries db) \<and> er_task c \<in> set (map tk_id (tasks db')))
    \<and> (\<forall>c \<in> set (entries db). er_task c \<in> set (map tk_id (tasks db')) \<longrightarrow> c \<in> set (entries db'))
    \<and> usage_of db' u = moved_usage (usage_of db u)
        (- count_where (\<lambda>t. tk_id t = i \<or> tk_parent t = Some i) (tasks db))
        (- sum_where (\<lambda>t. tk_id t = i \<or> tk_parent t = Some i) (content_bytes (entries db)) (tasks db))
    \<and> (\<forall>v. v \<noteq> u \<longrightarrow> usage_of db' v = usage_of db v)"
  using run
proof (rule DeleteTask_InrE)
  fix t :: task_row and limits d q
  let ?db = "ensure_usage_row db u" and ?P = "\<lambda>y. tk_id y = tk_id t \<or> tk_parent y = Some (tk_id t)"
  assume t: "t \<in> set (tasks db)" "tk_owner t = u" "uuid_in e taskID = Some (tk_id t)"
    and ap: "quota_apply ?db \<lparr>q_userID = u, q_limits = limits, q_usage = usage_of db u\<rparr>
       (- u_Tasks (lockedTaskStorage ?db ?P)) (- u_ContentBytes (lockedTaskStorage ?db ?P)) = Inr (d, q)"
    and db': "db' = delete_tasks d (\<lambda>y. tk_id y = tk_id t)"
  have s: "structure_ok db" using inv by (simp add: store_inv_def)
  have td: "tasks d = tasks db" "entries d = entries db" using quota_apply_frame [OF ap] by simp_all
  have gone: "cascade_tasks (tasks db) (\<lambda>y. tk_id y = tk_id t) y \<longleftrightarrow> ?P y" if "y \<in> set (tasks db)" for y
    using cascade_iff [OF s that, of "\<lambda>y. tk_id y = tk_id t"] t(1) by auto
  have ts: "tasks db' = filter (\<lambda>t'. tk_id t' \<noteq> tk_id t \<and> tk_parent t' \<noteq> Some (tk_id t)) (tasks db)"
    by (auto simp: db' td delete_where_def gone intro!: filter_cong)
  have ids: "map tk_id (filter (cascade_tasks (tasks db) (\<lambda>y. tk_id y = tk_id t)) (tasks db)) = map tk_id (filter ?P (tasks db))"
    by (intro arg_cong [where f = "map tk_id"] filter_cong) (simp_all add: gone)
  have es: "entries db' = filter (\<lambda>c. er_task c \<notin> set (map tk_id (filter ?P (tasks db)))) (entries db)"
    by (simp add: db' delete_tasks_def Let_def td ids delete_where_def del: set_map)
  have ref: "er_task c \<in> set (map tk_id (tasks db))" if "c \<in> set (entries db)" for c
    using s that by (simp add: structure_defs)
  have split: "er_task c \<in> set (map tk_id (tasks db')) \<longleftrightarrow> er_task c \<notin> set (map tk_id (filter ?P (tasks db)))"
    if c: "c \<in> set (entries db)" for c
  proof -
    obtain y where y: "y \<in> set (tasks db)" "er_task c = tk_id y" using ref [OF c] by auto
    show ?thesis unfolding ts y(2) id_in_filter [OF s y(1)] by simp
  qed
  have use: "usage_of db' v = (if v = u then moved_usage (usage_of db v) (- count_where ?P (tasks db))
      (- sum_where ?P (content_bytes (entries db)) (tasks db)) else usage_of db v)" for v
  proof -
    have "usage_of db' v = usage_of d v" by (rule usage_of_cong) (simp add: db')
    then show ?thesis using quota_apply_moves [OF ap, of v] by (simp add: lockedTaskStorage_eq)
  qed
  have e1: "\<forall>c \<in> set (entries db'). c \<in> set (entries db) \<and> er_task c \<in> set (map tk_id (tasks db'))"
    using split by (auto simp only: es set_filter)
  have e2: "\<forall>c \<in> set (entries db). er_task c \<in> set (map tk_id (tasks db')) \<longrightarrow> c \<in> set (entries db')"
    using split by (auto simp only: es set_filter)
  show ?thesis using t(3) ts e1 e2 use by (intro exI [of _ "tk_id t"]) simp
qed

theorem DeleteTask_frees_witness:
  "\<exists>db'. DeleteTask ex_env ex_db ''u1'' ''t2'' = Inr (db', ()) \<and> map tk_id (tasks db') = [ex_task_uuid, ''t4'']"
proof -
  have "case DeleteTask ex_env ex_db ''u1'' ''t2'' of Inr (db', _) \<Rightarrow> True | Inl _ \<Rightarrow> False" by code_simp
  then obtain db' where run: "DeleteTask ex_env ex_db ''u1'' ''t2'' = Inr (db', ())" by (auto split: sum.splits)
  have i: "uuid_in ex_env ''t2'' = Some ''t2''" by code_simp
  have f: "map tk_id (filter (\<lambda>t. tk_id t \<noteq> ''t2'' \<and> tk_parent t \<noteq> Some ''t2'') (tasks ex_db)) = [ex_task_uuid, ''t4'']"
    by code_simp
  obtain j where "uuid_in ex_env ''t2'' = Some j" "tasks db' = filter (\<lambda>t. tk_id t \<noteq> j \<and> tk_parent t \<noteq> Some j) (tasks ex_db)"
    using DeleteTask_frees [OF ex_store_inv run] by blast
  then show ?thesis using i f run by simp
qed

end
