(* ===== verification/BoardSystem.thy ===== *)
theory BoardSystem
  imports TaskRules Entries Systems
begin

section \<open>The boards store as a system\<close>

text \<open>
  Every transaction of the boards store is a step from one database to the next; a transaction
  that returns an error leaves the database as it was. The identifiers the database draws are
  not empty. Every step keeps the invariant, the account tables, and the Inbox of every account
  that has one.
\<close>

inductive board_step :: "env \<Rightarrow> db \<Rightarrow> db \<Rightarrow> bool" for e where
  step_CreateBucket: "CreateBucket db now fresh u input = Inr (db', b) \<Longrightarrow> fresh \<noteq> [] \<Longrightarrow> board_step e db db'"
| step_UpdateBucket: "UpdateBucket e db now u i uinput = Inr (db', b) \<Longrightarrow> board_step e db db'"
| step_DeleteBucket: "DeleteBucket e db u i = Inr (db', x) \<Longrightarrow> board_step e db db'"
| step_ReorderBuckets: "ReorderBuckets db now u ids = Inr (db', x) \<Longrightarrow> board_step e db db'"
| step_EnsureInbox: "EnsureInboxBucketID db now fresh u = Inr (db', j) \<Longrightarrow> fresh \<noteq> [] \<Longrightarrow> board_step e db db'"
| step_CreateTask: "CreateTask e db now fresh u i cinput = Inr (db', t) \<Longrightarrow> fresh \<noteq> [] \<Longrightarrow> board_step e db db'"
| step_CreateInboxTask: "CreateInboxTask e db now freshList fresh u cinput = Inr (db', t) \<Longrightarrow> fresh \<noteq> [] \<Longrightarrow> freshList \<noteq> [] \<Longrightarrow>
    board_step e db db'"
| step_CreateSubtask: "CreateSubtask e db now fresh u i cinput = Inr (db', t) \<Longrightarrow> fresh \<noteq> [] \<Longrightarrow> board_step e db db'"
| step_updateTask: "updateTask e db now u agent i tinput w = Inr (db', t) \<Longrightarrow> board_step e db db'"
| step_MoveTask: "MoveTask e db now u i minput = Inr (db', t) \<Longrightarrow> board_step e db db'"
| step_claimTask: "claimTask e db now u agent i run = Inr (db', t) \<Longrightarrow> board_step e db db'"
| step_DeleteTask: "DeleteTask e db u i = Inr (db', x) \<Longrightarrow> board_step e db db'"
| step_ReorderTasks: "ReorderTasks e db now u i ids = Inr (db', x) \<Longrightarrow> board_step e db db'"
| step_ReorderSubtasks: "ReorderSubtasks e db now u i ids = Inr (db', x) \<Longrightarrow> board_step e db db'"
| step_CreateTaskEntry: "CreateTaskEntry e db now fresh u agent author i einput = Inr (db', en) \<Longrightarrow> board_step e db db'"

inductive_cases board_stepE: "board_step e db db'"

lemma board_step_inv: "board_step e db db' \<Longrightarrow> store_inv db \<Longrightarrow> store_inv db'"
  by (induction rule: board_step.induct)
    (blast dest: CreateBucket_inv UpdateBucket_inv DeleteBucket_inv ReorderBuckets_inv
      ensureInboxBucketID_inv [folded EnsureInboxBucketID_def] CreateTask_inv CreateInboxTask_inv CreateSubtask_inv updateTask_inv MoveTask_inv
      claimTask_inv DeleteTask_inv ReorderTasks_inv ReorderSubtasks_inv CreateTaskEntry_inv)+

subsection \<open>What the operations leave alone\<close>

definition same_accounts :: "db \<Rightarrow> db \<Rightarrow> bool" where
  "same_accounts db db' \<longleftrightarrow> users db' = users db \<and> agent_rows db' = agent_rows db"

lemma same_accounts_refl [simp]: "same_accounts db db"
  by (simp add: same_accounts_def)

lemma same_accounts_trans: "same_accounts a b \<Longrightarrow> same_accounts b c \<Longrightarrow> same_accounts a c"
  by (simp add: same_accounts_def)

lemma CreateBucket_accounts:
  "CreateBucket db now fresh u input = Inr (db', b) \<Longrightarrow> same_accounts db db'"
  by (erule CreateBucket_InrE) (auto simp: same_accounts_def insert_bucket_eq_Inr releaseInboxMarker_def)

lemma UpdateBucket_accounts: "UpdateBucket e db now u i input = Inr (db', b) \<Longrightarrow> same_accounts db db'"
  by (erule UpdateBucket_InrE) (auto simp: same_accounts_def releaseInboxMarker_def dest!: write_bucket_InrD split: if_splits)

lemma ensureInbox_accounts: "ensureInboxBucketID db now fresh u = Inr (db', j) \<Longrightarrow> same_accounts db db'"
  unfolding ensureInboxBucketID_def
  by (elim rbind_elims) (auto simp: same_accounts_def insert_bucket_eq_Inr rbind_eq_Inr split: option.splits list.splits)

lemma quota_apply_accounts: "quota_apply db q a b = Inr (db', q') \<Longrightarrow> same_accounts db db'"
  by (simp add: same_accounts_def quota_apply_frame)

lemma DeleteBucket_accounts: "DeleteBucket e db u i = Inr (db', x) \<Longrightarrow> same_accounts db db'"
  unfolding DeleteBucket_def Let_def
  by (elim rbind_elims) (auto simp: same_accounts_def lockStorageQuota_eq_Inr dest!: quota_apply_accounts)

lemma ReorderBuckets_accounts: "ReorderBuckets db now u ids = Inr (db', x) \<Longrightarrow> same_accounts db db'"
  by (drule ReorderBuckets_InrD) (auto simp: same_accounts_def)

text \<open>The operations on tasks keep the lists as well.\<close>

definition same_lists :: "db \<Rightarrow> db \<Rightarrow> bool" where
  "same_lists db db' \<longleftrightarrow> same_accounts db db' \<and> buckets db' = buckets db"

lemma same_lists_refl [simp]: "same_lists db db"
  by (simp add: same_lists_def)

lemma quota_apply_lists: "quota_apply db q a b = Inr (db', q') \<Longrightarrow> same_lists db db'"
  by (simp add: same_lists_def same_accounts_def quota_apply_frame)

lemma insert_key_lists: "insert_key e db now u input task = Inr db' \<Longrightarrow> same_lists db db'"
  by (auto simp: same_lists_def same_accounts_def insert_key_eq_Inr)

lemma create_new_task_lists:
  assumes "create_new_task e db now fresh u ref input = Inr (db', task)"
  shows "same_lists db db'"
  using assms
proof (rule create_new_task_InrE)
  fix db1 q db2 q' bucket parent db3 assignee
  assume "db1 = ensure_usage_row db u" "quota_apply db1 q 1 (inputContentBytes (pc_title input) (pc_description input)) = Inr (db2, q')"
    and ins: "insertTask db2 now fresh bucket input assignee parent = Inr (db3, task)"
    and key: "pc_idempotencyKey input = [] \<longrightarrow> db' = db3" "pc_idempotencyKey input \<noteq> [] \<longrightarrow> insert_key e db3 now u input task = Inr db'"
  then have "same_lists db db2" by (auto simp: same_lists_def same_accounts_def dest!: quota_apply_lists)
  moreover have "same_lists db2 db3" using ins by (rule insertTask_InrE) (simp add: same_lists_def same_accounts_def)
  moreover have "same_lists db3 db'" using key insert_key_lists by (cases "pc_idempotencyKey input = []") auto
  ultimately show ?thesis by (simp add: same_lists_def same_accounts_def)
qed

lemma createTask_lists: "createTask e db now fresh u ref input = Inr (db', task) \<Longrightarrow> same_lists db db'"
  by (auto simp: createTask_def rbind_eq_Inr split: if_splits option.splits dest: create_new_task_lists)

lemma CreateTask_lists: "CreateTask e db now fresh u b input = Inr (db', task) \<Longrightarrow> same_lists db db'"
  unfolding CreateTask_def createTaskForTarget_def createPreparedTask_def by (elim rbind_elims) (erule createTask_lists)

lemma CreateSubtask_lists: "CreateSubtask e db now fresh u b input = Inr (db', task) \<Longrightarrow> same_lists db db'"
  unfolding CreateSubtask_def createPreparedTask_def Let_def by (elim rbind_elims) (blast dest: createTask_lists)

lemma task_ops_lists:
  assumes inv: "store_inv db"
  shows "updateTask e db now u agent i tinput w = Inr (db', t) \<Longrightarrow> same_lists db db'"
    "MoveTask e db now u i minput = Inr (db', t) \<Longrightarrow> same_lists db db'"
    "ReorderSubtasks e db now u i ids = Inr (db', x) \<Longrightarrow> same_lists db db'"
    "claimTask e db now u agent i run = Inr (db', t) \<Longrightarrow> same_lists db db'"
    "DeleteTask e db u i = Inr (db', x) \<Longrightarrow> same_lists db db'"
proof -
  show "same_lists db db'" if "updateTask e db now u agent i tinput w = Inr (db', t)"
    using inv that by (rule updateTask_rows) (simp add: same_lists_def same_accounts_def)
  show "same_lists db db'" if "MoveTask e db now u i minput = Inr (db', t)"
    using inv that by (rule MoveTask_rows) (simp add: same_lists_def same_accounts_def)
  show "same_lists db db'" if "ReorderSubtasks e db now u i ids = Inr (db', x)"
    using inv that by (rule ReorderSubtasks_rows) (simp add: same_lists_def same_accounts_def)
  show "same_lists db db'" if "claimTask e db now u agent i run = Inr (db', t)"
    using that by (rule claimTask_InrE) (simp add: same_lists_def same_accounts_def)
  show "same_lists db db'" if "DeleteTask e db u i = Inr (db', x)"
    using that by (rule DeleteTask_InrE) (auto simp: same_lists_def same_accounts_def dest!: quota_apply_lists)
qed

lemma reorder_tasks_lists: "reorder_tasks e db now u b k ids = Inr db' \<Longrightarrow> same_lists db db'"
proof (induction ids arbitrary: db k)
  case (Cons i ids)
  from Cons.prems show ?case
    unfolding reorder_tasks.simps Let_def
    by (elim rbind_elims) (drule Cons.IH, simp add: same_lists_def same_accounts_def)
qed simp

lemma ReorderTasks_lists: "ReorderTasks e db now u b ids = Inr (db', x) \<Longrightarrow> same_lists db db'"
  unfolding ReorderTasks_def
  by (elim rbind_elims) (auto simp: lockStorageQuota_eq_Inr same_lists_def same_accounts_def dest!: reorder_tasks_lists)

lemma CreateTaskEntry_lists:
  assumes inv: "store_inv db" and run: "CreateTaskEntry e db now fresh u agent author taskID input = Inr (db', x)"
  shows "same_lists db db'"
  using run
proof (cases rule: CreateTaskEntry_cases)
  case (new i run r)
  have "users db' = users db"
    using new(6)
  proof (rule create_entry_InrE)
    fix t :: task_row and name limits db2 q
    let ?c = "new_entry e now fresh u agent i run name r"
    assume ap: "quota_apply ((ensure_usage_row db u)\<lparr>entries := entries db @ [?c]\<rparr>)
        \<lparr>q_userID = u, q_limits = limits, q_usage = usage_of db u\<rparr> 0 (int (length (eq_body r))) = Inr (db2, q)"
      and out: "if eq_kind r = ''output'' then output_review db2 now i run = Inr db' \<and> x = entry_of_row ?c StatusNeedsReview ''output''
        else db' = db2 \<and> x = entry_of_row ?c (tk_status t) (tk_review t)"
    have "users db' = users db2" using out by (auto split: if_splits dest!: output_review_InrD)
    then show ?thesis using quota_apply_frame(1) [OF ap] by simp
  qed
  moreover have "agent_rows db' = agent_rows db" using inv new(6) by (rule create_entry_task) simp
  moreover have "buckets db' = buckets db" using create_entry_inv [OF inv new(6)] by simp
  ultimately show ?thesis by (simp add: same_lists_def same_accounts_def)
qed simp

lemma CreateInboxTask_accounts:
  "CreateInboxTask e db now freshList fresh u input = Inr (db', t) \<Longrightarrow> same_accounts db db'"
  unfolding CreateInboxTask_def
  by (elim rbind_elims) (drule ensureInbox_accounts, drule createTask_lists, simp add: same_lists_def same_accounts_def)

lemma board_step_accounts:
  assumes "board_step e db db'" "store_inv db"
  shows "same_accounts db db'"
  using assms
proof (induction rule: board_step.induct)
  case step_EnsureInbox
  then show ?case using ensureInbox_accounts unfolding EnsureInboxBucketID_def by blast
qed (blast dest: CreateBucket_accounts UpdateBucket_accounts DeleteBucket_accounts ReorderBuckets_accounts CreateInboxTask_accounts
    CreateTask_lists [unfolded same_lists_def] CreateSubtask_lists [unfolded same_lists_def] task_ops_lists [unfolded same_lists_def]
    ReorderTasks_lists [unfolded same_lists_def] CreateTaskEntry_lists [unfolded same_lists_def])+

subsection \<open>The Inbox survives\<close>

lemma same_lists_inbox: "same_lists db db' \<Longrightarrow> has_inbox db' v = has_inbox db v"
  by (simp add: same_lists_def has_inbox_def)

lemma CreateInboxTask_inbox:
  assumes "store_inv db" "has_inbox db v" "CreateInboxTask e db now freshList fresh u input = Inr (db', t)"
  shows "has_inbox db' v"
  using assms(3) unfolding CreateInboxTask_def
proof (elim rbind_elims)
  fix p db1 i
  assume "ensureInboxBucketID db now freshList u = Inr (db1, i)" and "createTask e db1 now fresh u (Inr i) p = Inr (db', t)"
  then show ?thesis using ensureInboxBucketID_inbox(1) [OF assms(1), of now freshList u db1 i v] assms(2)
      createTask_lists [of e db1 now fresh u "Inr i" p db' t] same_lists_inbox [of db1 db' v] by blast
qed

lemma board_step_inbox:
  assumes "board_step e db db'" "store_inv db" "has_inbox db v"
  shows "has_inbox db' v"
  using assms
proof (induction rule: board_step.induct)
  case step_EnsureInbox
  then show ?case using ensureInboxBucketID_inbox(1) unfolding EnsureInboxBucketID_def by blast
next
  case step_CreateTask
  then show ?case using CreateTask_lists same_lists_inbox by blast
next
  case step_CreateSubtask
  then show ?case using CreateSubtask_lists same_lists_inbox by blast
next
  case step_ReorderTasks
  then show ?case using ReorderTasks_lists same_lists_inbox by blast
next
  case step_CreateTaskEntry
  then show ?case using CreateTaskEntry_lists same_lists_inbox by blast
next
  case step_CreateInboxTask
  then show ?case using CreateInboxTask_inbox by blast
next
  case (step_CreateBucket db now fresh u input db' b)
  then show ?case using CreateBucket_inbox by blast
next
  case (step_UpdateBucket db now u i uinput db' b)
  then show ?case using UpdateBucket_inbox by blast
next
  case (step_DeleteBucket db u i db' x)
  then show ?case using DeleteBucket_inbox by blast
next
  case (step_ReorderBuckets db now u ids db' x)
  then show ?case using ReorderBuckets_inbox by blast
next
  case step_updateTask
  then show ?case using task_ops_lists(1) same_lists_inbox by blast
next
  case step_MoveTask
  then show ?case using task_ops_lists(2) same_lists_inbox by blast
next
  case step_ReorderSubtasks
  then show ?case using task_ops_lists(3) same_lists_inbox by blast
next
  case step_claimTask
  then show ?case using task_ops_lists(4) same_lists_inbox by blast
next
  case step_DeleteTask
  then show ?case using task_ops_lists(5) same_lists_inbox by blast
qed

end
