(* ===== verification/Retention.thy ===== *)
theory Retention
  imports Agents RateLimit "HOL-Library.Multiset"
begin

section \<open>What may be deleted, and deleting it (cleanup/cleanup.go)\<close>

text \<open>
  The retention rules, and the statement that deletes a bounded batch of the rows a rule makes
  eligible, on the tables that the other components use. Deleting a credential also deletes the
  rotations that refer to it, which is the foreign key of the rotations table.
\<close>

subsection \<open>Rules\<close>

text \<open>A row as the rules see it: its timestamps that are not NULL. A table of the database is a constructor.\<close>

type_synonym timed_row = "(string \<times> int) list"

datatype table = Sessions | ResetTokens | ResetRequests | SignupLimits | ResetLimits | ConfirmLimits
  | LimiterState | LimiterMetrics | TaskKeys | RunStarts | Rotations | APITokens | AgentCredentials

datatype null_test = AnyRow | IsNull string | IsNotNull string

record cleanup_rule =
  ru_name :: string
  ru_retention :: string
  ru_action :: string
  ru_table :: table
  ru_null :: null_test
  ru_column :: string
  ru_age :: int
  ru_order :: string

definition DefaultBatchSize :: int where "DefaultBatchSize = 500"
definition DefaultRowBudget :: int where "DefaultRowBudget = 500000"

definition hours :: "int \<Rightarrow> int" where "hours n = n * 60 * 60 * 1000000"

text \<open>\<open>null AND column <= now - age\<close> is the predicate, in its own fields.\<close>

definition newRule :: "string \<Rightarrow> string \<Rightarrow> table \<Rightarrow> null_test \<Rightarrow> string \<Rightarrow> int \<Rightarrow> string \<Rightarrow> cleanup_rule" where
  "newRule name retention table null column age order =
     \<lparr>ru_name = name, ru_retention = retention, ru_action = ''delete'', ru_table = table, ru_null = null,
      ru_column = column, ru_age = age, ru_order = order\<rparr>"

definition rules :: "cleanup_rule list" where
  "rules =
     [newRule ''sessions'' ''until expires_at'' Sessions AnyRow ''expires_at'' 0 ''expires_at'',
      newRule ''password_reset_tokens_expired'' ''until expires_at'' ResetTokens (IsNull ''used_at'') ''expires_at'' 0 ''expires_at'',
      newRule ''password_reset_tokens_used'' ''24 hours after use'' ResetTokens (IsNotNull ''used_at'') ''used_at'' (hours 24) ''used_at'',
      newRule ''password_reset_requests_processed'' ''24 hours after processing'' ResetRequests (IsNotNull ''processed_at'') ''processed_at'' (hours 24) ''processed_at'',
      newRule ''password_reset_requests_stale'' ''7 days while pending'' ResetRequests (IsNull ''processed_at'') ''created_at'' (hours (7 * 24)) ''created_at'',
      newRule ''signup_rate_limits'' ''24 hours'' SignupLimits AnyRow ''window_started_at'' (hours 24) ''window_started_at'',
      newRule ''password_reset_rate_limits'' ''24 hours'' ResetLimits AnyRow ''window_started_at'' (hours 24) ''window_started_at'',
      newRule ''password_reset_confirmation_rate_limits'' ''24 hours'' ConfirmLimits AnyRow ''window_started_at'' (hours 24) ''window_started_at'',
      newRule ''api_rate_limit_state'' ''until expires_at'' LimiterState AnyRow ''expires_at'' 0 ''expires_at'',
      newRule ''api_rate_limit_metrics'' ''30 days'' LimiterMetrics AnyRow ''bucket_start'' (hours (30 * 24)) ''bucket_start'',
      newRule ''task_idempotency_keys'' ''7 days'' TaskKeys AnyRow ''created_at'' (hours (7 * 24)) ''created_at'',
      newRule ''task_run_starts'' ''7 days'' RunStarts AnyRow ''started_at'' (hours (7 * 24)) ''started_at'',
      newRule ''agent_credential_rotations'' ''7 days'' Rotations AnyRow ''created_at'' (hours (7 * 24)) ''created_at'',
      newRule ''api_tokens'' ''revoked for 30 days'' APITokens (IsNotNull ''revoked_at'') ''revoked_at'' (hours (30 * 24)) ''revoked_at'',
      newRule ''agent_credentials'' ''revoked for 30 days'' AgentCredentials (IsNotNull ''revoked_at'') ''revoked_at'' (hours (30 * 24)) ''revoked_at'']"

definition eligible :: "int \<Rightarrow> cleanup_rule \<Rightarrow> timed_row \<Rightarrow> bool" where
  "eligible now rule row \<longleftrightarrow>
     (case ru_null rule of AnyRow \<Rightarrow> True | IsNull c \<Rightarrow> map_of row c = None | IsNotNull c \<Rightarrow> map_of row c \<noteq> None)
     \<and> (case map_of row (ru_column rule) of None \<Rightarrow> False | Some t \<Rightarrow> t \<le> now - ru_age rule)"

subsection \<open>The timestamps of a row\<close>

text \<open>
  A row is shown with its key and the columns that the rules name. The limiter counts in
  nanoseconds, the columns of the database in microseconds.
\<close>

type_synonym shown_row = "string list \<times> timed_row"

definition column :: "string \<Rightarrow> int option \<Rightarrow> timed_row" where
  "column name v = (case v of None \<Rightarrow> [] | Some t \<Rightarrow> [(name, t)])"

definition session_view :: "session_row \<Rightarrow> shown_row" where
  "session_view s = ([se_hash s], [(''expires_at'', se_expires s)])"

definition reset_token_view :: "reset_token_row \<Rightarrow> shown_row" where
  "reset_token_view t = ([rt_hash t], (''expires_at'', rt_expires t) # column ''used_at'' (rt_used t))"

definition reset_request_view :: "reset_request_row \<Rightarrow> shown_row" where
  "reset_request_view r = ([rr_id r], (''created_at'', rr_created r) # column ''processed_at'' (rr_processed r))"

definition attempt_view :: "attempt_row \<Rightarrow> shown_row" where
  "attempt_view a = ([aw_dimension a, aw_hash a], [(''window_started_at'', aw_started a)])"

definition state_view :: "state_row \<Rightarrow> shown_row" where
  "state_view r = ([st_scope r, st_hash r, st_class r], [(''expires_at'', st_expires r div 1000)])"

definition metric_view :: "metric_row \<Rightarrow> shown_row" where
  "metric_view m = ([me_class m, me_outcome m, Itoa (me_shard m)], [(''bucket_start'', me_bucket m div 1000)])"

definition task_key_view :: "idem_row \<Rightarrow> shown_row" where
  "task_key_view k = ([ik_user k, ik_key k], [(''created_at'', ik_created k)])"

definition run_start_view :: "run_start_row \<Rightarrow> shown_row" where
  "run_start_view r = ([rs_owner r, rs_run r], [(''started_at'', rs_started r)])"

definition rotation_view :: "rotation_row \<Rightarrow> shown_row" where
  "rotation_view r = ([ro_owner r, ro_key r, ro_credential r], [(''created_at'', ro_created r)])"

definition api_token_view :: "api_token_row \<Rightarrow> shown_row" where
  "api_token_view t = ([ap_id t], column ''revoked_at'' (ap_revoked t))"

definition credential_view :: "credential_row \<Rightarrow> shown_row" where
  "credential_view c = ([cd_id c], column ''revoked_at'' (cd_revoked c))"

subsection \<open>Deleting a batch\<close>

text \<open>
  The common table expression of \<open>boundedDelete\<close>: the eligible rows that no other transaction
  holds locked, the earliest first, at most \<open>limit\<close> of them. A row is identified by its position,
  as by \<open>ctid\<close>; \<open>locked\<close> says which positions are locked. The result is the rows deleted and the rows left.
\<close>

definition boundedDelete ::
    "int \<Rightarrow> cleanup_rule \<Rightarrow> ('a \<Rightarrow> timed_row) \<Rightarrow> (nat \<Rightarrow> bool) \<Rightarrow> nat \<Rightarrow> 'a list \<Rightarrow> 'a list \<times> 'a list" where
  "boundedDelete now rule times_of locked limit rows =
     (let key = (\<lambda>p. case map_of (times_of (snd p)) (ru_order rule) of None \<Rightarrow> 0 | Some t \<Rightarrow> t);
          doomed = map fst (take limit (sort_key key
            (filter (\<lambda>p. eligible now rule (times_of (snd p)) \<and> \<not> locked (fst p)) (enumerate 0 rows)))) in
      (map snd (filter (\<lambda>p. fst p \<in> set doomed) (enumerate 0 rows)),
       map snd (filter (\<lambda>p. fst p \<notin> set doomed) (enumerate 0 rows))))"

text \<open>The query of a rule on the tables of accounts and boards, with the number it returns.\<close>

definition delete_account_rows :: "int \<Rightarrow> cleanup_rule \<Rightarrow> (nat \<Rightarrow> bool) \<Rightarrow> nat \<Rightarrow> auth_db \<Rightarrow> nat \<times> auth_db" where
  "delete_account_rows now rule locked limit adb =
     (case ru_table rule of
       Sessions \<Rightarrow> (case boundedDelete now rule (snd \<circ> session_view) locked limit (sessions adb) of (gone, rows) \<Rightarrow>
         (length gone, adb\<lparr>sessions := rows\<rparr>))
     | ResetTokens \<Rightarrow> (case boundedDelete now rule (snd \<circ> reset_token_view) locked limit (reset_tokens adb) of (gone, rows) \<Rightarrow>
         (length gone, adb\<lparr>reset_tokens := rows\<rparr>))
     | ResetRequests \<Rightarrow> (case boundedDelete now rule (snd \<circ> reset_request_view) locked limit (reset_requests adb) of (gone, rows) \<Rightarrow>
         (length gone, adb\<lparr>reset_requests := rows\<rparr>))
     | SignupLimits \<Rightarrow> (case boundedDelete now rule (snd \<circ> attempt_view) locked limit (signup_limits adb) of (gone, rows) \<Rightarrow>
         (length gone, adb\<lparr>signup_limits := rows\<rparr>))
     | ResetLimits \<Rightarrow> (case boundedDelete now rule (snd \<circ> attempt_view) locked limit (reset_limits adb) of (gone, rows) \<Rightarrow>
         (length gone, adb\<lparr>reset_limits := rows\<rparr>))
     | ConfirmLimits \<Rightarrow> (case boundedDelete now rule (snd \<circ> attempt_view) locked limit (confirm_limits adb) of (gone, rows) \<Rightarrow>
         (length gone, adb\<lparr>confirm_limits := rows\<rparr>))
     | Rotations \<Rightarrow> (case boundedDelete now rule (snd \<circ> rotation_view) locked limit (rotations adb) of (gone, rows) \<Rightarrow>
         (length gone, adb\<lparr>rotations := rows\<rparr>))
     | APITokens \<Rightarrow> (case boundedDelete now rule (snd \<circ> api_token_view) locked limit (api_tokens adb) of (gone, rows) \<Rightarrow>
         (length gone, adb\<lparr>api_tokens := rows\<rparr>))
     | AgentCredentials \<Rightarrow> (case boundedDelete now rule (snd \<circ> credential_view) locked limit (credentials adb) of (gone, rows) \<Rightarrow>
         (length gone, adb\<lparr>credentials := rows, rotations := delete_where (\<lambda>r. ro_credential r \<in> cd_id ` set gone) (rotations adb)\<rparr>))
     | TaskKeys \<Rightarrow> (case boundedDelete now rule (snd \<circ> task_key_view) locked limit (idem_keys (store adb)) of (gone, rows) \<Rightarrow>
         (length gone, adb\<lparr>store := (store adb)\<lparr>idem_keys := rows\<rparr>\<rparr>))
     | RunStarts \<Rightarrow> (case boundedDelete now rule (snd \<circ> run_start_view) locked limit (run_starts (store adb)) of (gone, rows) \<Rightarrow>
         (length gone, adb\<lparr>store := (store adb)\<lparr>run_starts := rows\<rparr>\<rparr>))
     | _ \<Rightarrow> (0, adb))"

text \<open>The query of a rule on the tables of the limiter.\<close>

definition delete_limiter_rows :: "int \<Rightarrow> cleanup_rule \<Rightarrow> (nat \<Rightarrow> bool) \<Rightarrow> nat \<Rightarrow> limiter_db \<Rightarrow> nat \<times> limiter_db" where
  "delete_limiter_rows now rule locked limit db =
     (case ru_table rule of
       LimiterState \<Rightarrow> (case boundedDelete now rule (snd \<circ> state_view) locked limit (rl_state db) of (gone, rows) \<Rightarrow>
         (length gone, db\<lparr>rl_state := rows\<rparr>))
     | LimiterMetrics \<Rightarrow> (case boundedDelete now rule (snd \<circ> metric_view) locked limit (rl_metrics db) of (gone, rows) \<Rightarrow>
         (length gone, db\<lparr>rl_metrics := rows\<rparr>))
     | _ \<Rightarrow> (0, db))"

subsection \<open>What one delete does\<close>

lemma enumerate_fst_inj: "p \<in> set (enumerate n xs) \<Longrightarrow> q \<in> set (enumerate n xs) \<Longrightarrow> fst p = fst q \<Longrightarrow> p = q"
  by (cases p; cases q) (simp add: in_set_enumerate_eq)

lemma boundedDelete_parts:
  assumes "boundedDelete now rule times_of locked limit rows = (gone, rows')"
  shows "length gone \<le> limit" "mset rows = mset gone + mset rows'" "\<And>r. r \<in> set gone \<Longrightarrow> eligible now rule (times_of r)"
proof -
  define E where "E = enumerate 0 rows"
  define P where "P = (\<lambda>p. eligible now rule (times_of (snd p)) \<and> \<not> locked (fst p))"
  define D where "D = take limit (sort_key (\<lambda>p. case map_of (times_of (snd p)) (ru_order rule) of None \<Rightarrow> 0 | Some t \<Rightarrow> t) (filter P E))"
  have "boundedDelete now rule times_of locked limit rows
      = (map snd (filter (\<lambda>p. fst p \<in> set (map fst D)) E), map snd (filter (\<lambda>p. fst p \<notin> set (map fst D)) E))"
    by (simp only: boundedDelete_def Let_def D_def P_def E_def)
  then have run: "gone = map snd (filter (\<lambda>p. fst p \<in> fst ` set D) E)" "rows' = map snd (filter (\<lambda>p. fst p \<notin> fst ` set D) E)"
    using assms by simp_all
  have D: "set D \<subseteq> {p \<in> set E. P p}" using set_take_subset by (fastforce simp: D_def)
  have dE: "distinct E" by (simp add: E_def distinct_enumerate)
  then have dD: "distinct D" by (simp add: D_def)
  have hit: "fst p \<in> fst ` set D \<longleftrightarrow> p \<in> set D" if "p \<in> set E" for p
  proof
    assume "fst p \<in> fst ` set D"
    then obtain q where q: "q \<in> set D" "fst p = fst q" by blast
    then have "q \<in> set E" using D by blast
    then show "p \<in> set D" using enumerate_fst_inj that q unfolding E_def by metis
  qed simp
  let ?A = "filter (\<lambda>p. fst p \<in> fst ` set D) E" and ?B = "filter (\<lambda>p. fst p \<notin> fst ` set D) E"
  have setA: "set ?A = set D" using D hit by auto
  then have "length ?A = length D" using distinct_card [of ?A] distinct_card [OF dD] dE by simp
  then show "length gone \<le> limit" by (simp add: run D_def)
  have rows: "rows = map snd E" by (simp add: E_def)
  show "mset rows = mset gone + mset rows'"
    unfolding rows run mset_map mset_filter by (simp add: image_mset_union [symmetric])
  show "eligible now rule (times_of r)" if "r \<in> set gone" for r
  proof -
    have "r \<in> snd ` set ?A" using that by (simp add: run)
    then show ?thesis using D unfolding setA by (auto simp: P_def)
  qed
qed

text \<open>What is left of a table keeps what held of all its rows, of their keys and of their number.\<close>

lemma mset_part:
  assumes "mset rows = mset gone + mset rows'"
  shows "set rows' \<subseteq> set rows" "set gone \<subseteq> set rows" "distinct (map f rows) \<Longrightarrow> distinct (map f rows')" "count_where P rows' \<le> count_where P rows"
    "length rows = length gone + length rows'" "r \<in> set rows \<Longrightarrow> f r \<notin> f ` set gone \<Longrightarrow> r \<in> set rows'"
proof -
  have eq: "mset rows = mset (gone @ rows')" using assms by simp
  then have s: "set rows = set gone \<union> set rows'" using mset_eq_setD [OF eq] by simp
  show "set rows' \<subseteq> set rows" "set gone \<subseteq> set rows" using s by auto
  have "mset (map f rows) = mset (map f (gone @ rows'))" by (simp only: mset_map eq)
  then have "distinct (map f rows) = distinct (map f (gone @ rows'))" by (rule mset_eq_imp_distinct_iff)
  then show "distinct (map f rows) \<Longrightarrow> distinct (map f rows')" by simp
  have "length (filter P rows) = length (filter P (gone @ rows'))" using eq by (metis mset_filter size_mset)
  then show "count_where P rows' \<le> count_where P rows" by (simp add: count_where_def)
  show "length rows = length gone + length rows'" using eq by (metis length_append size_mset)
  show "r \<in> set rows \<Longrightarrow> f r \<notin> f ` set gone \<Longrightarrow> r \<in> set rows'" using s by auto
qed

end
