(* ===== verification/AccountSystem.thy ===== *)
theory AccountSystem
  imports BoardSystem Retention
begin

section \<open>The account tables as a system\<close>

text \<open>
  What the account tables always satisfy, and that every operation on accounts, tokens, agents
  and boards keeps it. The store's transactions appear through \<open>board_step\<close>, which leaves users
  and agents alone.
\<close>

subsection \<open>The invariant\<close>

definition enabled :: "user_row list \<Rightarrow> string \<Rightarrow> bool" where
  "enabled us i \<longleftrightarrow> (\<exists>u \<in> set us. us_id u = i \<and> \<not> us_disabled u)"

definition users_ok :: "user_row list \<Rightarrow> bool" where
  "users_ok us \<longleftrightarrow> distinct (map us_id us) \<and> distinct (map us_email us)"

definition same_name :: "env \<Rightarrow> agent_row \<Rightarrow> agent_row \<Rightarrow> bool" where
  "same_name e a b \<longleftrightarrow> \<not> ag_archived a \<and> \<not> ag_archived b \<and> ag_owner a = ag_owner b
     \<and> name_key e (ag_name a) = name_key e (ag_name b)"

definition agents_ok :: "env \<Rightarrow> user_row list \<Rightarrow> agent_row list \<Rightarrow> bool" where
  "agents_ok e us ags \<longleftrightarrow> distinct (map ag_id ags) \<and> (\<forall>a \<in> set ags. ag_owner a \<in> us_id ` set us \<and> ag_id a \<noteq> [])
     \<and> (\<forall>a \<in> set ags. \<forall>b \<in> set ags. same_name e a b \<longrightarrow> ag_id a = ag_id b)
     \<and> (\<forall>u. count_where (\<lambda>a. ag_owner a = u \<and> \<not> ag_archived a) ags \<le> lim_Agents ProLimits)"

definition sessions_ok :: "user_row list \<Rightarrow> session_row list \<Rightarrow> bool" where
  "sessions_ok us ss \<longleftrightarrow> distinct (map se_hash ss) \<and> (\<forall>s \<in> set ss. enabled us (se_user s))"

definition tokens_ok :: "user_row list \<Rightarrow> api_token_row list \<Rightarrow> bool" where
  "tokens_ok us ts \<longleftrightarrow> distinct (map ap_id ts) \<and> distinct (map ap_hash ts)
     \<and> (\<forall>t \<in> set ts. ap_revoked t = None \<longrightarrow> enabled us (ap_user t))
     \<and> (\<forall>u. count_where (active_token u) ts \<le> lim_APITokens ProLimits)"

definition credentials_ok :: "agent_row list \<Rightarrow> credential_row list \<Rightarrow> bool" where
  "credentials_ok ags cs \<longleftrightarrow> distinct (map cd_id cs) \<and> distinct (map cd_hash cs)
     \<and> (\<forall>c \<in> set cs. cd_agent c \<in> ag_id ` set ags)
     \<and> (\<forall>a. count_where (\<lambda>c. cd_agent c = a \<and> cd_revoked c = None) cs \<le> 1)"

definition rotations_ok :: "credential_row list \<Rightarrow> rotation_row list \<Rightarrow> bool" where
  "rotations_ok cs rs \<longleftrightarrow> distinct (map (\<lambda>r. (ro_owner r, ro_key r)) rs)
     \<and> (\<forall>r \<in> set rs. \<exists>c \<in> set cs. cd_id c = ro_credential r \<and> cd_agent c = ro_agent r)"

definition resets_ok :: "reset_token_row list \<Rightarrow> bool" where
  "resets_ok ts \<longleftrightarrow> distinct (map rt_hash ts) \<and> (\<forall>u. count_where (\<lambda>t. rt_user t = u \<and> rt_used t = None) ts \<le> 1)"

definition account_inv :: "env \<Rightarrow> auth_db \<Rightarrow> bool" where
  "account_inv e adb \<longleftrightarrow> store_inv (store adb) \<and> users_ok (users (store adb))
     \<and> agents_ok e (users (store adb)) (agent_rows (store adb)) \<and> sessions_ok (users (store adb)) (sessions adb)
     \<and> tokens_ok (users (store adb)) (api_tokens adb) \<and> credentials_ok (agent_rows (store adb)) (credentials adb)
     \<and> rotations_ok (credentials adb) (rotations adb) \<and> resets_ok (reset_tokens adb)"

subsection \<open>Changing users and agents under the store\<close>

lemma store_inv_users:
  assumes "store_inv db" "us_id ` set (users db) \<subseteq> us_id ` set us"
  shows "store_inv (db\<lparr>users := us\<rparr>)"
proof -
  have "structure_ok (db\<lparr>users := us\<rparr>)"
    using assms unfolding store_inv_def structure_ok_def
    by (auto simp: keys_ok_def refs_ok_def inbox_ok_def rows_ok_def list_all_iff list_owner_def assigned_ok_def)
  moreover have "accounting_ok (db\<lparr>users := us\<rparr>)"
    using assms(1) by (simp add: store_inv_def accounting_ok_def usage_of_def stored_tasks_of_def stored_bytes_of_def)
  ultimately show ?thesis by (simp add: store_inv_def)
qed

lemma store_inv_entitlements [simp]: "store_inv (db\<lparr>entitlement_rows := es\<rparr>) = store_inv db"
proof -
  have "structure_ok (db\<lparr>entitlement_rows := es\<rparr>) = structure_ok db"
    by (rule iffI; erule structure_cong; simp)
  then show ?thesis
    by (simp add: store_inv_def accounting_ok_def usage_of_def stored_tasks_of_def stored_bytes_of_def)
qed

lemma store_inv_agents:
  assumes inv: "store_inv db"
    and keep: "\<And>t g. t \<in> set (tasks db) \<Longrightarrow> g \<in> set (agent_rows db) \<Longrightarrow> tk_assignee t = Some (ag_id g) \<Longrightarrow> ag_owner g = tk_owner t \<Longrightarrow>
      \<exists>g' \<in> set ags. ag_id g' = ag_id g \<and> ag_owner g' = ag_owner g"
  shows "store_inv (db\<lparr>agent_rows := ags\<rparr>)"
proof -
  have s: "structure_ok db" using inv by (simp add: store_inv_def)
  have "assigned_ok (db\<lparr>agent_rows := ags\<rparr>) t" if t: "t \<in> set (tasks db)" for t
    using task_assignedD [OF s t] keep [OF t] by (cases "tk_assignee t") (auto simp: assigned_ok_def list_ex_iff)
  then have "structure_ok (db\<lparr>agent_rows := ags\<rparr>)"
    using s unfolding structure_ok_def
    by (auto simp: keys_ok_def refs_ok_def inbox_ok_def rows_ok_def list_all_iff list_owner_def)
  moreover have "accounting_ok (db\<lparr>agent_rows := ags\<rparr>)"
    using inv by (simp add: store_inv_def accounting_ok_def usage_of_def stored_tasks_of_def stored_bytes_of_def)
  ultimately show ?thesis by (simp add: store_inv_def)
qed

lemma store_inv_unassign:
  assumes inv: "store_inv db"
  shows "store_inv (db\<lparr>tasks := map (unassign i) (tasks db)\<rparr>)"
proof -
  let ?ts = "map (unassign i) (tasks db)"
  have s: "structure_ok db" and a: "accounting_ok db" using inv by (simp_all add: store_inv_def)
  have same: "same_task t (unassign i t) \<and> tk_bucket (unassign i t) = tk_bucket t \<and> storage_bytes (unassign i t) = storage_bytes t"
    for t by (simp add: unassign_def same_task_def storage_bytes_def)
  have "task_row_ok (unassign i t) \<and> assigned_ok db (unassign i t)" if t: "t \<in> set (tasks db)" for t
    using task_rowD [OF s t] task_assignedD [OF s t] by (auto simp: unassign_def task_row_ok_def assigned_ok_def)
  then have upd: "tasks_updated db tk_bucket ?ts"
    using same by (simp add: tasks_updated_def list_all2_map2 list_all2_same)
  have "structure_ok (db\<lparr>tasks := ?ts\<rparr>)"
  proof (rule structure_tasks_updated [OF s upd])
    show "tk_bucket t = tk_bucket q" if "t \<in> set (tasks db)" "q \<in> set (tasks db)" "tk_parent t = Some (tk_id q)" for t q
      using that task_parentD [OF s that(1,3)] task_idD [OF s _ that(2)] by metis
  qed (rule task_ownerD [OF s])
  moreover have "accounting_ok (db\<lparr>tasks := ?ts\<rparr>)"
    using a same stored_tasks_updated [of db ?ts] stored_bytes_updated [of db ?ts]
    by (simp add: accounting_ok_def usage_of_def same_task_def list_all2_map2 list_all2_same)
  ultimately show ?thesis by (simp add: store_inv_def)
qed

subsection \<open>New accounts\<close>

lemma enabledI: "u \<in> set us \<Longrightarrow> \<not> us_disabled u \<Longrightarrow> enabled us (us_id u)"
  by (auto simp: enabled_def)

lemma bex_update_where:
  "(\<And>c. Q (f c) = Q c) \<Longrightarrow> (\<exists>c \<in> set (update_where P f cs). Q c) \<longleftrightarrow> (\<exists>c \<in> set cs. Q c)"
  by (induction cs) auto

lemma enabled_append [simp]: "enabled (us @ vs) i \<longleftrightarrow> enabled us i \<or> enabled vs i"
  by (auto simp: enabled_def)

lemma enabled_limits: "enabled (users db) u \<Longrightarrow> \<exists>limits. accountLimitsForUpdate db u = Inr limits"
  by (auto simp: enabled_def accountLimitsForUpdate_def find_None_iff split: option.splits)

lemma insert_user_InrE:
  assumes "insert_user db now fresh email pw role = Inr (db1, row)"
  obtains "db1 = db\<lparr>users := users db @ [row]\<rparr>" "us_id row = fresh" "us_email row = email" "\<not> us_disabled row" "us_password row = pw"
    "us_role row = role" "fresh \<notin> us_id ` set (users db)" "email \<notin> us_email ` set (users db)"
  using assms unfolding insert_user_def Let_def by (elim rbind_elims) auto

lemma account_inv_user_added:
  assumes inv: "account_inv e adb" and new: "us_id row \<notin> us_id ` set (users (store adb))" "us_email row \<notin> us_email ` set (users (store adb))"
  shows "account_inv e (adb\<lparr>store := (store adb)\<lparr>users := users (store adb) @ [row]\<rparr>\<rparr>)"
proof -
  have "store_inv ((store adb)\<lparr>users := users (store adb) @ [row]\<rparr>)"
    using inv by (intro store_inv_users) (auto simp: account_inv_def)
  then show ?thesis
    using inv new by (simp add: account_inv_def users_ok_def agents_ok_def sessions_ok_def tokens_ok_def)
qed

lemma insert_lists_inv:
  assumes "store_inv db" "enabled (users db) u" "\<And>n. gen n \<noteq> []" "\<forall>(name, goal, inbox) \<in> set ls. name \<noteq> []"
    "insert_lists db now u gen n ls = Inr db'"
  shows "store_inv db' \<and> users db' = users db \<and> agent_rows db' = agent_rows db
    \<and> map (\<lambda>b. (bk_user b, bk_inbox b, bk_name b)) (buckets db') =
        map (\<lambda>b. (bk_user b, bk_inbox b, bk_name b)) (buckets db) @ map (\<lambda>(name, goal, inbox). (u, inbox, name)) ls"
  using assms
proof (induction ls arbitrary: db n)
  case (Cons l ls)
  obtain name goal inbox where l: "l = (name, goal, inbox)" by (cases l)
  let ?row = "new_bucket now (gen n) u name goal ''slate'' inbox (lim_ActiveItemsPerList ProLimits) (int n)"
  from Cons.prems(5) obtain db1 where ins: "insert_bucket db ?row = Inr db1" and rest: "insert_lists db1 now u gen (Suc n) ls = Inr db'"
    by (auto simp: l split: sum.splits store_error.splits)
  obtain limits where lim: "accountLimitsForUpdate db u = Inr limits" using enabled_limits Cons.prems(2) by blast
  have "store_inv db1"
    by (rule insert_bucket_inv [OF Cons.prems(1) ins]) (use Cons.prems lim l in \<open>auto simp: validListColor_def\<close>)
  moreover have "users db1 = users db" "agent_rows db1 = agent_rows db" "buckets db1 = buckets db @ [?row]"
    using ins by (auto simp: insert_bucket_eq_Inr)
  ultimately show ?case using Cons.IH [OF _ _ Cons.prems(3) _ rest] Cons.prems by (simp add: l)
qed simp

lemma insert_session_eq_Inr: "insert_session rows row = Inr ss \<longleftrightarrow> se_hash row \<notin> se_hash ` set rows \<and> ss = rows @ [row]"
  by (auto simp: insert_session_def rbind_eq_Inr)

lemma insert_entitlement_InrD:
  "insert_entitlement db u plan source = Inr db' \<Longrightarrow> \<exists>es. db' = db\<lparr>entitlement_rows := es\<rparr>"
  unfolding insert_entitlement_def by (elim rbind_elims) auto

lemma account_inv_store_cong:
  assumes "account_inv e adb" "store_inv db'" "users db' = users (store adb)" "agent_rows db' = agent_rows (store adb)"
  shows "account_inv e (adb\<lparr>store := db'\<rparr>)"
  using assms by (simp add: account_inv_def)

lemma CreateAdmin_inv:
  assumes inv: "account_inv e adb" and run: "CreateAdmin adb now fresh email pw = Inr (adb', user)"
  shows "account_inv e adb'"
  using run unfolding CreateAdmin_def
proof (elim rbind_elims)
  fix db1 row db2
  assume iu: "insert_user (store adb) now fresh email pw ''admin'' = Inr (db1, row)"
    and ie: "insert_entitlement db1 (us_id row) PlanPro SourceAdmin = Inr db2"
    and res: "Inr (adb\<lparr>store := db2\<rparr>, (user_of_row db1 row)\<lparr>uEntitlement := Pro SourceAdmin\<rparr>) = Inr (adb', user)"
  from iu show ?thesis
  proof (rule insert_user_InrE)
    assume db1: "db1 = (store adb)\<lparr>users := users (store adb) @ [row]\<rparr>"
      and new: "us_id row = fresh" "us_email row = email" "fresh \<notin> us_id ` set (users (store adb))" "email \<notin> us_email ` set (users (store adb))"
    have "account_inv e (adb\<lparr>store := db1\<rparr>)" using account_inv_user_added [OF inv, of row] new db1 by simp
    then show ?thesis
      using insert_entitlement_InrD [OF ie] res by (auto simp: account_inv_def)
  qed
qed

lemma CreateInvitedMember_InrE:
  assumes run: "CreateInvitedMember adb now fresh gen email pw sessionHash expires = Inr (adb', user)"
  obtains row es db3 where "us_id row = fresh" "us_email row = email" "\<not> us_disabled row" "us_password row = pw"
    "fresh \<notin> us_id ` set (users (store adb))" "email \<notin> us_email ` set (users (store adb))"
    "insert_lists ((store adb)\<lparr>users := users (store adb) @ [row], entitlement_rows := es\<rparr>) now fresh gen 0 defaultLists = Inr db3"
    "sessionHash \<notin> se_hash ` set (sessions adb)"
    "adb' = adb\<lparr>store := db3, sessions := sessions adb @ [\<lparr>se_user = fresh, se_hash = sessionHash, se_expires = expires\<rparr>]\<rparr>"
    "uID user = fresh"
  using run unfolding CreateInvitedMember_def
proof (elim rbind_elims)
  fix db1 row db2 db3 ss
  assume iu: "insert_user (store adb) now fresh email pw ''member'' = Inr (db1, row)"
    and ie: "insert_entitlement db1 (us_id row) ''pro'' ''invite_code'' = Inr db2"
    and il: "insert_lists db2 now (us_id row) gen 0 defaultLists = Inr db3"
    and se: "insert_session (sessions adb) \<lparr>se_user = us_id row, se_hash = sessionHash, se_expires = expires\<rparr> = Inr ss"
    and res: "Inr (adb\<lparr>store := db3, sessions := ss\<rparr>, (user_of_row db1 row)\<lparr>uEntitlement := Pro SourceInviteCode,
        uUsage := no_usage\<lparr>usLists := int (length defaultLists)\<rparr>\<rparr>) = Inr (adb', user)"
  from iu show thesis
  proof (rule insert_user_InrE)
    assume db1: "db1 = (store adb)\<lparr>users := users (store adb) @ [row]\<rparr>" and row: "us_id row = fresh" "us_email row = email" "\<not> us_disabled row"
      "us_password row = pw" "fresh \<notin> us_id ` set (users (store adb))" "email \<notin> us_email ` set (users (store adb))"
    obtain es where "db2 = db1\<lparr>entitlement_rows := es\<rparr>" using insert_entitlement_InrD [OF ie] by blast
    then show thesis
      using that [of row es db3] row il se res by (auto simp: db1 insert_session_eq_Inr user_of_row_def)
  qed
qed

lemma defaultLists_names: "\<forall>(name, goal, inbox) \<in> set defaultLists. name \<noteq> []"
  by (simp add: defaultLists_def)

lemma CreateInvitedMember_inv:
  assumes inv: "account_inv e adb" and gen: "\<And>n. gen n \<noteq> []"
    and run: "CreateInvitedMember adb now fresh gen email pw sessionHash expires = Inr (adb', user)"
  shows "account_inv e adb'"
  using run
proof (rule CreateInvitedMember_InrE)
  fix row es db3
  let ?db = "(store adb)\<lparr>users := users (store adb) @ [row], entitlement_rows := es\<rparr>"
  assume row: "us_id row = fresh" "us_email row = email" "\<not> us_disabled row" "fresh \<notin> us_id ` set (users (store adb))"
      "email \<notin> us_email ` set (users (store adb))"
    and il: "insert_lists ?db now fresh gen 0 defaultLists = Inr db3" and sh: "sessionHash \<notin> se_hash ` set (sessions adb)"
    and adb': "adb' = adb\<lparr>store := db3, sessions := sessions adb @ [\<lparr>se_user = fresh, se_hash = sessionHash, se_expires = expires\<rparr>]\<rparr>"
  have inv1: "account_inv e (adb\<lparr>store := (store adb)\<lparr>users := users (store adb) @ [row]\<rparr>\<rparr>)"
    using account_inv_user_added [OF inv, of row] row by simp
  then have "store_inv ?db" using store_inv_entitlements [of es "(store adb)\<lparr>users := users (store adb) @ [row]\<rparr>"] by (simp add: account_inv_def)
  moreover have en: "enabled (users ?db) fresh" using row by (auto simp: enabled_def)
  ultimately have db3: "store_inv db3 \<and> users db3 = users ?db \<and> agent_rows db3 = agent_rows ?db"
    using insert_lists_inv [OF _ _ gen defaultLists_names il] by blast
  then show ?thesis using inv1 en sh by (simp add: adb' account_inv_def sessions_ok_def)
qed

subsection \<open>Changing a user row\<close>

definition same_login :: "(user_row \<Rightarrow> user_row) \<Rightarrow> bool" where
  "same_login f \<longleftrightarrow> (\<forall>u. us_id (f u) = us_id u \<and> us_email (f u) = us_email u \<and> us_disabled_at (f u) = us_disabled_at u)"

lemma update_users:
  assumes "\<And>u. us_id (f u) = us_id u" "\<And>u. us_email (f u) = us_email u"
  shows "map us_id (update_where P f us) = map us_id us" "map us_email (update_where P f us) = map us_email us"
    "us_id ` set (update_where P f us) = us_id ` set us"
proof -
  show 1: "map us_id (update_where P f us) = map us_id us" and "map us_email (update_where P f us) = map us_email us"
    using assms by (simp_all add: map_update_where)
  show "us_id ` set (update_where P f us) = us_id ` set us" using arg_cong [OF 1, of set] by simp
qed

lemma enabled_update: "same_login f \<Longrightarrow> enabled (update_where P f us) i = enabled us i"
  by (induction us) (auto simp: enabled_def same_login_def)

lemma account_inv_login:
  assumes inv: "account_inv e adb" and f: "same_login f"
  shows "account_inv e (adb\<lparr>store := (store adb)\<lparr>users := update_where P f (users (store adb))\<rparr>\<rparr>)"
proof -
  note f' = f [unfolded same_login_def, rule_format]
  note up = update_users [of f, OF f'[THEN conjunct1] f'[THEN conjunct2, THEN conjunct1]]
  have "store_inv ((store adb)\<lparr>users := update_where P f (users (store adb))\<rparr>)"
    using inv by (intro store_inv_users) (auto simp: account_inv_def up)
  then show ?thesis
    using inv f by (simp add: account_inv_def users_ok_def agents_ok_def sessions_ok_def tokens_ok_def up enabled_update)
qed

lemma UpdateProfile_inv:
  assumes inv: "account_inv e adb" and run: "UpdateProfile adb u theme name = Inr (adb', user)"
  shows "account_inv e adb'"
proof -
  have "same_login (set_profile theme name)" by (simp add: same_login_def set_profile_def)
  from account_inv_login [OF inv this] run show ?thesis unfolding UpdateProfile_def Let_def by (elim rbind_elims) auto
qed

subsection \<open>Sessions and tokens\<close>

lemma sessions_ok_delete: "sessions_ok us ss \<Longrightarrow> sessions_ok us (delete_where P ss)"
  by (simp add: sessions_ok_def distinct_map_delete_where)

lemma CreateSession_inv:
  assumes inv: "account_inv e adb" and run: "CreateSession adb u pw h ex = Inr (adb', x)"
  shows "account_inv e adb'"
  using run unfolding CreateSession_def
  by (elim rbind_elims)
    (use inv in \<open>auto simp: insert_session_eq_Inr account_inv_def sessions_ok_def dest!: query_row_InrD intro!: enabledI\<close>)

lemma DeleteSession_inv: "account_inv e adb \<Longrightarrow> account_inv e (DeleteSession adb h)"
  by (simp add: DeleteSession_def account_inv_def sessions_ok_delete)

lemma Resolve_max: "lim_APITokens (ent_Limits (Resolve r p s)) \<le> lim_APITokens ProLimits"
  "lim_Agents (ent_Limits (Resolve r p s)) \<le> lim_Agents ProLimits"
  by (simp_all add: Resolve_def Pro_def Free_def)

lemma locked_entitlement_InrD:
  "resolvedEntitlementForLockedUser db u = Inr ent \<Longrightarrow> enabled (users db) u
     \<and> lim_APITokens (ent_Limits ent) \<le> lim_APITokens ProLimits \<and> lim_Agents (ent_Limits ent) \<le> lim_Agents ProLimits"
  unfolding resolvedEntitlementForLockedUser_def
  by (elim rbind_elims) (auto simp: enabled_def resolved_def Resolve_max simp del: ProLimits_simps split: prod.splits dest!: query_row_InrD)

lemma CreateAPIToken_inv:
  assumes inv: "account_inv e adb" and run: "CreateAPIToken adb now fresh u name h = Inr (adb', x)"
  shows "account_inv e adb'"
  using run unfolding CreateAPIToken_def Let_def
proof (elim rbind_elims)
  fix ent
  let ?row = "\<lparr>ap_id = fresh, ap_user = u, ap_name = name, ap_hash = h, ap_last_used = None, ap_revoked = None, ap_created = now\<rparr>"
  assume ent: "resolvedEntitlementForLockedUser (store adb) u = Inr ent"
    and lim: "\<not> lim_APITokens (ent_Limits ent) \<le> count_where (active_token u) (api_tokens adb)"
    and new: "fresh \<notin> set (map ap_id (api_tokens adb)) \<and> h \<notin> set (map ap_hash (api_tokens adb))"
    and res: "Inr (adb\<lparr>api_tokens := api_tokens adb @ [?row]\<rparr>, token_of_row ?row) = Inr (adb', x)"
  note ent' = locked_entitlement_InrD [OF ent]
  have "count_where (active_token v) (api_tokens adb @ [?row]) \<le> lim_APITokens ProLimits" for v
    using inv ent' lim by (cases "v = u") (auto simp: active_token_def account_inv_def tokens_ok_def simp del: ProLimits_simps)
  then have "tokens_ok (users (store adb)) (api_tokens adb @ [?row])"
    using inv new ent' by (simp add: account_inv_def tokens_ok_def del: ProLimits_simps)
  then show ?thesis using inv res by (auto simp: account_inv_def)
qed

lemma tokens_ok_update:
  assumes ok: "tokens_ok us ts" and f: "\<And>t. ap_id (f t) = ap_id t \<and> ap_hash (f t) = ap_hash t \<and> ap_user (f t) = ap_user t
      \<and> (ap_revoked (f t) = None \<longrightarrow> ap_revoked t = None)"
  shows "tokens_ok us (update_where P f ts)"
proof -
  have "count_where (active_token u) (update_where P f ts) \<le> count_where (active_token u) ts" for u
    using f by (intro count_update_le) (auto simp: active_token_def)
  then have "count_where (active_token u) (update_where P f ts) \<le> lim_APITokens ProLimits" for u
    using ok order_trans unfolding tokens_ok_def by blast
  then show ?thesis
    using ok f by (auto simp: tokens_ok_def map_update_where set_update_where simp del: ProLimits_simps)
qed

lemma RevokeAPIToken_inv:
  assumes inv: "account_inv e adb" and run: "RevokeAPIToken e2 adb now u i = Inr (adb', x)"
  shows "account_inv e adb'"
  using run unfolding RevokeAPIToken_def
  by (elim rbind_elims) (use inv in \<open>auto simp: account_inv_def intro!: tokens_ok_update\<close>)

subsection \<open>Credentials\<close>

lemma credentials_ok_update:
  assumes ok: "credentials_ok ags cs" and f: "\<And>c. cd_id (f c) = cd_id c \<and> cd_hash (f c) = cd_hash c \<and> cd_agent (f c) = cd_agent c
      \<and> (cd_revoked (f c) = None \<longrightarrow> cd_revoked c = None)"
  shows "credentials_ok ags (update_where P f cs)"
proof -
  have "count_where (\<lambda>c. cd_agent c = a \<and> cd_revoked c = None) (update_where P f cs)
      \<le> count_where (\<lambda>c. cd_agent c = a \<and> cd_revoked c = None) cs" for a
    using f by (intro count_update_le) auto
  then have "count_where (\<lambda>c. cd_agent c = a \<and> cd_revoked c = None) (update_where P f cs) \<le> 1" for a
    using ok order_trans unfolding credentials_ok_def by blast
  then show ?thesis using ok f by (auto simp: credentials_ok_def map_update_where set_update_where)
qed

lemma rotations_ok_update:
  assumes "rotations_ok cs rs" "\<And>c. cd_id (f c) = cd_id c \<and> cd_agent (f c) = cd_agent c"
  shows "rotations_ok (update_where P f cs) rs"
  using assms by (simp add: rotations_ok_def bex_update_where)

lemma account_inv_credentials:
  assumes "account_inv e adb" "\<And>c. cd_id (f c) = cd_id c \<and> cd_hash (f c) = cd_hash c \<and> cd_agent (f c) = cd_agent c
      \<and> (cd_revoked (f c) = None \<longrightarrow> cd_revoked c = None)"
  shows "account_inv e (adb\<lparr>credentials := update_where P f (credentials adb)\<rparr>)"
  using assms by (simp add: account_inv_def credentials_ok_update rotations_ok_update)

lemma account_inv_revoke: "account_inv e adb \<Longrightarrow> account_inv e (adb\<lparr>credentials := revoke_credentials now P (credentials adb)\<rparr>)"
  unfolding revoke_credentials_def by (rule account_inv_credentials) auto

lemma RevokeCredential_inv:
  "account_inv e adb \<Longrightarrow> RevokeCredential adb now u a = Inr (adb', x) \<Longrightarrow> account_inv e adb'"
  unfolding RevokeCredential_def by (elim rbind_elims) (auto dest: account_inv_revoke)

lemma RevokeAgentToken_inv:
  assumes "account_inv e adb" "RevokeAgentToken e2 adb now u a = Inr (adb', x)"
  shows "account_inv e adb'"
  using assms(2) unfolding RevokeAgentToken_def
  by (elim rbind_elims) (use assms(1) in \<open>auto intro!: account_inv_credentials split: option.splits\<close>)

lemma FindUserByAPITokenHash_inv:
  assumes inv: "account_inv e adb" and run: "FindUserByAPITokenHash adb h now = Inr (adb', user)"
  shows "account_inv e adb'"
proof -
  let ?adb = "adb\<lparr>api_tokens := update_where (human_token adb h) (\<lambda>t. t\<lparr>ap_last_used := Some now\<rparr>) (api_tokens adb),
    credentials := update_where (agent_token adb h) (\<lambda>c. c\<lparr>cd_last_used := Some now, cd_updated := now\<rparr>) (credentials adb)\<rparr>"
  have "adb' = ?adb" using run by (auto simp: FindUserByAPITokenHash_def Let_def split: option.splits)
  moreover have "account_inv e (adb\<lparr>api_tokens := update_where (human_token adb h) (\<lambda>t. t\<lparr>ap_last_used := Some now\<rparr>) (api_tokens adb)\<rparr>)"
    using inv by (simp add: account_inv_def tokens_ok_update)
  from account_inv_credentials [OF this, of "\<lambda>c. c\<lparr>cd_last_used := Some now, cd_updated := now\<rparr>" "agent_token adb h"]
  have "account_inv e ?adb" by simp
  ultimately show ?thesis by simp
qed

subsection \<open>Password reset\<close>

lemma resets_ok_delete: "resets_ok ts \<Longrightarrow> resets_ok (delete_where P ts)"
proof -
  assume ok: "resets_ok ts"
  have "count_where Q (delete_where P ts) \<le> count_where Q ts" for Q :: "reset_token_row \<Rightarrow> bool"
    by (simp add: count_where_delete)
  then have "count_where (\<lambda>t. rt_user t = u \<and> rt_used t = None) (delete_where P ts) \<le> 1" for u
    using ok order_trans unfolding resets_ok_def by blast
  then show ?thesis using ok by (simp add: resets_ok_def distinct_map_delete_where)
qed

lemma resets_ok_used:
  assumes ok: "resets_ok ts"
  shows "resets_ok (update_where P (\<lambda>r. r\<lparr>rt_used := Some now\<rparr>) ts)"
proof -
  have "count_where (\<lambda>t. rt_user t = u \<and> rt_used t = None) (update_where P (\<lambda>r. r\<lparr>rt_used := Some now\<rparr>) ts)
      \<le> count_where (\<lambda>t. rt_user t = u \<and> rt_used t = None) ts" for u
    by (rule count_update_le) simp
  then have "count_where (\<lambda>t. rt_user t = u \<and> rt_used t = None) (update_where P (\<lambda>r. r\<lparr>rt_used := Some now\<rparr>) ts) \<le> 1" for u
    using ok order_trans unfolding resets_ok_def by blast
  then show ?thesis using ok by (simp add: resets_ok_def map_update_where)
qed

lemma void_resets_none: "count_where (\<lambda>t. rt_user t = u \<and> rt_used t = None) (void_resets now u ts) = 0"
  unfolding void_resets_def by (induction ts) auto

lemma CreatePasswordResetToken_inv:
  assumes inv: "account_inv e adb" and run: "CreatePasswordResetToken skip adb now email h ex = Inr (adb', x)"
  shows "account_inv e adb'"
  using run unfolding CreatePasswordResetToken_def Let_def
proof (elim rbind_elims)
  fix u
  let ?rows = "void_resets now (us_id u) (drop_expired_resets skip now (reset_tokens adb))"
  let ?new = "\<lparr>rt_user = us_id u, rt_hash = h, rt_expires = ex, rt_used = None\<rparr>"
  assume h: "h \<notin> set (map rt_hash ?rows)" and res: "Inr (adb\<lparr>reset_tokens := ?rows @ [?new]\<rparr>, ()) = Inr (adb', x)"
  have rows: "resets_ok ?rows"
    using inv resets_ok_delete resets_ok_used by (simp add: account_inv_def void_resets_def drop_expired_resets_def Let_def)
  have "count_where (\<lambda>t. rt_user t = v \<and> rt_used t = None) (?rows @ [?new]) \<le> 1" for v
    using rows void_resets_none [of v now] by (cases "v = us_id u") (simp_all add: resets_ok_def)
  then have "resets_ok (?rows @ [?new])" using rows h by (simp add: resets_ok_def)
  then show ?thesis using inv res by (auto simp: account_inv_def)
qed

lemma ResetPassword_InrE:
  assumes "ResetPassword adb h pw now = Inr (adb', x)"
  obtains t where "t \<in> set (reset_tokens adb)" "open_reset h now t" "enabled (users (store adb)) (rt_user t)"
    "adb' = adb\<lparr>store := (store adb)\<lparr>users := update_where (\<lambda>u. us_id u = rt_user t \<and> \<not> us_disabled u)
                   (\<lambda>u. u\<lparr>us_password := pw\<rparr>) (users (store adb))\<rparr>,
              sessions := delete_where (\<lambda>s. se_user s = rt_user t) (sessions adb),
              reset_tokens := void_resets now (rt_user t) (update_where (open_reset h now) (\<lambda>r. r\<lparr>rt_used := Some now\<rparr>) (reset_tokens adb))\<rparr>"
  using assms unfolding ResetPassword_def Let_def
proof (elim rbind_elims)
  fix t :: reset_token_row
  let ?hit = "\<lambda>u. us_id u = rt_user t \<and> \<not> us_disabled u"
  assume t: "query_row ErrInvalidResetToken (open_reset h now) (reset_tokens adb) = Inr t"
    and one: "count_where ?hit (users (store adb)) = 1"
    and res: "Inr (adb\<lparr>store := (store adb)\<lparr>users := update_where ?hit (\<lambda>u. u\<lparr>us_password := pw\<rparr>) (users (store adb))\<rparr>,
              sessions := delete_where (\<lambda>s. se_user s = rt_user t) (sessions adb),
              reset_tokens := void_resets now (rt_user t) (update_where (open_reset h now) (\<lambda>r. r\<lparr>rt_used := Some now\<rparr>) (reset_tokens adb))\<rparr>, ())
            = Inr (adb', x)"
  have "filter ?hit (users (store adb)) \<noteq> []" using one by (auto simp: count_where_def)
  then have "enabled (users (store adb)) (rt_user t)" by (auto simp: enabled_def filter_empty_conv)
  then show thesis using that [of t] query_row_InrD [OF t] res by simp
qed

lemma ResetPassword_inv:
  assumes inv: "account_inv e adb" and run: "ResetPassword adb h pw now = Inr (adb', x)"
  shows "account_inv e adb'"
  using run
proof (rule ResetPassword_InrE)
  fix t :: reset_token_row
  let ?adb = "adb\<lparr>store := (store adb)\<lparr>users := update_where (\<lambda>u. us_id u = rt_user t \<and> \<not> us_disabled u)
                   (\<lambda>u. u\<lparr>us_password := pw\<rparr>) (users (store adb))\<rparr>\<rparr>"
  assume adb': "adb' = adb\<lparr>store := (store adb)\<lparr>users := update_where (\<lambda>u. us_id u = rt_user t \<and> \<not> us_disabled u)
                   (\<lambda>u. u\<lparr>us_password := pw\<rparr>) (users (store adb))\<rparr>,
              sessions := delete_where (\<lambda>s. se_user s = rt_user t) (sessions adb),
              reset_tokens := void_resets now (rt_user t) (update_where (open_reset h now) (\<lambda>r. r\<lparr>rt_used := Some now\<rparr>) (reset_tokens adb))\<rparr>"
  have "account_inv e ?adb" by (rule account_inv_login [OF inv]) (simp add: same_login_def)
  moreover have "resets_ok (void_resets now (rt_user t) (update_where (open_reset h now) (\<lambda>r. r\<lparr>rt_used := Some now\<rparr>) (reset_tokens adb)))"
    using inv resets_ok_used by (simp add: account_inv_def void_resets_def)
  ultimately show ?thesis by (simp add: adb' account_inv_def sessions_ok_delete)
qed

subsection \<open>Disabling members\<close>

lemma tokens_ok_disable:
  assumes "tokens_ok us ts" "\<And>i. enabled us i \<Longrightarrow> i \<noteq> u \<Longrightarrow> enabled us' i"
  shows "tokens_ok us' (update_where (\<lambda>t. ap_user t = u \<and> ap_revoked t = None) (\<lambda>t. t\<lparr>ap_revoked := Some now\<rparr>) ts)"
proof -
  let ?ts = "update_where (\<lambda>t. ap_user t = u \<and> ap_revoked t = None) (\<lambda>t. t\<lparr>ap_revoked := Some now\<rparr>) ts"
  have ok: "tokens_ok us ?ts" using assms(1) by (rule tokens_ok_update) auto
  have "enabled us' (ap_user t)" if t: "t \<in> set ?ts" "ap_revoked t = None" for t
  proof -
    have "ap_user t \<noteq> u" using t by (induction ts) (auto split: if_splits)
    then show ?thesis using assms(2) ok t unfolding tokens_ok_def by simp
  qed
  then show ?thesis using ok unfolding tokens_ok_def by simp
qed

lemma SetMemberDisabled_InrE:
  assumes "SetMemberDisabled toLower adb now email off = Inr (adb', x)"
  obtains m where "m \<in> set (users (store adb))" "us_email m = normalizeEmail toLower email" "us_role m = ''member''"
    "adb' = (let adb1 = adb\<lparr>store := (store adb)\<lparr>users := update_where
          (\<lambda>u. us_email u = normalizeEmail toLower email \<and> us_role u = ''member'')
          (\<lambda>u. u\<lparr>us_disabled_at := (if off then Some now else None)\<rparr>) (users (store adb))\<rparr>\<rparr> in
       if off then adb1\<lparr>sessions := delete_where (\<lambda>s. se_user s = us_id m) (sessions adb),
          api_tokens := update_where (\<lambda>t. ap_user t = us_id m \<and> ap_revoked t = None) (\<lambda>t. t\<lparr>ap_revoked := Some now\<rparr>) (api_tokens adb),
          credentials := revoke_credentials now (\<lambda>c. cd_agent c \<in> set (owned_agent_ids (store adb) (us_id m))) (credentials adb)\<rparr>
       else adb1)"
  using assms unfolding SetMemberDisabled_def Let_def
proof (elim rbind_elims)
  fix m :: user_row
  let ?hit = "\<lambda>u. us_email u = normalizeEmail toLower email \<and> us_role u = ''member''"
  let ?adb1 = "adb\<lparr>store := (store adb)\<lparr>users := update_where ?hit
      (\<lambda>u. u\<lparr>us_disabled_at := (if off then Some now else None)\<rparr>) (users (store adb))\<rparr>\<rparr>"
  assume m: "query_row ErrMemberNotFound ?hit (users (store adb)) = Inr m"
    and res: "(if off then Inr (?adb1\<lparr>sessions := delete_where (\<lambda>s. se_user s = us_id m) (sessions ?adb1),
          api_tokens := update_where (\<lambda>t. ap_user t = us_id m \<and> ap_revoked t = None) (\<lambda>t. t\<lparr>ap_revoked := Some now\<rparr>) (api_tokens ?adb1),
          credentials := revoke_credentials now (\<lambda>c. cd_agent c \<in> set (owned_agent_ids (store ?adb1) (us_id m))) (credentials ?adb1)\<rparr>, ())
        else Inr (?adb1, ())) = Inr (adb', x)"
  have "owned_agent_ids (store ?adb1) (us_id m) = owned_agent_ids (store adb) (us_id m)" by (simp add: owned_agent_ids_def)
  with res have "adb' = (if off then ?adb1\<lparr>sessions := delete_where (\<lambda>s. se_user s = us_id m) (sessions adb),
          api_tokens := update_where (\<lambda>t. ap_user t = us_id m \<and> ap_revoked t = None) (\<lambda>t. t\<lparr>ap_revoked := Some now\<rparr>) (api_tokens adb),
          credentials := revoke_credentials now (\<lambda>c. cd_agent c \<in> set (owned_agent_ids (store adb) (us_id m))) (credentials adb)\<rparr>
       else ?adb1)" by (cases off) simp_all
  then show thesis using query_row_InrD [OF m] by (intro that [of m]) (simp_all only: Let_def)
qed

lemma SetMemberDisabled_inv:
  assumes inv: "account_inv e adb" and run: "SetMemberDisabled toLower adb now email off = Inr (adb', x)"
  shows "account_inv e adb'"
  using run
proof (rule SetMemberDisabled_InrE)
  fix m :: user_row
  let ?hit = "\<lambda>u. us_email u = normalizeEmail toLower email \<and> us_role u = ''member''"
  let ?us = "update_where ?hit (\<lambda>u. u\<lparr>us_disabled_at := (if off then Some now else None)\<rparr>) (users (store adb))"
  let ?adb1 = "adb\<lparr>store := (store adb)\<lparr>users := ?us\<rparr>\<rparr>"
  assume m: "m \<in> set (users (store adb))" "us_email m = normalizeEmail toLower email" "us_role m = ''member''"
    and adb': "adb' = (let adb1 = ?adb1 in
       if off then adb1\<lparr>sessions := delete_where (\<lambda>s. se_user s = us_id m) (sessions adb),
          api_tokens := update_where (\<lambda>t. ap_user t = us_id m \<and> ap_revoked t = None) (\<lambda>t. t\<lparr>ap_revoked := Some now\<rparr>) (api_tokens adb),
          credentials := revoke_credentials now (\<lambda>c. cd_agent c \<in> set (owned_agent_ids (store adb) (us_id m))) (credentials adb)\<rparr>
       else adb1)"
  have users: "users_ok (users (store adb))" using inv by (simp add: account_inv_def)
  note up = update_users [of "\<lambda>u. u\<lparr>us_disabled_at := (if off then Some now else None)\<rparr>" ?hit "users (store adb)", simplified]
  have store: "store_inv ((store adb)\<lparr>users := ?us\<rparr>)" using inv by (intro store_inv_users) (auto simp: account_inv_def up)
  have agents: "agents_ok e ?us (agent_rows (store adb))" "users_ok ?us"
    using inv by (simp_all add: account_inv_def agents_ok_def users_ok_def up)
  have other: "enabled ?us i" if en: "enabled (users (store adb)) i" and ne: "i \<noteq> us_id m \<or> \<not> off" for i
  proof -
    obtain u where u: "u \<in> set (users (store adb))" "us_id u = i" "\<not> us_disabled u" using en by (auto simp: enabled_def)
    show ?thesis
    proof (cases "?hit u \<and> off")
      case True
      then have "u = m" using users m u(1) by (auto simp: users_ok_def dest: distinct_key_inj [of us_email])
      then show ?thesis using ne u(2) True by simp
    next
      case False
      define v where "v = (if ?hit u then u\<lparr>us_disabled_at := None\<rparr> else u)"
      have "v \<in> set ?us"
        using False update_where_hit [OF u(1), of ?hit] update_where_miss [OF u(1), of ?hit] by (auto simp: v_def)
      moreover have "us_id v = i" "\<not> us_disabled v" using u(2,3) by (simp_all add: v_def)
      ultimately show ?thesis using enabledI [of v ?us] by simp
    qed
  qed
  show ?thesis
  proof (cases off)
    case True
    have "sessions_ok ?us (delete_where (\<lambda>s. se_user s = us_id m) (sessions adb))"
      using inv other by (auto simp: account_inv_def sessions_ok_def distinct_map_delete_where)
    moreover have "tokens_ok ?us (update_where (\<lambda>t. ap_user t = us_id m \<and> ap_revoked t = None) (\<lambda>t. t\<lparr>ap_revoked := Some now\<rparr>) (api_tokens adb))"
      by (rule tokens_ok_disable [of "users (store adb)"]) (use inv other in \<open>auto simp: account_inv_def\<close>)
    ultimately show ?thesis
      using account_inv_revoke [OF inv, of now "\<lambda>c. cd_agent c \<in> set (owned_agent_ids (store adb) (us_id m))"] store agents True
      by (simp add: adb' account_inv_def)
  next
    case False
    have "sessions_ok ?us (sessions adb)" "tokens_ok ?us (api_tokens adb)"
      using inv other False unfolding account_inv_def sessions_ok_def tokens_ok_def by blast+
    then show ?thesis using inv store agents False by (simp add: adb' account_inv_def)
  qed
qed

subsection \<open>Agents\<close>

lemma insert_credential_InrE:
  assumes "insert_credential adb now fresh a h p = Inr (adb', c)"
  obtains "adb' = adb\<lparr>credentials := credentials adb @ [c]\<rparr>" "cd_id c = fresh" "cd_agent c = a" "cd_hash c = h" "cd_revoked c = None"
    "fresh \<notin> cd_id ` set (credentials adb)" "h \<notin> cd_hash ` set (credentials adb)"
    "\<not> list_ex (\<lambda>c. cd_agent c = a \<and> cd_revoked c = None) (credentials adb)"
    "c = \<lparr>cd_id = fresh, cd_agent = a, cd_hash = h, cd_prefix = Some p, cd_last_used = None, cd_revoked = None, cd_created = now, cd_updated = now\<rparr>"
  using assms unfolding insert_credential_def Let_def
proof (elim rbind_elims)
  let ?row = "\<lparr>cd_id = fresh, cd_agent = a, cd_hash = h, cd_prefix = Some p, cd_last_used = None, cd_revoked = None, cd_created = now,
      cd_updated = now\<rparr>"
  assume new: "fresh \<notin> set (map cd_id (credentials adb)) \<and> h \<notin> set (map cd_hash (credentials adb))
      \<and> \<not> list_ex (\<lambda>c. cd_agent c = a \<and> cd_revoked c = None) (credentials adb)"
    and res: "Inr (adb\<lparr>credentials := credentials adb @ [?row]\<rparr>, ?row) = Inr (adb', c)"
  have c: "c = ?row" "adb' = adb\<lparr>credentials := credentials adb @ [?row]\<rparr>" using res by auto
  show thesis by (rule that) (use new in \<open>simp_all add: c\<close>)
qed

lemma insert_credential_inv:
  assumes inv: "account_inv e adb" and a: "a \<in> ag_id ` set (agent_rows (store adb))"
    and run: "insert_credential adb now fresh a h p = Inr (adb', c)"
  shows "account_inv e adb'"
  using run
proof (rule insert_credential_InrE)
  assume adb': "adb' = adb\<lparr>credentials := credentials adb @ [c]\<rparr>" and c: "cd_id c = fresh" "cd_agent c = a" "cd_hash c = h" "cd_revoked c = None"
    and new: "fresh \<notin> cd_id ` set (credentials adb)" "h \<notin> cd_hash ` set (credentials adb)"
      "\<not> list_ex (\<lambda>c. cd_agent c = a \<and> cd_revoked c = None) (credentials adb)"
  have "count_where (\<lambda>c. cd_agent c = a \<and> cd_revoked c = None) (credentials adb) = 0"
    using new(3) by (auto simp: count_where_def list_ex_iff filter_empty_conv)
  then have "count_where (\<lambda>c. cd_agent c = b \<and> cd_revoked c = None) (credentials adb @ [c]) \<le> 1" for b
    using inv c by (cases "b = a") (simp_all add: account_inv_def credentials_ok_def)
  then have "credentials_ok (agent_rows (store adb)) (credentials adb @ [c])"
    using inv c new a by (simp add: account_inv_def credentials_ok_def)
  moreover have "rotations_ok (credentials adb @ [c]) (rotations adb)"
    using inv by (auto simp: account_inv_def rotations_ok_def)
  ultimately show ?thesis using inv by (simp add: adb' account_inv_def)
qed

lemma account_inv_agent_added:
  assumes inv: "account_inv e adb" and en: "enabled (users (store adb)) (ag_owner row)" and id: "ag_id row \<noteq> []"
    "ag_id row \<notin> ag_id ` set (agent_rows (store adb))" and name: "\<not> name_taken e (store adb) (ag_owner row) [] (ag_name row)"
    and lim: "count_where (\<lambda>a. ag_owner a = ag_owner row \<and> \<not> ag_archived a) (agent_rows (store adb)) < lim_Agents ProLimits"
  shows "account_inv e (adb\<lparr>store := (store adb)\<lparr>agent_rows := agent_rows (store adb) @ [row]\<rparr>\<rparr>)"
proof -
  let ?ags = "agent_rows (store adb) @ [row]"
  have "store_inv ((store adb)\<lparr>agent_rows := ?ags\<rparr>)"
    using inv by (intro store_inv_agents) (auto simp: account_inv_def)
  moreover have "agents_ok e (users (store adb)) ?ags"
  proof -
    have ok: "agents_ok e (users (store adb)) (agent_rows (store adb))" using inv by (simp add: account_inv_def)
    have "\<not> same_name e a row \<and> \<not> same_name e row a" if "a \<in> set (agent_rows (store adb))" for a
    proof -
      have "ag_id a \<noteq> []" using ok that by (simp add: agents_ok_def)
      then show ?thesis using name that unfolding name_taken_def list_ex_iff same_name_def by metis
    qed
    moreover have "count_where (\<lambda>a. ag_owner a = u \<and> \<not> ag_archived a) ?ags \<le> lim_Agents ProLimits" for u
      using ok lim by (cases "u = ag_owner row") (auto simp: agents_ok_def simp del: ProLimits_simps)
    moreover have "ag_owner row \<in> us_id ` set (users (store adb))" using en by (force simp: enabled_def)
    ultimately show ?thesis using ok id by (auto simp: agents_ok_def simp del: ProLimits_simps)
  qed
  moreover have "credentials_ok ?ags (credentials adb)" using inv by (auto simp: account_inv_def credentials_ok_def)
  ultimately show ?thesis using inv by (simp add: account_inv_def)
qed

lemma CreateAgent_inv:
  assumes inv: "account_inv e adb" and fresh: "fresh \<noteq> []"
    and run: "CreateAgent e adb now fresh freshC u name purpose h p = Inr (adb', x)"
  shows "account_inv e adb'"
  using run unfolding CreateAgent_def Let_def
proof (elim rbind_elims)
  fix ent adb2 c
  let ?row = "\<lparr>ag_id = fresh, ag_owner = u, ag_name = TrimSpace name, ag_purpose = nullif_empty (TrimSpace purpose), ag_archived = False,
      ag_created = now, ag_updated = now\<rparr>"
  let ?adb = "adb\<lparr>store := (store adb)\<lparr>agent_rows := agent_rows (store adb) @ [?row]\<rparr>\<rparr>"
  assume ent: "resolvedEntitlementForLockedUser (store adb) u = Inr ent"
    and lim: "\<not> lim_Agents (ent_Limits ent) \<le> count_where (\<lambda>a. ag_owner a = u \<and> \<not> ag_archived a) (agent_rows (store adb))"
    and new: "fresh \<notin> set (map ag_id (agent_rows (store adb)))" "\<not> name_taken e (store adb) u [] (TrimSpace name)"
    and ic: "insert_credential ?adb now freshC fresh h p = Inr (adb2, c)"
    and res: "Inr (adb2, \<lparr>auID = fresh, auDisplayName = TrimSpace name, auPurpose = TrimSpace purpose, auCreatedAt = now, auUpdatedAt = now,
         auCredential = Some (credential_of_row c), auLastUsedAt = None, auRevokedAt = None,
         auWorkCounts = \<lparr>wcReady = 0, wcWorking = 0, wcReview = 0\<rparr>\<rparr>) = Inr (adb', x)"
  have "account_inv e ?adb"
    by (rule account_inv_agent_added [OF inv])
      (use locked_entitlement_InrD [OF ent] lim new fresh in \<open>simp_all del: ProLimits_simps\<close>)
  from insert_credential_inv [OF this _ ic] res show ?thesis by simp
qed

lemma UpdateAgent_inv:
  assumes inv: "account_inv e adb" and run: "UpdateAgent e adb now u i name purpose = Inr (adb', x)"
  shows "account_inv e adb'"
  using run unfolding UpdateAgent_def Let_def
proof (elim rbind_elims)
  fix a
  let ?hit = "\<lambda>a. ag_owner a = u \<and> ag_id a = i"
  let ?f = "\<lambda>a. a\<lparr>ag_name := TrimSpace name, ag_purpose := nullif_empty (TrimSpace purpose), ag_updated := now\<rparr>"
  let ?ags = "update_where ?hit ?f (agent_rows (store adb))"
  assume a: "query_row ErrAgentNotFound ?hit (agent_rows (store adb)) = Inr a"
    and name: "ag_archived a \<or> \<not> name_taken e (store adb) u i (TrimSpace name)"
    and res: "Inr (adb\<lparr>store := (store adb)\<lparr>agent_rows := ?ags\<rparr>\<rparr>, GetAgent (adb\<lparr>store := (store adb)\<lparr>agent_rows := ?ags\<rparr>\<rparr>) u (ag_id a))
        = Inr (adb', x)"
  have ok: "agents_ok e (users (store adb)) (agent_rows (store adb))" using inv by (simp add: account_inv_def)
  have ids: "map ag_id ?ags = map ag_id (agent_rows (store adb))" "map ag_owner ?ags = map ag_owner (agent_rows (store adb))"
    by (simp_all add: map_update_where)
  have keep: "\<exists>g' \<in> set ?ags. ag_id g' = ag_id g \<and> ag_owner g' = ag_owner g" if "g \<in> set (agent_rows (store adb))" for g
    using bex_update_where [of "\<lambda>g'. ag_id g' = ag_id g \<and> ag_owner g' = ag_owner g" ?f ?hit "agent_rows (store adb)"] that by auto
  have st: "store_inv ((store adb)\<lparr>agent_rows := ?ags\<rparr>)"
    using inv by (intro store_inv_agents keep) (simp_all add: account_inv_def)
  have me: "b = a" if "b \<in> set (agent_rows (store adb))" "?hit b" for b
    using ok query_row_InrD [OF a] that by (auto simp: agents_ok_def dest: distinct_key_inj [of ag_id])
  have "agents_ok e (users (store adb)) ?ags"
    unfolding agents_ok_def
  proof (intro conjI allI ballI impI)
    show "distinct (map ag_id ?ags)" using ok by (simp add: agents_ok_def ids)
    show "ag_owner b \<in> us_id ` set (users (store adb))" "ag_id b \<noteq> []" if "b \<in> set ?ags" for b
      using ok that by (auto simp: agents_ok_def set_update_where)
    show "count_where (\<lambda>a. ag_owner a = v \<and> \<not> ag_archived a) ?ags \<le> lim_Agents ProLimits" for v
    proof -
      have "count_where (\<lambda>a. ag_owner a = v \<and> \<not> ag_archived a) ?ags = count_where (\<lambda>a. ag_owner a = v \<and> \<not> ag_archived a) (agent_rows (store adb))"
        by (rule count_where_update) simp
      then show ?thesis using ok by (simp add: agents_ok_def del: ProLimits_simps)
    qed
    show "ag_id b = ag_id c" if bc: "b \<in> set ?ags" "c \<in> set ?ags" "same_name e b c" for b c
    proof -
      obtain b0 c0 where b0: "b0 \<in> set (agent_rows (store adb))" "b = (if ?hit b0 then ?f b0 else b0)"
        and c0: "c0 \<in> set (agent_rows (store adb))" "c = (if ?hit c0 then ?f c0 else c0)"
        using bc(1,2) unfolding set_update_where by blast
      have clash: False if "d \<in> set (agent_rows (store adb))" "\<not> ?hit d" "\<not> ag_archived d" "\<not> ag_archived a" "ag_owner d = u"
          "name_key e (ag_name d) = name_key e (TrimSpace name)" for d
        using name that query_row_InrD [OF a] by (auto simp: name_taken_def list_ex_iff)
      show ?thesis
      proof (cases "?hit b0 \<longleftrightarrow> ?hit c0")
        case True
        show ?thesis
        proof (cases "?hit b0")
          case hit: True
          then have "b0 = a" "c0 = a" using True me b0(1) c0(1) by blast+
          then show ?thesis using b0(2) c0(2) by simp
        next
          case nb: False
          then have "b = b0" "c = c0" using True b0(2) c0(2) by auto
          then show ?thesis using bc(3) b0(1) c0(1) ok unfolding agents_ok_def by blast
        qed
      next
        case False
        have no: False if xy: "x \<in> set (agent_rows (store adb))" "y \<in> set (agent_rows (store adb))" "?hit x" "\<not> ?hit y"
            "same_name e (?f x) y \<or> same_name e y (?f x)" for x y
        proof -
          have "x = a" using me xy(1,3) by blast
          then have "\<not> ag_archived y" "\<not> ag_archived a" "ag_owner y = u" "name_key e (ag_name y) = name_key e (TrimSpace name)"
            using xy(3,5) by (auto simp: same_name_def)
          then show False using clash [OF xy(2,4)] by blast
        qed
        show ?thesis
        proof (cases "?hit b0")
          case True
          then have "\<not> ?hit c0" "same_name e (?f b0) c0" using False bc(3) b0(2) c0(2) by auto
          then show ?thesis using no [OF b0(1) c0(1) True] by blast
        next
          case nb: False
          then have "?hit c0" "same_name e b0 (?f c0)" using False bc(3) b0(2) c0(2) by auto
          then show ?thesis using no [OF c0(1) b0(1) _ nb] by blast
        qed
      qed
    qed
  qed
  moreover have "credentials_ok ?ags (credentials adb)"
    using inv arg_cong [OF ids(1), of set] by (simp add: account_inv_def credentials_ok_def)
  ultimately show ?thesis using inv st res by (auto simp: account_inv_def)
qed

lemma credentials_ok_delete:
  assumes "credentials_ok ags cs" "\<And>c. c \<in> set cs \<Longrightarrow> \<not> P c \<Longrightarrow> cd_agent c \<in> ag_id ` set ags'"
  shows "credentials_ok ags' (delete_where P cs)"
proof -
  have "count_where Q (delete_where P cs) \<le> count_where Q cs" for Q :: "credential_row \<Rightarrow> bool"
    by (simp add: count_where_delete)
  then have "count_where (\<lambda>c. cd_agent c = a \<and> cd_revoked c = None) (delete_where P cs) \<le> 1" for a
    using assms(1) order_trans unfolding credentials_ok_def by blast
  then show ?thesis using assms by (simp add: credentials_ok_def distinct_map_delete_where)
qed

lemma DeleteAgent_InrE:
  assumes "DeleteAgent e adb u agentID = Inr (adb', x)"
  obtains i a where "uuid_in e agentID = Some i" "a \<in> set (agent_rows (store adb))" "ag_owner a = u" "ag_id a = i"
    "adb' = adb\<lparr>store := (store adb)\<lparr>tasks := map (unassign i) (tasks (store adb)),
                          agent_rows := delete_where (\<lambda>a. ag_owner a = u \<and> ag_id a = i) (agent_rows (store adb))\<rparr>,
              credentials := delete_where (\<lambda>c. cd_agent c = i) (credentials adb),
              rotations := delete_where (\<lambda>r. ro_agent r = i \<or> ro_credential r \<in> set (map cd_id (filter (\<lambda>c. cd_agent c = i) (credentials adb))))
                (rotations adb)\<rparr>"
  using assms unfolding DeleteAgent_def Let_def by (elim rbind_elims) (auto dest!: query_row_InrD)

lemma DeleteAgent_inv:
  assumes inv: "account_inv e adb" and run: "DeleteAgent e2 adb u agentID = Inr (adb', x)"
  shows "account_inv e adb'"
  using run
proof (rule DeleteAgent_InrE)
  fix i a
  let ?ags = "delete_where (\<lambda>a. ag_owner a = u \<and> ag_id a = i) (agent_rows (store adb))"
  let ?rs = "delete_where (\<lambda>r. ro_agent r = i \<or> ro_credential r \<in> set (map cd_id (filter (\<lambda>c. cd_agent c = i) (credentials adb)))) (rotations adb)"
  assume a: "a \<in> set (agent_rows (store adb))" "ag_owner a = u" "ag_id a = i"
    and adb': "adb' = adb\<lparr>store := (store adb)\<lparr>tasks := map (unassign i) (tasks (store adb)), agent_rows := ?ags\<rparr>,
      credentials := delete_where (\<lambda>c. cd_agent c = i) (credentials adb), rotations := ?rs\<rparr>"
  let ?db1 = "(store adb)\<lparr>tasks := map (unassign i) (tasks (store adb))\<rparr>"
  have ok: "agents_ok e (users (store adb)) (agent_rows (store adb))" using inv by (simp add: account_inv_def)
  have "store_inv ?db1" using inv by (simp add: account_inv_def store_inv_unassign)
  then have st: "store_inv (?db1\<lparr>agent_rows := ?ags\<rparr>)"
  proof (rule store_inv_agents)
    fix t g assume t: "t \<in> set (tasks ?db1)" and g: "g \<in> set (agent_rows ?db1)" "tk_assignee t = Some (ag_id g)"
    have "ag_id g \<noteq> i" using t g(2) by (auto simp: unassign_def split: if_splits)
    then show "\<exists>g' \<in> set ?ags. ag_id g' = ag_id g \<and> ag_owner g' = ag_owner g" using g(1) by auto
  qed
  have other: "c \<in> ag_id ` set ?ags" if "c \<in> ag_id ` set (agent_rows (store adb))" "c \<noteq> i" for c using that by auto
  have "count_where (\<lambda>a. ag_owner a = v \<and> \<not> ag_archived a) ?ags \<le> lim_Agents ProLimits" for v
  proof -
    have "count_where (\<lambda>a. ag_owner a = v \<and> \<not> ag_archived a) ?ags \<le> count_where (\<lambda>a. ag_owner a = v \<and> \<not> ag_archived a) (agent_rows (store adb))"
      by (simp add: count_where_delete)
    then show ?thesis using ok order_trans unfolding agents_ok_def by blast
  qed
  then have "agents_ok e (users (store adb)) ?ags"
    using ok by (simp add: agents_ok_def distinct_map_delete_where del: ProLimits_simps)
  moreover have "credentials_ok ?ags (delete_where (\<lambda>c. cd_agent c = i) (credentials adb))"
    by (rule credentials_ok_delete [of "agent_rows (store adb)"]) (use inv other in \<open>auto simp: account_inv_def credentials_ok_def\<close>)
  moreover have "rotations_ok (delete_where (\<lambda>c. cd_agent c = i) (credentials adb)) ?rs"
    using inv by (fastforce simp: account_inv_def rotations_ok_def distinct_map_delete_where)
  ultimately show ?thesis using inv st by (simp add: adb' account_inv_def)
qed

lemma RotateCredential_cases:
  assumes "RotateCredential adb now fresh u i key h p = Inr (adb', (c, rotated))"
  obtains (replay) r row where "recorded_rotation adb u key = Some (r, row)" "ro_agent r = i" "adb' = adb" "c = credential_of_row row" "\<not> rotated"
  | (new) a adb2 row where "recorded_rotation adb u key = None" "a \<in> set (agent_rows (store adb))" "ag_owner a = u" "ag_id a = i" "\<not> ag_archived a"
      "insert_credential (adb\<lparr>credentials := revoke_credentials now (\<lambda>c. cd_agent c = i) (credentials adb)\<rparr>) now fresh i h p = Inr (adb2, row)"
      "\<not> list_ex (\<lambda>r. ro_owner r = u \<and> ro_key r = key \<or> ro_credential r = cd_id row) (rotations adb2)"
      "adb' = adb2\<lparr>rotations := rotations adb2 @ [\<lparr>ro_owner = u, ro_key = key, ro_agent = i, ro_credential = cd_id row, ro_created = now\<rparr>]\<rparr>"
      "c = credential_of_row row" "rotated"
proof (cases "recorded_rotation adb u key")
  case (Some rc)
  obtain r row where rc: "rc = (r, row)" by (cases rc)
  show thesis using assms Some by (intro replay [of r row]) (simp_all add: RotateCredential_def rc split: if_splits)
next
  case None
  from assms obtain a adb2 row where a: "query_row ErrAgentNotFound (owned_agent u i) (agent_rows (store adb)) = Inr a"
    and ic: "insert_credential (adb\<lparr>credentials := revoke_credentials now (\<lambda>c. cd_agent c = ag_id a) (credentials adb)\<rparr>) now fresh (ag_id a) h p = Inr (adb2, row)"
    and fresh: "\<not> list_ex (\<lambda>r. ro_owner r = u \<and> ro_key r = key \<or> ro_credential r = cd_id row) (rotations adb2)"
    and res: "adb' = adb2\<lparr>rotations := rotations adb2 @ [\<lparr>ro_owner = u, ro_key = key, ro_agent = ag_id a, ro_credential = cd_id row, ro_created = now\<rparr>]\<rparr>"
      "c = credential_of_row row" "rotated"
    unfolding RotateCredential_def None option.case Let_def by (elim rbind_elims) auto
  have "ag_id a = i" "a \<in> set (agent_rows (store adb))" "ag_owner a = u" "\<not> ag_archived a"
    using query_row_InrD [OF a] by (simp_all add: owned_agent_def)
  then show thesis using new [OF None, of a adb2 row] ic fresh res by simp
qed

lemma RotateCredential_inv:
  assumes inv: "account_inv e adb" and run: "RotateCredential adb now fresh u i key h p = Inr (adb', (c, rotated))"
  shows "account_inv e adb'"
  using run
proof (cases rule: RotateCredential_cases)
  case (new a adb2 row)
  let ?adb = "adb\<lparr>credentials := revoke_credentials now (\<lambda>c. cd_agent c = i) (credentials adb)\<rparr>"
  have inv2: "account_inv e adb2" by (rule insert_credential_inv [OF account_inv_revoke [OF inv] _ new(6)]) (use new(2,4) in auto)
  have "row \<in> set (credentials adb2)" "cd_agent row = i" using new(6) by (auto elim: insert_credential_InrE)
  then have "rotations_ok (credentials adb2) (rotations adb2 @ [\<lparr>ro_owner = u, ro_key = key, ro_agent = i, ro_credential = cd_id row, ro_created = now\<rparr>])"
    using inv2 new(7) by (auto simp: account_inv_def rotations_ok_def list_ex_iff)
  then show ?thesis using inv2 new(8) by (simp add: account_inv_def)
qed (use inv in simp)

subsection \<open>Deleting expired rows\<close>

lemma store_inv_keys:
  assumes "store_inv db" "set ks \<subseteq> set (idem_keys db)" "distinct (map (\<lambda>k. (ik_user k, ik_key k)) ks)"
  shows "store_inv (db\<lparr>idem_keys := ks\<rparr>)"
  using assms
  by (auto simp: store_inv_def structure_defs inbox_ok_def accounting_ok_def usage_of_def stored_tasks_of_def stored_bytes_of_def)

lemma store_inv_runs [simp]: "store_inv (db\<lparr>run_starts := rs\<rparr>) = store_inv db"
  by (simp add: store_inv_def structure_ok_def keys_ok_def refs_ok_def inbox_ok_def rows_ok_def accounting_ok_def usage_of_def
      stored_tasks_of_def stored_bytes_of_def)

lemma delete_account_rows_frame:
  assumes "delete_account_rows now rule locked limit adb = (n, adb')"
  shows "users (store adb') = users (store adb)" "agent_rows (store adb') = agent_rows (store adb)"
    "buckets (store adb') = buckets (store adb)" "tasks (store adb') = tasks (store adb)" "entries (store adb') = entries (store adb)"
    "usages (store adb') = usages (store adb)"
  using assms by (auto simp: delete_account_rows_def split: table.splits prod.splits)

lemma delete_account_rows_resets:
  assumes "delete_account_rows now rule locked limit adb = (n, adb')"
  shows "set (reset_tokens adb') \<subseteq> set (reset_tokens adb)"
  using assms mset_part(1) [OF boundedDelete_parts(2)]
  by (cases "ru_table rule") (fastforce simp: delete_account_rows_def split: prod.splits)+

lemma delete_account_rows_inv:
  assumes inv: "account_inv e adb" and run: "delete_account_rows now rule locked limit adb = (n, adb')"
  shows "account_inv e adb'"
proof -
  note left = mset_part [OF boundedDelete_parts(2)]
  have parts: "store_inv (store adb)" "sessions_ok (users (store adb)) (sessions adb)" "tokens_ok (users (store adb)) (api_tokens adb)"
    "credentials_ok (agent_rows (store adb)) (credentials adb)" "rotations_ok (credentials adb) (rotations adb)" "resets_ok (reset_tokens adb)"
    using inv by (simp_all add: account_inv_def)
  show ?thesis
  proof (cases "ru_table rule")
    case Sessions
    then obtain gone rows where d: "boundedDelete now rule (snd \<circ> session_view) locked limit (sessions adb) = (gone, rows)"
      and adb': "adb' = adb\<lparr>sessions := rows\<rparr>" using run by (auto simp: delete_account_rows_def split: prod.splits)
    have "sessions_ok (users (store adb)) rows" using parts(2) left(1,3) [OF d] by (auto simp: sessions_ok_def)
    then show ?thesis using inv by (simp add: account_inv_def adb')
  next
    case ResetTokens
    then obtain gone rows where d: "boundedDelete now rule (snd \<circ> reset_token_view) locked limit (reset_tokens adb) = (gone, rows)"
      and adb': "adb' = adb\<lparr>reset_tokens := rows\<rparr>" using run by (auto simp: delete_account_rows_def split: prod.splits)
    have "resets_ok rows" using parts(6) left(3,4) [OF d] unfolding resets_ok_def by (meson order_trans)
    then show ?thesis using inv by (simp add: account_inv_def adb')
  next
    case Rotations
    then obtain gone rows where d: "boundedDelete now rule (snd \<circ> rotation_view) locked limit (rotations adb) = (gone, rows)"
      and adb': "adb' = adb\<lparr>rotations := rows\<rparr>" using run by (auto simp: delete_account_rows_def split: prod.splits)
    have "rotations_ok (credentials adb) rows" using parts(5) left(1,3) [OF d] unfolding rotations_ok_def by blast
    then show ?thesis using inv by (simp add: account_inv_def adb')
  next
    case APITokens
    then obtain gone rows where d: "boundedDelete now rule (snd \<circ> api_token_view) locked limit (api_tokens adb) = (gone, rows)"
      and adb': "adb' = adb\<lparr>api_tokens := rows\<rparr>" using run by (auto simp: delete_account_rows_def split: prod.splits)
    have "tokens_ok (users (store adb)) rows" using parts(3) left(1,3,4) [OF d] unfolding tokens_ok_def by (meson order_trans subsetD)
    then show ?thesis using inv by (simp add: account_inv_def adb')
  next
    case AgentCredentials
    then obtain gone rows where d: "boundedDelete now rule (snd \<circ> credential_view) locked limit (credentials adb) = (gone, rows)"
      and adb': "adb' = adb\<lparr>credentials := rows, rotations := delete_where (\<lambda>r. ro_credential r \<in> cd_id ` set gone) (rotations adb)\<rparr>"
      using run by (auto simp: delete_account_rows_def split: prod.splits)
    have "credentials_ok (agent_rows (store adb)) rows"
      using parts(4) left(1,3,4) [OF d] unfolding credentials_ok_def by (meson order_trans subsetD)
    moreover have "rotations_ok rows (delete_where (\<lambda>r. ro_credential r \<in> cd_id ` set gone) (rotations adb))"
    proof -
      have "\<exists>c \<in> set rows. cd_id c = ro_credential r \<and> cd_agent c = ro_agent r"
        if r: "r \<in> set (rotations adb)" "ro_credential r \<notin> cd_id ` set gone" for r
      proof -
        obtain c where c: "c \<in> set (credentials adb)" "cd_id c = ro_credential r" "cd_agent c = ro_agent r"
          using parts(5) r(1) by (auto simp: rotations_ok_def)
        then show ?thesis using left(6) [OF d c(1), of cd_id] r(2) by auto
      qed
      then show ?thesis using parts(5) by (auto simp: rotations_ok_def distinct_map_delete_where)
    qed
    ultimately show ?thesis using inv by (simp add: account_inv_def adb')
  next
    case TaskKeys
    then obtain gone rows where d: "boundedDelete now rule (snd \<circ> task_key_view) locked limit (idem_keys (store adb)) = (gone, rows)"
      and adb': "adb' = adb\<lparr>store := (store adb)\<lparr>idem_keys := rows\<rparr>\<rparr>" using run by (auto simp: delete_account_rows_def split: prod.splits)
    have "distinct (map (\<lambda>k. (ik_user k, ik_key k)) (idem_keys (store adb)))" using parts(1) by (simp add: store_inv_def structure_defs)
    then have "store_inv ((store adb)\<lparr>idem_keys := rows\<rparr>)" using parts(1) left(1,3) [OF d] by (intro store_inv_keys) auto
    then show ?thesis using inv by (simp add: account_inv_def adb')
  qed (use inv run in \<open>auto simp: delete_account_rows_def account_inv_def split: prod.splits\<close>)
qed

subsection \<open>The system\<close>

text \<open>
  One rule per operation that changes the account tables; the attempt windows and the reset
  requests are not part of the invariant. \<open>board\<close> is any transaction of the boards store, and
  \<open>clean_up\<close> a batch of the cleanup job, for any of its rules, at any time and whatever is locked.
\<close>

inductive account_step :: "env \<Rightarrow> auth_db \<Rightarrow> auth_db \<Rightarrow> bool" for e where
  board: "board_step e (store adb) db' \<Longrightarrow> account_step e adb (adb\<lparr>store := db'\<rparr>)"
| admin: "CreateAdmin adb now fresh email pw = Inr (adb', user) \<Longrightarrow> account_step e adb adb'"
| member: "CreateInvitedMember adb now fresh gen email pw h ex = Inr (adb', user) \<Longrightarrow> (\<And>n. gen n \<noteq> []) \<Longrightarrow> account_step e adb adb'"
| signup_attempt: "ConsumeSignupAttempt skip adb a b now win limit = Inr (adb', r) \<Longrightarrow> account_step e adb adb'"
| reset_attempt: "ConsumePasswordResetAttempt skip adb a b now win limit = Inr (adb', r) \<Longrightarrow> account_step e adb adb'"
| confirm_attempt: "ConsumePasswordResetConfirmationAttempt skip adb a b now win limit = Inr (adb', r) \<Longrightarrow> account_step e adb adb'"
| queue: "QueuePasswordResetRequest adb txnow fresh email now = Inr (adb', x) \<Longrightarrow> account_step e adb adb'"
| claim: "ClaimPasswordResetRequest rskip adb now = Inr (adb', request) \<Longrightarrow> account_step e adb adb'"
| complete: "account_step e adb (CompletePasswordResetRequest rskip adb i now)"
| retry: "account_step e adb (RetryPasswordResetRequest adb now i available)"
| reset_token: "CreatePasswordResetToken tskip adb now email h ex = Inr (adb', x) \<Longrightarrow> account_step e adb adb'"
| reset: "ResetPassword adb h pw now = Inr (adb', x) \<Longrightarrow> account_step e adb adb'"
| login: "CreateSession adb u pw h ex = Inr (adb', x) \<Longrightarrow> account_step e adb adb'"
| logout: "account_step e adb (DeleteSession adb h)"
| api_token: "CreateAPIToken adb now fresh u name h = Inr (adb', token) \<Longrightarrow> account_step e adb adb'"
| revoke_token: "RevokeAPIToken e adb now u i = Inr (adb', x) \<Longrightarrow> account_step e adb adb'"
| authenticate: "FindUserByAPITokenHash adb h now = Inr (adb', user) \<Longrightarrow> account_step e adb adb'"
| profile: "UpdateProfile adb u theme display = Inr (adb', user) \<Longrightarrow> account_step e adb adb'"
| disable: "SetMemberDisabled toLower adb now email off = Inr (adb', x) \<Longrightarrow> account_step e adb adb'"
| agent: "CreateAgent e adb now fresh freshC u name purpose h pre = Inr (adb', ag) \<Longrightarrow> fresh \<noteq> [] \<Longrightarrow> account_step e adb adb'"
| rename_agent: "UpdateAgent e adb now u i name purpose = Inr (adb', ag) \<Longrightarrow> account_step e adb adb'"
| delete_agent: "DeleteAgent e adb u i = Inr (adb', x) \<Longrightarrow> account_step e adb adb'"
| revoke_agent: "RevokeAgentToken e adb now u i = Inr (adb', x) \<Longrightarrow> account_step e adb adb'"
| rotate: "RotateCredential adb now fresh u i key h pre = Inr (adb', (c, rotated)) \<Longrightarrow> account_step e adb adb'"
| revoke: "RevokeCredential adb now u i = Inr (adb', x) \<Longrightarrow> account_step e adb adb'"
| clean_up: "rule \<in> set rules \<Longrightarrow> delete_account_rows now rule locked limit adb = (n, adb') \<Longrightarrow> account_step e adb adb'"

inductive_cases account_stepE: "account_step e adb adb'"

lemma account_inv_queues [simp]:
  "account_inv e (adb\<lparr>reset_requests := rs\<rparr>) = account_inv e adb" "account_inv e (adb\<lparr>signup_limits := ls\<rparr>) = account_inv e adb"
  "account_inv e (adb\<lparr>reset_limits := ls\<rparr>) = account_inv e adb" "account_inv e (adb\<lparr>confirm_limits := ls\<rparr>) = account_inv e adb"
  by (simp_all add: account_inv_def)

lemma queue_ops_inv:
  assumes inv: "account_inv e adb"
  shows "ConsumeSignupAttempt skip adb a b now win limit = Inr (adb', r) \<Longrightarrow> account_inv e adb'"
    "ConsumePasswordResetAttempt skip adb a b now win limit = Inr (adb', r) \<Longrightarrow> account_inv e adb'"
    "ConsumePasswordResetConfirmationAttempt skip adb a b now win limit = Inr (adb', r) \<Longrightarrow> account_inv e adb'"
    "QueuePasswordResetRequest adb txnow fresh email now = Inr (adb', x) \<Longrightarrow> account_inv e adb'"
    "ClaimPasswordResetRequest rskip adb now = Inr (adb', request) \<Longrightarrow> account_inv e adb'"
    "account_inv e (CompletePasswordResetRequest rskip adb i now)" "account_inv e (RetryPasswordResetRequest adb now i available)"
  using inv
  by (auto simp: ConsumeSignupAttempt_def ConsumePasswordResetAttempt_def ConsumePasswordResetConfirmationAttempt_def
      QueuePasswordResetRequest_def ClaimPasswordResetRequest_def CompletePasswordResetRequest_def RetryPasswordResetRequest_def
      Let_def rbind_eq_Inr split: list.splits)

lemma account_step_inv:
  assumes "account_step e adb adb'" "account_inv e adb"
  shows "account_inv e adb'"
  using assms
proof (induction rule: account_step.induct)
  case (board adb db')
  then have "store_inv (store adb)" by (simp add: account_inv_def)
  then show ?case
    using board board_step_inv board_step_accounts account_inv_store_cong unfolding same_accounts_def by blast
qed (blast intro: queue_ops_inv CreateAdmin_inv CreateInvitedMember_inv CreatePasswordResetToken_inv ResetPassword_inv CreateSession_inv
    DeleteSession_inv CreateAPIToken_inv RevokeAPIToken_inv FindUserByAPITokenHash_inv UpdateProfile_inv SetMemberDisabled_inv
    CreateAgent_inv UpdateAgent_inv DeleteAgent_inv RevokeAgentToken_inv RotateCredential_inv RevokeCredential_inv delete_account_rows_inv)+

text \<open>A fresh deployment has no accounts.\<close>

definition fresh_db :: "db \<Rightarrow> bool" where
  "fresh_db db \<longleftrightarrow> users db = [] \<and> entitlement_rows db = [] \<and> usages db = [] \<and> agent_rows db = [] \<and> buckets db = [] \<and> tasks db = []
     \<and> entries db = [] \<and> idem_keys db = [] \<and> run_starts db = []"

definition account_init :: "auth_db \<Rightarrow> bool" where
  "account_init adb \<longleftrightarrow> fresh_db (store adb) \<and> sessions adb = [] \<and> api_tokens adb = [] \<and> credentials adb = [] \<and> rotations adb = []
     \<and> reset_tokens adb = []"

lemma fresh_db_inv: "fresh_db db \<Longrightarrow> store_inv db"
  by (simp add: fresh_db_def store_inv_def structure_ok_def keys_ok_def refs_ok_def inbox_ok_def rows_ok_def accounting_ok_def
      usage_of_def stored_tasks_of_def stored_bytes_of_def)

lemma account_init_inv: "account_init adb \<Longrightarrow> account_inv e adb"
  by (simp add: account_init_def account_inv_def fresh_db_inv users_ok_def agents_ok_def sessions_ok_def tokens_ok_def credentials_ok_def
      rotations_ok_def resets_ok_def) (simp add: fresh_db_def)

interpretation slate: invariant_system account_init "account_step e" "account_inv e" for e
  by unfold_locales (use account_init_inv account_step_inv in blast)+

end
