(* ===== verification/ServeSteps.thy ===== *)
theory ServeSteps
  imports Routes AccountSystem
begin

section \<open>Requests as sequences of transactions\<close>

text \<open>
  Every handler commits transactions of the account system and nothing else: what a request does
  to the tables is a path of \<open>account_step\<close>. With it every invariant of the tables becomes one
  of the whole server, whatever requests it is sent and whatever the reset worker does between.
\<close>

subsection \<open>Handlers\<close>

definition draws_ok :: "draws \<Rightarrow> bool" where
  "draws_ok d \<longleftrightarrow> dw_fresh d \<noteq> [] \<and> dw_fresh2 d \<noteq> [] \<and> (\<forall>n. dw_lists d n \<noteq> [])"

text \<open>\<open>path\<close> says that an outcome's database is reached by transactions from another one.\<close>

definition path :: "env \<Rightarrow> auth_db \<Rightarrow> 'a \<times> auth_db \<Rightarrow> bool" where
  "path e adb out \<longleftrightarrow> (account_step e)\<^sup>*\<^sup>* adb (snd out)"

lemma path_refl [simp]: "path e adb (x, adb)"
  by (simp add: path_def)

lemma path_step: "account_step e adb adb' \<Longrightarrow> path e adb (x, adb')"
  by (simp add: path_def r_into_rtranclp)

lemma path_next: "path e adb (y, adb') \<Longrightarrow> account_step e adb' adb'' \<Longrightarrow> path e adb (x, adb'')"
  by (simp add: path_def)

lemma path_append: "path e adb (y, adb') \<Longrightarrow> path e adb' out \<Longrightarrow> path e adb out"
  by (simp add: path_def)

lemma path_answer: "(\<And>out. m = Inr out \<Longrightarrow> path e adb out) \<Longrightarrow> path e adb (answer adb m)"
  by (cases m) simp_all

lemma path_board: "board_step e (store adb) db \<Longrightarrow> path e adb (x, adb\<lparr>store := db\<rparr>)"
  by (rule path_step [OF board])

lemmas auth_paths = path_step [OF admin] path_step [OF member] path_step [OF signup_attempt] path_step [OF reset_attempt]
  path_step [OF confirm_attempt] path_step [OF queue] path_step [OF claim] path_step [OF complete] path_step [OF retry]
  path_step [OF reset_token] path_step [OF reset] path_step [OF login] path_step [OF logout] path_step [OF api_token]
  path_step [OF revoke_token] path_step [OF authenticate] path_step [OF profile] path_step [OF agent] path_step [OF rename_agent]
  path_step [OF delete_agent] path_step [OF revoke_agent] path_step [OF rotate] path_step [OF revoke]

lemmas outcome_splits = if_splits option.splits sum.splits prod.splits

lemma register_member_path: "draws_ok d \<Longrightarrow> path e adb (register_member lib s d adb email input)"
  unfolding register_member_def Let_def
  by (rule path_answer) (auto elim!: rbind_elims split: outcome_splits intro: auth_paths simp: draws_ok_def)

lemma Register_path:
  assumes "draws_ok d"
  shows "path e adb (Register lib s d adb r decoded)"
proof -
  have member: "register_member lib s d adb' email input = out \<Longrightarrow> path e adb' out" for adb' email input out
    using register_member_path [OF assms] by metis
  show ?thesis
    unfolding Register_def Let_def
    by (rule path_answer) (auto elim!: rbind_elims split: outcome_splits
        intro: path_step [OF signup_attempt] path_append [OF path_step [OF signup_attempt] member])
qed

lemma Login_path: "path e adb (Login lib d adb r decoded)"
  unfolding Login_def createSession_def Let_def
  by (rule path_answer) (auto elim!: rbind_elims split: outcome_splits intro: auth_paths)

lemma Logout_path: "path e adb (Logout lib adb r)"
  unfolding Logout_def
  by (rule path_answer) (auto elim!: rbind_elims split: outcome_splits intro: auth_paths)

lemma RequestPasswordReset_path: "path e adb (RequestPasswordReset lib s d adb r decoded)"
  unfolding RequestPasswordReset_def Let_def
  by (rule path_answer) (auto elim!: rbind_elims split: outcome_splits
      intro: auth_paths path_next [OF path_step [OF reset_attempt] queue])

lemma ResetPassword_post_path: "path e adb (ResetPassword_post lib d adb r decoded)"
  unfolding ResetPassword_post_def Let_def
  by (rule path_answer) (auto elim!: rbind_elims split: outcome_splits simp: answer_def
      intro: auth_paths path_next [OF path_step [OF confirm_attempt] reset])

lemma account_paths:
  "path e adb (UpdateTheme_patch lib adb r profile user)"
  "path e adb (CreateAPIToken_post lib d adb r token user)"
  "path e adb (RevokeAPIToken_delete lib e d adb r user)"
  "path e adb (DeleteAgent_delete lib e adb r user)"
  "path e adb (RevokeCredential_delete lib d adb r user)"
  "path e adb (Update_patch lib e d adb r ainput user)"
  "path e adb (RotateCredential_post lib d adb r token user)"
  unfolding UpdateTheme_patch_def CreateAPIToken_post_def RevokeAPIToken_delete_def DeleteAgent_delete_def agent_gone_def
    RevokeCredential_delete_def Update_patch_def RotateCredential_post_def Let_def
  by (rule path_answer; auto elim!: rbind_elims split: outcome_splits intro: auth_paths)+

lemma CreateAgent_post_path: "draws_ok d \<Longrightarrow> path e adb (CreateAgent_post lib e d adb r ainput user)"
  unfolding CreateAgent_post_def Let_def
  by (rule path_answer) (auto elim!: rbind_elims split: outcome_splits intro: auth_paths simp: draws_ok_def)

subsection \<open>Board handlers\<close>

definition board_path :: "env \<Rightarrow> db \<Rightarrow> response \<times> db \<Rightarrow> bool" where
  "board_path e db out \<longleftrightarrow> snd out = db \<or> board_step e db (snd out)"

lemma board_path_refl [simp]: "board_path e db (resp, db)"
  by (simp add: board_path_def)

lemma board_path_answer: "(\<And>resp db'. m = Inr (resp, db') \<Longrightarrow> board_step e db db') \<Longrightarrow> board_path e db (answer db m)"
  by (cases m) (auto simp: board_path_def)

lemma stored_InrE: "stored account status b m = Inr (resp, db') \<Longrightarrow> (\<And>x. m = Inr (db', x) \<Longrightarrow> resp = writeJSON status (b x) \<Longrightarrow> P) \<Longrightarrow> P"
  by (auto simp: stored_def split: sum.splits)

lemma update_as_step: "update_as e d db r input user = Inr (db', t) \<Longrightarrow> board_step e db db'"
  by (auto simp: update_as_def UpdateTaskForAgent_def UpdateTask_def split: if_splits intro: step_updateTask)

lemma claim_as_step: "claim_as e d db r user = Inr (db', t) \<Longrightarrow> board_step e db db'"
  by (auto simp: claim_as_def ClaimTask_def ClaimTaskForAgent_def ClaimTaskForManagedRun_def Let_def split: if_splits
      elim!: rbind_elims intro: step_claimTask)

lemmas list_handlers = CreateBucket_post_def UpdateBucket_patch_def DeleteBucket_delete_def ReorderBuckets_post_def ReorderTasks_post_def
  ReorderSubtasks_post_def
lemmas task_handlers = CreateTask_post_def CreateInboxTask_post_def CreateSubtask_post_def UpdateTaskStatus_patch_def MoveTask_post_def
  DeleteTask_delete_def UpdateTaskForHuman_def CreateTaskEntry_post_def
lemmas agent_handlers = UpdateTask_patch_def AgentClaim_post_def AgentStatus_patch_def AgentDone_post_def

lemma list_paths:
  assumes "draws_ok d"
  shows "board_path e db (CreateBucket_post d db bnew user)"
    "board_path e db (UpdateBucket_patch e d db r bedit user)"
    "board_path e db (DeleteBucket_delete e db r user)"
    "board_path e db (ReorderBuckets_post d db order user)"
    "board_path e db (ReorderTasks_post e d db r order user)"
    "board_path e db (ReorderSubtasks_post e d db r order user)"
  unfolding list_handlers
  by (rule board_path_answer; elim rbind_elims stored_InrE; use assms in \<open>auto simp: draws_ok_def intro: board_step.intros\<close>)+

lemma task_paths:
  assumes "draws_ok d"
  shows "board_path e db (CreateTask_post e d db r tnew user)"
    "board_path e db (CreateInboxTask_post e d db r tnew user)"
    "board_path e db (CreateSubtask_post e d db r tnew user)"
    "board_path e db (UpdateTaskStatus_patch e d db r status user)"
    "board_path e db (MoveTask_post e d db r mv user)"
    "board_path e db (DeleteTask_delete e db r user)"
    "board_path e db (CreateTaskEntry_post e d db r en user)"
  unfolding task_handlers Let_def
  by (rule board_path_answer; elim rbind_elims stored_InrE; use assms in \<open>auto simp: draws_ok_def intro: board_step.intros\<close>)+

lemma agent_paths:
  "board_path e db (UpdateTask_patch e d db r tedit user)"
  "board_path e db (AgentClaim_post e d db r user)"
  "board_path e db (AgentStatus_patch e d db r st user)"
  "board_path e db (AgentDone_post e d db r user)"
  unfolding agent_handlers
  by (rule board_path_answer; elim rbind_elims stored_InrE; auto intro: update_as_step claim_as_step)+

lemma serve_board_path: "draws_ok (cl_draws c) \<Longrightarrow> board_path (wl_env w) db (serve_board w c u r user db)"
  by (cases u) (simp_all add: list_paths task_paths agent_paths)

subsection \<open>The server\<close>

definition server_path :: "env \<Rightarrow> server \<Rightarrow> 'a \<times> server \<Rightarrow> bool" where
  "server_path e sv out \<longleftrightarrow> (account_step e)\<^sup>*\<^sup>* (sv_auth sv) (sv_auth (snd out))"

lemma server_path_refl [simp]: "server_path e sv (x, sv)" "server_path e sv (x, sv\<lparr>sv_limits := l\<rparr>)"
  by (simp_all add: server_path_def)

lemma server_path_append: "server_path e sv (y, sv1) \<Longrightarrow> server_path e sv1 out \<Longrightarrow> server_path e sv out"
  by (simp add: server_path_def)

lemma server_path_again: "server_path e sv (y, sv1) \<Longrightarrow> server_path e sv (x, sv1)"
  by (simp add: server_path_def)

lemma server_path_auth: "(\<And>adb. path e adb (h adb)) \<Longrightarrow> server_path e sv (on_auth h sv)"
  unfolding server_path_def on_auth_def path_def by (simp add: split_def)

lemma server_path_board: "(\<And>db. board_path e db (h db)) \<Longrightarrow> server_path e sv (on_board h sv)"
  unfolding on_board_def
  by (rule server_path_auth, subst split_def)
    (metis board_path_def path_board path_refl auth_db.surjective auth_db.update_convs(1) prod.collapse)

lemma resolve_user_auth:
  assumes "ResolveUserFromRequestWithGate sha adb now r gate g = (res, adb', g')"
  shows "adb' = adb \<or> (\<exists>token user credential. readBearerToken r = Some token
    \<and> FindUserByAPITokenHash adb (sha token) (now 1) = Inr (adb', user) \<and> res = Inr (user, credential))"
  using assms by (auto simp: ResolveUserFromRequestWithGate_def Let_def split: prod.splits option.splits sum.splits resolve_error.splits if_splits)

lemma authenticate_path: "server_path e sv (authenticateWithLimits sha limits rd sv r sessionOnly record)"
proof -
  have resolve: "(account_step e)\<^sup>*\<^sup>* adb adb'" if "ResolveUserFromRequestWithGate sha adb now r gate g = (res, adb', g')"
    for adb adb' now gate res and g g' :: 'g
    using resolve_user_auth [OF that] authenticate [of adb _ _ adb' _ e] by blast
  show ?thesis
    unfolding authenticateWithLimits_def server_path_def Let_def
    by (auto split: option.splits prod.splits sum.splits resolve_error.splits if_splits dest: resolve)
qed

lemma allowPublicAuth_path: "server_path e sv (allowPublicAuth lib a rd sv r)"
  by (auto simp: allowPublicAuth_def split: option.splits sum.splits prod.splits)

lemma server_path_then:
  assumes "server_path e sv (y, sv1)" "server_path e sv1 (h sv1)"
  shows "server_path e sv (case h sv1 of (resp, sv2) \<Rightarrow> (f resp, sv2))"
  using assms by (cases "h sv1") (simp add: server_path_def)

lemma publicAuth_path:
  assumes "\<And>sv. server_path e sv (h sv)"
  shows "server_path e sv (publicAuth lib a rd h sv r)"
proof -
  obtain x sv1 where "allowPublicAuth lib a rd sv r = (x, sv1)" by (cases "allowPublicAuth lib a rd sv r")
  moreover from this have "server_path e sv (x, sv1)" using allowPublicAuth_path [of e sv lib a rd r] by simp
  ultimately show ?thesis
    using server_path_then [of e sv x sv1 h, OF _ assms] by (cases x) (simp_all add: publicAuth_def server_path_def)
qed

lemma resolveAuthenticated_path: "server_path e sv (resolveAuthenticated lib a rd sv r sessionOnly)"
  using authenticate_path [of e sv "lb_sha lib" "ap_limits a" rd r sessionOnly True]
  by (auto simp: resolveAuthenticated_def split: prod.splits intro: server_path_again)

lemma guarded_path:
  assumes "\<And>user sv. server_path e sv (h user sv)"
  shows "server_path e sv (guarded lib a rd sessionOnly h sv r)"
proof -
  obtain x sv1 where "resolveAuthenticated lib a rd sv r sessionOnly = (x, sv1)" by (cases "resolveAuthenticated lib a rd sv r sessionOnly")
  moreover from this have "server_path e sv (x, sv1)" using resolveAuthenticated_path [of e sv lib a rd r sessionOnly] by simp
  ultimately show ?thesis
    using server_path_then [of e sv x sv1 "h (fst (projr x))", OF _ assms]
    by (cases x) (auto simp: guarded_def server_path_def split: sum.splits)
qed

lemma guard_with_path: "(\<And>user sv. server_path e sv (h user sv)) \<Longrightarrow> server_path e sv (guard_with g lib a rd h sv r)"
  by (cases g) (auto simp: session_user_def any_user_def accountRead_def person_def accountManage_def intro!: guarded_path)

lemma app_me_path: "server_path e sv (app_me lib a rd sv r)"
proof -
  have start: "server_path e sv (authenticateWithLimits (lb_sha lib) (ap_limits a) rd sv r False False)" by (rule authenticate_path)
  have allow: "server_path e sv1 (x, sv2)" if "allowPublicAuth lib a rd sv1 r = (y, sv2)" for sv1 sv2 y and x :: response
    using allowPublicAuth_path [of e sv1 lib a rd r] that by (auto intro: server_path_again)
  show ?thesis
    using start by (auto simp: app_me_def split: prod.splits option.splits sum.splits if_splits
        intro: server_path_again server_path_append allow)
qed

lemma serve_open_path:
  assumes "draws_ok (cl_draws c)"
  shows "server_path e sv (serve_open w c p sv r)"
  by (cases p) (auto simp: app_login_def app_register_def app_logout_def app_requestPasswordReset_def app_resetPassword_def
      split: sum.splits intro!: publicAuth_path server_path_auth app_me_path Login_path Register_path [OF assms] Logout_path
      RequestPasswordReset_path ResetPassword_post_path)

lemma serve_account_path:
  assumes "draws_ok (cl_draws c)" "serve_account w c u r = Some h"
  shows "server_path (wl_env w) sv (h user sv)"
  using assms(2) by (cases u) (auto simp: only_read_def intro!: server_path_auth account_paths CreateAgent_post_path [OF assms(1)])

lemma user_handler_path:
  assumes "draws_ok (cl_draws c)"
  shows "server_path (wl_env w) sv (user_handler w c u r user sv)"
  by (cases "serve_account w c u r")
    (auto simp: user_handler_def intro: server_path_board serve_board_path [OF assms] serve_account_path [OF assms])

lemma serve_path: "draws_ok (cl_draws c) \<Longrightarrow> server_path (wl_env w) sv (serve w c sv r)"
  by (auto simp: serve_def Let_def split: option.splits target.splits
      intro: serve_open_path guard_with_path user_handler_path)

subsection \<open>The reset worker\<close>

lemma retry_request_path: "path e adb (x, retry_request d adb q)"
  by (simp add: retry_request_def Let_def path_step [OF retry])

lemma worker_path:
  assumes "processPasswordResetRequest lib s d adb sent = (res, mail, adb')"
  shows "(account_step e)\<^sup>*\<^sup>* adb adb'"
proof -
  have again: "path e adb (x, retry_request d adb2 q)" if "path e adb (x, adb2)" for x :: unit and adb2 q
    by (rule path_append [OF that retry_request_path])
  have "path e adb ((), adb')"
    using assms by (auto simp: processPasswordResetRequest_def Let_def split: sum.splits option.splits prod.splits if_splits
        intro!: again intro: path_step [OF claim] path_next [OF path_step [OF claim] complete]
          path_next [OF path_step [OF claim] reset_token] path_next [OF path_next [OF path_step [OF claim] reset_token] complete])
  then show ?thesis by (simp add: path_def)
qed

end
