(* ===== verification/AccountRules.thy ===== *)
theory AccountRules
  imports AccountSystem
begin

section \<open>What accounts, tokens and agents guarantee\<close>

text \<open>
  The properties of the whole database, over every sequence of transactions from a fresh
  deployment, and of the single account operations.
\<close>

subsection \<open>A small deployment\<close>

definition ex_auth :: auth_db where
  "ex_auth = \<lparr>store = ex_db, sessions = [\<lparr>se_user = ''u1'', se_hash = ''s1'', se_expires = 1000\<rparr>],
     api_tokens = [\<lparr>ap_id = ''p1'', ap_user = ''u1'', ap_name = ''cli'', ap_hash = ''ah1'', ap_last_used = None, ap_revoked = None, ap_created = 1\<rparr>],
     credentials = [\<lparr>cd_id = ''c1'', cd_agent = ex_agent_uuid, cd_hash = ''ch1'', cd_prefix = None, cd_last_used = None, cd_revoked = None,
       cd_created = 1, cd_updated = 1\<rparr>],
     rotations = [], reset_tokens = [\<lparr>rt_user = ''u1'', rt_hash = ''rh1'', rt_expires = 1000, rt_used = None\<rparr>],
     reset_requests = [\<lparr>rr_id = ''q1'', rr_email = ''ann@example.org'', rr_available = 5, rr_claimed = None, rr_attempts = 0,
       rr_processed = None, rr_created = 5\<rparr>],
     signup_limits = [], reset_limits = [], confirm_limits = []\<rparr>"

lemma ex_account_inv: "account_inv ex_env ex_auth"
proof -
  have "users_ok (users ex_db)" by code_simp
  moreover have "agents_ok ex_env (users ex_db) (agent_rows ex_db)"
    by (simp add: agents_ok_def ex_defs same_name_def)
  moreover have "enabled (users ex_db) ''u1''" by (simp add: enabled_def ex_db_def)
  ultimately show ?thesis
    by (simp add: account_inv_def ex_store_inv ex_auth_def sessions_ok_def tokens_ok_def credentials_ok_def rotations_ok_def
        resets_ok_def active_token_def) (simp add: ex_db_def)
qed

definition empty_auth :: auth_db where
  "empty_auth = \<lparr>store = \<lparr>users = [], entitlement_rows = [], usages = [], agent_rows = [], buckets = [], tasks = [], entries = [],
     idem_keys = [], run_starts = []\<rparr>, sessions = [], api_tokens = [], credentials = [], rotations = [], reset_tokens = [],
     reset_requests = [], signup_limits = [], reset_limits = [], confirm_limits = []\<rparr>"

lemma empty_init: "account_init empty_auth"
  by (simp add: account_init_def fresh_db_def empty_auth_def)

definition ex_gen :: "nat \<Rightarrow> string" where
  "ex_gen n = CHR ''b'' # replicate n (CHR ''x'')"

definition ex_signup :: "User auth_tx" where
  "ex_signup = CreateInvitedMember empty_auth 7 ''u1'' ex_gen ''ann@example.org'' ''pw1'' ''s1'' 1000"

text \<open>The first member of an empty deployment.\<close>

lemma ex_signup_runs:
  obtains adb user where "ex_signup = Inr (adb, user)" "uID user = ''u1''" "reachable account_init (account_step ex_env) adb"
    "map bk_name (buckets (store adb)) = [''Inbox'', ''Product'', ''Content'', ''Growth'', ''Operations'']"
proof -
  have "case ex_signup of Inr (adb, user) \<Rightarrow> uID user = ''u1''
      \<and> map bk_name (buckets (store adb)) = [''Inbox'', ''Product'', ''Content'', ''Growth'', ''Operations''] | Inl _ \<Rightarrow> False" by code_simp
  then obtain adb user where run: "ex_signup = Inr (adb, user)" and u: "uID user = ''u1''"
    "map bk_name (buckets (store adb)) = [''Inbox'', ''Product'', ''Content'', ''Growth'', ''Operations'']"
    by (auto split: sum.splits)
  have "account_step ex_env empty_auth adb"
    by (rule member [OF run [unfolded ex_signup_def]]) (simp add: ex_gen_def)
  then have "reachable account_init (account_step ex_env) adb"
    using reachable_step [OF reachable_start [where init = account_init, OF empty_init]] by blast
  then show thesis using run u by (intro that [of adb user])
qed

text \<open>The member captures a first task.\<close>

definition ex_capture :: "auth_db \<Rightarrow> Task tx" where
  "ex_capture adb = CreateInboxTask ex_env (store adb) 8 ''b9'' ''t1'' ''u1'' (ex_create ''Write'')"

lemma ex_capture_runs:
  obtains adb user db' task where "ex_signup = Inr (adb, user)" "ex_capture adb = Inr (db', task)" "tasks db' \<noteq> []"
    "reachable account_init (account_step ex_env) (adb\<lparr>store := db'\<rparr>)"
proof (rule ex_signup_runs)
  fix adb user
  assume run: "ex_signup = Inr (adb, user)" and r: "reachable account_init (account_step ex_env) adb"
  have "case ex_signup of Inr (adb, user) \<Rightarrow> (case ex_capture adb of Inr (db', task) \<Rightarrow> tasks db' \<noteq> [] | Inl _ \<Rightarrow> False) | Inl _ \<Rightarrow> False"
    by code_simp
  then obtain db' task where cap: "ex_capture adb = Inr (db', task)" and t: "tasks db' \<noteq> []"
    unfolding run by (auto split: sum.splits)
  have "board_step ex_env (store adb) db'"
    by (rule step_CreateInboxTask [OF cap [unfolded ex_capture_def]]) simp_all
  then have "reachable account_init (account_step ex_env) (adb\<lparr>store := db'\<rparr>)"
    using reachable_step [OF r] board by blast
  then show thesis using run cap t by (intro that [of adb user db' task])
qed

subsection \<open>Every reachable database\<close>

text \<open>
  C1: The storage counters are exact. Whatever sequence of sign-ups, task, list, entry and agent
  operations was committed, the counters of every account equal the number of its stored tasks
  and the bytes of their titles, descriptions and card entries, counted over the tables.
\<close>

theorem storage_counters_exact:
  assumes "reachable account_init (account_step e) adb"
  shows "usage_of (store adb) u = \<lparr>u_Tasks = count_where (\<lambda>t. tk_owner t = u) (tasks (store adb)),
    u_ContentBytes = sum_where (\<lambda>t. tk_owner t = u) (\<lambda>t. storage_bytes t
      + sum_where (\<lambda>c. er_task c = tk_id t) (\<lambda>c. int (length (er_body c))) (entries (store adb))) (tasks (store adb))\<rparr>"
  using slate.good_reachable [OF assms]
  by (simp add: account_inv_def store_inv_def accounting_ok_def stored_tasks_of_def stored_bytes_of_def
      content_bytes_def [abs_def] entry_bytes_def)

theorem storage_counters_exact_witness:
  "\<exists>adb user. ex_signup = Inr (adb, user) \<and> u_Tasks (usage_of (store adb) ''u1'') = count_where (\<lambda>t. tk_owner t = ''u1'') (tasks (store adb))"
proof (rule ex_signup_runs)
  fix adb user
  assume "ex_signup = Inr (adb, user)" "reachable account_init (account_step ex_env) adb"
  then show ?thesis using storage_counters_exact [of ex_env adb "''u1''"] by auto
qed

text \<open>
  C2: The tables of the store always fit together. In every reachable database a task lies in a
  list of its own account, a subtask hangs below a top-level task in the same list, an assignee
  is an agent of the task's account, every entry belongs to a stored task, and the workflow
  fields agree: a task with an assignee is not new, a queued task has no run, and a task is
  completed exactly when it is done.
\<close>

theorem board_structure:
  assumes "reachable account_init (account_step e) adb" and "t \<in> set (tasks (store adb))"
  shows "(\<exists>b \<in> set (buckets (store adb)). bk_id b = tk_bucket t \<and> bk_user b = tk_owner t)
    \<and> (tk_parent t = None \<or> (\<exists>q \<in> set (tasks (store adb)). tk_parent t = Some (tk_id q) \<and> tk_parent q = None
         \<and> tk_bucket q = tk_bucket t \<and> tk_owner q = tk_owner t))
    \<and> (tk_assignee t = None \<or> (\<exists>g \<in> set (agent_rows (store adb)). tk_assignee t = Some (ag_id g) \<and> ag_owner g = tk_owner t)
         \<and> tk_status t \<noteq> StatusNew)
    \<and> (tk_run t = None \<or> tk_status t \<noteq> StatusQueued) \<and> (tk_completed t \<noteq> None \<longleftrightarrow> tk_status t = StatusDone)
    \<and> er_task ` set (entries (store adb)) \<subseteq> tk_id ` set (tasks (store adb))"
proof -
  let ?db = "store adb"
  have s: "structure_ok ?db" using slate.good_reachable [OF assms(1)] by (simp add: account_inv_def store_inv_def)
  have "list_owner ?db (tk_bucket t) = Some (tk_owner t)" using task_ownerD [OF s assms(2)] .
  then have 1: "\<exists>b \<in> set (buckets ?db). bk_id b = tk_bucket t \<and> bk_user b = tk_owner t"
    by (auto simp: list_owner_def dest!: find_SomeD)
  have 2: "tk_parent t = None \<or> (\<exists>q \<in> set (tasks ?db). tk_parent t = Some (tk_id q) \<and> tk_parent q = None
         \<and> tk_bucket q = tk_bucket t \<and> tk_owner q = tk_owner t)"
  proof (cases "tk_parent t")
    case (Some p)
    obtain q where "q \<in> set (tasks ?db)" "tk_id q = p" "tk_parent q = None" "tk_bucket q = tk_bucket t" "tk_owner q = tk_owner t"
      using task_parentD [OF s assms(2) Some] by blast
    then show ?thesis using Some by blast
  qed simp
  have row: "task_row_ok t" using task_rowD [OF s assms(2)] .
  have 3: "tk_assignee t = None \<or> (\<exists>g \<in> set (agent_rows ?db). tk_assignee t = Some (ag_id g) \<and> ag_owner g = tk_owner t)"
    using task_assignedD [OF s assms(2)] by (cases "tk_assignee t") (auto simp: assigned_ok_def list_ex_iff)
  have 4: "er_task ` set (entries ?db) \<subseteq> tk_id ` set (tasks ?db)"
    using s by (auto simp: structure_ok_def refs_ok_def list_all_iff)
  show ?thesis using 1 2 3 4 row unfolding task_row_ok_def by blast
qed

theorem board_structure_witness:
  "\<exists>adb user db' task t. ex_signup = Inr (adb, user) \<and> ex_capture adb = Inr (db', task) \<and> t \<in> set (tasks db')
    \<and> (\<exists>b \<in> set (buckets db'). bk_id b = tk_bucket t \<and> bk_user b = tk_owner t)"
proof (rule ex_capture_runs)
  fix adb user db' task
  assume run: "ex_signup = Inr (adb, user)" "ex_capture adb = Inr (db', task)" and t: "tasks db' \<noteq> []"
    and r: "reachable account_init (account_step ex_env) (adb\<lparr>store := db'\<rparr>)"
  have "hd (tasks db') \<in> set (tasks db')" using t by simp
  then show ?thesis using run board_structure [OF r, of "hd (tasks db')"] by auto
qed

text \<open>
  C3: The account tables stay sound. In every reachable database sessions and unrevoked API
  tokens belong to accounts that are not disabled, an agent has at most one credential that is
  not revoked, an account has at most one open password reset token, and no account has more
  than twenty active API tokens or five active agents.
\<close>

theorem accounts_sound:
  assumes "reachable account_init (account_step e) adb"
  shows "(\<forall>s \<in> set (sessions adb). \<exists>u \<in> set (users (store adb)). us_id u = se_user s \<and> \<not> us_disabled u)
    \<and> (\<forall>t \<in> set (api_tokens adb). ap_revoked t \<noteq> None \<or> (\<exists>u \<in> set (users (store adb)). us_id u = ap_user t \<and> \<not> us_disabled u))
    \<and> count_where (\<lambda>c. cd_agent c = a \<and> cd_revoked c = None) (credentials adb) \<le> 1
    \<and> count_where (\<lambda>r. rt_user r = v \<and> rt_used r = None) (reset_tokens adb) \<le> 1
    \<and> count_where (\<lambda>t. ap_user t = v \<and> ap_revoked t = None) (api_tokens adb) \<le> 20
    \<and> count_where (\<lambda>g. ag_owner g = v \<and> \<not> ag_archived g) (agent_rows (store adb)) \<le> 5"
proof -
  have inv: "account_inv e adb" using slate.good_reachable [OF assms] .
  have "\<forall>s \<in> set (sessions adb). enabled (users (store adb)) (se_user s)"
    "\<forall>t \<in> set (api_tokens adb). ap_revoked t = None \<longrightarrow> enabled (users (store adb)) (ap_user t)"
    "count_where (active_token v) (api_tokens adb) \<le> 20" "count_where (\<lambda>c. cd_agent c = a \<and> cd_revoked c = None) (credentials adb) \<le> 1"
    "count_where (\<lambda>r. rt_user r = v \<and> rt_used r = None) (reset_tokens adb) \<le> 1"
    "count_where (\<lambda>g. ag_owner g = v \<and> \<not> ag_archived g) (agent_rows (store adb)) \<le> 5"
    using inv by (simp_all add: account_inv_def sessions_ok_def tokens_ok_def credentials_ok_def resets_ok_def agents_ok_def)
  then show ?thesis unfolding enabled_def active_token_def by blast
qed

theorem accounts_sound_witness:
  "\<exists>adb user. ex_signup = Inr (adb, user)
    \<and> (\<forall>s \<in> set (sessions adb). \<exists>u \<in> set (users (store adb)). us_id u = se_user s \<and> \<not> us_disabled u)"
proof (rule ex_signup_runs)
  fix adb user
  assume "ex_signup = Inr (adb, user)" "reachable account_init (account_step ex_env) adb"
  then show ?thesis using accounts_sound [of ex_env adb] by blast
qed

end
