(* ===== verification/PagingRules.thy ===== *)
theory PagingRules
  imports Paging Example "HOL-Library.Countable"
begin

section \<open>A client that follows the cursors reads everything\<close>

text \<open>
  The endpoints that list tasks and inbox messages are interpretations of \<open>cursor_pages\<close>: for
  each of the five orders of the task query, the condition a cursor adds holds of exactly the
  rows that the order puts after the row the cursor was made from.
\<close>

subsection \<open>What the columns hold\<close>

text \<open>
  A \<open>uuid\<close> column holds canonical identifiers, which PostgreSQL reads back as they are; the
  timestamps of rows are not the zero time.
\<close>

definition uuid_value :: "env \<Rightarrow> string \<Rightarrow> bool" where
  "uuid_value e i \<longleftrightarrow> validUUID i \<and> uuid_in e i = Some i"

definition typed_db :: "env \<Rightarrow> db \<Rightarrow> bool" where
  "typed_db e db \<longleftrightarrow>
     list_all (\<lambda>t. uuid_value e (tk_id t) \<and> tk_created t \<noteq> zero_time \<and> tk_updated t \<noteq> zero_time) (tasks db)
     \<and> list_all (\<lambda>b. uuid_value e (bk_id b) \<and> bk_created b \<noteq> zero_time) (buckets db)
     \<and> list_all (\<lambda>en. uuid_value e (er_id en)) (entries db)"

lemma typed_taskD: "typed_db e db \<Longrightarrow> t \<in> set (tasks db) \<Longrightarrow>
    uuid_value e (tk_id t) \<and> tk_created t \<noteq> zero_time \<and> tk_updated t \<noteq> zero_time"
  by (simp add: typed_db_def list_all_iff)

lemma typed_bucketD: "typed_db e db \<Longrightarrow> b \<in> set (buckets db) \<Longrightarrow> uuid_value e (bk_id b) \<and> bk_created b \<noteq> zero_time"
  by (simp add: typed_db_def list_all_iff)

lemma typed_entryD: "typed_db e db \<Longrightarrow> en \<in> set (entries db) \<Longrightarrow> uuid_value e (er_id en)"
  by (simp add: typed_db_def list_all_iff)

subsection \<open>The cursor does not change the rest of the query\<close>

lemma filter_cursor [simp]:
  "taskCursorScope c u (f\<lparr>tfCursor := x\<rparr>) = taskCursorScope c u f"
  "cast_filter e c (f\<lparr>tfCursor := x\<rparr>) = cast_filter e c f"
  "matches_filter e db u (f\<lparr>tfCursor := x\<rparr>) = matches_filter e db u f"
  "completed_history (f\<lparr>tfCursor := x\<rparr>) = completed_history f"
  "page_limit (f\<lparr>tfCursor := x\<rparr>) = page_limit f"
  "order_task db (f\<lparr>tfCursor := x\<rparr>) = order_task db f"
  "next_cursor c db u (f\<lparr>tfCursor := x\<rparr>) = next_cursor c db u f"
  by (rule ext | (cases f, simp only: taskCursorScope_def cast_filter_def matches_filter_def completed_history_def page_limit_def
      order_task_def next_cursor_def TaskFilter.simps))+

lemma scan_fields [simp]:
  "tID (scanTaskSummary db t) = tk_id t" "tPriority (scanTaskSummary db t) = tk_priority t"
  "tCreatedAt (scanTaskSummary db t) = tk_created t" "tUpdatedAt (scanTaskSummary db t) = tk_updated t"
  "tBucketID (scanTaskSummary db t) = tk_bucket t"
  by (simp_all add: scanTaskSummary_def task_of_row_def)

lemma page_limit_pos: "0 < page_limit f"
  by (simp add: page_limit_def Let_def defaultCompletedHistoryLimit_def maxCompletedHistoryLimit_def)

lemma order_task_id: "tk_id t = (case order_task db f t of (_, _, _, _, _, x, y) \<Rightarrow> if tfAgentQueue f then x else undesc y)"
  by (cases "list_columns db t") (simp add: order_task_def Let_def)

lemma order_task_inj: "order_task db f t = order_task db f t' \<Longrightarrow> tk_id t = tk_id t'"
  by (subst (1 2) order_task_id [where db = db and f = f]) simp

lemma distinct_order_keys:
  assumes "distinct (map tk_id rows)"
  shows "distinct (map (order_task db f) (filter P rows))"
proof -
  have "distinct (map tk_id (filter P rows))" by (rule distinct_map_filter [OF assms])
  then show ?thesis unfolding distinct_map by (metis inj_on_def order_task_inj)
qed

subsection \<open>The list of a task\<close>

lemma list_of_task_bucket:
  assumes "structure_ok db" "t \<in> set (tasks db)" "list_of_task db t = Some l"
  shows "l \<in> set (buckets db)" "bk_id l = tk_bucket t" "bk_user l = tk_owner t" "fits_int4 (bk_sort l)"
proof -
  show l: "l \<in> set (buckets db)" "bk_id l = tk_bucket t"
    using find_SomeD [OF assms(3) [unfolded list_of_task_def]] by auto
  show "bk_user l = tk_owner t"
    using task_ownerD [OF assms(1,2)] assms(3) by (simp add: list_owner_def list_of_task_def)
  show "fits_int4 (bk_sort l)"
    using assms(1) l by (simp add: structure_defs bucket_row_ok_def)
qed

text \<open>The lookup that \<open>encodeWorkspaceTaskCursor\<close> makes.\<close>

lemma list_query:
  assumes "structure_ok db" "t \<in> set (tasks db)" "list_of_task db t = Some l" "tk_owner t = u"
  shows "query_row err (\<lambda>b. bk_user b = u \<and> bk_id b = tk_bucket t) (buckets db) = Inr l"
proof -
  note l = list_of_task_bucket [OF assms(1-3)]
  have "distinct (map bk_id (buckets db))" using assms(1) by (simp add: structure_defs)
  then have "List.find (\<lambda>b. bk_user b = u \<and> bk_id b = tk_bucket t) (buckets db) = Some l"
    using l assms(4) by (intro find_unique_key [where k = bk_id]) auto
  then show ?thesis by (simp add: query_row_def)
qed

subsection \<open>The condition of a cursor is the order\<close>

text \<open>
  \<open>cur\<close> is the cursor made from row \<open>r\<close>, and it selects the rows after \<open>r\<close>. The query only
  sees tasks whose list exists.
\<close>

definition selects_after :: "env \<Rightarrow> codec \<Rightarrow> db \<Rightarrow> string \<Rightarrow> TaskFilter \<Rightarrow> task_row \<Rightarrow> string \<Rightarrow> bool" where
  "selects_after e c db u f r cur \<longleftrightarrow>
     next_cursor c db u f (scanTaskSummary db r) = Inr cur \<and> cur \<noteq> []
     \<and> (\<exists>after. after_cursor e c db u (f\<lparr>tfCursor := cur\<rparr>) = Inr after
          \<and> (\<forall>t. list_of_task db t \<noteq> None \<longrightarrow> after t = (order_task db f r < order_task db f t)))"

lemma lex_less: "(a :: 'a::linorder, b :: 'b::linorder) < (a', b') \<longleftrightarrow> a < a' \<or> (a' = a \<and> b < b')"
  by (auto simp: less_prod_def)

lemma selects_agent_queue:
  assumes "codec_ok c" "typed_db e db" "r \<in> set (tasks db)" "tfAgentQueue f"
  shows "\<exists>cur. selects_after e c db u f r cur"
proof -
  let ?cur = "encodeAgentQueueCursor c (scanTaskSummary db r) (taskCursorScope c u f)"
  note r = typed_taskD [OF assms(2,3), unfolded uuid_value_def]
  have i: "uuid_arg e (tk_id r) = Inr (tk_id r)" using r by simp
  have d: "decodeAgentQueueCursor c ?cur (taskCursorScope c u f)
      = Inr \<lparr>aqPriorityRank = agentQueuePriorityRank (tk_priority r), aqCreatedAt = tk_created r, aqID = tk_id r,
             aqScope = taskCursorScope c u f\<rparr>" and n: "?cur \<noteq> []"
    using queue_cursor_roundtrip [OF assms(1), of "scanTaskSummary db r"] r by simp_all
  have key: "order_task db f t = (0, 0, [], agentQueuePriorityRank (tk_priority t), tk_created t, tk_id t, Desc [])" for t
    using assms(4) by (cases "list_columns db t") (simp add: order_task_def)
  have "after_cursor e c db u (f\<lparr>tfCursor := ?cur\<rparr>) = Inr (\<lambda>t. order_task db f r < order_task db f t)"
    using n assms(4) by (simp add: after_cursor_def d i key lex_less del: uuid_arg_eq_Inr less_prod_simp)
  then show ?thesis using n assms(4) unfolding selects_after_def by (intro exI [of _ ?cur]) (simp add: next_cursor_def)
qed

lemma selects_plain:
  assumes "codec_ok c" "typed_db e db" "r \<in> set (tasks db)" "\<not> tfAgentQueue f" "tfSort f = []"
  shows "\<exists>cur. selects_after e c db u f r cur"
proof -
  define column where "column t = (if completed_history f then tk_updated t else tk_created t)" for t :: task_row
  let ?task = "if completed_history f then scanTaskSummary db r
      else (scanTaskSummary db r)\<lparr>tUpdatedAt := tCreatedAt (scanTaskSummary db r)\<rparr>"
  let ?cur = "encodeCompletedTaskCursor c ?task (taskCursorScope c u f)"
  note r = typed_taskD [OF assms(2,3), unfolded uuid_value_def]
  have i: "uuid_arg e (tk_id r) = Inr (tk_id r)" using r by simp
  have "tUpdatedAt ?task = column r" "tID ?task = tk_id r" by (simp_all add: column_def)
  then have d: "decodeCompletedTaskCursor c ?cur (taskCursorScope c u f)
      = Inr \<lparr>ccUpdatedAt = column r, ccID = tk_id r, ccScope = taskCursorScope c u f\<rparr>" and n: "?cur \<noteq> []"
    using completed_cursor_roundtrip [OF assms(1), of ?task] r by (simp_all add: column_def)
  have key: "order_task db f t = (0, 0, [], 0, - column t, [], Desc (tk_id t))" for t
    using assms(4,5) by (cases "list_columns db t") (simp add: order_task_def column_def)
  have "after_cursor e c db u (f\<lparr>tfCursor := ?cur\<rparr>) = Inr (\<lambda>t. order_task db f r < order_task db f t)"
    using n assms(4,5)
    by (simp add: after_cursor_def d i key lex_less flip: column_def del: uuid_arg_eq_Inr less_prod_simp)
  then show ?thesis using n assms(4,5) unfolding selects_after_def by (intro exI [of _ ?cur]) (simp add: next_cursor_def)
qed

lemma workspace_cursor_roundtrip:
  assumes "codec_ok c" "wtCreatedAt v \<noteq> zero_time" "validUUID (wtID v)" "0 \<le> wtPriorityRank v" "wtPriorityRank v \<le> 4"
    and "srt = ''priority'' \<or> (srt = ''list'' \<or> srt = ''list_priority'')
       \<and> fits_int4 (wtBucketSortOrder v) \<and> wtBucketCreatedAt v \<noteq> zero_time \<and> validUUID (wtBucketID v)"
  shows "decodeWorkspaceTaskCursor c (EncodeToString (json_workspace c v)) (wtScope v) srt = Inr v"
  using assms by (auto simp: decodeWorkspaceTaskCursor_def DecodeString_Encode codec_ok_def validUUIDText_eq fits_int4_def Let_def)

lemma workspace_cursor_text: "codec_ok c \<Longrightarrow> EncodeToString (json_workspace c v) \<noteq> []"
  by (simp add: EncodeToString_Nil codec_ok_def)

lemma selects_priority:
  assumes "codec_ok c" "typed_db e db" "r \<in> set (tasks db)" "\<not> tfAgentQueue f" "tfSort f = ''priority''"
  shows "\<exists>cur. selects_after e c db u f r cur"
proof -
  let ?v = "\<lparr>wtPriorityRank = agentQueuePriorityRank (tk_priority r), wtBucketSortOrder = 0, wtBucketCreatedAt = zero_time,
      wtBucketID = [], wtCreatedAt = tk_created r, wtID = tk_id r, wtScope = taskCursorScope c u f\<rparr>"
  let ?cur = "EncodeToString (json_workspace c ?v)"
  note r = typed_taskD [OF assms(2,3), unfolded uuid_value_def]
  have i: "uuid_arg e (tk_id r) = Inr (tk_id r)" using r by simp
  note n = workspace_cursor_text [OF assms(1), of ?v]
  have d: "decodeWorkspaceTaskCursor c ?cur (taskCursorScope c u f) ''priority'' = Inr ?v"
    using workspace_cursor_roundtrip [OF assms(1), of ?v "''priority''"] r agentQueuePriorityRank_range [of "tk_priority r"] by simp
  have key: "order_task db f t = (0, 0, [], agentQueuePriorityRank (tk_priority t), - tk_created t, [], Desc (tk_id t))" for t
    using assms(4,5) by (cases "list_columns db t") (simp add: order_task_def)
  have "after_cursor e c db u (f\<lparr>tfCursor := ?cur\<rparr>) = Inr (\<lambda>t. order_task db f r < order_task db f t)"
    using n assms(4,5) by (simp add: after_cursor_def d i key lex_less del: uuid_arg_eq_Inr less_prod_simp)
  then show ?thesis using n assms(4,5) unfolding selects_after_def
    by (intro exI [of _ ?cur]) (simp add: next_cursor_def encodeWorkspaceTaskCursor_def)
qed

lemma selects_list:
  assumes "codec_ok c" "typed_db e db" "structure_ok db" "r \<in> set (tasks db)" "tk_owner r = u" "list_of_task db r = Some l"
    "\<not> tfAgentQueue f" "tfSort f = ''list'' \<or> tfSort f = ''list_priority''"
  shows "\<exists>cur. selects_after e c db u f r cur"
proof -
  let ?byrank = "tfSort f = ''list_priority''"
  define rk where "rk t = (if ?byrank then agentQueuePriorityRank (tk_priority t) else 0)" for t :: task_row
  let ?v = "\<lparr>wtPriorityRank = rk r, wtBucketSortOrder = bk_sort l, wtBucketCreatedAt = bk_created l,
      wtBucketID = bk_id l, wtCreatedAt = tk_created r, wtID = tk_id r, wtScope = taskCursorScope c u f\<rparr>"
  let ?cur = "EncodeToString (json_workspace c ?v)"
  note r = typed_taskD [OF assms(2,4), unfolded uuid_value_def]
  note l = list_of_task_bucket [OF assms(3,4,6)]
  note b = typed_bucketD [OF assms(2) l(1), unfolded uuid_value_def]
  have i: "uuid_arg e (tk_id r) = Inr (tk_id r)" "uuid_arg e (bk_id l) = Inr (bk_id l)" using r b by simp_all
  note n = workspace_cursor_text [OF assms(1), of ?v]
  have "0 \<le> rk r" "rk r \<le> 4" using agentQueuePriorityRank_range [of "tk_priority r"] by (simp_all add: rk_def)
  then have d: "decodeWorkspaceTaskCursor c ?cur (taskCursorScope c u f) (tfSort f) = Inr ?v"
    using workspace_cursor_roundtrip [OF assms(1), of ?v "tfSort f"] r b l(4) assms(8) by simp
  have key: "order_task db f t = (bk_sort m, bk_created m, bk_id m, rk t, - tk_created t, [], Desc (tk_id t))"
    if "list_of_task db t = Some m" for t m
    using assms(7,8) that by (auto simp: order_task_def list_columns_def rk_def)
  have next_c: "next_cursor c db u f (scanTaskSummary db r) = Inr ?cur"
    using assms(7,8) list_query [OF assms(3,4,6,5), where err = "ErrDB NoRows"] l(2)
    by (auto simp: next_cursor_def encodeWorkspaceTaskCursor_def rk_def)
  let ?after = "\<lambda>t. case list_of_task db t of None \<Rightarrow> False | Some m \<Rightarrow>
          (bk_sort l, bk_created l, bk_id l, rk r, - tk_created r, [] :: string, Desc (tk_id r))
          < (bk_sort m, bk_created m, bk_id m, rk t, - tk_created t, [], Desc (tk_id t))"
  have after: "after_cursor e c db u (f\<lparr>tfCursor := ?cur\<rparr>) = Inr ?after"
  proof (cases ?byrank)
    case True
    then have rank: "agentQueuePriorityRank (tk_priority t) = rk t" for t :: task_row by (simp add: rk_def)
    show ?thesis using n assms(7) True
      by (simp add: after_cursor_def d [unfolded True] i rank lex_less Let_def del: uuid_arg_eq_Inr less_prod_simp cong: option.case_cong)
  next
    case False
    then have srt: "tfSort f = ''list''" and rank: "rk t = 0" for t :: task_row using assms(8) by (simp_all add: rk_def)
    show ?thesis using n assms(7) srt
      by (simp add: after_cursor_def d [unfolded srt rank] i rank lex_less Let_def del: uuid_arg_eq_Inr less_prod_simp cong: option.case_cong)
  qed
  have "?after t = (order_task db f r < order_task db f t)" if "list_of_task db t \<noteq> None" for t
    using that by (auto simp: key [OF assms(6)] key simp del: less_prod_simp)
  then show ?thesis using n next_c after unfolding selects_after_def by blast
qed

text \<open>The orders the handler lets through, each with a cursor for every row it selects.\<close>

definition known_sort :: "TaskFilter \<Rightarrow> bool" where
  "known_sort f \<longleftrightarrow> tfAgentQueue f \<or> tfSort f \<in> set [[], ''priority'', ''list'', ''list_priority'']"

lemma matches_filterD: "matches_filter e db u f args t \<Longrightarrow> tk_owner t = u \<and> list_of_task db t \<noteq> None"
  unfolding matches_filter_def by (elim conjE, intro conjI)

lemma selects_row:
  assumes "codec_ok c" "typed_db e db" "structure_ok db" "known_sort f"
    "r \<in> set (tasks db)" "matches_filter e db u f args r"
  shows "\<exists>cur. selects_after e c db u f r cur"
proof -
  obtain l where "list_of_task db r = Some l" "tk_owner r = u" using matches_filterD [OF assms(6)] by blast
  moreover have "tfAgentQueue f \<or> \<not> tfAgentQueue f \<and>
      (tfSort f = [] \<or> tfSort f = ''priority'' \<or> (tfSort f = ''list'' \<or> tfSort f = ''list_priority''))"
    using assms(4) by (simp add: known_sort_def) blast
  ultimately show ?thesis
    using selects_agent_queue [OF assms(1,2,5)] selects_plain [OF assms(1,2,5)] selects_priority [OF assms(1,2,5)]
      selects_list [OF assms(1-3,5)] by blast
qed

subsection \<open>The task pages\<close>

type_synonym task_query = "env \<times> codec \<times> db \<times> string \<times> TaskFilter"

fun good_query :: "task_query \<Rightarrow> bool" where
  "good_query (e, c, db, u, f) \<longleftrightarrow> codec_ok c \<and> typed_db e db \<and> structure_ok db \<and> known_sort f
     \<and> (tfBucketID f = [] \<or> validUUID (tfBucketID f)) \<and> (\<exists>args. cast_filter e c f = Inr args)"

fun task_fetch :: "task_query \<Rightarrow> string \<Rightarrow> (store_error, Task list \<times> string) result" where
  "task_fetch (e, c, db, u, f) cur =
     map_sum id (\<lambda>p. (tpTasks p, tpNextCursor p)) (ListTaskPage e c db u (f\<lparr>tfCursor := cur\<rparr>))"

fun selected_tasks :: "task_query \<Rightarrow> task_row list" where
  "selected_tasks (e, c, db, u, f) =
     (case cast_filter e c f of Inl _ \<Rightarrow> []
      | Inr args \<Rightarrow> sort_key (order_task db f) (filter (matches_filter e db u f args) (tasks db)))"

fun task_summaries :: "task_query \<Rightarrow> Task list" where
  "task_summaries (e, c, db, u, f) = map (scanTaskSummary db) (selected_tasks (e, c, db, u, f))"

fun task_page_size :: "task_query \<Rightarrow> nat" where
  "task_page_size (e, c, db, u, f) = nat (page_limit f)"

fun task_mark :: "task_query \<Rightarrow> nat \<Rightarrow> string" where
  "task_mark (e, c, db, u, f) m =
     (if m = 0 then []
      else case next_cursor c db u f (task_summaries (e, c, db, u, f) ! (m - 1)) of Inl _ \<Rightarrow> [] | Inr cur \<Rightarrow> cur)"

lemma length_summaries: "length (task_summaries q) = length (selected_tasks q)"
  by (cases q) (simp del: selected_tasks.simps)

lemma selected_row:
  assumes "good_query (e, c, db, u, f)" "i < length (selected_tasks (e, c, db, u, f))"
  shows "\<exists>cur. selects_after e c db u f (selected_tasks (e, c, db, u, f) ! i) cur"
proof -
  obtain args where args: "cast_filter e c f = Inr args" using assms(1) by auto
  let ?r = "selected_tasks (e, c, db, u, f) ! i"
  have "?r \<in> set (selected_tasks (e, c, db, u, f))" using assms(2) by (rule nth_mem)
  moreover have "set (selected_tasks (e, c, db, u, f)) = {t \<in> set (tasks db). matches_filter e db u f args t}"
    by (simp add: args)
  ultimately have "?r \<in> set (tasks db)" "matches_filter e db u f args ?r" by blast+
  then show ?thesis using assms(1) by (intro selects_row) simp_all
qed

lemma task_mark_Suc:
  assumes "good_query (e, c, db, u, f)" "i < length (selected_tasks (e, c, db, u, f))"
  shows "selects_after e c db u f (selected_tasks (e, c, db, u, f) ! i) (task_mark (e, c, db, u, f) (Suc i))"
proof -
  obtain cur where cur: "selects_after e c db u f (selected_tasks (e, c, db, u, f) ! i) cur"
    using selected_row [OF assms] by blast
  then have "next_cursor c db u f (scanTaskSummary db (selected_tasks (e, c, db, u, f) ! i)) = Inr cur"
    by (simp add: selects_after_def)
  then have "task_mark (e, c, db, u, f) (Suc i) = cur" using assms(2) by (simp del: selected_tasks.simps)
  then show ?thesis using cur by simp
qed

lemma rows_after_mark:
  assumes "good_query (e, c, db, u, f)" "cast_filter e c f = Inr args"
    "m = 0 \<or> m < length (selected_tasks (e, c, db, u, f))"
  obtains after where "after_cursor e c db u (f\<lparr>tfCursor := task_mark (e, c, db, u, f) m\<rparr>) = Inr after"
    "sort_key (order_task db f) (filter (\<lambda>t. matches_filter e db u f args t \<and> after t) (tasks db))
      = drop m (selected_tasks (e, c, db, u, f))"
proof (cases m)
  case 0
  show thesis by (rule that [of "\<lambda>t. True"]) (simp_all add: 0 after_cursor_def assms(2))
next
  case (Suc i)
  let ?xs = "sort_key (order_task db f) (filter (matches_filter e db u f args) (tasks db))"
  have xs: "selected_tasks (e, c, db, u, f) = ?xs" by (simp add: assms(2))
  have i: "i < length ?xs" using assms(3) Suc xs by simp
  obtain after where after: "after_cursor e c db u (f\<lparr>tfCursor := task_mark (e, c, db, u, f) m\<rparr>) = Inr after"
    and iff: "\<And>t. list_of_task db t \<noteq> None \<Longrightarrow> after t = (order_task db f (?xs ! i) < order_task db f t)"
    using task_mark_Suc [OF assms(1), of i] i unfolding selects_after_def xs Suc by auto
  have "distinct (map tk_id (tasks db))" using assms(1) by (simp add: structure_defs)
  then have "distinct (map (order_task db f) (filter (matches_filter e db u f args) (tasks db)))"
    by (rule distinct_order_keys)
  note sort_key_after [OF this i]
  moreover have "filter (\<lambda>t. matches_filter e db u f args t \<and> after t) (tasks db)
      = filter (\<lambda>t. matches_filter e db u f args t \<and> order_task db f (?xs ! i) < order_task db f t) (tasks db)"
    using iff matches_filterD by (intro filter_cong refl) blast
  ultimately show thesis using that [OF after] by (simp only: xs Suc)
qed

lemma task_fetch_mark:
  assumes "good_query q" "m = 0 \<or> m < length (task_summaries q)"
  shows "task_fetch q (task_mark q m) = Inr (take (task_page_size q) (drop m (task_summaries q)),
      if m + task_page_size q < length (task_summaries q) then task_mark q (m + task_page_size q) else [])"
proof (cases q)
  case (fields e c db u f)
  obtain args where args: "cast_filter e c f = Inr args" using assms(1) fields by auto
  let ?xs = "selected_tasks q" and ?L = "nat (page_limit f)"
  have m: "m = 0 \<or> m < length ?xs" using assms(2) by (simp only: length_summaries)
  obtain after where after: "after_cursor e c db u (f\<lparr>tfCursor := task_mark q m\<rparr>) = Inr after"
    and rows: "sort_key (order_task db f) (filter (\<lambda>t. matches_filter e db u f args t \<and> after t) (tasks db)) = drop m ?xs"
    using rows_after_mark [OF assms(1) [unfolded fields] args m [unfolded fields]] fields by blast
  have len: "length (filter (\<lambda>t. matches_filter e db u f args t \<and> after t) (tasks db)) = length (drop m ?xs)"
    using arg_cong [OF rows, of length] by (simp only: length_sort)
  have L: "0 < ?L" using page_limit_pos [of f] by simp
  have sums: "task_summaries q = map (scanTaskSummary db) ?xs" using fields by (simp only: task_summaries.simps)
  have id: "tfBucketID f = [] \<or> validUUID (tfBucketID f)" using assms(1) fields by simp
  show ?thesis
  proof (cases "m + ?L < length ?xs")
    case False
    then have le: "\<not> ?L < length ?xs - m" by linarith
    with False have "task_fetch q (task_mark q m) = Inr (map (scanTaskSummary db) (drop m ?xs), [])"
      using id le by (simp add: fields ListTaskPage_def after [unfolded fields] args rows [unfolded fields] len [unfolded fields] require_def Let_def del: selected_tasks.simps task_mark.simps)
    then show ?thesis using False by (simp add: sums [unfolded fields] drop_map length_summaries fields del: selected_tasks.simps task_mark.simps task_summaries.simps)
  next
    case True
    then have lt: "?L < length ?xs - m" by linarith
    let ?i = "m + ?L - 1"
    have i: "?i < length ?xs" "Suc ?i = m + ?L" using True L by simp_all
    have "last (take ?L (map (scanTaskSummary db) (take (?L + 1) (drop m ?xs)))) = scanTaskSummary db (?xs ! ?i)"
      using True L by (simp add: last_conv_nth take_map)
    moreover have "next_cursor c db u f (scanTaskSummary db (?xs ! ?i)) = Inr (task_mark q (m + ?L))"
      using task_mark_Suc [OF assms(1) [unfolded fields], of ?i] i(1) fields i(2) by (simp add: selects_after_def del: selected_tasks.simps task_mark.simps)
    ultimately have "task_fetch q (task_mark q m) = Inr (map (scanTaskSummary db) (take ?L (drop m ?xs)), task_mark q (m + ?L))"
      using id True lt by (simp add: fields ListTaskPage_def after [unfolded fields] args rows [unfolded fields] len [unfolded fields] require_def Let_def take_map del: selected_tasks.simps task_mark.simps)
    then show ?thesis using True by (simp add: sums [unfolded fields] drop_map take_map length_summaries fields del: selected_tasks.simps task_mark.simps task_summaries.simps)
  qed
qed

interpretation task_pages: cursor_pages good_query task_fetch task_summaries task_page_size task_mark
proof
  fix q :: task_query and m :: nat
  show "task_mark q 0 = []" by (cases q) simp
  show "0 < task_page_size q" if "good_query q" using page_limit_pos by (cases q) simp
  show "task_fetch q (task_mark q m) = Inr (take (task_page_size q) (drop m (task_summaries q)),
      if m + task_page_size q < length (task_summaries q) then task_mark q (m + task_page_size q) else [])"
    if "good_query q" "m = 0 \<or> m < length (task_summaries q)"
    using that by (rule task_fetch_mark)
  show "task_mark q m \<noteq> []" if "good_query q" "0 < m" "m < length (task_summaries q)"
    using task_mark_Suc [of _ _ _ _ _ "m - 1"] that unfolding selects_after_def
    by (cases q) (simp add: length_summaries del: selected_tasks.simps task_mark.simps task_summaries.simps)
qed

subsection \<open>The pages of the inbox\<close>

type_synonym inbox_query = "env \<times> codec \<times> db \<times> string"

fun good_inbox :: "inbox_query \<Rightarrow> bool" where
  "good_inbox (e, c, db, u) \<longleftrightarrow> codec_ok c \<and> typed_db e db \<and> structure_ok db"

fun inbox_fetch :: "inbox_query \<Rightarrow> string \<Rightarrow> (store_error, InboxMessage list \<times> string) result" where
  "inbox_fetch (e, c, db, u) cur = ListInbox e c db u cur"

abbreviation inbox_key :: "entry_row \<Rightarrow> int \<times> string desc" where
  "inbox_key \<equiv> \<lambda>en. (- er_created en, Desc (er_id en))"

fun inbox_rows :: "inbox_query \<Rightarrow> entry_row list" where
  "inbox_rows (e, c, db, u) = sort_key inbox_key (filter (inbox_entry db u) (entries db))"

fun inbox_messages :: "inbox_query \<Rightarrow> InboxMessage list" where
  "inbox_messages (e, c, db, u) = map (inbox_message db) (inbox_rows (e, c, db, u))"

fun inbox_page :: "inbox_query \<Rightarrow> nat" where
  "inbox_page q = inboxPageSize"

fun inbox_mark :: "inbox_query \<Rightarrow> nat \<Rightarrow> string" where
  "inbox_mark (e, c, db, u) m =
     (if m = 0 then [] else let r = inbox_rows (e, c, db, u) ! (m - 1) in encodeInboxCursor c (er_created r) (er_id r))"

lemma inbox_fetch_mark:
  assumes "good_inbox q" "m = 0 \<or> m < length (inbox_messages q)"
  shows "inbox_fetch q (inbox_mark q m) = Inr (take (inbox_page q) (drop m (inbox_messages q)),
      if m + inbox_page q < length (inbox_messages q) then inbox_mark q (m + inbox_page q) else [])"
proof (cases q)
  case (fields e c db u)
  define xs where "xs = inbox_rows q"
  have good: "codec_ok c" "typed_db e db" "structure_ok db" using assms(1) fields by simp_all
  have xs: "xs = sort_key inbox_key (filter (inbox_entry db u) (entries db))" by (simp add: xs_def fields)
  have len: "length (inbox_messages q) = length xs" by (simp add: fields xs)
  have row: "uuid_value e (er_id (xs ! i))" if "i < length xs" for i
  proof -
    have "xs ! i \<in> set xs" using that by simp
    then show ?thesis using typed_entryD [OF good(2)] by (simp add: xs)
  qed
  let ?before = "if m = 0 then (\<lambda>en. True) else (\<lambda>en. er_created en < er_created (xs ! (m - 1)) \<or>
        (er_created en = er_created (xs ! (m - 1)) \<and> er_id en < er_id (xs ! (m - 1))))"
  have decoded: "(if inbox_mark q m = [] then Inr (\<lambda>en. True)
      else rbind (decodeInboxCursor c (inbox_mark q m)) (\<lambda>(createdAt, i0). rbind (uuid_arg e i0) (\<lambda>i.
           Inr (\<lambda>en. er_created en < createdAt \<or> (er_created en = createdAt \<and> er_id en < i))))) = Inr ?before"
  proof (cases m)
    case 0
    then show ?thesis by (simp add: fields)
  next
    case (Suc i)
    then have "uuid_value e (er_id (xs ! i))" using row assms(2) len by simp
    then have "decodeInboxCursor c (inbox_mark q m) = Inr (er_created (xs ! i), er_id (xs ! i))" "inbox_mark q m \<noteq> []"
      "uuid_arg e (er_id (xs ! i)) = Inr (er_id (xs ! i))"
      using inbox_cursor_roundtrip [OF good(1), of "er_id (xs ! i)"] Suc
      by (simp_all add: fields xs_def [unfolded fields, symmetric] uuid_value_def Let_def del: inbox_rows.simps)
    then show ?thesis using Suc by (simp del: uuid_arg_eq_Inr)
  qed
  have rows: "sort_key inbox_key (filter (\<lambda>en. inbox_entry db u en \<and> ?before en) (entries db)) = drop m xs"
  proof (cases m)
    case 0
    then show ?thesis by (simp add: xs)
  next
    case (Suc i)
    have "distinct (map er_id (filter (inbox_entry db u) (entries db)))"
      using good(3) by (intro distinct_map_filter) (simp add: structure_defs)
    then have "distinct (map inbox_key (filter (inbox_entry db u) (entries db)))"
      unfolding distinct_map inj_on_def by simp
    moreover have "i < length (sort_key inbox_key (filter (inbox_entry db u) (entries db)))"
      using assms(2) Suc len by (simp add: xs)
    ultimately have "sort_key inbox_key (filter (\<lambda>en. inbox_entry db u en \<and> inbox_key (xs ! i) < inbox_key en) (entries db)) = drop (Suc i) xs"
      unfolding xs by (rule sort_key_after)
    then show ?thesis by (simp add: Suc lex_less del: less_prod_simp)
  qed
  have found: "length (filter (\<lambda>en. inbox_entry db u en \<and> ?before en) (entries db)) = length (drop m xs)"
    using arg_cong [OF rows, of length] by (simp only: length_sort)
  have msgs: "inbox_messages q = map (inbox_message db) xs" by (simp add: fields xs)
  have run: "inbox_fetch q (inbox_mark q m) =
      (let messages = map (inbox_message db) (take (inboxPageSize + 1) (drop m xs)) in
       if length messages > inboxPageSize then
         let last_message = messages ! (inboxPageSize - 1) in
         Inr (take inboxPageSize messages, encodeInboxCursor c (imCreatedAt last_message) (imID last_message))
       else Inr (messages, []))"
    unfolding fields inbox_fetch.simps ListInbox_def decoded [unfolded fields] rbind_Inr rows ..
  show ?thesis
  proof (cases "m + inboxPageSize < length xs")
    case True
    then have "encodeInboxCursor c (er_created (xs ! (m + inboxPageSize - 1))) (er_id (xs ! (m + inboxPageSize - 1)))
        = inbox_mark q (m + inboxPageSize)"
      by (simp add: fields xs_def [unfolded fields, symmetric] inboxPageSize_def Let_def del: inbox_rows.simps)
    then show ?thesis using True
      by (simp add: run msgs drop_map take_map Let_def inbox_message_def inboxPageSize_def add.commute)
  next
    case False
    then show ?thesis by (simp add: run msgs drop_map Let_def)
  qed
qed

interpretation inbox_pages: cursor_pages good_inbox inbox_fetch inbox_messages inbox_page inbox_mark
proof
  fix q :: inbox_query and m :: nat
  show "inbox_mark q 0 = []" by (cases q) simp
  show "0 < inbox_page q" by (simp add: inboxPageSize_def)
  show "inbox_mark q m \<noteq> []" if "0 < m"
    using that by (cases q) (simp add: encodeInboxCursor_def EncodeToString_Nil Let_def)
  show "inbox_fetch q (inbox_mark q m) = Inr (take (inbox_page q) (drop m (inbox_messages q)),
      if m + inbox_page q < length (inbox_messages q) then inbox_mark q (m + inbox_page q) else [])"
    if "good_inbox q" "m = 0 \<or> m < length (inbox_messages q)"
    using that by (rule inbox_fetch_mark)
qed

subsection \<open>A codec and an account to read\<close>

text \<open>
  The texts of \<open>codec_ok\<close> exist: here a value is written as a row of \<open>x\<close>, as many as the number of
  the value in an enumeration of its type.
\<close>

definition ex_text :: "'a::countable \<Rightarrow> string" where
  "ex_text v = replicate (Suc (to_nat v)) CHR ''x''"

definition ex_value :: "string \<Rightarrow> 'a::countable option" where
  "ex_value s = (case s of [] \<Rightarrow> None | _ # rest \<Rightarrow> Some (from_nat (length rest)))"

lemma ex_value_text [simp]: "ex_value (ex_text v) = Some v" "ex_text v \<noteq> []" "CHR ''|'' \<notin> set (ex_text v)"
  by (simp_all add: ex_value_def ex_text_def)

definition ex_codec :: codec where
  "ex_codec =
     \<lparr>json_completed = (\<lambda>v. ex_text (ccUpdatedAt v, ccID v, ccScope v)),
      parse_completed = (\<lambda>s. map_option (\<lambda>(t, i, sc). \<lparr>ccUpdatedAt = t, ccID = i, ccScope = sc\<rparr>) (ex_value s)),
      json_queue = (\<lambda>v. ex_text (aqPriorityRank v, aqCreatedAt v, aqID v, aqScope v)),
      parse_queue = (\<lambda>s. map_option (\<lambda>(p, t, i, sc). \<lparr>aqPriorityRank = p, aqCreatedAt = t, aqID = i, aqScope = sc\<rparr>) (ex_value s)),
      json_workspace = (\<lambda>v. ex_text (wtPriorityRank v, wtBucketSortOrder v, wtBucketCreatedAt v, wtBucketID v,
        wtCreatedAt v, wtID v, wtScope v)),
      parse_workspace = (\<lambda>s. map_option (\<lambda>(p, so, bt, b, t, i, sc).
        \<lparr>wtPriorityRank = p, wtBucketSortOrder = so, wtBucketCreatedAt = bt, wtBucketID = b, wtCreatedAt = t, wtID = i,
         wtScope = sc\<rparr>) (ex_value s)),
      format_time = ex_text, parse_time = ex_value, sha_hex = (\<lambda>s. s), date_in = (\<lambda>s. Some s)\<rparr>"

lemma ex_codec_ok: "codec_ok ex_codec"
  by (simp add: codec_ok_def ex_codec_def)

definition ex_task2_uuid :: string where
  "ex_task2_uuid = ''0000000a-0000-4000-8000-000000000002''"

definition ex_list_uuid :: string where
  "ex_list_uuid = ''0000000d-0000-4000-8000-000000000001''"

definition ex_list2_uuid :: string where
  "ex_list2_uuid = ''0000000d-0000-4000-8000-000000000002''"

definition ex_entry_uuid :: string where
  "ex_entry_uuid = ''0000000e-0000-4000-8000-000000000001''"

definition ex_page_db :: db where
  "ex_page_db = ex_db\<lparr>buckets := [ex_bucket ex_list_uuid True 0, ex_bucket ex_list2_uuid False 1],
      usages := [\<lparr>su_user = ''u1'', su_tasks = 2, su_bytes = 22\<rparr>],
      tasks := [ex_task ex_task_uuid ex_list_uuid ''queued'' None None 0, ex_task ex_task2_uuid ex_list2_uuid ''new'' None None 0],
      entries := [\<lparr>er_id = ex_entry_uuid, er_task = ex_task_uuid, er_kind = ''note'', er_body = ''note'',
                  er_author_kind = ''agent'', er_author = ex_agent_uuid, er_author_name = ''Robot'',
                  er_key = None, er_hash = ''h'', er_run = None, er_created = 3\<rparr>]\<rparr>"

definition ex_filter :: TaskFilter where
  "ex_filter = \<lparr>tfBucketID = [], tfStatus = [], tfDone = None, tfPriority = [], tfSort = ''list_priority'', tfLimit = 1,
      tfCursor = [], tfActionsOnly = False, tfAssigneeAgentID = [], tfUnassigned = False, tfQuery = [],
      tfScheduledFrom = [], tfScheduledTo = [], tfParentTaskID = [], tfTopLevelOnly = False, tfInboxOnly = False,
      tfAgentQueue = False\<rparr>"

lemma ex_page_db_ok: "store_inv ex_page_db" "typed_db ex_env ex_page_db"
proof -
  have "keys_ok ex_page_db" "refs_ok ex_page_db" "rows_ok ex_page_db" by code_simp+
  moreover have "inbox_ok ex_page_db"
    by (simp add: inbox_ok_def ex_page_db_def ex_bucket_def)
  moreover have "accounting_ok ex_page_db"
    by (simp add: accounting_ok_def usage_of_def stored_tasks_of_def stored_bytes_of_def
        content_bytes_def storage_bytes_def entry_bytes_def ex_defs ex_page_db_def ex_task2_uuid_def)
  ultimately show "store_inv ex_page_db" by (simp add: store_inv_def structure_ok_def)
  show "typed_db ex_env ex_page_db" by code_simp
qed

subsection \<open>Reading everything\<close>

lemma read_pages_cong: "(\<And>cur. fetch cur = fetch' cur) \<Longrightarrow> read_pages fetch fuel cur = read_pages fetch' fuel cur"
  by (subgoal_tac "fetch = fetch'") (auto intro: ext)

text \<open>
  C20: Following the cursors of \<open>ListTaskPage\<close>, in any of its five orders, ends after at most as
  many requests as there are tasks and returns exactly the tasks that satisfy the filter, each
  once and in the order asked for; the page size does not matter.
\<close>

theorem ListTaskPage_reads_all:
  assumes "store_inv db" "typed_db e db" "codec_ok c" "known_sort f"
    and "tfBucketID f = [] \<or> validUUID (tfBucketID f)" and "cast_filter e c f = Inr args"
    and "length (tasks db) \<le> fuel"
  shows "\<exists>rows. distinct rows \<and> set rows = {t \<in> set (tasks db). matches_filter e db userID f args t}
      \<and> sorted (map (order_task db f) rows)
      \<and> read_pages (\<lambda>cursor. map_sum id (\<lambda>page. (tpTasks page, tpNextCursor page))
            (ListTaskPage e c db userID (f\<lparr>tfCursor := cursor\<rparr>))) fuel []
          = Some (Inr (map (scanTaskSummary db) rows))"
proof -
  let ?q = "(e, c, db, userID, f)"
  let ?rows = "sort_key (order_task db f) (filter (matches_filter e db userID f args) (tasks db))"
  have inv: "structure_ok db" using assms(1) by (simp add: store_inv_def)
  have good: "good_query ?q" using assms(2-6) inv by simp
  have rows: "task_summaries ?q = map (scanTaskSummary db) ?rows" using assms(6) by simp
  have "length (task_summaries ?q) \<le> fuel"
    unfolding rows length_map length_sort by (rule le_trans [OF length_filter_le assms(7)])
  then have "read_pages (task_fetch ?q) fuel [] = Some (Inr (task_summaries ?q))" by (rule task_pages.read_all [OF good])
  then have "read_pages (\<lambda>cursor. map_sum id (\<lambda>page. (tpTasks page, tpNextCursor page))
      (ListTaskPage e c db userID (f\<lparr>tfCursor := cursor\<rparr>))) fuel [] = Some (Inr (map (scanTaskSummary db) ?rows))"
    unfolding rows by (simp only: task_fetch.simps cong: read_pages_cong)
  moreover have "distinct ?rows"
    using inv by (simp add: structure_defs distinct_map)
  moreover have "set ?rows = {t \<in> set (tasks db). matches_filter e db userID f args t}" by simp
  moreover have "sorted (map (order_task db f) ?rows)" by simp
  ultimately show ?thesis by blast
qed

theorem ListTaskPage_reads_all_witness:
  "\<exists>rows. set rows = set (tasks ex_page_db)
      \<and> read_pages (\<lambda>cursor. map_sum id (\<lambda>page. (tpTasks page, tpNextCursor page))
            (ListTaskPage ex_env ex_codec ex_page_db ''u1'' (ex_filter\<lparr>tfCursor := cursor\<rparr>))) 2 []
          = Some (Inr (map (scanTaskSummary ex_page_db) rows))"
proof -
  let ?args = "\<lparr>fa_bucket = [], fa_assignee = [], fa_from = [], fa_to = [], fa_parent = []\<rparr>"
  have k: "known_sort ex_filter" and b: "tfBucketID ex_filter = [] \<or> validUUID (tfBucketID ex_filter)"
    and l: "length (tasks ex_page_db) \<le> 2" by code_simp+
  have a: "cast_filter ex_env ex_codec ex_filter = Inr ?args" by (simp add: cast_filter_def ex_filter_def)
  have "list_all (matches_filter ex_env ex_page_db ''u1'' ex_filter ?args) (tasks ex_page_db)" by code_simp
  then have all: "{t \<in> set (tasks ex_page_db). matches_filter ex_env ex_page_db ''u1'' ex_filter ?args t} = set (tasks ex_page_db)"
    unfolding list_all_iff by blast
  show ?thesis
    using ListTaskPage_reads_all [OF ex_page_db_ok ex_codec_ok k b a l, of "''u1''"] unfolding all by blast
qed

text \<open>
  C22: Following the cursors of \<open>ListInbox\<close> ends and returns every entry an agent wrote on a
  task of the account, each once, the newest first.
\<close>

theorem ListInbox_reads_all:
  assumes "store_inv db" "typed_db e db" "codec_ok c" "length (entries db) \<le> fuel"
  shows "\<exists>rows. distinct rows \<and> set rows = {en \<in> set (entries db). inbox_entry db userID en}
      \<and> sorted (map (\<lambda>en. (- er_created en, Desc (er_id en))) rows)
      \<and> read_pages (ListInbox e c db userID) fuel [] = Some (Inr (map (inbox_message db) rows))"
proof -
  let ?q = "(e, c, db, userID)"
  have inv: "structure_ok db" using assms(1) by (simp add: store_inv_def)
  have good: "good_inbox ?q" using assms(2,3) inv by simp
  have "length (inbox_messages ?q) \<le> fuel"
    using le_trans [OF length_filter_le assms(4)] by simp
  then have "read_pages (inbox_fetch ?q) fuel [] = Some (Inr (inbox_messages ?q))" by (rule inbox_pages.read_all [OF good])
  moreover have "inbox_fetch ?q = ListInbox e c db userID" by (rule ext) simp
  moreover have "inbox_messages ?q = map (inbox_message db) (inbox_rows ?q)" by (simp only: inbox_messages.simps)
  ultimately have "read_pages (ListInbox e c db userID) fuel [] = Some (Inr (map (inbox_message db) (inbox_rows ?q)))"
    by (simp only:)
  moreover have "distinct (inbox_rows ?q)" using inv by (simp add: structure_defs distinct_map)
  moreover have "set (inbox_rows ?q) = {en \<in> set (entries db). inbox_entry db userID en}" by simp
  moreover have "sorted (map inbox_key (inbox_rows ?q))" by simp
  ultimately show ?thesis by blast
qed

theorem ListInbox_reads_all_witness:
  "\<exists>rows. set rows = set (entries ex_page_db)
      \<and> read_pages (ListInbox ex_env ex_codec ex_page_db ''u1'') 1 [] = Some (Inr (map (inbox_message ex_page_db) rows))"
proof -
  have l: "length (entries ex_page_db) \<le> 1" by code_simp
  have "list_all (inbox_entry ex_page_db ''u1'') (entries ex_page_db)" by code_simp
  then have all: "{en \<in> set (entries ex_page_db). inbox_entry ex_page_db ''u1'' en} = set (entries ex_page_db)"
    unfolding list_all_iff by blast
  show ?thesis using ListInbox_reads_all [OF ex_page_db_ok ex_codec_ok l, of "''u1''"] unfolding all by blast
qed

end
