(* ===== verification/Cleanup.thy ===== *)
theory Cleanup
  imports Retention Authenticate
begin

section \<open>Removing expired rows (cleanup/cleanup.go)\<close>

text \<open>
  The job that applies the retention rules in bounded batches to the tables of the server. What
  it cannot foresee is the environment: whether a transaction fails, which rows other
  transactions hold locked, what they write between two queries, and when the deadline passes.
  Every query takes one tick.
\<close>

subsection \<open>The queries\<close>

definition table_rows :: "server \<Rightarrow> table \<Rightarrow> shown_row list" where
  "table_rows sv tb =
     (case tb of
       Sessions \<Rightarrow> map session_view (sessions (sv_auth sv))
     | ResetTokens \<Rightarrow> map reset_token_view (reset_tokens (sv_auth sv))
     | ResetRequests \<Rightarrow> map reset_request_view (reset_requests (sv_auth sv))
     | SignupLimits \<Rightarrow> map attempt_view (signup_limits (sv_auth sv))
     | ResetLimits \<Rightarrow> map attempt_view (reset_limits (sv_auth sv))
     | ConfirmLimits \<Rightarrow> map attempt_view (confirm_limits (sv_auth sv))
     | LimiterState \<Rightarrow> map state_view (rl_state (sv_limits sv))
     | LimiterMetrics \<Rightarrow> map metric_view (rl_metrics (sv_limits sv))
     | TaskKeys \<Rightarrow> map task_key_view (idem_keys (store (sv_auth sv)))
     | RunStarts \<Rightarrow> map run_start_view (run_starts (store (sv_auth sv)))
     | Rotations \<Rightarrow> map rotation_view (rotations (sv_auth sv))
     | APITokens \<Rightarrow> map api_token_view (api_tokens (sv_auth sv))
     | AgentCredentials \<Rightarrow> map credential_view (credentials (sv_auth sv)))"

definition delete_rows :: "int \<Rightarrow> cleanup_rule \<Rightarrow> (nat \<Rightarrow> bool) \<Rightarrow> nat \<Rightarrow> server \<Rightarrow> nat \<times> server" where
  "delete_rows now rule locked limit sv =
     (if ru_table rule \<in> {LimiterState, LimiterMetrics} then
        (case delete_limiter_rows now rule locked limit (sv_limits sv) of (n, db) \<Rightarrow> (n, sv\<lparr>sv_limits := db\<rparr>))
      else (case delete_account_rows now rule locked limit (sv_auth sv) of (n, adb) \<Rightarrow> (n, sv\<lparr>sv_auth := adb\<rparr>)))"

definition backlog_query :: "int \<Rightarrow> cleanup_rule \<Rightarrow> shown_row list \<Rightarrow> bool" where
  "backlog_query now rule rows \<longleftrightarrow> list_ex (\<lambda>row. eligible now rule (snd row)) rows"

subsection \<open>The job\<close>

record cleanup_result =
  rt_Name :: string
  rt_Retention :: string
  rt_Action :: string
  rt_Affected :: int
  rt_Batches :: int
  rt_Backlog :: "bool option"
  rt_BudgetReached :: bool
  rt_Error :: string

record cleanup_report =
  rp_BatchSize :: int
  rp_RowBudget :: int
  rp_BudgetReached :: bool
  rp_TotalAffected :: int
  rp_Results :: "cleanup_result list"

record cleanup_env =
  ce_deadline :: "nat option"
  ce_failed :: "nat \<Rightarrow> string option"
  ce_locked :: "nat \<Rightarrow> nat \<Rightarrow> bool"
  ce_others :: "nat \<Rightarrow> server \<Rightarrow> server"

record cleanup_state =
  cs_db :: server
  cs_tick :: nat
  cs_active :: "bool list"
  cs_remaining :: int
  cs_report :: cleanup_report
  cs_failures :: "string list"

definition ctx_expired :: "cleanup_env \<Rightarrow> cleanup_state \<Rightarrow> bool" where
  "ctx_expired e st \<longleftrightarrow> (case ce_deadline e of None \<Rightarrow> False | Some d \<Rightarrow> d \<le> cs_tick st)"

definition set_result :: "nat \<Rightarrow> (cleanup_result \<Rightarrow> cleanup_result) \<Rightarrow> cleanup_state \<Rightarrow> cleanup_state" where
  "set_result i f st = st\<lparr>cs_report := (cs_report st)\<lparr>rp_Results :=
     (rp_Results (cs_report st))[i := f (rp_Results (cs_report st) ! i)]\<rparr>\<rparr>"

definition deactivate :: "nat \<Rightarrow> cleanup_state \<Rightarrow> cleanup_state" where
  "deactivate i st = st\<lparr>cs_active := (cs_active st)[i := False], cs_remaining := cs_remaining st - 1\<rparr>"

definition fail_rule :: "nat \<Rightarrow> string \<Rightarrow> string \<Rightarrow> cleanup_state \<Rightarrow> cleanup_state" where
  "fail_rule i what err st = set_result i (\<lambda>r. r\<lparr>rt_Error := err\<rparr>) (st\<lparr>cs_failures := cs_failures st @ [what @ '': '' @ err]\<rparr>)"

text \<open>A query: what others wrote before it is there, and it fails or sees the tables.\<close>

definition tick :: "cleanup_env \<Rightarrow> cleanup_state \<Rightarrow> cleanup_state" where
  "tick e st = st\<lparr>cs_db := ce_others e (cs_tick st) (cs_db st), cs_tick := cs_tick st + 1\<rparr>"

text \<open>The body of the loop for one rule.\<close>

definition delete_batch :: "cleanup_env \<Rightarrow> int \<Rightarrow> int \<Rightarrow> nat \<Rightarrow> cleanup_state \<Rightarrow> nat \<times> cleanup_state" where
  "delete_batch e now limit i st =
     (let rule = rules ! i;
          (affected, db) = delete_rows now rule (ce_locked e (cs_tick st)) (nat limit) (cs_db (tick e st));
          st = (tick e st)\<lparr>cs_db := db\<rparr>;
          st = set_result i (\<lambda>r. r\<lparr>rt_Batches := rt_Batches r + 1, rt_Affected := rt_Affected r + int affected\<rparr>) st in
      (affected, st\<lparr>cs_report := (cs_report st)\<lparr>rp_TotalAffected := rp_TotalAffected (cs_report st) + int affected\<rparr>\<rparr>))"

definition after_batch :: "cleanup_env \<Rightarrow> int \<Rightarrow> int \<Rightarrow> int \<Rightarrow> nat \<Rightarrow> nat \<Rightarrow> cleanup_state \<Rightarrow> cleanup_state" where
  "after_batch e now rowBudget limit i affected st =
     (let rule = rules ! i in
      if int affected < limit then
        (case ce_failed e (cs_tick st) of
           Some err \<Rightarrow> deactivate i (fail_rule i (''cleanup '' @ ru_name rule @ '' backlog'') err (tick e st))
         | None \<Rightarrow>
             let st = tick e st; backlog = backlog_query now rule (table_rows (cs_db st) (ru_table rule));
                 st = set_result i (\<lambda>r. r\<lparr>rt_Backlog := Some backlog\<rparr>) st in
             if \<not> backlog \<or> affected = 0 then deactivate i st else st)
      else if rt_Affected (rp_Results (cs_report st) ! i) \<ge> rowBudget then
        deactivate i (set_result i (\<lambda>r. r\<lparr>rt_BudgetReached := True\<rparr>)
          (st\<lparr>cs_report := (cs_report st)\<lparr>rp_BudgetReached := True\<rparr>\<rparr>))
      else st)"

definition clean_rule :: "cleanup_env \<Rightarrow> int \<Rightarrow> int \<Rightarrow> int \<Rightarrow> nat \<Rightarrow> cleanup_state \<Rightarrow> cleanup_state" where
  "clean_rule e now batchSize rowBudget i st =
     (if \<not> cs_active st ! i \<or> ctx_expired e st then st
      else
        let rowsLeft = rowBudget - rt_Affected (rp_Results (cs_report st) ! i);
            limit = (if rowsLeft < batchSize then rowsLeft else batchSize) in
        (case ce_failed e (cs_tick st) of
           Some err \<Rightarrow> deactivate i (fail_rule i (''cleanup '' @ ru_name (rules ! i)) err (tick e st))
         | None \<Rightarrow> (case delete_batch e now limit i st of (affected, st') \<Rightarrow> after_batch e now rowBudget limit i affected st')))"

definition clean_pass :: "cleanup_env \<Rightarrow> int \<Rightarrow> int \<Rightarrow> int \<Rightarrow> cleanup_state \<Rightarrow> cleanup_state" where
  "clean_pass e now batchSize rowBudget st = fold (clean_rule e now batchSize rowBudget) [0..<length rules] st"

fun clean_loop :: "cleanup_env \<Rightarrow> int \<Rightarrow> int \<Rightarrow> int \<Rightarrow> nat \<Rightarrow> cleanup_state \<Rightarrow> cleanup_state option" where
  "clean_loop e now batchSize rowBudget fuel st =
     (if cs_remaining st > 0 \<and> \<not> ctx_expired e st then
        (case fuel of 0 \<Rightarrow> None
         | Suc n \<Rightarrow> clean_loop e now batchSize rowBudget n (clean_pass e now batchSize rowBudget st))
      else Some st)"

declare clean_loop.simps [simp del]

text \<open>The closing look at the rules that ended with a full batch.\<close>

definition final_backlog :: "cleanup_env \<Rightarrow> int \<Rightarrow> nat \<Rightarrow> cleanup_state \<Rightarrow> cleanup_state" where
  "final_backlog e now i st =
     (let result = rp_Results (cs_report st) ! i; rule = rules ! i in
      if rt_Backlog result \<noteq> None \<or> rt_Error result \<noteq> [] \<or> ctx_expired e st then st
      else (case ce_failed e (cs_tick st) of
          Some err \<Rightarrow> fail_rule i (''cleanup '' @ ru_name rule @ '' backlog'') err (tick e st)
        | None \<Rightarrow> let st = tick e st in
            set_result i (\<lambda>r. r\<lparr>rt_Backlog := Some (backlog_query now rule (table_rows (cs_db st) (ru_table rule)))\<rparr>) st))"

definition start_result :: "cleanup_rule \<Rightarrow> cleanup_result" where
  "start_result rule =
     \<lparr>rt_Name = ru_name rule, rt_Retention = ru_retention rule, rt_Action = ru_action rule, rt_Affected = 0, rt_Batches = 0,
      rt_Backlog = None, rt_BudgetReached = False, rt_Error = []\<rparr>"

definition start_state :: "int \<Rightarrow> int \<Rightarrow> server \<Rightarrow> cleanup_state" where
  "start_state batchSize rowBudget sv =
     \<lparr>cs_db = sv, cs_tick = 0, cs_active = map (\<lambda>_. True) rules, cs_remaining = int (length rules),
      cs_report = \<lparr>rp_BatchSize = batchSize, rp_RowBudget = rowBudget, rp_BudgetReached = False, rp_TotalAffected = 0,
                   rp_Results = map start_result rules\<rparr>,
      cs_failures = []\<rparr>"

definition finish :: "cleanup_env \<Rightarrow> int \<Rightarrow> cleanup_state \<Rightarrow> cleanup_state" where
  "finish e now st =
     fold (final_backlog e now) [0..<length rules]
       (if ctx_expired e st then st\<lparr>cs_report := (cs_report st)\<lparr>rp_BudgetReached := True\<rparr>\<rparr> else st)"

text \<open>
  \<open>None\<close> when the passes allowed by \<open>fuel\<close> do not end the loop; otherwise the refusal, or the
  report, the errors it joins and the tables.
\<close>

definition RunWithBudget ::
    "nat \<Rightarrow> cleanup_env \<Rightarrow> int \<Rightarrow> int \<Rightarrow> int \<Rightarrow> int \<Rightarrow> server \<Rightarrow> (string, cleanup_report \<times> string list \<times> server) result option" where
  "RunWithBudget fuel e now batchSize rowBudget maxRunTime sv =
     (if batchSize < 1 \<or> batchSize > DefaultBatchSize then Some (Inl ''cleanup batch size must be between 1 and 500'')
      else if rowBudget < 1 then Some (Inl ''cleanup row budget must be positive'')
      else if maxRunTime \<le> 0 then Some (Inl ''cleanup run time must be positive'')
      else map_option (\<lambda>st. let st = finish e now st in Inr (cs_report st, cs_failures st, cs_db st))
        (clean_loop e now batchSize rowBudget fuel (start_state batchSize rowBudget sv)))"

end
