(* ===== verification/ServeRules.thy ===== *)
theory ServeRules
  imports ServeSteps AccountRules PagingRules Cleanup
begin

section \<open>Properties of the server\<close>

text \<open>
  What HTTP requests can do: those of an agent stay inside the work assigned to it, and in every
  state that requests lead to from a fresh server the invariant of the tables holds.
\<close>

subsection \<open>What an agent's request can change\<close>

text \<open>
  \<open>confined\<close> relates a database to one in which an agent has worked: users, agents and lists are
  the same, only tasks assigned to the agent differ, and not in where they belong, and a new
  card entry is the agent's own.
\<close>

definition same_place :: "task_row \<Rightarrow> task_row \<Rightarrow> bool" where
  "same_place t t' \<longleftrightarrow> tk_id t' = tk_id t \<and> tk_owner t' = tk_owner t \<and> tk_bucket t' = tk_bucket t \<and> tk_sort t' = tk_sort t
     \<and> tk_parent t' = tk_parent t \<and> tk_assignee t' = tk_assignee t"

definition confined :: "string \<Rightarrow> db \<Rightarrow> db \<Rightarrow> bool" where
  "confined ag db db' \<longleftrightarrow> users db' = users db \<and> agent_rows db' = agent_rows db \<and> buckets db' = buckets db
     \<and> list_all2 (\<lambda>t t'. t' = t \<or> tk_assignee t = Some ag \<and> same_place t t') (tasks db) (tasks db')
     \<and> (\<exists>cs. entries db' = entries db @ cs \<and> length cs \<le> 1
          \<and> (\<forall>c \<in> set cs. er_author_kind c = ''agent'' \<and> er_author c = ag))"

lemma confined_refl [simp]: "confined ag db db"
  by (simp add: confined_def list_all2_same)

lemma row_changed:
  assumes "structure_ok db" "t \<in> set (tasks db)" "tk_assignee t = Some ag" "same_place t t'"
    and "ts' = map (\<lambda>y. if tk_id y = tk_id t then t' else y) (tasks db)"
  shows "list_all2 (\<lambda>t t'. t' = t \<or> tk_assignee t = Some ag \<and> same_place t t') (tasks db) ts'"
  using assms task_idD [OF assms(1) _ assms(2)] by (auto simp: list_all2_map2 intro!: list.rel_refl_strong)

lemma agent_update_confined:
  assumes inv: "store_inv db" and ag: "ag \<noteq> []" and run: "UpdateTaskForAgent e db now u ag i input = Inr (db', x)"
  shows "confined ag db db'"
proof -
  have up: "updateTask e db now u ag i input False = Inr (db', x)" using run by (auto simp: UpdateTaskForAgent_def split: if_splits)
  have "entries db' = entries db" using inv up by (rule updateTask_rows)
  moreover have "same_lists db db'" using task_ops_lists(1) [OF inv up] .
  moreover obtain t t' where "t \<in> set (tasks db)" "tasks db' = map (\<lambda>y. if tk_id y = tk_id t then t' else y) (tasks db)"
      "tk_assignee t = Some ag" "same_place t t'"
    using agent_update_row [OF inv ag run] unfolding same_place_def by blast
  ultimately show ?thesis
    using row_changed [of db t ag t' "tasks db'"] inv by (simp add: confined_def same_lists_def same_accounts_def store_inv_def)
qed

lemma claim_confined:
  assumes inv: "store_inv db" and ag: "ag \<noteq> []" and run: "claimTask e db now u ag i r = Inr (db', x)"
  shows "confined ag db db'"
proof -
  have lists: "same_lists db db'" using task_ops_lists(4) [OF inv run] .
  have "entries db' = entries db" using run by (rule claimTask_InrE) simp
  moreover from inv run have "list_all2 (\<lambda>t t'. t' = t \<or> tk_assignee t = Some ag \<and> same_place t t') (tasks db) (tasks db')"
  proof (rule claimTask_rows)
    fix t :: task_row and run'
    assume "t \<in> set (tasks db)" "ag \<noteq> [] \<longrightarrow> tk_assignee t = Some ag"
      "tasks db' = map (\<lambda>y. if tk_id y = tk_id t then set_claimed now run' t else y) (tasks db)"
    then show ?thesis
      using row_changed [of db t ag "set_claimed now run' t"] inv ag
      by (simp add: store_inv_def same_place_def set_claimed_def)
  qed
  ultimately show ?thesis using lists by (simp add: confined_def same_lists_def same_accounts_def)
qed

lemma post_confined:
  assumes inv: "store_inv db" and ag: "ag \<noteq> []" and run: "CreateTaskEntry e db now fresh u ag author i input = Inr (db', x)"
  shows "confined ag db db'"
  using run
proof (cases rule: CreateTaskEntry_cases)
  case (new i' r' r)
  have lists: "same_lists db db'" using CreateTaskEntry_lists [OF inv run] .
  from inv new(6) show ?thesis
  proof (rule create_entry_task)
    fix t t' :: task_row and name
    assume "t \<in> set (tasks db)" "tk_id t = i'" "ag \<noteq> [] \<longrightarrow> tk_assignee t = Some ag"
      "tasks db' = map (\<lambda>y. if tk_id y = i' then t' else y) (tasks db)"
      "t' = (if eq_kind r = ''output'' then set_reviewed now t else t)"
      "entries db' = entries db @ [new_entry e now fresh u ag i' r' name r]"
    then show ?thesis
      using row_changed [of db t ag t' "tasks db'"] inv ag lists
      by (simp add: confined_def same_lists_def same_accounts_def store_inv_def same_place_def set_reviewed_def new_entry_def entry_author_def)
  qed
qed simp

lemma confined_answer: "(\<And>resp db'. m = Inr (resp, db') \<Longrightarrow> confined ag db db') \<Longrightarrow> confined ag db (snd (answer db m))"
  by (cases m) auto

lemma update_as_confined:
  "store_inv db \<Longrightarrow> uAgentID user \<noteq> [] \<Longrightarrow> update_as e d db r input user = Inr (db', x) \<Longrightarrow> confined (uAgentID user) db db'"
  by (auto simp: update_as_def intro: agent_update_confined)

lemma claim_as_confined:
  "store_inv db \<Longrightarrow> uAgentID user \<noteq> [] \<Longrightarrow> claim_as e d db r user = Inr (db', x) \<Longrightarrow> confined (uAgentID user) db db'"
  by (auto simp: claim_as_def ClaimTaskForAgent_def ClaimTaskForManagedRun_def Let_def split: if_splits elim!: rbind_elims intro: claim_confined)

definition open_to_agents :: "user_endpoint set" where
  "open_to_agents = {Lists, OneList, AllTasks, OneTask, TaskEntries, NewTaskEntry, EditTask, Summary, QueuedTasks, ClaimQueued,
     SetAgentStatus, FinishTask}"

lemma Routes_guards: "(m, pattern, Guarded g u) \<in> set Routes \<Longrightarrow> g \<in> {SessionOnly, Person, AccountManage} \<or> u \<in> open_to_agents"
  by (auto simp: Routes_def open_to_agents_def)

lemma serve_board_confined:
  assumes inv: "store_inv db" and ag: "uAgentID user \<noteq> []" and u: "u \<in> open_to_agents"
  shows "confined (uAgentID user) db (snd (serve_board w c u r user db))"
proof -
  have "confined (uAgentID user) db (snd (CreateTaskEntry_post e d db r en user))" for e d en
    unfolding CreateTaskEntry_post_def Let_def
    by (rule confined_answer, elim rbind_elims stored_InrE) (use ag in \<open>auto intro: post_confined [OF inv]\<close>)
  moreover have "confined (uAgentID user) db (snd (UpdateTask_patch e d db r tedit user))"
    "confined (uAgentID user) db (snd (AgentClaim_post e d db r user))"
    "confined (uAgentID user) db (snd (AgentStatus_patch e d db r st user))"
    "confined (uAgentID user) db (snd (AgentDone_post e d db r user))" for e d tedit st
    unfolding agent_handlers
    by (rule confined_answer; elim rbind_elims stored_InrE; use inv ag in \<open>auto intro: update_as_confined claim_as_confined\<close>)+
  ultimately show ?thesis using u by (auto simp: open_to_agents_def)
qed

subsection \<open>An agent's credential\<close>

text \<open>The request carries the token of an agent and no session, and the token is no personal one.\<close>

definition agent_caller :: "(string \<Rightarrow> string) \<Rightarrow> auth_db \<Rightarrow> request \<Rightarrow> string \<Rightarrow> bool" where
  "agent_caller sha adb r ag \<longleftrightarrow> readSessionToken r = None
     \<and> (\<exists>token c. readBearerToken r = Some token \<and> List.find (human_token adb (sha token)) (api_tokens adb) = None
          \<and> List.find (agent_token adb (sha token)) (credentials adb) = Some c \<and> cd_agent c = ag)"

text \<open>Only the time of the last use of a credential may differ.\<close>

definition only_used :: "auth_db \<Rightarrow> auth_db \<Rightarrow> bool" where
  "only_used adb adb' \<longleftrightarrow> (\<exists>cs. adb' = adb\<lparr>credentials := cs\<rparr>
     \<and> map (\<lambda>c. (cd_id c, cd_agent c, cd_hash c, cd_revoked c)) cs
       = map (\<lambda>c. (cd_id c, cd_agent c, cd_hash c, cd_revoked c)) (credentials adb))"

lemma only_used_refl [simp]: "only_used adb adb"
  unfolding only_used_def by (rule exI [of _ "credentials adb"]) simp

lemma update_where_unfound: "List.find P xs = None \<Longrightarrow> update_where P f xs = xs"
  by (induction xs) (auto split: if_splits)

lemma agent_token_used:
  assumes "List.find (human_token adb h) (api_tokens adb) = None" "List.find (agent_token adb h) (credentials adb) = Some c"
    and "FindUserByAPITokenHash adb h now = Inr (adb', user)"
  shows "uAgentID user = cd_agent c \<and> only_used adb adb'"
proof -
  have "only_used adb (adb\<lparr>credentials := update_where P (\<lambda>c. c\<lparr>cd_last_used := Some now, cd_updated := now\<rparr>) (credentials adb)\<rparr>)" for P
    unfolding only_used_def by (intro exI conjI, rule refl) (simp add: update_where_def)
  moreover have "ag_id a = cd_agent c" if "agent_of adb (cd_agent c) = Some a" for a
    using that by (auto simp: agent_of_def find_Some_iff)
  ultimately show ?thesis
    using assms by (auto simp: FindUserByAPITokenHash_def Let_def update_where_unfound split: option.splits)
qed

lemma agent_resolved:
  assumes "agent_caller sha adb r ag" "ResolveUserFromRequestWithGate sha adb now r gate g = (res, adb', g')"
  shows "only_used adb adb' \<and> (\<forall>user credential. res = Inr (user, credential) \<longrightarrow> uAgentID user = ag)"
  using assms
  by (auto simp: agent_caller_def ResolveUserFromRequestWithGate_def Let_def split: prod.splits option.splits sum.splits if_splits
      dest: agent_token_used)

lemma no_session_user:
  "readSessionToken r = None \<Longrightarrow> ResolveSessionUserFromRequestWithGate sha adb now r gate g = (Inl Unauthorized, g)"
  by (simp add: ResolveSessionUserFromRequestWithGate_def)

lemma agent_authenticated:
  assumes caller: "agent_caller sha (sv_auth sv) r ag"
    and run: "authenticateWithLimits sha limits rd sv r sessionOnly record = (result, sv1)"
  shows "only_used (sv_auth sv) (sv_auth sv1)
    \<and> (ar_limitErr result = None \<and> ar_authErr result = None \<longrightarrow> \<not> sessionOnly \<and> uAgentID (ar_user result) = ag)"
proof -
  have no: "readSessionToken r = None" using caller by (simp add: agent_caller_def)
  note walk = agent_resolved [OF caller]
  show ?thesis
  proof (cases sessionOnly)
    case True
    then show ?thesis
      using run by (auto simp: authenticateWithLimits_def no_session_user [OF no] Let_def zero_result_def settle_unknown_def
          split: option.splits sum.splits prod.splits if_splits)
  next
    case False
    show ?thesis
    proof (cases limits)
      case None
      then show ?thesis
        using run False by (auto simp: authenticateWithLimits_def Let_def zero_result_def split: sum.splits prod.splits dest: walk)
    next
      case (Some p)
      let ?gate = "Some (reserve_gate sha (rd_skip rd) (rd_tick rd) p (authenticatedRouteClass r))"
      obtain res adb g where resolve: "ResolveUserFromRequestWithGate sha (sv_auth sv) (rd_now rd) r ?gate (start_gate (sv_limits sv)) = (res, adb, g)"
        by (metis prod_cases3)
      have adb: "sv_auth sv1 = adb"
        using run False Some resolve by (auto simp: authenticateWithLimits_def Let_def split: option.splits sum.splits resolve_error.splits prod.splits)
      have settled: "ar_user result = user" if "ar_limitErr result = None" "settle_user sha now g (user, credential) = (result, db)" for now user credential db
        using that by (auto simp: settle_user_def Let_def zero_result_def split: option.splits sum.splits prod.splits)
      have unknown: "ar_limitErr result \<noteq> None \<or> ar_authErr result \<noteq> None" if "settle_unknown sha now c rec g = (result, db)" for now c rec db
        using that by (auto simp: settle_unknown_def Let_def zero_result_def split: sum.splits prod.splits if_splits)
      have "uAgentID (ar_user result) = ag" if "ar_limitErr result = None" "ar_authErr result = None"
        using run False Some resolve that walk [OF resolve]
        by (auto simp: authenticateWithLimits_def Let_def zero_result_def split: option.splits sum.splits resolve_error.splits prod.splits
            dest: settled dest!: unknown)
      then show ?thesis using walk [OF resolve] adb False by simp
    qed
  qed
qed

lemma resolveAuthenticated_agent:
  assumes "agent_caller (lb_sha lib) (sv_auth sv) r ag" "resolveAuthenticated lib a rd sv r sessionOnly = (x, sv1)"
  shows "only_used (sv_auth sv) (sv_auth sv1) \<and> (\<forall>user h. x = Inr (user, h) \<longrightarrow> \<not> sessionOnly \<and> uAgentID user = ag)"
proof -
  obtain result sv1' where run: "authenticateWithLimits (lb_sha lib) (ap_limits a) rd sv r sessionOnly True = (result, sv1')"
    by (cases "authenticateWithLimits (lb_sha lib) (ap_limits a) rd sv r sessionOnly True")
  then show ?thesis
    using agent_authenticated [OF assms(1) run] assms(2)
    by (auto simp: resolveAuthenticated_def split: if_splits option.splits sum.splits)
qed

text \<open>What a handler may do when it is called by the agent, as a relation on the account tables.\<close>

definition agent_effect :: "string \<Rightarrow> auth_db \<Rightarrow> auth_db \<Rightarrow> bool" where
  "agent_effect ag adb adb' \<longleftrightarrow> (\<exists>db. confined ag (store adb) db \<and> only_used (adb\<lparr>store := db\<rparr>) adb')"

lemma guarded_agent:
  assumes caller: "agent_caller (lb_sha lib) (sv_auth sv) r ag"
    and h: "\<And>user sv1. \<not> sessionOnly \<Longrightarrow> uAgentID user = ag \<Longrightarrow> only_used (sv_auth sv) (sv_auth sv1) \<Longrightarrow>
      E (sv_auth (snd (h user sv1)))"
    and none: "\<And>adb. only_used (sv_auth sv) adb \<Longrightarrow> E adb"
    and run: "guarded lib a rd sessionOnly h sv r = (resp, sv')"
  shows "E (sv_auth sv')"
proof -
  obtain x sv1 where res: "resolveAuthenticated lib a rd sv r sessionOnly = (x, sv1)"
    by (cases "resolveAuthenticated lib a rd sv r sessionOnly")
  note resolved = resolveAuthenticated_agent [OF caller res]
  show ?thesis
  proof (cases "ready a")
    case (Inl e)
    then show ?thesis using run none [of "sv_auth sv"] by (simp add: guarded_def)
  next
    case (Inr z)
    show ?thesis
    proof (cases x)
      case (Inl e)
      then show ?thesis using run Inr res resolved none by (simp add: guarded_def)
    next
      case (Inr y)
      obtain user hd where y: "y = (user, hd)" by (cases y)
      have "sv' = snd (h user sv1)" using run res Inr y \<open>ready a = Inr z\<close> by (simp add: guarded_def split: prod.splits)
      then show ?thesis using resolved Inr y h by blast
    qed
  qed
qed

lemma on_board_auth: "sv_auth (snd (on_board h sv)) = (sv_auth sv)\<lparr>store := snd (h (store (sv_auth sv)))\<rparr>"
  by (simp add: on_board_def on_auth_def split: prod.splits)

lemma agent_board_effect:
  assumes inv: "store_inv (store adb)" and ag: "uAgentID user \<noteq> []" and used: "only_used adb (sv_auth sv1)" and u: "u \<in> open_to_agents"
  shows "agent_effect (uAgentID user) adb (sv_auth (snd (user_handler w c u r user sv1)))"
proof -
  have same: "store (sv_auth sv1) = store adb" using used by (auto simp: only_used_def)
  have "serve_account w c u r = None" using u by (auto simp: open_to_agents_def)
  then have "sv_auth (snd (user_handler w c u r user sv1)) =
      (sv_auth sv1)\<lparr>store := snd (serve_board w c u r user (store adb))\<rparr>"
    by (simp add: user_handler_def on_board_auth same)
  moreover have "confined (uAgentID user) (store adb) (snd (serve_board w c u r user (store adb)))"
    using serve_board_confined [OF inv ag u] .
  moreover have "only_used (adb\<lparr>store := db\<rparr>) (adb'\<lparr>store := db\<rparr>)" if "only_used adb adb'" for adb' and db :: db
    using that by (cases adb) (auto simp: only_used_def)
  ultimately show ?thesis
    using used unfolding agent_effect_def by (intro exI [of _ "snd (serve_board w c u r user (store adb))"]) simp
qed

lemma agent_caller_nonempty: "account_inv e adb \<Longrightarrow> agent_caller sha adb r ag \<Longrightarrow> ag \<noteq> []"
  by (auto simp: agent_caller_def agent_token_def agent_of_def account_inv_def agents_ok_def split: option.splits dest!: find_SomeD)

lemma agent_serve:
  assumes inv: "account_inv (wl_env w) (sv_auth sv)" and caller: "agent_caller (lb_sha (wl_lib w)) (sv_auth sv) r ag"
    and route: "find_route Routes r = Some (Guarded g u, i)" and run: "serve w c sv r = (resp, sv')"
  shows "if u \<in> open_to_agents then agent_effect ag (sv_auth sv) (sv_auth sv') else only_used (sv_auth sv) (sv_auth sv')"
proof -
  let ?E = "\<lambda>adb. if u \<in> open_to_agents then agent_effect ag (sv_auth sv) adb else only_used (sv_auth sv) adb"
  let ?r = "r\<lparr>hr_id := i\<rparr>"
  have store: "store_inv (store (sv_auth sv))" using inv by (simp add: account_inv_def)
  have ag: "ag \<noteq> []" using agent_caller_nonempty [OF inv caller] .
  have caller': "agent_caller (lb_sha (wl_lib w)) (sv_auth sv) ?r ag"
    using caller by (simp add: agent_caller_def readSessionToken_def readBearerToken_def)
  have none: "?E adb" if "only_used (sv_auth sv) adb" for adb
    using that by (auto simp: agent_effect_def intro: exI [of _ "store (sv_auth sv)"])
  have effect: "agent_effect ag (sv_auth sv) (sv_auth (snd (user_handler w c u ?r user sv1)))"
    if "uAgentID user = ag" "only_used (sv_auth sv) (sv_auth sv1)" "u \<in> open_to_agents" for user sv1
    using agent_board_effect [OF store _ that(2,3), of user w c ?r] that ag by simp
  have run': "guard_with g (wl_lib w) (wl_app w) (cl_readings c) (user_handler w c u ?r) sv ?r = (resp, sv')"
    using run route by (simp add: serve_def Let_def)
  have "g \<in> {SessionOnly, Person, AccountManage} \<or> u \<in> open_to_agents"
    using find_route_in [OF route] Routes_guards by fast
  then have open_route: "u \<in> open_to_agents" if "g = AnyUser \<or> g = AccountRead" using that by auto
  define E where "E = ?E"
  have pass: "E (sv_auth sv')" if "guarded (wl_lib w) (wl_app w) (cl_readings c) sessionOnly h sv ?r = (resp, sv')"
    "\<And>user sv1. \<not> sessionOnly \<Longrightarrow> uAgentID user = ag \<Longrightarrow> only_used (sv_auth sv) (sv_auth sv1) \<Longrightarrow> E (sv_auth (snd (h user sv1)))"
    for sessionOnly h
    using that(2) none unfolding E_def by (rule guarded_agent [OF caller' _ _ that(1)])
  have kept: "E (sv_auth sv1)" if "only_used (sv_auth sv) (sv_auth sv1)" for sv1 using none [OF that] by (simp add: E_def)
  have worked: "E (sv_auth (snd (user_handler w c u ?r user sv1)))"
    if "g = AnyUser \<or> g = AccountRead" "uAgentID user = ag" "only_used (sv_auth sv) (sv_auth sv1)" for user sv1
    using effect [OF that(2,3)] open_route [OF that(1)] by (simp add: E_def)
  have "E (sv_auth sv')"
    using run' ag
    by (cases g; simp only: guard_with.simps session_user_def any_user_def accountRead_def person_def accountManage_def; elim pass)
      (simp_all add: kept worked)
  then show ?thesis by (simp add: E_def)
qed

subsection \<open>The server as a system\<close>

text \<open>
  Requests, turns of the reset worker and the transactions of the operator's commands, in any
  order: creating the administrator, each of its lists, disabling and enabling members, and each
  batch of the cleanup job. The identifiers that are drawn are not empty; nothing else is asked.
\<close>

inductive server_step :: "world \<Rightarrow> server \<Rightarrow> server \<Rightarrow> bool" for w where
  request: "serve w c sv r = (resp, sv') \<Longrightarrow> draws_ok (cl_draws c) \<Longrightarrow> server_step w sv sv'"
| worker: "processPasswordResetRequest (wl_lib w) (wl_service w) d (sv_auth sv) sent = (res, mail, adb') \<Longrightarrow>
    server_step w sv (sv\<lparr>sv_auth := adb'\<rparr>)"
| seed: "SeedAdmin (wl_lib w) d (sv_auth sv) email password = Inr (adb', user) \<Longrightarrow> server_step w sv (sv\<lparr>sv_auth := adb'\<rparr>)"
| disable_member: "SetMemberDisabled (lb_lower (wl_lib w)) (sv_auth sv) now email off = Inr (adb', x) \<Longrightarrow>
    server_step w sv (sv\<lparr>sv_auth := adb'\<rparr>)"
| seed_list: "CreateBucket (store (sv_auth sv)) now fresh u b = Inr (db', row) \<Longrightarrow> fresh \<noteq> [] \<Longrightarrow>
    server_step w sv (sv\<lparr>sv_auth := (sv_auth sv)\<lparr>store := db'\<rparr>\<rparr>)"
| cleanup_batch: "rule \<in> set rules \<Longrightarrow> delete_rows now rule locked limit sv = (n, sv') \<Longrightarrow> server_step w sv sv'"

definition server_init :: "server \<Rightarrow> bool" where
  "server_init sv \<longleftrightarrow> account_init (sv_auth sv)"

lemma seed_step: "SeedAdmin lib d adb email password = Inr (adb', user) \<Longrightarrow> account_step e adb adb'"
  unfolding SeedAdmin_def Let_def
  by (elim rbind_elims) (auto split: sum.splits prod.splits option.splits if_splits intro: admin)

lemma server_step_path: "server_step w sv sv' \<Longrightarrow> (account_step (wl_env w))\<^sup>*\<^sup>* (sv_auth sv) (sv_auth sv')"
proof (induction rule: server_step.induct)
  case (request c sv r resp sv')
  then show ?case using serve_path [of c w sv r] by (simp add: server_path_def)
next
  case (worker d sv sent res mail adb')
  then show ?case by (simp add: worker_path)
next
  case (seed d sv email password adb' user)
  then show ?case using seed_step by (auto intro: r_into_rtranclp)
next
  case (disable_member sv now email off adb' x)
  then show ?case using disable by (auto intro: r_into_rtranclp)
next
  case (seed_list sv now fresh u b db' row)
  then show ?case using board [OF step_CreateBucket] by (auto intro: r_into_rtranclp)
next
  case (cleanup_batch rule now locked limit sv n sv')
  show ?case
  proof (cases "ru_table rule \<in> {LimiterState, LimiterMetrics}")
    case True
    then show ?thesis using cleanup_batch(2) by (auto simp: delete_rows_def split: prod.splits)
  next
    case False
    then obtain adb where "delete_account_rows now rule locked limit (sv_auth sv) = (n, adb)" "sv' = sv\<lparr>sv_auth := adb\<rparr>"
      using cleanup_batch(2) by (auto simp: delete_rows_def split: prod.splits)
    then show ?thesis using clean_up [OF cleanup_batch(1)] by (auto intro: r_into_rtranclp)
  qed
qed

interpretation web: invariant_system server_init "server_step w" "\<lambda>sv. account_inv (wl_env w) (sv_auth sv)" for w
proof
  show "account_inv (wl_env w) (sv_auth sv)" if "server_init sv" for sv
    using slate.good_start that by (simp add: server_init_def)
  show "account_inv (wl_env w) (sv_auth sv')" if "account_inv (wl_env w) (sv_auth sv)" "server_step w sv sv'" for sv sv'
    using slate.good_steps [OF server_step_path [OF that(2)] that(1)] .
qed

subsection \<open>A small server\<close>

definition no_body :: "(response, 'a) result" where
  "no_body = Inl (writeCodedError 400 ''invalid_json'' ''Invalid JSON body.'')"

definition ex_bodies :: bodies where
  "ex_bodies = \<lparr>in_credentials = Inr \<lparr>ci_Email = ''ann@example.org'', ci_Password = ''pw1''\<rparr>,
     in_signup = Inr \<lparr>si_Email = ''bob@example.org'', si_Password = ''secret-password'', si_InviteCode = ''welcome''\<rparr>,
     in_reset_request = no_body, in_reset = no_body, in_profile = no_body, in_token = no_body, in_agent = no_body, in_rotation = no_body,
     in_new_list = no_body, in_edit_list = no_body, in_order = no_body, in_new_task = no_body, in_entry = no_body, in_edit_task = no_body,
     in_move = no_body, in_task_status = no_body, in_agent_status = no_body\<rparr>"

definition ex_draws :: draws where
  "ex_draws = \<lparr>dw_now = (\<lambda>_. 9), dw_tx = 9, dw_fresh = ''u9'', dw_fresh2 = ''u8'', dw_lists = ex_gen, dw_random = Some ''random'',
     dw_bcrypt = Some, dw_attempts = (\<lambda>_. False), dw_requests = (\<lambda>_. False), dw_tokens = (\<lambda>_. False)\<rparr>"

definition ex_call :: call where
  "ex_call = \<lparr>cl_bodies = ex_bodies, cl_draws = ex_draws,
     cl_readings = \<lparr>rd_now = (\<lambda>_. 9), rd_tick = (\<lambda>_. 9), rd_skip = (\<lambda>_ _. False)\<rparr>\<rparr>"

definition ex_library :: library where
  "ex_library = \<lparr>lb_sha = (\<lambda>v. v), lb_lower = map lower_byte, lb_email = Some, lb_origin = (\<lambda>_. None), lb_addr = Some,
     lb_addr_port = (\<lambda>_. None), lb_escape = (\<lambda>v. v), lb_compare = (=)\<rparr>"

definition ex_world :: world where
  "ex_world = \<lparr>wl_app = \<lparr>ap_ready = True, ap_limits = None, ap_ping = True, ap_connections = (8, 4), ap_open = (\<lambda>_. Missing),
       ap_read = (\<lambda>_. None)\<rparr>,
     wl_service = \<lparr>sc_inviteCode = ''welcome'', sc_appBaseURL = ''https://slate.do'', sc_sender = True\<rparr>,
     wl_lib = ex_library, wl_env = ex_env, wl_codec = ex_codec\<rparr>"

definition ex_request :: "string \<Rightarrow> string list \<Rightarrow> string \<Rightarrow> request" where
  "ex_request method parts token = \<lparr>hr_method = method, hr_host = ''slate.do'', hr_origin = [], hr_cookie = None,
     hr_authorization = ''Bearer '' @ token, hr_forwarded = [], hr_remote = ''192.0.2.1'', hr_path = ''api'' # ''v1'' # parts, hr_id = [],
     hr_query = (\<lambda>_. []), hr_idempotency = [], hr_run = []\<rparr>"

definition ex_server :: "auth_db \<Rightarrow> server" where
  "ex_server adb = \<lparr>sv_auth = adb, sv_limits = \<lparr>rl_settings = None, rl_state = [], rl_metrics = []\<rparr>\<rparr>"

subsection \<open>Properties\<close>

text \<open>
  C4: The server refines the system of transactions. Whatever requests it is sent, in whatever
  order and with whatever credentials, bodies and clocks, and whatever turns of the reset worker
  and transactions of the operator's commands come in between, the batches of a cleanup included,
  its tables are those of a sequence of committed transactions and satisfy the invariant of the
  account system.
\<close>

theorem server_runs_transactions:
  assumes "reachable server_init (server_step w) sv"
  shows "reachable account_init (account_step (wl_env w)) (sv_auth sv) \<and> account_inv (wl_env w) (sv_auth sv)"
proof
  show "reachable account_init (account_step (wl_env w)) (sv_auth sv)"
    using assms
  proof (induction rule: reachable.induct)
    case (reachable_step sv sv')
    then show ?case using reachable_steps [OF server_step_path] by blast
  qed (simp add: server_init_def reachable_start)
  show "account_inv (wl_env w) (sv_auth sv)" using web.good_reachable [OF assms] .
qed

theorem server_runs_transactions_witness:
  "\<exists>resp sv. serve ex_world ex_call (ex_server empty_auth) (ex_request ''POST'' [''auth'', ''register''] []) = (resp, sv)
    \<and> rs_status resp = 201 \<and> account_inv ex_env (sv_auth sv)"
proof -
  let ?run = "serve ex_world ex_call (ex_server empty_auth) (ex_request ''POST'' [''auth'', ''register''] [])"
  have status: "rs_status (fst ?run) = 201" by code_simp
  have "server_init (ex_server empty_auth)" by (simp add: server_init_def ex_server_def empty_init)
  then have "reachable server_init (server_step ex_world) (ex_server empty_auth)" by (rule reachable_start)
  moreover have "draws_ok (cl_draws ex_call)" by (simp add: draws_ok_def ex_call_def ex_draws_def ex_gen_def)
  then have "server_step ex_world (ex_server empty_auth) (snd ?run)" by (intro request [of _ ex_call _ _ "fst ?run"]) simp_all
  ultimately have "reachable server_init (server_step ex_world) (snd ?run)" by (rule reachable_step)
  then show ?thesis
    using server_runs_transactions [of ex_world "snd ?run"] status
    by (intro exI [of _ "fst ?run"] exI [of _ "snd ?run"]) (simp add: ex_world_def)
qed

text \<open>
  C5: An agent's credential is confined to the agent's own work. Whatever route a request with
  an agent's token and no session takes past a guard, it leaves users, agents, lists, sessions
  and personal tokens as they are; at most tasks assigned to that agent change, and never their
  list, position, parent, assignee or owner; a new card entry is signed by the agent. On every
  route that is not open to agents it changes nothing.
\<close>

theorem agent_request_confined:
  assumes "account_inv (wl_env w) (sv_auth sv)" "agent_caller (lb_sha (wl_lib w)) (sv_auth sv) r ag"
    and "find_route Routes r = Some (Guarded g u, i)" "serve w c sv r = (resp, sv')"
  shows "\<exists>db. confined ag (store (sv_auth sv)) db \<and> only_used ((sv_auth sv)\<lparr>store := db\<rparr>) (sv_auth sv')
    \<and> (u \<notin> open_to_agents \<longrightarrow> db = store (sv_auth sv))"
proof (cases "u \<in> open_to_agents")
  case True
  then show ?thesis using agent_serve [OF assms] unfolding agent_effect_def by auto
next
  case False
  then show ?thesis using agent_serve [OF assms] by (intro exI [of _ "store (sv_auth sv)"]) simp
qed

theorem agent_request_confined_witness:
  "\<exists>resp sv'. serve ex_world ex_call (ex_server ex_auth) (ex_request ''POST'' [''agent'', ''tasks'', ex_task_uuid, ''claim''] ''ch1'') = (resp, sv')
    \<and> rs_status resp = 200 \<and> confined ex_agent_uuid ex_db (store (sv_auth sv'))"
proof -
  let ?r = "ex_request ''POST'' [''agent'', ''tasks'', ex_task_uuid, ''claim''] ''ch1''"
  obtain resp sv' where run: "serve ex_world ex_call (ex_server ex_auth) ?r = (resp, sv')" by (cases "serve ex_world ex_call (ex_server ex_auth) ?r")
  have "rs_status (fst (serve ex_world ex_call (ex_server ex_auth) ?r)) = 200" by code_simp
  then have status: "rs_status resp = 200" by (simp add: run)
  have route: "find_route Routes ?r = Some (Guarded AnyUser ClaimQueued, ex_task_uuid)" by code_simp
  have "readSessionToken ?r = None" "readBearerToken ?r = Some ''ch1''" "List.find (human_token ex_auth ''ch1'') (api_tokens ex_auth) = None"
    "case List.find (agent_token ex_auth ''ch1'') (credentials ex_auth) of None \<Rightarrow> False | Some c \<Rightarrow> cd_agent c = ex_agent_uuid"
    by code_simp+
  then have caller: "agent_caller (lb_sha (wl_lib ex_world)) (sv_auth (ex_server ex_auth)) ?r ex_agent_uuid"
    by (auto simp: agent_caller_def ex_world_def ex_library_def ex_server_def split: option.splits)
  have inv: "account_inv (wl_env ex_world) (sv_auth (ex_server ex_auth))" by (simp add: ex_world_def ex_server_def ex_account_inv)
  show ?thesis
    using agent_request_confined [OF inv caller route run] run status by (auto simp: only_used_def ex_server_def ex_auth_def)
qed

end
