(* ===== verification/Config.thy ===== *)
theory Config
  imports GoStrings
begin

section \<open>The configuration of the server (config/config.go)\<close>

text \<open>
  Reading the settings from the environment and checking them. \<open>getenv\<close> is \<open>os.Getenv\<close>, empty
  for a variable that is not set. Durations are nanoseconds. An error is its text.
\<close>

subsection \<open>time.ParseDuration\<close>

text \<open>
  The whole part and the number of decimals are exact. What the decimals contribute is computed
  in floating point: \<open>fraction f unit k\<close> stands for \<open>uint64(float64(f) * (float64(unit) / 10^k))\<close>.
\<close>

definition int64_limit :: int where
  "int64_limit = 2 ^ 63"

definition duration_units :: "(string \<times> int) list" where
  "duration_units =
     [(''ns'', 1), (''us'', 10 ^ 3), ([CHR 0xC2, CHR 0xB5, CHR ''s''], 10 ^ 3), ([CHR 0xCE, CHR 0xBC, CHR ''s''], 10 ^ 3),
      (''ms'', 10 ^ 6), (''s'', 10 ^ 9), (''m'', 60 * 10 ^ 9), (''h'', 3600 * 10 ^ 9)]"

text \<open>The decimals that still fit: the value so far and the power of ten, until the first overflow.\<close>

fun leadingFraction :: "string \<Rightarrow> int \<Rightarrow> nat \<Rightarrow> int \<times> nat" where
  "leadingFraction [] x k = (x, k)"
| "leadingFraction (c # cs) x k =
     (let y = x * 10 + int (digit_value c) in
      if x > (int64_limit - 1) div 10 \<or> y > int64_limit then (x, k) else leadingFraction cs y (k + 1))"

definition not_numeric :: "char \<Rightarrow> bool" where
  "not_numeric c \<longleftrightarrow> c \<noteq> CHR ''.'' \<and> \<not> digit c"

text \<open>One group of digits, decimals and unit: its value in nanoseconds and the rest of the text.\<close>

definition duration_part :: "(int \<Rightarrow> int \<Rightarrow> nat \<Rightarrow> int) \<Rightarrow> string \<Rightarrow> (int \<times> string) option" where
  "duration_part fraction s =
     (let whole = takeWhile digit s; s1 = dropWhile digit s;
          decimals = (case s1 of c # cs \<Rightarrow> if c = CHR ''.'' then takeWhile digit cs else [] | [] \<Rightarrow> []);
          s2 = (case s1 of c # cs \<Rightarrow> if c = CHR ''.'' then dropWhile digit cs else s1 | [] \<Rightarrow> []);
          name = takeWhile not_numeric s2;
          v = int (number_value whole) in
      if v > int64_limit then None
      else if whole = [] \<and> decimals = [] then None
      else (case map_of duration_units name of
          None \<Rightarrow> None
        | Some unit \<Rightarrow>
            if v > int64_limit div unit then None
            else
              let (f, k) = leadingFraction decimals 0 0;
                  value = (if f > 0 then v * unit + fraction f unit k else v * unit) in
              if f > 0 \<and> value > int64_limit then None else Some (value, dropWhile not_numeric s2)))"

lemma length_dropWhile_less: "takeWhile P s \<noteq> [] \<Longrightarrow> length (dropWhile P s) < length s"
  by (cases s) (auto simp: length_dropWhile_le less_Suc_eq_le split: if_splits)

lemma no_empty_unit: "map_of duration_units [] = None"
  by (simp add: duration_units_def)

lemma duration_part_shorter:
  assumes "duration_part fraction s = Some (v, rest)"
  shows "length rest < length s"
proof -
  define s1 where "s1 = dropWhile digit s"
  define s2 where "s2 = (case s1 of c # cs \<Rightarrow> if c = CHR ''.'' then dropWhile digit cs else s1 | [] \<Rightarrow> [])"
  have "map_of duration_units (takeWhile not_numeric s2) \<noteq> None" and rest: "rest = dropWhile not_numeric s2"
    using assms unfolding duration_part_def Let_def s1_def [symmetric] s2_def [symmetric]
    by (auto split: if_splits prod.splits option.splits)
  then have unit: "takeWhile not_numeric s2 \<noteq> []" by (metis no_empty_unit)
  have "length s2 \<le> length s1"
    by (auto simp: s2_def le_SucI length_dropWhile_le split: list.splits)
  also have "\<dots> \<le> length s" by (simp add: s1_def length_dropWhile_le)
  finally show ?thesis
    using length_dropWhile_less [OF unit] by (simp add: rest)
qed

function duration_parts :: "(int \<Rightarrow> int \<Rightarrow> nat \<Rightarrow> int) \<Rightarrow> string \<Rightarrow> int \<Rightarrow> int option" where
  "duration_parts fraction s d =
     (if s = [] then Some d
      else (case duration_part fraction s of
          None \<Rightarrow> None
        | Some (v, rest) \<Rightarrow> let sum = (d + v) mod 2 ^ 64 in if sum > int64_limit then None else duration_parts fraction rest sum))"
  by pat_completeness auto
termination
  by (relation "measure (\<lambda>(_, s, _). length s)") (auto dest: duration_part_shorter)

declare duration_parts.simps [simp del]

definition ParseDuration :: "(int \<Rightarrow> int \<Rightarrow> nat \<Rightarrow> int) \<Rightarrow> string \<Rightarrow> int option" where
  "ParseDuration fraction s0 =
     (let (neg, s) = (case s0 of
            c # cs \<Rightarrow> if c = CHR ''-'' then (True, cs) else if c = CHR ''+'' then (False, cs) else (False, s0)
          | [] \<Rightarrow> (False, [])) in
      if s = ''0'' then Some 0
      else if s = [] then None
      else (case duration_parts fraction s 0 of
          None \<Rightarrow> None
        | Some d \<Rightarrow> if neg then Some (- d) else if d > int64_limit - 1 then None else Some d))"

subsection \<open>Settings\<close>

record Config =
  cf_Port :: string
  cf_DatabaseURL :: string
  cf_SessionSecret :: string
  cf_CookieSecure :: bool
  cf_StaticDir :: string
  cf_AdminEmail :: string
  cf_AdminPassword :: string
  cf_InviteCode :: string
  cf_AppBaseURL :: string
  cf_ResendAPIKey :: string
  cf_ResendFrom :: string
  cf_AppMaxInstances :: int
  cf_DBMaxConnections :: int
  cf_DBConnectionAllowance :: int
  cf_DBReservedConnections :: int
  cf_DBAcquireTimeout :: int
  cf_DBStatementTimeout :: int
  cf_DBIdleTransactionTimeout :: int
  cf_DBMaxConnectionIdleTime :: int
  cf_DBMaxConnectionLifetime :: int
  cf_RequestTimeout :: int
  cf_HTTPIdleTimeout :: int

definition millis :: int where "millis = 10 ^ 6"
definition secs :: int where "secs = 1000 * millis"
definition mins :: int where "mins = 60 * secs"

definition errorsFor :: "string \<Rightarrow> string \<Rightarrow> string" where
  "errorsFor name message = ''invalid '' @ name @ '': '' @ message"

definition env_or :: "(string \<Rightarrow> string) \<Rightarrow> string \<Rightarrow> string \<Rightarrow> string" where
  "env_or getenv key fallback = (let value = TrimSpace (getenv key) in if value = [] then fallback else value)"

text \<open>The words are ASCII and no other letter becomes one of theirs in lower case, so that lowering bytes decides the same.\<close>

definition boolEnv :: "(string \<Rightarrow> string) \<Rightarrow> string \<Rightarrow> bool \<Rightarrow> bool" where
  "boolEnv getenv key fallback =
     (let value = map lower_byte (TrimSpace (getenv key)) in
      if value \<in> set [''1'', ''true'', ''yes'', ''on''] then True
      else if value \<in> set [''0'', ''false'', ''no'', ''off''] then False
      else fallback)"

definition intEnv :: "(string \<Rightarrow> string) \<Rightarrow> string \<Rightarrow> int \<Rightarrow> (string, int) result" where
  "intEnv getenv key fallback =
     (let value = TrimSpace (getenv key) in
      if value = [] then Inr fallback
      else (case Atoi value of None \<Rightarrow> Inl (errorsFor key ''must be an integer'') | Some parsed \<Rightarrow> Inr parsed))"

definition durationEnv :: "(int \<Rightarrow> int \<Rightarrow> nat \<Rightarrow> int) \<Rightarrow> (string \<Rightarrow> string) \<Rightarrow> string \<Rightarrow> int \<Rightarrow> (string, int) result" where
  "durationEnv fraction getenv key fallback =
     (let value = TrimSpace (getenv key) in
      if value = [] then Inr fallback
      else (case ParseDuration fraction value of
          None \<Rightarrow> Inl (errorsFor key ''must be a Go duration such as 2s or 5m'')
        | Some parsed \<Rightarrow> Inr parsed))"

definition adminCredentials :: "(string \<Rightarrow> string) \<Rightarrow> string \<times> string" where
  "adminCredentials getenv =
     (let email = getenv ''ADMIN_EMAIL''; password = getenv ''ADMIN_PASSWORD'' in
      if email \<noteq> [] \<or> password \<noteq> [] then (email, password)
      else (getenv ''OWNER_EMAIL'', getenv ''OWNER_PASSWORD''))"

text \<open>Go ranges over a map in no fixed order: \<open>ranging\<close> is the order of this run.\<close>

definition Validate :: "((string \<times> int) list \<Rightarrow> (string \<times> int) list) \<Rightarrow> Config \<Rightarrow> (string, unit) result" where
  "Validate ranging c =
     (if cf_AppMaxInstances c < 1 then Inl (errorsFor ''APP_MAX_INSTANCES'' ''must be at least 1'')
      else if cf_DBMaxConnections c < 1 then Inl (errorsFor ''DB_MAX_CONNECTIONS'' ''must be at least 1'')
      else if cf_DBConnectionAllowance c < 2 then Inl (errorsFor ''DB_CONNECTION_ALLOWANCE'' ''must be at least 2'')
      else if cf_DBReservedConnections c < 1 \<or> cf_DBReservedConnections c \<ge> cf_DBConnectionAllowance c then
        Inl (errorsFor ''DB_RESERVED_CONNECTIONS'' ''must be at least 1 and below DB_CONNECTION_ALLOWANCE'')
      else
        let available = cf_DBConnectionAllowance c - cf_DBReservedConnections c in
        if cf_AppMaxInstances c > available div cf_DBMaxConnections c then
          Inl (''unsafe database capacity: APP_MAX_INSTANCES x DB_MAX_CONNECTIONS exceeds the '' @ Itoa available
            @ '' connections available after the reserve'')
        else (case List.find (\<lambda>(name, value). value < millis)
            (ranging [(''DB_ACQUIRE_TIMEOUT'', cf_DBAcquireTimeout c),
              (''DB_STATEMENT_TIMEOUT'', cf_DBStatementTimeout c),
              (''DB_IDLE_TRANSACTION_TIMEOUT'', cf_DBIdleTransactionTimeout c),
              (''DB_MAX_CONNECTION_IDLE_TIME'', cf_DBMaxConnectionIdleTime c),
              (''DB_MAX_CONNECTION_LIFETIME'', cf_DBMaxConnectionLifetime c),
              (''REQUEST_TIMEOUT'', cf_RequestTimeout c),
              (''HTTP_IDLE_TIMEOUT'', cf_HTTPIdleTimeout c)]) of
            Some (name, _) \<Rightarrow> Inl (errorsFor name ''must be at least 1ms'')
          | None \<Rightarrow>
              if cf_DBAcquireTimeout c \<ge> cf_RequestTimeout c then
                Inl (errorsFor ''DB_ACQUIRE_TIMEOUT'' ''must be shorter than REQUEST_TIMEOUT'')
              else if cf_DBStatementTimeout c \<ge> cf_RequestTimeout c then
                Inl (errorsFor ''DB_STATEMENT_TIMEOUT'' ''must be shorter than REQUEST_TIMEOUT'')
              else Inr ()))"

text \<open>The conversion \<open>int32(x)\<close> of a 64-bit integer.\<close>

definition to_int32 :: "int \<Rightarrow> int" where
  "to_int32 x = (x + 2 ^ 31) mod 2 ^ 32 - 2 ^ 31"

definition FromEnv ::
  "(int \<Rightarrow> int \<Rightarrow> nat \<Rightarrow> int) \<Rightarrow> ((string \<times> int) list \<Rightarrow> (string \<times> int) list) \<Rightarrow> (string \<Rightarrow> string) \<Rightarrow> (string, Config) result" where
  "FromEnv fraction ranging getenv =
     (let (adminEmail, adminPassword) = adminCredentials getenv in
      rbind (intEnv getenv ''APP_MAX_INSTANCES'' 4) (\<lambda>appMaxInstances.
      rbind (intEnv getenv ''DB_MAX_CONNECTIONS'' 2) (\<lambda>dbMaxConnections.
      rbind (require (dbMaxConnections \<le> 2 ^ 31 - 1) (errorsFor ''DB_MAX_CONNECTIONS'' ''is too large'')) (\<lambda>_.
      rbind (intEnv getenv ''DB_CONNECTION_ALLOWANCE'' 25) (\<lambda>dbConnectionAllowance.
      rbind (intEnv getenv ''DB_RESERVED_CONNECTIONS'' 9) (\<lambda>dbReservedConnections.
      rbind (durationEnv fraction getenv ''DB_ACQUIRE_TIMEOUT'' (2 * secs)) (\<lambda>dbAcquireTimeout.
      rbind (durationEnv fraction getenv ''DB_STATEMENT_TIMEOUT'' (10 * secs)) (\<lambda>dbStatementTimeout.
      rbind (durationEnv fraction getenv ''DB_IDLE_TRANSACTION_TIMEOUT'' (10 * secs)) (\<lambda>dbIdleTransactionTimeout.
      rbind (durationEnv fraction getenv ''DB_MAX_CONNECTION_IDLE_TIME'' (5 * mins)) (\<lambda>dbMaxConnectionIdleTime.
      rbind (durationEnv fraction getenv ''DB_MAX_CONNECTION_LIFETIME'' (30 * mins)) (\<lambda>dbMaxConnectionLifetime.
      rbind (durationEnv fraction getenv ''REQUEST_TIMEOUT'' (15 * secs)) (\<lambda>requestTimeout.
      rbind (durationEnv fraction getenv ''HTTP_IDLE_TIMEOUT'' (60 * secs)) (\<lambda>httpIdleTimeout.
        let cfg =
          \<lparr>cf_Port = env_or getenv ''PORT'' ''8080'',
           cf_DatabaseURL = TrimSpace (getenv ''DATABASE_URL''),
           cf_SessionSecret = getenv ''SESSION_SECRET'',
           cf_CookieSecure = boolEnv getenv ''COOKIE_SECURE'' True,
           cf_StaticDir = getenv ''STATIC_DIR'',
           cf_AdminEmail = adminEmail,
           cf_AdminPassword = adminPassword,
           cf_InviteCode = getenv ''INVITE_CODE'',
           cf_AppBaseURL = env_or getenv ''APP_BASE_URL'' ''https://slate.do'',
           cf_ResendAPIKey = TrimSpace (getenv ''RESEND_API_KEY''),
           cf_ResendFrom = TrimSpace (getenv ''RESEND_FROM''),
           cf_AppMaxInstances = appMaxInstances,
           cf_DBMaxConnections = to_int32 dbMaxConnections,
           cf_DBConnectionAllowance = dbConnectionAllowance,
           cf_DBReservedConnections = dbReservedConnections,
           cf_DBAcquireTimeout = dbAcquireTimeout,
           cf_DBStatementTimeout = dbStatementTimeout,
           cf_DBIdleTransactionTimeout = dbIdleTransactionTimeout,
           cf_DBMaxConnectionIdleTime = dbMaxConnectionIdleTime,
           cf_DBMaxConnectionLifetime = dbMaxConnectionLifetime,
           cf_RequestTimeout = requestTimeout,
           cf_HTTPIdleTimeout = httpIdleTimeout\<rparr> in
        rbind (Validate ranging cfg) (\<lambda>_. Inr cfg))))))))))))))"

subsection \<open>What a checked configuration guarantees\<close>

lemma Validate_InrD:
  assumes "Validate ranging c = Inr u"
  shows "1 \<le> cf_AppMaxInstances c" "1 \<le> cf_DBMaxConnections c"
    "1 \<le> cf_DBReservedConnections c" "cf_DBReservedConnections c < cf_DBConnectionAllowance c"
    "cf_AppMaxInstances c \<le> (cf_DBConnectionAllowance c - cf_DBReservedConnections c) div cf_DBMaxConnections c"
    "cf_DBAcquireTimeout c < cf_RequestTimeout c" "cf_DBStatementTimeout c < cf_RequestTimeout c"
  using assms by (auto simp: Validate_def Let_def split: if_splits option.splits)

lemma Validate_capacity:
  assumes "Validate ranging c = Inr u"
  shows "cf_AppMaxInstances c * cf_DBMaxConnections c \<le> cf_DBConnectionAllowance c - cf_DBReservedConnections c"
proof -
  let ?available = "cf_DBConnectionAllowance c - cf_DBReservedConnections c"
  have "cf_AppMaxInstances c * cf_DBMaxConnections c \<le> ?available div cf_DBMaxConnections c * cf_DBMaxConnections c"
    using Validate_InrD [OF assms] by (intro mult_right_mono) auto
  also have "\<dots> \<le> ?available"
    using Validate_InrD(2) [OF assms] by (simp add: minus_mod_eq_div_mult [symmetric])
  finally show ?thesis .
qed

lemma FromEnv_valid: "FromEnv fraction ranging getenv = Inr c \<Longrightarrow> Validate ranging c = Inr ()"
  unfolding FromEnv_def Let_def by (auto split: prod.splits elim!: rbind_elims)

text \<open>A number of connections below the 32-bit range is not refused: it wraps to one that is allowed.\<close>

definition negative_pool_size :: "string \<Rightarrow> string" where
  "negative_pool_size key = (if key = ''DB_MAX_CONNECTIONS'' then ''-4294967294'' else [])"

lemma negative_pool_size_wraps:
  "map_sum id cf_DBMaxConnections (FromEnv fraction id negative_pool_size) = Inr 2"
proof -
  let ?env = negative_pool_size
  have "Atoi ''-4294967294'' = Some (- 4294967294)"
    by (simp add: Atoi_def number_value_def digit_def digit_value_def less_eq_char_def)
  moreover have "TrimSpace (?env ''DB_MAX_CONNECTIONS'') = ''-4294967294''" by code_simp
  ultimately have pool: "intEnv ?env ''DB_MAX_CONNECTIONS'' n = Inr (- 4294967294)" for n by (simp add: intEnv_def)
  have "TrimSpace [] = []" by code_simp
  then have blank: "key \<noteq> ''DB_MAX_CONNECTIONS'' \<Longrightarrow> TrimSpace (?env key) = []" for key
    by (simp add: negative_pool_size_def)
  have numbers: "key \<noteq> ''DB_MAX_CONNECTIONS'' \<Longrightarrow> intEnv ?env key n = Inr n" for key n
    using blank by (simp add: intEnv_def)
  have durations: "key \<noteq> ''DB_MAX_CONNECTIONS'' \<Longrightarrow> durationEnv fraction ?env key n = Inr n" for key n
    using blank by (simp add: durationEnv_def)
  show ?thesis
    by (simp add: FromEnv_def pool numbers durations Let_def Validate_def to_int32_def mins_def secs_def millis_def require_def
        split: prod.splits)
qed

end
