(* ===== verification/Capacity.thy ===== *)
theory Capacity
  imports Config Systems Authenticate
begin

section \<open>Database connections (database/database.go)\<close>

text \<open>
  Every server process keeps a pool of connections. A new connection of a serving process takes
  one of a fixed number of slots, an advisory lock that it holds until it closes. The section
  models the pool's settings, the slots, the way a connection is lent to a transaction or a
  query and given back, and the errors that count as a lack of capacity.
\<close>

subsection \<open>Options\<close>

definition advisoryLockNamespace :: int where "advisoryLockNamespace = 1397506388"

record Options =
  po_MaxConnections :: int
  po_AcquireTimeout :: int
  po_StatementTimeout :: int
  po_IdleTransactionTimeout :: int
  po_MaxConnectionIdleTime :: int
  po_MaxConnectionLifetime :: int
  po_ConnectionLimit :: int
  po_ConnectionLockNamespace :: int

definition defaultOptions :: Options where
  "defaultOptions =
     \<lparr>po_MaxConnections = 4, po_AcquireTimeout = 2 * secs, po_StatementTimeout = 10 * secs,
      po_IdleTransactionTimeout = 10 * secs, po_MaxConnectionIdleTime = 5 * mins,
      po_MaxConnectionLifetime = 30 * mins, po_ConnectionLimit = 0, po_ConnectionLockNamespace = 0\<rparr>"

text \<open>\<open>Duration.Milliseconds\<close> divides towards zero.\<close>

definition milliseconds :: "int \<Rightarrow> string" where
  "milliseconds duration = Itoa (sgn duration * (\<bar>duration\<bar> div millis))"

text \<open>What \<open>Open\<close> writes into the configuration of the connection pool.\<close>

record pool_config =
  pc_MaxConns :: int
  pc_MaxConnIdleTime :: int
  pc_MaxConnLifetime :: int
  pc_ConnectTimeout :: int
  pc_RuntimeParams :: "(string \<times> string) list"

definition pool_config :: "Options \<Rightarrow> pool_config" where
  "pool_config options =
     \<lparr>pc_MaxConns = po_MaxConnections options, pc_MaxConnIdleTime = po_MaxConnectionIdleTime options,
      pc_MaxConnLifetime = po_MaxConnectionLifetime options, pc_ConnectTimeout = po_AcquireTimeout options,
      pc_RuntimeParams =
        [(''statement_timeout'', milliseconds (po_StatementTimeout options)),
         (''idle_in_transaction_session_timeout'', milliseconds (po_IdleTransactionTimeout options))]\<rparr>"

subsection \<open>Connections and slots\<close>

text \<open>
  A connection that is open belongs to a process and holds at most one advisory lock, a
  namespace and a slot; the lock goes when the connection does. A fleet is the processes that
  use one database, each with the options of its pool, and their open connections.
\<close>

record connection =
  cn_process :: nat
  cn_lock :: "(int \<times> int) option"

record fleet =
  fl_pools :: "(nat \<times> Options) list"
  fl_open :: "connection list"

datatype open_error = ErrCapacity | BadURL string | DialFailed string | LimitTooLarge

definition slot_taken :: "connection list \<Rightarrow> int \<Rightarrow> int \<Rightarrow> bool" where
  "slot_taken conns namespace slot \<longleftrightarrow> Some (namespace, slot) \<in> set (map cn_lock conns)"

definition lock_namespace :: "Options \<Rightarrow> int" where
  "lock_namespace options =
     (if po_ConnectionLockNamespace options = 0 then advisoryLockNamespace else po_ConnectionLockNamespace options)"

text \<open>
  The first slot of the series that \<open>pg_try_advisory_lock\<close> grants. The limit is sent as an
  \<open>integer\<close> of the database; the driver does not encode a larger one.
\<close>

definition AfterConnect :: "Options \<Rightarrow> connection list \<Rightarrow> (open_error, (int \<times> int) option) result" where
  "AfterConnect options conns =
     (if po_ConnectionLimit options > 0 then
        (if po_ConnectionLimit options > 2 ^ 31 - 1 then Inl LimitTooLarge
         else case List.find (\<lambda>slot. \<not> slot_taken conns (lock_namespace options) slot) [0..po_ConnectionLimit options - 1] of
           None \<Rightarrow> Inl ErrCapacity
         | Some slot \<Rightarrow> Inr (Some (lock_namespace options, slot)))
      else Inr None)"

text \<open>A new connection of the pool. \<open>dial\<close> is the network's answer; a connection whose \<open>AfterConnect\<close> fails is closed.\<close>

definition connect :: "string option \<Rightarrow> nat \<Rightarrow> Options \<Rightarrow> fleet \<Rightarrow> (open_error, fleet) result" where
  "connect dial p options f =
     (case dial of
        Some message \<Rightarrow> Inl (DialFailed message)
      | None \<Rightarrow> rbind (AfterConnect options (fl_open f)) (\<lambda>lock.
          Inr (f\<lparr>fl_open := \<lparr>cn_process = p, cn_lock = lock\<rparr> # fl_open f\<rparr>)))"

text \<open>\<open>Open\<close> ends with a \<open>Ping\<close>, for which the pool makes its first connection; if that fails, the pool is closed.\<close>

definition Open :: "string option \<Rightarrow> string option \<Rightarrow> nat \<Rightarrow> Options option \<Rightarrow> fleet \<Rightarrow> (open_error, fleet) result" where
  "Open bad_url dial p supplied f =
     (case bad_url of
        Some message \<Rightarrow> Inl (BadURL message)
      | None \<Rightarrow>
          let options = (case supplied of None \<Rightarrow> defaultOptions | Some options \<Rightarrow> options) in
          connect dial p options (f\<lparr>fl_pools := (p, options) # fl_pools f\<rparr>))"

subsection \<open>The processes of a deployment\<close>

text \<open>The options of \<open>serve\<close> and of \<open>openDB\<close>, which the other commands use.\<close>

definition serve_options :: "Config \<Rightarrow> Options" where
  "serve_options cfg =
     \<lparr>po_MaxConnections = cf_DBMaxConnections cfg, po_AcquireTimeout = cf_DBAcquireTimeout cfg,
      po_StatementTimeout = cf_DBStatementTimeout cfg, po_IdleTransactionTimeout = cf_DBIdleTransactionTimeout cfg,
      po_MaxConnectionIdleTime = cf_DBMaxConnectionIdleTime cfg, po_MaxConnectionLifetime = cf_DBMaxConnectionLifetime cfg,
      po_ConnectionLimit = cf_DBConnectionAllowance cfg - cf_DBReservedConnections cfg, po_ConnectionLockNamespace = 0\<rparr>"

definition openDB_options :: "Config \<Rightarrow> Options" where
  "openDB_options cfg = (serve_options cfg)\<lparr>po_ConnectionLimit := 0\<rparr>"

definition connections_of :: "nat \<Rightarrow> fleet \<Rightarrow> int" where
  "connections_of p f = count_where (\<lambda>c. cn_process c = p) (fl_open f)"

text \<open>
  Serving processes and commands come and go, and there may be more serving processes than
  \<open>APP_MAX_INSTANCES\<close>, a bound that the platform does not keep at all times. A pool opens no more
  connections than its maximum, which is what the library promises of \<open>MaxConns\<close>. Connections
  close for any reason at any time.
\<close>

definition serving :: "Config \<Rightarrow> fleet \<Rightarrow> nat list" where
  "serving cfg f = map fst (filter (\<lambda>(p, options). options = serve_options cfg) (fl_pools f))"

inductive fleet_step :: "Config \<Rightarrow> fleet \<Rightarrow> fleet \<Rightarrow> bool" for cfg where
  serve_starts: "p \<notin> fst ` set (fl_pools f) \<Longrightarrow>
    Open bad_url dial p (Some (serve_options cfg)) f = Inr f' \<Longrightarrow> fleet_step cfg f f'"
| command_starts: "p \<notin> fst ` set (fl_pools f) \<Longrightarrow>
    Open bad_url dial p (Some (openDB_options cfg)) f = Inr f' \<Longrightarrow> fleet_step cfg f f'"
| connects: "(p, options) \<in> set (fl_pools f) \<Longrightarrow> connections_of p f < po_MaxConnections options \<Longrightarrow>
    connect dial p options f = Inr f' \<Longrightarrow> fleet_step cfg f f'"
| closes: "fleet_step cfg f (f\<lparr>fl_open := remove1 c (fl_open f)\<rparr>)"
| stops: "fleet_step cfg f (f\<lparr>fl_pools := filter (\<lambda>(q, _). q \<noteq> p) (fl_pools f), fl_open := filter (\<lambda>c. cn_process c \<noteq> p) (fl_open f)\<rparr>)"

definition no_fleet :: "fleet \<Rightarrow> bool" where
  "no_fleet f \<longleftrightarrow> fl_pools f = [] \<and> fl_open f = []"

subsection \<open>Lending connections\<close>

text \<open>
  What the pool has lent, and a loan, which knows whether it has been given back. \<open>once\<close> is the
  guard of \<open>sync.Once\<close> around \<open>Release\<close>.
\<close>

record pool_use =
  pu_lent :: int

datatype loan = Loan bool

fun once_release :: "loan \<Rightarrow> pool_use \<Rightarrow> loan \<times> pool_use" where
  "once_release (Loan released) u =
     (if released then (Loan released, u) else (Loan True, u\<lparr>pu_lent := pu_lent u - 1\<rparr>))"

text \<open>\<open>acquire\<close> waits at most the timeout, unless there is none; its answer is that of the library's pool.\<close>

definition acquire_wait :: "Options \<Rightarrow> int option" where
  "acquire_wait options = (if po_AcquireTimeout options \<le> 0 then None else Some (po_AcquireTimeout options))"

definition acquire :: "'e option \<Rightarrow> pool_use \<Rightarrow> ('e, loan \<times> pool_use) result" where
  "acquire refused u = (case refused of Some err \<Rightarrow> Inl err | None \<Rightarrow> Inr (Loan False, u\<lparr>pu_lent := pu_lent u + 1\<rparr>))"

definition Release :: "pool_use \<Rightarrow> pool_use" where
  "Release u = u\<lparr>pu_lent := pu_lent u - 1\<rparr>"

text \<open>
  \<open>Begin\<close> and \<open>Query\<close> give the loan to their result unless the statement fails; \<open>Exec\<close> and \<open>Ping\<close>
  give it back; \<open>QueryRow\<close> leaves it with the row, or has no loan at all.
\<close>

definition Begin :: "'e option \<Rightarrow> 'e option \<Rightarrow> pool_use \<Rightarrow> ('e, loan) result \<times> pool_use" where
  "Begin refused failed u =
     (case acquire refused u of
        Inl err \<Rightarrow> (Inl err, u)
      | Inr (loan, u1) \<Rightarrow> (case failed of Some err \<Rightarrow> (Inl err, Release u1) | None \<Rightarrow> (Inr loan, u1)))"

definition Query :: "'e option \<Rightarrow> 'e option \<Rightarrow> pool_use \<Rightarrow> ('e, loan) result \<times> pool_use" where
  "Query refused failed u =
     (case acquire refused u of
        Inl err \<Rightarrow> (Inl err, u)
      | Inr (loan, u1) \<Rightarrow> (case failed of Some err \<Rightarrow> (Inl err, Release u1) | None \<Rightarrow> (Inr loan, u1)))"

definition Exec :: "'e option \<Rightarrow> 'e option \<Rightarrow> pool_use \<Rightarrow> ('e, unit) result \<times> pool_use" where
  "Exec refused failed u =
     (case acquire refused u of
        Inl err \<Rightarrow> (Inl err, u)
      | Inr (loan, u1) \<Rightarrow> (case failed of Some err \<Rightarrow> Inl err | None \<Rightarrow> Inr (), Release u1))"

definition Ping :: "'e option \<Rightarrow> 'e option \<Rightarrow> pool_use \<Rightarrow> ('e, unit) result \<times> pool_use" where
  "Ping refused failed u =
     (case acquire refused u of
        Inl err \<Rightarrow> (Inl err, u)
      | Inr (loan, u1) \<Rightarrow> (case failed of Some err \<Rightarrow> Inl err | None \<Rightarrow> Inr (), Release u1))"

definition QueryRow :: "'e option \<Rightarrow> pool_use \<Rightarrow> ('e, loan) result \<times> pool_use" where
  "QueryRow refused u = (case acquire refused u of Inl err \<Rightarrow> (Inl err, u) | Inr (loan, u1) \<Rightarrow> (Inr loan, u1))"

text \<open>What the code does with a transaction, with rows or with a row. \<open>Next\<close> carries the answer of the library.\<close>

datatype loan_use = Next bool | Close | Scan | Commit | Rollback

fun use_loan :: "loan_use \<Rightarrow> loan \<times> pool_use \<Rightarrow> loan \<times> pool_use" where
  "use_loan (Next again) (loan, u) = (if \<not> again then once_release loan u else (loan, u))"
| "use_loan Close (loan, u) = once_release loan u"
| "use_loan Scan (loan, u) = once_release loan u"
| "use_loan Commit (loan, u) = once_release loan u"
| "use_loan Rollback (loan, u) = once_release loan u"

subsection \<open>Lack of capacity\<close>

text \<open>What \<open>errors.Is\<close> and \<open>errors.As\<close> find in an error: a deadline, \<open>ErrCapacity\<close>, a network error that timed out, a code of the database.\<close>

record go_error =
  ge_deadline :: bool
  ge_capacity :: bool
  ge_network :: "bool option"
  ge_code :: "string option"

definition IsCapacityError :: "go_error \<Rightarrow> bool" where
  "IsCapacityError err =
     (if ge_deadline err \<or> ge_capacity err then True
      else if ge_network err = Some True then True
      else (case ge_code err of
          None \<Rightarrow> False
        | Some code \<Rightarrow>
            if length code \<ge> 2 \<and> (take 2 code = ''08'' \<or> take 2 code = ''53'') then True
            else code \<in> set [''25P03'', ''57014'', ''57P01'', ''57P02'', ''57P03'', ''57P05'']))"

definition WriteServiceUnavailable :: "go_error \<Rightarrow> response option" where
  "WriteServiceUnavailable err =
     (if \<not> IsCapacityError err then None
      else Some (writeCodedError 503 ''service_unavailable'' ''Service capacity is temporarily unavailable.''))"

end
