(* ===== verification/CapacityRules.thy ===== *)
theory CapacityRules
  imports Capacity
begin

section \<open>A checked configuration never exhausts the database\<close>

text \<open>
  The serving processes of a deployment with a valid configuration stay below the connections
  it allows them, however many there are, and while there are no more than configured none of
  them is refused a slot. A connection that is lent comes back once. The invariant relates
  processes, connections and slots.
\<close>

subsection \<open>The invariant of a fleet\<close>

definition safe_config :: "Config \<Rightarrow> bool" where
  "safe_config cfg \<longleftrightarrow> 1 \<le> cf_AppMaxInstances cfg \<and> 1 \<le> cf_DBMaxConnections cfg
     \<and> cf_DBReservedConnections cfg < cf_DBConnectionAllowance cfg
     \<and> cf_AppMaxInstances cfg * cf_DBMaxConnections cfg \<le> cf_DBConnectionAllowance cfg - cf_DBReservedConnections cfg"

lemma Validate_safe: "Validate ranging cfg = Inr u \<Longrightarrow> safe_config cfg"
  using Validate_InrD [of ranging cfg u] Validate_capacity [of ranging cfg u] by (simp add: safe_config_def)

definition slot_limit :: "Config \<Rightarrow> int" where
  "slot_limit cfg = cf_DBConnectionAllowance cfg - cf_DBReservedConnections cfg"

definition good_lock :: "Config \<Rightarrow> int \<times> int \<Rightarrow> bool" where
  "good_lock cfg l \<longleftrightarrow> fst l = advisoryLockNamespace \<and> 0 \<le> snd l \<and> snd l < slot_limit cfg"

definition pool_of :: "Config \<Rightarrow> connection \<Rightarrow> Options" where
  "pool_of cfg c = (if cn_lock c = None then openDB_options cfg else serve_options cfg)"

definition locks :: "connection list \<Rightarrow> (int \<times> int) list" where
  "locks conns = List.map_filter cn_lock conns"

definition fleet_ok :: "Config \<Rightarrow> fleet \<Rightarrow> bool" where
  "fleet_ok cfg f \<longleftrightarrow>
     distinct (map fst (fl_pools f))
     \<and> snd ` set (fl_pools f) \<subseteq> {serve_options cfg, openDB_options cfg}
     \<and> distinct (locks (fl_open f)) \<and> (\<forall>l \<in> set (locks (fl_open f)). good_lock cfg l)
     \<and> (\<forall>c \<in> set (fl_open f). (cn_process c, pool_of cfg c) \<in> set (fl_pools f))
     \<and> (\<forall>p. connections_of p f \<le> cf_DBMaxConnections cfg)"

lemma max_connections [simp]:
  "po_MaxConnections (serve_options cfg) = cf_DBMaxConnections cfg"
  "po_MaxConnections (openDB_options cfg) = cf_DBMaxConnections cfg"
  by (simp_all add: serve_options_def openDB_options_def)

lemma locks_simps [simp]:
  "locks [] = []" "locks (c # cs) = (case cn_lock c of None \<Rightarrow> locks cs | Some l \<Rightarrow> l # locks cs)"
  by (simp_all add: locks_def List.map_filter_def split: option.splits)

lemma set_locks: "l \<in> set (locks conns) \<longleftrightarrow> Some l \<in> cn_lock ` set conns"
  by (induction conns) (auto split: option.splits)

lemma set_locks_mono: "set conns' \<subseteq> set conns \<Longrightarrow> set (locks conns') \<subseteq> set (locks conns)"
  unfolding subset_iff set_locks by blast

lemma distinct_locks_remove: "distinct (locks conns) \<Longrightarrow> distinct (locks (remove1 c conns))"
proof (induction conns)
  case (Cons d conns)
  then show ?case using set_locks_mono [OF set_remove1_subset, of c conns] by (auto split: option.splits)
qed simp

lemma distinct_locks_filter: "distinct (locks conns) \<Longrightarrow> distinct (locks (filter P conns))"
proof (induction conns)
  case (Cons d conns)
  then show ?case using set_locks_mono [OF filter_is_subset, of P conns] by (auto split: option.splits)
qed simp

subsection \<open>Every step keeps it\<close>

lemma find_slot: "List.find P [0..n - 1] = Some (s :: int) \<Longrightarrow> 0 \<le> s \<and> s < n \<and> P s"
  by (auto dest!: find_SomeD)

lemma AfterConnect_serve:
  assumes "safe_config cfg" and "AfterConnect (serve_options cfg) conns = Inr lock"
  shows "\<exists>l. lock = Some l \<and> good_lock cfg l \<and> l \<notin> set (locks conns)"
  using assms find_slot [of _ "slot_limit cfg"]
  by (auto simp: AfterConnect_def serve_options_def safe_config_def lock_namespace_def good_lock_def slot_limit_def
      slot_taken_def set_locks split: option.splits if_splits)

lemma AfterConnect_command: "AfterConnect (openDB_options cfg) conns = Inr lock \<Longrightarrow> lock = None"
  by (simp add: AfterConnect_def openDB_options_def)

lemma connect_InrD:
  "connect dial p options f = Inr f' \<Longrightarrow>
    \<exists>lock. AfterConnect options (fl_open f) = Inr lock \<and> f' = f\<lparr>fl_open := \<lparr>cn_process = p, cn_lock = lock\<rparr> # fl_open f\<rparr>"
  by (auto simp: connect_def split: option.splits elim!: rbind_InrE)

lemma connections_of_Cons [simp]:
  "connections_of p (f\<lparr>fl_open := c # fl_open f\<rparr>) = (if cn_process c = p then 1 else 0) + connections_of p f"
  by (simp add: connections_of_def)

lemma serving_open [simp]: "serving cfg (f\<lparr>fl_open := cs\<rparr>) = serving cfg f"
  by (simp add: serving_def)

lemma connections_of_pools [simp]: "connections_of p (f\<lparr>fl_pools := ps\<rparr>) = connections_of p f"
  by (simp add: connections_of_def)

lemma pool_options:
  "fleet_ok cfg f \<Longrightarrow> (p, options) \<in> set (fl_pools f) \<Longrightarrow> options = serve_options cfg \<or> options = openDB_options cfg"
  by (force simp: fleet_ok_def)

lemma connect_ok:
  assumes safe: "safe_config cfg" and ok: "fleet_ok cfg f" and pool: "(p, options) \<in> set (fl_pools f)"
    and room: "connections_of p f < cf_DBMaxConnections cfg" and run: "connect dial p options f = Inr f'"
  shows "fleet_ok cfg f'"
proof -
  obtain lock where lock: "AfterConnect options (fl_open f) = Inr lock"
    and f': "f' = f\<lparr>fl_open := \<lparr>cn_process = p, cn_lock = lock\<rparr> # fl_open f\<rparr>" (is "_ = f\<lparr>fl_open := ?c # _\<rparr>")
    using connect_InrD [OF run] by blast
  have "options = serve_options cfg \<or> options = openDB_options cfg" by (rule pool_options [OF ok pool])
  then have new: "(\<exists>l. lock = Some l \<and> good_lock cfg l \<and> l \<notin> set (locks (fl_open f)) \<and> pool_of cfg ?c = options)
      \<or> lock = None \<and> pool_of cfg ?c = options"
    using AfterConnect_serve [OF safe, of "fl_open f" lock] AfterConnect_command [of cfg "fl_open f" lock] lock
    by (auto simp: pool_of_def)
  have few: "connections_of q f' \<le> cf_DBMaxConnections cfg" for q
    using ok room by (auto simp: fleet_ok_def f')
  show ?thesis using ok pool new few by (auto simp: fleet_ok_def f')
qed

lemma fresh_pool_ok:
  assumes "fleet_ok cfg f" and "p \<notin> fst ` set (fl_pools f)" and "options \<in> {serve_options cfg, openDB_options cfg}"
    and "0 \<le> cf_DBMaxConnections cfg"
  shows "fleet_ok cfg (f\<lparr>fl_pools := (p, options) # fl_pools f\<rparr>)" "connections_of p f = 0"
proof -
  have none: "cn_process c \<noteq> p" if "c \<in> set (fl_open f)" for c
    using that assms(1,2) by (force simp: fleet_ok_def)
  then show 0: "connections_of p f = 0" by (simp add: connections_of_def count_where_def filter_False)
  show "fleet_ok cfg (f\<lparr>fl_pools := (p, options) # fl_pools f\<rparr>)"
    using assms 0 by (auto simp: fleet_ok_def serving_def)
qed

lemma Open_ok:
  assumes safe: "safe_config cfg" and ok: "fleet_ok cfg f" and fresh: "p \<notin> fst ` set (fl_pools f)"
    and options: "options \<in> {serve_options cfg, openDB_options cfg}"
    and run: "Open bad_url dial p (Some options) f = Inr f'"
  shows "fleet_ok cfg f'"
proof -
  have pos: "0 < cf_DBMaxConnections cfg" using safe by (simp add: safe_config_def)
  note added = fresh_pool_ok [OF ok fresh options less_imp_le [OF pos]]
  show ?thesis
  proof (rule connect_ok [OF safe added(1)])
    show "connect dial p options (f\<lparr>fl_pools := (p, options) # fl_pools f\<rparr>) = Inr f'"
      using run by (simp add: Open_def split: option.splits)
  qed (use added(2) pos in simp_all)
qed

lemma count_remove1: "count_where Q (remove1 c xs) \<le> count_where Q xs"
  by (induction xs) auto

lemma count_filter: "count_where Q (filter P xs) \<le> count_where Q xs"
  by (induction xs) auto

lemma length_filter_filter: "length (filter P (filter Q xs)) \<le> length (filter P xs)"
  by (induction xs) auto

lemma closes_ok:
  assumes ok: "fleet_ok cfg f" and conns: "conns = remove1 c (fl_open f) \<or> conns = filter P (fl_open f)"
  shows "fleet_ok cfg (f\<lparr>fl_open := conns\<rparr>)"
proof -
  have sub: "set conns \<subseteq> set (fl_open f)" using conns set_remove1_subset [of c "fl_open f"] by auto
  have "distinct (locks conns)"
    using conns ok distinct_locks_remove distinct_locks_filter by (auto simp: fleet_ok_def)
  moreover have "connections_of p (f\<lparr>fl_open := conns\<rparr>) \<le> connections_of p f" for p
    using conns count_remove1 [of "\<lambda>d. cn_process d = p" c] count_filter [of "\<lambda>d. cn_process d = p" P]
    by (auto simp: connections_of_def)
  ultimately show ?thesis
    using ok sub set_locks_mono [OF sub] unfolding fleet_ok_def serving_open by (simp, meson order_trans subsetD)
qed

lemma stops_ok:
  assumes ok: "fleet_ok cfg f"
  shows "fleet_ok cfg (f\<lparr>fl_pools := filter (\<lambda>(q, _). q \<noteq> p) (fl_pools f), fl_open := filter (\<lambda>c. cn_process c \<noteq> p) (fl_open f)\<rparr>)"
    (is "fleet_ok cfg (f\<lparr>fl_pools := ?pools, fl_open := ?conns\<rparr>)")
proof -
  have kept: "fleet_ok cfg (f\<lparr>fl_open := ?conns\<rparr>)" by (rule closes_ok [OF ok disjI2]) simp
  have "length (serving cfg (f\<lparr>fl_pools := ?pools\<rparr>)) \<le> length (serving cfg f)"
    using length_filter_filter by (simp add: serving_def del: filter_filter)
  moreover have "(cn_process c, pool_of cfg c) \<in> set ?pools" if "c \<in> set ?conns" for c
    using that ok by (auto simp: fleet_ok_def)
  ultimately show ?thesis
    using kept by (auto simp: fleet_ok_def distinct_map_filter serving_def connections_of_def)
qed

lemma fleet_step_ok:
  assumes "fleet_step cfg f f'" and safe: "safe_config cfg" and ok: "fleet_ok cfg f"
  shows "fleet_ok cfg f'"
  using assms(1)
proof cases
  case (serve_starts p bad_url dial)
  then show ?thesis by (intro Open_ok [OF safe ok serve_starts(1) _ serve_starts(2)]) simp_all
next
  case (command_starts p bad_url dial)
  then show ?thesis by (intro Open_ok [OF safe ok command_starts(1) _ command_starts(2)]) simp_all
next
  case (connects p options dial)
  have "po_MaxConnections options = cf_DBMaxConnections cfg" using pool_options [OF ok connects(1)] by auto
  with connects show ?thesis by (intro connect_ok [OF safe ok connects(1) _ connects(3)]) simp
next
  case (closes c)
  then show ?thesis using closes_ok [OF ok] by blast
next
  case (stops p)
  then show ?thesis using stops_ok [OF ok] by blast
qed

interpretation deployment: invariant_system no_fleet "fleet_step cfg" "\<lambda>f. safe_config cfg \<longrightarrow> fleet_ok cfg f" for cfg
proof
  show "no_fleet f \<Longrightarrow> safe_config cfg \<longrightarrow> fleet_ok cfg f" for f
    by (auto simp: no_fleet_def fleet_ok_def serving_def safe_config_def connections_of_def)
  show "safe_config cfg \<longrightarrow> fleet_ok cfg f \<Longrightarrow> fleet_step cfg f f' \<Longrightarrow> safe_config cfg \<longrightarrow> fleet_ok cfg f'" for f f'
    using fleet_step_ok by blast
qed

subsection \<open>There is always a free slot\<close>

lemma count_by_key:
  "distinct ks \<Longrightarrow> count_where (\<lambda>x. k x \<in> set ks) xs = sum_list (map (\<lambda>p. count_where (\<lambda>x. k x = p) xs) ks)"
proof (induction ks)
  case (Cons a ks)
  have "count_where (\<lambda>x. k x \<in> set (a # ks)) xs = count_where (\<lambda>x. k x = a) xs + count_where (\<lambda>x. k x \<in> set ks) xs"
    using Cons.prems by (induction xs) auto
  with Cons show ?case by simp
qed (simp add: count_where_def)

lemma sum_below:
  "\<forall>q \<in> set ks. g q \<le> (m :: int) \<Longrightarrow> sum_list (map g ks) \<le> int (length ks) * m"
  by (induction ks) (auto simp: algebra_simps)

lemma sum_strictly_below:
  "\<forall>q \<in> set ks. g q \<le> (m :: int) \<Longrightarrow> p \<in> set ks \<Longrightarrow> g p < m \<Longrightarrow> sum_list (map g ks) < int (length ks) * m"
proof (induction ks)
  case (Cons a ks)
  show ?case
  proof (cases "p \<in> set ks")
    case True
    then show ?thesis using Cons by (auto simp: algebra_simps)
  next
    case False
    then show ?thesis using Cons.prems sum_below [of ks g m] by (auto simp: algebra_simps)
  qed
qed simp

lemma locks_as_count: "int (length (locks conns)) = count_where (\<lambda>c. cn_lock c \<noteq> None) conns"
  by (induction conns) (auto split: option.splits)

lemma count_where_mono: "(\<And>x. x \<in> set xs \<Longrightarrow> P x \<Longrightarrow> Q x) \<Longrightarrow> count_where P xs \<le> count_where Q xs"
  by (induction xs) auto

lemma few_locks:
  assumes safe: "safe_config cfg" and ok: "fleet_ok cfg f" and pool: "(p, serve_options cfg) \<in> set (fl_pools f)"
    and room: "connections_of p f < cf_DBMaxConnections cfg"
    and few: "int (length (serving cfg f)) \<le> cf_AppMaxInstances cfg"
  shows "int (length (locks (fl_open f))) < slot_limit cfg"
proof -
  let ?ks = "serving cfg f"
  have ks: "distinct ?ks" "\<forall>q \<in> set ?ks. connections_of q f \<le> cf_DBMaxConnections cfg"
    using ok by (simp_all add: fleet_ok_def serving_def distinct_map_filter)
  have p: "p \<in> set ?ks" using pool by (force simp: serving_def)
  have owner: "cn_process c \<in> set ?ks" if "c \<in> set (fl_open f)" "cn_lock c \<noteq> None" for c
  proof -
    have "(cn_process c, serve_options cfg) \<in> set (fl_pools f)" using that ok by (auto simp: fleet_ok_def pool_of_def)
    then show ?thesis by (force simp: serving_def)
  qed
  have "int (length (locks (fl_open f))) \<le> count_where (\<lambda>c. cn_process c \<in> set ?ks) (fl_open f)"
    unfolding locks_as_count by (rule count_where_mono) (rule owner)
  also have "\<dots> = sum_list (map (\<lambda>q. connections_of q f) ?ks)"
    using count_by_key [OF ks(1), of cn_process] by (simp add: connections_of_def)
  also have "\<dots> < int (length ?ks) * cf_DBMaxConnections cfg"
    by (rule sum_strictly_below [where g = "\<lambda>q. connections_of q f", OF ks(2) p room])
  also have "\<dots> \<le> cf_AppMaxInstances cfg * cf_DBMaxConnections cfg"
    using few safe by (intro mult_right_mono) (auto simp: safe_config_def)
  also have "\<dots> \<le> slot_limit cfg" using safe by (simp add: safe_config_def slot_limit_def)
  finally show ?thesis .
qed

lemma card_slots: "card ({advisoryLockNamespace} \<times> {0..<n :: int}) = nat n"
  by (simp add: card_cartesian_product)

lemma locks_bounded:
  assumes ok: "fleet_ok cfg f" and pos: "0 \<le> slot_limit cfg"
  shows "int (length (locks (fl_open f))) \<le> slot_limit cfg"
proof -
  have "set (locks (fl_open f)) \<subseteq> {advisoryLockNamespace} \<times> {0..<slot_limit cfg}"
    using ok unfolding fleet_ok_def good_lock_def by force
  then have "card (set (locks (fl_open f))) \<le> nat (slot_limit cfg)"
    unfolding card_slots [symmetric] by (rule card_mono [rotated]) simp
  moreover have "card (set (locks (fl_open f))) = length (locks (fl_open f))"
    using ok by (intro distinct_card) (simp add: fleet_ok_def)
  ultimately show ?thesis using pos by simp
qed

lemma slots_taken:
  assumes "safe_config cfg" and "slot_limit cfg < 2 ^ 31" and no: "AfterConnect (serve_options cfg) conns = Inl err"
  shows "err = ErrCapacity \<and> slot_limit cfg \<le> int (length (locks conns))"
proof -
  have options: "po_ConnectionLimit (serve_options cfg) = slot_limit cfg" "lock_namespace (serve_options cfg) = advisoryLockNamespace"
    by (simp_all add: serve_options_def slot_limit_def lock_namespace_def)
  have "0 < slot_limit cfg" using assms(1) by (simp add: safe_config_def slot_limit_def)
  then have none: "List.find (\<lambda>slot. \<not> slot_taken conns advisoryLockNamespace slot) [0..slot_limit cfg - 1] = None"
    using no assms(2) by (cases "List.find (\<lambda>slot. \<not> slot_taken conns advisoryLockNamespace slot) [0..slot_limit cfg - 1]")
      (simp_all add: AfterConnect_def options)
  have "(advisoryLockNamespace, s) \<in> set (locks conns)" if "0 \<le> s" "s < slot_limit cfg" for s
    using that none by (simp add: find_None_iff slot_taken_def set_locks)
  then have "{advisoryLockNamespace} \<times> {0..<slot_limit cfg} \<subseteq> set (locks conns)" by auto
  then have "nat (slot_limit cfg) \<le> length (locks conns)"
    unfolding card_slots [symmetric] by (meson card_length card_mono finite_set le_trans)
  moreover have "err = ErrCapacity" using no assms(2) none \<open>0 < slot_limit cfg\<close> by (simp add: AfterConnect_def options)
  ultimately show ?thesis by linarith
qed

lemma connect_serve:
  assumes "safe_config cfg" and "slot_limit cfg < 2 ^ 31"
  shows "(\<exists>f'. connect None p (serve_options cfg) f = Inr f' \<and> connections_of p f' = connections_of p f + 1)
    \<or> connect None p (serve_options cfg) f = Inl ErrCapacity \<and> slot_limit cfg \<le> int (length (locks (fl_open f)))"
  using slots_taken [OF assms, of "fl_open f"]
  by (cases "AfterConnect (serve_options cfg) (fl_open f)") (auto simp: connect_def)


definition ex_config :: Config where
  "ex_config =
     \<lparr>cf_Port = ''8080'', cf_DatabaseURL = ''postgres://db'', cf_SessionSecret = [], cf_CookieSecure = True, cf_StaticDir = [],
      cf_AdminEmail = ''root@example.org'', cf_AdminPassword = ''correct horse'', cf_InviteCode = [], cf_AppBaseURL = ''https://slate.do'',
      cf_ResendAPIKey = [], cf_ResendFrom = [], cf_AppMaxInstances = 4, cf_DBMaxConnections = 2, cf_DBConnectionAllowance = 25,
      cf_DBReservedConnections = 9, cf_DBAcquireTimeout = 2 * secs, cf_DBStatementTimeout = 10 * secs,
      cf_DBIdleTransactionTimeout = 10 * secs, cf_DBMaxConnectionIdleTime = 5 * mins, cf_DBMaxConnectionLifetime = 30 * mins,
      cf_RequestTimeout = 15 * secs, cf_HTTPIdleTimeout = 60 * secs\<rparr>"

text \<open>It is what an environment without settings gives, but for the database and the administrator.\<close>

definition ex_settings :: "string \<Rightarrow> string" where
  "ex_settings key =
     (if key = ''DATABASE_URL'' then '' postgres://db '' else if key = ''OWNER_EMAIL'' then ''root@example.org''
      else if key = ''OWNER_PASSWORD'' then ''correct horse'' else [])"

lemma FromEnv_example: "FromEnv fraction id ex_settings = Inr ex_config"
  by code_simp


subsection \<open>A lent connection comes back once\<close>

fun gives_back :: "loan_use \<Rightarrow> bool" where
  "gives_back (Next again) \<longleftrightarrow> \<not> again"
| "gives_back _ \<longleftrightarrow> True"

lemma use_loan_returned: "fold use_loan uses (Loan True, u) = (Loan True, u)"
proof (induction uses)
  case (Cons a uses)
  then show ?case by (cases a) auto
qed simp

text \<open>
  Whatever the code calls on a transaction, on rows or on a row, and however often, the pool gets
  the connection back when the first of the calls ends the use, and then never again: committing
  and a deferred rollback return it once.
\<close>

lemma loan_returned_once:
  "fold use_loan uses (Loan False, u) =
     (if list_ex gives_back uses then (Loan True, u\<lparr>pu_lent := pu_lent u - 1\<rparr>) else (Loan False, u))"
proof (induction uses)
  case (Cons a uses)
  then show ?case by (cases a) (auto simp: use_loan_returned)
qed simp

lemma Begin_returns:
  assumes "Begin refused failed u = (Inr loan, u')"
  shows "fold use_loan (Commit # uses) (loan, u') = (Loan True, u)"
  using assms
  by (auto simp: Begin_def acquire_def Release_def use_loan_returned split: option.splits)

lemma failed_statement_returns:
  "Begin refused failed u = (Inl err, u') \<Longrightarrow> u' = u"
  "Query refused failed u = (Inl err, u') \<Longrightarrow> u' = u"
  "snd (Exec refused failed u) = u" "snd (Ping refused failed u) = u"
  by (auto simp: Begin_def Query_def Exec_def Ping_def acquire_def Release_def split: option.splits)

end
