(* ===== verification/Migrations.thy ===== *)
theory Migrations
  imports Static
begin

section \<open>Migrations (migrations/migrations.go)\<close>

text \<open>
  Applying the SQL files that the database has not recorded. What a file does to the tables is
  the parameter \<open>run\<close>, which may fail; the transaction holds an advisory lock, so that two
  processes that start together apply one after the other.
\<close>

text \<open>The table \<open>schema_migrations\<close>, absent from a new database, and everything else.\<close>

record 'd migrated =
  mg_versions :: "string list option"
  mg_data :: 'd

record sql_file =
  sf_name :: string
  sf_dir :: bool
  sf_body :: string

definition recorded_versions :: "'d migrated \<Rightarrow> string list" where
  "recorded_versions m = (case mg_versions m of None \<Rightarrow> [] | Some vs \<Rightarrow> vs)"

definition skipped :: "sql_file \<Rightarrow> bool" where
  "skipped f \<longleftrightarrow> sf_dir f \<or> ext (sf_name f) \<noteq> ''.sql''"

definition version_of :: "sql_file \<Rightarrow> string" where
  "version_of f = take (length (sf_name f) - length ''.sql'') (sf_name f)"

fun apply_files ::
  "(string \<Rightarrow> 'd \<Rightarrow> (string, 'd) result) \<Rightarrow> sql_file list \<Rightarrow> string list \<Rightarrow> string list \<Rightarrow> 'd
     \<Rightarrow> (string, string list \<times> 'd migrated) result" where
  "apply_files run [] versions applied d = Inr (applied, \<lparr>mg_versions = Some versions, mg_data = d\<rparr>)"
| "apply_files run (f # fs) versions applied d =
     (if skipped f then apply_files run fs versions applied d
      else if version_of f \<in> set versions then apply_files run fs versions applied d
      else (case run (sf_body f) d of
          Inl err \<Rightarrow> Inl (''apply '' @ sf_name f @ '': '' @ err)
        | Inr d1 \<Rightarrow> apply_files run fs (versions @ [version_of f]) (applied @ [version_of f]) d1))"

definition Apply ::
  "(string \<Rightarrow> 'd \<Rightarrow> (string, 'd) result) \<Rightarrow> sql_file list \<Rightarrow> 'd migrated \<Rightarrow> (string, string list \<times> 'd migrated) result" where
  "Apply run files m = apply_files run (sort_key sf_name files) (recorded_versions m) [] (mg_data m)"

subsection \<open>Every file once, in order\<close>

definition versions_in :: "sql_file list \<Rightarrow> string list" where
  "versions_in files = map version_of (filter (\<lambda>f. \<not> skipped f) files)"

lemma rev_suffix: "ext name = ''.sql'' \<Longrightarrow> \<exists>v. name = v @ ''.sql''"
proof -
  assume "ext name = ''.sql''"
  then have "rev (takeWhile (\<lambda>c. c \<noteq> CHR ''.'') (rev name)) = ''sql''" and dot: "CHR ''.'' \<in> set name"
    by (auto simp: ext_def split: if_splits)
  then have tail: "takeWhile (\<lambda>c. c \<noteq> CHR ''.'') (rev name) = rev ''sql''" by (metis rev_rev_ident)
  have "dropWhile (\<lambda>c. c \<noteq> CHR ''.'') (rev name) \<noteq> []" using dot by auto
  moreover from this have "hd (dropWhile (\<lambda>c. c \<noteq> CHR ''.'') (rev name)) = CHR ''.''"
    using hd_dropWhile [of "\<lambda>c. c \<noteq> CHR ''.''" "rev name"] by simp
  ultimately obtain w where "dropWhile (\<lambda>c. c \<noteq> CHR ''.'') (rev name) = CHR ''.'' # w"
    by (metis list.collapse)
  then have "rev name = rev ''sql'' @ CHR ''.'' # w" using tail takeWhile_dropWhile_id [of _ "rev name"] by metis
  then have "name = rev w @ ''.sql''" by (metis append_Cons append_assoc append_Nil rev.simps rev_append rev_rev_ident)
  then show ?thesis ..
qed

lemma version_inj:
  assumes "\<not> skipped f" "\<not> skipped g" "version_of f = version_of g"
  shows "sf_name f = sf_name g"
proof -
  obtain v w where "sf_name f = v @ ''.sql''" "sf_name g = w @ ''.sql''"
    using assms(1,2) rev_suffix [of "sf_name f"] rev_suffix [of "sf_name g"] by (auto simp: skipped_def)
  then show ?thesis using assms(3) by (simp add: version_of_def)
qed

lemma distinct_versions: "distinct (map sf_name files) \<Longrightarrow> distinct (versions_in files)"
  by (induction files) (auto simp: versions_in_def dest: version_inj)

text \<open>The effect of a list of files: their statements, one file after the other.\<close>

fun run_bodies :: "(string \<Rightarrow> 'd \<Rightarrow> (string, 'd) result) \<Rightarrow> sql_file list \<Rightarrow> 'd \<Rightarrow> (string, 'd) result" where
  "run_bodies run [] d = Inr d"
| "run_bodies run (f # fs) d = rbind (run (sf_body f) d) (run_bodies run fs)"

definition pending :: "sql_file list \<Rightarrow> string list \<Rightarrow> sql_file list" where
  "pending files versions = filter (\<lambda>f. \<not> skipped f \<and> version_of f \<notin> set versions) files"

lemma apply_files_InrD:
  "apply_files run fs versions applied d = Inr (applied', m') \<Longrightarrow> distinct (versions_in fs) \<Longrightarrow>
    applied' = applied @ filter (\<lambda>v. v \<notin> set versions) (versions_in fs)
    \<and> mg_versions m' = Some (versions @ filter (\<lambda>v. v \<notin> set versions) (versions_in fs))
    \<and> run_bodies run (pending fs versions) d = Inr (mg_data m')"
proof (induction run fs versions applied d rule: apply_files.induct)
  case (2 run f fs versions applied d)
  show ?case
  proof (cases "skipped f \<or> version_of f \<in> set versions")
    case True
    then show ?thesis using 2 by (auto simp: versions_in_def pending_def)
  next
    case False
    then obtain d1 where d1: "run (sf_body f) d = Inr d1"
      and rest: "apply_files run fs (versions @ [version_of f]) (applied @ [version_of f]) d1 = Inr (applied', m')"
      using "2.prems" by (auto split: sum.splits)
    have new: "version_of f \<notin> set (versions_in fs)" and "distinct (versions_in fs)"
      using "2.prems"(2) False by (auto simp: versions_in_def)
    then have "filter (\<lambda>v. v \<notin> set (versions @ [version_of f])) (versions_in fs)
        = filter (\<lambda>v. v \<notin> set versions) (versions_in fs)" by (intro filter_cong) auto
    moreover have "pending fs (versions @ [version_of f]) = pending fs versions"
      using new unfolding pending_def by (intro filter_cong) (auto simp: versions_in_def image_iff)
    ultimately show ?thesis
      using False d1 "2.IH"(3) [OF _ _ d1 rest] \<open>distinct (versions_in fs)\<close> by (simp add: versions_in_def pending_def)
  qed
qed (auto simp: versions_in_def pending_def)

lemma apply_files_done:
  "set (versions_in fs) \<subseteq> set versions \<Longrightarrow>
    apply_files run fs versions applied d = Inr (applied, \<lparr>mg_versions = Some versions, mg_data = d\<rparr>)"
proof (induction fs)
  case (Cons f fs)
  then show ?case by (cases "skipped f") (simp_all add: versions_in_def)
qed simp

text \<open>
  C18: A migration run executes exactly the SQL files that the database has not recorded, in the order
  of their names, and records each: the tables are what those files make of them. A second run, whatever its files would do, applies nothing
  and changes nothing.
\<close>
theorem Apply_once:
  assumes "distinct (map sf_name files)" and "Apply run files m = Inr (applied, m')"
  shows "applied = filter (\<lambda>v. v \<notin> set (recorded_versions m)) (versions_in (sort_key sf_name files))
    \<and> recorded_versions m' = recorded_versions m @ applied
    \<and> run_bodies run (pending (sort_key sf_name files) (recorded_versions m)) (mg_data m) = Inr (mg_data m')
    \<and> Apply run' files m' = Inr ([], m')"
proof -
  let ?fs = "sort_key sf_name files"
  have "distinct (map sf_name ?fs)"
    using assms(1) by (metis distinct_map mset_map mset_sort set_sort distinct_sort size_mset mset_eq_imp_distinct_iff)
  then have "distinct (versions_in ?fs)" by (rule distinct_versions)
  then have run: "applied = filter (\<lambda>v. v \<notin> set (recorded_versions m)) (versions_in ?fs)"
      "mg_versions m' = Some (recorded_versions m @ applied)"
      "run_bodies run (pending ?fs (recorded_versions m)) (mg_data m) = Inr (mg_data m')"
    using apply_files_InrD assms(2) by (fastforce simp: Apply_def)+
  then have "set (versions_in ?fs) \<subseteq> set (recorded_versions m')" by (auto simp: recorded_versions_def)
  then have "Apply run' files m' = Inr ([], \<lparr>mg_versions = Some (recorded_versions m'), mg_data = mg_data m'\<rparr>)"
    unfolding Apply_def by (rule apply_files_done)
  then show ?thesis using run by (cases m') (simp add: recorded_versions_def)
qed

definition ex_files :: "sql_file list" where
  "ex_files =
     [\<lparr>sf_name = ''002_lists.sql'', sf_dir = False, sf_body = ''b''\<rparr>,
      \<lparr>sf_name = ''001_init.sql'', sf_dir = False, sf_body = ''a''\<rparr>,
      \<lparr>sf_name = ''README.md'', sf_dir = False, sf_body = ''c''\<rparr>]"

definition log_body :: "string \<Rightarrow> string list \<Rightarrow> (string, string list) result" where
  "log_body body log = Inr (log @ [body])"

theorem Apply_once_witness:
  "Apply log_body ex_files \<lparr>mg_versions = None, mg_data = []\<rparr>
     = Inr ([''001_init'', ''002_lists''], \<lparr>mg_versions = Some [''001_init'', ''002_lists''], mg_data = [''a'', ''b'']\<rparr>)
   \<and> Apply log_body ex_files \<lparr>mg_versions = Some [''001_init'', ''002_lists''], mg_data = [''a'', ''b'']\<rparr>
     = Inr ([], \<lparr>mg_versions = Some [''001_init'', ''002_lists''], mg_data = [''a'', ''b'']\<rparr>)"
proof -
  have run: "Apply log_body ex_files \<lparr>mg_versions = None, mg_data = []\<rparr>
     = Inr ([''001_init'', ''002_lists''], \<lparr>mg_versions = Some [''001_init'', ''002_lists''], mg_data = [''a'', ''b'']\<rparr>)"
    by code_simp
  have "distinct (map sf_name ex_files)" by code_simp
  from this run Apply_once [OF this run, of log_body] show ?thesis by (intro conjI) blast+
qed

text \<open>A run that fails leaves no trace: the transaction returns no state. Its error names the file.\<close>

lemma Apply_fails:
  "Apply run files m = Inl err \<Longrightarrow> \<exists>f e d. f \<in> set files \<and> \<not> skipped f \<and> run (sf_body f) d = Inl e \<and> err = ''apply '' @ sf_name f @ '': '' @ e"
proof -
  have "apply_files run fs versions applied d = Inl err \<Longrightarrow>
      \<exists>f e d. f \<in> set fs \<and> \<not> skipped f \<and> run (sf_body f) d = Inl e \<and> err = ''apply '' @ sf_name f @ '': '' @ e" for fs versions applied d
  proof (induction run fs versions applied d rule: apply_files.induct)
    case (2 run f fs versions applied d)
    show ?case
    proof (cases "run (sf_body f) d")
      case (Inl e)
      then show ?thesis using 2 by (auto split: if_splits) 
    next
      case (Inr d1)
      then show ?thesis using 2 by (auto split: if_splits)
    qed
  qed auto
  then show "Apply run files m = Inl err \<Longrightarrow> ?thesis" by (fastforce simp: Apply_def)
qed

end
