(* ===== verification/CleanupRules.thy ===== *)
theory CleanupRules
  imports Cleanup
begin

section \<open>The cleanup job ends, stays in its bounds and deletes only what it may\<close>

text \<open>
  One bounded delete, one step of the loop and a whole run: what \<open>CleanUp\<close> may remove, how much of
  it, and that it always ends. The environment of the run is arbitrary throughout.
\<close>

subsection \<open>One delete on the tables as they are shown\<close>

abbreviation cs_tables :: "cleanup_state \<Rightarrow> table \<Rightarrow> shown_row list" where
  "cs_tables st \<equiv> table_rows (cs_db st)"

text \<open>
  A delete takes eligible rows out of its table and leaves every other table alone, but for the
  rotations that refer to a deleted credential. The last part of a rotation's key is its credential.
\<close>

definition wiped :: "int \<Rightarrow> cleanup_rule \<Rightarrow> nat \<Rightarrow> (table \<Rightarrow> shown_row list) \<Rightarrow> (table \<Rightarrow> shown_row list) \<Rightarrow> bool" where
  "wiped now rule n T T' \<longleftrightarrow> (\<exists>D. size D = n \<and> (\<forall>r. r \<in># D \<longrightarrow> eligible now rule (snd r))
     \<and> mset (T (ru_table rule)) = D + mset (T' (ru_table rule))
     \<and> (\<forall>tb. tb \<noteq> ru_table rule \<longrightarrow> T' tb =
          (if tb = Rotations \<and> ru_table rule = AgentCredentials
           then filter (\<lambda>r. last (fst r) \<notin> (\<lambda>c. hd (fst c)) ` set_mset D) (T Rotations) else T tb)))"

lemma wiped_shown:
  assumes "boundedDelete now rule (snd \<circ> view) locked limit rows = (gone, rows')"
    and "T (ru_table rule) = map view rows" "T' (ru_table rule) = map view rows'"
    and "\<forall>tb. tb \<noteq> ru_table rule \<longrightarrow> T' tb = (if tb = Rotations \<and> ru_table rule = AgentCredentials
           then filter (\<lambda>r. last (fst r) \<notin> (\<lambda>c. hd (fst c)) ` set (map view gone)) (T Rotations) else T tb)"
  shows "wiped now rule (length gone) T T'"
proof -
  note d = boundedDelete_parts [OF assms(1)]
  have "eligible now rule (snd r)" if "r \<in> set (map view gone)" for r using d(3) that by (auto simp: o_def)
  then show ?thesis
    using d(2) assms(2-4) unfolding wiped_def by (intro conjI exI [of _ "mset (map view gone)"]) simp_all
qed

lemma delete_rows_wiped:
  assumes "delete_rows now rule locked limit sv = (n, sv')"
  shows "n \<le> limit \<and> wiped now rule n (table_rows sv) (table_rows sv')"
proof (cases "ru_table rule = AgentCredentials")
  case True
  then obtain gone rows where d: "boundedDelete now rule (snd \<circ> credential_view) locked limit (credentials (sv_auth sv)) = (gone, rows)"
    and run: "n = length gone" "sv' = sv\<lparr>sv_auth := (sv_auth sv)\<lparr>credentials := rows,
        rotations := delete_where (\<lambda>r. ro_credential r \<in> cd_id ` set gone) (rotations (sv_auth sv))\<rparr>\<rparr>"
    using assms by (auto simp: delete_rows_def delete_account_rows_def split: prod.splits)
  have "(\<lambda>c. hd (fst c)) ` set (map credential_view gone) = cd_id ` set gone" by (force simp: credential_view_def)
  then have "table_rows sv' tb = (if tb = Rotations \<and> ru_table rule = AgentCredentials
      then filter (\<lambda>r. last (fst r) \<notin> (\<lambda>c. hd (fst c)) ` set (map credential_view gone)) (table_rows sv Rotations) else table_rows sv tb)"
    if "tb \<noteq> ru_table rule" for tb
    using that True
    by (cases tb) (simp_all add: run table_rows_def filter_map o_def rotation_view_def delete_where_def)
  then have "wiped now rule (length gone) (table_rows sv) (table_rows sv')"
    by (intro wiped_shown [OF d]) (simp_all add: True, simp_all add: run table_rows_def)
  then show ?thesis using boundedDelete_parts(1) [OF d] by (simp add: run)
next
  case False
  show ?thesis
    using assms False
    by (cases "ru_table rule")
      (auto simp: delete_rows_def delete_account_rows_def delete_limiter_rows_def table_rows_def split: prod.splits table.splits
        dest: boundedDelete_parts(1) elim!: wiped_shown)
qed

subsection \<open>What a step does\<close>

definition affs :: "cleanup_state \<Rightarrow> int list" where
  "affs st = map rt_Affected (rp_Results (cs_report st))"

definition job_ok :: "int \<Rightarrow> cleanup_state \<Rightarrow> bool" where
  "job_ok rowBudget st \<longleftrightarrow> length (cs_active st) = length rules \<and> length (rp_Results (cs_report st)) = length rules
     \<and> cs_remaining st = count_where (\<lambda>a. a) (cs_active st)
     \<and> (\<forall>i < length rules. 0 \<le> affs st ! i \<and> affs st ! i \<le> rowBudget \<and> (cs_active st ! i \<longrightarrow> affs st ! i < rowBudget))
     \<and> rp_TotalAffected (cs_report st) = sum_list (affs st)"

text \<open>Rule \<open>i\<close> deletes \<open>n\<close> rows, and may be finished.\<close>

definition stepped :: "int \<Rightarrow> int \<Rightarrow> nat \<Rightarrow> cleanup_state \<Rightarrow> nat \<Rightarrow> bool \<Rightarrow> cleanup_state \<Rightarrow> bool" where
  "stepped batchSize rowBudget i st n finished st' \<longleftrightarrow>
     affs st' = (affs st)[i := affs st ! i + int n]
     \<and> rp_TotalAffected (cs_report st') = rp_TotalAffected (cs_report st) + int n
     \<and> cs_active st' = (if finished then (cs_active st)[i := False] else cs_active st)
     \<and> cs_remaining st' = cs_remaining st - (if finished then 1 else 0)
     \<and> length (rp_Results (cs_report st')) = length (rp_Results (cs_report st))
     \<and> cs_tick st \<le> cs_tick st' \<and> int n \<le> batchSize \<and> affs st ! i + int n \<le> rowBudget
     \<and> (\<not> finished \<longrightarrow> 0 < n \<and> affs st ! i + int n < rowBudget)"

lemma set_result_fields [simp]:
  "cs_db (set_result i f st) = cs_db st" "cs_tick (set_result i f st) = cs_tick st"
  "cs_active (set_result i f st) = cs_active st" "cs_remaining (set_result i f st) = cs_remaining st"
  "rp_TotalAffected (cs_report (set_result i f st)) = rp_TotalAffected (cs_report st)"
  "rp_Results (cs_report (set_result i f st)) = (rp_Results (cs_report st))[i := f (rp_Results (cs_report st) ! i)]"
  by (simp_all add: set_result_def)

lemma deactivate_fields [simp]:
  "cs_db (deactivate i st) = cs_db st" "cs_tick (deactivate i st) = cs_tick st" "cs_report (deactivate i st) = cs_report st"
  "cs_active (deactivate i st) = (cs_active st)[i := False]" "cs_remaining (deactivate i st) = cs_remaining st - 1"
  by (simp_all add: deactivate_def)

lemma fail_rule_fields [simp]:
  "cs_db (fail_rule i w err st) = cs_db st" "cs_tick (fail_rule i w err st) = cs_tick st"
  "cs_active (fail_rule i w err st) = cs_active st" "cs_remaining (fail_rule i w err st) = cs_remaining st"
  "rp_TotalAffected (cs_report (fail_rule i w err st)) = rp_TotalAffected (cs_report st)"
  "rp_Results (cs_report (fail_rule i w err st)) = (rp_Results (cs_report st))[i := (rp_Results (cs_report st) ! i)\<lparr>rt_Error := err\<rparr>]"
  by (simp_all add: fail_rule_def)

lemma tick_fields [simp]:
  "cs_tick (tick e st) = cs_tick st + 1" "cs_active (tick e st) = cs_active st" "cs_remaining (tick e st) = cs_remaining st"
  "cs_report (tick e st) = cs_report st" "cs_db (tick e st) = ce_others e (cs_tick st) (cs_db st)"
  by (simp_all add: tick_def)

lemma delete_batch_parts:
  assumes "delete_batch e now limit i st = (n, st')" "0 \<le> limit" "i < length (rp_Results (cs_report st))"
  shows "int n \<le> limit" "affs st' = (affs st)[i := affs st ! i + int n]"
    "rp_TotalAffected (cs_report st') = rp_TotalAffected (cs_report st) + int n"
    "cs_active st' = cs_active st" "cs_remaining st' = cs_remaining st" "cs_tick st' = cs_tick st + 1"
    "length (rp_Results (cs_report st')) = length (rp_Results (cs_report st))"
    "delete_rows now (rules ! i) (ce_locked e (cs_tick st)) (nat limit) (cs_db (tick e st)) = (n, cs_db st')"
    "map rt_Backlog (rp_Results (cs_report st')) = map rt_Backlog (rp_Results (cs_report st))"
proof -
  obtain db where d: "delete_rows now (rules ! i) (ce_locked e (cs_tick st)) (nat limit) (cs_db (tick e st)) = (n, db)"
    using assms(1) by (auto simp: delete_batch_def Let_def split: prod.splits)
  show "int n \<le> limit" using delete_rows_wiped [OF d] assms(2) by linarith
  note st' = assms(1) [unfolded delete_batch_def Let_def d prod.case, THEN prod.inject [THEN iffD1], THEN conjunct2, symmetric]
  show "affs st' = (affs st)[i := affs st ! i + int n]" using assms(3) by (simp add: st' affs_def map_update)
  show "rp_TotalAffected (cs_report st') = rp_TotalAffected (cs_report st) + int n"
    "cs_active st' = cs_active st" "cs_remaining st' = cs_remaining st" "cs_tick st' = cs_tick st + 1"
    "length (rp_Results (cs_report st')) = length (rp_Results (cs_report st))" by (simp_all add: st')
  show "map rt_Backlog (rp_Results (cs_report st')) = map rt_Backlog (rp_Results (cs_report st))"
    using assms(3) by (simp add: st' map_update list_update_same_conv)
  show "delete_rows now (rules ! i) (ce_locked e (cs_tick st)) (nat limit) (cs_db (tick e st)) = (n, cs_db st')"
    using d by (simp add: st')
qed

lemma affs_keep:
  assumes "i < length (rp_Results (cs_report st))" "rt_Affected (f (rp_Results (cs_report st) ! i)) = rt_Affected (rp_Results (cs_report st) ! i)"
  shows "map rt_Affected ((rp_Results (cs_report st))[i := f (rp_Results (cs_report st) ! i)]) = affs st"
  using assms by (simp add: map_update affs_def list_update_same_conv)

lemma after_batch_parts:
  assumes "i < length (rp_Results (cs_report st))" "int n \<le> limit" "0 < limit"
    and "limit \<le> batchSize" "limit \<le> rowBudget - (affs st ! i - int n)"
  shows "\<exists>finished. affs (after_batch e now rowBudget limit i n st) = affs st
      \<and> rp_TotalAffected (cs_report (after_batch e now rowBudget limit i n st)) = rp_TotalAffected (cs_report st)
      \<and> cs_active (after_batch e now rowBudget limit i n st) = (if finished then (cs_active st)[i := False] else cs_active st)
      \<and> cs_remaining (after_batch e now rowBudget limit i n st) = cs_remaining st - (if finished then 1 else 0)
      \<and> length (rp_Results (cs_report (after_batch e now rowBudget limit i n st))) = length (rp_Results (cs_report st))
      \<and> cs_tick st \<le> cs_tick (after_batch e now rowBudget limit i n st)
      \<and> (\<not> finished \<longrightarrow> 0 < n \<and> affs st ! i < rowBudget)"
proof -
  have r: "rt_Affected (rp_Results (cs_report st) ! i) = affs st ! i" using assms(1) by (simp add: affs_def)
  show ?thesis
  proof (cases "int n < limit")
    case True
    then have less: "affs st ! i < rowBudget" using assms(5) by linarith
    show ?thesis
    proof (cases "ce_failed e (cs_tick st)")
      case (Some err)
      then show ?thesis using True assms(1)
        by (intro exI [of _ True]) (simp add: after_batch_def Let_def affs_def map_update list_update_same_conv)
    next
      case None
      let ?backlog = "backlog_query now (rules ! i) (table_rows (ce_others e (cs_tick st) (cs_db st)) (ru_table (rules ! i)))"
      show ?thesis using True None assms(1) less
        by (intro exI [of _ "\<not> ?backlog \<or> n = 0"]) (simp add: after_batch_def Let_def affs_def map_update list_update_same_conv)
    qed
  next
    case False
    then have "0 < n" using assms(3) by linarith
    then show ?thesis using False assms(1) r
      by (intro exI [of _ "affs st ! i \<ge> rowBudget"]) (simp add: after_batch_def Let_def affs_def map_update list_update_same_conv)
  qed
qed

lemma clean_rule_stepped:
  assumes "job_ok rowBudget st" "1 \<le> batchSize" "i < length rules" "cs_active st ! i" "\<not> ctx_expired e st"
  shows "\<exists>n finished. stepped batchSize rowBudget i st n finished (clean_rule e now batchSize rowBudget i st)"
proof -
  have len: "length (rp_Results (cs_report st)) = length rules" and a: "affs st ! i < rowBudget" "0 \<le> affs st ! i"
    using assms(1,3,4) by (simp_all add: job_ok_def)
  have r: "rt_Affected (rp_Results (cs_report st) ! i) = affs st ! i" using len assms(3) by (simp add: affs_def)
  define limit where "limit = (if rowBudget - affs st ! i < batchSize then rowBudget - affs st ! i else batchSize)"
  have lim: "0 < limit" "limit \<le> batchSize" "limit \<le> rowBudget - affs st ! i" using a assms(2) by (simp_all add: limit_def)
  show ?thesis
  proof (cases "ce_failed e (cs_tick st)")
    case (Some err)
    then have "clean_rule e now batchSize rowBudget i st
        = deactivate i (fail_rule i (''cleanup '' @ ru_name (rules ! i)) err (tick e st))"
      using assms(4,5) by (simp add: clean_rule_def Let_def)
    then show ?thesis using len assms(2,3) a
      by (intro exI [of _ 0] exI [of _ True]) (simp add: stepped_def affs_def map_update list_update_same_conv)
  next
    case None
    obtain n st' where d: "delete_batch e now limit i st = (n, st')" by (cases "delete_batch e now limit i st")
    have run: "clean_rule e now batchSize rowBudget i st = after_batch e now rowBudget limit i n st'"
      using None assms(4,5) d by (simp add: clean_rule_def Let_def r flip: limit_def)
    have i: "i < length (rp_Results (cs_report st))" using len assms(3) by simp
    note p = delete_batch_parts [OF d less_imp_le [OF lim(1)] i]
    have "i < length (affs st)" using i by (simp add: affs_def)
    then have new: "affs st' ! i = affs st ! i + int n" using p(2) lim i by simp
    let ?st'' = "after_batch e now rowBudget limit i n st'"
    obtain finished where f: "affs ?st'' = affs st'" "rp_TotalAffected (cs_report ?st'') = rp_TotalAffected (cs_report st')"
      "cs_active ?st'' = (if finished then (cs_active st')[i := False] else cs_active st')"
      "cs_remaining ?st'' = cs_remaining st' - (if finished then 1 else 0)"
      "length (rp_Results (cs_report ?st'')) = length (rp_Results (cs_report st'))" "cs_tick st' \<le> cs_tick ?st''"
      "\<not> finished \<longrightarrow> 0 < n \<and> affs st' ! i < rowBudget"
      using after_batch_parts [of i st' n limit batchSize rowBudget e now] p lim i new by auto
    have "stepped batchSize rowBudget i st n finished ?st''"
      unfolding stepped_def f(1-5) using p(1-7) lim f(6,7) new by auto
    then show ?thesis unfolding run by blast
  qed
qed

lemma sum_list_add_at: "i < length xs \<Longrightarrow> sum_list (xs[i := xs ! i + n]) = sum_list xs + (n :: int)"
  by (induction xs arbitrary: i) (auto split: nat.splits)

lemma count_where_clear: "i < length xs \<Longrightarrow> xs ! i \<Longrightarrow> count_where (\<lambda>a. a) (xs[i := False]) = count_where (\<lambda>a. a) xs - 1"
  by (induction xs arbitrary: i) (auto split: nat.splits)

lemma stepped_job_ok:
  assumes "job_ok rowBudget st" "i < length rules" "cs_active st ! i" "stepped batchSize rowBudget i st n finished st'"
  shows "job_ok rowBudget st'"
proof -
  have len: "length (affs st) = length rules" "length (cs_active st) = length rules" using assms(1) by (simp_all add: job_ok_def affs_def)
  have "sum_list (affs st') = sum_list (affs st) + int n"
    using assms(2,4) len by (simp add: stepped_def sum_list_add_at)
  moreover have "count_where (\<lambda>a. a) (cs_active st') = count_where (\<lambda>a. a) (cs_active st) - (if finished then 1 else 0)"
    using assms(2-4) len by (simp add: stepped_def count_where_clear)
  moreover have "0 \<le> affs st' ! j \<and> affs st' ! j \<le> rowBudget \<and> (cs_active st' ! j \<longrightarrow> affs st' ! j < rowBudget)" if "j < length rules" for j
  proof (cases "j = i")
    case True
    then show ?thesis using assms that len by (auto simp: stepped_def job_ok_def)
  next
    case False
    then show ?thesis using assms(1,4) that len by (simp add: stepped_def job_ok_def)
  qed
  ultimately show ?thesis using assms(1,4) by (simp add: stepped_def job_ok_def)
qed

text \<open>What a pass over some rules achieves: unless the deadline passed, the rules still active deleted something.\<close>

definition progressed :: "cleanup_env \<Rightarrow> int \<Rightarrow> nat set \<Rightarrow> cleanup_state \<Rightarrow> cleanup_state \<Rightarrow> bool" where
  "progressed e rowBudget js st st' \<longleftrightarrow> job_ok rowBudget st' \<and> cs_tick st \<le> cs_tick st'
     \<and> (\<forall>j < length rules. affs st ! j \<le> affs st' ! j \<and> (cs_active st' ! j \<longrightarrow> cs_active st ! j))
     \<and> (\<not> ctx_expired e st' \<longrightarrow> (\<forall>j \<in> js. j < length rules \<longrightarrow> cs_active st' ! j \<longrightarrow> affs st ! j + 1 \<le> affs st' ! j))"

lemma ctx_expired_mono: "ctx_expired e st \<Longrightarrow> cs_tick st \<le> cs_tick st' \<Longrightarrow> ctx_expired e st'"
  by (auto simp: ctx_expired_def split: option.splits)

lemma clean_rule_progressed:
  assumes "job_ok rowBudget st" "1 \<le> batchSize" "i < length rules"
  shows "progressed e rowBudget {i} st (clean_rule e now batchSize rowBudget i st)"
proof (cases "cs_active st ! i \<and> \<not> ctx_expired e st")
  case False
  then have "clean_rule e now batchSize rowBudget i st = st" by (simp add: clean_rule_def)
  then show ?thesis using False assms(1) by (auto simp: progressed_def)
next
  case True
  let ?st' = "clean_rule e now batchSize rowBudget i st"
  obtain n finished where s: "stepped batchSize rowBudget i st n finished ?st'"
    using clean_rule_stepped [OF assms(1-3)] True by blast
  have len: "length (affs st) = length rules" "length (cs_active st) = length rules" using assms(1) by (simp_all add: job_ok_def affs_def)
  have "affs st ! j \<le> affs ?st' ! j \<and> (cs_active ?st' ! j \<longrightarrow> cs_active st ! j)" if "j < length rules" for j
    using s that len by (cases "j = i") (auto simp: stepped_def)
  moreover have "affs st ! i + 1 \<le> affs ?st' ! i" if "cs_active ?st' ! i"
    using s that len assms(3) by (auto simp: stepped_def split: if_splits)
  moreover have "cs_tick st \<le> cs_tick ?st'" using s by (simp add: stepped_def)
  ultimately show ?thesis using stepped_job_ok [OF assms(1,3) _ s] True by (simp add: progressed_def)
qed

lemma progressed_trans:
  assumes "progressed e rowBudget js st st'" "progressed e rowBudget js' st' st''"
  shows "progressed e rowBudget (js \<union> js') st st''"
proof -
  have mono: "affs st ! j \<le> affs st' ! j" "affs st' ! j \<le> affs st'' ! j" "cs_active st'' ! j \<Longrightarrow> cs_active st' ! j"
    "cs_active st' ! j \<Longrightarrow> cs_active st ! j" if "j < length rules" for j
    using assms that by (simp_all add: progressed_def)
  have tick: "cs_tick st \<le> cs_tick st'" "cs_tick st' \<le> cs_tick st''" using assms by (simp_all add: progressed_def)
  have "affs st ! j + 1 \<le> affs st'' ! j" if "\<not> ctx_expired e st''" "j \<in> js \<union> js'" "j < length rules" "cs_active st'' ! j" for j
  proof (cases "j \<in> js")
    case True
    have "\<not> ctx_expired e st'" using that(1) ctx_expired_mono tick(2) by blast
    then have "affs st ! j + 1 \<le> affs st' ! j" using assms(1) True that mono by (simp add: progressed_def)
    then show ?thesis using mono(2) [OF that(3)] by linarith
  next
    case False
    then have "affs st' ! j + 1 \<le> affs st'' ! j" using assms(2) that by (simp add: progressed_def)
    then show ?thesis using mono(1) [OF that(3)] by linarith
  qed
  then show ?thesis using assms(2) mono tick unfolding progressed_def by (meson order_trans)
qed

lemma clean_pass_progressed:
  assumes "job_ok rowBudget st" "1 \<le> batchSize"
  shows "progressed e rowBudget {..<length rules} st (clean_pass e now batchSize rowBudget st)"
proof -
  have "progressed e rowBudget (set js) st (fold (clean_rule e now batchSize rowBudget) js st)"
    if "\<forall>i \<in> set js. i < length rules" for js
    using that assms(1)
  proof (induction js arbitrary: st)
    case Nil
    then show ?case by (simp add: progressed_def)
  next
    case (Cons i js)
    have one: "progressed e rowBudget {i} st (clean_rule e now batchSize rowBudget i st)"
      using Cons.prems assms(2) by (intro clean_rule_progressed) simp_all
    then have "job_ok rowBudget (clean_rule e now batchSize rowBudget i st)" by (simp add: progressed_def)
    from progressed_trans [OF one Cons.IH [OF _ this]] Cons.prems show ?case by simp
  qed
  from this [of "[0..<length rules]"] show ?thesis by (simp add: clean_pass_def atLeast0LessThan)
qed

lemma clean_loop_ends:
  assumes "job_ok rowBudget st" "1 \<le> batchSize"
    and "ctx_expired e st \<or> (\<forall>i < length rules. cs_active st ! i \<longrightarrow> rowBudget \<le> affs st ! i + int fuel)"
  shows "\<exists>st'. clean_loop e now batchSize rowBudget fuel st = Some st' \<and> job_ok rowBudget st'
      \<and> (cs_remaining st' \<le> 0 \<or> ctx_expired e st')"
  using assms(1,3)
proof (induction fuel arbitrary: st)
  case 0
  have "cs_remaining st \<le> 0 \<or> ctx_expired e st"
  proof (rule ccontr)
    assume c: "\<not> (cs_remaining st \<le> 0 \<or> ctx_expired e st)"
    then have "filter (\<lambda>a. a) (cs_active st) \<noteq> []" using 0(1) by (auto simp: job_ok_def count_where_def)
    then obtain i where "i < length rules" "cs_active st ! i"
      using 0(1) by (auto simp: filter_empty_conv in_set_conv_nth job_ok_def)
    then show False using 0 c by (fastforce simp: job_ok_def)
  qed
  then show ?case using 0(1) by (subst clean_loop.simps) auto
next
  case (Suc n)
  show ?case
  proof (cases "cs_remaining st > 0 \<and> \<not> ctx_expired e st")
    case False
    then show ?thesis using Suc.prems(1) by (subst clean_loop.simps) auto
  next
    case True
    let ?st' = "clean_pass e now batchSize rowBudget st"
    have p: "progressed e rowBudget {..<length rules} st ?st'" by (rule clean_pass_progressed [OF Suc.prems(1) assms(2)])
    have "ctx_expired e ?st' \<or> (\<forall>i < length rules. cs_active ?st' ! i \<longrightarrow> rowBudget \<le> affs ?st' ! i + int n)"
      using p Suc.prems(2) True unfolding progressed_def by fastforce
    then have "\<exists>st'. clean_loop e now batchSize rowBudget n ?st' = Some st' \<and> job_ok rowBudget st'
        \<and> (cs_remaining st' \<le> 0 \<or> ctx_expired e st')"
      using p by (intro Suc.IH) (simp_all add: progressed_def)
    then show ?thesis using True by (subst clean_loop.simps) simp
  qed
qed

lemma start_job_ok: "1 \<le> rowBudget \<Longrightarrow> job_ok rowBudget (start_state batchSize rowBudget sv)"
proof -
  have "affs (start_state batchSize rowBudget sv) = replicate (length rules) 0"
    by (simp add: affs_def start_state_def start_result_def map_replicate_const o_def)
  moreover have "sum_list (replicate n 0) = (0 :: int)" for n by (induction n) simp_all
  moreover have "filter (\<lambda>a. a) (map (\<lambda>_. True) rules) = map (\<lambda>_. True) rules" by (rule filter_True) simp
  ultimately show "1 \<le> rowBudget \<Longrightarrow> job_ok rowBudget (start_state batchSize rowBudget sv)"
    by (simp add: job_ok_def start_state_def count_where_def)
qed

subsection \<open>What is deleted\<close>

type_synonym shown_tables = "table \<Rightarrow> shown_row list"

definition gone_rows :: "shown_tables \<Rightarrow> shown_tables \<Rightarrow> table \<Rightarrow> shown_row multiset" where
  "gone_rows T T' tb = mset (T tb) - mset (T' tb)"

definition gone_credentials :: "shown_tables \<Rightarrow> shown_tables \<Rightarrow> string set" where
  "gone_credentials T T' = (\<lambda>c. hd (fst c)) ` set_mset (gone_rows T T' AgentCredentials)"

definition shrunk :: "int \<Rightarrow> shown_tables \<Rightarrow> shown_tables \<Rightarrow> bool" where
  "shrunk now T T' \<longleftrightarrow> (\<forall>tb. mset (T' tb) \<subseteq># mset (T tb))
     \<and> (\<forall>tb r. r \<in># gone_rows T T' tb \<longrightarrow> (\<exists>rule \<in> set rules. ru_table rule = tb \<and> eligible now rule (snd r))
          \<or> tb = Rotations \<and> last (fst r) \<in> gone_credentials T T')
     \<and> (\<forall>r \<in> set (T' Rotations). last (fst r) \<notin> gone_credentials T T')"

definition removed :: "shown_tables \<Rightarrow> shown_tables \<Rightarrow> int" where
  "removed T T' = (\<Sum>tb \<in> set (map ru_table rules). int (length (T tb)) - int (length (T' tb)))"

text \<open>The number \<open>n\<close> counts what is gone, but for rotations that went with their credential.\<close>

definition counted :: "int \<Rightarrow> shown_tables \<Rightarrow> shown_tables \<Rightarrow> bool" where
  "counted n T T' \<longleftrightarrow> (\<exists>C. C \<subseteq># gone_rows T T' Rotations \<and> (\<forall>r. r \<in># C \<longrightarrow> last (fst r) \<in> gone_credentials T T')
     \<and> removed T T' = n + int (size C))"

definition reported_clean :: "int \<Rightarrow> cleanup_state \<Rightarrow> bool" where
  "reported_clean now st \<longleftrightarrow> (\<forall>i < length rules. rt_Backlog (rp_Results (cs_report st) ! i) = Some False \<longrightarrow>
     \<not> backlog_query now (rules ! i) (cs_tables st (ru_table (rules ! i))))"

definition undisturbed :: "cleanup_env \<Rightarrow> bool" where
  "undisturbed e \<longleftrightarrow> (\<forall>k sv. ce_others e k sv = sv)"

lemma gone_rows_refl [simp]: "gone_rows T T tb = {#}"
  by (simp add: gone_rows_def)

lemma shrunk_refl [simp]: "shrunk now T T"
  by (simp add: shrunk_def gone_credentials_def)

lemma gone_rows_trans:
  assumes "shrunk now T T'" "shrunk now T' T''"
  shows "gone_rows T T'' tb = gone_rows T T' tb + gone_rows T' T'' tb"
proof (rule multiset_eqI)
  fix x
  have "count (mset (T' tb)) x \<le> count (mset (T tb)) x" "count (mset (T'' tb)) x \<le> count (mset (T' tb)) x"
    using assms unfolding shrunk_def by (blast intro: mset_subset_eq_count)+
  then show "count (gone_rows T T'' tb) x = count (gone_rows T T' tb + gone_rows T' T'' tb) x"
    by (simp add: gone_rows_def)
qed

lemma gone_credentials_trans:
  assumes "shrunk now T T'" "shrunk now T' T''"
  shows "gone_credentials T T'' = gone_credentials T T' \<union> gone_credentials T' T''"
  by (simp add: gone_credentials_def gone_rows_trans [OF assms] image_Un)

lemma shrunk_set: "shrunk now T T' \<Longrightarrow> set (T' tb) \<subseteq> set (T tb)"
  unfolding shrunk_def by (metis set_mset_mono set_mset_mset)

lemma shrunk_trans:
  assumes "shrunk now T T'" "shrunk now T' T''"
  shows "shrunk now T T''"
proof -
  have "mset (T'' tb) \<subseteq># mset (T tb)" for tb
    using assms unfolding shrunk_def by (blast intro: subset_mset.order_trans)
  moreover have "(\<exists>rule \<in> set rules. ru_table rule = tb \<and> eligible now rule (snd r))
      \<or> tb = Rotations \<and> last (fst r) \<in> gone_credentials T T''" if "r \<in># gone_rows T T'' tb" for tb r
    using that assms unfolding shrunk_def gone_rows_trans [OF assms] gone_credentials_trans [OF assms] union_iff Un_iff by blast
  moreover have "last (fst r) \<notin> gone_credentials T T''" if "r \<in> set (T'' Rotations)" for r
    using that assms shrunk_set [OF assms(2), of Rotations] unfolding shrunk_def gone_credentials_trans [OF assms] by blast
  ultimately show ?thesis unfolding shrunk_def by blast
qed

lemma shrunk_backlog: "shrunk now T T' \<Longrightarrow> backlog_query now rule (T' tb) \<Longrightarrow> backlog_query now rule (T tb)"
  using shrunk_set [of now T T' tb] unfolding backlog_query_def list_ex_iff by auto

lemma removed_refl [simp]: "removed T T = 0"
  by (simp add: removed_def)

lemma removed_trans: "removed T T' + removed T' T'' = removed T T''"
  by (simp add: removed_def sum.distrib [symmetric])

lemma counted_refl [simp]: "counted 0 T T"
  by (simp add: counted_def)

lemma counted_trans:
  assumes "shrunk now T T'" "shrunk now T' T''" "counted m T T'" "counted n T' T''"
  shows "counted (m + n) T T''"
proof -
  obtain C D where C: "C \<subseteq># gone_rows T T' Rotations" "\<forall>r. r \<in># C \<longrightarrow> last (fst r) \<in> gone_credentials T T'" "removed T T' = m + int (size C)"
    and D: "D \<subseteq># gone_rows T' T'' Rotations" "\<forall>r. r \<in># D \<longrightarrow> last (fst r) \<in> gone_credentials T' T''" "removed T' T'' = n + int (size D)"
    using assms(3,4) unfolding counted_def by blast
  have "C + D \<subseteq># gone_rows T T'' Rotations"
    unfolding gone_rows_trans [OF assms(1,2)] using C(1) D(1) by (rule subset_mset.add_mono)
  moreover have "\<forall>r. r \<in># C + D \<longrightarrow> last (fst r) \<in> gone_credentials T T''"
    unfolding gone_credentials_trans [OF assms(1,2)] using C(2) D(2) by auto
  moreover have "removed T T'' = m + n + int (size (C + D))"
    using C(3) D(3) removed_trans [of T T' T''] by simp
  ultimately show ?thesis unfolding counted_def by blast
qed

lemma sum_one_table: "(\<Sum>tb \<in> set (map ru_table rules). if tb = a then x else (0 :: int)) = (if a \<in> set (map ru_table rules) then x else 0)"
  by simp

lemma rotations_ruled: "Rotations \<in> set (map ru_table rules)" "AgentCredentials \<in> set (map ru_table rules)"
  by (simp_all add: rules_def newRule_def)

lemma wiped_shrunk:
  assumes rule: "rule \<in> set rules" and wiped: "wiped now rule n T T'"
  shows "shrunk now T T' \<and> counted (int n) T T'"
proof -
  let ?tb = "ru_table rule"
  obtain D where D: "size D = n" "\<forall>r. r \<in># D \<longrightarrow> eligible now rule (snd r)" "mset (T ?tb) = D + mset (T' ?tb)"
    and rest: "\<forall>tb. tb \<noteq> ?tb \<longrightarrow> T' tb = (if tb = Rotations \<and> ?tb = AgentCredentials
           then filter (\<lambda>r. last (fst r) \<notin> (\<lambda>c. hd (fst c)) ` set_mset D) (T Rotations) else T tb)"
    using wiped unfolding wiped_def by blast
  have gone: "gone_rows T T' ?tb = D" using D(3) by (simp add: gone_rows_def)
  have len: "int (length (T ?tb)) - int (length (T' ?tb)) = int n"
    using arg_cong [OF D(3), of size] D(1) by simp
  have ruled: "?tb \<in> set (map ru_table rules)" using rule by simp
  show ?thesis
  proof (cases "?tb = AgentCredentials")
    case False
    then have same: "T' tb = T tb" if "tb \<noteq> ?tb" for tb using rest that by simp
    have creds: "gone_credentials T T' = {}" using False same by (simp add: gone_credentials_def gone_rows_def)
    have "mset (T' tb) \<subseteq># mset (T tb)" for tb using D(3) same by (cases "tb = ?tb") simp_all
    moreover have "\<exists>rule \<in> set rules. ru_table rule = tb \<and> eligible now rule (snd r)" if "r \<in># gone_rows T T' tb" for tb r
    proof (cases "tb = ?tb")
      case True
      then have "eligible now rule (snd r)" using that gone D(2) by blast
      then show ?thesis using rule True by blast
    qed (use that same in \<open>simp add: gone_rows_def\<close>)
    moreover have "removed T T' = (\<Sum>tb \<in> set (map ru_table rules). if tb = ?tb then int n else 0)"
      unfolding removed_def using len same by (intro sum.cong) auto
    then have "removed T T' = int n" using ruled by (simp only: sum_one_table if_True)
    then have "counted (int n) T T'" unfolding counted_def by (intro exI [of _ "{#}"]) simp
    ultimately show ?thesis unfolding shrunk_def creds by simp
  next
    case True
    let ?ids = "(\<lambda>c. hd (fst c)) ` set_mset D"
    have creds: "gone_credentials T T' = ?ids" using gone True by (simp add: gone_credentials_def)
    have rot: "T' Rotations = filter (\<lambda>r. last (fst r) \<notin> ?ids) (T Rotations)" using rest True by simp
    have same: "T' tb = T tb" if "tb \<noteq> AgentCredentials" "tb \<noteq> Rotations" for tb using rest that True by simp
    let ?C = "filter_mset (\<lambda>r. last (fst r) \<in> ?ids) (mset (T Rotations))"
    have split: "mset (T Rotations) = ?C + mset (T' Rotations)" by (simp add: rot)
    have goneC: "gone_rows T T' Rotations = ?C" unfolding gone_rows_def by (subst split) (rule add_diff_cancel_right')
    have lenC: "int (length (T Rotations)) - int (length (T' Rotations)) = int (size ?C)"
      using arg_cong [OF split, of size] by simp
    have "mset (T' Rotations) \<subseteq># mset (T Rotations)" by (subst split) (rule mset_subset_eq_add_right)
    then have "mset (T' tb) \<subseteq># mset (T tb)" for tb
      using D(3) same [of tb] True by (cases "tb = AgentCredentials"; cases "tb = Rotations") simp_all
    moreover have "(\<exists>rule \<in> set rules. ru_table rule = tb \<and> eligible now rule (snd r)) \<or> tb = Rotations \<and> last (fst r) \<in> ?ids"
      if "r \<in># gone_rows T T' tb" for tb r
    proof -
      consider "tb = AgentCredentials" | "tb = Rotations" | "tb \<noteq> AgentCredentials" "tb \<noteq> Rotations" by blast
      then show ?thesis
      proof cases
        case 1
        then have "eligible now rule (snd r)" using that gone D(2) True by metis
        then show ?thesis using rule True 1 by blast
      next
        case 2
        then show ?thesis using that goneC by simp
      next
        case 3
        then show ?thesis using that same by (simp add: gone_rows_def)
      qed
    qed
    moreover have "counted (int n) T T'"
    proof -
      have "removed T T' = (\<Sum>tb \<in> set (map ru_table rules).
          (if tb = AgentCredentials then int n else 0) + (if tb = Rotations then int (size ?C) else 0))"
        unfolding removed_def using len lenC same True by (intro sum.cong) auto
      also have "\<dots> = int n + int (size ?C)"
        unfolding sum.distrib sum_one_table using rotations_ruled by simp
      finally show ?thesis unfolding counted_def goneC creds by (intro exI [of _ ?C]) simp
    qed
    moreover have "\<forall>r \<in> set (T' Rotations). last (fst r) \<notin> ?ids" by (simp add: rot)
    ultimately show ?thesis unfolding shrunk_def creds by blast
  qed
qed

text \<open>\<open>kept\<close>: a step that only deletes, counts what it deletes and reports \<open>false\<close> only when nothing is left.\<close>

definition kept :: "int \<Rightarrow> cleanup_state \<Rightarrow> cleanup_state \<Rightarrow> bool" where
  "kept now st st' \<longleftrightarrow> shrunk now (cs_tables st) (cs_tables st')
     \<and> counted (rp_TotalAffected (cs_report st') - rp_TotalAffected (cs_report st)) (cs_tables st) (cs_tables st')
     \<and> length (rp_Results (cs_report st')) = length (rp_Results (cs_report st))
     \<and> (reported_clean now st \<longrightarrow> reported_clean now st')"

lemma kept_trans:
  assumes "kept now st st'" "kept now st' st''"
  shows "kept now st st''"
proof -
  let ?n = "\<lambda>st. rp_TotalAffected (cs_report st)"
  have s: "shrunk now (cs_tables st) (cs_tables st')" "shrunk now (cs_tables st') (cs_tables st'')"
    and c: "counted (?n st' - ?n st) (cs_tables st) (cs_tables st')" "counted (?n st'' - ?n st') (cs_tables st') (cs_tables st'')"
    using assms by (simp_all add: kept_def)
  have "counted (?n st'' - ?n st) (cs_tables st) (cs_tables st'')" using counted_trans [OF s c] by simp
  then show ?thesis using assms shrunk_trans [OF s] by (simp add: kept_def)
qed

lemma kept_refl [simp]: "kept now st st"
  by (simp add: kept_def)

lemma kept_same_tables:
  assumes "cs_db st' = cs_db st" "rp_TotalAffected (cs_report st') = rp_TotalAffected (cs_report st)"
    "length (rp_Results (cs_report st')) = length (rp_Results (cs_report st))"
    and "\<And>j. j < length (rp_Results (cs_report st)) \<Longrightarrow> rt_Backlog (rp_Results (cs_report st') ! j) = Some False \<Longrightarrow>
       rt_Backlog (rp_Results (cs_report st) ! j) = Some False
       \<or> \<not> backlog_query now (rules ! j) (cs_tables st (ru_table (rules ! j)))"
    and "length (rp_Results (cs_report st)) = length rules"
  shows "kept now st st'"
  using assms by (auto simp: kept_def reported_clean_def)

lemma nth_updated: "j < length xs \<Longrightarrow> xs[i := x] ! j = (if i = j then x else xs ! j)"
  by (cases "i = j") simp_all

lemma fail_rule_kept:
  assumes "undisturbed e" "length (rp_Results (cs_report st)) = length rules"
  shows "kept now st (fail_rule i w err (tick e st))" "kept now st (deactivate i (fail_rule i w err (tick e st)))"
  by (rule kept_same_tables; use assms in \<open>simp add: undisturbed_def nth_updated split: if_splits\<close>)+

lemma after_batch_kept:
  assumes "undisturbed e" "length (rp_Results (cs_report st)) = length rules"
  shows "kept now st (after_batch e now rowBudget limit i n st)"
proof (cases "int n < limit")
  case True
  show ?thesis
  proof (cases "ce_failed e (cs_tick st)")
    case (Some err)
    then show ?thesis using True fail_rule_kept [OF assms] by (simp add: after_batch_def Let_def)
  next
    case None
    show ?thesis using True None assms
      by (intro kept_same_tables) (auto simp: after_batch_def Let_def undisturbed_def nth_updated split: if_splits)
  qed
next
  case False
  then show ?thesis using assms
    by (intro kept_same_tables) (auto simp: after_batch_def Let_def nth_updated split: if_splits)
qed

lemma delete_batch_kept:
  assumes "undisturbed e" "length (rp_Results (cs_report st)) = length rules" "i < length rules"
    "delete_batch e now limit i st = (n, st')" "0 \<le> limit"
  shows "kept now st st'"
proof -
  have i: "i < length (rp_Results (cs_report st))" using assms(2,3) by simp
  note p = delete_batch_parts [OF assms(4,5) i]
  have "cs_db (tick e st) = cs_db st" using assms(1) by (simp add: undisturbed_def)
  then have "wiped now (rules ! i) n (cs_tables st) (cs_tables st')" using p(8) delete_rows_wiped by metis
  then have d: "shrunk now (cs_tables st) (cs_tables st') \<and> counted (int n) (cs_tables st) (cs_tables st')"
    using wiped_shrunk [OF nth_mem [OF assms(3)]] by blast
  have "rt_Backlog (rp_Results (cs_report st') ! j) = rt_Backlog (rp_Results (cs_report st) ! j)" if "j < length rules" for j
    using arg_cong [OF p(9), of "\<lambda>l. l ! j"] that p(7) assms(2) by simp
  then have "reported_clean now st \<longrightarrow> reported_clean now st'"
    unfolding reported_clean_def using shrunk_backlog d by metis
  then show ?thesis using d p(3,7) by (simp add: kept_def)
qed

lemma clean_rule_kept:
  assumes "undisturbed e" "job_ok rowBudget st" "i < length rules" "1 \<le> batchSize"
  shows "kept now st (clean_rule e now batchSize rowBudget i st)"
proof (cases "\<not> cs_active st ! i \<or> ctx_expired e st")
  case True
  then show ?thesis by (simp add: clean_rule_def)
next
  case False
  have len: "length (rp_Results (cs_report st)) = length rules" using assms(2) by (simp add: job_ok_def)
  define limit where "limit = (let rowsLeft = rowBudget - rt_Affected (rp_Results (cs_report st) ! i) in if rowsLeft < batchSize then rowsLeft else batchSize)"
  have "rt_Affected (rp_Results (cs_report st) ! i) = affs st ! i" using len assms(3) by (simp add: affs_def)
  then have lim: "0 \<le> limit" using assms(2-4) False by (auto simp: limit_def job_ok_def Let_def)
  show ?thesis
  proof (cases "ce_failed e (cs_tick st)")
    case (Some err)
    then show ?thesis using False fail_rule_kept [OF assms(1) len] by (simp add: clean_rule_def Let_def)
  next
    case None
    obtain n st' where d: "delete_batch e now limit i st = (n, st')" by (cases "delete_batch e now limit i st")
    have k: "kept now st st'" by (rule delete_batch_kept [OF assms(1) len assms(3) d lim])
    moreover have "kept now st' (after_batch e now rowBudget limit i n st')"
      using k len by (intro after_batch_kept assms(1)) (simp add: kept_def)
    moreover have "clean_rule e now batchSize rowBudget i st
        = (case delete_batch e now limit i st of (n, st') \<Rightarrow> after_batch e now rowBudget limit i n st')"
      unfolding limit_def Let_def using False None by (simp add: clean_rule_def Let_def)
    ultimately show ?thesis unfolding d prod.case by (simp only: kept_trans)
  qed
qed

lemma fold_kept:
  assumes "\<And>i st. i \<in> set js \<Longrightarrow> P st \<Longrightarrow> kept now st (f i st) \<and> P (f i st)" "P st"
  shows "kept now st (fold f js st) \<and> P (fold f js st)"
  using assms
proof (induction js arbitrary: st)
  case (Cons i js)
  have one: "kept now st (f i st)" "P (f i st)" using Cons.prems(1) [of i st] Cons.prems(2) by simp_all
  have rest: "kept now (f i st) (fold f js (f i st)) \<and> P (fold f js (f i st))"
    by (rule Cons.IH) (use Cons.prems(1) one(2) in simp_all)
  show ?case unfolding fold_simps(2) using kept_trans [OF one(1)] rest by blast
qed simp

lemma clean_pass_kept:
  assumes "undisturbed e" "job_ok rowBudget st" "1 \<le> batchSize"
  shows "kept now st (clean_pass e now batchSize rowBudget st) \<and> job_ok rowBudget (clean_pass e now batchSize rowBudget st)"
  unfolding clean_pass_def
proof (rule fold_kept [where P = "job_ok rowBudget"])
  fix i st assume "i \<in> set [0..<length rules]" "job_ok rowBudget st"
  then show "kept now st (clean_rule e now batchSize rowBudget i st) \<and> job_ok rowBudget (clean_rule e now batchSize rowBudget i st)"
    using clean_rule_kept [OF assms(1)] clean_rule_progressed assms(3) unfolding progressed_def by simp
qed (fact assms(2))

lemma clean_loop_kept:
  assumes "undisturbed e" "job_ok rowBudget st" "1 \<le> batchSize" "clean_loop e now batchSize rowBudget fuel st = Some st'"
  shows "kept now st st' \<and> job_ok rowBudget st'"
  using assms(2,4)
proof (induction fuel arbitrary: st)
  case 0
  then show ?case by (subst (asm) clean_loop.simps) (auto split: if_splits)
next
  case (Suc n)
  show ?case
  proof (cases "cs_remaining st > 0 \<and> \<not> ctx_expired e st")
    case False
    then show ?thesis using Suc.prems by (subst (asm) clean_loop.simps) auto
  next
    case True
    then have "clean_loop e now batchSize rowBudget n (clean_pass e now batchSize rowBudget st) = Some st'"
      using Suc.prems(2) by (subst (asm) clean_loop.simps) simp
    then show ?thesis using Suc.IH clean_pass_kept [OF assms(1) Suc.prems(1) assms(3)] kept_trans by blast
  qed
qed

lemma map_affected_same: "rt_Affected x = rt_Affected (xs ! i) \<Longrightarrow> map rt_Affected (xs[i := x]) = map rt_Affected xs"
  by (cases "i < length xs") (simp_all add: map_update list_update_same_conv list_update_beyond)

lemma final_backlog_fields:
  "affs (final_backlog e now i st) = affs st"
  "rp_TotalAffected (cs_report (final_backlog e now i st)) = rp_TotalAffected (cs_report st)"
  "length (rp_Results (cs_report (final_backlog e now i st))) = length (rp_Results (cs_report st))"
  by (simp_all add: final_backlog_def Let_def affs_def map_affected_same split: option.splits)

lemma finish_fields:
  "affs (finish e now st) = affs st"
  "rp_TotalAffected (cs_report (finish e now st)) = rp_TotalAffected (cs_report st)"
proof -
  have "affs (fold (final_backlog e now) js st) = affs st
      \<and> rp_TotalAffected (cs_report (fold (final_backlog e now) js st)) = rp_TotalAffected (cs_report st)" for js st
    by (induction js arbitrary: st) (simp_all add: final_backlog_fields)
  then show "affs (finish e now st) = affs st" "rp_TotalAffected (cs_report (finish e now st)) = rp_TotalAffected (cs_report st)"
    by (simp_all add: finish_def) (simp_all add: affs_def)
qed

lemma final_backlog_kept:
  assumes "undisturbed e" "length (rp_Results (cs_report st)) = length rules"
  shows "kept now st (final_backlog e now i st)"
proof (cases "rt_Backlog (rp_Results (cs_report st) ! i) \<noteq> None \<or> rt_Error (rp_Results (cs_report st) ! i) \<noteq> [] \<or> ctx_expired e st")
  case True
  then show ?thesis by (auto simp: final_backlog_def Let_def)
next
  case False
  show ?thesis
  proof (cases "ce_failed e (cs_tick st)")
    case (Some err)
    then show ?thesis using False fail_rule_kept [OF assms] by (simp add: final_backlog_def Let_def)
  next
    case None
    then show ?thesis using False assms
      by (intro kept_same_tables) (auto simp: final_backlog_def Let_def undisturbed_def nth_updated split: if_splits)
  qed
qed

lemma finish_kept:
  assumes "undisturbed e" "length (rp_Results (cs_report st)) = length rules"
  shows "kept now st (finish e now st)"
proof -
  let ?st = "if ctx_expired e st then st\<lparr>cs_report := (cs_report st)\<lparr>rp_BudgetReached := True\<rparr>\<rparr> else st"
  have one: "kept now st ?st" by (rule kept_same_tables) (use assms in \<open>auto split: if_splits\<close>)
  have "kept now ?st (fold (final_backlog e now) [0..<length rules] ?st)
      \<and> length (rp_Results (cs_report (fold (final_backlog e now) [0..<length rules] ?st))) = length rules"
    by (rule fold_kept [where P = "\<lambda>st. length (rp_Results (cs_report st)) = length rules"])
      (use assms final_backlog_kept [OF assms(1)] in \<open>simp_all add: final_backlog_fields\<close>)
  then show ?thesis unfolding finish_def using kept_trans [OF one] by blast
qed

subsection \<open>A run as a sequence of transactions\<close>

text \<open>
  Whatever relation holds across every delete of a rule and across what others write meanwhile
  leads from the tables a run finds to the tables it leaves.
\<close>

definition steps_by :: "(server \<Rightarrow> server \<Rightarrow> bool) \<Rightarrow> cleanup_env \<Rightarrow> int \<Rightarrow> bool" where
  "steps_by R e now \<longleftrightarrow> (\<forall>k sv. R\<^sup>*\<^sup>* sv (ce_others e k sv))
     \<and> (\<forall>rule \<in> set rules. \<forall>locked limit sv. R\<^sup>*\<^sup>* sv (snd (delete_rows now rule locked limit sv)))"

lemma others_path: "steps_by R e now \<Longrightarrow> R\<^sup>*\<^sup>* (cs_db st) (cs_db (tick e st))"
  by (simp add: steps_by_def)

lemma delete_batch_db: "cs_db (snd (delete_batch e now limit i st)) =
    snd (delete_rows now (rules ! i) (ce_locked e (cs_tick st)) (nat limit) (cs_db (tick e st)))"
  by (simp add: delete_batch_def Let_def split: prod.splits)

lemma delete_batch_path:
  assumes "steps_by R e now" "i < length rules"
  shows "R\<^sup>*\<^sup>* (cs_db st) (cs_db (snd (delete_batch e now limit i st)))"
  using others_path [OF assms(1), of st] assms unfolding delete_batch_db steps_by_def
  by (meson nth_mem rtranclp_trans)

lemma after_batch_path: "steps_by R e now \<Longrightarrow> R\<^sup>*\<^sup>* (cs_db st) (cs_db (after_batch e now rowBudget limit i n st))"
  by (simp add: after_batch_def Let_def steps_by_def split: option.splits)

lemma clean_rule_path:
  assumes "steps_by R e now" "i < length rules"
  shows "R\<^sup>*\<^sup>* (cs_db st) (cs_db (clean_rule e now batchSize rowBudget i st))"
proof (cases "\<not> cs_active st ! i \<or> ctx_expired e st")
  case False
  have batch: "R\<^sup>*\<^sup>* (cs_db st) (cs_db (case delete_batch e now limit i st of (n, st') \<Rightarrow> after_batch e now rowBudget limit i n st'))" for limit
    using rtranclp_trans [OF delete_batch_path [OF assms] after_batch_path [OF assms(1)]] by (simp add: split_beta)
  show ?thesis
    using False batch assms(1) by (simp add: clean_rule_def Let_def steps_by_def split: option.splits)
qed (auto simp: clean_rule_def)

lemma fold_path: "(\<And>i st. i \<in> set js \<Longrightarrow> R\<^sup>*\<^sup>* (cs_db st) (cs_db (f i st))) \<Longrightarrow> R\<^sup>*\<^sup>* (cs_db st) (cs_db (fold f js st))"
  by (induction js arbitrary: st) (auto intro: rtranclp_trans)

lemma clean_loop_path:
  assumes "steps_by R e now" "clean_loop e now batchSize rowBudget fuel st = Some st'"
  shows "R\<^sup>*\<^sup>* (cs_db st) (cs_db st')"
  using assms(2)
proof (induction fuel arbitrary: st)
  case 0
  then show ?case by (subst (asm) clean_loop.simps) (auto split: if_splits)
next
  case (Suc n)
  have one_pass: "R\<^sup>*\<^sup>* (cs_db st) (cs_db (clean_pass e now batchSize rowBudget st))"
    unfolding clean_pass_def by (rule fold_path) (use clean_rule_path [OF assms(1)] in simp)
  show ?case
    using Suc.prems Suc.IH rtranclp_trans [OF one_pass] by (subst (asm) clean_loop.simps) (auto split: if_splits)
qed

lemma finish_path:
  assumes "steps_by R e now"
  shows "R\<^sup>*\<^sup>* (cs_db st) (cs_db (finish e now st))"
proof -
  have "R\<^sup>*\<^sup>* (cs_db st1) (cs_db (fold (final_backlog e now) [0..<length rules] st1))" for st1
    by (rule fold_path) (use assms in \<open>simp add: final_backlog_def Let_def steps_by_def split: option.splits\<close>)
  from this [of "if ctx_expired e st then st\<lparr>cs_report := (cs_report st)\<lparr>rp_BudgetReached := True\<rparr>\<rparr> else st"]
  show ?thesis by (simp add: finish_def split: if_splits)
qed

lemma RunWithBudget_path:
  assumes "steps_by R e now" "RunWithBudget fuel e now batchSize rowBudget maxRunTime sv = Some (Inr (report, failures, sv'))"
  shows "R\<^sup>*\<^sup>* sv sv'"
proof -
  obtain st where loop: "clean_loop e now batchSize rowBudget fuel (start_state batchSize rowBudget sv) = Some st"
    and sv': "sv' = cs_db (finish e now st)"
    using assms(2) by (auto simp: RunWithBudget_def Let_def split: if_splits)
  have "R\<^sup>*\<^sup>* sv (cs_db st)" using clean_loop_path [OF assms(1) loop] by (simp add: start_state_def)
  then show ?thesis unfolding sv' using finish_path [OF assms(1)] by (rule rtranclp_trans)
qed

subsection \<open>The job\<close>

lemma run_loop_ends:
  assumes "1 \<le> batchSize" "1 \<le> rowBudget" "rowBudget \<le> int fuel"
  shows "\<exists>st. clean_loop e now batchSize rowBudget fuel (start_state batchSize rowBudget sv) = Some st \<and> job_ok rowBudget st"
proof -
  let ?st = "start_state batchSize rowBudget sv"
  have "affs ?st ! i = 0" if "i < length rules" for i
    using that by (simp add: affs_def start_state_def start_result_def)
  then show ?thesis
    using clean_loop_ends [OF start_job_ok [OF assms(2)] assms(1), of e batchSize sv fuel now] assms(3) by auto
qed

text \<open>
  C30: Whatever fails, is locked or is written meanwhile, and even without a deadline, a cleanup
  run with valid settings ends, after at most as many passes over the rules as the row budget;
  no rule deletes more than the budget and the total is the sum over the rules.
\<close>

theorem RunWithBudget_ends:
  assumes "1 \<le> batchSize" "batchSize \<le> DefaultBatchSize" "1 \<le> rowBudget" "0 < maxRunTime" "rowBudget \<le> int fuel"
  shows "\<exists>report failures sv'. RunWithBudget fuel e now batchSize rowBudget maxRunTime sv = Some (Inr (report, failures, sv'))
      \<and> length (rp_Results report) = length rules
      \<and> (\<forall>r \<in> set (rp_Results report). 0 \<le> rt_Affected r \<and> rt_Affected r \<le> rowBudget)
      \<and> rp_TotalAffected report = sum_list (map rt_Affected (rp_Results report))"
proof -
  let ?st = "start_state batchSize rowBudget sv"
  obtain st where run: "clean_loop e now batchSize rowBudget fuel ?st = Some st" and st: "job_ok rowBudget st"
    using run_loop_ends [OF assms(1,3,5)] by blast
  let ?report = "cs_report (finish e now st)"
  have a: "map rt_Affected (rp_Results ?report) = affs st" using finish_fields(1) by (simp add: affs_def)
  have len: "length (rp_Results ?report) = length rules"
    using map_eq_imp_length_eq [OF a [unfolded affs_def]] st by (simp add: job_ok_def)
  have "0 \<le> rt_Affected r \<and> rt_Affected r \<le> rowBudget" if r: "r \<in> set (rp_Results ?report)" for r
  proof -
    have "rt_Affected r \<in> set (affs st)" using r unfolding a [symmetric] by simp
    moreover have "length (affs st) = length rules" using st by (simp add: job_ok_def affs_def)
    ultimately show ?thesis using st by (auto simp: job_ok_def in_set_conv_nth)
  qed
  moreover have "rp_TotalAffected ?report = sum_list (map rt_Affected (rp_Results ?report))"
    using st unfolding a finish_fields(2) by (simp add: job_ok_def)
  moreover have "RunWithBudget fuel e now batchSize rowBudget maxRunTime sv
      = Some (Inr (?report, cs_failures (finish e now st), cs_db (finish e now st)))"
    using assms run by (simp add: RunWithBudget_def Let_def)
  ultimately show ?thesis using len by blast
qed

text \<open>
  Two sessions, one of them expired, a credential revoked long ago with its rotation, and an
  environment in which nothing goes wrong.
\<close>

definition ex_cleanup_env :: cleanup_env where
  "ex_cleanup_env = \<lparr>ce_deadline = None, ce_failed = (\<lambda>k. None), ce_locked = (\<lambda>k r. False), ce_others = (\<lambda>k sv. sv)\<rparr>"

definition ex_clean_server :: server where
  "ex_clean_server =
     \<lparr>sv_auth = \<lparr>store = \<lparr>users = [], entitlement_rows = [], usages = [], agent_rows = [], buckets = [], tasks = [], entries = [],
          idem_keys = [], run_starts = []\<rparr>,
        sessions = [\<lparr>se_user = ''u1'', se_hash = ''s1'', se_expires = 5\<rparr>, \<lparr>se_user = ''u1'', se_hash = ''s2'', se_expires = 10 ^ 15\<rparr>],
        api_tokens = [],
        credentials = [\<lparr>cd_id = ''c1'', cd_agent = ''g1'', cd_hash = ''h1'', cd_prefix = None, cd_last_used = None, cd_revoked = Some 6,
          cd_created = 1, cd_updated = 6\<rparr>],
        rotations = [\<lparr>ro_owner = ''u1'', ro_key = ''k1'', ro_agent = ''g1'', ro_credential = ''c1'', ro_created = 10 ^ 13\<rparr>],
        reset_tokens = [], reset_requests = [], signup_limits = [], reset_limits = [], confirm_limits = []\<rparr>,
      sv_limits = \<lparr>rl_settings = None, rl_state = [], rl_metrics = []\<rparr>\<rparr>"

theorem RunWithBudget_ends_witness:
  "\<exists>report failures sv'. RunWithBudget 2 ex_cleanup_env (10 ^ 13) 1 2 1 ex_clean_server = Some (Inr (report, failures, sv'))
      \<and> (\<forall>r \<in> set (rp_Results report). rt_Affected r \<le> 2)"
  using RunWithBudget_ends [of 1 2 1 2 ex_cleanup_env "10 ^ 13" ex_clean_server] by (fastforce simp: DefaultBatchSize_def)

text \<open>
  C31: When nobody else writes, a cleanup run removes from every table only rows that a retention
  rule of that table makes eligible, and the rotations of the credentials it removed, of which none
  is left; its total is the number of rows removed, but for rotations that went with their credential,
  and where it reports no backlog no eligible row of the rule is left.
\<close>

theorem RunWithBudget_deletes_eligible:
  assumes "\<And>k s. ce_others e k s = s"
    and run: "RunWithBudget fuel e now batchSize rowBudget maxRunTime sv = Some (Inr (report, failures, sv'))"
  defines "T \<equiv> table_rows sv" and "T' \<equiv> table_rows sv'"
  defines "cascade \<equiv> (\<lambda>c. hd (fst c)) ` set_mset (mset (T AgentCredentials) - mset (T' AgentCredentials))"
  shows "(\<forall>tb. mset (T' tb) \<subseteq># mset (T tb))
      \<and> (\<forall>tb r. r \<in># mset (T tb) - mset (T' tb) \<longrightarrow>
            (\<exists>rule \<in> set rules. ru_table rule = tb \<and> eligible now rule (snd r)) \<or> tb = Rotations \<and> last (fst r) \<in> cascade)
      \<and> (\<forall>r \<in> set (T' Rotations). last (fst r) \<notin> cascade)
      \<and> (\<exists>C. C \<subseteq># mset (T Rotations) - mset (T' Rotations) \<and> (\<forall>r. r \<in># C \<longrightarrow> last (fst r) \<in> cascade)
            \<and> rp_TotalAffected report = (\<Sum>tb \<in> set (map ru_table rules). int (length (T tb)) - int (length (T' tb))) - int (size C))
      \<and> (\<forall>i < length rules. rt_Backlog (rp_Results report ! i) = Some False \<longrightarrow>
           (\<forall>r \<in> set (T' (ru_table (rules ! i))). \<not> eligible now (rules ! i) (snd r)))"
proof -
  have und: "undisturbed e" using assms(1) by (simp add: undisturbed_def)
  let ?st = "start_state batchSize rowBudget sv"
  have valid: "1 \<le> batchSize" "1 \<le> rowBudget" using run by (auto simp: RunWithBudget_def split: if_splits)
  obtain st where loop: "clean_loop e now batchSize rowBudget fuel ?st = Some st"
    and out: "report = cs_report (finish e now st)" "sv' = cs_db (finish e now st)"
    using run by (auto simp: RunWithBudget_def Let_def split: if_splits)
  have k: "kept now ?st st" and ok: "job_ok rowBudget st"
    using clean_loop_kept [OF und start_job_ok [OF valid(2)] valid(1) loop] by simp_all
  have "kept now st (finish e now st)" using ok by (intro finish_kept und) (simp add: job_ok_def)
  then have all: "kept now ?st (finish e now st)" using kept_trans [OF k] by blast
  have start: "cs_db ?st = sv" "rp_TotalAffected (cs_report ?st) = 0" "reported_clean now ?st"
    by (simp_all add: start_state_def reported_clean_def start_result_def)
  have "shrunk now T T'" "counted (rp_TotalAffected report) T T'" and clean: "reported_clean now (finish e now st)"
    using all start(3) unfolding kept_def start(1,2) out T_def T'_def by simp_all
  moreover have "cascade = gone_credentials T T'" by (simp add: cascade_def gone_credentials_def gone_rows_def)
  moreover from clean have "\<forall>i < length rules. rt_Backlog (rp_Results report ! i) = Some False \<longrightarrow>
      (\<forall>r \<in> set (T' (ru_table (rules ! i))). \<not> eligible now (rules ! i) (snd r))"
    by (auto simp: reported_clean_def backlog_query_def list_ex_iff out T'_def)
  ultimately show ?thesis unfolding shrunk_def counted_def removed_def gone_rows_def by force
qed

theorem RunWithBudget_deletes_eligible_witness:
  "\<exists>report failures sv'. RunWithBudget 2 ex_cleanup_env (10 ^ 13) 1 2 1 ex_clean_server = Some (Inr (report, failures, sv'))
      \<and> mset (table_rows sv' Sessions) \<subseteq># mset (table_rows ex_clean_server Sessions)
      \<and> ([''s2''], [(''expires_at'', 10 ^ 15)]) \<in> set (table_rows sv' Sessions)"
proof -
  obtain st where "clean_loop ex_cleanup_env (10 ^ 13) 1 2 2 (start_state 1 2 ex_clean_server) = Some st"
    using run_loop_ends [of 1 2 2 ex_cleanup_env "10 ^ 13" ex_clean_server] by auto
  then obtain report failures sv' where run: "RunWithBudget 2 ex_cleanup_env (10 ^ 13) 1 2 1 ex_clean_server = Some (Inr (report, failures, sv'))"
    by (simp add: RunWithBudget_def DefaultBatchSize_def Let_def)
  have env: "ce_others ex_cleanup_env k s = s" for k s by (simp add: ex_cleanup_env_def)
  note del = RunWithBudget_deletes_eligible [OF env run]
  let ?row = "([''s2''], [(''expires_at'', 10 ^ 15)]) :: shown_row"
  have live: "\<not> eligible (10 ^ 13) rule (snd ?row)" if "rule \<in> set rules" "ru_table rule = Sessions" for rule
    using that by (auto simp: rules_def newRule_def eligible_def)
  have row: "?row \<in> set (table_rows ex_clean_server Sessions)" by (simp add: table_rows_def ex_clean_server_def session_view_def)
  have "?row \<notin># mset (table_rows ex_clean_server Sessions) - mset (table_rows sv' Sessions)" using del live by blast
  then have "count (mset (table_rows ex_clean_server Sessions)) ?row \<le> count (mset (table_rows sv' Sessions)) ?row"
    by (simp add: in_diff_count)
  moreover have "0 < count (mset (table_rows ex_clean_server Sessions)) ?row" using row by simp
  ultimately have "0 < count (mset (table_rows sv' Sessions)) ?row" by (rule less_le_trans [rotated])
  then have "?row \<in> set (table_rows sv' Sessions)" by simp
  then show ?thesis using run del [THEN conjunct1] by blast
qed

end
