(* ===== verification/AccountLife.thy ===== *)
theory AccountLife
  imports AccountRules
begin

section \<open>The life of an account\<close>

text \<open>
  What a new member gets, and what no later transaction takes away: the Inbox of an account.
\<close>

subsection \<open>Which steps touch the lists\<close>

lemma CreateAdmin_buckets: "CreateAdmin adb now fresh email pw = Inr (adb', user) \<Longrightarrow> buckets (store adb') = buckets (store adb)"
  unfolding CreateAdmin_def by (elim rbind_elims) (auto elim!: insert_user_InrE dest!: insert_entitlement_InrD)

lemma login_buckets:
  "UpdateProfile adb u theme name = Inr (adb', user) \<Longrightarrow> buckets (store adb') = buckets (store adb)"
  "SetMemberDisabled toLower adb now email off = Inr (adb', x) \<Longrightarrow> buckets (store adb') = buckets (store adb)"
  "ResetPassword adb h pw now = Inr (adb', x) \<Longrightarrow> buckets (store adb') = buckets (store adb)"
proof -
  show "UpdateProfile adb u theme name = Inr (adb', user) \<Longrightarrow> buckets (store adb') = buckets (store adb)"
    unfolding UpdateProfile_def Let_def by (elim rbind_elims) auto
  show "SetMemberDisabled toLower adb now email off = Inr (adb', x) \<Longrightarrow> buckets (store adb') = buckets (store adb)"
    by (erule SetMemberDisabled_InrE) (simp add: Let_def)
  show "ResetPassword adb h pw now = Inr (adb', x) \<Longrightarrow> buckets (store adb') = buckets (store adb)"
    by (erule ResetPassword_InrE) simp
qed

lemma session_stores:
  "CreateSession adb u pw h ex = Inr (adb', x) \<Longrightarrow> store adb' = store adb"
  "CreateAPIToken adb now fresh u name h = Inr (adb', token) \<Longrightarrow> store adb' = store adb"
  "RevokeAPIToken e adb now u i = Inr (adb', x) \<Longrightarrow> store adb' = store adb"
  "FindUserByAPITokenHash adb h now = Inr (adb', user) \<Longrightarrow> store adb' = store adb"
  "CreatePasswordResetToken tskip adb now email h ex = Inr (adb', x) \<Longrightarrow> store adb' = store adb"
  by (auto simp: CreateSession_def CreateAPIToken_def RevokeAPIToken_def CreatePasswordResetToken_def FindUserByAPITokenHash_def
      Let_def rbind_eq_Inr split: option.splits)

lemma queue_stores:
  "ConsumeSignupAttempt skip adb a b now win limit = Inr (adb', r) \<Longrightarrow> store adb' = store adb"
  "ConsumePasswordResetAttempt skip adb a b now win limit = Inr (adb', r) \<Longrightarrow> store adb' = store adb"
  "ConsumePasswordResetConfirmationAttempt skip adb a b now win limit = Inr (adb', r) \<Longrightarrow> store adb' = store adb"
  "QueuePasswordResetRequest adb txnow fresh email now = Inr (adb', x) \<Longrightarrow> store adb' = store adb"
  "ClaimPasswordResetRequest rskip adb now = Inr (adb', request) \<Longrightarrow> store adb' = store adb"
  by (auto simp: ConsumeSignupAttempt_def ConsumePasswordResetAttempt_def ConsumePasswordResetConfirmationAttempt_def
      QueuePasswordResetRequest_def ClaimPasswordResetRequest_def rbind_eq_Inr split: list.splits)

lemma insert_credential_store: "insert_credential adb now fresh a h p = Inr (adb', c) \<Longrightarrow> store adb' = store adb"
  by (erule insert_credential_InrE) simp

lemma agent_buckets:
  "CreateAgent e adb now fresh freshC u name purpose h pre = Inr (adb', ag) \<Longrightarrow> buckets (store adb') = buckets (store adb)"
  "UpdateAgent e adb now u i name purpose = Inr (adb', upd) \<Longrightarrow> buckets (store adb') = buckets (store adb)"
  "DeleteAgent e adb u i = Inr (adb', x) \<Longrightarrow> buckets (store adb') = buckets (store adb)"
proof -
  show "CreateAgent e adb now fresh freshC u name purpose h pre = Inr (adb', ag) \<Longrightarrow> buckets (store adb') = buckets (store adb)"
    unfolding CreateAgent_def Let_def by (elim rbind_elims) (auto dest: insert_credential_store)
  show "UpdateAgent e adb now u i name purpose = Inr (adb', upd) \<Longrightarrow> buckets (store adb') = buckets (store adb)"
    unfolding UpdateAgent_def Let_def by (elim rbind_elims) auto
  show "DeleteAgent e adb u i = Inr (adb', x) \<Longrightarrow> buckets (store adb') = buckets (store adb)"
    by (erule DeleteAgent_InrE) simp
qed

lemma credential_stores:
  "RevokeAgentToken e adb now u i = Inr (adb', x) \<Longrightarrow> store adb' = store adb"
  "RevokeCredential adb now u i = Inr (adb', x) \<Longrightarrow> store adb' = store adb"
  "RotateCredential adb now fresh u i key h pre = Inr (adb', (c, rotated)) \<Longrightarrow> store adb' = store adb"
proof -
  show "RevokeAgentToken e adb now u i = Inr (adb', x) \<Longrightarrow> store adb' = store adb"
    "RevokeCredential adb now u i = Inr (adb', x) \<Longrightarrow> store adb' = store adb"
    unfolding RevokeAgentToken_def RevokeCredential_def by (elim rbind_elims; auto)+
  show "RotateCredential adb now fresh u i key h pre = Inr (adb', (c, rotated)) \<Longrightarrow> store adb' = store adb"
    by (erule RotateCredential_cases) (auto dest: insert_credential_store)
qed

lemmas store_frames = session_stores queue_stores credential_stores
lemmas bucket_frames = CreateAdmin_buckets login_buckets agent_buckets

subsection \<open>New members\<close>

lemma CreateInvitedMember_buckets:
  assumes inv: "account_inv e adb" and gen: "\<And>n. gen n \<noteq> []"
    and run: "CreateInvitedMember adb now fresh gen email pw h ex = Inr (adb', user)"
  shows "map (\<lambda>b. (bk_user b, bk_inbox b, bk_name b)) (buckets (store adb')) =
      map (\<lambda>b. (bk_user b, bk_inbox b, bk_name b)) (buckets (store adb)) @ map (\<lambda>(name, goal, inbox). (uID user, inbox, name)) defaultLists"
  using run
proof (rule CreateInvitedMember_InrE)
  fix row es db3
  let ?db = "(store adb)\<lparr>users := users (store adb) @ [row], entitlement_rows := es\<rparr>"
  assume row: "us_id row = fresh" "us_email row = email" "\<not> us_disabled row" "fresh \<notin> us_id ` set (users (store adb))"
    "email \<notin> us_email ` set (users (store adb))" and u: "uID user = fresh"
    and il: "insert_lists ?db now fresh gen 0 defaultLists = Inr db3"
    and adb': "adb' = adb\<lparr>store := db3, sessions := sessions adb @ [\<lparr>se_user = fresh, se_hash = h, se_expires = ex\<rparr>]\<rparr>"
  have "account_inv e (adb\<lparr>store := (store adb)\<lparr>users := users (store adb) @ [row]\<rparr>\<rparr>)"
    using account_inv_user_added [OF inv, of row] row by simp
  then have "store_inv ?db" using store_inv_entitlements [of es "(store adb)\<lparr>users := users (store adb) @ [row]\<rparr>"] by (simp add: account_inv_def)
  moreover have "enabled (users ?db) fresh" using row by (auto simp: enabled_def)
  ultimately show ?thesis using insert_lists_inv [OF _ _ gen defaultLists_names il] u by (simp add: adb')
qed

lemma inbox_of_map: "has_inbox db u = list_ex (\<lambda>(v, inbox, name). v = u \<and> inbox) (map (\<lambda>b. (bk_user b, bk_inbox b, bk_name b)) (buckets db))"
  by (simp add: has_inbox_def list_ex_iff)

lemma account_step_inbox:
  assumes "account_step e adb adb'" "account_inv e adb" "has_inbox (store adb) v"
  shows "has_inbox (store adb') v"
  using assms
proof (induction rule: account_step.induct)
  case (board adb db')
  then show ?case using board_step_inbox [OF board(1) _ board(3)] by (simp add: account_inv_def)
next
  case (member adb now fresh gen email pw h ex adb' user)
  then show ?case using CreateInvitedMember_buckets [OF member(3,2,1)] by (simp add: inbox_of_map)
next
  case (clean_up rule now locked limit adb n adb')
  then show ?case using delete_account_rows_frame(3) [OF clean_up(2)] by (simp add: has_inbox_def)
qed (simp_all add: has_inbox_def store_frames bucket_frames CompletePasswordResetRequest_def RetryPasswordResetRequest_def DeleteSession_def
    Let_def)

lemma inbox_stays:
  assumes "(account_step e)\<^sup>*\<^sup>* adb adb'" "account_inv e adb" "has_inbox (store adb) v"
  shows "has_inbox (store adb') v"
  using assms
proof (induction rule: rtranclp_induct)
  case (step adb1 adb2)
  then show ?case using account_step_inbox slate.good_steps by blast
qed simp

lemma one_inbox_count:
  assumes "account_inv e adb" "has_inbox (store adb) v"
  shows "count_where (\<lambda>b. bk_user b = v \<and> bk_inbox b) (buckets (store adb)) = 1"
proof -
  let ?n = "count_where (\<lambda>b. bk_user b = v \<and> bk_inbox b) (buckets (store adb))"
  have "?n \<le> 1" using assms(1) by (simp add: account_inv_def store_inv_def structure_ok_def inbox_ok_def)
  moreover have "?n \<noteq> 0" using assms(2) by (auto simp: has_inbox_def list_ex_iff count_where_def filter_empty_conv)
  ultimately show ?thesis using count_where_nonneg [of "\<lambda>b. bk_user b = v \<and> bk_inbox b" "buckets (store adb)"] by linarith
qed

text \<open>
  C9: Every member always has exactly one Inbox. It gets one when the account is created, and
  no later sequence of transactions by anyone, renaming, marking, deleting and reordering lists
  included, leaves the account with none or with two.
\<close>

theorem inbox_survives:
  assumes "reachable account_init (account_step e) adb" and "\<And>n. gen n \<noteq> []"
    and "CreateInvitedMember adb now fresh gen email pw h ex = Inr (adb1, user)"
    and "(account_step e)\<^sup>*\<^sup>* adb1 adb2"
  shows "count_where (\<lambda>b. bk_user b = uID user \<and> bk_inbox b) (buckets (store adb2)) = 1"
proof -
  have inv: "account_inv e adb" using slate.good_reachable [OF assms(1)] .
  have inv1: "account_inv e adb1" by (rule CreateInvitedMember_inv [OF inv assms(2,3)])
  have "has_inbox (store adb1) (uID user)"
    using CreateInvitedMember_buckets [OF inv assms(2,3)] by (simp add: inbox_of_map defaultLists_def)
  then show ?thesis
    using inbox_stays [OF assms(4) inv1] slate.good_steps [OF assms(4) inv1] one_inbox_count by blast
qed

theorem inbox_survives_witness:
  "\<exists>adb user db' task. ex_signup = Inr (adb, user) \<and> ex_capture adb = Inr (db', task)
    \<and> count_where (\<lambda>b. bk_user b = uID user \<and> bk_inbox b) (buckets db') = 1"
proof (rule ex_capture_runs)
  fix adb user db' task
  assume run: "ex_signup = Inr (adb, user)" "ex_capture adb = Inr (db', task)"
  have "board_step ex_env (store adb) db'"
    by (rule step_CreateInboxTask [OF run(2) [unfolded ex_capture_def]]) simp_all
  then have "(account_step ex_env)\<^sup>*\<^sup>* adb (adb\<lparr>store := db'\<rparr>)" using account_step.board by blast
  moreover have "reachable account_init (account_step ex_env) empty_auth" by (rule reachable_start) (rule empty_init)
  moreover have "ex_gen n \<noteq> []" for n by (simp add: ex_gen_def)
  ultimately show ?thesis
    using inbox_survives [OF _ _ run(1) [unfolded ex_signup_def], of ex_env "adb\<lparr>store := db'\<rparr>"] run by auto
qed

lemma fresh_user_no_buckets:
  assumes "account_inv e adb" "fresh \<notin> us_id ` set (users (store adb))"
  shows "filter (\<lambda>b. bk_user b = fresh) (buckets (store adb)) = []"
proof -
  have "list_all (\<lambda>b. bk_user b \<in> us_id ` set (users (store adb))) (buckets (store adb))"
    using assms(1) by (auto simp: account_inv_def store_inv_def structure_ok_def refs_ok_def list_all_iff)
  then show ?thesis using assms(2) by (auto simp: filter_empty_conv list_all_iff)
qed

lemma find_appended: "(\<And>x. x \<in> set xs \<Longrightarrow> \<not> P x) \<Longrightarrow> List.find P (xs @ [r]) = (if P r then Some r else None)"
  by (induction xs) auto

lemma insert_lists_frame:
  "insert_lists db now u gen n ls = Inr db' \<Longrightarrow> users db' = users db \<and> entitlement_rows db' = entitlement_rows db"
proof (induction ls arbitrary: db n)
  case (Cons l ls)
  obtain name goal inbox where l: "l = (name, goal, inbox)" by (cases l)
  from Cons.prems obtain db1 where "insert_bucket db (new_bucket now (gen n) u name goal ''slate'' inbox
        (lim_ActiveItemsPerList ProLimits) (int n)) = Inr db1" "insert_lists db1 now u gen (Suc n) ls = Inr db'"
    by (auto simp: l split: sum.splits store_error.splits)
  then show ?case using Cons.IH [of db1 "Suc n"] by (auto simp: insert_bucket_eq_Inr)
qed simp

text \<open>
  C10: A new member starts complete. A successful sign-up was for an address nobody had; it gives
  the account the Inbox and the four default lists in their order, stores the password hash
  under the address, and signs the member in: the session authenticates it until it expires.
\<close>

theorem CreateInvitedMember_account:
  assumes "reachable account_init (account_step e) adb" and "\<And>n. gen n \<noteq> []"
    and "CreateInvitedMember adb now fresh gen email pw h ex = Inr (adb', user)"
  shows "email \<notin> us_email ` set (users (store adb))
    \<and> map (\<lambda>b. (bk_name b, bk_inbox b)) (filter (\<lambda>b. bk_user b = uID user) (buckets (store adb'))) =
        [(''Inbox'', True), (''Product'', False), (''Content'', False), (''Growth'', False), (''Operations'', False)]
    \<and> map_sum id (\<lambda>(u, p). (uID u, p)) (FindUserByEmail adb' email) = Inr (uID user, pw)
    \<and> (\<forall>t. map_sum id uID (FindUserBySessionHash adb' h t) = (if t < ex then Inr (uID user) else Inl ErrUnauthorized))"
  using assms(3)
proof (rule CreateInvitedMember_InrE)
  fix row es db3
  let ?db = "(store adb)\<lparr>users := users (store adb) @ [row], entitlement_rows := es\<rparr>"
  let ?k = "\<lambda>b. (bk_user b, bk_inbox b, bk_name b)"
  assume row: "us_id row = fresh" "us_email row = email" "\<not> us_disabled row" "us_password row = pw" "fresh \<notin> us_id ` set (users (store adb))"
    "email \<notin> us_email ` set (users (store adb))" and u: "uID user = fresh"
    and il: "insert_lists ?db now fresh gen 0 defaultLists = Inr db3" and h: "h \<notin> se_hash ` set (sessions adb)"
    and adb': "adb' = adb\<lparr>store := db3, sessions := sessions adb @ [\<lparr>se_user = fresh, se_hash = h, se_expires = ex\<rparr>]\<rparr>"
  have inv: "account_inv e adb" using slate.good_reachable [OF assms(1)] .
  have us: "users db3 = users (store adb) @ [row]" using insert_lists_frame [OF il] by simp
  have no: "filter (\<lambda>k. fst k = fresh) (map ?k (buckets (store adb))) = []"
    using fresh_user_no_buckets [OF inv row(5)] by (simp add: filter_map comp_def)
  have "map (\<lambda>b. (bk_name b, bk_inbox b)) (filter (\<lambda>b. bk_user b = fresh) (buckets db3))
      = map (\<lambda>(v, inbox, name). (name, inbox)) (filter (\<lambda>k. fst k = fresh) (map ?k (buckets db3)))"
    by (simp add: filter_map comp_def)
  also have "\<dots> = [(''Inbox'', True), (''Product'', False), (''Content'', False), (''Growth'', False), (''Operations'', False)]"
    using CreateInvitedMember_buckets [OF inv assms(2,3)] no by (simp add: adb' u defaultLists_def)
  finally have lists: "map (\<lambda>b. (bk_name b, bk_inbox b)) (filter (\<lambda>b. bk_user b = uID user) (buckets (store adb'))) = \<dots>"
    by (simp add: adb' u)
  have mail: "List.find (\<lambda>v. us_email v = email \<and> \<not> us_disabled v) (users (store adb) @ [row]) = Some row"
  proof (subst find_appended)
    show "\<not> (us_email v = email \<and> \<not> us_disabled v)" if "v \<in> set (users (store adb))" for v using that row(6) by auto
  qed (use row in simp)
  have me: "List.find (\<lambda>v. us_id v = fresh \<and> \<not> us_disabled v) (users (store adb) @ [row]) = Some row"
  proof (subst find_appended)
    show "\<not> (us_id v = fresh \<and> \<not> us_disabled v)" if "v \<in> set (users (store adb))" for v using that row(5) by auto
  qed (use row in simp)
  have se: "List.find (\<lambda>s. se_hash s = h \<and> se_expires s > t) (sessions adb @ [\<lparr>se_user = fresh, se_hash = h, se_expires = ex\<rparr>])
      = (if t < ex then Some \<lparr>se_user = fresh, se_hash = h, se_expires = ex\<rparr> else None)" for t
    using h by (subst find_appended) auto
  show ?thesis
    using row lists mail me se us
    by (simp add: adb' u FindUserByEmail_def query_row_def FindUserBySessionHash_def active_owner_def user_of_row_def)
qed

theorem CreateInvitedMember_account_witness:
  "\<exists>adb user. ex_signup = Inr (adb, user) \<and> map_sum id uID (FindUserBySessionHash adb ''s1'' 5) = Inr (uID user)"
proof (rule ex_signup_runs)
  fix adb user
  assume run: "ex_signup = Inr (adb, user)"
  have "reachable account_init (account_step ex_env) empty_auth" by (rule reachable_start) (rule empty_init)
  moreover have "ex_gen n \<noteq> []" for n by (simp add: ex_gen_def)
  ultimately have "\<forall>t. map_sum id uID (FindUserBySessionHash adb ''s1'' t) = (if t < 1000 then Inr (uID user) else Inl ErrUnauthorized)"
    using CreateInvitedMember_account [OF _ _ run [unfolded ex_signup_def], of ex_env] by blast
  then have "map_sum id uID (FindUserBySessionHash adb ''s1'' 5) = Inr (uID user)" by simp
  then show ?thesis using run by blast
qed

end
