(* ===== verification/Commands.thy ===== *)
theory Commands
  imports ServeRules CapacityRules Migrations CleanupRules AccountLife
begin

section \<open>The operator's commands (cmd/slate/main.go)\<close>

text \<open>
  What the server program does for its arguments: migrate, clean up, seed the administrator, list
  and disable members, or prepare to serve. Every command opens the database, checks its capacity
  and applies the migrations first. What the program prints is a list of lines.
\<close>

text \<open>
  The world of one run: what the database answers when it is opened (the text of an error) and
  when it is asked for its capacity, the migrations with their effect, and what happens around a
  cleanup while it runs. The fuel bounds the passes of the cleanup's loop.
\<close>

record command_world =
  cw_open :: "Options \<Rightarrow> string option"
  cw_capacity :: "(string, int \<times> int) result"
  cw_files :: "sql_file list"
  cw_migrate :: "string \<Rightarrow> server \<Rightarrow> (string, server) result"
  cw_static :: "string \<Rightarrow> string option"
  cw_time :: "int \<Rightarrow> string"
  cw_lists :: "string list"
  cw_cleanup :: cleanup_env
  cw_fuel :: nat

datatype command_error = Message string | AuthError auth_error | SeedError seed_error | ListError store_error
  | CleanupErrors "string list" | OutOfFuel

type_synonym outcome = "string list \<times> (command_error, unit) result \<times> server migrated"

definition command_usage :: command_error where
  "command_usage = Message ''usage: slate serve|migrate|cleanup|seed-admin|accounts list|accounts disable <email>|accounts enable <email>''"

definition verifyDatabaseCapacity :: "(string, int \<times> int) result \<Rightarrow> Config \<Rightarrow> (command_error, unit) result" where
  "verifyDatabaseCapacity capacity cfg =
     (case capacity of
        Inl err \<Rightarrow> Inl (Message (''inspect database capacity: '' @ err))
      | Inr (maximum, current) \<Rightarrow>
          if maximum < cf_DBConnectionAllowance cfg then
            Inl (Message (''unsafe database capacity: server max_connections is '' @ Itoa maximum @ '', below configured allowance ''
              @ Itoa (cf_DBConnectionAllowance cfg)))
          else Inr ())"

definition open_with :: "command_world \<Rightarrow> Config \<Rightarrow> Options \<Rightarrow> (command_error, unit) result" where
  "open_with w cfg options =
     (if cf_DatabaseURL cfg = [] then Inl (Message ''DATABASE_URL is required'')
      else (case cw_open w options of
          Some err \<Rightarrow> Inl (Message (''connect database: '' @ err))
        | None \<Rightarrow> verifyDatabaseCapacity (cw_capacity w) cfg))"

definition openDB :: "command_world \<Rightarrow> Config \<Rightarrow> (command_error, unit) result" where
  "openDB w cfg = open_with w cfg (openDB_options cfg)"

definition apply_migrations :: "command_world \<Rightarrow> server migrated \<Rightarrow> (command_error, string list \<times> server migrated) result" where
  "apply_migrations w m = (case Apply (cw_migrate w) (cw_files w) m of Inl err \<Rightarrow> Inl (Message err) | Inr out \<Rightarrow> Inr out)"

text \<open>The common beginning: the database is open and migrated, or the command ends here.\<close>

definition prepared :: "command_world \<Rightarrow> Config \<Rightarrow> server migrated \<Rightarrow> (string list \<Rightarrow> server migrated \<Rightarrow> outcome) \<Rightarrow> outcome" where
  "prepared w cfg m k =
     (case openDB w cfg of
        Inl err \<Rightarrow> ([], Inl err, m)
      | Inr _ \<Rightarrow> (case apply_migrations w m of Inl err \<Rightarrow> ([], Inl err, m) | Inr (applied, m1) \<Rightarrow> k applied m1))"

definition put_auth :: "auth_db \<Rightarrow> server migrated \<Rightarrow> server migrated" where
  "put_auth adb m = m\<lparr>mg_data := (mg_data m)\<lparr>sv_auth := adb\<rparr>\<rparr>"

lemma put_auth_simps [simp]:
  "sv_auth (mg_data (put_auth adb m)) = adb" "mg_versions (put_auth adb m) = mg_versions m"
  "mg_data (put_auth adb m) = (mg_data m)\<lparr>sv_auth := adb\<rparr>"
  by (simp_all add: put_auth_def)

subsection \<open>Members\<close>

definition tab :: string where "tab = [CHR 0x09]"

definition member_line :: "command_world \<Rightarrow> MemberAccount \<Rightarrow> string" where
  "member_line w member =
     maEmail member @ tab @ (if maDisabledAt member \<noteq> None then ''disabled'' else ''enabled'') @ tab @ cw_time w (maCreatedAt member)"

definition accounts :: "command_world \<Rightarrow> library \<Rightarrow> int \<Rightarrow> Config \<Rightarrow> string list \<Rightarrow> server migrated \<Rightarrow> outcome" where
  "accounts w lib now cfg args m0 =
     (if length args = 0 then ([], Inl command_usage, m0)
      else prepared w cfg m0 (\<lambda>_ m.
        if args ! 0 = ''list'' then
          (if length args \<noteq> 1 then ([], Inl (Message ''usage: slate accounts list''), m)
           else ((''EMAIL'' @ tab @ ''STATUS'' @ tab @ ''CREATED'') # map (member_line w) (ListMembers (sv_auth (mg_data m))), Inr (), m))
        else if args ! 0 = ''disable'' \<or> args ! 0 = ''enable'' then
          (if length args \<noteq> 2 \<or> TrimSpace (args ! 1) = [] then
             ([], Inl (Message (''usage: slate accounts '' @ args ! 0 @ '' <email>'')), m)
           else (case SetMemberDisabled (lb_lower lib) (sv_auth (mg_data m)) now (args ! 1) (args ! 0 = ''disable'') of
               Inl err \<Rightarrow> ([], Inl (AuthError err), m)
             | Inr (adb, _) \<Rightarrow>
                 ([args ! 0 @ ''d'' @ '' '' @ lb_lower lib (TrimSpace (args ! 1))], Inr (), put_auth adb m)))
        else ([], Inl command_usage, m)))"

subsection \<open>Migrating, cleaning up, seeding\<close>

definition migrate :: "command_world \<Rightarrow> Config \<Rightarrow> server migrated \<Rightarrow> outcome" where
  "migrate w cfg m0 =
     prepared w cfg m0 (\<lambda>applied m. (if applied = [] then [''migrations already up to date''] else applied, Inr (), m))"

text \<open>
  The cleanup works on all tables of the server; \<open>encode\<close> is the JSON text of the report. A refused
  run reports nothing and ends with its error. With as much fuel as the row budget the loop ends.
\<close>

definition DefaultRunTime :: int where "DefaultRunTime = 4 * mins"

definition Run :: "nat \<Rightarrow> cleanup_env \<Rightarrow> int \<Rightarrow> int \<Rightarrow> server \<Rightarrow> (string, cleanup_report \<times> string list \<times> server) result option" where
  "Run fuel e now batchSize sv = RunWithBudget fuel e now batchSize DefaultRowBudget DefaultRunTime sv"

definition cleanupOperationalData ::
    "command_world \<Rightarrow> int \<Rightarrow> Config \<Rightarrow> (cleanup_report option \<Rightarrow> string) \<Rightarrow> server migrated \<Rightarrow> outcome" where
  "cleanupOperationalData w now cfg encode m0 =
     prepared w cfg m0 (\<lambda>_ m.
       case Run (cw_fuel w) (cw_cleanup w) now DefaultBatchSize (mg_data m) of
         None \<Rightarrow> ([], Inl OutOfFuel, m)
       | Some (Inl err) \<Rightarrow> ([encode None], Inl (Message err), m)
       | Some (Inr (report, failures, sv)) \<Rightarrow>
           ([encode (Some report)], if failures = [] then Inr () else Inl (CleanupErrors failures), m\<lparr>mg_data := sv\<rparr>))"

definition seedAdmin :: "command_world \<Rightarrow> library \<Rightarrow> draws \<Rightarrow> Config \<Rightarrow> server migrated \<Rightarrow> outcome" where
  "seedAdmin w lib d cfg m0 =
     (if cf_AdminEmail cfg = [] \<or> cf_AdminPassword cfg = [] then
        ([], Inl (Message ''ADMIN_EMAIL and ADMIN_PASSWORD are required''), m0)
      else prepared w cfg m0 (\<lambda>_ m.
        case SeedAdmin lib d (sv_auth (mg_data m)) (cf_AdminEmail cfg) (cf_AdminPassword cfg) of
          Inl err \<Rightarrow>
            if err = SeedStore ErrAdminExists then ([''admin already exists''], Inr (), m) else ([], Inl (SeedError err), m)
        | Inr (adb, user) \<Rightarrow>
            (case SeedDefaultLists (store adb) (dw_tx d) (cw_lists w) (uID user) of
               (db, Some err) \<Rightarrow> ([], Inl (ListError err), put_auth (adb\<lparr>store := db\<rparr>) m)
             | (db, None) \<Rightarrow> ([''seeded admin '' @ uEmail user], Inr (), put_auth (adb\<lparr>store := db\<rparr>) m))))"

subsection \<open>Serving\<close>

text \<open>What \<open>serve\<close> builds before it listens: the service, the address and the times of the HTTP server.\<close>

record listener =
  ls_addr :: string
  ls_service :: Service
  ls_cookie_secure :: bool
  ls_request_timeout :: int
  ls_read_header_timeout :: int
  ls_idle_timeout :: int

definition NewServiceWithOptions :: "string \<Rightarrow> string \<Rightarrow> bool \<Rightarrow> Service" where
  "NewServiceWithOptions inviteCode appBaseURL sender =
     \<lparr>sc_inviteCode = inviteCode, sc_appBaseURL = TrimRight (TrimSpace appBaseURL) (CHR ''/''), sc_sender = sender\<rparr>"

definition serve_command :: "command_world \<Rightarrow> Config \<Rightarrow> server migrated \<Rightarrow> (command_error, listener) result \<times> server migrated" where
  "serve_command w cfg m =
     (case open_with w cfg (serve_options cfg) of
        Inl err \<Rightarrow> (Inl err, m)
      | Inr _ \<Rightarrow>
          (case Apply (cw_migrate w) (cw_files w) m of
             Inl err \<Rightarrow> (Inl (Message (''apply migrations: '' @ err)), m)
           | Inr (_, m1) \<Rightarrow>
               (case cw_static w (cf_StaticDir cfg) of
                  Some err \<Rightarrow> (Inl (Message err), m1)
                | None \<Rightarrow>
                    (Inr \<lparr>ls_addr = '':'' @ cf_Port cfg,
                       ls_service = NewServiceWithOptions (cf_InviteCode cfg) (cf_AppBaseURL cfg)
                         (cf_ResendAPIKey cfg \<noteq> [] \<and> cf_ResendFrom cfg \<noteq> []),
                       ls_cookie_secure = cf_CookieSecure cfg, ls_request_timeout = cf_RequestTimeout cfg,
                       ls_read_header_timeout = 5 * secs, ls_idle_timeout = cf_HTTPIdleTimeout cfg\<rparr>, m1))))"

subsection \<open>The commands as steps of the account system\<close>

datatype command = Serve | Migrate | CleanUp | SeedTheAdmin | Accounts "string list"

text \<open>\<open>run\<close>: the configuration first, then the command. A server that has started listens until it is stopped.\<close>

definition read_command :: "string list \<Rightarrow> command option" where
  "read_command args =
     (if args ! 1 = ''serve'' then Some Serve
      else if args ! 1 = ''migrate'' then Some Migrate
      else if args ! 1 = ''cleanup'' then Some CleanUp
      else if args ! 1 = ''seed-admin'' \<or> args ! 1 = ''seed-owner'' then Some SeedTheAdmin
      else if args ! 1 = ''accounts'' then Some (Accounts (drop 2 args))
      else None)"

definition run_command ::
    "command_world \<Rightarrow> library \<Rightarrow> draws \<Rightarrow> (cleanup_report option \<Rightarrow> string) \<Rightarrow> (string, Config) result \<Rightarrow> string list
      \<Rightarrow> server migrated \<Rightarrow> outcome" where
  "run_command w lib d encode config args m =
     (if length args < 2 then ([], Inl command_usage, m)
      else (case config of
          Inl err \<Rightarrow> ([], Inl (Message err), m)
        | Inr cfg \<Rightarrow>
            (case read_command args of
               Some Serve \<Rightarrow> (case serve_command w cfg m of (Inl err, m1) \<Rightarrow> ([], Inl err, m1) | (Inr listener, m1) \<Rightarrow> ([], Inr (), m1))
             | Some Migrate \<Rightarrow> migrate w cfg m
             | Some CleanUp \<Rightarrow> cleanupOperationalData w (dw_tx d) cfg encode m
             | Some SeedTheAdmin \<Rightarrow> seedAdmin w lib d cfg m
             | Some (Accounts rest) \<Rightarrow> accounts w lib (dw_tx d) cfg rest m
             | None \<Rightarrow> ([], Inl command_usage, m))))"

subsection \<open>What the commands do to the accounts\<close>

text \<open>A database whose migrations have all been recorded.\<close>

definition up_to_date :: "command_world \<Rightarrow> 'd migrated \<Rightarrow> bool" where
  "up_to_date w m \<longleftrightarrow> mg_versions m \<noteq> None \<and> set (versions_in (sort_key sf_name (cw_files w))) \<subseteq> set (recorded_versions m)"

lemma Apply_up_to_date: "up_to_date w m \<Longrightarrow> Apply run (cw_files w) m = Inr ([], m)"
  using apply_files_done [of "sort_key sf_name (cw_files w)" "recorded_versions m" run "[]" "mg_data m"]
  by (auto simp: up_to_date_def Apply_def recorded_versions_def)

lemma Apply_makes_up_to_date:
  assumes "distinct (map sf_name (cw_files w))" and "Apply run (cw_files w) m = Inr (applied, m')"
  shows "up_to_date w (m'\<lparr>mg_data := d\<rparr>)"
proof -
  let ?fs = "sort_key sf_name (cw_files w)"
  have "distinct (map sf_name ?fs)"
    using assms(1) by (metis distinct_map mset_map mset_sort set_sort distinct_sort size_mset mset_eq_imp_distinct_iff)
  then have "distinct (versions_in ?fs)" by (rule distinct_versions)
  then show ?thesis
    using apply_files_InrD [OF assms(2) [unfolded Apply_def]] by (auto simp: up_to_date_def recorded_versions_def)
qed

lemma prepared_seeding:
  assumes "prepared w cfg m k = (out, res, m')" and "\<And>text. res \<noteq> Inl (Message text)"
  obtains applied m1 where "openDB w cfg = Inr ()" "Apply (cw_migrate w) (cw_files w) m = Inr (applied, m1)" "k applied m1 = (out, res, m')"
proof (cases "openDB w cfg")
  case (Inl err)
  then obtain why where "err = Message why"
    by (auto simp: openDB_def open_with_def verifyDatabaseCapacity_def split: if_splits option.splits sum.splits)
  with Inl assms(1) have "res = Inl (Message why)" by (simp add: prepared_def)
  then show ?thesis using assms(2) by blast
next
  case (Inr u)
  show ?thesis
  proof (cases "Apply (cw_migrate w) (cw_files w) m")
    case (Inl why)
    with Inl Inr assms(1) have "res = Inl (Message why)" by (simp add: prepared_def apply_migrations_def)
    then show ?thesis using assms(2) by blast
  next
    case applied: (Inr result)
    obtain applied m1 where result: "result = (applied, m1)" by (cases result)
    show ?thesis using that Inr applied assms(1) by (auto simp: result prepared_def apply_migrations_def)
  qed
qed

lemma prepared_up_to_date:
  "up_to_date w m \<Longrightarrow> prepared w cfg m k = (case openDB w cfg of Inl err \<Rightarrow> ([], Inl err, m) | Inr _ \<Rightarrow> k [] m)"
  using Apply_up_to_date [of w m "cw_migrate w"] by (simp add: prepared_def apply_migrations_def split: sum.splits)

lemma seed_lists_path:
  "seed_lists db now u inputs = (db', err) \<Longrightarrow> [] \<notin> fst ` set inputs \<Longrightarrow>
    (server_step w)\<^sup>*\<^sup>* (sv\<lparr>sv_auth := adb\<lparr>store := db\<rparr>\<rparr>) (sv\<lparr>sv_auth := adb\<lparr>store := db'\<rparr>\<rparr>)"
proof (induction inputs arbitrary: db)
  case (Cons input inputs)
  obtain fresh b where input: "input = (fresh, b)" by (cases input)
  show ?case
  proof (cases "CreateBucket db now fresh u b")
    case (Inl err')
    then show ?thesis using Cons.prems(1) by (simp add: input)
  next
    case (Inr out)
    obtain db1 row where out: "out = (db1, row)" by (cases out)
    have "server_step w (sv\<lparr>sv_auth := adb\<lparr>store := db\<rparr>\<rparr>) (sv\<lparr>sv_auth := adb\<lparr>store := db1\<rparr>\<rparr>)"
      using seed_list [of "sv\<lparr>sv_auth := adb\<lparr>store := db\<rparr>\<rparr>" now fresh u b db1 row w] Inr Cons.prems(2) by (auto simp: input out)
    then show ?thesis
      using Cons.IH [of db1] Cons.prems Inr by (auto simp: input out intro: converse_rtranclp_into_rtranclp)
  qed
qed auto

lemma SeedDefaultLists_path:
  assumes "SeedDefaultLists (store adb) now freshs u = (db', err)" "[] \<notin> set freshs"
  shows "(server_step w)\<^sup>*\<^sup>* (sv\<lparr>sv_auth := adb\<rparr>) (sv\<lparr>sv_auth := adb\<lparr>store := db'\<rparr>\<rparr>)"
proof -
  have "[] \<notin> fst ` set (zip freshs names)" for names :: "CreateBucketInput list" using assms(2) by (auto dest: set_zip_leftD)
  then show ?thesis
    using assms(1) seed_lists_path [of "store adb" now u "zip freshs defaultBuckets" db' err w adb sv]
    by (cases adb) (auto simp: SeedDefaultLists_def split: if_splits)
qed

lemma SeedDefaultLists_users: "SeedDefaultLists db now freshs u = (db', err) \<Longrightarrow> users db' = users db"
proof -
  have "users db' = users db" if "seed_lists db now u inputs = (db', err)" for inputs
    using that
  proof (induction inputs arbitrary: db)
    case (Cons input inputs)
    then show ?case
      using CreateBucket_accounts by (cases input) (fastforce simp: same_accounts_def split: sum.splits prod.splits)
  qed simp
  then show "SeedDefaultLists db now freshs u = (db', err) \<Longrightarrow> ?thesis" by (auto simp: SeedDefaultLists_def split: if_splits)
qed

text \<open>
  On a database that is up to date, the program commits transactions of the server and nothing
  else, whatever its arguments and whether or not it succeeds: every invariant of the tables
  survives the operator's commands too. What others write while a cleanup runs has to be of that
  kind as well.
\<close>

definition command_kind :: "world \<Rightarrow> command_world \<Rightarrow> server migrated \<Rightarrow> bool" where
  "command_kind wl w m \<longleftrightarrow> up_to_date w m \<and> [] \<notin> set (cw_lists w)
     \<and> (\<forall>k sv. (server_step wl)\<^sup>*\<^sup>* sv (ce_others (cw_cleanup w) k sv))"

lemma seedAdmin_path:
  assumes "command_kind wl w m" "seedAdmin w (wl_lib wl) d cfg m = (out, res, m')"
  shows "(server_step wl)\<^sup>*\<^sup>* (mg_data m) (mg_data m')"
proof (cases "SeedAdmin (wl_lib wl) d (sv_auth (mg_data m)) (cf_AdminEmail cfg) (cf_AdminPassword cfg)")
  have now: "up_to_date w m" using assms(1) by (simp add: command_kind_def)
  case (Inl err)
  then show ?thesis
    using assms(2) by (auto simp: seedAdmin_def prepared_up_to_date [OF now] split: if_splits sum.splits)
next
  have now: "up_to_date w m" "[] \<notin> set (cw_lists w)" using assms(1) by (simp_all add: command_kind_def)
  case (Inr created)
  obtain adb user where created: "created = (adb, user)" by (cases created)
  obtain db err where lists: "SeedDefaultLists (store adb) (dw_tx d) (cw_lists w) (uID user) = (db, err)" by fastforce
  have "server_step wl (mg_data m) ((mg_data m)\<lparr>sv_auth := adb\<rparr>)" using seed Inr created by blast
  moreover have "(server_step wl)\<^sup>*\<^sup>* ((mg_data m)\<lparr>sv_auth := adb\<rparr>) ((mg_data m)\<lparr>sv_auth := adb\<lparr>store := db\<rparr>\<rparr>)"
    using SeedDefaultLists_path [OF lists now(2)] .
  ultimately have "(server_step wl)\<^sup>*\<^sup>* (mg_data m) ((mg_data m)\<lparr>sv_auth := adb\<lparr>store := db\<rparr>\<rparr>)" by (rule converse_rtranclp_into_rtranclp)
  then show ?thesis
    using assms(2) lists Inr
    by (auto simp: seedAdmin_def created prepared_up_to_date [OF now(1)] split: if_splits sum.splits option.splits)
qed

lemma accounts_path:
  assumes "up_to_date w m" "accounts w (wl_lib wl) now cfg args m = (out, res, m')"
  shows "(server_step wl)\<^sup>*\<^sup>* (mg_data m) (mg_data m')"
  using assms(2)
  by (auto simp: accounts_def prepared_up_to_date [OF assms(1)] split: if_splits sum.splits intro!: r_into_rtranclp disable_member)

lemma cleanup_path:
  assumes "command_kind wl w m" "cleanupOperationalData w now cfg encode m = (out, res, m')"
  shows "(server_step wl)\<^sup>*\<^sup>* (mg_data m) (mg_data m')"
proof -
  have "(server_step wl)\<^sup>*\<^sup>* sv (snd (delete_rows now rule locked limit sv))" if "rule \<in> set rules" for rule locked limit sv
    using cleanup_batch [OF that, of now locked limit sv] by (cases "delete_rows now rule locked limit sv") (auto intro: r_into_rtranclp)
  then have "steps_by (server_step wl) (cw_cleanup w) now" using assms(1) by (simp add: steps_by_def command_kind_def)
  then have "(server_step wl)\<^sup>*\<^sup>* (mg_data m) sv"
    if "Run (cw_fuel w) (cw_cleanup w) now DefaultBatchSize (mg_data m) = Some (Inr (report, failures, sv))" for report failures sv
    using that RunWithBudget_path unfolding Run_def by blast
  moreover have "up_to_date w m" using assms(1) by (simp add: command_kind_def)
  ultimately show ?thesis
    using assms(2) by (auto simp: cleanupOperationalData_def prepared_up_to_date split: sum.splits option.splits prod.splits)
qed

lemma serve_command_path: "up_to_date w m \<Longrightarrow> serve_command w cfg m = (res, m') \<Longrightarrow> (server_step wl)\<^sup>*\<^sup>* (mg_data m) (mg_data m')"
  using Apply_up_to_date [of w m] by (auto simp: serve_command_def split: sum.splits option.splits)

lemma run_command_path:
  assumes "run_command w (wl_lib wl) d encode config args m = (out, res, m')" and "command_kind wl w m"
  shows "(server_step wl)\<^sup>*\<^sup>* (mg_data m) (mg_data m')"
proof -
  have now: "up_to_date w m" using assms(2) by (simp add: command_kind_def)
  show ?thesis
    using assms(1) seedAdmin_path [OF assms(2)] accounts_path [OF now] cleanup_path [OF assms(2)] serve_command_path [OF now]
    by (auto simp: run_command_def migrate_def prepared_up_to_date [OF now]
        split: if_splits sum.splits option.splits command.splits prod.splits)
qed

text \<open>With fuel for the row budget, the cleanup always ends with a report or with the error of the common beginning.\<close>

lemma cleanup_reports:
  assumes "DefaultRowBudget \<le> int (cw_fuel w)" "cleanupOperationalData w now cfg encode m = (out, res, m')"
  shows "res \<noteq> Inl OutOfFuel"
proof -
  have returns: "Run (cw_fuel w) (cw_cleanup w) now DefaultBatchSize sv \<noteq> None" for sv
    using run_loop_ends [of DefaultBatchSize DefaultRowBudget "cw_fuel w" "cw_cleanup w" now sv] assms(1)
    by (auto simp: Run_def RunWithBudget_def DefaultBatchSize_def DefaultRowBudget_def)
  define ran where "ran sv = the (Run (cw_fuel w) (cw_cleanup w) now DefaultBatchSize sv)" for sv
  have ran: "Run (cw_fuel w) (cw_cleanup w) now DefaultBatchSize sv = Some (ran sv)" for sv
    unfolding ran_def by (rule option.collapse [symmetric, OF returns])
  show ?thesis
  proof
    assume out: "res = Inl OutOfFuel"
    then obtain m1 where "(case ran (mg_data m1) of
         Inl err \<Rightarrow> ([encode None], Inl (Message err), m1)
       | Inr (report, failures, sv) \<Rightarrow>
           ([encode (Some report)], if failures = [] then Inr () else Inl (CleanupErrors failures), m1\<lparr>mg_data := sv\<rparr>))
       = (out, res, m')"
      using assms(2) unfolding cleanupOperationalData_def ran option.case by (auto elim!: prepared_seeding)
    then show False using out by (auto split: sum.splits prod.splits if_splits)
  qed
qed

subsection \<open>Seeding twice\<close>

lemma CreateAdmin_found:
  assumes "CreateAdmin adb now fresh email hash = Inr (adb', user)" and "users db = users (store adb')"
  shows "\<exists>admin. FindUserByEmail (adb''\<lparr>store := db\<rparr>) email = Inr (admin, hash) \<and> uRole admin = ''admin''"
proof -
  obtain db1 row db2 where iu: "insert_user (store adb) now fresh email hash ''admin'' = Inr (db1, row)"
    and ie: "insert_entitlement db1 (us_id row) PlanPro SourceAdmin = Inr db2" and adb': "adb' = adb\<lparr>store := db2\<rparr>"
    using assms(1) unfolding CreateAdmin_def by (elim rbind_elims) auto
  from iu show ?thesis
  proof (rule insert_user_InrE)
    assume row: "db1 = (store adb)\<lparr>users := users (store adb) @ [row]\<rparr>" "us_email row = email" "\<not> us_disabled row"
      "us_password row = hash" "us_role row = ''admin''" "email \<notin> us_email ` set (users (store adb))"
    have "users db = users (store adb) @ [row]"
      using insert_entitlement_InrD [OF ie] row(1) assms(2) by (auto simp: adb')
    moreover have "List.find (\<lambda>u. us_email u = email \<and> \<not> us_disabled u) (users (store adb) @ [row]) = Some row"
    proof (subst find_appended)
      show "\<not> (us_email u = email \<and> \<not> us_disabled u)" if "u \<in> set (users (store adb))" for u using that row(6) by auto
    qed (use row in simp)
    ultimately show ?thesis using row by (simp add: FindUserByEmail_def query_row_def user_of_row_def)
  qed
qed

lemma SeedAdmin_found:
  assumes "SeedAdmin lib d adb email password = Inr (adb', user)" and "users db = users (store adb')"
  shows "SeedAdmin lib d' (adb''\<lparr>store := db\<rparr>) email password = Inl (SeedStore ErrAdminExists)"
proof -
  let ?email = "normalizeEmail (lb_lower lib) email"
  have rules: "?email \<noteq> []" "\<not> length password < 12"
    and "\<exists>hash. CreateAdmin adb (dw_tx d) (dw_fresh d) ?email hash = Inr (adb', user)"
    using assms(1) unfolding SeedAdmin_def Let_def
    by (auto elim!: rbind_elims split: sum.splits prod.splits option.splits if_splits)
  then obtain admin hash where "FindUserByEmail (adb''\<lparr>store := db\<rparr>) ?email = Inr (admin, hash)" "uRole admin = ''admin''"
    using CreateAdmin_found [OF _ assms(2)] by blast
  then show ?thesis using rules by (simp add: SeedAdmin_def Let_def)
qed

lemma SeedAdmin_exists_again:
  "SeedAdmin lib d adb email password = Inl (SeedStore ErrAdminExists) \<Longrightarrow>
    SeedAdmin lib d' adb email password = Inl (SeedStore ErrAdminExists)"
  unfolding SeedAdmin_def Let_def CreateAdmin_def insert_user_def insert_entitlement_def
  by (auto simp: rbind_eq_Inl split: sum.splits prod.splits option.splits if_splits)

text \<open>
  Once the administrator has been created, running the command again reports that it exists and
  changes nothing.
\<close>

lemma seedAdmin_again:
  assumes "seedAdmin w lib d cfg m = (out, res, m')" and "distinct (map sf_name (cw_files w))"
    and "res = Inr () \<or> (\<exists>err. res = Inl (ListError err))"
  shows "seedAdmin w lib d' cfg m' = ([''admin already exists''], Inr (), m')"
proof -
  have set_up: "cf_AdminEmail cfg \<noteq> []" "cf_AdminPassword cfg \<noteq> []" using assms(1,3) by (auto simp: seedAdmin_def split: if_splits)
  obtain applied m1 where opened: "openDB w cfg = Inr ()" and migrated: "Apply (cw_migrate w) (cw_files w) m = Inr (applied, m1)"
    and run: "(case SeedAdmin lib d (sv_auth (mg_data m1)) (cf_AdminEmail cfg) (cf_AdminPassword cfg) of
          Inl err \<Rightarrow> if err = SeedStore ErrAdminExists then ([''admin already exists''], Inr (), m1) else ([], Inl (SeedError err), m1)
        | Inr (adb, user) \<Rightarrow>
            (case SeedDefaultLists (store adb) (dw_tx d) (cw_lists w) (uID user) of
               (db, Some err) \<Rightarrow> ([], Inl (ListError err), put_auth (adb\<lparr>store := db\<rparr>) m1)
             | (db, None) \<Rightarrow> ([''seeded admin '' @ uEmail user], Inr (), put_auth (adb\<lparr>store := db\<rparr>) m1))) = (out, res, m')"
    using assms(1,3) set_up unfolding seedAdmin_def by (auto elim!: prepared_seeding)
  have again: "SeedAdmin lib d' (sv_auth (mg_data m')) (cf_AdminEmail cfg) (cf_AdminPassword cfg) = Inl (SeedStore ErrAdminExists)
      \<and> (\<exists>data. m' = m1\<lparr>mg_data := data\<rparr>)"
  proof (cases "SeedAdmin lib d (sv_auth (mg_data m1)) (cf_AdminEmail cfg) (cf_AdminPassword cfg)")
    case (Inl err)
    then show ?thesis using run assms(3) SeedAdmin_exists_again by (cases m1) (auto split: if_splits)
  next
    case (Inr o')
    obtain adb user where o': "o' = (adb, user)" by (cases o')
    obtain db err where lists: "SeedDefaultLists (store adb) (dw_tx d) (cw_lists w) (uID user) = (db, err)" by fastforce
    have "users db = users (store adb)" using lists SeedDefaultLists_users by blast
    then show ?thesis using run Inr lists SeedAdmin_found [OF Inr [unfolded o']] by (auto simp: o' put_auth_def split: option.splits)
  qed
  then have "up_to_date w m'" using Apply_makes_up_to_date [OF assms(2) migrated] by auto
  then show ?thesis using again opened set_up by (simp add: seedAdmin_def prepared_up_to_date)
qed

text \<open>Seeding can be repeated after a run that ended without an error.\<close>

theorem seedAdmin_repeated:
  assumes "seedAdmin w lib d cfg m = (out, Inr (), m')" and "distinct (map sf_name (cw_files w))"
  shows "seedAdmin w lib d' cfg m' = ([''admin already exists''], Inr (), m')"
  using seedAdmin_again [OF assms] by blast

text \<open>
  A run that created the administrator and failed on the lists is reported as done by the next
  one, which does not create the missing lists.
\<close>

lemma unfinished_seed_reported_done:
  assumes "seedAdmin w lib d cfg m = (out, Inl (ListError err), m')" and "distinct (map sf_name (cw_files w))"
  shows "seedAdmin w lib d' cfg m' = ([''admin already exists''], Inr (), m')"
  using seedAdmin_again [OF assms] by blast

definition ex_command_config :: Config where
  "ex_command_config = ex_config\<lparr>cf_AdminEmail := '' Root@example.org''\<rparr>"

definition ex_command_world :: command_world where
  "ex_command_world =
     \<lparr>cw_open = (\<lambda>_. None), cw_capacity = Inr (100, 3),
      cw_files = [\<lparr>sf_name = ''001_init.sql'', sf_dir = False, sf_body = ''create''\<rparr>], cw_migrate = (\<lambda>_ sv. Inr sv),
      cw_static = (\<lambda>_. None), cw_time = (\<lambda>_. []), cw_lists = [''l1'', ''l2'', ''l3'', ''l4'', ''l5''],
      cw_cleanup = ex_cleanup_env, cw_fuel = 2\<rparr>"

definition ex_command_library :: library where
  "ex_command_library = \<lparr>lb_sha = (\<lambda>v. v), lb_lower = map lower_byte, lb_email = Some, lb_origin = (\<lambda>_. None), lb_addr = Some,
     lb_addr_port = (\<lambda>_. None), lb_escape = (\<lambda>v. v), lb_compare = (=)\<rparr>"

definition ex_command_draws :: draws where
  "ex_command_draws = \<lparr>dw_now = (\<lambda>_. 9), dw_tx = 9, dw_fresh = ''u9'', dw_fresh2 = ''u8'', dw_lists = (\<lambda>_. []), dw_random = Some ''random'',
     dw_bcrypt = Some, dw_attempts = (\<lambda>_. False), dw_requests = (\<lambda>_. False), dw_tokens = (\<lambda>_. False)\<rparr>"

theorem seedAdmin_repeated_witness:
  "\<exists>m. seedAdmin ex_command_world ex_command_library ex_command_draws ex_command_config \<lparr>mg_versions = None, mg_data = ex_server empty_auth\<rparr>
        = ([''seeded admin root@example.org''], Inr (), m)
    \<and> seedAdmin ex_command_world ex_command_library ex_command_draws ex_command_config m = ([''admin already exists''], Inr (), m)"
proof -
  let ?m = "\<lparr>mg_versions = None, mg_data = ex_server empty_auth\<rparr>"
  have "case seedAdmin ex_command_world ex_command_library ex_command_draws ex_command_config ?m of
      (out, res, m) \<Rightarrow> out = [''seeded admin root@example.org''] \<and> res = Inr ()" by code_simp
  then obtain m where run: "seedAdmin ex_command_world ex_command_library ex_command_draws ex_command_config ?m
      = ([''seeded admin root@example.org''], Inr (), m)" by auto
  then show ?thesis
    using seedAdmin_repeated [OF run, of ex_command_draws] by (simp add: ex_command_world_def)
qed

end
