(* ===== verification/LimiterWindow.thy ===== *)
theory LimiterWindow
  imports RateLimit
begin

section \<open>No window holds more requests than the limit\<close>

text \<open>
  The limiter as a transition system. Beside the tables the state carries the clock and, for
  each key and route class, the requests admitted so far and not taken back: a history the code
  does not keep. The invariant relates the two, slot by slot.
\<close>

subsection \<open>Looking a slot up\<close>

definition put_row :: "int list \<Rightarrow> state_row \<Rightarrow> state_row" where
  "put_row ts r = r\<lparr>st_times := ts, st_expires := (case expiry ts of None \<Rightarrow> st_expires r | Some x \<Rightarrow> x)\<rparr>"

definition empty_row :: "string \<times> string \<times> string \<Rightarrow> int \<Rightarrow> state_row" where
  "empty_row k now = \<lparr>st_scope = fst k, st_hash = fst (snd k), st_class = snd (snd k), st_times = [], st_expires = now + window\<rparr>"

lemma state_key_rows [simp]: "state_key (put_row ts r) = state_key r" "state_key (empty_row k now) = k"
  by (simp_all add: state_key_def put_row_def empty_row_def)

lemma recorded_simps [simp]: "recorded None = []" "recorded (Some r) = st_times r"
  "st_times (put_row ts r) = ts" "st_times (empty_row k now) = []"
  by (simp_all add: recorded_def put_row_def empty_row_def)

lemma put_state_eq: "put_state k ts = update_where (\<lambda>r. state_key r = k) (put_row ts)"
  by (simp add: put_state_def put_row_def fun_eq_iff update_where_def)

lemma map_key_put [simp]: "map state_key (put_state k ts rows) = map state_key rows"
  unfolding put_state_eq by (rule map_update_where) simp

lemma lookup_ensure:
  "lookup_state (ensure_state k now rows) k' =
     (if k' = k \<and> lookup_state rows k = None then Some (empty_row k now) else lookup_state rows k')"
proof (cases "list_ex (\<lambda>r. state_key r = k) rows")
  case True
  then have "lookup_state rows k \<noteq> None" by (auto simp: lookup_state_def find_None_iff list_ex_iff)
  with True show ?thesis by (simp add: ensure_state_def)
next
  case False
  have app: "List.find P (xs @ [y]) = (case List.find P xs of None \<Rightarrow> if P y then Some y else None | Some z \<Rightarrow> Some z)"
    for P and xs :: "state_row list" and y by (induction xs) auto
  from False have "lookup_state rows k = None" by (auto simp: lookup_state_def find_None_iff list_ex_iff)
  then show ?thesis
    using False by (auto simp: ensure_state_def empty_row_def [symmetric] lookup_state_def app split: option.splits)
qed

lemma recorded_ensure [simp]:
  "recorded (lookup_state (ensure_state k now rows) k') = recorded (lookup_state rows k')"
  by (auto simp: lookup_ensure)

lemma distinct_ensure [simp]:
  "distinct (map state_key (ensure_state k now rows)) \<longleftrightarrow> distinct (map state_key rows)"
  by (auto simp: ensure_state_def empty_row_def [symmetric] list_ex_iff)

lemma lookup_put:
  "lookup_state (put_state k ts rows) k' =
     (if k' = k then map_option (put_row ts) (lookup_state rows k) else lookup_state rows k')"
  unfolding put_state_eq lookup_state_def by (induction rows) auto

lemma lookup_delete:
  assumes "distinct (map state_key rows)"
  shows "lookup_state (delete_where D rows) k =
    (case lookup_state rows k of None \<Rightarrow> None | Some r \<Rightarrow> if D r then None else Some r)"
  using assms
proof (induction rows)
  case (Cons r rows)
  have "lookup_state rows k = None" if k: "state_key r = k"
  proof -
    have "state_key x \<noteq> k" if "x \<in> set rows" for x using Cons.prems k that by (metis distinct.simps(2) imageI list.map(2) list.set_map)
    then show ?thesis by (simp add: lookup_state_def find_None_iff)
  qed
  then show ?case using Cons by (auto simp: lookup_state_def delete_where_def)
qed (simp add: lookup_state_def delete_where_def)

lemma lookup_fold_ensure:
  "lookup_state (fold (\<lambda>k. ensure_state k now) ks rows) k' =
     (if k' \<in> set ks \<and> lookup_state rows k' = None then Some (empty_row k' now) else lookup_state rows k')"
  by (induction ks arbitrary: rows) (auto simp: lookup_ensure)

lemma lookup_fold_put:
  "lookup_state (fold (\<lambda>k. put_state k (F k)) ks rows) k' =
     (if k' \<in> set ks then map_option (put_row (F k')) (lookup_state rows k') else lookup_state rows k')"
proof (induction ks arbitrary: rows)
  case (Cons k ks)
  have "put_row ts (put_row ts r) = put_row ts r" for ts r by (simp add: put_row_def split: option.splits)
  then show ?case using Cons by (cases "lookup_state rows k") (auto simp: lookup_put)
qed simp

lemma distinct_fold_rows:
  "distinct (map state_key (fold (\<lambda>k. ensure_state k now) ks rows)) \<longleftrightarrow> distinct (map state_key rows)"
  "map state_key (fold (\<lambda>k. put_state k (F k)) ks rows) = map state_key rows"
  by (induction ks arbitrary: rows) auto

subsection \<open>What a slot promises\<close>

definition in_window :: "int \<Rightarrow> int \<Rightarrow> bool" where
  "in_window t x \<longleftrightarrow> t - window < x \<and> x \<le> t"

definition slot_ok :: "int \<Rightarrow> int \<Rightarrow> state_row option \<Rightarrow> int list \<Rightarrow> bool" where
  "slot_ok limit clock slot adm \<longleftrightarrow>
     sorted (recorded slot) \<and> (\<forall>r. slot = Some r \<longrightarrow> (\<forall>x \<in> set (st_times r). x + window \<le> st_expires r))
   \<and> filter_mset (\<lambda>x. clock - window < x) (mset (recorded slot)) = filter_mset (\<lambda>x. clock - window < x) (mset adm)
   \<and> (\<forall>x \<in> set adm. x \<le> clock)
   \<and> (\<forall>t. count_where (in_window t) adm \<le> limit)"

lemma filter_mset_none: "filter_mset P M = {#} \<longleftrightarrow> (\<forall>x \<in># M. \<not> P x)"
  by (induction M) auto

lemma mset_active: "mset (active_times now ts) = filter_mset (\<lambda>x. now - window < x) (mset ts)"
  by (simp add: active_times_def)

lemma slot_later:
  assumes "slot_ok limit clock slot adm" "clock \<le> clock'"
  shows "slot_ok limit clock' slot adm"
proof -
  have "filter_mset (\<lambda>x. clock' - window < x) M = filter_mset (\<lambda>x. clock' - window < x) (filter_mset (\<lambda>x. clock - window < x) M)"
    for M :: "int multiset" using assms(2) by (auto simp: filter_filter_mset intro: filter_mset_cong)
  then show ?thesis using assms unfolding slot_ok_def by (metis order_trans)
qed

lemma slot_forget:
  assumes "slot_ok limit clock (Some r) adm" "st_expires r \<le> clock"
  shows "slot_ok limit clock None adm"
proof -
  have "\<not> clock - window < x" if "x \<in> set (st_times r)" for x
  proof -
    have "x + window \<le> st_expires r" using assms(1) that by (simp add: slot_ok_def)
    then show ?thesis using assms(2) by simp
  qed
  then have "filter_mset (\<lambda>x. clock - window < x) (mset (st_times r)) = {#}" unfolding filter_mset_none by simp
  then have "filter_mset (\<lambda>x. clock - window < x) (mset adm) = {#}"
    using assms(1) by (simp only: slot_ok_def recorded_simps)
  then show ?thesis using assms(1) by (simp add: slot_ok_def)
qed

lemma slot_open: "slot_ok limit clock None adm \<Longrightarrow> slot_ok limit clock (Some (empty_row k now)) adm"
  by (simp add: slot_ok_def)

lemma slot_write:
  assumes "sorted ts" "filter_mset (\<lambda>x. clock - window < x) (mset ts) = filter_mset (\<lambda>x. clock - window < x) (mset adm)"
    "\<forall>x \<in> set adm. x \<le> clock" "\<forall>t. count_where (in_window t) adm \<le> limit"
  shows "slot_ok limit clock (Some (put_row ts r)) adm"
proof -
  have "x + window \<le> st_expires (put_row ts r)" if "x \<in> set ts" for x
  proof -
    have "x \<le> last ts" using that assms(1) by (induction ts) auto
    then show ?thesis using that by (auto simp: put_row_def expiry_def)
  qed
  then show ?thesis using assms by (simp add: slot_ok_def)
qed

lemma slot_ok_simps:
  assumes "slot_ok limit clock slot adm"
  shows "sorted (recorded slot)" "\<forall>x \<in> set adm. x \<le> clock" "\<forall>t. count_where (in_window t) adm \<le> limit"
    "mset (active_times clock (recorded slot)) = filter_mset (\<lambda>x. clock - window < x) (mset adm)"
  using assms by (simp_all add: slot_ok_def mset_active)

text \<open>Writing back what is still in the window changes nothing that counts.\<close>

lemma slot_keep:
  assumes "slot_ok limit clock slot adm"
  shows "slot_ok limit clock (Some (put_row (active_times clock (recorded slot)) r)) adm"
proof (rule slot_write)
  show "filter_mset (\<lambda>x. clock - window < x) (mset (active_times clock (recorded slot))) =
      filter_mset (\<lambda>x. clock - window < x) (mset adm)"
    using slot_ok_simps(4) [OF assms] by (simp add: filter_filter_mset)
qed (use slot_ok_simps [OF assms] in \<open>simp_all add: active_times_def\<close>)

text \<open>
  Admitting a request at the current time: every window that ends now or later holds at most
  what the window ending now holds, and that is what the code counted, plus one.
\<close>

lemma slot_admit:
  assumes ok: "slot_ok limit clock slot adm" and room: "int (length (active_times clock (recorded slot))) < limit"
  shows "slot_ok limit clock (Some (put_row (sort (active_times clock (recorded slot) @ [clock])) r)) (clock # adm)"
proof (rule slot_write)
  let ?a = "active_times clock (recorded slot)"
  note s = slot_ok_simps [OF ok]
  show "filter_mset (\<lambda>x. clock - window < x) (mset (sort (?a @ [clock]))) =
      filter_mset (\<lambda>x. clock - window < x) (mset (clock # adm))"
    using s(4) by (simp add: filter_filter_mset)
  show "\<forall>t. count_where (in_window t) (clock # adm) \<le> limit"
  proof
    fix t
    show "count_where (in_window t) (clock # adm) \<le> limit"
    proof (cases "clock \<le> t")
      case True
      have "size (filter_mset (in_window t) (mset adm)) \<le> size (filter_mset (\<lambda>x. clock - window < x) (mset adm))"
        using s(2) True by (intro size_mset_mono filter_mset_mono_strong) (auto simp: in_window_def)
      also have "\<dots> = length ?a" using arg_cong [OF s(4), of size] by simp
      finally show ?thesis using room by (simp add: count_where_def flip: size_mset mset_filter)
    next
      case False
      then show ?thesis using s(3) by (simp add: in_window_def)
    qed
  qed
qed (use slot_ok_simps [OF ok] in simp_all)

lemma mset_remove_last [simp]: "mset (remove_last x xs) = mset xs - {#x#}"
  by (simp add: remove_last_def)

lemma sorted_remove_last:
  assumes "sorted xs"
  shows "sorted (remove_last x xs)"
proof -
  have "sorted (rev ys) \<Longrightarrow> sorted (rev (remove1 x ys))" for ys :: "'a list"
    by (induction ys) (auto simp: sorted_append dest: in_set_remove1 notin_set_remove1 subsetD [OF set_remove1_subset])
  from this [of "rev xs"] show ?thesis using assms by (simp add: remove_last_def)
qed

lemma slot_remove:
  assumes ok: "slot_ok limit clock (Some row) adm"
  shows "slot_ok limit clock (Some (put_row (remove_last x (st_times row)) r)) (remove1 x adm)"
proof (rule slot_write)
  note s = slot_ok_simps [OF ok]
  show "\<forall>t. count_where (in_window t) (remove1 x adm) \<le> limit"
  proof
    fix t
    have "size (filter_mset (in_window t) (mset adm - {#x#})) \<le> size (filter_mset (in_window t) (mset adm))"
      by (intro size_mset_mono multiset_filter_mono) simp
    then have "count_where (in_window t) (remove1 x adm) \<le> count_where (in_window t) adm"
      by (simp add: count_where_def flip: size_mset mset_filter mset_remove1)
    then show "count_where (in_window t) (remove1 x adm) \<le> limit" using s(3) by (meson order_trans)
  qed
  show "filter_mset (\<lambda>y. clock - window < y) (mset (remove_last x (st_times row))) =
      filter_mset (\<lambda>y. clock - window < y) (mset (remove1 x adm))"
    using ok by (simp add: slot_ok_def)
  show "\<forall>y \<in> set (remove1 x adm). y \<le> clock" using s(2) by (meson notin_set_remove1)
qed (use slot_ok_simps [OF ok] in \<open>simp add: sorted_remove_last\<close>)

text \<open>A history may forget a request for which the table has no row.\<close>

lemma slot_remove_None:
  assumes "slot_ok limit clock None adm"
  shows "slot_ok limit clock None (remove1 x adm)"
proof -
  have none: "filter_mset (\<lambda>y. clock - window < y) (mset adm) = {#}"
    using assms by (simp only: slot_ok_def recorded_simps mset.simps filter_empty_mset)
  have "filter_mset (\<lambda>y. clock - window < y) (mset (remove1 x adm)) = {#}"
    using none unfolding filter_mset_none by (auto dest: in_diffD)
  moreover have "count_where (in_window t) (remove1 x adm) \<le> limit" for t
  proof -
    have "count_where (in_window t) (remove1 x adm) \<le> count_where (in_window t) adm" by (induction adm) auto
    then show ?thesis using slot_ok_simps(3) [OF assms] by (meson order_trans)
  qed
  moreover have "\<forall>y \<in> set (remove1 x adm). y \<le> clock" using slot_ok_simps(2) [OF assms] by (meson notin_set_remove1)
  ultimately show ?thesis by (simp add: slot_ok_def)
qed

subsection \<open>The system\<close>

record limiter_system =
  ls_db :: limiter_db
  ls_clock :: int
  ls_admitted :: "string \<times> string \<times> string \<Rightarrow> int list"

definition note_admitted :: "(string \<times> string \<times> string) list \<Rightarrow> int \<Rightarrow>
    (string \<times> string \<times> string \<Rightarrow> int list) \<Rightarrow> string \<times> string \<times> string \<Rightarrow> int list" where
  "note_admitted ks now adm k = (if k \<in> set ks then now # adm k else adm k)"

definition reservation_key :: "CredentialReservation \<Rightarrow> string \<times> string \<times> string" where
  "reservation_key res = (crScope res, crKeyHash res, crRouteClass res)"

definition take_back :: "CredentialReservation \<Rightarrow> (string \<times> string \<times> string \<Rightarrow> int list) \<Rightarrow>
    string \<times> string \<times> string \<Rightarrow> int list" where
  "take_back res adm k = (if k = reservation_key res then remove1 (the (crRecordedAt res)) (adm k) else adm k)"

text \<open>
  The transactions of the limiter, in the order of their clock readings. \<open>take_back\<close> covers any
  active reservation, even one this limiter never issued; \<open>sweep\<close> and \<open>forget\<close> are the cleanup job,
  which deletes some of the expired rows and old metrics.
\<close>

inductive limiter_step :: "(string \<Rightarrow> string) \<Rightarrow> PG \<Rightarrow> limiter_system \<Rightarrow> limiter_system \<Rightarrow> bool" for sha p where
  step_allow: "Allow sha skip p (ls_db s) now keys c = Inr (db', d) \<Longrightarrow> ls_clock s \<le> now \<Longrightarrow>
    limiter_step sha p s \<lparr>ls_db = db', ls_clock = now, ls_admitted =
      (if dAllowed d then note_admitted (map (\<lambda>k. table_key k c) (normalizedKeys sha keys)) now (ls_admitted s) else ls_admitted s)\<rparr>"
| step_reserve: "ReserveCredential sha skip p (ls_db s) now key c = Inr (db', (res, d)) \<Longrightarrow> ls_clock s \<le> now \<Longrightarrow>
    limiter_step sha p s \<lparr>ls_db = db', ls_clock = now, ls_admitted =
      (if dAllowed d then note_admitted (map (\<lambda>k. table_key k c) (normalizedKeys sha [key])) now (ls_admitted s) else ls_admitted s)\<rparr>"
| step_finalize: "FinalizeCredential sha (ls_db s) now res (Some key) = Inr (db', d) \<Longrightarrow> ls_clock s \<le> now \<Longrightarrow>
    limiter_step sha p s \<lparr>ls_db = db', ls_clock = now, ls_admitted =
      (if dAllowed d then note_admitted (map (\<lambda>k. table_key k (crRouteClass res)) (normalizedKeys sha [key])) now (ls_admitted s)
       else take_back res (ls_admitted s))\<rparr>"
| step_cancel: "Active res \<Longrightarrow> limiter_step sha p s
    (s\<lparr>ls_db := CancelCredential (ls_db s) res, ls_admitted := take_back res (ls_admitted s)\<rparr>)"
| step_outcome: "RecordCredentialOutcome sha (ls_db s) now key c outcome = Inr (db', x) \<Longrightarrow>
    limiter_step sha p s (s\<lparr>ls_db := db'\<rparr>)"
| step_sweep: "(\<And>r. D r \<Longrightarrow> st_expires r \<le> now) \<Longrightarrow> ls_clock s \<le> now \<Longrightarrow>
    limiter_step sha p s (s\<lparr>ls_db := (ls_db s)\<lparr>rl_state := delete_where D (rl_state (ls_db s))\<rparr>, ls_clock := now\<rparr>)"
| step_forget: "limiter_step sha p s (s\<lparr>ls_db := (ls_db s)\<lparr>rl_metrics := delete_where D (rl_metrics (ls_db s))\<rparr>\<rparr>)"

inductive_cases limiter_stepE: "limiter_step sha p s s'"

text \<open>A fresh deployment: no state, no metrics, and positive limits, as the settings table checks.\<close>

definition limiter_init :: "limit_settings \<Rightarrow> limiter_system \<Rightarrow> bool" where
  "limiter_init settings s \<longleftrightarrow> rl_settings (ls_db s) = Some settings \<and> rl_state (ls_db s) = [] \<and> rl_metrics (ls_db s) = []
     \<and> 0 < set_reads settings \<and> 0 < set_writes settings \<and> 0 < set_public settings \<and> (\<forall>k. ls_admitted s k = [])"

definition class_limit :: "limit_settings \<Rightarrow> string \<Rightarrow> int" where
  "class_limit settings c =
     (if c = ClassAuthenticatedRead then set_reads settings else if c = ClassAuthenticatedWrite then set_writes settings
      else set_public settings)"

definition slots_ok :: "limit_settings \<Rightarrow> limiter_db \<Rightarrow> int \<Rightarrow> (string \<times> string \<times> string \<Rightarrow> int list) \<Rightarrow> bool" where
  "slots_ok settings db clock adm \<longleftrightarrow> rl_settings db = Some settings \<and> distinct (map state_key (rl_state db))
     \<and> (\<forall>k. slot_ok (class_limit settings (snd (snd k))) clock (lookup_state (rl_state db) k) (adm k))"

definition metric_row_ok :: "metric_row \<Rightarrow> bool" where
  "metric_row_ok m \<longleftrightarrow> 0 \<le> me_shard m \<and> me_shard m < 32 \<and> 0 < me_count m \<and> me_bucket m mod window = 0
     \<and> me_outcome m \<in> {OutcomeAllowed, OutcomeRejected}"

definition metrics_ok :: "limiter_db \<Rightarrow> bool" where
  "metrics_ok db \<longleftrightarrow> (\<forall>m \<in> set (rl_metrics db). metric_row_ok m) \<and> distinct (map metric_key (rl_metrics db))"

definition limiter_good :: "limit_settings \<Rightarrow> limiter_system \<Rightarrow> bool" where
  "limiter_good settings s \<longleftrightarrow> slots_ok settings (ls_db s) (ls_clock s) (ls_admitted s) \<and> metrics_ok (ls_db s)
     \<and> (\<forall>c. 0 < class_limit settings c)"

subsection \<open>What the operations do to the slots\<close>

lemma routeLimit_class: "rl_settings db = Some settings \<Longrightarrow> routeLimit db c = Inr limit \<Longrightarrow> limit = class_limit settings c"
  by (auto simp: routeLimit_def class_limit_def split: if_splits)

lemma slots_ok_later: "slots_ok settings db clock adm \<Longrightarrow> clock \<le> now \<Longrightarrow> slots_ok settings db now adm"
  by (auto simp: slots_ok_def intro: slot_later)

lemma slots_okD:
  "slots_ok settings db now adm \<Longrightarrow> slot_ok (class_limit settings (snd (snd k))) now (lookup_state (rl_state db) k) (adm k)"
  unfolding slots_ok_def by blast

lemma slots_ok_delete:
  assumes ok: "slots_ok settings db now adm" and D: "\<And>r. D r \<Longrightarrow> st_expires r \<le> now"
  shows "slots_ok settings (db\<lparr>rl_state := delete_where D (rl_state db)\<rparr>) now adm"
proof -
  have "slot_ok (class_limit settings (snd (snd k))) now (lookup_state (delete_where D (rl_state db)) k) (adm k)" for k
  proof -
    have "slot_ok (class_limit settings (snd (snd k))) now (lookup_state (rl_state db) k) (adm k)"
      "distinct (map state_key (rl_state db))"
      using ok unfolding slots_ok_def by blast+
    then show ?thesis using D slot_forget by (cases "lookup_state (rl_state db) k") (simp_all add: lookup_delete)
  qed
  then show ?thesis using ok by (simp add: slots_ok_def distinct_map_delete_where)
qed

lemma slots_ok_expired: "slots_ok settings db now adm \<Longrightarrow> slots_ok settings (deleteExpiredState skip db now) now adm"
  unfolding deleteExpiredState_def Let_def by (rule slots_ok_delete) (auto dest: in_set_takeD)

lemma deleteExpired_frame [simp]:
  "rl_settings (deleteExpiredState skip db now) = rl_settings db" "rl_metrics (deleteExpiredState skip db now) = rl_metrics db"
  by (simp_all add: deleteExpiredState_def)

lemma slots_ok_ensure:
  assumes "slots_ok settings db now adm"
  shows "slots_ok settings (db\<lparr>rl_state := fold (\<lambda>k. ensure_state k t) ks (rl_state db)\<rparr>) now adm"
proof -
  have ok: "slot_ok (class_limit settings (snd (snd k))) now (lookup_state (rl_state db) k) (adm k)" for k
    using assms unfolding slots_ok_def by blast
  have "slot_ok (class_limit settings (snd (snd k))) now
      (lookup_state (fold (\<lambda>k. ensure_state k t) ks (rl_state db)) k) (adm k)" for k
    using ok [of k] by (cases "lookup_state (rl_state db) k") (simp_all add: lookup_fold_ensure slot_open)
  then show ?thesis using assms by (simp add: slots_ok_def distinct_fold_rows)
qed

lemma slots_ok_put:
  assumes ok: "slots_ok settings db now adm"
    and put: "\<And>k r. k \<in> set ks \<Longrightarrow> slot_ok (class_limit settings (snd (snd k))) now (lookup_state (rl_state db) k) (adm k) \<Longrightarrow>
      lookup_state (rl_state db) k = Some r \<Longrightarrow>
      slot_ok (class_limit settings (snd (snd k))) now (Some (put_row (F k) r)) (adm' k)"
    and none: "\<And>k. k \<in> set ks \<Longrightarrow> lookup_state (rl_state db) k \<noteq> None"
    and other: "\<And>k. k \<notin> set ks \<Longrightarrow> adm' k = adm k"
  shows "slots_ok settings (db\<lparr>rl_state := fold (\<lambda>k. put_state k (F k)) ks (rl_state db)\<rparr>) now adm'"
proof -
  have ok': "slot_ok (class_limit settings (snd (snd k))) now (lookup_state (rl_state db) k) (adm k)" for k
    using ok unfolding slots_ok_def by blast
  have "slot_ok (class_limit settings (snd (snd k))) now
      (lookup_state (fold (\<lambda>k. put_state k (F k)) ks (rl_state db)) k) (adm' k)" for k
    using ok' [of k] put [of k] none [of k] other [of k] by (auto simp: lookup_fold_put)
  then show ?thesis using ok by (simp add: slots_ok_def distinct_fold_rows)
qed

lemma slots_ok_metrics [simp]: "slots_ok settings (db\<lparr>rl_metrics := m\<rparr>) now adm = slots_ok settings db now adm"
  by (simp add: slots_ok_def)

lemma recordMetric_InrE:
  assumes "recordMetric db now c outcome shard = Inr db'"
  obtains m where "db' = db\<lparr>rl_metrics := m\<rparr>"
  using assms unfolding recordMetric_def Let_def by (elim rbind_elims) auto

lemma lockedState_eq:
  "lockedState db key c now = (db\<lparr>rl_state := fold (\<lambda>k. ensure_state k now) [table_key key c] (rl_state db)\<rparr>,
     active_times now (recorded (lookup_state (rl_state db) (table_key key c))))"
  by (simp add: lockedState_def Let_def)

lemma lockedStates_eq:
  "lockedStates db keys c now =
     (db\<lparr>rl_state := fold (\<lambda>k. ensure_state k now) (map (\<lambda>k. table_key k c) keys) (rl_state db)\<rparr>,
      map (\<lambda>k. (k, active_times now (recorded (lookup_state (rl_state db) (table_key k c))))) keys)"
  by (induction keys arbitrary: db) (simp_all add: lockedState_eq)

lemma writeState_eq:
  "ts \<noteq> [] \<Longrightarrow> writeState db key c ts = Inr (db\<lparr>rl_state := fold (\<lambda>k. put_state k ts) [table_key key c] (rl_state db)\<rparr>)"
  by (simp add: writeState_def expiry_def)

lemma admit_states_eq:
  "admit_states db c now (map (\<lambda>k. (k, G (table_key k c))) keys) =
     Inr (db\<lparr>rl_state := fold (\<lambda>k. put_state k (sort (G k @ [now]))) (map (\<lambda>k. table_key k c) keys) (rl_state db)\<rparr>)"
proof (induction keys arbitrary: db)
  case (Cons k keys)
  have "sort (G (table_key k c) @ [now]) \<noteq> []" by (metis append_is_Nil_conv list.distinct(1) set_empty set_sort)
  then show ?case using Cons by (simp add: writeState_eq)
qed simp

lemma keep_states_eq:
  "keep_states db c (map (\<lambda>k. (k, G (table_key k c))) keys) =
     db\<lparr>rl_state := fold (\<lambda>k. put_state k (G k)) (map (\<lambda>k. table_key k c) keys) (rl_state db)\<rparr>"
  by (induction keys arbitrary: db) simp_all

lemma slot_sorted:
  assumes "slot_ok limit now slot adm"
  shows "sort (active_times now (recorded slot) @ [now]) = active_times now (recorded slot) @ [now]"
proof -
  have "\<forall>x \<in># mset (active_times now (recorded slot)). x \<le> now"
    unfolding slot_ok_simps(4) [OF assms] using slot_ok_simps(2) [OF assms] by simp
  then show ?thesis by (intro sorted_sort_id) (simp add: sorted_append active_times_def)
qed

text \<open>One transaction that admits a request for some keys, or refuses it and keeps their slots.\<close>

abbreviation active_of :: "limiter_db \<Rightarrow> int \<Rightarrow> string \<times> string \<times> string \<Rightarrow> int list" where
  "active_of db now k \<equiv> active_times now (recorded (lookup_state (rl_state db) k))"

abbreviation ensured :: "limiter_db \<Rightarrow> int \<Rightarrow> (string \<times> string \<times> string) list \<Rightarrow> limiter_db" where
  "ensured db now ks \<equiv> db\<lparr>rl_state := fold (\<lambda>k. ensure_state k now) ks (rl_state db)\<rparr>"

lemma slots_ok_admit:
  assumes ok: "slots_ok settings db now adm" and cls: "\<And>k. k \<in> set ks \<Longrightarrow> snd (snd k) = c"
    and room: "\<And>k. k \<in> set ks \<Longrightarrow> int (length (active_of db now k)) < class_limit settings c"
  shows "slots_ok settings ((ensured db now ks)\<lparr>rl_state :=
    fold (\<lambda>k. put_state k (sort (active_of db now k @ [now]))) ks (rl_state (ensured db now ks))\<rparr>) now (note_admitted ks now adm)"
proof (rule slots_ok_put [OF slots_ok_ensure [OF ok]])
  fix k r assume k: "k \<in> set ks"
  have "slot_ok (class_limit settings (snd (snd k))) now (lookup_state (rl_state db) k) (adm k)"
    using ok unfolding slots_ok_def by blast
  from slot_admit [OF this, of r] show "slot_ok (class_limit settings (snd (snd k))) now
      (Some (put_row (sort (active_of db now k @ [now])) r)) (note_admitted ks now adm k)"
    using room [OF k] cls [OF k] k by (simp add: note_admitted_def)
qed (simp_all add: lookup_fold_ensure note_admitted_def)

lemma slots_ok_refuse:
  assumes ok: "slots_ok settings db now adm"
  shows "slots_ok settings ((ensured db now ks)\<lparr>rl_state :=
    fold (\<lambda>k. put_state k (active_of db now k)) ks (rl_state (ensured db now ks))\<rparr>) now adm"
proof (rule slots_ok_put [OF slots_ok_ensure [OF ok]])
  fix k r
  have "slot_ok (class_limit settings (snd (snd k))) now (lookup_state (rl_state db) k) (adm k)"
    using ok unfolding slots_ok_def by blast
  then show "slot_ok (class_limit settings (snd (snd k))) now (Some (put_row (active_of db now k) r)) (adm k)"
    by (rule slot_keep)
qed (simp_all add: lookup_fold_ensure)

lemma decide_allowed:
  "dAllowed (decide limit now d states) \<longleftrightarrow> dAllowed d \<and> (\<forall>(k, ts) \<in> set states. int (length ts) < limit)"
  by (induction states arbitrary: d) (auto simp: Let_def split: if_splits)

lemma Allow_slots:
  assumes ok: "slots_ok settings db0 now adm" and run: "Allow sha skip p db0 now keys c = Inr (db', d)"
  shows "slots_ok settings db' now
    (if dAllowed d then note_admitted (map (\<lambda>k. table_key k c) (normalizedKeys sha keys)) now adm else adm)"
proof -
  define db where "db = (if pg_cleanupExpired p then deleteExpiredState skip db0 now else db0)"
  have okd: "slots_ok settings db now adm" using ok slots_ok_expired by (simp add: db_def)
  define ks where "ks = map (\<lambda>k. table_key k c) (normalizedKeys sha keys)"
  have cls: "snd (snd k) = c" if "k \<in> set ks" for k using that by (auto simp: ks_def table_key_def)
  obtain limit where limit: "routeLimit db0 c = Inr limit" and set: "rl_settings db0 = Some settings"
    using run ok unfolding Allow_def Let_def slots_ok_def by (elim rbind_elims) auto
  have lim: "limit = class_limit settings c" using routeLimit_class [OF set limit] .
  let ?states = "map (\<lambda>k. (k, active_of db now (table_key k c))) (normalizedKeys sha keys)"
  let ?d = "decide limit now \<lparr>dAllowed = True, dLimit = limit, dRemaining = limit, dRetryAfter = 0\<rparr> ?states"
  show ?thesis
  proof (cases "dAllowed ?d")
    case True
    have room: "int (length (active_of db now k)) < class_limit settings c" if "k \<in> set ks" for k
      using True that lim by (auto simp: decide_allowed ks_def)
    obtain m where "db' = (ensured db now ks)\<lparr>rl_state := fold (\<lambda>k. put_state k (sort (active_of db now k @ [now]))) ks
        (rl_state (ensured db now ks)), rl_metrics := m\<rparr>" "dAllowed d"
      using run limit True unfolding Allow_def Let_def
      by (elim rbind_elims) (auto simp: lockedStates_eq admit_states_eq [where G = "active_of db now"] simp flip: db_def ks_def elim!: rbind_elims recordMetric_InrE)
    then show ?thesis using slots_ok_admit [of settings db now adm ks c, OF okd cls room] by (simp flip: ks_def)
  next
    case False
    obtain m where "db' = (ensured db now ks)\<lparr>rl_state := fold (\<lambda>k. put_state k (active_of db now k)) ks
        (rl_state (ensured db now ks)), rl_metrics := m\<rparr>" "\<not> dAllowed d"
      using run limit False unfolding Allow_def Let_def
      by (elim rbind_elims) (auto simp: lockedStates_eq keep_states_eq [where G = "active_of db now"] simp flip: db_def ks_def elim!: rbind_elims recordMetric_InrE)
    then show ?thesis using slots_ok_refuse [OF okd] by simp
  qed
qed

lemma slot_decision_allowed: "dAllowed (slot_decision active limit now) \<longleftrightarrow> int (length active) < limit"
  by (simp add: slot_decision_def)

text \<open>The single-key transactions admit exactly as \<open>slots_ok_admit\<close> does for one key.\<close>

lemma slots_ok_admit1:
  assumes ok: "slots_ok settings db now adm" and room: "int (length (active_of db now (table_key k c))) < class_limit settings c"
    and w: "writeState (ensured db now [table_key k c]) k c (active_of db now (table_key k c) @ [now]) = Inr db'"
  shows "slots_ok settings db' now (note_admitted [table_key k c] now adm)"
proof -
  have "slot_ok (class_limit settings c) now (lookup_state (rl_state db) (table_key k c)) (adm (table_key k c))"
    using ok unfolding slots_ok_def by (metis snd_conv table_key_def)
  note srt = slot_sorted [OF this]
  have "slots_ok settings ((ensured db now [table_key k c])\<lparr>rl_state :=
      fold (\<lambda>k. put_state k (sort (active_of db now k @ [now]))) [table_key k c] (rl_state (ensured db now [table_key k c]))\<rparr>)
      now (note_admitted [table_key k c] now adm)"
    by (rule slots_ok_admit [OF ok, of _ c]) (use room in \<open>simp_all add: table_key_def\<close>)
  then show ?thesis using w srt by (simp add: writeState_eq)
qed

lemma normalized_single:
  assumes "normalizedKeys sha [key] = [k]"
  shows "map (\<lambda>k. table_key k c) (normalizedKeys sha [key]) = [table_key k c]"
  using assms by simp

lemma credential_key_eq_Inr: "credential_key sha key = Inr k \<longleftrightarrow> normalizedKeys sha [key] = [k] \<and> kScope k = ScopeCredential"
  unfolding credential_key_def by (auto split: list.splits)

lemma account_key_eq_Inr: "account_key sha key = Inr k \<longleftrightarrow> normalizedKeys sha [key] = [k] \<and> kScope k = ScopeAccount"
  unfolding account_key_def by (auto split: list.splits)

lemma ReserveCredential_slots:
  assumes ok: "slots_ok settings db0 now adm" and run: "ReserveCredential sha skip p db0 now key c = Inr (db', (res, d))"
  shows "slots_ok settings db' now
    (if dAllowed d then note_admitted (map (\<lambda>k. table_key k c) (normalizedKeys sha [key])) now adm else adm)"
proof -
  define db where "db = (if pg_cleanupExpired p then deleteExpiredState skip db0 now else db0)"
  have okd: "slots_ok settings db now adm" using ok slots_ok_expired by (simp add: db_def)
  have set: "rl_settings db0 = Some settings" using ok by (simp add: slots_ok_def)
  from run obtain k limit where k: "normalizedKeys sha [key] = [k]" and limit: "routeLimit db0 c = Inr limit"
    and out: "if \<not> dAllowed (slot_decision (active_of db now (table_key k c)) limit now)
      then db' = ensured db now [table_key k c] \<and> \<not> dAllowed d
      else dAllowed d \<and> writeState (ensured db now [table_key k c]) k c (active_of db now (table_key k c) @ [now]) = Inr db'"
    unfolding ReserveCredential_def Let_def lockedState_eq case_prod_conv
    by (elim rbind_elims) (auto simp: credential_key_eq_Inr simp flip: db_def elim!: rbind_elims split: if_splits)
  note lim = routeLimit_class [OF set limit]
  show ?thesis
  proof (cases "dAllowed (slot_decision (active_of db now (table_key k c)) limit now)")
    case True
    then show ?thesis using out slots_ok_admit1 [OF okd] lim k by (simp add: slot_decision_allowed)
  next
    case False
    then show ?thesis using out slots_ok_ensure [OF okd, of now "[table_key k c]"] by simp
  qed
qed

lemma removeReservation_slots:
  assumes ok: "slots_ok settings db now adm" and act: "Active res"
  shows "slots_ok settings (removeReservation db res) now (take_back res adm)"
proof -
  let ?k = "reservation_key res"
  obtain x where x: "crRecordedAt res = Some x" using act by (auto simp: Active_def)
  have slot: "slot_ok (class_limit settings (snd (snd ?k))) now (lookup_state (rl_state db) ?k) (adm ?k)"
    using ok unfolding slots_ok_def by blast
  show ?thesis
  proof (cases "lookup_state (rl_state db) ?k")
    case None
    have "slot_ok (class_limit settings (snd (snd k))) now (lookup_state (rl_state db) k) (take_back res adm k)" for k
      using slots_okD [OF ok, of k] None slot_remove_None by (cases "k = ?k") (simp_all add: take_back_def)
    then show ?thesis using ok None by (simp add: slots_ok_def removeReservation_def reservation_key_def)
  next
    case (Some row)
    have "slots_ok settings (db\<lparr>rl_state := fold (\<lambda>k. put_state k (remove_last x (st_times row))) [?k] (rl_state db)\<rparr>) now
        (take_back res adm)"
      by (rule slots_ok_put [OF ok]) (use Some slot_remove x in \<open>auto simp: take_back_def\<close>)
    then show ?thesis using Some x by (simp add: removeReservation_def reservation_key_def)
  qed
qed

lemma FinalizeCredential_slots:
  assumes ok: "slots_ok settings db now adm" and run: "FinalizeCredential sha db now res (Some key) = Inr (db', d)"
  shows "slots_ok settings db' now
    (if dAllowed d then note_admitted (map (\<lambda>k. table_key k (crRouteClass res)) (normalizedKeys sha [key])) now adm
     else take_back res adm)"
proof -
  let ?c = "crRouteClass res"
  have set: "rl_settings db = Some settings" using ok by (simp add: slots_ok_def)
  from run obtain k limit m db2 where act: "Active res" and k: "normalizedKeys sha [key] = [k]" and limit: "routeLimit db ?c = Inr limit"
    and out: "if \<not> dAllowed (slot_decision (active_of db now (table_key k ?c)) limit now)
      then db' = (removeReservation (ensured db now [table_key k ?c]) res)\<lparr>rl_metrics := m\<rparr> \<and> \<not> dAllowed d
      else dAllowed d \<and> writeState (ensured db now [table_key k ?c]) k ?c (active_of db now (table_key k ?c) @ [now]) = Inr db2
        \<and> db' = db2\<lparr>rl_metrics := m\<rparr>"
    unfolding FinalizeCredential_def Let_def lockedState_eq case_prod_conv option.case
    by (elim rbind_elims) (auto simp: account_key_eq_Inr elim!: rbind_elims recordMetric_InrE split: if_splits)
  note lim = routeLimit_class [OF set limit]
  show ?thesis
  proof (cases "dAllowed (slot_decision (active_of db now (table_key k ?c)) limit now)")
    case True
    then show ?thesis using out slots_ok_admit1 [OF ok] lim k by (simp add: slot_decision_allowed)
  next
    case False
    then show ?thesis using out removeReservation_slots [OF slots_ok_ensure [OF ok, of now "[table_key k ?c]"] act] by simp
  qed
qed

subsection \<open>The metrics\<close>

lemma metricShard_range: "0 \<le> metricShard keys \<and> metricShard keys < 32"
  by (auto simp: metricShard_def split: list.splits option.splits)

lemma trunc_minute_mod [simp]: "trunc_minute now mod window = 0"
  by (simp add: trunc_minute_def minus_mod_eq_mult_div)

lemma metric_count_up [simp]: "metric_key (m\<lparr>me_count := n\<rparr>) = metric_key m"
  by (simp add: metric_key_def)

lemma recordMetric_metrics:
  assumes ok: "metrics_ok db" and run: "recordMetric db now c outcome shard = Inr db'"
  shows "metrics_ok db'"
proof -
  let ?k = "(trunc_minute now, c, outcome, shard)"
  let ?new = "\<lparr>me_bucket = trunc_minute now, me_class = c, me_outcome = outcome, me_shard = shard, me_count = 1\<rparr>"
  have check: "outcome \<in> {OutcomeAllowed, OutcomeRejected} \<and> 0 \<le> shard \<and> shard \<le> 31"
    and db': "db' = db\<lparr>rl_metrics := (if list_ex (\<lambda>m. metric_key m = ?k) (rl_metrics db)
        then update_where (\<lambda>m. metric_key m = ?k) (\<lambda>m. m\<lparr>me_count := me_count m + 1\<rparr>) (rl_metrics db)
        else rl_metrics db @ [?new])\<rparr>"
    using run unfolding recordMetric_def Let_def by (elim rbind_elims; simp only: sum.inject)+
  have new: "metric_row_ok ?new" "metric_key ?new = ?k" using check by (simp_all add: metric_row_ok_def metric_key_def)
  have up: "metric_row_ok m \<Longrightarrow> metric_row_ok (m\<lparr>me_count := me_count m + 1\<rparr>)" for m by (simp add: metric_row_ok_def)
  show ?thesis
  proof (cases "list_ex (\<lambda>m. metric_key m = ?k) (rl_metrics db)")
    case True
    then show ?thesis using ok up unfolding db' metrics_ok_def by (auto simp: set_update_where map_update_where)
  next
    case False
    then have "?k \<notin> metric_key ` set (rl_metrics db)" unfolding list_ex_iff by force
    then show ?thesis using False ok new unfolding db' metrics_ok_def by simp
  qed
qed

lemma metrics_ok_cong: "rl_metrics db' = rl_metrics db \<Longrightarrow> metrics_ok db' = metrics_ok db"
  by (simp add: metrics_ok_def)

lemma removeReservation_frame [simp]:
  "rl_metrics (removeReservation db res) = rl_metrics db" "rl_settings (removeReservation db res) = rl_settings db"
  by (simp_all add: removeReservation_def Let_def split: option.splits)

lemma lockedState_frame [simp]: "rl_metrics (fst (lockedState db key c now)) = rl_metrics db"
  by (simp add: lockedState_def Let_def)

lemma writeState_metrics: "writeState db key c ts = Inr db' \<Longrightarrow> rl_metrics db' = rl_metrics db"
  unfolding writeState_def by (elim rbind_elims) auto

lemma admit_states_metrics: "admit_states db c now states = Inr db' \<Longrightarrow> rl_metrics db' = rl_metrics db"
  by (induction db c now states rule: admit_states.induct) (auto elim!: rbind_elims dest: writeState_metrics)

lemma keep_states_metrics [simp]: "rl_metrics (keep_states db c states) = rl_metrics db"
  by (induction db c states rule: keep_states.induct) auto

lemma Allow_metrics:
  assumes "metrics_ok db0" and run: "Allow sha skip p db0 now keys c = Inr (db', d)"
  shows "metrics_ok db'"
proof -
  obtain db outcome where "recordMetric db now c outcome (metricShard (normalizedKeys sha keys)) = Inr db'"
    "rl_metrics db = rl_metrics db0"
    using run unfolding Allow_def Let_def lockedStates_eq case_prod_conv
    by (elim rbind_elims) (auto elim!: rbind_elims dest!: admit_states_metrics split: if_splits)
  then show ?thesis using assms(1) recordMetric_metrics metrics_ok_cong by metis
qed

lemma ReserveCredential_metrics:
  assumes "metrics_ok db0" and run: "ReserveCredential sha skip p db0 now key c = Inr (db', x)"
  shows "metrics_ok db'"
proof -
  have "rl_metrics db' = rl_metrics db0"
    using run unfolding ReserveCredential_def Let_def lockedState_eq case_prod_conv
    by (elim rbind_elims) (auto elim!: rbind_elims dest!: writeState_metrics split: if_splits)
  then show ?thesis using assms(1) metrics_ok_cong by metis
qed

lemma FinalizeCredential_metrics:
  assumes "metrics_ok db0" and run: "FinalizeCredential sha db0 now res (Some key) = Inr (db', d)"
  shows "metrics_ok db'"
proof -
  obtain db outcome shard where "recordMetric db now (crRouteClass res) outcome shard = Inr db'"
    "rl_metrics db = rl_metrics db0"
    using run unfolding FinalizeCredential_def Let_def lockedState_eq case_prod_conv option.case
    by (elim rbind_elims) (auto elim!: rbind_elims dest!: writeState_metrics split: if_splits)
  then show ?thesis using assms(1) recordMetric_metrics metrics_ok_cong by metis
qed

subsection \<open>Every reachable state is good\<close>

lemma limiter_good_step:
  assumes good: "limiter_good settings s" and step: "limiter_step sha p s s'"
  shows "limiter_good settings s'"
proof -
  have ok: "slots_ok settings (ls_db s) (ls_clock s) (ls_admitted s)" and m: "metrics_ok (ls_db s)"
    and pos: "0 < class_limit settings c" for c
    using good by (simp_all add: limiter_good_def)
  note later = slots_ok_later [OF ok] and simps = limiter_good_def pos
  show ?thesis
    using step
  proof (cases rule: limiter_step.cases)
    case (step_allow skip now keys c db' d)
    then show ?thesis using Allow_slots [OF later] Allow_metrics [OF m] by (simp add: simps)
  next
    case (step_reserve skip now key c db' res d)
    then show ?thesis using ReserveCredential_slots [OF later] ReserveCredential_metrics [OF m] by (simp add: simps)
  next
    case (step_finalize now res key db' d)
    then show ?thesis using FinalizeCredential_slots [OF later] FinalizeCredential_metrics [OF m] by (simp add: simps)
  next
    case (step_cancel res)
    then show ?thesis using removeReservation_slots [OF ok] metrics_ok_cong [of "removeReservation (ls_db s) res"] m
      by (simp add: simps CancelCredential_def)
  next
    case (step_outcome now key c outcome db' x)
    then obtain k where "recordMetric (ls_db s) now c outcome (metricShard [k]) = Inr db'"
      unfolding RecordCredentialOutcome_def by (elim rbind_elims) auto
    then show ?thesis using step_outcome(1) ok recordMetric_metrics [OF m] by (auto simp: simps elim!: recordMetric_InrE)
  next
    case (step_sweep D now)
    then show ?thesis
      using slots_ok_delete [OF later] metrics_ok_cong [of "(ls_db s)\<lparr>rl_state := delete_where D (rl_state (ls_db s))\<rparr>"] m
      by (simp add: simps)
  next
    case (step_forget D)
    have "metrics_ok ((ls_db s)\<lparr>rl_metrics := delete_where D (rl_metrics (ls_db s))\<rparr>)"
      using m by (simp add: metrics_ok_def distinct_map_delete_where)
    then show ?thesis using step_forget ok by (simp add: simps)
  qed
qed

lemma limiter_good_init:
  assumes "limiter_init settings s"
  shows "limiter_good settings s"
proof -
  have "0 < class_limit settings c" for c using assms by (simp add: limiter_init_def class_limit_def)
  then show ?thesis
    using assms by (simp add: limiter_init_def limiter_good_def slots_ok_def metrics_ok_def slot_ok_def lookup_state_def less_imp_le)
qed

interpretation limiter: invariant_system "limiter_init settings" "limiter_step sha p" "limiter_good settings"
  for settings sha p
  by unfold_locales (fact limiter_good_init, fact limiter_good_step)

end
