(* ===== verification/LimiterRules.thy ===== *)
theory LimiterRules
  imports LimiterWindow
begin

section \<open>What the rate limiter guarantees\<close>

text \<open>
  The bound on every window, the metric table, the exactness of the retry time, the round trip
  of a reservation that is taken back, and the header value in seconds.
\<close>

subsection \<open>Retry times\<close>

lemma count_above:
  assumes "sorted ts" "0 < n"
  shows "length (filter (\<lambda>x. a < x) ts) < n \<longleftrightarrow> length ts < n \<or> ts ! (length ts - n) \<le> (a :: int)"
proof (cases "length ts < n")
  case True
  then show ?thesis using length_filter_le [of "\<lambda>x. a < x" ts] by linarith
next
  case False
  define i where "i = length ts - n"
  have i: "i < length ts" using False assms(2) by (simp add: i_def)
  obtain us x vs where ts: "ts = us @ x # vs" and us: "length us = i" and x: "x = ts ! i"
    using id_take_nth_drop [OF i] i by (metis length_take min.absorb4)
  have srt: "\<forall>u \<in> set us. u \<le> x" "\<forall>v \<in> set vs. x \<le> v" using assms(1) by (auto simp: ts sorted_append)
  have n: "n = Suc (length vs)" using us False assms(2) by (simp add: i_def ts)
  have "length (filter (\<lambda>x. a < x) ts) < n \<longleftrightarrow> x \<le> a"
  proof (cases "x \<le> a")
    case True
    then have "filter (\<lambda>x. a < x) us = []" using srt(1) by (auto simp: filter_empty_conv)
    then show ?thesis using True n by (simp add: ts less_Suc_eq_le)
  next
    case above: False
    then have "filter (\<lambda>x. a < x) vs = vs" using srt(2) by (auto simp: filter_id_conv)
    then show ?thesis using above n by (simp add: ts)
  qed
  then show ?thesis using False x by (simp add: i_def)
qed

lemma decide_retry:
  "dRetryAfter (decide limit now d states) \<le> r \<longleftrightarrow>
     dRetryAfter d \<le> r \<and> (\<forall>(k, ts) \<in> set states. limit \<le> int (length ts) \<longrightarrow> retryAfter ts limit now \<le> r)"
  by (induction states arbitrary: d) (auto simp: Let_def split: if_splits)

lemma active_times_later:
  "now \<le> now' \<Longrightarrow> active_times now' (active_times now ts) = active_times now' ts"
proof -
  assume le: "now \<le> now'"
  have "filter (\<lambda>x. now' - window < x) (filter (\<lambda>x. now - window < x) ts) = filter (\<lambda>x. now' - window < x) ts"
    unfolding filter_filter by (rule filter_cong) (use le in auto)
  then show "active_times now' (active_times now ts) = active_times now' ts"
    unfolding active_times_def filter_sort by (simp only: sorted_sort_id sorted_sort)
qed

lemma active_expired:
  assumes "slots_ok settings db now adm"
  shows "active_of (deleteExpiredState skip db now) now k = active_of db now k"
proof (cases "lookup_state (rl_state db) k")
  case (Some r)
  have "slot_ok (class_limit settings (snd (snd k))) now (Some r) (adm k)" using slots_okD [OF assms, of k] Some by simp
  then have le: "x + window \<le> st_expires r" if "x \<in> set (st_times r)" for x using that by (simp add: slot_ok_def)
  have "filter (\<lambda>x. now - window < x) (st_times r) = []" if "st_expires r \<le> now"
    using le that by (force simp: filter_empty_conv)
  then show ?thesis
    using Some assms by (auto simp: deleteExpiredState_def Let_def slots_ok_def lookup_delete active_times_def dest: in_set_takeD)
qed (use assms in \<open>simp add: deleteExpiredState_def Let_def slots_ok_def lookup_delete\<close>)

lemma slots_active:
  assumes "slots_ok settings db now adm"
  shows "sorted (active_of db now k)" "\<forall>x \<in> set (active_of db now k). now - window < x \<and> x \<le> now"
    "k \<notin> set ks \<Longrightarrow> lookup_state (rl_state (ensured db t ks)) k = lookup_state (rl_state db) k"
proof -
  have "\<forall>x \<in># mset (active_of db now k). now - window < x \<and> x \<le> now"
    unfolding slot_ok_simps(4) [OF slots_okD [OF assms]] using slot_ok_simps(2) [OF slots_okD [OF assms, of k]] by simp
  then show "\<forall>x \<in> set (active_of db now k). now - window < x \<and> x \<le> now" by simp
qed (simp_all add: active_times_def lookup_fold_ensure)

text \<open>What an accepted call of \<open>Allow\<close> computes, whatever it decides.\<close>

lemma Allow_result:
  assumes ok: "slots_ok settings db0 now adm" and cfg: "pg_configured p" and keys: "normalizedKeys sha keys \<noteq> []"
    and c: "c \<in> {ClassAuthenticatedRead, ClassAuthenticatedWrite, ClassPublicAuth}"
  shows "\<exists>db' d. Allow sha skip p db0 now keys c = Inr (db', d) \<and> dLimit d = class_limit settings c
    \<and> (dAllowed d \<longleftrightarrow> (\<forall>k \<in> set (normalizedKeys sha keys).
         int (length (active_of db0 now (table_key k c))) < class_limit settings c))"
proof -
  define db where "db = (if pg_cleanupExpired p then deleteExpiredState skip db0 now else db0)"
  have act: "active_of db now k = active_of db0 now k" for k using active_expired [OF ok] by (simp add: db_def)
  have lim: "routeLimit db0 c = Inr (class_limit settings c)"
    using ok c by (auto simp: slots_ok_def routeLimit_def class_limit_def)
  let ?ks = "map (\<lambda>k. table_key k c) (normalizedKeys sha keys)"
  let ?states = "map (\<lambda>k. (k, active_of db now (table_key k c))) (normalizedKeys sha keys)"
  let ?d = "decide (class_limit settings c) now \<lparr>dAllowed = True, dLimit = class_limit settings c,
      dRemaining = class_limit settings c, dRetryAfter = 0\<rparr> ?states"
  have limit: "dLimit (decide l now d states) = dLimit d" for l d states
    by (induction states arbitrary: d) (auto simp: Let_def)
  have rec: "\<exists>x'. recordMetric x now c outcome (metricShard (normalizedKeys sha keys)) = Inr x'"
    if "outcome \<in> {OutcomeAllowed, OutcomeRejected}" for x outcome
    using c that metricShard_range [of "normalizedKeys sha keys"] by (simp add: recordMetric_def Let_def require_def)
  have allowed: "dAllowed ?d \<longleftrightarrow> (\<forall>k \<in> set (normalizedKeys sha keys).
      int (length (active_of db0 now (table_key k c))) < class_limit settings c)"
    by (simp add: decide_allowed act)
  show ?thesis
  proof (cases "dAllowed ?d")
    case True
    obtain x' where "recordMetric ((ensured db now ?ks)\<lparr>rl_state := fold (\<lambda>k. put_state k (sort (active_of db now k @ [now]))) ?ks
        (rl_state (ensured db now ?ks))\<rparr>) now c OutcomeAllowed (metricShard (normalizedKeys sha keys)) = Inr x'"
      using rec by blast
    then have "Allow sha skip p db0 now keys c = Inr (x', ?d\<lparr>dRemaining := dRemaining ?d - 1\<rparr>)"
      using True cfg keys lim
      by (simp add: Allow_def Let_def lockedStates_eq admit_states_eq [where G = "active_of db now"] flip: db_def)
    then show ?thesis using True allowed limit by simp
  next
    case False
    obtain x' where "recordMetric ((ensured db now ?ks)\<lparr>rl_state := fold (\<lambda>k. put_state k (active_of db now k)) ?ks
        (rl_state (ensured db now ?ks))\<rparr>) now c OutcomeRejected (metricShard (normalizedKeys sha keys)) = Inr x'"
      using rec by blast
    then have "Allow sha skip p db0 now keys c = Inr (x', ?d\<lparr>dRemaining := 0, dRetryAfter := positive_retry (dRetryAfter ?d)\<rparr>)"
      using False cfg keys lim
      by (simp add: Allow_def Let_def lockedStates_eq keep_states_eq [where G = "active_of db now"] flip: db_def)
    then show ?thesis using False allowed limit by simp
  qed
qed

text \<open>A refused call keeps the requests of the window and names the time the last full key opens.\<close>

lemma Allow_refused:
  assumes ok: "slots_ok settings db0 now adm" and run: "Allow sha skip p db0 now keys c = Inr (db', d)" and no: "\<not> dAllowed d"
    and pos: "0 < class_limit settings c"
  shows "slots_ok settings db' now adm" "now \<le> now' \<Longrightarrow> active_of db' now' k = active_of db0 now' k"
    "0 < dRetryAfter d"
    "dRetryAfter d \<le> r \<longleftrightarrow> 0 \<le> r \<and> (\<forall>k \<in> set (normalizedKeys sha keys). let ts = active_of db0 now (table_key k c) in
        class_limit settings c \<le> int (length ts) \<longrightarrow> retryAfter ts (class_limit settings c) now \<le> r)"
proof -
  define db where "db = (if pg_cleanupExpired p then deleteExpiredState skip db0 now else db0)"
  have okd: "slots_ok settings db now adm" using ok slots_ok_expired by (simp add: db_def)
  have act: "active_of db now k = active_of db0 now k" for k using active_expired [OF ok] by (simp add: db_def)
  show "slots_ok settings db' now adm" using Allow_slots [OF ok run] no by simp
  let ?ks = "map (\<lambda>k. table_key k c) (normalizedKeys sha keys)"
  let ?states = "map (\<lambda>k. (k, active_of db now (table_key k c))) (normalizedKeys sha keys)"
  let ?d = "\<lambda>limit. decide limit now \<lparr>dAllowed = True, dLimit = limit, dRemaining = limit, dRetryAfter = 0\<rparr> ?states"
  have set: "rl_settings db0 = Some settings" using ok by (simp add: slots_ok_def)
  obtain limit where limit: "routeLimit db0 c = Inr limit"
    using run unfolding Allow_def Let_def by (elim rbind_elims)
  note lim = routeLimit_class [OF set limit]
  have all: "\<not> dAllowed (?d limit)" and db': "\<exists>m. db' = (ensured db now ?ks)\<lparr>rl_state := fold (\<lambda>k. put_state k (active_of db now k)) ?ks
        (rl_state (ensured db now ?ks)), rl_metrics := m\<rparr>" and D: "dRetryAfter d = positive_retry (dRetryAfter (?d limit))"
    using run limit no unfolding Allow_def Let_def
    by (elim rbind_elims; auto simp: lockedStates_eq keep_states_eq [where G = "active_of db now"] simp flip: db_def
        elim!: rbind_elims recordMetric_InrE split: if_splits)+
  show "active_of db' now' k = active_of db0 now' k" if le: "now \<le> now'"
  proof -
    have "active_of db' now' k = active_of db now' k"
      using db' active_times_later [OF le, of "recorded (lookup_state (rl_state db) k)"]
      by (cases "lookup_state (rl_state db) k") (auto simp: lookup_fold_put lookup_fold_ensure active_times_def [of _ "[]"])
    also have "\<dots> = active_times now' (active_of db now k)" using active_times_later [OF le] by simp
    also have "\<dots> = active_of db0 now' k" unfolding act using active_times_later [OF le] by simp
    finally show ?thesis .
  qed
  have le_iff: "dRetryAfter (?d limit) \<le> r \<longleftrightarrow> 0 \<le> r \<and> (\<forall>k \<in> set (normalizedKeys sha keys). let ts = active_of db0 now (table_key k c) in
      class_limit settings c \<le> int (length ts) \<longrightarrow> retryAfter ts (class_limit settings c) now \<le> r)" for r
    by (auto simp: decide_retry lim act Let_def)
  obtain k where k: "k \<in> set (normalizedKeys sha keys)" "class_limit settings c \<le> int (length (active_of db0 now (table_key k c)))"
    using all by (auto simp: decide_allowed lim act)
  have "0 < retryAfter (active_of db0 now (table_key k c)) (class_limit settings c) now"
  proof -
    let ?ts = "active_of db0 now (table_key k c)"
    have "nat (int (length ?ts) - class_limit settings c) < length ?ts" using pos k(2) by linarith
    then have "?ts ! nat (int (length ?ts) - class_limit settings c) \<in> set ?ts" by (rule nth_mem)
    then show ?thesis using slots_active(2) [OF ok, of "table_key k c"] unfolding retryAfter_def by force
  qed
  then have "\<not> dRetryAfter (?d limit) \<le> 0" unfolding le_iff using k by (auto simp: Let_def)
  then have eq: "dRetryAfter d = dRetryAfter (?d limit)" and p: "0 < dRetryAfter (?d limit)" by (simp_all add: D positive_retry_def)
  show "0 < dRetryAfter d" using eq p by simp
  show "dRetryAfter d \<le> r \<longleftrightarrow> 0 \<le> r \<and> (\<forall>k \<in> set (normalizedKeys sha keys). let ts = active_of db0 now (table_key k c) in
        class_limit settings c \<le> int (length ts) \<longrightarrow> retryAfter ts (class_limit settings c) now \<le> r)"
    unfolding eq by (rule le_iff)
qed

lemma reachable_slots:
  assumes "reachable (limiter_init settings) (limiter_step sha p) s" "ls_clock s \<le> now"
  shows "slots_ok settings (ls_db s) now (ls_admitted s)" "0 < class_limit settings c"
  using limiter.good_reachable [OF assms(1)] slots_ok_later [OF _ assms(2)] by (auto simp: limiter_good_def)

subsection \<open>Reservations\<close>

lemma ReserveCredential_admitted:
  assumes ok: "slots_ok settings db0 now adm" and run: "ReserveCredential sha skip p db0 now key c = Inr (db', (res, d))"
    and d: "dAllowed d" and sha: "\<And>v. sha v \<noteq> []"
  obtains K where "reservation_key res = K" "Active res" "crRecordedAt res = Some now" "crRouteClass res = c"
    "fst K = ScopeCredential" "recorded (lookup_state (rl_state db') K) = active_of db0 now K @ [now]"
    "lookup_state (rl_state db') K \<noteq> None"
    "\<And>k now'. k \<noteq> K \<Longrightarrow> now \<le> now' \<Longrightarrow> active_of db' now' k = active_of db0 now' k"
proof -
  define db where "db = (if pg_cleanupExpired p then deleteExpiredState skip db0 now else db0)"
  have act: "active_of db now k = active_of db0 now k" for k using active_expired [OF ok] by (simp add: db_def)
  from run d obtain k limit where k: "normalizedKeys sha [key] = [k]" "kScope k = ScopeCredential"
    and w: "writeState (ensured db now [table_key k c]) k c (active_of db now (table_key k c) @ [now]) = Inr db'"
    and res: "res = \<lparr>crScope = kScope k, crKeyHash = kValue k, crRouteClass = c, crRecordedAt = Some now, crDecision = d\<rparr>"
    unfolding ReserveCredential_def Let_def lockedState_eq case_prod_conv
    by (elim rbind_elims) (auto simp: credential_key_eq_Inr simp flip: db_def elim!: rbind_elims split: if_splits)
  have "kValue k = hashKey sha (kScope key) (kValue key)" using k(1) by (auto simp: normalizedKeys_def split: if_splits)
  then have val: "kValue k \<noteq> []" using sha by (simp add: hashKey_def)
  let ?K = "table_key k c"
  have db': "rl_state db' = put_state ?K (active_of db now ?K @ [now]) (ensure_state ?K now (rl_state db))"
    using w by (auto simp: writeState_eq)
  have some: "lookup_state (ensure_state ?K now (rl_state db)) ?K \<noteq> None" by (auto simp: lookup_ensure)
  show thesis
  proof (rule that)
    show "reservation_key res = ?K" "Active res" "crRecordedAt res = Some now" "crRouteClass res = c" "fst ?K = ScopeCredential"
      using k(2) val by (simp_all add: res reservation_key_def table_key_def Active_def)
    show "recorded (lookup_state (rl_state db') ?K) = active_of db0 now ?K @ [now]" "lookup_state (rl_state db') ?K \<noteq> None"
      using some by (auto simp: db' lookup_put act)
    show "active_of db' now' j = active_of db0 now' j" if "j \<noteq> ?K" "now \<le> now'" for j now'
    proof -
      have "active_of db' now' j = active_of db now' j" using that by (simp add: db' lookup_put)
      then show ?thesis using active_times_later [OF that(2)] act by metis
    qed
  qed
qed

lemma removeReservation_recorded:
  assumes "lookup_state (rl_state db) (reservation_key res) \<noteq> None" "crRecordedAt res = Some now"
    "recorded (lookup_state (rl_state db) (reservation_key res)) = ts @ [now]"
  shows "recorded (lookup_state (rl_state (removeReservation db res)) k) =
    (if k = reservation_key res then ts else recorded (lookup_state (rl_state db) k))"
proof -
  have "remove_last now (ts @ [now]) = ts" by (simp add: remove_last_def)
  then show ?thesis
    using assms by (auto simp: removeReservation_def Let_def reservation_key_def lookup_put split: option.splits)
qed

subsection \<open>Properties\<close>

text \<open>
  C25: No key is admitted more often than its limit in any window of one minute. Whatever
  requests, reservations, refusals, cancellations and cleanups happened, in the order of their
  clock readings, at most \<open>limit\<close> of the admitted requests of a scope, key and route class
  that were not taken back fall into the minute that ends at any time \<open>t\<close>.
\<close>

theorem limiter_window:
  assumes "reachable (limiter_init settings) (limiter_step sha p) s"
  shows "count_where (\<lambda>x. t - window < x \<and> x \<le> t) (ls_admitted s k) \<le> class_limit settings (snd (snd k))"
proof -
  have "count_where (in_window t) (ls_admitted s k) \<le> class_limit settings (snd (snd k))"
    using slot_ok_simps(3) [OF slots_okD [OF reachable_slots(1) [OF assms order_refl], of k]] by blast
  then show ?thesis by (simp add: in_window_def [abs_def])
qed

definition wit_settings :: limit_settings where
  "wit_settings = \<lparr>set_reads = 1, set_writes = 2, set_public = 3\<rparr>"

definition wit_limiter :: limiter_system where
  "wit_limiter = \<lparr>ls_db = \<lparr>rl_settings = Some wit_settings, rl_state = [], rl_metrics = []\<rparr>, ls_clock = 0, ls_admitted = (\<lambda>k. [])\<rparr>"

definition wit_pg :: PG where
  "wit_pg = \<lparr>pg_configured = True, pg_cleanupExpired = True\<rparr>"

definition wit_key :: Key where
  "wit_key = \<lparr>kScope = ScopeAccount, kValue = ''x''\<rparr>"

definition wit_cred :: Key where
  "wit_cred = \<lparr>kScope = ScopeCredential, kValue = ''x''\<rparr>"

definition wit_sha :: "string \<Rightarrow> string" where
  "wit_sha v = ''7f'' @ v"

lemma wit_start: "reachable (limiter_init wit_settings) (limiter_step wit_sha wit_pg) wit_limiter"
  by (rule reachable_start) (simp add: limiter_init_def wit_limiter_def wit_settings_def)

definition wit_allow :: "limiter_db \<Rightarrow> int \<Rightarrow> Decision limit_tx" where
  "wit_allow db now = Allow wit_sha (\<lambda>_. False) wit_pg db now [wit_key] ClassAuthenticatedRead"

definition wit_slot :: "string \<times> string \<times> string" where
  "wit_slot = table_key (hd (normalizedKeys wit_sha [wit_key])) ClassAuthenticatedRead"

definition wit_reserve :: "limiter_db \<Rightarrow> int \<Rightarrow> (CredentialReservation \<times> Decision) limit_tx" where
  "wit_reserve db now = ReserveCredential wit_sha (\<lambda>_. False) wit_pg db now wit_cred ClassAuthenticatedRead"

text \<open>
  The first request of the account is admitted, the second refused; a reservation of a credential
  succeeds, but the account is still refused.
\<close>

lemma wit_runs:
  obtains s db d db3 res d3 db4 d4 where "reachable (limiter_init wit_settings) (limiter_step wit_sha wit_pg) s" "ls_clock s = 5"
    "ls_admitted s wit_slot = [5]" "wit_allow (ls_db s) 6 = Inr (db, d)" "\<not> dAllowed d" "dRetryAfter d = 59999999999"
    "wit_reserve (ls_db s) 6 = Inr (db3, (res, d3))" "dAllowed d3"
    "FinalizeCredential wit_sha db3 7 res (Some wit_key) = Inr (db4, d4)" "\<not> dAllowed d4"
proof -
  have "case wit_allow (ls_db wit_limiter) 5 of
      Inr (db1, d1) \<Rightarrow> dAllowed d1 \<and> (case wit_allow db1 6 of Inr (db2, d2) \<Rightarrow> \<not> dAllowed d2 \<and> dRetryAfter d2 = 59999999999 | _ \<Rightarrow> False)
        \<and> (case wit_reserve db1 6 of Inr (db3, (res, d3)) \<Rightarrow> dAllowed d3 \<and>
            (case FinalizeCredential wit_sha db3 7 res (Some wit_key) of Inr (db4, d4) \<Rightarrow> \<not> dAllowed d4 | _ \<Rightarrow> False) | _ \<Rightarrow> False)
    | Inl _ \<Rightarrow> False" by code_simp
  then obtain db1 d1 db2 d2 db3 res d3 db4 d4 where 1: "wit_allow (ls_db wit_limiter) 5 = Inr (db1, d1)" "dAllowed d1"
    and 2: "wit_allow db1 6 = Inr (db2, d2)" "\<not> dAllowed d2" "dRetryAfter d2 = 59999999999"
      "wit_reserve db1 6 = Inr (db3, (res, d3))" "dAllowed d3"
      "FinalizeCredential wit_sha db3 7 res (Some wit_key) = Inr (db4, d4)" "\<not> dAllowed d4"
    by (auto split: sum.splits)
  define s where "s = \<lparr>ls_db = db1, ls_clock = 5, ls_admitted = note_admitted
    (map (\<lambda>k. table_key k ClassAuthenticatedRead) (normalizedKeys wit_sha [wit_key])) 5 (ls_admitted wit_limiter)\<rparr>"
  have "limiter_step wit_sha wit_pg wit_limiter s"
    using step_allow [OF 1(1) [unfolded wit_allow_def]] 1(2) by (simp add: s_def wit_limiter_def)
  moreover have "ls_admitted s wit_slot = [5]" unfolding s_def by code_simp
  ultimately show thesis using 2 by (intro that [of s db2 d2 db3 res d3 db4 d4]) (auto intro: reachable_step [OF wit_start] simp: s_def)
qed

theorem limiter_window_witness:
  "\<exists>s :: limiter_system. ls_admitted s wit_slot = [5] \<and> count_where (\<lambda>x. 60 - window < x \<and> x \<le> 60) (ls_admitted s wit_slot) \<le> 1"
proof (rule wit_runs)
  fix s db d
  assume s: "reachable (limiter_init wit_settings) (limiter_step wit_sha wit_pg) s" "ls_admitted s wit_slot = [5]"
  have "class_limit wit_settings (snd (snd wit_slot)) = 1" by code_simp
  then show ?thesis using limiter_window [OF s(1), of 60 wit_slot] s(2) by (intro exI [of _ s]) simp
qed

text \<open>
  C26: A refusal names exactly when to come back. After a refused \<open>Allow\<close>, with no other request
  in between, the same request is admitted at a later time if and only if the announced
  \<open>RetryAfter\<close>, which is positive, has passed: the refusal itself uses up nothing.
\<close>

theorem Allow_retry:
  assumes reach: "reachable (limiter_init settings) (limiter_step sha p) s" and now: "ls_clock s \<le> now"
    and run: "Allow sha skip p (ls_db s) now keys c = Inr (db', d)" and no: "\<not> dAllowed d" and later: "now \<le> now'"
  shows "0 < dRetryAfter d \<and> (\<exists>db'' d'. Allow sha skip' p db' now' keys c = Inr (db'', d')
    \<and> (dAllowed d' \<longleftrightarrow> now + dRetryAfter d \<le> now'))"
proof -
  note ok = reachable_slots(1) [OF reach now] and pos = reachable_slots(2) [OF reach now, of c]
  note ref = Allow_refused [OF ok run no pos]
  have cfg: "pg_configured p" and keys: "normalizedKeys sha keys \<noteq> []"
    and c: "c \<in> {ClassAuthenticatedRead, ClassAuthenticatedWrite, ClassPublicAuth}"
    using run unfolding Allow_def Let_def by (elim rbind_elims; auto simp: routeLimit_def split: option.splits if_splits)+
  obtain db'' d' where run': "Allow sha skip' p db' now' keys c = Inr (db'', d')"
    and d': "dAllowed d' \<longleftrightarrow> (\<forall>k \<in> set (normalizedKeys sha keys).
         int (length (active_of db' now' (table_key k c))) < class_limit settings c)"
    using Allow_result [OF slots_ok_later [OF ref(1) later] cfg keys c] by blast
  have one: "int (length (active_of db' now' K)) < class_limit settings c \<longleftrightarrow>
      (let ts = active_of (ls_db s) now K in
        class_limit settings c \<le> int (length ts) \<longrightarrow> retryAfter ts (class_limit settings c) now \<le> now' - now)" for K
  proof -
    let ?ts = "active_of (ls_db s) now K" and ?n = "nat (class_limit settings c)"
    have "active_of db' now' K = active_times now' ?ts" using ref(2) [OF later] active_times_later [OF later] by simp
    also have "\<dots> = filter (\<lambda>x. now' - window < x) ?ts"
      unfolding active_times_def filter_sort by (simp only: sorted_sort_id sorted_sort)
    finally have "int (length (active_of db' now' K)) < class_limit settings c \<longleftrightarrow> length (filter (\<lambda>x. now' - window < x) ?ts) < ?n"
      by (simp add: zless_nat_eq_int_zless)
    also have "\<dots> \<longleftrightarrow> length ?ts < ?n \<or> ?ts ! (length ?ts - ?n) \<le> now' - window"
      by (rule count_above) (use slots_active(1) [OF ok] pos in auto)
    also have "length ?ts - ?n = nat (int (length ?ts) - class_limit settings c)" using pos by linarith
    finally show ?thesis using pos by (auto simp: Let_def retryAfter_def)
  qed
  have "dAllowed d' \<longleftrightarrow> dRetryAfter d \<le> now' - now"
    unfolding ref(4) d' one using later by simp
  then show ?thesis using ref(3) run' by (metis add.commute le_diff_eq)
qed

theorem Allow_retry_witness:
  "\<exists>(s :: limiter_system) db d db'' d'. wit_allow (ls_db s) 6 = Inr (db, d) \<and> \<not> dAllowed d \<and> dRetryAfter d = 59999999999
    \<and> wit_allow db 60000000005 = Inr (db'', d') \<and> dAllowed d'"
proof (rule wit_runs)
  fix s db d
  assume s: "reachable (limiter_init wit_settings) (limiter_step wit_sha wit_pg) s" "ls_clock s = 5"
    "wit_allow (ls_db s) 6 = Inr (db, d)" "\<not> dAllowed d" "dRetryAfter d = 59999999999"
  have "0 < dRetryAfter d \<and> (\<exists>db'' d'. wit_allow db 60000000005 = Inr (db'', d') \<and> (dAllowed d' \<longleftrightarrow> 6 + dRetryAfter d \<le> 60000000005))"
    unfolding wit_allow_def by (rule Allow_retry [OF s(1) _ s(3) [unfolded wit_allow_def] s(4)]) (simp_all add: s(2))
  then obtain db'' d' where "wit_allow db 60000000005 = Inr (db'', d')" "dAllowed d'" using s(5) by auto
  then show ?thesis using s(3-5) by blast
qed

text \<open>
  C27: Taking a reservation back undoes it. After \<open>ReserveCredential\<close> admitted a request,
  \<open>CancelCredential\<close> leaves every slot of the table with the requests it had before the
  reservation, at every later time.
\<close>

theorem ReserveCredential_cancel:
  assumes reach: "reachable (limiter_init settings) (limiter_step sha p) s" and now: "ls_clock s \<le> now"
    and run: "ReserveCredential sha skip p (ls_db s) now key c = Inr (db', (res, d))" and d: "dAllowed d"
    and sha: "\<And>v. sha v \<noteq> []" and later: "now \<le> now'"
  shows "active_times now' (recorded (lookup_state (rl_state (CancelCredential db' res)) k)) =
    active_times now' (recorded (lookup_state (rl_state (ls_db s)) k))"
proof (rule ReserveCredential_admitted [OF reachable_slots(1) [OF reach now] run d sha])
  fix K
  assume K: "reservation_key res = K" "Active res" "crRecordedAt res = Some now"
    "recorded (lookup_state (rl_state db') K) = active_of (ls_db s) now K @ [now]" "lookup_state (rl_state db') K \<noteq> None"
    and other: "\<And>k now'. k \<noteq> K \<Longrightarrow> now \<le> now' \<Longrightarrow> active_of db' now' k = active_of (ls_db s) now' k"
  have "recorded (lookup_state (rl_state (CancelCredential db' res)) k) =
      (if k = K then active_of (ls_db s) now K else recorded (lookup_state (rl_state db') k))"
    using removeReservation_recorded [of db' res now "active_of (ls_db s) now K" k] K by (simp add: CancelCredential_def)
  then show ?thesis using other [of k now'] later active_times_later [OF later] by simp
qed

theorem ReserveCredential_cancel_witness:
  "\<exists>(s :: limiter_system) db res d. wit_reserve (ls_db s) 6 = Inr (db, (res, d)) \<and> dAllowed d
    \<and> active_times 7 (recorded (lookup_state (rl_state (CancelCredential db res)) wit_slot)) =
      active_times 7 (recorded (lookup_state (rl_state (ls_db s)) wit_slot))"
proof (rule wit_runs)
  fix s db3 res d3
  assume s: "reachable (limiter_init wit_settings) (limiter_step wit_sha wit_pg) s" "ls_clock s = 5"
    "wit_reserve (ls_db s) 6 = Inr (db3, (res, d3))" "dAllowed d3"
  have "active_times 7 (recorded (lookup_state (rl_state (CancelCredential db3 res)) wit_slot)) =
      active_times 7 (recorded (lookup_state (rl_state (ls_db s)) wit_slot))"
    by (rule ReserveCredential_cancel [OF s(1) _ s(3) [unfolded wit_reserve_def] s(4)]) (simp_all add: s(2) wit_sha_def)
  then show ?thesis using s(3,4) by blast
qed

text \<open>
  An authenticated request the account's limit refuses costs its credential nothing. When
  \<open>FinalizeCredential\<close> refuses the account after an admitted reservation, every slot of the
  table has the requests it had before the reservation.
\<close>

theorem FinalizeCredential_refused:
  assumes reach: "reachable (limiter_init settings) (limiter_step sha p) s" and now: "ls_clock s \<le> now"
    and reserve: "ReserveCredential sha skip p (ls_db s) now key c = Inr (db', (res, d))" and d: "dAllowed d"
    and sha: "\<And>v. sha v \<noteq> []" and later: "now \<le> now'"
    and finalize: "FinalizeCredential sha db' now' res (Some account) = Inr (db'', d')" and d': "\<not> dAllowed d'"
  shows "active_times now' (recorded (lookup_state (rl_state db'') k)) =
    active_times now' (recorded (lookup_state (rl_state (ls_db s)) k))"
proof (rule ReserveCredential_admitted [OF reachable_slots(1) [OF reach now] reserve d sha])
  fix K
  assume K: "reservation_key res = K" "Active res" "crRecordedAt res = Some now"
    "recorded (lookup_state (rl_state db') K) = active_of (ls_db s) now K @ [now]" "lookup_state (rl_state db') K \<noteq> None"
    and other: "\<And>k now'. k \<noteq> K \<Longrightarrow> now \<le> now' \<Longrightarrow> active_of db' now' k = active_of (ls_db s) now' k"
  obtain a m where db'': "db'' = (removeReservation (ensured db' now' [table_key a (crRouteClass res)]) res)\<lparr>rl_metrics := m\<rparr>"
    using finalize d' unfolding FinalizeCredential_def Let_def lockedState_eq case_prod_conv option.case
    by (elim rbind_elims) (auto elim!: rbind_elims recordMetric_InrE split: if_splits)
  let ?db = "ensured db' now' [table_key a (crRouteClass res)]"
  have rec: "recorded (lookup_state (rl_state ?db) k) = recorded (lookup_state (rl_state db') k)" for k by simp
  have some: "lookup_state (rl_state ?db) K \<noteq> None" using K(5) by (auto simp: lookup_ensure)
  have "recorded (lookup_state (rl_state (removeReservation ?db res)) k) =
      (if k = K then active_of (ls_db s) now K else recorded (lookup_state (rl_state ?db) k))"
    by (rule removeReservation_recorded [where now = now and res = res, unfolded K(1)]) (use K some rec in auto)
  then show ?thesis using other [of k now'] later active_times_later [OF later] rec by (simp add: db'')
qed

theorem FinalizeCredential_refused_witness:
  "\<exists>(s :: limiter_system) db res d db' d'. wit_reserve (ls_db s) 6 = Inr (db, (res, d)) \<and> dAllowed d
    \<and> FinalizeCredential wit_sha db 7 res (Some wit_key) = Inr (db', d') \<and> \<not> dAllowed d'
    \<and> active_times 7 (recorded (lookup_state (rl_state db') (reservation_key res))) =
      active_times 7 (recorded (lookup_state (rl_state (ls_db s)) (reservation_key res)))"
proof (rule wit_runs)
  fix s db3 res d3 db4 d4
  assume s: "reachable (limiter_init wit_settings) (limiter_step wit_sha wit_pg) s" "ls_clock s = 5"
    "wit_reserve (ls_db s) 6 = Inr (db3, (res, d3))" "dAllowed d3"
    "FinalizeCredential wit_sha db3 7 res (Some wit_key) = Inr (db4, d4)" "\<not> dAllowed d4"
  have "active_times 7 (recorded (lookup_state (rl_state db4) (reservation_key res))) =
      active_times 7 (recorded (lookup_state (rl_state (ls_db s)) (reservation_key res)))"
    by (rule FinalizeCredential_refused [OF s(1) _ s(3) [unfolded wit_reserve_def] s(4) _ _ s(5,6)]) (simp_all add: s(2) wit_sha_def)
  then show ?thesis using s(3-6) by blast
qed

text \<open>
  The value of the \<open>Retry-After\<close> header is the least whole number of seconds, at least one,
  that covers the duration.
\<close>

theorem RetryAfterSeconds_least:
  "RetryAfterSeconds d \<le> n \<longleftrightarrow> 1 \<le> n \<and> d \<le> n * Second"
proof -
  have "- ((- d) div Second) \<le> n \<longleftrightarrow> d \<le> n * Second"
  proof -
    have "- n \<le> (- d) div Second \<longleftrightarrow> (- n) * Second \<le> - d"
    proof
      assume "- n \<le> (- d) div Second"
      then have "(- n) * Second \<le> (- d) div Second * Second" by (intro mult_right_mono) (simp_all add: Second_def)
      also have "\<dots> = - d - (- d) mod Second" by (simp add: minus_mod_eq_div_mult)
      also have "\<dots> \<le> - d" by (simp only: diff_le_eq) (simp add: pos_mod_sign)
      finally show "(- n) * Second \<le> - d" .
    next
      assume "(- n) * Second \<le> - d"
      then have "(- n) * Second div Second \<le> (- d) div Second" by (rule zdiv_mono1) simp
      moreover have "(- n) * Second div Second = - n" by (rule nonzero_mult_div_cancel_right) (simp add: Second_def)
      ultimately show "- n \<le> (- d) div Second" by (simp only:)
    qed
    then show ?thesis by auto
  qed
  moreover have "d \<le> n * Second" if "1 \<le> n" "d \<le> Second"
    using that by (simp add: Second_def)
  ultimately show ?thesis by (auto simp: RetryAfterSeconds_def Let_def)
qed

text \<open>
  The metrics table stays sound: every row counts at least one request of a whole minute,
  under a shard from 0 to 31 and a known outcome, and no two rows count for the same key.
\<close>

theorem limiter_metrics:
  assumes "reachable (limiter_init settings) (limiter_step sha p) s"
  shows "distinct (map metric_key (rl_metrics (ls_db s)))
    \<and> list_all (\<lambda>m. 0 \<le> me_shard m \<and> me_shard m < 32 \<and> 0 < me_count m \<and> me_bucket m mod window = 0
        \<and> me_outcome m \<in> {OutcomeAllowed, OutcomeRejected}) (rl_metrics (ls_db s))"
  using limiter.good_reachable [OF assms]
  by (auto simp: limiter_good_def metrics_ok_def metric_row_ok_def list_all_iff)

theorem limiter_metrics_witness:
  "distinct (map metric_key (rl_metrics (ls_db wit_limiter)))"
  using limiter_metrics [OF wit_start] by simp

end
