(* ===== verification/CredentialRules.thy ===== *)
theory CredentialRules
  imports AccountLife
begin

section \<open>Passwords, lock-out and credentials\<close>

text \<open>
  What resetting a password, disabling a member and rotating a credential promise: which keys
  stop working, for how long, and that nobody else's are touched.
\<close>

subsection \<open>Used reset tokens\<close>

text \<open>
  No token with the hash is open: all have been used, or the cleanup has deleted them. A token is
  drawn at random; \<open>no_reissue\<close> is a transaction that does not store the same hash anew.
\<close>

definition spent :: "string \<Rightarrow> auth_db \<Rightarrow> bool" where
  "spent h adb \<longleftrightarrow> (\<forall>r \<in> set (reset_tokens adb). rt_hash r = h \<longrightarrow> rt_used r \<noteq> None)"

definition no_reissue :: "env \<Rightarrow> string \<Rightarrow> auth_db \<Rightarrow> auth_db \<Rightarrow> bool" where
  "no_reissue e h adb adb' \<longleftrightarrow> account_step e adb adb'
     \<and> (h \<in> rt_hash ` set (reset_tokens adb') \<longrightarrow> h \<in> rt_hash ` set (reset_tokens adb))"

lemma insert_credential_resets: "insert_credential adb now fresh a h p = Inr (adb', c) \<Longrightarrow> reset_tokens adb' = reset_tokens adb"
  by (erule insert_credential_InrE) simp

lemma reset_frames:
  "CreateAdmin adb now fresh email pw = Inr (adb', user) \<Longrightarrow> reset_tokens adb' = reset_tokens adb"
  "CreateInvitedMember adb now fresh gen email pw h ex = Inr (adb', user) \<Longrightarrow> reset_tokens adb' = reset_tokens adb"
  "UpdateProfile adb u theme display = Inr (adb', user) \<Longrightarrow> reset_tokens adb' = reset_tokens adb"
  "SetMemberDisabled toLower adb now email off = Inr (adb', x) \<Longrightarrow> reset_tokens adb' = reset_tokens adb"
  "CreateSession adb u pw h ex = Inr (adb', x) \<Longrightarrow> reset_tokens adb' = reset_tokens adb"
  "CreateAPIToken adb now fresh u name h = Inr (adb', token) \<Longrightarrow> reset_tokens adb' = reset_tokens adb"
  "RevokeAPIToken e adb now u i = Inr (adb', x) \<Longrightarrow> reset_tokens adb' = reset_tokens adb"
  "FindUserByAPITokenHash adb h now = Inr (adb', user) \<Longrightarrow> reset_tokens adb' = reset_tokens adb"
proof -
  show "CreateAdmin adb now fresh email pw = Inr (adb', user) \<Longrightarrow> reset_tokens adb' = reset_tokens adb"
    "UpdateProfile adb u theme display = Inr (adb', user) \<Longrightarrow> reset_tokens adb' = reset_tokens adb"
    "CreateSession adb u pw h ex = Inr (adb', x) \<Longrightarrow> reset_tokens adb' = reset_tokens adb"
    "CreateAPIToken adb now fresh u name h = Inr (adb', token) \<Longrightarrow> reset_tokens adb' = reset_tokens adb"
    "RevokeAPIToken e adb now u i = Inr (adb', x) \<Longrightarrow> reset_tokens adb' = reset_tokens adb"
    unfolding CreateAdmin_def UpdateProfile_def CreateSession_def CreateAPIToken_def RevokeAPIToken_def Let_def
    by (elim rbind_elims; auto)+
  show "CreateInvitedMember adb now fresh gen email pw h ex = Inr (adb', user) \<Longrightarrow> reset_tokens adb' = reset_tokens adb"
    by (erule CreateInvitedMember_InrE) simp
  show "SetMemberDisabled toLower adb now email off = Inr (adb', x) \<Longrightarrow> reset_tokens adb' = reset_tokens adb"
    by (erule SetMemberDisabled_InrE) (simp add: Let_def)
  show "FindUserByAPITokenHash adb h now = Inr (adb', user) \<Longrightarrow> reset_tokens adb' = reset_tokens adb"
    by (auto simp: FindUserByAPITokenHash_def Let_def split: option.splits)
qed

lemma queue_resets:
  "ConsumeSignupAttempt skip adb a b now win limit = Inr (adb', r) \<Longrightarrow> reset_tokens adb' = reset_tokens adb"
  "ConsumePasswordResetAttempt skip adb a b now win limit = Inr (adb', r) \<Longrightarrow> reset_tokens adb' = reset_tokens adb"
  "ConsumePasswordResetConfirmationAttempt skip adb a b now win limit = Inr (adb', r) \<Longrightarrow> reset_tokens adb' = reset_tokens adb"
  "QueuePasswordResetRequest adb txnow fresh email now = Inr (adb', x) \<Longrightarrow> reset_tokens adb' = reset_tokens adb"
  "ClaimPasswordResetRequest rskip adb now = Inr (adb', request) \<Longrightarrow> reset_tokens adb' = reset_tokens adb"
  by (auto simp: ConsumeSignupAttempt_def ConsumePasswordResetAttempt_def ConsumePasswordResetConfirmationAttempt_def
      QueuePasswordResetRequest_def ClaimPasswordResetRequest_def rbind_eq_Inr split: list.splits)

lemma agent_resets:
  "CreateAgent e adb now fresh freshC u name purpose h pre = Inr (adb', ag) \<Longrightarrow> reset_tokens adb' = reset_tokens adb"
  "UpdateAgent e adb now u i name purpose = Inr (adb', upd) \<Longrightarrow> reset_tokens adb' = reset_tokens adb"
  "DeleteAgent e adb u i = Inr (adb', x) \<Longrightarrow> reset_tokens adb' = reset_tokens adb"
  "RevokeAgentToken e adb now u i = Inr (adb', x) \<Longrightarrow> reset_tokens adb' = reset_tokens adb"
  "RevokeCredential adb now u i = Inr (adb', x) \<Longrightarrow> reset_tokens adb' = reset_tokens adb"
  "RotateCredential adb now fresh u i key h pre = Inr (adb', (c, rotated)) \<Longrightarrow> reset_tokens adb' = reset_tokens adb"
proof -
  show "CreateAgent e adb now fresh freshC u name purpose h pre = Inr (adb', ag) \<Longrightarrow> reset_tokens adb' = reset_tokens adb"
    unfolding CreateAgent_def Let_def by (elim rbind_elims) (auto dest: insert_credential_resets)
  show "UpdateAgent e adb now u i name purpose = Inr (adb', upd) \<Longrightarrow> reset_tokens adb' = reset_tokens adb"
    "RevokeAgentToken e adb now u i = Inr (adb', x) \<Longrightarrow> reset_tokens adb' = reset_tokens adb"
    "RevokeCredential adb now u i = Inr (adb', x) \<Longrightarrow> reset_tokens adb' = reset_tokens adb"
    unfolding UpdateAgent_def RevokeAgentToken_def RevokeCredential_def Let_def by (elim rbind_elims; auto)+
  show "DeleteAgent e adb u i = Inr (adb', x) \<Longrightarrow> reset_tokens adb' = reset_tokens adb" by (erule DeleteAgent_InrE) simp
  show "RotateCredential adb now fresh u i key h pre = Inr (adb', (c, rotated)) \<Longrightarrow> reset_tokens adb' = reset_tokens adb"
    by (erule RotateCredential_cases) (auto dest: insert_credential_resets)
qed

lemma CreatePasswordResetToken_spent:
  assumes run: "CreatePasswordResetToken tskip adb now email h' ex = Inr (adb', x)" and "spent h adb"
    and old: "h \<in> rt_hash ` set (reset_tokens adb') \<longrightarrow> h \<in> rt_hash ` set (reset_tokens adb)"
  shows "spent h adb'"
proof -
  from run obtain u :: user_row where rows: "reset_tokens adb' =
      void_resets now (us_id u) (drop_expired_resets tskip now (reset_tokens adb)) @
      [\<lparr>rt_user = us_id u, rt_hash = h', rt_expires = ex, rt_used = None\<rparr>]"
    and fresh: "h' \<notin> rt_hash ` set (void_resets now (us_id u) (drop_expired_resets tskip now (reset_tokens adb)))"
    unfolding CreatePasswordResetToken_def Let_def by (elim rbind_elims) auto
  have "h' \<noteq> h"
  proof
    assume "h' = h"
    then obtain r where r: "r \<in> set (reset_tokens adb)" "rt_hash r = h" using old by (auto simp: rows)
    then have used: "rt_used r \<noteq> None" using assms(2) by (simp add: spent_def)
    then have "r \<in> set (drop_expired_resets tskip now (reset_tokens adb))"
      using r by (auto simp: drop_expired_resets_def Let_def dest!: in_set_takeD)
    then have "r \<in> set (void_resets now (us_id u) (drop_expired_resets tskip now (reset_tokens adb)))"
      using used by (auto simp: void_resets_def intro!: update_where_miss)
    then show False using fresh r(2) \<open>h' = h\<close> by blast
  qed
  then show ?thesis
    using assms(2) by (auto simp: spent_def rows void_resets_def set_update_where drop_expired_resets_def Let_def)
qed

lemma no_reissue_spent:
  assumes "no_reissue e h adb adb'" "spent h adb"
  shows "spent h adb'"
proof -
  have step: "account_step e adb adb'" and old: "h \<in> rt_hash ` set (reset_tokens adb') \<longrightarrow> h \<in> rt_hash ` set (reset_tokens adb)"
    using assms(1) by (simp_all add: no_reissue_def)
  show ?thesis
    using step assms(2) old
  proof (induction rule: account_step.induct)
    case (reset_token tskip adb now email h' ex adb' x)
    then show ?case by (rule CreatePasswordResetToken_spent)
  next
    case (reset adb h' pw now adb' x)
    from reset(1) obtain t :: reset_token_row where "reset_tokens adb' =
        void_resets now (rt_user t) (update_where (open_reset h' now) (\<lambda>r. r\<lparr>rt_used := Some now\<rparr>) (reset_tokens adb))"
      by (auto elim!: ResetPassword_InrE)
    then show ?case using reset(2) by (auto simp: spent_def void_resets_def set_update_where)
  next
    case (clean_up rule now locked limit adb n adb')
    then show ?case using delete_account_rows_resets [OF clean_up(2)] by (auto simp: spent_def)
  qed (simp_all add: spent_def reset_frames queue_resets agent_resets CompletePasswordResetRequest_def
      RetryPasswordResetRequest_def DeleteSession_def Let_def)
qed

lemma spent_stays: "(no_reissue e h)\<^sup>*\<^sup>* adb adb' \<Longrightarrow> spent h adb \<Longrightarrow> spent h adb'"
  by (induction rule: rtranclp_induct) (auto dest: no_reissue_spent)

lemma spent_refused: "spent h adb \<Longrightarrow> ResetPassword adb h pw t = Inl ErrInvalidResetToken"
proof -
  assume "spent h adb"
  then have "\<forall>x \<in> set (reset_tokens adb). \<not> open_reset h t x" by (auto simp: spent_def open_reset_def)
  then have "query_row ErrInvalidResetToken (open_reset h t) (reset_tokens adb) = Inl ErrInvalidResetToken" by simp
  then show ?thesis unfolding ResetPassword_def by (simp only: rbind_Inl)
qed

subsection \<open>Resetting a password\<close>

lemma enabled_row:
  assumes "enabled us i"
  obtains v where "v \<in> set us" "us_id v = i" "\<not> us_disabled v"
  using assms by (auto simp: enabled_def)

lemma find_changed_user:
  assumes "distinct (map us_id us)" "distinct (map us_email us)" "v \<in> set us" "\<not> us_disabled v"
  shows "List.find (\<lambda>u. us_email u = us_email v \<and> \<not> us_disabled u)
      (update_where (\<lambda>u. us_id u = us_id v \<and> \<not> us_disabled u) (\<lambda>u. u\<lparr>us_password := pw\<rparr>) us) = Some (v\<lparr>us_password := pw\<rparr>)"
proof (rule find_unique_key [where k = us_email])
  show "distinct (map us_email (update_where (\<lambda>u. us_id u = us_id v \<and> \<not> us_disabled u) (\<lambda>u. u\<lparr>us_password := pw\<rparr>) us))"
    using assms(2) by (simp add: map_update_where)
  show "v\<lparr>us_password := pw\<rparr> \<in> set (update_where (\<lambda>u. us_id u = us_id v \<and> \<not> us_disabled u) (\<lambda>u. u\<lparr>us_password := pw\<rparr>) us)"
    using update_where_hit [of v us "\<lambda>u. us_id u = us_id v \<and> \<not> us_disabled u" "\<lambda>u. u\<lparr>us_password := pw\<rparr>"] assms by simp
qed (use assms(4) in auto)

text \<open>
  C11: A reset link works once and ends every open session. A successful reset was asked with an
  unused, unexpired token of an enabled account; it changes that account's password hash and no
  other user row, signs the account out everywhere, makes the new hash the only one that a login
  accepts. Whatever happens later, cleanups that delete the used token included, the same token is
  refused, as long as no request draws the same random token again.
\<close>

theorem ResetPassword_once:
  assumes "account_inv e adb" and "ResetPassword adb h pw now = Inr (adb', x)"
  shows "\<exists>v \<in> set (users (store adb)). \<not> us_disabled v
    \<and> (\<exists>r \<in> set (reset_tokens adb). rt_hash r = h \<and> rt_user r = us_id v \<and> rt_used r = None \<and> now < rt_expires r)
    \<and> users (store adb') = map (\<lambda>u. if us_id u = us_id v then u\<lparr>us_password := pw\<rparr> else u) (users (store adb))
    \<and> (\<forall>s \<in> set (sessions adb'). se_user s \<noteq> us_id v)
    \<and> map_sum id snd (FindUserByEmail adb' (us_email v)) = Inr pw
    \<and> (\<forall>old h2 ex. old = pw \<or> CreateSession adb' (us_id v) old h2 ex = Inl ErrUnauthorized)
    \<and> (\<forall>adb2 pw2 t. (no_reissue e h)\<^sup>*\<^sup>* adb' adb2 \<longrightarrow> ResetPassword adb2 h pw2 t = Inl ErrInvalidResetToken)"
  using assms(2)
proof (rule ResetPassword_InrE)
  fix t :: reset_token_row
  let ?hit = "\<lambda>u. us_id u = rt_user t \<and> \<not> us_disabled u"
  assume t: "t \<in> set (reset_tokens adb)" "open_reset h now t" "enabled (users (store adb)) (rt_user t)"
    and adb': "adb' = adb\<lparr>store := (store adb)\<lparr>users := update_where ?hit (\<lambda>u. u\<lparr>us_password := pw\<rparr>) (users (store adb))\<rparr>,
              sessions := delete_where (\<lambda>s. se_user s = rt_user t) (sessions adb),
              reset_tokens := void_resets now (rt_user t) (update_where (open_reset h now) (\<lambda>r. r\<lparr>rt_used := Some now\<rparr>) (reset_tokens adb))\<rparr>"
  obtain v where v: "v \<in> set (users (store adb))" "us_id v = rt_user t" "\<not> us_disabled v" using t(3) by (rule enabled_row)
  have keys: "distinct (map us_id (users (store adb)))" "distinct (map us_email (users (store adb)))"
    using assms(1) by (simp_all add: account_inv_def users_ok_def)
  have only: "u = v" if "u \<in> set (users (store adb))" "us_id u = us_id v" for u using distinct_key_inj [OF keys(1) that(1) v(1) that(2)] .
  have us: "users (store adb') = map (\<lambda>u. if us_id u = us_id v then u\<lparr>us_password := pw\<rparr> else u) (users (store adb))"
  proof -
    have "(if ?hit u then u\<lparr>us_password := pw\<rparr> else u) = (if us_id u = us_id v then u\<lparr>us_password := pw\<rparr> else u)"
      if "u \<in> set (users (store adb))" for u
      using only [OF that] v by (cases "us_id u = us_id v") simp_all
    then show ?thesis unfolding adb' update_where_def by simp
  qed
  have mail: "map_sum id snd (FindUserByEmail adb' (us_email v)) = Inr pw"
    using find_changed_user [OF keys v(1,3), of pw] v(2) by (simp add: adb' FindUserByEmail_def query_row_def)
  have "CreateSession adb' (us_id v) old h2 ex = Inl ErrUnauthorized" if "old \<noteq> pw" for old h2 ex
  proof -
    have "\<forall>u \<in> set (users (store adb')). \<not> (us_id u = us_id v \<and> us_password u = old \<and> \<not> us_disabled u)"
      using that by (auto simp: us)
    then have "query_row ErrUnauthorized (\<lambda>u. us_id u = us_id v \<and> us_password u = old \<and> \<not> us_disabled u) (users (store adb'))
        = Inl ErrUnauthorized" by simp
    then show ?thesis unfolding CreateSession_def by (simp only: rbind_Inl)
  qed
  moreover have "ResetPassword adb2 h pw2 t2 = Inl ErrInvalidResetToken" if "(no_reissue e h)\<^sup>*\<^sup>* adb' adb2" for adb2 pw2 t2
  proof (rule spent_refused, rule spent_stays [OF that])
    let ?rows = "update_where (open_reset h now) (\<lambda>r. r\<lparr>rt_used := Some now\<rparr>) (reset_tokens adb)"
    have "distinct (map rt_hash (reset_tokens adb))" using assms(1) by (simp add: account_inv_def resets_ok_def)
    then have "r = t" if "r \<in> set (reset_tokens adb)" "rt_hash r = h" for r
      using that t(1,2) by (auto simp: open_reset_def dest: distinct_key_inj)
    then have "\<forall>r \<in> set ?rows. rt_hash r = h \<longrightarrow> rt_used r \<noteq> None"
      using t(2) by (auto simp: set_update_where)
    then show "spent h adb'" by (auto simp: spent_def adb' void_resets_def set_update_where)
  qed
  moreover have "\<exists>r \<in> set (reset_tokens adb). rt_hash r = h \<and> rt_user r = us_id v \<and> rt_used r = None \<and> now < rt_expires r"
    using t(1,2) v(2) by (auto simp: open_reset_def)
  moreover have "\<forall>s \<in> set (sessions adb'). se_user s \<noteq> us_id v" by (simp add: adb' v(2))
  ultimately show ?thesis using v(1,3) us mail by blast
qed

theorem ResetPassword_once_witness:
  "\<exists>adb'. ResetPassword ex_auth ''rh1'' ''pw2'' 9 = Inr (adb', ()) \<and> ResetPassword adb' ''rh1'' ''pw3'' 10 = Inl ErrInvalidResetToken"
proof -
  have "case ResetPassword ex_auth ''rh1'' ''pw2'' 9 of Inr _ \<Rightarrow> True | Inl _ \<Rightarrow> False" by code_simp
  then obtain adb' where run: "ResetPassword ex_auth ''rh1'' ''pw2'' 9 = Inr (adb', ())" by (auto split: sum.splits)
  from ResetPassword_once [OF ex_account_inv run] have "ResetPassword adb' ''rh1'' ''pw3'' 10 = Inl ErrInvalidResetToken"
    by (elim bexE conjE) simp
  then show ?thesis using run by blast
qed

subsection \<open>Locking a member out\<close>

text \<open>Nothing the account holds authenticates it: no session, no API token, no credential of its agents.\<close>

definition signed_out :: "string \<Rightarrow> auth_db \<Rightarrow> bool" where
  "signed_out i adb \<longleftrightarrow> (\<forall>s \<in> set (sessions adb). se_user s \<noteq> i) \<and> (\<forall>t \<in> set (api_tokens adb). ap_user t = i \<longrightarrow> ap_revoked t \<noteq> None)
     \<and> (\<forall>c \<in> set (credentials adb). cd_revoked c = None \<longrightarrow>
          (\<forall>a \<in> set (agent_rows (store adb)). ag_id a = cd_agent c \<longrightarrow> ag_owner a \<noteq> i))"

lemma active_owner_SomeD: "active_owner adb i = Some u \<Longrightarrow> u \<in> set (users (store adb)) \<and> us_id u = i \<and> \<not> us_disabled u"
  by (auto simp: active_owner_def dest: find_SomeD)

lemma signed_out_sessions:
  "signed_out i adb \<Longrightarrow> FindUserBySessionHash adb h t = Inr u \<Longrightarrow> uID u \<noteq> i"
  by (auto simp: FindUserBySessionHash_def signed_out_def user_of_row_def split: option.splits dest!: find_SomeD active_owner_SomeD)

lemma FindUserByAPITokenHash_InrE:
  assumes "FindUserByAPITokenHash adb h now = Inr (adb', user)"
  obtains (human) t where "t \<in> set (api_tokens adb)" "human_token adb h t" "uID user = ap_user t"
  | (agent) c a where "c \<in> set (credentials adb)" "agent_token adb h c" "a \<in> set (agent_rows (store adb))" "ag_id a = cd_agent c"
      "uID user = ag_owner a" "uAgentID user = ag_id a"
proof (cases "List.find (human_token adb h) (api_tokens adb)")
  case (Some t)
  then obtain u where "active_owner adb (ap_user t) = Some u" "uID user = us_id u"
    using assms by (auto simp: FindUserByAPITokenHash_def Let_def user_of_row_def split: option.splits)
  then show thesis using find_SomeD [OF Some] active_owner_SomeD human [of t] by metis
next
  case None
  then obtain c a u where c: "List.find (agent_token adb h) (credentials adb) = Some c" and a: "agent_of adb (cd_agent c) = Some a"
    and u: "active_owner adb (ag_owner a) = Some u" "uID user = us_id u" "uAgentID user = ag_id a"
    using assms by (auto simp: FindUserByAPITokenHash_def Let_def split: option.splits)
  have "a \<in> set (agent_rows (store adb))" "ag_id a = cd_agent c" using a by (auto simp: agent_of_def dest: find_SomeD)
  then show thesis using find_SomeD [OF c] active_owner_SomeD [OF u(1)] u(2,3) agent [of c a] by simp
qed

lemma signed_out_tokens:
  assumes "signed_out i adb" "FindUserByAPITokenHash adb h now = Inr (adb', user)"
  shows "uID user \<noteq> i"
  using assms(2)
proof (cases rule: FindUserByAPITokenHash_InrE)
  case (human t)
  then show ?thesis using assms(1) by (auto simp: signed_out_def human_token_def)
next
  case (agent c a)
  then show ?thesis using assms(1) by (auto simp: signed_out_def agent_token_def)
qed

lemma SetMemberDisabled_signs_out:
  assumes run: "SetMemberDisabled toLower adb now email True = Inr (adb', x)"
  obtains m where "m \<in> set (users (store adb))" "us_email m = normalizeEmail toLower email" "us_role m = ''member''"
    "signed_out (us_id m) adb'" "agent_rows (store adb') = agent_rows (store adb)"
    "users (store adb') = update_where (\<lambda>u. us_email u = normalizeEmail toLower email \<and> us_role u = ''member'')
      (\<lambda>u. u\<lparr>us_disabled_at := Some now\<rparr>) (users (store adb))"
  using run
proof (rule SetMemberDisabled_InrE)
  fix m :: user_row
  assume m: "m \<in> set (users (store adb))" "us_email m = normalizeEmail toLower email" "us_role m = ''member''"
    and adb': "adb' = (let adb1 = adb\<lparr>store := (store adb)\<lparr>users := update_where
          (\<lambda>u. us_email u = normalizeEmail toLower email \<and> us_role u = ''member'')
          (\<lambda>u. u\<lparr>us_disabled_at := (if True then Some now else None)\<rparr>) (users (store adb))\<rparr>\<rparr> in
       if True then adb1\<lparr>sessions := delete_where (\<lambda>s. se_user s = us_id m) (sessions adb),
          api_tokens := update_where (\<lambda>t. ap_user t = us_id m \<and> ap_revoked t = None) (\<lambda>t. t\<lparr>ap_revoked := Some now\<rparr>) (api_tokens adb),
          credentials := revoke_credentials now (\<lambda>c. cd_agent c \<in> set (owned_agent_ids (store adb) (us_id m))) (credentials adb)\<rparr>
       else adb1)"
  have "ag_owner a \<noteq> us_id m"
    if c: "c \<in> set (credentials adb')" "cd_revoked c = None" and a: "a \<in> set (agent_rows (store adb))" "ag_id a = cd_agent c" for c a
  proof -
    have "cd_agent c \<notin> set (owned_agent_ids (store adb) (us_id m))"
      using c by (auto simp: adb' set_update_where revoke_credentials_def split: if_splits)
    moreover have "ag_id a \<in> set (owned_agent_ids (store adb) (us_id m))" if "ag_owner a = us_id m"
      using a(1) that by (auto simp: owned_agent_ids_def)
    ultimately show ?thesis using a(2) by auto
  qed
  then have "signed_out (us_id m) adb'"
    by (auto simp: adb' signed_out_def set_update_where split: if_splits)
  then show thesis using that [of m] m adb' by simp
qed

text \<open>
  C12: Disabling a member locks it out for good. The account can no longer be found by its
  address, and none of its sessions, API tokens and agent credentials authenticates it, neither
  now nor after an administrator enables the account again: the member has to sign in anew.
\<close>

theorem SetMemberDisabled_lockout:
  assumes "account_inv e adb" and "SetMemberDisabled toLower adb now email True = Inr (adb1, x)"
    and "adb2 = adb1 \<or> SetMemberDisabled toLower adb1 now2 email False = Inr (adb2, y)"
  shows "\<exists>m \<in> set (users (store adb)). us_email m = normalizeEmail toLower email \<and> us_role m = ''member''
    \<and> FindUserByEmail adb1 (us_email m) = Inl ErrInvalidAuth
    \<and> (\<forall>h t user. FindUserBySessionHash adb2 h t = Inr user \<longrightarrow> uID user \<noteq> us_id m)
    \<and> (\<forall>h t user adb3. FindUserByAPITokenHash adb2 h t = Inr (adb3, user) \<longrightarrow> uID user \<noteq> us_id m)"
  using assms(2)
proof (rule SetMemberDisabled_signs_out)
  fix m :: user_row
  let ?hit = "\<lambda>u. us_email u = normalizeEmail toLower email \<and> us_role u = ''member''"
  assume m: "m \<in> set (users (store adb))" "us_email m = normalizeEmail toLower email" "us_role m = ''member''"
    and out: "signed_out (us_id m) adb1"
    and us: "users (store adb1) = update_where ?hit (\<lambda>u. u\<lparr>us_disabled_at := Some now\<rparr>) (users (store adb))"
  have keys: "distinct (map us_email (users (store adb)))" using assms(1) by (simp add: account_inv_def users_ok_def)
  have "\<forall>u \<in> set (users (store adb1)). \<not> (us_email u = us_email m \<and> \<not> us_disabled u)"
  proof (rule ballI, rule notI)
    fix u assume u: "u \<in> set (users (store adb1))" "us_email u = us_email m \<and> \<not> us_disabled u"
    then obtain w where w: "w \<in> set (users (store adb))" "u = (if ?hit w then w\<lparr>us_disabled_at := Some now\<rparr> else w)"
      by (auto simp: us set_update_where)
    then have "us_email w = us_email m" using u(2) by (cases "?hit w") auto
    then have "w = m" using distinct_key_inj [OF keys w(1) m(1)] by blast
    then show False using u(2) w(2) m by simp
  qed
  then have "query_row ErrInvalidAuth (\<lambda>u. us_email u = us_email m \<and> \<not> us_disabled u) (users (store adb1)) = Inl ErrInvalidAuth" by simp
  then have gone: "FindUserByEmail adb1 (us_email m) = Inl ErrInvalidAuth" unfolding FindUserByEmail_def by (simp only: rbind_Inl)
  have "signed_out (us_id m) adb2"
    using assms(3)
  proof
    assume "SetMemberDisabled toLower adb1 now2 email False = Inr (adb2, y)"
    then show ?thesis
      using out by (auto simp: signed_out_def elim!: SetMemberDisabled_InrE)
  qed (use out in simp)
  then show ?thesis using m gone signed_out_sessions signed_out_tokens by blast
qed

theorem SetMemberDisabled_lockout_witness:
  "\<exists>adb1 adb2. SetMemberDisabled id ex_auth 9 ''ann@example.org'' True = Inr (adb1, ())
    \<and> SetMemberDisabled id adb1 10 ''ann@example.org'' False = Inr (adb2, ())
    \<and> (\<forall>user. FindUserBySessionHash adb2 ''s1'' 5 = Inr user \<longrightarrow> uID user \<noteq> ''u1'')"
proof -
  have "case SetMemberDisabled id ex_auth 9 ''ann@example.org'' True of Inl _ \<Rightarrow> False | Inr (adb1, _) \<Rightarrow>
      (case SetMemberDisabled id adb1 10 ''ann@example.org'' False of Inl _ \<Rightarrow> False | Inr _ \<Rightarrow> True)" by code_simp
  then obtain adb1 adb2 where run: "SetMemberDisabled id ex_auth 9 ''ann@example.org'' True = Inr (adb1, ())"
      "SetMemberDisabled id adb1 10 ''ann@example.org'' False = Inr (adb2, ())"
    by (auto split: sum.splits)
  obtain m :: user_row where m: "m \<in> set (users (store ex_auth))"
    "\<forall>h t user. FindUserBySessionHash adb2 h t = Inr user \<longrightarrow> uID user \<noteq> us_id m"
    using SetMemberDisabled_lockout [OF ex_account_inv run(1) disjI2 [OF run(2)]] by blast
  have "us_id m = ''u1''" using m(1) by (simp add: ex_auth_def ex_db_def)
  then have "\<forall>user. FindUserBySessionHash adb2 ''s1'' 5 = Inr user \<longrightarrow> uID user \<noteq> ''u1''" using m(2) by simp
  then show ?thesis using run by (intro exI conjI)
qed

subsection \<open>Rotating a credential\<close>

lemma revoke_credentials_revoked:
  assumes "d \<in> set (revoke_credentials now (\<lambda>c. cd_agent c = i) cs)" "cd_agent d = i"
  shows "cd_revoked d \<noteq> None"
proof -
  let ?f = "\<lambda>c. c\<lparr>cd_revoked := Some now, cd_updated := now\<rparr>"
  obtain c where c: "d = (if cd_agent c = i \<and> cd_revoked c = None then ?f c else c)"
    using assms(1) unfolding revoke_credentials_def set_update_where by blast
  show ?thesis
  proof (cases "cd_agent c = i \<and> cd_revoked c = None")
    case False
    then have "d = c" using c by (simp only: if_False)
    then show ?thesis using False assms(2) by simp
  qed (use c in simp)
qed

lemma revoke_credentials_others:
  "delete_where (\<lambda>d. cd_agent d = i) (revoke_credentials now (\<lambda>c. cd_agent c = i) cs) = delete_where (\<lambda>d. cd_agent d = i) cs"
  unfolding revoke_credentials_def delete_where_def by (induction cs) auto

lemma recorded_rotation_new:
  assumes "distinct (map cd_id cs)" "row \<in> set cs" "\<not> list_ex (\<lambda>r. ro_owner r = u \<and> ro_key r = key \<or> ro_credential r = cd_id row) rs"
    and "credentials adb = cs" "rotations adb = rs @ [\<lparr>ro_owner = u, ro_key = key, ro_agent = i, ro_credential = cd_id row, ro_created = now\<rparr>]"
  shows "recorded_rotation adb u key = Some (\<lparr>ro_owner = u, ro_key = key, ro_agent = i, ro_credential = cd_id row, ro_created = now\<rparr>, row)"
proof -
  let ?new = "\<lparr>ro_owner = u, ro_key = key, ro_agent = i, ro_credential = cd_id row, ro_created = now\<rparr>"
  have "List.find (\<lambda>r. ro_owner r = u \<and> ro_key r = key) (rs @ [?new]) = Some ?new"
    using assms(3) by (subst find_appended) (auto simp: list_ex_iff)
  moreover have "List.find (\<lambda>c. cd_id c = cd_id row) cs = Some row"
    by (rule find_unique_key [where k = cd_id]) (use assms in auto)
  ultimately show ?thesis using assms(4,5) by (simp add: recorded_rotation_def)
qed

text \<open>
  C13: Rotating a credential leaves the agent with exactly one key, and a retry does not rotate
  again. After a rotation the new credential is the only one of the agent that is not revoked,
  other agents' credentials are untouched, and repeating the request under its idempotency key
  returns the same credential and changes nothing, whatever token the retry brings.
\<close>

theorem RotateCredential_once:
  assumes "account_inv e adb" and "RotateCredential adb now fresh u i key h p = Inr (adb', (c, rotated))"
  shows "(rotated \<longrightarrow> acRevokedAt c = None \<and> (\<exists>d \<in> set (credentials adb'). cd_id d = acID c \<and> cd_agent d = i \<and> cd_hash d = h)
      \<and> (\<forall>d \<in> set (credentials adb'). cd_agent d = i \<longrightarrow> (cd_revoked d = None \<longleftrightarrow> cd_id d = acID c)))
    \<and> delete_where (\<lambda>d. cd_agent d = i) (credentials adb') = delete_where (\<lambda>d. cd_agent d = i) (credentials adb)
    \<and> RotateCredential adb' now2 fresh2 u i key h2 p2 = Inr (adb', (c, False))"
  using assms(2)
proof (cases rule: RotateCredential_cases)
  case (replay r row)
  then show ?thesis by (auto simp: RotateCredential_def)
next
  case (new a adb2 row)
  let ?cs = "revoke_credentials now (\<lambda>c. cd_agent c = i) (credentials adb)"
  obtain ins: "credentials adb2 = ?cs @ [row]" "cd_id row = fresh" "cd_agent row = i" "cd_hash row = h" "cd_revoked row = None"
      "fresh \<notin> cd_id ` set ?cs"
    using new(6) by (auto elim!: insert_credential_InrE)
  have inv: "account_inv e adb'" using RotateCredential_inv [OF assms] .
  have ids: "distinct (map cd_id (?cs @ [row]))"
    using inv ins(1) by (simp add: account_inv_def credentials_ok_def new(8))
  have revoked: "cd_revoked d \<noteq> None" if "d \<in> set ?cs" "cd_agent d = i" for d
    using revoke_credentials_revoked [OF that] .
  have "recorded_rotation adb' u key = Some (\<lparr>ro_owner = u, ro_key = key, ro_agent = i, ro_credential = cd_id row, ro_created = now\<rparr>, row)"
    by (rule recorded_rotation_new [OF ids _ new(7)]) (use new(8) ins(1) in auto)
  then have retry: "RotateCredential adb' now2 fresh2 u i key h2 p2 = Inr (adb', (c, False))"
    by (simp add: RotateCredential_def new(9))
  have others: "delete_where (\<lambda>d. cd_agent d = i) (credentials adb') = delete_where (\<lambda>d. cd_agent d = i) (credentials adb)"
  proof -
    have "delete_where (\<lambda>d. cd_agent d = i) ?cs = delete_where (\<lambda>d. cd_agent d = i) (credentials adb)"
      by (rule revoke_credentials_others)
    then show ?thesis using ins(1,3) new(8) by (simp add: delete_where_def)
  qed
  have cs: "credentials adb' = ?cs @ [row]" and c: "acID c = fresh" using ins new(8,9) by (simp_all add: credential_of_row_def)
  have "\<forall>d \<in> set (credentials adb'). cd_agent d = i \<longrightarrow> (cd_revoked d = None \<longleftrightarrow> cd_id d = acID c)"
  proof (intro ballI impI)
    fix d assume d: "d \<in> set (credentials adb')" "cd_agent d = i"
    show "cd_revoked d = None \<longleftrightarrow> cd_id d = acID c"
    proof (cases "d \<in> set ?cs")
      case True
      then have "cd_id d \<noteq> fresh" using ins(6) by blast
      then show ?thesis using revoked [OF True d(2)] c by simp
    next
      case False
      then have "d = row" using d(1) cs by simp
      then show ?thesis using ins(2,5) c by simp
    qed
  qed
  then show ?thesis using retry others ins new(8,9) by (auto simp: credential_of_row_def)
qed

theorem RotateCredential_once_witness:
  "\<exists>adb' c. RotateCredential ex_auth 9 ''c2'' ''u1'' ex_agent_uuid ''0123456789abcdef'' ''ch2'' ''slate_ag'' = Inr (adb', (c, True))
    \<and> RotateCredential adb' 10 ''c3'' ''u1'' ex_agent_uuid ''0123456789abcdef'' ''ch3'' ''slate_ag'' = Inr (adb', (c, False))"
proof -
  have "case RotateCredential ex_auth 9 ''c2'' ''u1'' ex_agent_uuid ''0123456789abcdef'' ''ch2'' ''slate_ag'' of
      Inl _ \<Rightarrow> False | Inr (_, (_, rotated)) \<Rightarrow> rotated" by code_simp
  then obtain adb' c where run: "RotateCredential ex_auth 9 ''c2'' ''u1'' ex_agent_uuid ''0123456789abcdef'' ''ch2'' ''slate_ag''
      = Inr (adb', (c, True))"
    by (auto split: sum.splits)
  from RotateCredential_once [OF ex_account_inv run, of 10 "''c3''" "''ch3''" "''slate_ag''"] run show ?thesis by blast
qed

end
