(* ===== verification/WorkRules.thy ===== *)
theory WorkRules
  imports CredentialRules
begin

section \<open>Reports on assigned work\<close>

text \<open>
  What an agent's owner sees of the work assigned to it: the pages of \<open>ListWork\<close> partition one
  list, the newest action first.
\<close>

subsection \<open>Cutting a list into pages\<close>

lemma take_drop_pages: "concat (map (\<lambda>p. take n (drop ((p - 1) * n) xs)) [1..<Suc k]) = take (k * n) xs"
proof (induction k)
  case (Suc k)
  have "concat (map (\<lambda>p. take n (drop ((p - 1) * n) xs)) [1..<Suc (Suc k)]) = take (k * n) xs @ take n (drop (k * n) xs)"
    using Suc by simp
  also have "\<dots> = take (Suc k * n) xs" by (simp add: take_add [symmetric] add.commute)
  finally show ?case .
qed simp

lemma page_next:
  fixes n p :: int
  assumes "1 \<le> n" "1 \<le> p"
  shows "((p - 1) * n + int (length (take (nat n) (drop (nat ((p - 1) * n)) xs))) < int (length xs)) = (p * n < int (length xs))"
proof -
  define q where "q = (p - 1) * n"
  have nn: "0 \<le> q" using assms by (simp add: q_def)
  have split: "p * n = q + n" by (simp add: q_def algebra_simps)
  have "int (length (take (nat n) (drop (nat q) xs))) = min n (max 0 (int (length xs) - q))"
    using nn assms(1) by simp
  then show ?thesis using split nn assms(1) unfolding q_def [symmetric] by linarith
qed

subsection \<open>All pages together\<close>

lemma workSelect_ids:
  assumes "store_inv db"
  shows "distinct (map wiID (workSelect db P key))" "set (map wiID (workSelect db P key)) = tk_id ` {t \<in> set (tasks db). P t}"
proof -
  have s: "structure_ok db" using assms by (simp add: store_inv_def)
  then have d: "distinct (map tk_id (tasks db))" by (simp add: structure_ok_def keys_ok_def)
  have lists: "list_ex (\<lambda>b. bk_id b = tk_bucket t) (buckets db)" if "t \<in> set (tasks db)" for t
    using task_ownerD [OF s that] by (auto simp: list_owner_def list_ex_iff split: option.splits dest!: find_SomeD)
  have ids: "map wiID (workSelect db P key) = map tk_id (sort_key key (filter (\<lambda>t. P t \<and> list_ex (\<lambda>b. bk_id b = tk_bucket t) (buckets db)) (tasks db)))"
    by (simp add: workSelect_def scanWorkItems_def)
  have "distinct (map tk_id (filter Q (tasks db)))" for Q using d by (simp add: distinct_map_filter)
  then show "distinct (map wiID (workSelect db P key))"
    unfolding ids by (simp add: distinct_map)
  show "set (map wiID (workSelect db P key)) = tk_id ` {t \<in> set (tasks db). P t}"
    unfolding ids using lists by auto
qed

lemma workSelect_total:
  assumes "store_inv db"
  shows "int (length (workSelect db P key)) = count_where P (tasks db)"
proof -
  have s: "structure_ok db" using assms by (simp add: store_inv_def)
  have lists: "list_ex (\<lambda>b. bk_id b = tk_bucket t) (buckets db)" if "t \<in> set (tasks db)" for t
    using task_ownerD [OF s that] by (auto simp: list_owner_def list_ex_iff split: option.splits dest!: find_SomeD)
  then have "filter (\<lambda>t. P t \<and> list_ex (\<lambda>b. bk_id b = tk_bucket t) (buckets db)) (tasks db) = filter P (tasks db)"
    by (intro filter_cong) auto
  then show ?thesis by (simp add: workSelect_def count_where_def)
qed

lemma workSelect_recent: "sorted_wrt (\<lambda>x y. wiUpdatedAt x \<ge> wiUpdatedAt y) (workSelect db P recent_first)"
proof -
  let ?ts = "sort_key recent_first (filter (\<lambda>t. P t \<and> list_ex (\<lambda>b. bk_id b = tk_bucket t) (buckets db)) (tasks db))"
  have "sorted_wrt (\<lambda>x y. recent_first x \<le> recent_first y) ?ts" 
    using sorted_sort_key [of recent_first] unfolding sorted_map .
  then have "sorted_wrt (\<lambda>x y. tk_updated x \<ge> tk_updated y) ?ts"
    by (rule sorted_wrt_mono_rel [rotated]) (auto simp: recent_first_def)
  then show ?thesis by (simp add: workSelect_def sorted_wrt_map scanWorkItems_def)
qed

text \<open>
  C19: The pages of an agent's work show every assigned action exactly once, the newest first.
  Whatever page size up to 50 is asked for, page \<open>p\<close> is the \<open>p\<close>-th slice of one list without
  duplicates; the total is its length, the flags for a next and a previous page are right, and
  reading all pages gives the whole list.
\<close>

theorem ListWork_pages:
  assumes "account_inv e adb" and "GetAgent adb u i = Inr a" and "1 \<le> n" "n \<le> MaxPageSize"
  shows "\<exists>items. distinct (map wiID items) \<and> set (map wiID items) = tk_id ` {t \<in> set (tasks (store adb)). assigned_action u i t}
    \<and> sorted_wrt (\<lambda>x y. wiUpdatedAt x \<ge> wiUpdatedAt y) items
    \<and> (\<forall>p. 1 \<le> p \<and> p * n < 2 ^ 63 \<longrightarrow> ListWork adb u i p n = Inr
        \<lparr>wpItems = take (nat n) (drop (nat ((p - 1) * n)) items), wpPage = p, wpPageSize = n, wpTotal = int (length items),
         wpHasNext = (p * n < int (length items)), wpHasPrevious = (p > 1)\<rparr>)
    \<and> (\<forall>k. int (length items) \<le> int k * n \<and> int k * n < 2 ^ 63 \<longrightarrow>
        concat (map (\<lambda>p. case ListWork adb u i (int p) n of Inl _ \<Rightarrow> [] | Inr w \<Rightarrow> wpItems w) [1..<Suc k]) = items)"
proof -
  let ?items = "workSelect (store adb) (assigned_action u i) recent_first"
  have inv: "store_inv (store adb)" using assms(1) by (simp add: account_inv_def)
  have page: "ListWork adb u i p n = Inr
        \<lparr>wpItems = take (nat n) (drop (nat ((p - 1) * n)) ?items), wpPage = p, wpPageSize = n, wpTotal = int (length ?items),
         wpHasNext = (p * n < int (length ?items)), wpHasPrevious = (p > 1)\<rparr>" if p: "1 \<le> p" "p * n < 2 ^ 63" for p
  proof -
    have nn: "0 \<le> (p - 1) * n" using assms(3) p(1) by simp
    have lt: "(p - 1) * n < 2 ^ 63" using p(2) assms(3) by (simp add: algebra_simps)
    have w: "wrap64 ((p - 1) * n) = (p - 1) * n" using nn lt by (simp add: wrap64_def)
    have t: "count_where (assigned_action u i) (tasks (store adb)) = int (length ?items)" using workSelect_total [OF inv] by simp
    have z: "\<not> p < 1" "\<not> (n < 1 \<or> MaxPageSize < n)" using p(1) assms(3,4) by auto
    show ?thesis
      unfolding ListWork_def assms(2) rbind_Inr Let_def z(1)[THEN if_not_P] if_not_P [OF z(2)] w t
      using nn page_next [OF assms(3) p(1), of ?items] by simp
  qed
  have all: "concat (map (\<lambda>p. case ListWork adb u i (int p) n of Inl _ \<Rightarrow> [] | Inr w \<Rightarrow> wpItems w) [1..<Suc k]) = ?items"
    if k: "int (length ?items) \<le> int k * n" "int k * n < 2 ^ 63" for k
  proof -
    have eq: "(case ListWork adb u i (int p) n of Inl _ \<Rightarrow> [] | Inr w \<Rightarrow> wpItems w) = take (nat n) (drop ((p - 1) * nat n) ?items)"
      if p: "p \<in> set [1..<Suc k]" for p
    proof -
      have "int p * n \<le> int k * n" using p assms(3) by (intro mult_right_mono) auto
      moreover have "nat ((int p - 1) * n) = (p - 1) * nat n"
      proof -
        have "int p - 1 = int (p - 1)" using p by auto
        then show ?thesis by (simp only: nat_mult_distrib of_nat_0_le_iff nat_int)
      qed
      moreover have "1 \<le> int p" using p by auto
      moreover note page [of "int p"]
      ultimately show ?thesis using k(2) by simp
    qed
    then have "concat (map (\<lambda>p. case ListWork adb u i (int p) n of Inl _ \<Rightarrow> [] | Inr w \<Rightarrow> wpItems w) [1..<Suc k])
        = concat (map (\<lambda>p. take (nat n) (drop ((p - 1) * nat n) ?items)) [1..<Suc k])"
      by (intro arg_cong [where f = concat] map_cong [OF refl] eq)
    also have "\<dots> = take (k * nat n) ?items" by (rule take_drop_pages)
    also have "\<dots> = ?items"
    proof (rule take_all)
      have "int (k * nat n) = int k * n" using assms(3) by simp
      then show "length ?items \<le> k * nat n" using k(1) by linarith
    qed
    finally show ?thesis .
  qed
  show ?thesis
    using workSelect_ids [OF inv] workSelect_recent page all by (intro exI [of _ ?items] conjI allI impI) (auto simp del: take_all)
qed

theorem ListWork_pages_witness:
  "\<exists>w. ListWork ex_auth ''u1'' ex_agent_uuid 1 10 = Inr w \<and> wpTotal w = int (length (wpItems w)) \<and> \<not> wpHasNext w"
proof -
  have "case GetAgent ex_auth ''u1'' ex_agent_uuid of Inl _ \<Rightarrow> False | Inr _ \<Rightarrow> True" by code_simp
  then obtain a where a: "GetAgent ex_auth ''u1'' ex_agent_uuid = Inr a" by (auto split: sum.splits)
  have len: "count_where (assigned_action ''u1'' ex_agent_uuid) (tasks (store ex_auth)) = 1" by code_simp
  obtain items where items: "set (map wiID items) = tk_id ` {t \<in> set (tasks (store ex_auth)). assigned_action ''u1'' ex_agent_uuid t}"
      "distinct (map wiID items)"
    and page: "\<forall>p. 1 \<le> p \<and> p * 10 < 2 ^ 63 \<longrightarrow> ListWork ex_auth ''u1'' ex_agent_uuid p 10 = Inr
        \<lparr>wpItems = take (nat 10) (drop (nat ((p - 1) * 10)) items), wpPage = p, wpPageSize = 10, wpTotal = int (length items),
         wpHasNext = (p * 10 < int (length items)), wpHasPrevious = (p > 1)\<rparr>"
    using ListWork_pages [OF ex_account_inv a, of 10] by (auto simp: MaxPageSize_def)
  have "length items \<le> 1"
  proof -
    have "set (map wiID items) \<subseteq> {ex_task_uuid}" using items(1) by (auto simp: ex_auth_def ex_defs assigned_action_def)
    then have "card (set (map wiID items)) \<le> 1" by (metis card_mono card.empty finite.emptyI finite.insertI card_insert_disjoint insert_absorb One_nat_def empty_iff finite.insertI)
    then show ?thesis using distinct_card [OF items(2)] by simp
  qed
  then show ?thesis using page [rule_format, of 1] by simp
qed

end
