(* ===== verification/AttemptWindows.thy ===== *)
theory AttemptWindows
  imports WorkRules
begin

section \<open>The attempt windows\<close>

text \<open>
  Sign-up and password reset count attempts per address and per source in windows of a fixed
  length that start with the first attempt. The section shows what one transaction does to the
  row of a key and how many attempts a history of transactions can admit.
\<close>

subsection \<open>One transaction\<close>

definition row_of :: "attempt_row list \<Rightarrow> string \<times> string \<Rightarrow> attempt_row option" where
  "row_of rows k = List.find (\<lambda>r. attempt_key r = k) rows"

definition keys_distinct :: "attempt_row list \<Rightarrow> bool" where
  "keys_distinct rows \<longleftrightarrow> distinct (map attempt_key rows)"

definition next_row :: "int \<Rightarrow> int \<Rightarrow> string \<times> string \<Rightarrow> attempt_row option \<Rightarrow> attempt_row" where
  "next_row now span k old = (case old of
     None \<Rightarrow> \<lparr>aw_dimension = fst k, aw_hash = snd k, aw_started = now, aw_attempts = 1\<rparr>
   | Some r \<Rightarrow> count_attempt now span r)"

lemma attempt_key_count [simp]: "attempt_key (count_attempt now w r) = attempt_key r"
  by (simp add: count_attempt_def attempt_key_def)

lemma row_of_key: "row_of rows k = Some r \<Longrightarrow> r \<in> set rows \<and> attempt_key r = k"
  by (auto simp: row_of_def dest: find_SomeD)

lemma row_of_unique: "keys_distinct rows \<Longrightarrow> r \<in> set rows \<Longrightarrow> row_of rows (attempt_key r) = Some r"
  unfolding row_of_def keys_distinct_def by (rule find_unique_key [where k = attempt_key]) auto

lemma row_of_None: "row_of rows k = None \<longleftrightarrow> k \<notin> attempt_key ` set rows"
  by (auto simp: row_of_def find_None_iff)

lemma row_of_update:
  "row_of (update_where (\<lambda>x. attempt_key x = j) (count_attempt now w) rows) k =
     (if k = j then map_option (count_attempt now w) (row_of rows k) else row_of rows k)"
  unfolding row_of_def by (induction rows) auto

lemma row_of_append: "row_of (rows @ [r]) k = (case row_of rows k of None \<Rightarrow> if attempt_key r = k then Some r else None | Some x \<Rightarrow> Some x)"
  unfolding row_of_def by (induction rows) auto

lemma upsert_attempt_InrD:
  assumes "upsert_attempt rows now w k = Inr (rows', r)" "keys_distinct rows"
  shows "r = next_row now w k (row_of rows k) \<and> keys_distinct rows' \<and> row_of rows' k = Some r \<and> (\<forall>j. j \<noteq> k \<longrightarrow> row_of rows' j = row_of rows j)"
proof (cases "row_of rows k")
  case None
  let ?r = "\<lparr>aw_dimension = fst k, aw_hash = snd k, aw_started = now, aw_attempts = 1\<rparr>"
  have "rows' = rows @ [?r]" "r = ?r" using assms(1) None by (auto simp: upsert_attempt_def row_of_def Let_def)
  moreover have "attempt_key ?r = k" by (simp add: attempt_key_def)
  ultimately have rows: "rows' = rows @ [r]" "attempt_key r = k" and r: "r = next_row now w k (row_of rows k)"
    using None by (simp_all add: next_row_def)
  have new: "k \<notin> attempt_key ` set rows" using None by (simp add: row_of_None)
  have "row_of rows' j = row_of rows j" if "j \<noteq> k" for j using that rows by (simp add: row_of_append split: option.split)
  moreover have "row_of rows' k = Some r" using rows None by (simp add: row_of_append)
  moreover have "keys_distinct rows'" using assms(2) rows new by (simp add: keys_distinct_def)
  ultimately show ?thesis using r by blast
next
  case (Some x)
  then have "rows' = update_where (\<lambda>x. attempt_key x = k) (count_attempt now w) rows" "r = count_attempt now w x"
    using assms(1) by (auto simp: upsert_attempt_def row_of_def rbind_eq_Inr)
  then show ?thesis
    using assms(2) Some by (simp add: next_row_def keys_distinct_def row_of_update map_update_where)
qed

text \<open>The time still to wait for a row.\<close>

definition waiting :: "int \<Rightarrow> int \<Rightarrow> int \<Rightarrow> attempt_row \<Rightarrow> int" where
  "waiting now w limit r = (if aw_attempts r > limit then w - (now - aw_started r) else 0)"

lemma consume_keys_InrD:
  assumes "consume_keys rows now w limit acc ks = Inr (rows', m)" "keys_distinct rows" "distinct ks"
  shows "keys_distinct rows' \<and> (\<forall>j. j \<notin> set ks \<longrightarrow> row_of rows' j = row_of rows j)
    \<and> (\<forall>k \<in> set ks. row_of rows' k = Some (next_row now w k (row_of rows k)))
    \<and> acc \<le> m \<and> (\<forall>k \<in> set ks. waiting now w limit (next_row now w k (row_of rows k)) \<le> max m 0)
    \<and> (m = acc \<or> (\<exists>k \<in> set ks. m = waiting now w limit (next_row now w k (row_of rows k))))"
  using assms
proof (induction ks arbitrary: rows acc)
  case (Cons k ks)
  from Cons.prems(1) obtain rows1 r where up: "upsert_attempt rows now w k = Inr (rows1, r)"
    and rest: "consume_keys rows1 now w limit (if aw_attempts r > limit \<and> w - (now - aw_started r) > acc then w - (now - aw_started r) else acc) ks
      = Inr (rows', m)"
    by (auto simp: rbind_eq_Inr Let_def)
  let ?acc = "if aw_attempts r > limit \<and> w - (now - aw_started r) > acc then w - (now - aw_started r) else acc"
  note u = upsert_attempt_InrD [OF up Cons.prems(2)]
  have k: "k \<notin> set ks" "distinct ks" using Cons.prems(3) by auto
  note ih = Cons.IH [OF rest _ k(2)]
  have same: "row_of rows1 j = row_of rows j" if "j \<in> set ks" for j using u k(1) that by metis
  have wait: "waiting now w limit r \<le> max ?acc 0" by (auto simp: waiting_def)
  have acc: "acc \<le> ?acc" "?acc = acc \<or> ?acc = waiting now w limit r" by (auto simp: waiting_def)
  have m: "?acc \<le> m" using ih u by blast
  have "waiting now w limit (next_row now w j (row_of rows j)) \<le> max m 0" if "j \<in> set (k # ks)" for j
  proof (cases "j = k")
    case True
    then show ?thesis using u wait m by (metis max.mono order_refl order_trans)
  next
    case False
    then show ?thesis using ih u same that by auto
  qed
  moreover have "m = acc \<or> (\<exists>j \<in> set (k # ks). m = waiting now w limit (next_row now w j (row_of rows j)))"
  proof (cases "m = ?acc")
    case True
    then show ?thesis using acc(2) u by auto
  next
    case False
    then show ?thesis using ih u same by (metis list.set_intros(2))
  qed
  moreover have "row_of rows' j = Some (next_row now w j (row_of rows j))" if "j \<in> set (k # ks)" for j
  proof (cases "j = k")
    case True
    then show ?thesis using ih u k(1) by metis
  next
    case False
    then show ?thesis using ih u same that by simp
  qed
  moreover have "row_of rows' j = row_of rows j" if "j \<notin> set (k # ks)" for j
  proof -
    have "row_of rows' j = row_of rows1 j" using ih u that by (metis list.set_intros(2))
    moreover have "row_of rows1 j = row_of rows j" using u that by (metis list.set_intros(1))
    ultimately show ?thesis by (rule trans)
  qed
  moreover have "acc \<le> m" "keys_distinct rows'" using acc(1) m ih u by linarith+
  ultimately show ?case by blast
qed simp

text \<open>Old rows are dropped first; a row that is still counting is not old when the window is at most a day.\<close>

lemma drop_old_attempts_row:
  assumes "keys_distinct rows" "w \<le> hours24"
  shows "keys_distinct (drop_old_attempts skip rows now)"
    "row_of (drop_old_attempts skip rows now) k = row_of rows k
      \<or> row_of (drop_old_attempts skip rows now) k = None \<and> (\<exists>r. row_of rows k = Some r \<and> aw_started r < now - w)"
proof -
  let ?chosen = "set (take 100 (sort_key aw_started (filter (\<lambda>r. aw_started r < now - hours24 \<and> \<not> skip r) rows)))"
  have rows: "drop_old_attempts skip rows now = delete_where (\<lambda>r. r \<in> ?chosen) rows"
    by (simp add: drop_old_attempts_def Let_def)
  show keys: "keys_distinct (drop_old_attempts skip rows now)"
    using assms(1) by (simp add: rows keys_distinct_def distinct_map_delete_where)
  have old: "aw_started r < now - w" if "r \<in> ?chosen" for r
    using in_set_takeD [OF that] assms(2) by auto
  show "row_of (drop_old_attempts skip rows now) k = row_of rows k
      \<or> row_of (drop_old_attempts skip rows now) k = None \<and> (\<exists>r. row_of rows k = Some r \<and> aw_started r < now - w)"
  proof (cases "row_of rows k")
    case None
    then have "k \<notin> attempt_key ` set (drop_old_attempts skip rows now)" by (auto simp: rows row_of_None)
    then have "row_of (drop_old_attempts skip rows now) k = None" by (rule row_of_None [THEN iffD2])
    then show ?thesis using None by (simp only: refl simp_thms)
  next
    case (Some r)
    then have r: "r \<in> set rows" "attempt_key r = k" using row_of_key by blast+
    show ?thesis
    proof (cases "r \<in> ?chosen")
      case True
      have "x = r" if "x \<in> set rows" "attempt_key x = k" for x
        using assms(1) r that unfolding keys_distinct_def by (metis distinct_key_inj)
      then have "k \<notin> attempt_key ` set (drop_old_attempts skip rows now)" using True by (auto simp: rows)
      then show ?thesis using Some old [OF True] by (auto simp: row_of_None)
    next
      case False
      then have "r \<in> set (drop_old_attempts skip rows now)" using r by (simp add: rows)
      then show ?thesis using row_of_unique [OF keys] r(2) Some by metis
    qed
  qed
qed

lemma consumeRateLimit_InrD:
  assumes run: "consumeRateLimit skip rows ks now w limit = Inr (rows', res)"
    and keys: "keys_distinct rows" "distinct ks" and w: "0 < w" "w \<le> hours24"
  shows "keys_distinct rows'"
    and "k \<notin> set ks \<Longrightarrow> row_of rows' k = row_of rows k \<or> row_of rows' k = None \<and> (\<exists>r. row_of rows k = Some r \<and> aw_started r < now - w)"
    and "k \<in> set ks \<Longrightarrow> \<exists>r. row_of rows' k = Some r \<and> (res = None \<longrightarrow> aw_attempts r \<le> limit)
      \<and> ((\<exists>old. row_of rows k = Some old \<and> now - w < aw_started old \<and> aw_started r = aw_started old \<and> aw_attempts r = aw_attempts old + 1)
        \<or> aw_started r = now \<and> aw_attempts r = 1 \<and> (\<forall>old. row_of rows k = Some old \<longrightarrow> aw_started old \<le> now - w))"
proof -
  let ?rows1 = "drop_old_attempts skip rows now"
  obtain m where run1: "consume_keys ?rows1 now w limit 0 ks = Inr (rows', m)" and res: "res = (if m > 0 then Some m else None)"
    using run by (auto simp: consumeRateLimit_def rbind_eq_Inr)
  note dropped = drop_old_attempts_row [OF keys(1) w(2), where skip = skip and now = now]
  note step = consume_keys_InrD [OF run1 dropped(1) keys(2)]
  show "keys_distinct rows'" using step by blast
  show "row_of rows' k = row_of rows k \<or> row_of rows' k = None \<and> (\<exists>r. row_of rows k = Some r \<and> aw_started r < now - w)"
    if "k \<notin> set ks" using step dropped(2) [of k] that by metis
  show "\<exists>r. row_of rows' k = Some r \<and> (res = None \<longrightarrow> aw_attempts r \<le> limit)
      \<and> ((\<exists>old. row_of rows k = Some old \<and> now - w < aw_started old \<and> aw_started r = aw_started old \<and> aw_attempts r = aw_attempts old + 1)
        \<or> aw_started r = now \<and> aw_attempts r = 1 \<and> (\<forall>old. row_of rows k = Some old \<longrightarrow> aw_started old \<le> now - w))"
    if k: "k \<in> set ks"
  proof -
    let ?r = "next_row now w k (row_of ?rows1 k)"
    have r: "row_of rows' k = Some ?r" and wait: "waiting now w limit ?r \<le> max m 0" using step k by blast+
    have shape: "(\<exists>old. row_of rows k = Some old \<and> now - w < aw_started old \<and> aw_started ?r = aw_started old \<and> aw_attempts ?r = aw_attempts old + 1)
        \<or> aw_started ?r = now \<and> aw_attempts ?r = 1 \<and> (\<forall>old. row_of rows k = Some old \<longrightarrow> aw_started old \<le> now - w)"
    proof (cases "row_of ?rows1 k")
      case None
      have "aw_started old \<le> now - w" if "row_of rows k = Some old" for old using dropped(2) [of k] None that by auto
      then show ?thesis using None by (simp add: next_row_def)
    next
      case (Some old)
      then have "row_of rows k = Some old" using dropped(2) [of k] by auto
      then show ?thesis using Some by (auto simp: next_row_def count_attempt_def)
    qed
    have live: "now - w < aw_started ?r" using shape w(1) by auto
    have "aw_attempts ?r \<le> limit" if "res = None"
    proof -
      have "m \<le> 0" using that res by (simp split: if_splits)
      then have "waiting now w limit ?r \<le> 0" using wait by simp
      then show ?thesis using live by (auto simp: waiting_def split: if_splits)
    qed
    then show ?thesis using r shape by blast
  qed
qed

text \<open>The cleanup job, too, removes only rows of windows that are over.\<close>

lemma limit_rules:
  "rule \<in> set rules \<Longrightarrow> ru_table rule \<in> {SignupLimits, ResetLimits, ConfirmLimits} \<Longrightarrow>
    eligible now rule (snd (attempt_view r)) \<Longrightarrow> aw_started r \<le> now - hours24"
  by (auto simp: rules_def newRule_def eligible_def attempt_view_def hours_def hours24_def)

lemma cleaned_attempts_row:
  assumes "keys_distinct rows" "w \<le> hours24" "rule \<in> set rules" "ru_table rule \<in> {SignupLimits, ResetLimits, ConfirmLimits}"
    and run: "boundedDelete now rule (snd \<circ> attempt_view) locked batch rows = (gone, rows')"
  shows "keys_distinct rows'"
    "row_of rows' k = row_of rows k \<or> row_of rows' k = None \<and> (\<exists>r. row_of rows k = Some r \<and> aw_started r \<le> now - w)"
proof -
  note parts = boundedDelete_parts [OF run]
  note left = mset_part [OF parts(2)]
  show keys: "keys_distinct rows'" using left(3) [of attempt_key] assms(1) by (simp add: keys_distinct_def)
  show "row_of rows' k = row_of rows k \<or> row_of rows' k = None \<and> (\<exists>r. row_of rows k = Some r \<and> aw_started r \<le> now - w)"
  proof (cases "row_of rows' k")
    case None
    have "aw_started r \<le> now - w" if "row_of rows k = Some r" for r
    proof -
      have r: "r \<in> set rows" "attempt_key r = k" using row_of_key [OF that] by blast+
      then have "r \<notin> set rows'" using None by (auto simp: row_of_None)
      then have "r \<in> set gone" using mset_eq_setD [of rows "gone @ rows'"] parts(2) r(1) by auto
      then show ?thesis using limit_rules [OF assms(3,4)] parts(3) assms(2) by fastforce
    qed
    then show ?thesis using None by (cases "row_of rows k") auto
  next
    case (Some r)
    then have "r \<in> set rows" "attempt_key r = k" using row_of_key left(1) by blast+
    then show ?thesis using row_of_unique [OF assms(1)] Some by metis
  qed
qed

subsection \<open>Histories\<close>

text \<open>
  A history from an empty table: transactions with the clock not going back, each with the keys
  it counts and whether it was admitted, the newest first. A batch of the cleanup job counts none.
\<close>

inductive attempt_history :: "int \<Rightarrow> int \<Rightarrow> attempt_row list \<Rightarrow> (int \<times> (string \<times> string) list \<times> bool) list \<Rightarrow> bool" for span limit where
  history_start: "attempt_history span limit [] []"
| history_attempt: "attempt_history span limit rows log \<Longrightarrow> (\<forall>(x, ks', ok) \<in> set log. x \<le> now) \<Longrightarrow> distinct ks \<Longrightarrow>
    consumeRateLimit skip rows ks now span limit = Inr (rows', res) \<Longrightarrow>
    attempt_history span limit rows' ((now, ks, res = None) # log)"
| history_cleanup: "attempt_history span limit rows log \<Longrightarrow> (\<forall>(x, ks', ok) \<in> set log. x \<le> now) \<Longrightarrow>
    rule \<in> set rules \<Longrightarrow> ru_table rule \<in> {SignupLimits, ResetLimits, ConfirmLimits} \<Longrightarrow>
    boundedDelete now rule (snd \<circ> attempt_view) locked batch rows = (gone, rows') \<Longrightarrow>
    attempt_history span limit rows' ((now, [], False) # log)"

definition admitted :: "string \<times> string \<Rightarrow> (int \<Rightarrow> bool) \<Rightarrow> (int \<times> (string \<times> string) list \<times> bool) list \<Rightarrow> int" where
  "admitted k P log = count_where (\<lambda>(x, ks, ok). ok \<and> k \<in> set ks \<and> P x) log"

lemma admitted_Nil [simp]: "admitted k P [] = 0"
  by (simp add: admitted_def)

lemma admitted_Cons [simp]: "admitted k P ((x, ks, ok) # log) = (if ok \<and> k \<in> set ks \<and> P x then 1 else 0) + admitted k P log"
  by (simp add: admitted_def)

lemma admitted_nonneg [simp]: "0 \<le> admitted k P log"
  by (simp add: admitted_def)

lemma admitted_split:
  assumes "\<And>x. P x \<Longrightarrow> Q x \<or> R x"
  shows "admitted k P log \<le> admitted k Q log + admitted k R log"
proof (induction log)
  case (Cons a log)
  obtain x ks ok where "a = (x, ks, ok)" by (cases a)
  then show ?case using Cons assms [of x] by auto
qed simp

lemma admitted_mono: "(\<And>x. P x \<Longrightarrow> Q x) \<Longrightarrow> admitted k P log \<le> admitted k Q log"
  using admitted_split [of P Q "\<lambda>_. False" k log] by (simp add: admitted_def count_where_def)

definition before :: "(int \<times> (string \<times> string) list \<times> bool) list \<Rightarrow> int \<Rightarrow> bool" where
  "before log now \<longleftrightarrow> (\<forall>(x, ks, ok) \<in> set log. x \<le> now)"

lemma before_Cons [simp]: "before ((x, ks, ok) # log) now \<longleftrightarrow> x \<le> now \<and> before log now"
  by (simp add: before_def)

definition window_ok :: "int \<Rightarrow> int \<Rightarrow> string \<times> string \<Rightarrow> attempt_row option \<Rightarrow> (int \<times> (string \<times> string) list \<times> bool) list \<Rightarrow> bool" where
  "window_ok w limit k row log = (case row of
     None \<Rightarrow> \<forall>now. before log now \<longrightarrow> admitted k (\<lambda>x. now \<le> x) log = 0 \<and> admitted k (\<lambda>x. now - w < x) log \<le> limit
   | Some r \<Rightarrow> (\<forall>now. before log now \<longrightarrow> aw_started r \<le> now) \<and> admitted k (\<lambda>x. aw_started r + w \<le> x) log = 0
      \<and> admitted k (\<lambda>x. aw_started r \<le> x) log \<le> aw_attempts r \<and> admitted k (\<lambda>x. aw_started r \<le> x) log \<le> limit
      \<and> admitted k (\<lambda>x. aw_started r - w < x \<and> x < aw_started r) log \<le> limit)"

lemma admitted_zero: "admitted k Q log = 0 \<Longrightarrow> (\<And>x. P x \<Longrightarrow> Q x) \<Longrightarrow> admitted k P log = 0"
  using admitted_mono [of P Q k log] admitted_nonneg [of k P log] by simp

lemma window_ok_closed:
  assumes "window_ok w limit k row log" "before log now" "\<And>r. row = Some r \<Longrightarrow> aw_started r \<le> now - w"
  shows "admitted k (\<lambda>x. now \<le> x) log = 0" "admitted k (\<lambda>x. now - w < x) log \<le> limit"
proof -
  have "admitted k (\<lambda>x. now \<le> x) log = 0 \<and> admitted k (\<lambda>x. now - w < x) log \<le> limit"
  proof (cases row)
    case None
    then show ?thesis using assms(1,2) by (simp add: window_ok_def)
  next
    case (Some r)
    have le: "aw_started r \<le> now - w" using assms(3) Some by blast
    have "admitted k (\<lambda>x. now \<le> x) log = 0"
      by (rule admitted_zero [of _ "\<lambda>x. aw_started r + w \<le> x"]) (use assms(1) Some le in \<open>auto simp: window_ok_def\<close>)
    moreover have "admitted k (\<lambda>x. now - w < x) log \<le> admitted k (\<lambda>x. aw_started r \<le> x) log" by (rule admitted_mono) (use le in simp)
    ultimately show ?thesis using assms(1) Some by (simp add: window_ok_def)
  qed
  then show "admitted k (\<lambda>x. now \<le> x) log = 0" "admitted k (\<lambda>x. now - w < x) log \<le> limit" by simp_all
qed

definition window_bound :: "int \<Rightarrow> int \<Rightarrow> string \<times> string \<Rightarrow> (int \<times> (string \<times> string) list \<times> bool) list \<Rightarrow> bool" where
  "window_bound w limit k log \<longleftrightarrow> (\<forall>t. admitted k (\<lambda>x. t < x \<and> x \<le> t + w) log \<le> 2 * limit)"

lemma other_key:
  assumes ok: "window_ok w limit k old log" "before log now" "k \<notin> set ks"
    and row: "row = old \<or> row = None \<and> (\<exists>r. old = Some r \<and> aw_started r \<le> now - w)"
  shows "window_ok w limit k row ((now, ks, b) # log)"
proof (cases "row = old")
  case True
  have pre: "before log t" if "before ((now, ks, b) # log) t" for t using that by simp
  show ?thesis
  proof (cases old)
    case None
    then show ?thesis using ok(1,3) True pre by (simp add: window_ok_def)
  next
    case (Some r)
    then show ?thesis using ok(1,3) True pre by (auto simp: window_ok_def)
  qed
next
  case False
  then obtain r where none: "row = None" and r: "old = Some r" "aw_started r \<le> now - w" using row by blast
  have "admitted k (\<lambda>x. t \<le> x) log = 0 \<and> admitted k (\<lambda>x. t - w < x) log \<le> limit" if t: "now \<le> t" "before log t" for t
    using window_ok_closed [OF ok(1) t(2)] r t(1) by simp
  then show ?thesis using ok(3) by (simp add: window_ok_def none)
qed

lemma same_window:
  assumes ok: "window_ok w limit k (Some old) log" "before log now" "k \<in> set ks" "0 < w" and bound: "window_bound w limit k log"
    and row: "now - w < aw_started old" "aw_started r = aw_started old" "aw_attempts r = aw_attempts old + 1" "b \<longrightarrow> aw_attempts r \<le> limit"
  shows "window_ok w limit k (Some r) ((now, ks, b) # log) \<and> window_bound w limit k ((now, ks, b) # log)"
proof -
  let ?s = "aw_started old"
  have s: "?s \<le> now" and late: "admitted k (\<lambda>x. ?s + w \<le> x) log = 0" and n: "admitted k (\<lambda>x. ?s \<le> x) log \<le> aw_attempts old"
    "admitted k (\<lambda>x. ?s \<le> x) log \<le> limit" and prev: "admitted k (\<lambda>x. ?s - w < x \<and> x < ?s) log \<le> limit"
    using ok(1,2) by (simp_all add: window_ok_def)
  have all: "before log t \<longrightarrow> ?s \<le> t" for t using ok(1) by (simp add: window_ok_def)
  have "admitted k (\<lambda>x. t < x \<and> x \<le> t + w) ((now, ks, b) # log) \<le> 2 * limit" for t
  proof (cases "b \<and> t < now \<and> now \<le> t + w")
    case True
    have "admitted k (\<lambda>x. t < x \<and> x \<le> t + w) log \<le> admitted k (\<lambda>x. ?s - w < x \<and> x < ?s) log + admitted k (\<lambda>x. ?s \<le> x) log"
      by (rule admitted_split) (use True s in linarith)
    then show ?thesis using True ok(3) prev n row by simp
  next
    case False
    then show ?thesis using bound by (auto simp: window_bound_def)
  qed
  moreover have "b \<longrightarrow> 1 + admitted k (\<lambda>x. ?s \<le> x) log \<le> limit" using n row by linarith
  then have "window_ok w limit k (Some r) ((now, ks, b) # log)"
    using all late n prev row s ok(3) by (simp add: window_ok_def)
  ultimately show ?thesis by (simp add: window_bound_def)
qed

lemma new_window:
  assumes ok: "window_ok w limit k old log" "before log now" "k \<in> set ks" "0 < w" "0 \<le> limit" and bound: "window_bound w limit k log"
    and row: "\<And>x. old = Some x \<Longrightarrow> aw_started x \<le> now - w" "aw_started r = now" "aw_attempts r = 1" "b \<longrightarrow> aw_attempts r \<le> limit"
  shows "window_ok w limit k (Some r) ((now, ks, b) # log) \<and> window_bound w limit k ((now, ks, b) # log)"
proof -
  note closed = window_ok_closed [OF ok(1,2) row(1)]
  have late: "admitted k (\<lambda>x. now + w \<le> x) log = 0" by (rule admitted_zero [OF closed(1)]) (use ok(4) in simp_all)
  have prev: "admitted k (\<lambda>x. now - w < x \<and> x < now) log \<le> limit"
    using admitted_mono [of "\<lambda>x. now - w < x \<and> x < now" "\<lambda>x. now - w < x" k log] closed(2) by simp
  have "admitted k (\<lambda>x. t < x \<and> x \<le> t + w) ((now, ks, b) # log) \<le> 2 * limit" for t
  proof (cases "b \<and> t < now \<and> now \<le> t + w")
    case True
    have "admitted k (\<lambda>x. t < x \<and> x \<le> t + w) log \<le> admitted k (\<lambda>x. now - w < x) log"
      by (rule admitted_mono) (use True in linarith)
    then show ?thesis using True ok(3) closed(2) row by simp
  next
    case False
    then show ?thesis using bound by (auto simp: window_bound_def)
  qed
  moreover have "window_ok w limit k (Some r) ((now, ks, b) # log)"
    using late prev closed row ok by (auto simp: window_ok_def)
  ultimately show ?thesis by (simp add: window_bound_def)
qed

lemma attempt_history_ok:
  assumes "attempt_history w limit rows log" "0 < w" "w \<le> hours24" "0 \<le> limit"
  shows "keys_distinct rows \<and> window_ok w limit k (row_of rows k) log \<and> window_bound w limit k log"
  using assms(1)
proof (induction rule: attempt_history.induct)
  case history_start
  then show ?case using assms(4) by (simp add: keys_distinct_def row_of_def window_ok_def window_bound_def)
next
  case (history_attempt rows log now ks skip rows' res)
  have b: "before log now" using history_attempt.hyps(2) by (auto simp: before_def)
  have ih: "keys_distinct rows" "window_ok w limit k (row_of rows k) log" "window_bound w limit k log" using history_attempt.IH by blast+
  note step = consumeRateLimit_InrD [OF history_attempt.hyps(4) ih(1) history_attempt.hyps(3) assms(2,3)]
  show ?case
  proof (cases "k \<in> set ks")
    case False
    have "window_bound w limit k ((now, ks, res = None) # log)" using ih(3) False by (simp add: window_bound_def)
    moreover have "row_of rows' k = row_of rows k \<or> row_of rows' k = None \<and> (\<exists>r. row_of rows k = Some r \<and> aw_started r \<le> now - w)"
      using step(2) [OF False] by (auto intro: less_imp_le)
    ultimately show ?thesis using other_key [OF ih(2) b False] step(1) by blast
  next
    case True
    obtain r where r: "row_of rows' k = Some r" "res = None \<longrightarrow> aw_attempts r \<le> limit" and how:
      "(\<exists>old. row_of rows k = Some old \<and> now - w < aw_started old \<and> aw_started r = aw_started old \<and> aw_attempts r = aw_attempts old + 1)
        \<or> aw_started r = now \<and> aw_attempts r = 1 \<and> (\<forall>old. row_of rows k = Some old \<longrightarrow> aw_started old \<le> now - w)"
      using step(3) [OF True] by blast
    from how have "window_ok w limit k (Some r) ((now, ks, res = None) # log) \<and> window_bound w limit k ((now, ks, res = None) # log)"
    proof (elim disjE exE conjE)
      fix old assume old: "row_of rows k = Some old" "now - w < aw_started old" "aw_started r = aw_started old" "aw_attempts r = aw_attempts old + 1"
      show ?thesis by (rule same_window [OF ih(2) [unfolded old(1)] b True assms(2) ih(3) old(2-4) r(2)])
    next
      assume new: "aw_started r = now" "aw_attempts r = 1" "\<forall>old. row_of rows k = Some old \<longrightarrow> aw_started old \<le> now - w"
      show ?thesis by (rule new_window [OF ih(2) b True assms(2,4) ih(3) _ new(1,2) r(2)]) (use new(3) in blast)
    qed
    then show ?thesis using step(1) r(1) by simp
  qed
next
  case (history_cleanup rows log now rule locked batch gone rows')
  have b: "before log now" using history_cleanup.hyps(2) by (auto simp: before_def)
  have ih: "keys_distinct rows" "window_ok w limit k (row_of rows k) log" "window_bound w limit k log" using history_cleanup.IH by blast+
  note left = cleaned_attempts_row [OF ih(1) assms(3) history_cleanup.hyps(3-5)]
  have "window_bound w limit k ((now, [], False) # log)" using ih(3) by (simp add: window_bound_def)
  then show ?case using other_key [OF ih(2) b _ left(2)] left(1) by simp
qed

text \<open>
  C14: Guessing is bounded. Whatever the history of sign-up or reset attempts under a clock that does
  not go back, whatever old rows are skipped and whatever batches the cleanup job removes in
  between, no address and no source has more than twice the limit of attempts admitted in any
  period as long as the window: the fixed windows let at most two of them meet in one period.
\<close>

theorem attempts_bounded:
  assumes "attempt_history w limit rows log" and "0 < w" "w \<le> hours24" "0 \<le> limit"
  shows "count_where (\<lambda>(x, ks, ok). ok \<and> k \<in> set ks \<and> t < x \<and> x \<le> t + w) log \<le> 2 * limit"
  using attempt_history_ok [OF assms, of k] by (simp add: window_bound_def admitted_def)

theorem attempts_bounded_witness:
  "\<exists>rows. attempt_history 100 1 rows [(5, [(''ip'', ''a'')], False), (4, [(''ip'', ''a'')], True)]
    \<and> count_where (\<lambda>(x, ks, ok). ok \<and> (''ip'', ''a'') \<in> set ks \<and> 0 < x \<and> x \<le> 0 + 100) [(5, [(''ip'', ''a'')], False), (4, [(''ip'', ''a'')], True)]
      \<le> (2 :: int)"
proof -
  let ?k = "[(''ip'', ''a'')]" let ?r = "\<lambda>n. \<lparr>aw_dimension = ''ip'', aw_hash = ''a'', aw_started = 4, aw_attempts = n\<rparr>"
  have one: "consumeRateLimit (\<lambda>_. False) [] ?k 4 100 1 = Inr ([?r 1], None)" by code_simp
  have two: "consumeRateLimit (\<lambda>_. False) [?r 1] ?k 5 100 1 = Inr ([?r 2], Some 99)" by code_simp
  have "attempt_history 100 1 [?r 1] [(4, ?k, True)]"
    using history_attempt [OF history_start _ _ one] by simp
  then have h: "attempt_history 100 1 [?r 2] [(5, ?k, False), (4, ?k, True)]"
    using history_attempt [OF _ _ _ two, of "[(4, ?k, True)]"] by simp
  have "100 \<le> hours24" by (simp add: hours24_def)
  from attempts_bounded [OF h _ this, of "(''ip'', ''a'')" 0] h show ?thesis by auto
qed

end
