(* ===== verification/SearchRules.thy ===== *)
theory SearchRules
  imports PagingRules
begin

section \<open>Searching, and the completed tasks of a list\<close>

text \<open>
  The search pattern of the task query finds exactly the texts that contain the query, and the
  cursor that \<open>GetBucket\<close> returns with the first completed tasks of a list continues in
  \<open>ListTaskPage\<close>.
\<close>

subsection \<open>The pattern means containment\<close>

definition escape_like :: "string \<Rightarrow> string" where
  "escape_like q = concat (map (\<lambda>c. if c = CHR 0x5C \<or> c = CHR ''%'' \<or> c = CHR ''_'' then [CHR 0x5C, c] else [c]) q)"

lemma taskSearchPattern_escape: "taskSearchPattern q = CHR ''%'' # escape_like q @ ''%''"
  by (simp add: taskSearchPattern_def escape_like_def)

lemma escape_like_simps [simp]: "escape_like [] = []"
  "escape_like (c # q) = (if c = CHR 0x5C \<or> c = CHR ''%'' \<or> c = CHR ''_'' then [CHR 0x5C, c] else [c]) @ escape_like q"
  by (simp_all add: escape_like_def)

lemma like_percent: "like (CHR ''%'' # p) s \<longleftrightarrow> (\<exists>a r. s = a @ r \<and> like p r)"
proof (induction s)
  case (Cons x s)
  have "(\<exists>a r. x # s = a @ r \<and> like p r) \<longleftrightarrow> like p (x # s) \<or> (\<exists>a r. s = a @ r \<and> like p r)"
    by (auto simp: Cons_eq_append_conv)
  then show ?case using Cons by simp
qed simp

lemma like_escape: "like (escape_like q @ p) s \<longleftrightarrow> (\<exists>r. s = q @ r \<and> like p r)"
proof (induction q arbitrary: s)
  case (Cons c q)
  have "like (escape_like (c # q) @ p) s \<longleftrightarrow> (case s of [] \<Rightarrow> False | x # s' \<Rightarrow> x = c \<and> like (escape_like q @ p) s')"
    by simp
  then show ?case using Cons by (cases s) simp_all
qed simp

lemma like_all: "like ''%'' s"
  unfolding like_percent by (intro exI [of _ s] exI [of _ "[]"]) simp

text \<open>
  A text matches the search pattern of a query exactly when it contains the query, letters
  compared as \<open>lower\<close> does; the wildcards and the backslash of the query stand for themselves.
  The hypothesis says that lowering leaves the wildcards and the backslash of the pattern alone.
\<close>

theorem taskSearchPattern_contains:
  assumes "sql_lower e (taskSearchPattern query) = taskSearchPattern (sql_lower e query)"
  shows "ilike e s (taskSearchPattern query) \<longleftrightarrow> (\<exists>before after. sql_lower e s = before @ sql_lower e query @ after)"
  unfolding ilike_def assms unfolding taskSearchPattern_escape like_percent like_escape using like_all by auto

theorem taskSearchPattern_contains_witness:
  "\<not> ilike ex_env ''cost 500 USD'' (taskSearchPattern ''50%'') \<and> ilike ex_env ''Up 50% today'' (taskSearchPattern ''50% T'')"
proof -
  have eq: "ilike ex_env s (taskSearchPattern q) \<longleftrightarrow> (\<exists>a b. sql_lower ex_env s = a @ sql_lower ex_env q @ b)"
    if "q = ''50%'' \<or> q = ''50% T''" for s q
  proof (rule taskSearchPattern_contains)
    show "sql_lower ex_env (taskSearchPattern q) = taskSearchPattern (sql_lower ex_env q)"
      using that by (elim disjE; hypsubst; code_simp)
  qed
  have "CHR ''%'' \<notin> set (sql_lower ex_env ''cost 500 USD'')" "CHR ''%'' \<in> set (sql_lower ex_env ''50%'')" by code_simp+
  then have "\<not> ilike ex_env ''cost 500 USD'' (taskSearchPattern ''50%'')" unfolding eq [OF disjI1 [OF refl]] by auto
  moreover have "sql_lower ex_env ''Up 50% today'' = ''up '' @ sql_lower ex_env ''50% T'' @ ''oday''" by code_simp
  then have "ilike ex_env ''Up 50% today'' (taskSearchPattern ''50% T'')" unfolding eq [OF disjI2 [OF refl]] by blast
  ultimately show ?thesis by simp
qed

subsection \<open>The completed tasks of a list\<close>

lemma insort_key_equiv:
  fixes k :: "'a \<Rightarrow> 'b::linorder" and k' :: "'a \<Rightarrow> 'c::linorder"
  assumes "\<And>x y. k x \<le> k y \<longleftrightarrow> k' x \<le> k' y"
  shows "insort_key k x xs = insort_key k' x xs"
  by (induction xs) (simp_all add: assms)

lemma sort_key_equiv:
  fixes k :: "'a \<Rightarrow> 'b::linorder" and k' :: "'a \<Rightarrow> 'c::linorder"
  assumes "\<And>x y. k x \<le> k y \<longleftrightarrow> k' x \<le> k' y"
  shows "sort_key k xs = sort_key k' xs"
  by (induction xs) (simp_all add: insort_key_equiv [OF assms])

text \<open>The filter under which a client asks for the completed tasks of a list.\<close>

definition completed_filter :: "string \<Rightarrow> int \<Rightarrow> TaskFilter" where
  "completed_filter bucketID limit =
     \<lparr>tfBucketID = bucketID, tfStatus = StatusDone, tfDone = None, tfPriority = [], tfSort = [], tfLimit = limit,
      tfCursor = [], tfActionsOnly = False, tfAssigneeAgentID = [], tfUnassigned = False, tfQuery = [],
      tfScheduledFrom = [], tfScheduledTo = [], tfParentTaskID = [], tfTopLevelOnly = False, tfInboxOnly = False,
      tfAgentQueue = False\<rparr>"

abbreviation completed_rows :: "db \<Rightarrow> string \<Rightarrow> string \<Rightarrow> task_row list" where
  "completed_rows db u b \<equiv> sort_key (\<lambda>t. (- tk_updated t, Desc (tk_id t)))
     (filter (\<lambda>t. tk_owner t = u \<and> tk_bucket t = b \<and> tk_status t = ''done'') (tasks db))"

lemma completed_filter_fields [simp]:
  "tfAgentQueue (completed_filter i n) = False" "tfSort (completed_filter i n) = []"
  "completed_history (completed_filter i n) = True" "tfBucketID (completed_filter i n) = i"
  by (simp_all add: completed_filter_def completed_history_def)

lemma completed_scope: "taskCursorScope c u (completed_filter i n) = taskCursorScope c u (completed_filter i 0)"
  by (simp only: taskCursorScope_def completed_filter_def TaskFilter.simps)

lemma selected_completed:
  assumes "structure_ok db" "uuid_in e i = Some b" "i \<noteq> []"
  shows "selected_tasks (e, c, db, u, completed_filter i n) = completed_rows db u b"
proof -
  have cast: "cast_filter e c (completed_filter i n) = Inr \<lparr>fa_bucket = b, fa_assignee = [], fa_from = [], fa_to = [], fa_parent = []\<rparr>"
    using assms(2,3) by (simp add: cast_filter_def completed_filter_def uuid_arg_def)
  have lists: "list_of_task db t \<noteq> None" if "t \<in> set (tasks db)" for t
    using task_ownerD [OF assms(1) that] by (auto simp: list_owner_def list_of_task_def)
  have "filter (matches_filter e db u (completed_filter i n) \<lparr>fa_bucket = b, fa_assignee = [], fa_from = [], fa_to = [], fa_parent = []\<rparr>) (tasks db)
      = filter (\<lambda>t. tk_owner t = u \<and> tk_bucket t = b \<and> tk_status t = ''done'') (tasks db)"
    using lists assms(3) by (intro filter_cong refl) (simp add: matches_filter_def completed_filter_def)
  moreover have "order_task db (completed_filter i n) t = (0, 0, [], 0, - tk_updated t, [], Desc (tk_id t))" for t
    by (cases "list_columns db t") (simp add: order_task_def)
  then have "sort_key (order_task db (completed_filter i n)) ts = sort_key (\<lambda>t. (- tk_updated t, Desc (tk_id t))) ts" for ts
    by (intro sort_key_equiv) simp
  ultimately show ?thesis by (simp add: cast)
qed

lemma last_taken: "20 < length ys \<Longrightarrow> last (map f (take 20 ys)) = f (ys ! 19)"
  by (subst last_conv_nth) auto

lemma GetBucket_parts:
  assumes "GetBucket e c db u i = Inr bucket"
  obtains b where "uuid_in e i = Some b"
    "bTasks bucket = map (\<lambda>t. (task_of_row t)\<lparr>tDescription := []\<rparr>)
       (sort_key (\<lambda>t. (tk_sort t, tk_created t)) (filter (\<lambda>t. tk_owner t = u \<and> tk_bucket t = b \<and> tk_status t \<noteq> ''done'') (tasks db))
        @ take 20 (completed_rows db u b))"
    "bCompletedNextCursor bucket = (if 20 < length (completed_rows db u b)
       then encodeCompletedTaskCursor c (task_of_row (completed_rows db u b ! 19)) (taskCursorScope c u (completed_filter i 0)) else [])"
proof -
  let ?scan = "\<lambda>t :: task_row. (task_of_row t)\<lparr>tDescription := []\<rparr>"
  from assms obtain ts cur b0 where run: "listBucketTasks e c db u i = Inr (ts, cur)"
    and bucket: "bucket = b0\<lparr>bTasks := ts, bCompletedNextCursor := cur\<rparr>"
    unfolding GetBucket_def by (elim rbind_elims) auto
  from run obtain b where b: "uuid_in e i = Some b"
    unfolding listBucketTasks_def by (elim rbind_elims) simp
  let ?done = "completed_rows db u b"
  let ?active = "sort_key (\<lambda>t. (tk_sort t, tk_created t)) (filter (\<lambda>t. tk_owner t = u \<and> tk_bucket t = b \<and> tk_status t \<noteq> ''done'') (tasks db))"
  have f: "filter P (filter (\<lambda>t. tk_owner t = u \<and> tk_bucket t = b) (tasks db)) = filter (\<lambda>t. tk_owner t = u \<and> tk_bucket t = b \<and> P t) (tasks db)" for P
    by (simp add: conj_ac)
  have sc: "\<lparr>tfBucketID = i, tfStatus = StatusDone, tfDone = None, tfPriority = [], tfSort = [], tfLimit = 0,
      tfCursor = [], tfActionsOnly = False, tfAssigneeAgentID = [], tfUnassigned = False, tfQuery = [],
      tfScheduledFrom = [], tfScheduledTo = [], tfParentTaskID = [], tfTopLevelOnly = False, tfInboxOnly = False,
      tfAgentQueue = False\<rparr> = completed_filter i 0"
    by (simp only: completed_filter_def)
  have "(ts, cur) = (map ?scan ?active @ map ?scan (take 20 ?done),
      if 20 < length ?done then encodeCompletedTaskCursor c (last (map ?scan (take 20 ?done))) (taskCursorScope c u (completed_filter i 0)) else [])"
    using run unfolding listBucketTasks_def uuid_arg_def b option.case rbind_Inr Let_def f sc
    by (simp add: defaultCompletedHistoryLimit_def min_def split: if_splits del: length_sort)
  moreover have "last (map ?scan (take 20 ?done)) = ?scan (?done ! 19)" if "20 < length ?done"
    using that by (rule last_taken)
  then have "encodeCompletedTaskCursor c (last (map ?scan (take 20 ?done))) sc = encodeCompletedTaskCursor c (task_of_row (?done ! 19)) sc"
    if "20 < length ?done" for sc
    using that by (simp add: encodeCompletedTaskCursor_def task_of_row_def del: length_sort)
  ultimately show thesis using b by (intro that [of b]) (simp_all add: bucket del: length_sort)
qed

text \<open>
  C21: \<open>GetBucket\<close> returns the active tasks of the list and its 20 last updated completed ones, and
  a cursor exactly when there are more; a client that gives this cursor to \<open>ListTaskPage\<close>, with
  any page size, reads the remaining completed tasks, each once and in the same order.
\<close>

theorem GetBucket_cursor_continues:
  assumes "store_inv db" "typed_db e db" "codec_ok c" "validUUID i" "length (tasks db) \<le> fuel"
    and run: "GetBucket e c db userID i = Inr bucket"
  shows "\<exists>b active completed. uuid_in e i = Some b
      \<and> distinct (active @ completed) \<and> set (active @ completed) = {t \<in> set (tasks db). tk_owner t = userID \<and> tk_bucket t = b}
      \<and> sorted (map (\<lambda>t. (tk_sort t, tk_created t)) active)
      \<and> (\<forall>t \<in> set completed. tk_status t = StatusDone) \<and> (\<forall>t \<in> set active. tk_status t \<noteq> StatusDone)
      \<and> sorted (map (\<lambda>t. (- tk_updated t, Desc (tk_id t))) completed)
      \<and> bTasks bucket = map (\<lambda>t. (task_of_row t)\<lparr>tDescription := []\<rparr>) (active @ take 20 completed)
      \<and> (bCompletedNextCursor bucket = [] \<longleftrightarrow> length completed \<le> 20)
      \<and> (20 < length completed \<longrightarrow>
           read_pages (\<lambda>cursor. map_sum id (\<lambda>page. (tpTasks page, tpNextCursor page))
             (ListTaskPage e c db userID ((completed_filter i limit)\<lparr>tfCursor := cursor\<rparr>))) fuel (bCompletedNextCursor bucket)
           = Some (Inr (map (scanTaskSummary db) (drop 20 completed))))"
proof -
  have inv: "structure_ok db" using assms(1) by (simp add: store_inv_def)
  obtain b where b: "uuid_in e i = Some b"
    and ts: "bTasks bucket = map (\<lambda>t. (task_of_row t)\<lparr>tDescription := []\<rparr>)
       (sort_key (\<lambda>t. (tk_sort t, tk_created t)) (filter (\<lambda>t. tk_owner t = userID \<and> tk_bucket t = b \<and> tk_status t \<noteq> ''done'') (tasks db))
        @ take 20 (completed_rows db userID b))"
    and cur: "bCompletedNextCursor bucket = (if 20 < length (completed_rows db userID b)
       then encodeCompletedTaskCursor c (task_of_row (completed_rows db userID b ! 19)) (taskCursorScope c userID (completed_filter i 0)) else [])"
    by (rule GetBucket_parts [OF run])
  let ?active = "sort_key (\<lambda>t. (tk_sort t, tk_created t)) (filter (\<lambda>t. tk_owner t = userID \<and> tk_bucket t = b \<and> tk_status t \<noteq> ''done'') (tasks db))"
  define xs where "xs = completed_rows db userID b"
  let ?q = "(e, c, db, userID, completed_filter i limit)"
  have i: "i \<noteq> []" using assms(4) by (auto simp: validUUID_def)
  have sel: "selected_tasks ?q = xs" unfolding xs_def by (rule selected_completed [OF inv b i])
  have good: "good_query ?q"
    using assms(2-4) inv b i by (simp add: known_sort_def cast_filter_def completed_filter_def uuid_arg_def)
  have marked: "bCompletedNextCursor bucket \<noteq> []" and mark: "bCompletedNextCursor bucket = task_mark ?q 20" if "20 < length xs"
  proof -
    have "selects_after e c db userID (completed_filter i limit) (xs ! 19) (task_mark ?q 20)"
      using task_mark_Suc [OF good, of 19] that sel by simp
    then have "task_mark ?q 20 \<noteq> []" "encodeCompletedTaskCursor c (scanTaskSummary db (xs ! 19)) (taskCursorScope c userID (completed_filter i limit)) = task_mark ?q 20"
      by (simp_all add: selects_after_def next_cursor_def del: task_mark.simps)
    moreover have "encodeCompletedTaskCursor c (scanTaskSummary db (xs ! 19)) sc = encodeCompletedTaskCursor c (task_of_row (xs ! 19)) sc" for sc
      by (simp add: encodeCompletedTaskCursor_def) (simp add: task_of_row_def)
    ultimately show "bCompletedNextCursor bucket \<noteq> []" "bCompletedNextCursor bucket = task_mark ?q 20"
      using that cur completed_scope [of c userID i limit] unfolding xs_def [symmetric] by simp_all
  qed
  have read: "read_pages (\<lambda>cursor. map_sum id (\<lambda>page. (tpTasks page, tpNextCursor page))
      (ListTaskPage e c db userID ((completed_filter i limit)\<lparr>tfCursor := cursor\<rparr>))) fuel (bCompletedNextCursor bucket)
      = Some (Inr (map (scanTaskSummary db) (drop 20 xs)))" if "20 < length xs"
  proof -
    have sums: "task_summaries ?q = map (scanTaskSummary db) xs" using sel by (simp only: task_summaries.simps)
    have "length xs \<le> fuel" using le_trans [OF length_filter_le assms(5)] by (simp add: xs_def)
    moreover have "0 < task_page_size ?q" by (rule task_pages.page_pos [OF good])
    then have "fuel \<le> fuel * task_page_size ?q" by (cases "task_page_size ?q") auto
    ultimately have "length (task_summaries ?q) \<le> 20 + fuel * task_page_size ?q + task_page_size ?q"
      unfolding sums length_map by linarith
    then have "read_pages (task_fetch ?q) fuel (task_mark ?q 20) = Some (Inr (drop 20 (task_summaries ?q)))"
      using that by (intro task_pages.read_from [OF good]) (simp_all add: sums del: task_page_size.simps task_summaries.simps)
    then show ?thesis unfolding sums mark [OF that] by (simp only: task_fetch.simps drop_map cong: read_pages_cong)
  qed
  have d: "distinct (tasks db)" using inv by (simp add: structure_defs distinct_map)
  have "distinct (?active @ xs)" "set (?active @ xs) = {t \<in> set (tasks db). tk_owner t = userID \<and> tk_bucket t = b}"
    "\<forall>t \<in> set xs. tk_status t = StatusDone" "\<forall>t \<in> set ?active. tk_status t \<noteq> StatusDone"
    using d by (auto simp: xs_def)
  moreover have "sorted (map (\<lambda>t. (tk_sort t, tk_created t)) ?active)" "sorted (map (\<lambda>t. (- tk_updated t, Desc (tk_id t))) xs)"
    by (simp_all add: xs_def)
  moreover have "bCompletedNextCursor bucket = [] \<longleftrightarrow> length xs \<le> 20"
    using marked cur unfolding xs_def [symmetric] by (cases "20 < length xs") auto
  ultimately show ?thesis using b ts [folded xs_def] read by blast
qed

lemma listBucketTasks_total: "uuid_in e i = Some b \<Longrightarrow> \<exists>ts cur. listBucketTasks e c db u i = Inr (ts, cur)"
  unfolding listBucketTasks_def uuid_arg_def Let_def by simp

text \<open>A list of 22 completed tasks, two more than \<open>GetBucket\<close> shows.\<close>

definition ex_done_task :: "nat \<Rightarrow> task_row" where
  "ex_done_task n =
     (ex_task (''0000000a-0000-4000-8000-0000000000'' @ [char_of (48 + n div 10), char_of (48 + n mod 10)])
        ex_list_uuid ''done'' None None 0)\<lparr>tk_updated := int n, tk_completed := Some 2\<rparr>"

definition ex_done_db :: db where
  "ex_done_db = ex_page_db\<lparr>usages := [\<lparr>su_user = ''u1'', su_tasks = 22, su_bytes = 198\<rparr>],
      tasks := map ex_done_task [0..<22], entries := []\<rparr>"

lemma ex_done_db_ok: "store_inv ex_done_db" "typed_db ex_env ex_done_db"
proof -
  have "keys_ok ex_done_db" "refs_ok ex_done_db" "rows_ok ex_done_db" by code_simp+
  moreover have "inbox_ok ex_done_db"
    by (simp add: inbox_ok_def ex_done_db_def ex_page_db_def ex_bucket_def)
  moreover have "accounting_ok ex_done_db"
    by (simp add: accounting_ok_def usage_of_def stored_tasks_of_def stored_bytes_of_def ex_done_task_def upt_rec
        content_bytes_def storage_bytes_def entry_bytes_def ex_defs ex_page_db_def ex_done_db_def ex_task2_uuid_def)
  ultimately show "store_inv ex_done_db" by (simp add: store_inv_def structure_ok_def)
  show "typed_db ex_env ex_done_db" by code_simp
qed

theorem GetBucket_cursor_continues_witness:
  "\<exists>bucket ts. GetBucket ex_env ex_codec ex_done_db ''u1'' ex_list_uuid = Inr bucket \<and> length (bTasks bucket) = 20
      \<and> read_pages (\<lambda>cursor. map_sum id (\<lambda>page. (tpTasks page, tpNextCursor page))
           (ListTaskPage ex_env ex_codec ex_done_db ''u1'' ((completed_filter ex_list_uuid 7)\<lparr>tfCursor := cursor\<rparr>))) 22
           (bCompletedNextCursor bucket) = Some (Inr ts) \<and> length ts = 2"
proof -
  have v: "validUUID ex_list_uuid" and l: "length (tasks ex_done_db) = 22" and d: "distinct (map tk_id (tasks ex_done_db))"
    and u: "uuid_in ex_env ex_list_uuid = Some ex_list_uuid" by code_simp+
  have "list_all (\<lambda>t. tk_owner t = ''u1'' \<and> tk_bucket t = ex_list_uuid \<and> tk_status t = StatusDone) (tasks ex_done_db)"
    by code_simp
  then have alldone: "\<forall>t \<in> set (tasks ex_done_db). tk_owner t = ''u1'' \<and> tk_bucket t = ex_list_uuid \<and> tk_status t = StatusDone"
    by (simp only: list_all_iff)
  have "case getBucket ex_env ex_done_db ''u1'' ex_list_uuid of Inr b \<Rightarrow> True | Inl _ \<Rightarrow> False" by code_simp
  then obtain b0 where "getBucket ex_env ex_done_db ''u1'' ex_list_uuid = Inr b0" by (auto split: sum.splits)
  moreover obtain ts cur where "listBucketTasks ex_env ex_codec ex_done_db ''u1'' ex_list_uuid = Inr (ts, cur)"
    using listBucketTasks_total [OF u] by fastforce
  ultimately obtain bucket where run: "GetBucket ex_env ex_codec ex_done_db ''u1'' ex_list_uuid = Inr bucket"
    by (simp add: GetBucket_def)
  obtain active completed where *: "distinct (active @ completed)"
      "set (active @ completed) = {t \<in> set (tasks ex_done_db). tk_owner t = ''u1'' \<and> tk_bucket t = ex_list_uuid}"
      "\<forall>t \<in> set active. tk_status t \<noteq> StatusDone"
      "bTasks bucket = map (\<lambda>t. (task_of_row t)\<lparr>tDescription := []\<rparr>) (active @ take 20 completed)"
      "20 < length completed \<longrightarrow>
           read_pages (\<lambda>cursor. map_sum id (\<lambda>page. (tpTasks page, tpNextCursor page))
             (ListTaskPage ex_env ex_codec ex_done_db ''u1'' ((completed_filter ex_list_uuid 7)\<lparr>tfCursor := cursor\<rparr>))) 22
             (bCompletedNextCursor bucket)
           = Some (Inr (map (scanTaskSummary ex_done_db) (drop 20 completed)))"
    using GetBucket_cursor_continues [OF ex_done_db_ok ex_codec_ok v eq_refl [OF l] run, of 7] u by auto
  have all: "set (active @ completed) = set (tasks ex_done_db)" using *(2) alldone by blast
  have "t \<notin> set active" for t using *(3) all alldone by auto
  then have "active = []" by (metis list.set_intros(1) neq_Nil_conv)
  moreover have "length completed = 22"
    using *(1) all \<open>active = []\<close> l d by (metis append_Nil distinct_card distinct_map)
  ultimately show ?thesis using run *(4,5) by (intro exI conjI) auto
qed

end
