(* ===== verification/Registry.thy ===== *)
theory Registry
  imports Backoff
begin

section \<open>Local runs: records, worktrees and branches (cli: registry.go, gitrepo.go, runs.go)\<close>

text \<open>
  The part of the machine that the watcher changes: the worktree directories and branches it
  creates, and the registry, one file per run. A file that cannot be parsed is \<open>Garbage\<close>. Every
  operation that reaches the file system or Git takes its failure as an argument.
\<close>

abbreviation runStateLaunching :: string where "runStateLaunching \<equiv> ''launching''"
abbreviation runStateWorking :: string where "runStateWorking \<equiv> ''working''"
abbreviation runStateSuccess :: string where "runStateSuccess \<equiv> ''success''"
abbreviation runStateBlocked :: string where "runStateBlocked \<equiv> ''blocked''"
abbreviation runStateInterrupted :: string where "runStateInterrupted \<equiv> ''interrupted''"
abbreviation runStateAmbiguous :: string where "runStateAmbiguous \<equiv> ''ambiguous''"

definition maxRetainedRuns :: nat where "maxRetainedRuns = 10"

record runRecord =
  rc_RunID :: string
  rc_Profile :: string
  rc_AgentID :: string
  rc_TaskID :: string
  rc_Branch :: string
  rc_Worktree :: string
  rc_SourceRepository :: string
  rc_SourceCommit :: string
  rc_State :: string
  rc_ChildPID :: int
  rc_ProcessGroupID :: int
  rc_WatcherPID :: int
  rc_CreatedAt :: "int option"
  rc_UpdatedAt :: "int option"

definition retained :: "runRecord \<Rightarrow> bool" where
  "retained r \<longleftrightarrow> rc_State r \<in> set [runStateSuccess, runStateBlocked, runStateInterrupted, runStateAmbiguous]"

datatype run_file = Readable runRecord | Garbage

record host =
  ho_paths :: "string list"
  ho_branches :: "string list"
  ho_runs :: "(string \<times> run_file) list"

subsection \<open>The registry\<close>

text \<open>A time is \<open>None\<close> when it is the zero time. The record is passed by value: the times that \<open>save\<close> sets are only in the file.\<close>

definition save :: "cli_error option \<Rightarrow> int \<Rightarrow> runRecord \<Rightarrow> host \<Rightarrow> (cli_error, host) result" where
  "save fails now r h =
     (case fails of Some err \<Rightarrow> Inl err
      | None \<Rightarrow>
          let r = r\<lparr>rc_UpdatedAt := Some now\<rparr>;
              r = (if rc_CreatedAt r = None then r\<lparr>rc_CreatedAt := rc_UpdatedAt r\<rparr> else r) in
          Inr (h\<lparr>ho_runs := (rc_RunID r, Readable r) # filter (\<lambda>f. fst f \<noteq> rc_RunID r) (ho_runs h)\<rparr>))"

definition load :: "string \<Rightarrow> host \<Rightarrow> (cli_error, runRecord) result" where
  "load runID h =
     (case map_of (ho_runs h) runID of
        None \<Rightarrow> Inl (OtherError ''no run'')
      | Some Garbage \<Rightarrow> Inl (OtherError ''unreadable record'')
      | Some (Readable r) \<Rightarrow> Inr r)"

definition remove :: "cli_error option \<Rightarrow> string \<Rightarrow> host \<Rightarrow> (cli_error, host) result" where
  "remove fails runID h =
     (case fails of Some err \<Rightarrow> Inl err
      | None \<Rightarrow> Inr (h\<lparr>ho_runs := filter (\<lambda>f. fst f \<noteq> runID) (ho_runs h)\<rparr>))"

definition record_key :: "runRecord \<Rightarrow> int \<times> string" where
  "record_key r = (case rc_CreatedAt r of None \<Rightarrow> (0, rc_RunID r) | Some t \<Rightarrow> (t, rc_RunID r))"

definition list_runs :: "string \<Rightarrow> host \<Rightarrow> runRecord list" where
  "list_runs profileName h =
     sort_key record_key (filter (\<lambda>r. profileName = [] \<or> rc_Profile r = profileName)
       (concat (map (\<lambda>f. case snd f of Garbage \<Rightarrow> [] | Readable r \<Rightarrow> [r]) (ho_runs h))))"

definition retainedCount :: "cli_error option \<Rightarrow> string \<Rightarrow> host \<Rightarrow> (cli_error, nat) result" where
  "retainedCount fails profileName h =
     (case fails of Some err \<Rightarrow> Inl err
      | None \<Rightarrow> Inr (length (filter (\<lambda>r. retained r \<or> rc_Worktree r \<noteq> []) (list_runs profileName h))))"

subsection \<open>Worktrees and branches\<close>

definition shortRunID :: "string \<Rightarrow> string" where
  "shortRunID runID = (let compact = filter (\<lambda>c. c \<noteq> CHR ''-'') runID in if length compact > 8 then take 8 compact else compact)"

definition runBranchName :: "string \<Rightarrow> string \<Rightarrow> string" where
  "runBranchName taskID runID = ''slate/'' @ taskID @ ''-'' @ shortRunID runID"

text \<open>
  How the steps of \<open>discardRunWorktreeLocked\<close> end: the lock, \<open>git worktree remove --force\<close>,
  \<open>os.RemoveAll\<close> and \<open>git branch -D\<close>, which may find no branch.
\<close>

record discard_env =
  de_lock :: "cli_error option"
  de_remove :: bool
  de_remove_all :: bool
  de_branch :: bool

definition discardRunWorktreeLocked :: "discard_env \<Rightarrow> string \<Rightarrow> string \<Rightarrow> host \<Rightarrow> cli_error option \<times> host" where
  "discardRunWorktreeLocked d path branch h =
     (let gone = path \<noteq> [] \<and> (de_remove d \<or> de_remove_all d);
          h1 = (if gone then h\<lparr>ho_paths := filter (\<lambda>p. p \<noteq> path) (ho_paths h)\<rparr> else h);
          deleted = branch \<noteq> [] \<and> de_branch d;
          h2 = (if deleted then h1\<lparr>ho_branches := filter (\<lambda>b. b \<noteq> branch) (ho_branches h1)\<rparr> else h1);
          problem = (path \<noteq> [] \<and> \<not> de_remove d \<and> \<not> de_remove_all d)
             \<or> (branch \<noteq> [] \<and> \<not> de_branch d \<and> branch \<in> set (ho_branches h1)) in
      (if problem then Some (OtherError ''discard'') else None, h2))"

definition discardRunWorktree :: "discard_env \<Rightarrow> string \<Rightarrow> string \<Rightarrow> host \<Rightarrow> cli_error option \<times> host" where
  "discardRunWorktree d path branch h =
     (case de_lock d of Some err \<Rightarrow> (Some err, h) | None \<Rightarrow> discardRunWorktreeLocked d path branch h)"

text \<open>
  \<open>base\<close> is \<open>worktreeBase(profileName)\<close> or its failure. \<open>git worktree add -b\<close> may fail after it
  has made the branch, and after it has made the directory.
\<close>

record create_env =
  we_base :: "(cli_error, string) result"
  we_mkdir :: "cli_error option"
  we_stat :: "cli_error option"
  we_lock :: "cli_error option"
  we_list :: bool
  we_add :: "(bool \<times> bool) option"
  we_discard :: discard_env

definition createRunWorktree :: "create_env \<Rightarrow> string \<Rightarrow> string \<Rightarrow> host \<Rightarrow> (cli_error, string \<times> string) result \<times> host" where
  "createRunWorktree w taskID runID h =
     (case we_base w of Inl err \<Rightarrow> (Inl err, h)
      | Inr base \<Rightarrow>
        (case we_mkdir w of Some err \<Rightarrow> (Inl err, h)
         | None \<Rightarrow>
           let path = base @ ''/'' @ runID; branch = runBranchName taskID runID in
           if path \<in> set (ho_paths h) then (Inl (OtherError ''worktree already exists''), h)
           else (case we_stat w of Some err \<Rightarrow> (Inl err, h)
           | None \<Rightarrow> (case we_lock w of Some err \<Rightarrow> (Inl err, h)
           | None \<Rightarrow>
             if we_list w \<and> branch \<in> set (ho_branches h) then (Inl (OtherError ''branch already exists''), h)
             else (case we_add w of
                 None \<Rightarrow> (Inr (path, branch), h\<lparr>ho_paths := path # ho_paths h, ho_branches := branch # ho_branches h\<rparr>)
               | Some (left_path, left_branch) \<Rightarrow>
                   let h1 = h\<lparr>ho_paths := (if left_path then path # ho_paths h else ho_paths h),
                              ho_branches := (if left_branch then branch # ho_branches h else ho_branches h)\<rparr>;
                       (problem, h2) = discardRunWorktreeLocked (we_discard w) path branch h1 in
                   (Inl (OtherError ''git worktree add''), h2))))))"

subsection \<open>Releasing a run by hand\<close>

text \<open>\<open>git status\<close> of the worktree, \<open>git worktree remove\<close>, and the lock before them.\<close>

record release_env =
  le_lock :: "cli_error option"
  le_status :: "(cli_error, string) result"
  le_remove :: "cli_error option"

definition releaseRetainedWorktree :: "release_env \<Rightarrow> string \<Rightarrow> host \<Rightarrow> (cli_error, host) result" where
  "releaseRetainedWorktree l path h =
     (case le_lock l of Some err \<Rightarrow> Inl err
      | None \<Rightarrow> rbind (le_status l) (\<lambda>status.
          if status \<noteq> [] then Inl (OtherError ''uncommitted changes'')
          else (case le_remove l of Some err \<Rightarrow> Inl err
                | None \<Rightarrow> Inr (h\<lparr>ho_paths := filter (\<lambda>p. p \<noteq> path) (ho_paths h)\<rparr>))))"

text \<open>What is alive, the failure of \<open>os.Stat\<close> other than a missing path, and of removing the record.\<close>

record clean_env =
  ne_group_alive :: "int \<Rightarrow> bool"
  ne_process_alive :: "int \<Rightarrow> bool"
  ne_stat :: "cli_error option"
  ne_release :: release_env
  ne_remove :: "cli_error option"

definition cleanRun :: "clean_env \<Rightarrow> string \<Rightarrow> host \<Rightarrow> (cli_error, host) result" where
  "cleanRun n runID h =
     (if \<not> cli_validUUID runID then Inl (OtherError ''not a valid run ID'')
      else rbind (load runID h) (\<lambda>r.
        if rc_ProcessGroupID r > 0 \<and> ne_group_alive n (rc_ProcessGroupID r) then Inl (OtherError ''still has a running process'')
        else if \<not> retained r \<and> rc_WatcherPID r > 0 \<and> ne_process_alive n (rc_WatcherPID r)
          then Inl (OtherError ''belongs to a watcher that is still running'')
        else if \<not> retained r \<and> rc_Worktree r = [] then Inl (OtherError ''holds no worktree'')
        else rbind (if rc_Worktree r \<in> set (ho_paths h) then releaseRetainedWorktree (ne_release n) (rc_Worktree r) h
                    else (case ne_stat n of Some err \<Rightarrow> Inl err | None \<Rightarrow> Inr h)) (\<lambda>h.
        remove (ne_remove n) runID h)))"

end
