(* ===== verification/Watch.thy ===== *)
theory Watch
  imports Registry
begin

section \<open>The watcher (cli/cmd/slate/watch.go, api.go)\<close>

text \<open>
  One attempt offers a task to an executor in a worktree of its own, supervises the run by
  reading the task and the run's entries, and keeps or discards the worktree. What happens
  outside the watcher, the answers of the server, the life of the executor and the failures of
  the machine, is a script: the inspections of a run in the order they are made, and the rounds
  of the main loop. A script that ends before the code returns gives \<open>None\<close>.
\<close>

abbreviation outcomeLostRace :: string where "outcomeLostRace \<equiv> ''lost_race''"
abbreviation outcomeNeverClaimed :: string where "outcomeNeverClaimed \<equiv> ''never_claimed''"

definition launchFailureLimit :: nat where "launchFailureLimit = 5"
definition postExitReadAttempts :: nat where "postExitReadAttempts = 5"

subsection \<open>What the server reports (api.go)\<close>

record taskView =
  tv_ID :: string
  tv_Title :: string
  tv_Status :: string
  tv_Priority :: string
  tv_ListName :: string
  tv_AssigneeAgentID :: string
  tv_ExecutionRunID :: string

record entryView =
  ev_ID :: string
  ev_Kind :: string
  ev_AuthorKind :: string
  ev_AuthorID :: string
  ev_RunID :: string

record runOutcome =
  ro_HasOutput :: bool
  ro_HasComment :: bool

fun classifyRunEntries :: "entryView list \<Rightarrow> string \<Rightarrow> runOutcome \<Rightarrow> runOutcome" where
  "classifyRunEntries [] runID outcome = outcome"
| "classifyRunEntries (entry # rest) runID outcome =
     classifyRunEntries rest runID
       (if \<not> EqualFold (ev_RunID entry) runID then outcome
        else if ev_Kind entry = ''output'' then outcome\<lparr>ro_HasOutput := True\<rparr>
        else if ev_Kind entry = ''comment'' then outcome\<lparr>ro_HasComment := True\<rparr>
        else outcome)"

lemma classifyRunEntries_iff:
  "ro_HasOutput (classifyRunEntries es runID o0) \<longleftrightarrow>
     ro_HasOutput o0 \<or> (\<exists>en \<in> set es. EqualFold (ev_RunID en) runID \<and> ev_Kind en = ''output'')"
  "ro_HasComment (classifyRunEntries es runID o0) \<longleftrightarrow>
     ro_HasComment o0 \<or> (\<exists>en \<in> set es. EqualFold (ev_RunID en) runID \<and> ev_Kind en = ''comment'')"
  by (induction es arbitrary: o0) auto

subsection \<open>Inspecting a run\<close>

record runSupervision =
  everOwned :: bool
  everWrote :: bool
  observed :: bool
  readFailed :: bool

definition witnessed :: "runSupervision \<Rightarrow> bool" where
  "witnessed s \<longleftrightarrow> everOwned s \<or> everWrote s"

datatype wake = WokeFinished | WokeCancelled | WokeTimeout

text \<open>
  The script of one round of \<open>superviseRun\<close>: is the executor alive when each read starts and when
  both have returned, the two answers, is the watcher stopping after a failed inspection, has the
  executor finished when the code looks again and after the grace period, what ends the wait,
  and the random part of a retry delay.
\<close>

record inspection =
  in_alive1 :: bool
  in_task :: "(cli_error, taskView) result"
  in_alive2 :: bool
  in_entries :: "(cli_error, entryView list) result"
  in_alive3 :: bool
  in_cancelled :: bool
  in_finished :: bool
  in_grace :: bool
  in_wait :: wake
  in_spread :: "int \<Rightarrow> int"

definition noteReadFailure :: "runSupervision \<Rightarrow> bool \<Rightarrow> cli_error \<Rightarrow> runSupervision" where
  "noteReadFailure s alive err =
     (if \<not> retryableError err then s else if alive then s\<lparr>readFailed := True\<rparr> else s)"

text \<open>The result is \<open>Inl\<close> the error, or the state and whether it is decided.\<close>

definition inspectRun ::
    "inspection \<Rightarrow> string \<Rightarrow> bool \<Rightarrow> runSupervision \<Rightarrow> backoff \<Rightarrow> (cli_error, string \<times> bool) result \<times> runSupervision \<times> backoff" where
  "inspectRun i runID executorExited s failure =
     (case in_task i of
        Inl err \<Rightarrow> (Inl err, noteReadFailure s (\<not> executorExited \<and> in_alive1 i) err, failure)
      | Inr task \<Rightarrow>
        (case in_entries i of
           Inl err \<Rightarrow> (Inl err, noteReadFailure s (\<not> executorExited \<and> in_alive2 i) err, failure)
         | Inr es \<Rightarrow>
             let failure = reset failure;
                 owned = EqualFold (tv_ExecutionRunID task) runID;
                 outcome = classifyRunEntries es runID \<lparr>ro_HasOutput = False, ro_HasComment = False\<rparr>;
                 s = s\<lparr>everOwned := everOwned s \<or> owned, everWrote := everWrote s \<or> ro_HasOutput outcome \<or> ro_HasComment outcome\<rparr>;
                 s = (if \<not> executorExited \<and> in_alive3 i then s\<lparr>observed := True\<rparr> else s) in
             (Inr (if ro_HasOutput outcome \<and> (tv_Status task = ''needs_review'' \<or> tv_Status task = ''done'') then (runStateSuccess, True)
                   else if ro_HasComment outcome \<and> tv_Status task = ''working'' then (runStateBlocked, True)
                   else if \<not> executorExited then ([], False)
                   else if witnessed s then (runStateInterrupted, True)
                   else if \<not> observed s \<or> readFailed s then (runStateAmbiguous, True)
                   else if tv_ExecutionRunID task \<noteq> [] then (outcomeLostRace, True)
                   else if tv_Status task = ''queued'' then (outcomeNeverClaimed, True)
                   else (runStateAmbiguous, True)), s, failure)))"

subsection \<open>Stopping the process group\<close>

datatype group_signal = SIGTERM | SIGKILL

text \<open>What is left of the group at the reaping, and whether it is alive at once and after each signal.\<close>

record group_env =
  ge_remnant :: bool
  ge_alive :: bool
  ge_gone_after_term :: bool
  ge_gone_after_kill :: bool

definition stopProcessGroup :: "group_env \<Rightarrow> int \<Rightarrow> bool \<times> group_signal list" where
  "stopProcessGroup g pgid =
     (if pgid \<le> 0 then (True, [])
      else if \<not> ge_alive g then (True, [])
      else if ge_gone_after_term g then (True, [SIGTERM])
      else if ge_gone_after_kill g then (True, [SIGTERM, SIGKILL])
      else (False, [SIGTERM, SIGKILL]))"

definition stopExecutorGroup :: "group_env \<Rightarrow> int \<Rightarrow> bool \<Rightarrow> bool \<times> group_signal list" where
  "stopExecutorGroup g pgid reaped = (if reaped \<and> \<not> ge_remnant g then (True, []) else stopProcessGroup g pgid)"

subsection \<open>Supervision\<close>

record supervised =
  sv_state :: string
  sv_cleared :: bool
  sv_signals :: "group_signal list"
  sv_error :: "cli_error option"

definition finish_run :: "group_env \<Rightarrow> int \<Rightarrow> string \<Rightarrow> bool \<Rightarrow> cli_error option \<Rightarrow> supervised" where
  "finish_run g pgid state exited err =
     (let (cleared, signals) = stopExecutorGroup g pgid exited in
      \<lparr>sv_state = state, sv_cleared = cleared, sv_signals = signals, sv_error = err\<rparr>)"

fun superviseRun ::
    "group_env \<Rightarrow> string \<Rightarrow> int \<Rightarrow> inspection list \<Rightarrow> runSupervision \<Rightarrow> bool \<Rightarrow> nat \<Rightarrow> backoff \<Rightarrow> (supervised \<times> backoff) option" where
  "superviseRun g runID pgid [] s exited postExitAttempts failure = None"
| "superviseRun g runID pgid (i # rest) s exited postExitAttempts failure =
     (case inspectRun i runID exited s failure of
        (Inl err, s, failure) \<Rightarrow>
          let (retry, failure) = retryDelay (in_spread i) err failure in
          if in_cancelled i then Some (finish_run g pgid runStateInterrupted exited None, failure)
          else if retry \<noteq> None then
            let exited = (exited \<or> in_finished i) in
            if exited then
              let postExitAttempts = postExitAttempts + 1 in
              if postExitAttempts > postExitReadAttempts then Some (finish_run g pgid runStateInterrupted True None, failure)
              else superviseRun g runID pgid rest s exited postExitAttempts failure
            else superviseRun g runID pgid rest s exited postExitAttempts failure
          else Some (finish_run g pgid runStateAmbiguous (exited \<or> in_finished i) (Some err), failure)
      | (Inr (state, decided), s, failure) \<Rightarrow>
          if decided then Some (finish_run g pgid state (exited \<or> in_grace i) None, failure)
          else if exited then Some (finish_run g pgid runStateInterrupted True None, failure)
          else (case in_wait i of
              WokeFinished \<Rightarrow> superviseRun g runID pgid rest s True postExitAttempts failure
            | WokeCancelled \<Rightarrow> Some (finish_run g pgid runStateInterrupted (in_finished i) None, failure)
            | WokeTimeout \<Rightarrow> superviseRun g runID pgid rest s exited postExitAttempts failure))"

definition no_supervision :: runSupervision where
  "no_supervision = \<lparr>everOwned = False, everWrote = False, observed = False, readFailed = False\<rparr>"

subsection \<open>Starting up (watch.go, profile.go, gitrepo.go)\<close>

record identity =
  id_Authenticated :: bool
  id_ID :: string
  id_AgentID :: string
  id_AgentPurpose :: string
  id_DisplayName :: string
  id_ManagedRuns :: bool

record profile =
  pr_AgentID :: string
  pr_TokenEnv :: string
  pr_Command :: "string list"

definition validate :: "profile \<Rightarrow> (cli_error, unit) result" where
  "validate p =
     (if \<not> cli_validUUID (TrimSpace (pr_AgentID p)) then Inl (OtherError ''needs agentId'')
      else if TrimSpace (pr_TokenEnv p) = [] then Inl (OtherError ''needs tokenEnv'')
      else if take 6 (TrimSpace (pr_TokenEnv p)) = ''slate_'' then Inl (OtherError ''has a token in tokenEnv'')
      else (case pr_Command p of [] \<Rightarrow> Inl (OtherError ''needs a command array'')
            | c # _ \<Rightarrow> if TrimSpace c = [] then Inl (OtherError ''needs a command array'') else Inr ()))"

text \<open>The configuration file is an argument: its profiles by name, or why it cannot be read or parsed.\<close>

definition loadProfile :: "(cli_error, (string \<times> profile) list) result \<Rightarrow> string \<Rightarrow> (cli_error, profile) result" where
  "loadProfile config name0 =
     (let name = TrimSpace name0 in
      rbind (require (name \<noteq> []) (OtherError ''--profile is required'')) (\<lambda>_.
      rbind config (\<lambda>profiles.
      (case map_of profiles name of None \<Rightarrow> Inl (OtherError ''no profile'')
       | Some p \<Rightarrow> rbind (validate p) (\<lambda>_. Inr p)))))"

definition profile_token :: "(string \<Rightarrow> string) \<Rightarrow> profile \<Rightarrow> (cli_error, string) result" where
  "profile_token getenv p =
     (let v = TrimSpace (getenv (TrimSpace (pr_TokenEnv p))) in
      if v = [] then Inl (OtherError ''is empty'') else Inr v)"

record sourceCheckout =
  so_Root :: string
  so_Branch :: string
  so_Commit :: string

text \<open>The directory that the path resolves to, whether it is one, and the four Git commands.\<close>

record checkout_env =
  oc_resolved :: "(cli_error, string) result"
  oc_is_dir :: bool
  oc_root :: "(cli_error, string) result"
  oc_branch :: "(cli_error, string) result"
  oc_status :: "(cli_error, string) result"
  oc_commit :: "(cli_error, string) result"

definition openSourceCheckout :: "checkout_env \<Rightarrow> (cli_error, sourceCheckout) result" where
  "openSourceCheckout c =
     rbind (oc_resolved c) (\<lambda>resolved.
     rbind (require (oc_is_dir c) (OtherError ''is not a directory'')) (\<lambda>_.
     (case oc_root c of Inl _ \<Rightarrow> Inl (OtherError ''is not a Git repository'')
      | Inr root \<Rightarrow>
        (case oc_branch c of Inl _ \<Rightarrow> Inl (OtherError ''is not on a named branch'')
         | Inr branch \<Rightarrow>
             rbind (require (branch \<noteq> []) (OtherError ''is not on a named branch'')) (\<lambda>_.
             rbind (oc_status c) (\<lambda>status.
             rbind (require (status = []) (OtherError ''has uncommitted changes'')) (\<lambda>_.
             rbind (oc_commit c) (\<lambda>commit.
             Inr \<lparr>so_Root = root, so_Branch = branch, so_Commit = commit\<rparr>))))))))"

record watcher =
  wa_profileName :: string
  wa_profile :: profile
  wa_identity :: identity
  wa_listID :: string
  wa_source :: sourceCheckout
  wa_slateBinary :: string
  wa_executorPath :: string
  wa_token :: string
  wa_baseURL :: string
  wa_pid :: int

abbreviation wa_agentID :: "watcher \<Rightarrow> string" where "wa_agentID w \<equiv> id_AgentID (wa_identity w)"
abbreviation wa_root :: "watcher \<Rightarrow> string" where "wa_root w \<equiv> so_Root (wa_source w)"
abbreviation wa_commit :: "watcher \<Rightarrow> string" where "wa_commit w \<equiv> so_Commit (wa_source w)"

definition refuseWhileWorkTaskExists ::
    "taskView list read_round list \<Rightarrow> backoff \<Rightarrow> (cli_error option \<times> backoff) option" where
  "refuseWhileWorkTaskExists rs failure =
     (case retryReadWith rs failure of
        None \<Rightarrow> None
      | Some (Inl err, failure) \<Rightarrow> Some (Some err, failure)
      | Some (Inr working, failure) \<Rightarrow>
          Some (if working \<noteq> [] then Some (OtherError ''already in progress'') else None, failure))"

text \<open>\<open>se_groups\<close> is \<open>processGroupsSupported\<close>; the rest are the answers of the machine and the server.\<close>

record start_env =
  se_groups :: bool
  se_config :: "(cli_error, (string \<times> profile) list) result"
  se_getenv :: "string \<Rightarrow> string"
  se_binary :: "(cli_error, string) result"
  se_executor :: "(cli_error, string) result"
  se_identity :: "identity read_round list"
  se_checkout :: checkout_env
  se_registry :: "cli_error option"
  se_count :: "cli_error option"
  se_working :: "taskView list read_round list"
  se_pid :: int

definition newWatcher ::
    "start_env \<Rightarrow> string \<Rightarrow> string \<Rightarrow> string \<Rightarrow> host \<Rightarrow> ((cli_error, watcher \<times> backoff) result) option" where
  "newWatcher s baseURL profileName listID h =
     (if \<not> se_groups s then Some (Inl (OtherError ''runs on macOS and Linux''))
      else (case rbind (loadProfile (se_config s) profileName) (\<lambda>selected.
                 rbind (profile_token (se_getenv s) selected) (\<lambda>token.
                 rbind (se_binary s) (\<lambda>binary.
                 rbind (se_executor s) (\<lambda>executorPath. Inr (selected, token, binary, executorPath))))) of
          Inl err \<Rightarrow> Some (Inl err)
        | Inr (selected, token, binary, executorPath) \<Rightarrow>
          (case retryReadWith (se_identity s) newBackoff of
             None \<Rightarrow> None
           | Some (Inl err, _) \<Rightarrow> Some (Inl err)
           | Some (Inr who, _) \<Rightarrow>
             (case rbind (require (id_Authenticated who \<and> id_AgentID who \<noteq> []) (OtherError ''a watcher needs an agent token'')) (\<lambda>_.
                   rbind (require (EqualFold (id_AgentID who) (pr_AgentID selected)) (OtherError ''belongs to another agent'')) (\<lambda>_.
                   rbind (require (id_ManagedRuns who) (OtherError ''does not support managed runs'')) (\<lambda>_.
                   rbind (openSourceCheckout (se_checkout s)) (\<lambda>source.
                   rbind (case se_registry s of Some err \<Rightarrow> Inl err | None \<Rightarrow> Inr ()) (\<lambda>_.
                   rbind (retainedCount (se_count s) profileName h) (\<lambda>n.
                   rbind (require (n < maxRetainedRuns) (OtherError ''retained worktrees'')) (\<lambda>_. Inr source))))))) of
                Inl err \<Rightarrow> Some (Inl err)
              | Inr source \<Rightarrow>
                (case refuseWhileWorkTaskExists (se_working s) newBackoff of
                   None \<Rightarrow> None
                 | Some (Some err, _) \<Rightarrow> Some (Inl err)
                 | Some (None, failure) \<Rightarrow>
                     Some (Inr (\<lparr>wa_profileName = profileName, wa_profile = selected, wa_identity = who, wa_listID = listID,
                                 wa_source = source, wa_slateBinary = binary, wa_executorPath = executorPath, wa_token = token,
                                 wa_baseURL = baseURL, wa_pid = se_pid s\<rparr>, failure)))))))"

subsection \<open>One attempt\<close>

text \<open>\<open>fmt.Sprintf("%x")\<close> of bytes, and the version 4 identifier made of 16 random ones.\<close>

definition hex_digits :: string where "hex_digits = ''0123456789abcdef''"

definition sprint_hex :: "nat list \<Rightarrow> string" where
  "sprint_hex bs = concat (map (\<lambda>b. [hex_digits ! (b div 16 mod 16), hex_digits ! (b mod 16)]) bs)"

definition newRunID :: "nat list \<Rightarrow> string" where
  "newRunID raw0 =
     (let raw = raw0[6 := (raw0 ! 6) mod 16 + 64]; raw = raw[8 := (raw ! 8) mod 64 + 128] in
      sprint_hex (take 4 raw) @ ''-'' @ sprint_hex (take 2 (drop 4 raw)) @ ''-'' @ sprint_hex (take 2 (drop 6 raw))
        @ ''-'' @ sprint_hex (take 2 (drop 8 raw)) @ ''-'' @ sprint_hex (take 6 (drop 10 raw)))"

text \<open>\<open>environ\<close> is \<open>os.Environ()\<close>, \<open>dir\<close> and \<open>path\<close> the directory of the binary and \<open>$PATH\<close>.\<close>

definition env_name :: "string \<Rightarrow> string option" where
  "env_name entry = (if CHR ''='' \<in> set entry then Some (takeWhile (\<lambda>c. c \<noteq> CHR ''='') entry) else None)"

definition executorEnvironment :: "watcher \<Rightarrow> string list \<Rightarrow> string \<Rightarrow> string \<Rightarrow> string \<Rightarrow> string list" where
  "executorEnvironment w environ dir path runID =
     filter (\<lambda>entry. case env_name entry of None \<Rightarrow> False
        | Some name \<Rightarrow> name \<notin> set [''PATH'', ''SLATE_RUN_ID'', ''SLATE_BIN'', ''SLATE_API_TOKEN'', ''SLATE_BASE_URL'']) environ
     @ [''PATH='' @ dir @ '':'' @ path, ''SLATE_RUN_ID='' @ runID, ''SLATE_BIN='' @ wa_slateBinary w,
        ''SLATE_BASE_URL='' @ wa_baseURL w, ''SLATE_API_TOKEN='' @ wa_token w]"

text \<open>The script of an attempt; \<open>at_now\<close> are the times of its saves, \<open>at_start\<close> is the process ID of the executor or the failure to start it.\<close>

record attempt_env =
  at_runID :: "(cli_error, string) result"
  at_create :: create_env
  at_now :: "nat \<Rightarrow> int"
  at_save1 :: "cli_error option"
  at_discard1 :: discard_env
  at_save2 :: "cli_error option"
  at_count :: "cli_error option"
  at_remove :: "cli_error option"
  at_start :: "(cli_error, int) result"
  at_save_working :: "cli_error option"
  at_group :: group_env
  at_inspections :: "inspection list"
  at_save_last :: "cli_error option"

definition run_record :: "watcher \<Rightarrow> string \<Rightarrow> string \<Rightarrow> string \<Rightarrow> string \<Rightarrow> runRecord" where
  "run_record w taskID runID worktree branch =
     \<lparr>rc_RunID = runID, rc_Profile = wa_profileName w, rc_AgentID = wa_agentID w, rc_TaskID = taskID, rc_Branch = branch,
      rc_Worktree = worktree, rc_SourceRepository = wa_root w, rc_SourceCommit = wa_commit w, rc_State = runStateLaunching,
      rc_ChildPID = 0, rc_ProcessGroupID = 0, rc_WatcherPID = wa_pid w, rc_CreatedAt = None, rc_UpdatedAt = None\<rparr>"

text \<open>Save, and only log a failure.\<close>

definition try_save :: "cli_error option \<Rightarrow> int \<Rightarrow> runRecord \<Rightarrow> host \<Rightarrow> host" where
  "try_save fails now r h = (case save fails now r h of Inl _ \<Rightarrow> h | Inr h' \<Rightarrow> h')"

text \<open>
  An attempt gives the outcome, the error, the machine and the backoff. It is in three parts: what
  comes before the executor, what releases an unstarted run, and the run itself.
\<close>

type_synonym attempt_result = "string \<times> cli_error option \<times> host \<times> backoff"

text \<open>Discard an unstarted run; when that fails, keep a record of it. \<open>lost\<close> is the error of a failed clean-up, \<open>released\<close> the one of a clean release.\<close>

definition release_unstarted ::
    "attempt_env \<Rightarrow> runRecord \<Rightarrow> (cli_error \<Rightarrow> cli_error) \<Rightarrow> cli_error \<Rightarrow> host \<Rightarrow> string \<times> cli_error option \<times> host" where
  "release_unstarted a r lost released h =
     (case discardRunWorktree (at_discard1 a) (rc_Worktree r) (rc_Branch r) h of
        (Some cleanupErr, h) \<Rightarrow>
          (runStateAmbiguous, Some (lost cleanupErr), try_save (at_save2 a) (at_now a 1) (r\<lparr>rc_State := runStateAmbiguous\<rparr>) h)
      | (None, h) \<Rightarrow>
          (case remove (at_remove a) (rc_RunID r) h of
             Inl _ \<Rightarrow> ([], Some RunRecordRemoval, h)
           | Inr h \<Rightarrow> ([], Some released, h)))"

definition finish_attempt :: "attempt_env \<Rightarrow> runRecord \<Rightarrow> supervised \<Rightarrow> host \<Rightarrow> string \<times> cli_error option \<times> host" where
  "finish_attempt a r sv h =
     (let r = r\<lparr>rc_State := sv_state sv\<rparr>;
          r = (if sv_cleared sv then r\<lparr>rc_ChildPID := 0, rc_ProcessGroupID := 0\<rparr> else r) in
      if sv_error sv = None \<and> sv_cleared sv \<and> (sv_state sv = outcomeLostRace \<or> sv_state sv = outcomeNeverClaimed) then
        (case discardRunWorktree (at_discard1 a) (rc_Worktree r) (rc_Branch r) h of
           (Some _, h) \<Rightarrow> (runStateAmbiguous, None, try_save (at_save2 a) (at_now a 1) (r\<lparr>rc_State := runStateAmbiguous\<rparr>) h)
         | (None, h) \<Rightarrow>
             (case remove (at_remove a) (rc_RunID r) h of
                Inl _ \<Rightarrow> (sv_state sv, Some RunRecordRemoval, h)
              | Inr h \<Rightarrow> (sv_state sv, None, h)))
      else
        (sv_state sv,
         (case sv_error sv of Some err \<Rightarrow> Some err | None \<Rightarrow> if sv_cleared sv then None else Some GroupSurvived),
         try_save (at_save_last a) (at_now a 3) r h))"

definition run_started :: "attempt_env \<Rightarrow> runRecord \<Rightarrow> int \<Rightarrow> backoff \<Rightarrow> host \<Rightarrow> attempt_result option" where
  "run_started a r pid failure h =
     (let r = r\<lparr>rc_State := runStateWorking, rc_ChildPID := pid, rc_ProcessGroupID := pid\<rparr> in
      case save (at_save_working a) (at_now a 2) r h of
        Inl err \<Rightarrow>
          Some (runStateAmbiguous, Some (if fst (stopProcessGroup (at_group a) pid) then err else GroupSurvived), h, failure)
      | Inr h \<Rightarrow>
          (case superviseRun (at_group a) (rc_RunID r) pid (at_inspections a) no_supervision False 0 failure of
             None \<Rightarrow> None
           | Some (sv, failure) \<Rightarrow> (case finish_attempt a r sv h of (state, err, h) \<Rightarrow> Some (state, err, h, failure))))"

definition attempt :: "watcher \<Rightarrow> attempt_env \<Rightarrow> taskView \<Rightarrow> backoff \<Rightarrow> host \<Rightarrow> attempt_result option" where
  "attempt w a candidate failure h =
     (case at_runID a of
        Inl err \<Rightarrow> Some ([], Some err, h, failure)
      | Inr runID \<Rightarrow>
        (case createRunWorktree (at_create a) (tv_ID candidate) runID h of
           (Inl err, h) \<Rightarrow> Some ([], Some err, h, failure)
         | (Inr (worktree, branch), h) \<Rightarrow>
             let r = run_record w (tv_ID candidate) runID worktree branch in
             (case save (at_save1 a) (at_now a 0) r h of
                Inl err \<Rightarrow>
                  (case discardRunWorktree (at_discard1 a) worktree branch h of
                     (Some _, h) \<Rightarrow>
                       (case save (at_save2 a) (at_now a 1) (r\<lparr>rc_State := runStateAmbiguous\<rparr>) h of
                          Inl _ \<Rightarrow> Some (runStateAmbiguous, Some UndiscoverableRun, h, failure)
                        | Inr h \<Rightarrow> Some (runStateAmbiguous, Some err, h, failure))
                   | (None, h) \<Rightarrow> Some ([], Some err, h, failure))
              | Inr h \<Rightarrow>
                  (case retainedCount (at_count a) (wa_profileName w) h of
                     Inr n \<Rightarrow>
                       if n > maxRetainedRuns then
                         (case release_unstarted a r (\<lambda>cleanupErr. cleanupErr) (OtherError ''over the limit'') h of
                            (state, err, h) \<Rightarrow> Some (state, err, h, failure))
                       else
                         (case at_start a of
                            Inl err \<Rightarrow> (case release_unstarted a r (\<lambda>_. err) err h of (state, e, h) \<Rightarrow> Some (state, e, h, failure))
                          | Inr pid \<Rightarrow> run_started a r pid failure h)
                   | Inl _ \<Rightarrow>
                         (case at_start a of
                            Inl err \<Rightarrow> (case release_unstarted a r (\<lambda>_. err) err h of (state, e, h) \<Rightarrow> Some (state, e, h, failure))
                          | Inr pid \<Rightarrow> run_started a r pid failure h)))))"

subsection \<open>The main loop\<close>

definition recoverableAttemptError :: "cli_error \<Rightarrow> bool" where
  "recoverableAttemptError err \<longleftrightarrow>
     \<not> (err = GroupSurvived \<or> err = RunRecordRemoval \<or> err = UndiscoverableRun) \<and> retryableError err"

text \<open>The script of a round: is the watcher stopping, the two reads, the failure of counting, and the attempt.\<close>

record round =
  ro_cancelled :: bool
  ro_working :: "taskView list read_round list"
  ro_count :: "cli_error option"
  ro_queued :: "taskView list read_round list"
  ro_attempt :: attempt_env

record watch_state =
  wst_host :: host
  wst_scopeChecked :: bool
  wst_launchFailures :: nat
  wst_idle :: backoff
  wst_failure :: backoff
  wst_offers :: "(string \<times> string \<times> cli_error option) list"

text \<open>
  How a round ends: the loop goes on, or \<open>run\<close> returns without or with an error. \<open>wst_offers\<close>
  records the attempts, with the task, the outcome and the error of each.
\<close>

datatype round_result = Continue watch_state | Returned "cli_error option" watch_state

definition stop_error :: "cli_error \<Rightarrow> cli_error option" where
  "stop_error err = (if err = Canceled then None else Some err)"

definition after_attempt :: "taskView \<Rightarrow> string \<Rightarrow> cli_error option \<Rightarrow> watch_state \<Rightarrow> round_result" where
  "after_attempt candidate outcome err st =
     (let st = st\<lparr>wst_offers := wst_offers st @ [(tv_ID candidate, outcome, err)]\<rparr>;
          failed = st\<lparr>wst_launchFailures := wst_launchFailures st + 1\<rparr> in
      case err of
        Some err \<Rightarrow>
          if err = Canceled then Returned None st
          else if \<not> recoverableAttemptError err then Returned (Some err) st
          else if wst_launchFailures failed \<ge> launchFailureLimit then Returned (Some (OtherError ''launch failures'')) failed
          else Continue failed
      | None \<Rightarrow>
          if outcome = runStateSuccess \<or> outcome = outcomeLostRace \<or> outcome = runStateAmbiguous
          then Continue (st\<lparr>wst_launchFailures := 0\<rparr>)
          else if outcome = outcomeNeverClaimed then
            (if wst_launchFailures failed \<ge> launchFailureLimit then Returned (Some (OtherError ''never claimed'')) failed
             else Continue failed)
          else Returned None st)"

definition offer_round :: "watcher \<Rightarrow> round \<Rightarrow> watch_state \<Rightarrow> round_result option" where
  "offer_round w rd st =
     (case retainedCount (ro_count rd) (wa_profileName w) (wst_host st) of
        Inl err \<Rightarrow> Some (Returned (Some err) st)
      | Inr n \<Rightarrow>
          if n \<ge> maxRetainedRuns then Some (Returned (Some (OtherError ''retained worktrees'')) st)
          else (case retryReadWith (ro_queued rd) (wst_failure st) of
              None \<Rightarrow> None
            | Some (Inl err, failure) \<Rightarrow> Some (Returned (stop_error err) (st\<lparr>wst_failure := failure\<rparr>))
            | Some (Inr [], failure) \<Rightarrow>
                Some (Continue (st\<lparr>wst_failure := failure, wst_idle := snd (next_wait (\<lambda>_. 0) (wst_idle st))\<rparr>))
            | Some (Inr (candidate # _), failure) \<Rightarrow>
                (case attempt w (ro_attempt rd) candidate failure (wst_host st) of
                   None \<Rightarrow> None
                 | Some (outcome, err, h, failure) \<Rightarrow>
                     Some (after_attempt candidate outcome err
                       (st\<lparr>wst_host := h, wst_failure := failure, wst_idle := reset (wst_idle st)\<rparr>)))))"

definition watch_round :: "watcher \<Rightarrow> round \<Rightarrow> watch_state \<Rightarrow> round_result option" where
  "watch_round w rd st =
     (if ro_cancelled rd then Some (Returned None st)
      else if wst_scopeChecked st then offer_round w rd (st\<lparr>wst_scopeChecked := False\<rparr>)
      else (case refuseWhileWorkTaskExists (ro_working rd) (wst_failure st) of
          None \<Rightarrow> None
        | Some (Some err, failure) \<Rightarrow> Some (Returned (stop_error err) (st\<lparr>wst_failure := failure\<rparr>))
        | Some (None, failure) \<Rightarrow> offer_round w rd (st\<lparr>wst_failure := failure\<rparr>)))"

fun watch_run :: "watcher \<Rightarrow> round list \<Rightarrow> watch_state \<Rightarrow> (cli_error option \<times> watch_state) option" where
  "watch_run w [] st = None"
| "watch_run w (rd # rds) st =
     (case watch_round w rd st of
        None \<Rightarrow> None
      | Some (Returned err st) \<Rightarrow> Some (err, st)
      | Some (Continue st) \<Rightarrow> watch_run w rds st)"

end
