(* ===== verification/WatchRules.thy ===== *)
theory WatchRules
  imports Watch
begin

section \<open>The watcher destroys no work and does not run away\<close>

subsection \<open>Evidence for a discard\<close>

text \<open>A script in which an executor that has been seen finished is not alive later.\<close>

definition dead :: "inspection \<Rightarrow> bool" where
  "dead i \<longleftrightarrow> \<not> in_alive1 i \<and> \<not> in_alive2 i \<and> \<not> in_alive3 i"

fun life_ok :: "inspection list \<Rightarrow> bool" where
  "life_ok [] \<longleftrightarrow> True"
| "life_ok (i # rest) \<longleftrightarrow>
     (in_finished i \<or> in_wait i = WokeFinished \<longrightarrow> list_all dead rest)
     \<and> life_ok rest"

text \<open>An inspection that does not show the run holding or writing to its task, and misses nothing while the executor lives.\<close>

definition shows_nothing :: "string \<Rightarrow> inspection \<Rightarrow> bool" where
  "shows_nothing runID i \<longleftrightarrow>
     (\<forall>task es. in_task i = Inr task \<longrightarrow> in_entries i = Inr es \<longrightarrow> \<not> EqualFold (tv_ExecutionRunID task) runID
        \<and> (\<forall>en \<in> set es. EqualFold (ev_RunID en) runID \<longrightarrow> ev_Kind en \<noteq> ''output'' \<and> ev_Kind en \<noteq> ''comment''))
     \<and> (in_alive1 i \<longrightarrow> (\<exists>task. in_task i = Inr task)) \<and> (in_alive2 i \<longrightarrow> (\<exists>task. in_task i = Inr task) \<longrightarrow> (\<exists>es. in_entries i = Inr es))"

definition complete_alive :: "inspection \<Rightarrow> bool" where
  "complete_alive i \<longleftrightarrow> in_alive3 i \<and> (\<exists>task es. in_task i = Inr task \<and> in_entries i = Inr es)"

definition disposable :: "string \<Rightarrow> bool" where
  "disposable state \<longleftrightarrow> state = outcomeLostRace \<or> state = outcomeNeverClaimed"

lemma not_disposable [simp]:
  "\<not> disposable runStateInterrupted" "\<not> disposable runStateAmbiguous" "\<not> disposable runStateSuccess"
  "\<not> disposable runStateBlocked" "\<not> disposable []"
  by (simp_all add: disposable_def)

lemma finish_run_fields [simp]:
  "sv_state (finish_run g pgid state exited err) = state" "sv_error (finish_run g pgid state exited err) = err"
  by (simp_all add: finish_run_def split: prod.split)

text \<open>What one inspection does to what is remembered.\<close>

lemma inspectRun_error:
  assumes "inspectRun i runID exited s failure = (Inl err, s', failure')"
  shows "everOwned s' = everOwned s" "everWrote s' = everWrote s" "observed s' = observed s" "readFailed s \<longrightarrow> readFailed s'"
    "\<not> (\<exists>task es. in_task i = Inr task \<and> in_entries i = Inr es)"
    "retryableError err \<longrightarrow> \<not> readFailed s' \<longrightarrow> exited \<or>
       ((in_alive1 i \<longrightarrow> (\<exists>task. in_task i = Inr task)) \<and> (in_alive2 i \<longrightarrow> (\<exists>task. in_task i = Inr task) \<longrightarrow> (\<exists>es. in_entries i = Inr es)))"
proof -
  have "(\<exists>e. in_task i = Inl e \<and> err = e \<and> s' = noteReadFailure s (\<not> exited \<and> in_alive1 i) e)
      \<or> (\<exists>t e. in_task i = Inr t \<and> in_entries i = Inl e \<and> err = e \<and> s' = noteReadFailure s (\<not> exited \<and> in_alive2 i) e)"
    using assms by (auto simp: inspectRun_def Let_def split: sum.splits)
  then show "everOwned s' = everOwned s" "everWrote s' = everWrote s" "observed s' = observed s" "readFailed s \<longrightarrow> readFailed s'"
    "\<not> (\<exists>task es. in_task i = Inr task \<and> in_entries i = Inr es)"
    "retryableError err \<longrightarrow> \<not> readFailed s' \<longrightarrow> exited \<or>
       ((in_alive1 i \<longrightarrow> (\<exists>task. in_task i = Inr task)) \<and> (in_alive2 i \<longrightarrow> (\<exists>task. in_task i = Inr task) \<longrightarrow> (\<exists>es. in_entries i = Inr es)))"
    by (auto simp: noteReadFailure_def split: if_splits)
qed

lemma inspectRun_answer:
  assumes "inspectRun i runID exited s failure = (Inr (state, decided), s', failure')"
  obtains task es where "in_task i = Inr task" "in_entries i = Inr es"
    "everOwned s' \<longleftrightarrow> everOwned s \<or> EqualFold (tv_ExecutionRunID task) runID"
    "everWrote s' \<longleftrightarrow> everWrote s \<or> (\<exists>en \<in> set es. EqualFold (ev_RunID en) runID \<and> (ev_Kind en = ''output'' \<or> ev_Kind en = ''comment''))"
    "observed s' \<longleftrightarrow> observed s \<or> \<not> exited \<and> in_alive3 i" "readFailed s' = readFailed s"
    "disposable state \<Longrightarrow> decided \<and> exited \<and> \<not> witnessed s' \<and> observed s' \<and> \<not> readFailed s'
       \<and> (if tv_ExecutionRunID task \<noteq> [] then state = outcomeLostRace else state = outcomeNeverClaimed \<and> tv_Status task = ''queued'')"
proof -
  obtain task es where reads: "in_task i = Inr task" "in_entries i = Inr es"
    using assms by (auto simp: inspectRun_def split: sum.splits)
  define outcome where "outcome = classifyRunEntries es runID \<lparr>ro_HasOutput = False, ro_HasComment = False\<rparr>"
  define s1 where "s1 = s\<lparr>everOwned := everOwned s \<or> EqualFold (tv_ExecutionRunID task) runID,
      everWrote := everWrote s \<or> ro_HasOutput outcome \<or> ro_HasComment outcome\<rparr>"
  define s2 where "s2 = (if \<not> exited \<and> in_alive3 i then s1\<lparr>observed := True\<rparr> else s1)"
  have "inspectRun i runID exited s failure =
      (Inr (if ro_HasOutput outcome \<and> (tv_Status task = ''needs_review'' \<or> tv_Status task = ''done'') then (runStateSuccess, True)
         else if ro_HasComment outcome \<and> tv_Status task = ''working'' then (runStateBlocked, True)
         else if \<not> exited then ([], False)
         else if witnessed s2 then (runStateInterrupted, True)
         else if \<not> observed s2 \<or> readFailed s2 then (runStateAmbiguous, True)
         else if tv_ExecutionRunID task \<noteq> [] then (outcomeLostRace, True)
         else if tv_Status task = ''queued'' then (outcomeNeverClaimed, True)
         else (runStateAmbiguous, True)), s2, reset failure)"
    unfolding inspectRun_def reads sum.case Let_def outcome_def s1_def s2_def ..
  then have s': "s' = s2" and st: "(state, decided) =
        (if ro_HasOutput outcome \<and> (tv_Status task = ''needs_review'' \<or> tv_Status task = ''done'') then (runStateSuccess, True)
         else if ro_HasComment outcome \<and> tv_Status task = ''working'' then (runStateBlocked, True)
         else if \<not> exited then ([], False)
         else if witnessed s2 then (runStateInterrupted, True)
         else if \<not> observed s2 \<or> readFailed s2 then (runStateAmbiguous, True)
         else if tv_ExecutionRunID task \<noteq> [] then (outcomeLostRace, True)
         else if tv_Status task = ''queued'' then (outcomeNeverClaimed, True)
         else (runStateAmbiguous, True))"
    using assms by simp_all
  show thesis
  proof (rule that [OF reads])
    show "everOwned s' \<longleftrightarrow> everOwned s \<or> EqualFold (tv_ExecutionRunID task) runID" by (simp add: s' s1_def s2_def)
    show "everWrote s' \<longleftrightarrow> everWrote s \<or> (\<exists>en \<in> set es. EqualFold (ev_RunID en) runID \<and> (ev_Kind en = ''output'' \<or> ev_Kind en = ''comment''))"
      by (auto simp: s' s1_def s2_def outcome_def classifyRunEntries_iff)
    show "observed s' \<longleftrightarrow> observed s \<or> \<not> exited \<and> in_alive3 i" "readFailed s' = readFailed s" by (simp_all add: s' s1_def s2_def)
    show "decided \<and> exited \<and> \<not> witnessed s' \<and> observed s' \<and> \<not> readFailed s'
       \<and> (if tv_ExecutionRunID task \<noteq> [] then state = outcomeLostRace else state = outcomeNeverClaimed \<and> tv_Status task = ''queued'')"
      if "disposable state"
      using st that unfolding s' by (simp split: if_splits)
  qed
qed

lemma retryDelay_retryable: "retryDelay spread err b = (retry, b') \<Longrightarrow> retry \<noteq> None \<Longrightarrow> retryableError err"
  by (auto simp: retryDelay_def split: if_splits)

text \<open>The inspection that concludes, and everything before it, when the worktree may go.\<close>

definition discard_evidence :: "string \<Rightarrow> runSupervision \<Rightarrow> bool \<Rightarrow> inspection list \<Rightarrow> supervised \<Rightarrow> bool" where
  "discard_evidence runID s exited script sv \<longleftrightarrow> \<not> witnessed s \<and> \<not> readFailed s \<and> sv_error sv = None
     \<and> (\<exists>used final rest task es. script = used @ final # rest \<and> in_task final = Inr task \<and> in_entries final = Inr es
          \<and> (\<forall>i \<in> set (used @ [final]). shows_nothing runID i)
          \<and> (observed s \<or> (\<exists>i \<in> set used. complete_alive i))
          \<and> (exited \<or> (\<exists>i \<in> set used. in_finished i \<or> in_wait i = WokeFinished))
          \<and> (if tv_ExecutionRunID task \<noteq> [] then sv_state sv = outcomeLostRace
             else sv_state sv = outcomeNeverClaimed \<and> tv_Status task = ''queued''))"

lemma discard_evidence_step:
  assumes "discard_evidence runID s' exited' rest sv" "shows_nothing runID i"
    and "witnessed s \<longrightarrow> witnessed s'" "readFailed s \<longrightarrow> readFailed s'"
    and "observed s' \<longrightarrow> observed s \<or> complete_alive i"
    and "exited' \<longrightarrow> exited \<or> in_finished i \<or> in_wait i = WokeFinished"
  shows "discard_evidence runID s exited (i # rest) sv"
proof -
  obtain used final rest' task es where *: "rest = used @ final # rest'" "in_task final = Inr task" "in_entries final = Inr es"
      "\<forall>j \<in> set (used @ [final]). shows_nothing runID j" "observed s' \<or> (\<exists>j \<in> set used. complete_alive j)"
      "exited' \<or> (\<exists>j \<in> set used. in_finished j \<or> in_wait j = WokeFinished)"
      "if tv_ExecutionRunID task \<noteq> [] then sv_state sv = outcomeLostRace
       else sv_state sv = outcomeNeverClaimed \<and> tv_Status task = ''queued''"
    and **: "\<not> witnessed s'" "\<not> readFailed s'" "sv_error sv = None"
    using assms(1) unfolding discard_evidence_def by (elim conjE exE) (rule that)
  have "i # rest = (i # used) @ final # rest'" using *(1) by simp
  moreover have "\<forall>j \<in> set ((i # used) @ [final]). shows_nothing runID j" using *(4) assms(2) by simp
  moreover have "observed s \<or> (\<exists>j \<in> set (i # used). complete_alive j)" using *(5) assms(5) by auto
  moreover have "exited \<or> (\<exists>j \<in> set (i # used). in_finished j \<or> in_wait j = WokeFinished)" using *(6) assms(6) by auto
  moreover have "\<not> witnessed s" "\<not> readFailed s" using ** assms(3,4) by blast+
  ultimately show ?thesis unfolding discard_evidence_def using *(2,3,7) **(3) by blast
qed

lemma superviseRun_evidence:
  assumes "superviseRun g runID pgid script s exited n failure = Some (sv, failure')" "disposable (sv_state sv)"
    and "life_ok script" "exited \<longrightarrow> list_all dead script"
  shows "discard_evidence runID s exited script sv"
  using assms
proof (induction script arbitrary: s exited n failure)
  case (Cons i rest)
  obtain answer s1 f1 where ins: "inspectRun i runID exited s failure = (answer, s1, f1)" by (cases "inspectRun i runID exited s failure") auto
  show ?case
  proof (cases answer)
    case (Inl err)
    obtain retry f2 where rd: "retryDelay (in_spread i) err f1 = (retry, f2)" by (cases "retryDelay (in_spread i) err f1")
    note e = inspectRun_error [OF ins [unfolded Inl]]
    have run: "\<not> in_cancelled i" "retry \<noteq> None"
      "\<exists>n'. superviseRun g runID pgid rest s1 (exited \<or> in_finished i) n' f2 = Some (sv, failure')"
      using Cons.prems(1,2) ins rd Inl by (auto simp: Let_def split: if_splits)
    have "exited \<or> in_finished i \<longrightarrow> list_all dead rest"
      using Cons.prems(3,4) by auto
    then have ih: "discard_evidence runID s1 (exited \<or> in_finished i) rest sv"
      using run(3) Cons.IH Cons.prems(2,3) by auto
    then have "\<not> readFailed s1" by (simp add: discard_evidence_def)
    then have "shows_nothing runID i"
      using e(5,6) retryDelay_retryable [OF rd run(2)] Cons.prems(4) by (auto simp: shows_nothing_def dead_def)
    then show ?thesis using e(1-4) by (intro discard_evidence_step [OF ih]) (auto simp: witnessed_def)
  next
    case (Inr r)
    obtain state decided where r: "r = (state, decided)" by (cases r)
    obtain task es where a: "in_task i = Inr task" "in_entries i = Inr es"
      "everOwned s1 \<longleftrightarrow> everOwned s \<or> EqualFold (tv_ExecutionRunID task) runID"
      "everWrote s1 \<longleftrightarrow> everWrote s \<or> (\<exists>en \<in> set es. EqualFold (ev_RunID en) runID \<and> (ev_Kind en = ''output'' \<or> ev_Kind en = ''comment''))"
      "observed s1 \<longleftrightarrow> observed s \<or> \<not> exited \<and> in_alive3 i" "readFailed s1 = readFailed s"
      "disposable state \<Longrightarrow> decided \<and> exited \<and> \<not> witnessed s1 \<and> observed s1 \<and> \<not> readFailed s1
         \<and> (if tv_ExecutionRunID task \<noteq> [] then state = outcomeLostRace else state = outcomeNeverClaimed \<and> tv_Status task = ''queued'')"
      by (rule inspectRun_answer [OF ins [unfolded Inr r]]) (rule that)
    have unseen: "shows_nothing runID i" if "\<not> witnessed s1"
      using that a(1-4) by (auto simp: shows_nothing_def witnessed_def)
    show ?thesis
    proof (cases decided)
      case True
      then have sv: "sv_state sv = state" "sv_error sv = None" using Cons.prems(1) ins Inr r by auto
      note d = a(7) [OF Cons.prems(2) [unfolded sv]]
      have "\<not> witnessed s \<and> \<not> readFailed s" using d a(3,4,6) by (auto simp: witnessed_def)
      moreover have "observed s" using d a(5) by blast
      moreover have "shows_nothing runID i" by (rule unseen) (use d in simp)
      ultimately show ?thesis unfolding discard_evidence_def using d a(1,2) sv
        by (intro conjI exI [of _ "[]"] exI [of _ i] exI [of _ rest] exI [of _ task] exI [of _ es]) simp_all
    next
      case False
      then have "\<not> exited" and w: "in_wait i \<noteq> WokeCancelled"
        and run: "superviseRun g runID pgid rest s1 (in_wait i = WokeFinished) n f1 = Some (sv, failure')"
        using Cons.prems(1,2) ins Inr r by (auto split: if_splits wake.splits)
      have "in_wait i = WokeFinished \<longrightarrow> list_all dead rest" using Cons.prems(3) by auto
      then have ih: "discard_evidence runID s1 (in_wait i = WokeFinished) rest sv"
        using Cons.IH [OF run Cons.prems(2)] Cons.prems(3) by simp
      then have "\<not> witnessed s1" by (simp add: discard_evidence_def)
      then show ?thesis using a unseen
        by (intro discard_evidence_step [OF ih]) (auto simp: witnessed_def complete_alive_def)
    qed
  qed
qed simp

lemma no_supervision_observed: "\<not> observed no_supervision"
  by (simp add: no_supervision_def)

text \<open>
  C28: When supervision ends with a verdict under which the worktree is discarded, the evidence
  is complete: the executor has finished; no inspection of the run ever showed it holding the
  task or an output or comment of it; every read that started while it was alive was answered, the
  reads included during which it exited, and at least one full inspection was taken in its life; and the last answer shows the task with another run, or queued.
\<close>

theorem superviseRun_discard_evidence:
  assumes "superviseRun g runID pgid script no_supervision False 0 failure = Some (sv, failure')"
    and "sv_state sv = outcomeLostRace \<or> sv_state sv = outcomeNeverClaimed" and "life_ok script"
  shows "sv_error sv = None \<and> (\<exists>used final rest task es. script = used @ final # rest
      \<and> (\<exists>i \<in> set used. in_finished i \<or> in_wait i = WokeFinished)
      \<and> (\<forall>i \<in> set (used @ [final]).
           (\<forall>task es. in_task i = Inr task \<longrightarrow> in_entries i = Inr es \<longrightarrow> \<not> EqualFold (tv_ExecutionRunID task) runID
              \<and> (\<forall>en \<in> set es. EqualFold (ev_RunID en) runID \<longrightarrow> ev_Kind en \<noteq> ''output'' \<and> ev_Kind en \<noteq> ''comment''))
           \<and> (in_alive1 i \<longrightarrow> (\<exists>task. in_task i = Inr task))
           \<and> (in_alive2 i \<and> (\<exists>task. in_task i = Inr task) \<longrightarrow> (\<exists>es. in_entries i = Inr es)))
      \<and> (\<exists>i \<in> set used. in_alive3 i \<and> (\<exists>task es. in_task i = Inr task \<and> in_entries i = Inr es))
      \<and> in_task final = Inr task \<and> in_entries final = Inr es
      \<and> (if sv_state sv = outcomeLostRace then tv_ExecutionRunID task \<noteq> []
         else tv_ExecutionRunID task = [] \<and> tv_Status task = ''queued''))"
proof -
  have "discard_evidence runID no_supervision False script sv"
    by (rule superviseRun_evidence [OF assms(1) _ assms(3)]) (use assms(2) in \<open>simp_all add: disposable_def\<close>)
  then obtain used final rest task es where *: "script = used @ final # rest" "in_task final = Inr task" "in_entries final = Inr es"
      "\<forall>i \<in> set (used @ [final]). shows_nothing runID i" "\<exists>i \<in> set used. complete_alive i"
      "\<exists>i \<in> set used. in_finished i \<or> in_wait i = WokeFinished"
      "if tv_ExecutionRunID task \<noteq> [] then sv_state sv = outcomeLostRace
       else sv_state sv = outcomeNeverClaimed \<and> tv_Status task = ''queued''" "sv_error sv = None"
    using no_supervision_observed unfolding discard_evidence_def by blast
  have "if sv_state sv = outcomeLostRace then tv_ExecutionRunID task \<noteq> []
      else tv_ExecutionRunID task = [] \<and> tv_Status task = ''queued''" using *(7) by (auto split: if_splits)
  moreover have "(\<forall>task es. in_task i = Inr task \<longrightarrow> in_entries i = Inr es \<longrightarrow> \<not> EqualFold (tv_ExecutionRunID task) runID
              \<and> (\<forall>en \<in> set es. EqualFold (ev_RunID en) runID \<longrightarrow> ev_Kind en \<noteq> ''output'' \<and> ev_Kind en \<noteq> ''comment''))
           \<and> (in_alive1 i \<longrightarrow> (\<exists>task. in_task i = Inr task))
           \<and> (in_alive2 i \<and> (\<exists>task. in_task i = Inr task) \<longrightarrow> (\<exists>es. in_entries i = Inr es))"
    if "i \<in> set (used @ [final])" for i
    using *(4) that unfolding shows_nothing_def by blast
  moreover have "\<exists>i \<in> set used. in_alive3 i \<and> (\<exists>task es. in_task i = Inr task \<and> in_entries i = Inr es)"
    using *(5) unfolding complete_alive_def .
  ultimately show ?thesis using *(1-3,6,8) by (intro conjI exI [of _ used] exI [of _ final] exI [of _ rest] exI [of _ task] exI [of _ es]) auto
qed

text \<open>A run that another one beat: seen alive, then finished, and the task is held by run \<open>b\<close>.\<close>

definition ex_inspection :: "bool \<Rightarrow> wake \<Rightarrow> inspection" where
  "ex_inspection alive wait =
     \<lparr>in_alive1 = alive, in_task = Inr \<lparr>tv_ID = ''t'', tv_Title = ''T'', tv_Status = ''working'', tv_Priority = [], tv_ListName = [], tv_AssigneeAgentID = ''g'',
        tv_ExecutionRunID = ''b''\<rparr>,
      in_alive2 = alive, in_entries = Inr [\<lparr>ev_ID = ''e'', ev_Kind = ''output'', ev_AuthorKind = ''agent'', ev_AuthorID = ''g'', ev_RunID = ''b''\<rparr>], in_alive3 = alive, in_cancelled = False,
      in_finished = False, in_grace = False, in_wait = wait, in_spread = (\<lambda>_. 0)\<rparr>"

definition ex_group :: group_env where
  "ex_group = \<lparr>ge_remnant = False, ge_alive = True, ge_gone_after_term = True, ge_gone_after_kill = True\<rparr>"

definition ex_script :: "inspection list" where
  "ex_script = [ex_inspection True WokeFinished, ex_inspection False WokeTimeout]"

theorem superviseRun_discard_evidence_witness:
  "\<exists>sv failure'. superviseRun ex_group ''a'' 7 ex_script no_supervision False 0 newBackoff = Some (sv, failure')
      \<and> sv_state sv = outcomeLostRace \<and> (\<exists>used final rest. ex_script = used @ final # rest \<and> (\<exists>i \<in> set used. in_alive3 i))"
proof -
  have "case superviseRun ex_group ''a'' 7 ex_script no_supervision False 0 newBackoff of
      Some (sv, _) \<Rightarrow> sv_state sv = outcomeLostRace | None \<Rightarrow> False" by code_simp
  then obtain sv failure' where run: "superviseRun ex_group ''a'' 7 ex_script no_supervision False 0 newBackoff = Some (sv, failure')"
    and sv: "sv_state sv = outcomeLostRace" by (auto split: option.splits)
  have life: "life_ok ex_script" by code_simp
  show ?thesis using superviseRun_discard_evidence [OF run disjI1 [OF sv] life] run sv by blast
qed

subsection \<open>Every worktree has a record\<close>

definition tracked :: "host \<Rightarrow> string \<Rightarrow> bool" where
  "tracked h p \<longleftrightarrow> (\<exists>f \<in> set (ho_runs h). \<exists>r. snd f = Readable r \<and> rc_Worktree r = p)"

text \<open>
  \<open>own h0 path runID h\<close>: since \<open>h0\<close> only the worktree \<open>path\<close> and the record of \<open>runID\<close> have changed.
\<close>

definition own :: "host \<Rightarrow> string \<Rightarrow> string \<Rightarrow> host \<Rightarrow> bool" where
  "own h0 path runID h \<longleftrightarrow> set (ho_runs h0) \<subseteq> set (ho_runs h) \<and> set (ho_paths h0) \<subseteq> set (ho_paths h)
     \<and> set (ho_paths h) \<subseteq> insert path (set (ho_paths h0)) \<and> path \<notin> set (ho_paths h0) \<and> runID \<notin> fst ` set (ho_runs h0)"

lemma save_own:
  assumes "own h0 path (rc_RunID r) h" "save fails now r h = Inr h'"
  shows "own h0 path (rc_RunID r) h'" "tracked h' (rc_Worktree r)" "ho_paths h' = ho_paths h"
    "\<exists>r'. (rc_RunID r, Readable r') \<in> set (ho_runs h') \<and> rc_Worktree r' = rc_Worktree r \<and> rc_TaskID r' = rc_TaskID r"
proof -
  obtain r' where h': "h' = h\<lparr>ho_runs := (rc_RunID r, Readable r') # filter (\<lambda>f. fst f \<noteq> rc_RunID r) (ho_runs h)\<rparr>"
    and r': "rc_Worktree r' = rc_Worktree r" "rc_TaskID r' = rc_TaskID r"
    using assms(2) by (auto simp: save_def Let_def split: option.splits if_splits)
  have "fst f \<noteq> rc_RunID r" if "f \<in> set (ho_runs h0)" for f using assms(1) imageI [OF that, of fst] by (metis own_def)
  then show "own h0 path (rc_RunID r) h'" using assms(1) by (auto simp: own_def h')
  show "tracked h' (rc_Worktree r)" using r' by (auto simp: tracked_def h')
  show "ho_paths h' = ho_paths h" by (simp add: h')
  show "\<exists>r'. (rc_RunID r, Readable r') \<in> set (ho_runs h') \<and> rc_Worktree r' = rc_Worktree r \<and> rc_TaskID r' = rc_TaskID r"
    using r' by (auto simp: h')
qed

lemma try_save_own:
  assumes "own h0 (rc_Worktree r) (rc_RunID r) h" "tracked h (rc_Worktree r)"
  shows "own h0 (rc_Worktree r) (rc_RunID r) (try_save fails now r h) \<and> tracked (try_save fails now r h) (rc_Worktree r)
    \<and> ho_paths (try_save fails now r h) = ho_paths h"
proof (cases "save fails now r h")
  case (Inl e)
  then show ?thesis using assms by (simp add: try_save_def)
next
  case (Inr h')
  then show ?thesis using save_own [OF assms(1) Inr] by (simp add: try_save_def)
qed

lemma remove_own:
  assumes "own h0 path runID h" "remove fails runID h = Inr h'"
  shows "own h0 path runID h' \<and> ho_paths h' = ho_paths h"
proof -
  have "fst f \<noteq> runID" if "f \<in> set (ho_runs h0)" for f using assms(1) imageI [OF that, of fst] by (metis own_def)
  moreover have "h' = h\<lparr>ho_runs := filter (\<lambda>f. fst f \<noteq> runID) (ho_runs h)\<rparr>" using assms(2) by (simp add: remove_def split: option.splits)
  ultimately show ?thesis using assms(1) by (auto simp: own_def)
qed

lemma discard_own:
  assumes "own h0 path runID h" "discardRunWorktree d path branch h = (problem, h')"
  shows "own h0 path runID h'" "ho_runs h' = ho_runs h" "path \<noteq> [] \<Longrightarrow> problem = None \<Longrightarrow> path \<notin> set (ho_paths h')"
  using assms
  by (auto simp: discardRunWorktree_def discardRunWorktreeLocked_def own_def Let_def split: option.splits if_splits)

lemma tracked_cong: "ho_runs h' = ho_runs h \<Longrightarrow> tracked h' p = tracked h p"
  by (simp add: tracked_def)

definition settled :: "host \<Rightarrow> runRecord \<Rightarrow> host \<Rightarrow> bool" where
  "settled h0 r h \<longleftrightarrow> own h0 (rc_Worktree r) (rc_RunID r) h
     \<and> (rc_Worktree r \<in> set (ho_paths h) \<longrightarrow> tracked h (rc_Worktree r))"

lemma settled_I:
  "own h0 (rc_Worktree r) (rc_RunID r) h \<Longrightarrow> tracked h (rc_Worktree r) \<Longrightarrow> settled h0 r h"
  "own h0 (rc_Worktree r) (rc_RunID r) h \<Longrightarrow> rc_Worktree r \<notin> set (ho_paths h) \<Longrightarrow> settled h0 r h"
  by (simp_all add: settled_def)

text \<open>The release of a worktree, whichever way it goes, leaves it gone or recorded.\<close>

lemma release_settled:
  assumes "own h0 (rc_Worktree r) (rc_RunID r) h" "tracked h (rc_Worktree r)" "rc_Worktree r \<noteq> []"
    and "discardRunWorktree d (rc_Worktree r) (rc_Branch r) h = (problem, h1)"
  shows "problem = None \<Longrightarrow> remove fails (rc_RunID r) h1 = Inr h2 \<Longrightarrow> settled h0 r h2"
    and "problem = None \<Longrightarrow> settled h0 r h1"
    and "rc_Worktree r' = rc_Worktree r \<Longrightarrow> rc_RunID r' = rc_RunID r \<Longrightarrow> settled h0 r (try_save fails now r' h1)"
proof -
  note d = discard_own [OF assms(1,4)]
  show "settled h0 r h1" if "problem = None" using d(1) d(3) [OF assms(3) that] by (intro settled_I(2))
  show "settled h0 r h2" if "problem = None" "remove fails (rc_RunID r) h1 = Inr h2"
    using remove_own [OF d(1) that(2)] d(3) [OF assms(3) that(1)] by (intro settled_I(2)) simp_all
  show "settled h0 r (try_save fails now r' h1)" if "rc_Worktree r' = rc_Worktree r" "rc_RunID r' = rc_RunID r"
  proof -
    have "own h0 (rc_Worktree r') (rc_RunID r') h1" "tracked h1 (rc_Worktree r')"
      using d(1) assms(2) tracked_cong [OF d(2)] that by simp_all
    then show ?thesis using try_save_own [of h0 r' h1 fails now] that by (intro settled_I(1)) simp_all
  qed
qed

lemma release_unstarted_settled:
  assumes "own h0 (rc_Worktree r) (rc_RunID r) h" "tracked h (rc_Worktree r)" "rc_Worktree r \<noteq> []"
    and "release_unstarted a r lost released h = (state, err, h')"
  shows "settled h0 r h' \<and> (state = [] \<or> state = runStateAmbiguous)"
proof -
  obtain problem h1 where d: "discardRunWorktree (at_discard1 a) (rc_Worktree r) (rc_Branch r) h = (problem, h1)"
    by (cases "discardRunWorktree (at_discard1 a) (rc_Worktree r) (rc_Branch r) h")
  note s = release_settled [OF assms(1-3) d]
  show ?thesis
  proof (cases problem)
    case (Some e)
    then show ?thesis using assms(4) d s(3) [of "r\<lparr>rc_State := runStateAmbiguous\<rparr>"] by (auto simp: release_unstarted_def)
  next
    case None
    then show ?thesis using assms(4) d s(1,2) by (auto simp: release_unstarted_def split: sum.splits)
  qed
qed

text \<open>A result that a person has to see: its worktree stays, with a record of the task.\<close>

definition kept_result :: "host \<Rightarrow> runRecord \<Rightarrow> host \<Rightarrow> bool" where
  "kept_result h0 r h \<longleftrightarrow> rc_Worktree r \<in> set (ho_paths h) \<and> rc_Worktree r \<notin> set (ho_paths h0) \<and> tracked h (rc_Worktree r)"

definition reported :: "string \<Rightarrow> bool" where
  "reported state \<longleftrightarrow> state = runStateSuccess \<or> state = runStateBlocked \<or> state = runStateInterrupted"

lemma finish_attempt_settled:
  assumes "own h0 (rc_Worktree r) (rc_RunID r) h" "tracked h (rc_Worktree r)" "rc_Worktree r \<noteq> []"
    and "rc_Worktree r \<in> set (ho_paths h)" and "finish_attempt a r sv h = (state, err, h')"
  shows "settled h0 r h' \<and> (reported state \<longrightarrow> kept_result h0 r h')"
proof -
  define r1 where "r1 = (let r = r\<lparr>rc_State := sv_state sv\<rparr> in if sv_cleared sv then r\<lparr>rc_ChildPID := 0, rc_ProcessGroupID := 0\<rparr> else r)"
  have r1: "rc_Worktree r1 = rc_Worktree r" "rc_RunID r1 = rc_RunID r" "rc_Branch r1 = rc_Branch r" by (simp_all add: r1_def Let_def)
  have own: "own h0 (rc_Worktree r1) (rc_RunID r1) h" and tr: "tracked h (rc_Worktree r1)" using assms(1,2) by (simp_all add: r1)
  let ?dispose = "sv_error sv = None \<and> sv_cleared sv \<and> (sv_state sv = outcomeLostRace \<or> sv_state sv = outcomeNeverClaimed)"
  show ?thesis
  proof (cases ?dispose)
    case False
    then have h': "h' = try_save (at_save_last a) (at_now a 3) r1 h"
      using assms(5) unfolding finish_attempt_def Let_def r1_def by (auto split: if_splits)
    note t = try_save_own [OF own tr, of "at_save_last a" "at_now a 3", folded h', unfolded r1]
    then have "settled h0 r h'" by (intro settled_I(1)) simp_all
    moreover have "rc_Worktree r \<notin> set (ho_paths h0)" using assms(1) by (simp add: own_def)
    ultimately show ?thesis using t assms(4) by (simp add: kept_result_def)
  next
    case True
    obtain problem h1 where d: "discardRunWorktree (at_discard1 a) (rc_Worktree r) (rc_Branch r) h = (problem, h1)"
      by (cases "discardRunWorktree (at_discard1 a) (rc_Worktree r) (rc_Branch r) h")
    note s = release_settled [OF assms(1-3) d]
    have res: "(state, err, h') = (case problem of
         Some _ \<Rightarrow> (runStateAmbiguous, None, try_save (at_save2 a) (at_now a 1) (r1\<lparr>rc_State := runStateAmbiguous\<rparr>) h1)
       | None \<Rightarrow> (case remove (at_remove a) (rc_RunID r) h1 of
                Inl _ \<Rightarrow> (sv_state sv, Some RunRecordRemoval, h1) | Inr h \<Rightarrow> (sv_state sv, None, h)))"
      using assms(5) True d unfolding finish_attempt_def Let_def r1_def by (auto split: option.splits)
    have "\<not> reported (sv_state sv)" using True by (auto simp: reported_def)
    then have "\<not> reported state" using res by (auto simp: reported_def split: option.splits sum.splits)
    moreover have "settled h0 r h'"
    proof (cases problem)
      case (Some e)
      then show ?thesis using res s(3) [of "r1\<lparr>rc_State := runStateAmbiguous\<rparr>"] r1 by auto
    next
      case None
      then show ?thesis using res s(1,2) by (auto split: sum.splits)
    qed
    ultimately show ?thesis by simp
  qed
qed

lemma run_started_settled:
  assumes "own h0 (rc_Worktree r) (rc_RunID r) h" "tracked h (rc_Worktree r)" "rc_Worktree r \<noteq> []"
    and "rc_Worktree r \<in> set (ho_paths h)" and "run_started a r pid failure h = Some (state, err, h', failure')"
  shows "settled h0 r h' \<and> (reported state \<longrightarrow> kept_result h0 r h')"
proof -
  let ?r = "r\<lparr>rc_State := runStateWorking, rc_ChildPID := pid, rc_ProcessGroupID := pid\<rparr>"
  show ?thesis
  proof (cases "save (at_save_working a) (at_now a 2) ?r h")
    case (Inl e)
    then have "h' = h" "state = runStateAmbiguous" using assms(5) by (auto simp: run_started_def Let_def)
    then show ?thesis using settled_I(1) [OF assms(1,2)] by (simp add: reported_def)
  next
    case (Inr h1)
    have own: "own h0 (rc_Worktree ?r) (rc_RunID ?r) h" using assms(1) by simp
    note s = save_own [OF own Inr]
    obtain sv where f: "finish_attempt a ?r sv h1 = (state, err, h')"
      using assms(5) Inr by (auto simp: run_started_def Let_def split: option.splits prod.splits)
    have "settled h0 ?r h' \<and> (reported state \<longrightarrow> kept_result h0 ?r h')"
      by (rule finish_attempt_settled [OF s(1,2) _ _ f]) (use assms(3,4) s(3) in simp_all)
    then show ?thesis by (simp add: settled_def kept_result_def)
  qed
qed

lemma discardLocked_parts:
  assumes "discardRunWorktreeLocked d path branch h = (problem, h')"
  shows "ho_runs h' = ho_runs h" "set (ho_paths h) - {path} \<subseteq> set (ho_paths h')" "set (ho_paths h') \<subseteq> set (ho_paths h)"
    "path \<noteq> [] \<Longrightarrow> de_remove d \<or> de_remove_all d \<Longrightarrow> path \<notin> set (ho_paths h')"
  using assms by (auto simp: discardRunWorktreeLocked_def Let_def split: if_splits)

lemma createRunWorktree_cases:
  assumes "createRunWorktree w taskID runID h = (res, h1)"
  shows "(\<exists>err. res = Inl err \<and> h1 = h)
    \<or> (\<exists>path branch. res = Inr (path, branch) \<and> path \<noteq> [] \<and> path \<notin> set (ho_paths h) \<and> ho_runs h1 = ho_runs h \<and> ho_paths h1 = path # ho_paths h)
    \<or> (\<exists>err path branch lp lb h2 problem. res = Inl err \<and> path \<noteq> [] \<and> path \<notin> set (ho_paths h) \<and> we_add w = Some (lp, lb)
        \<and> ho_runs h2 = ho_runs h \<and> ho_paths h2 = (if lp then path # ho_paths h else ho_paths h)
        \<and> discardRunWorktreeLocked (we_discard w) path branch h2 = (problem, h1))"
proof (cases "we_base w")
  case Inr1: (Inr base)
  let ?path = "base @ CHR ''/'' # runID" and ?branch = "runBranchName taskID runID"
  show ?thesis
  proof (cases "we_mkdir w = None \<and> ?path \<notin> set (ho_paths h) \<and> we_stat w = None \<and> we_lock w = None
      \<and> \<not> (we_list w \<and> ?branch \<in> set (ho_branches h))")
    case False
    then show ?thesis using assms Inr1 by (auto simp: createRunWorktree_def Let_def split: option.splits if_splits)
  next
    case True
    show ?thesis
    proof (cases "we_add w")
      case None
      then show ?thesis using assms Inr1 True by (auto simp: createRunWorktree_def Let_def)
    next
      case (Some lplb)
      obtain lp lb where l: "lplb = (lp, lb)" by (cases lplb)
      let ?h2 = "h\<lparr>ho_paths := (if lp then ?path # ho_paths h else ho_paths h),
                     ho_branches := (if lb then ?branch # ho_branches h else ho_branches h)\<rparr>"
      obtain problem h3 where d: "discardRunWorktreeLocked (we_discard w) ?path ?branch ?h2 = (problem, h3)"
        by (cases "discardRunWorktreeLocked (we_discard w) ?path ?branch ?h2")
      have "res = Inl (OtherError ''git worktree add'')" "h3 = h1"
        using assms Inr1 True Some l d by (simp_all add: createRunWorktree_def Let_def)
      moreover have "ho_runs ?h2 = ho_runs h" "ho_paths ?h2 = (if lp then ?path # ho_paths h else ho_paths h)" by simp_all
      ultimately show ?thesis using True Some l d by blast
    qed
  qed
qed (use assms in \<open>auto simp: createRunWorktree_def\<close>)

lemma createRunWorktree_parts:
  assumes "createRunWorktree w taskID runID h = (res, h1)" "runID \<notin> fst ` set (ho_runs h)"
  shows "ho_runs h1 = ho_runs h"
    and "\<And>path branch. res = Inr (path, branch) \<Longrightarrow> path \<noteq> [] \<and> own h path runID h1 \<and> path \<in> set (ho_paths h1)"
    and "\<And>err. res = Inl err \<Longrightarrow> set (ho_paths h) \<subseteq> set (ho_paths h1) \<and>
      (set (ho_paths h1) = set (ho_paths h) \<or> (\<exists>lb. we_add w = Some (True, lb) \<and> \<not> de_remove (we_discard w) \<and> \<not> de_remove_all (we_discard w)))"
proof -
  note c = createRunWorktree_cases [OF assms(1)]
  show "ho_runs h1 = ho_runs h" using c by (auto dest: discardLocked_parts(1))
  show "path \<noteq> [] \<and> own h path runID h1 \<and> path \<in> set (ho_paths h1)" if "res = Inr (path, branch)" for path branch
    using c that assms(2) by (auto simp: own_def)
  show "set (ho_paths h) \<subseteq> set (ho_paths h1) \<and>
      (set (ho_paths h1) = set (ho_paths h) \<or> (\<exists>lb. we_add w = Some (True, lb) \<and> \<not> de_remove (we_discard w) \<and> \<not> de_remove_all (we_discard w)))"
    if res: "res = Inl err" for err
  proof (cases "h1 = h")
    case False
    then obtain path branch lp lb h2 problem where l: "path \<noteq> []" "path \<notin> set (ho_paths h)" "we_add w = Some (lp, lb)"
      "ho_paths h2 = (if lp then path # ho_paths h else ho_paths h)"
      and d: "discardRunWorktreeLocked (we_discard w) path branch h2 = (problem, h1)"
      using c res by auto
    have p: "set (ho_paths h2) = (if lp then insert path (set (ho_paths h)) else set (ho_paths h))" by (simp add: l(4))
    have sub: "set (ho_paths h) \<subseteq> set (ho_paths h1)" "set (ho_paths h1) \<subseteq> insert path (set (ho_paths h))"
      using discardLocked_parts(2,3) [OF d] p l(2) by (auto split: if_splits)
    show ?thesis
    proof (cases "path \<in> set (ho_paths h1)")
      case False
      then have "set (ho_paths h1) = set (ho_paths h)" using sub by blast
      then show ?thesis by simp
    next
      case True
      then have lp: lp using discardLocked_parts(3) [OF d] p l(2) by (auto split: if_splits)
      have "\<not> (de_remove (we_discard w) \<or> de_remove_all (we_discard w))" using discardLocked_parts(4) [OF d l(1)] True by blast
      then show ?thesis using sub(1) l(3) lp by simp
    qed
  qed simp
qed

lemma settled_all:
  assumes "settled h0 r h" "\<forall>p \<in> set (ho_paths h0). tracked h0 p"
  shows "set (ho_paths h0) \<subseteq> set (ho_paths h)" "set (ho_runs h0) \<subseteq> set (ho_runs h)" "\<forall>p \<in> set (ho_paths h). tracked h p"
proof -
  show "set (ho_paths h0) \<subseteq> set (ho_paths h)" "set (ho_runs h0) \<subseteq> set (ho_runs h)" using assms(1) by (simp_all add: settled_def own_def)
  then have "tracked h p" if "tracked h0 p" for p using that by (auto simp: tracked_def)
  then show "\<forall>p \<in> set (ho_paths h). tracked h p" using assms by (auto simp: settled_def own_def)
qed

text \<open>The executor is started, or the run released, once the record is written.\<close>

lemma attempt_recorded:
  assumes run: "attempt w a candidate failure h = Some (state, err, h', failure')"
    and id: "at_runID a = Inr runID" and create: "createRunWorktree (at_create a) (tv_ID candidate) runID h = (Inr (worktree, branch), h1)"
    and save: "save (at_save1 a) (at_now a 0) (run_record w (tv_ID candidate) runID worktree branch) h1 = Inr h2"
  shows "(\<exists>lost released. release_unstarted a (run_record w (tv_ID candidate) runID worktree branch) lost released h2 = (state, err, h'))
    \<or> (\<exists>pid. run_started a (run_record w (tv_ID candidate) runID worktree branch) pid failure h2 = Some (state, err, h', failure'))"
proof -
  note run' = run [unfolded attempt_def id sum.case create prod.case Let_def save]
  show ?thesis
  proof (cases "\<exists>n. retainedCount (at_count a) (wa_profileName w) h2 = Inr n \<and> n > maxRetainedRuns")
    case True
    then show ?thesis using run' by (auto split: prod.splits)
  next
    case False
    then have "(case at_start a of
         Inl err \<Rightarrow> (case release_unstarted a (run_record w (tv_ID candidate) runID worktree branch) (\<lambda>_. err) err h2 of
                      (state, e, h) \<Rightarrow> Some (state, e, h, failure))
       | Inr pid \<Rightarrow> run_started a (run_record w (tv_ID candidate) runID worktree branch) pid failure h2) = Some (state, err, h', failure')"
      using run' by (cases "retainedCount (at_count a) (wa_profileName w) h2") auto
    then show ?thesis by (auto split: sum.splits prod.splits)
  qed
qed

text \<open>
  C29: An attempt touches no worktree and no record but its own. Afterwards every worktree on the
  machine still has a registry record, unless the attempt reports that its run could be neither
  cleaned nor recorded, or \<open>git worktree add\<close> failed and its leftover could not be removed. A
  run that ends in success, blocked or interrupted keeps its new worktree, with a record.
\<close>

theorem attempt_tracks_worktrees:
  assumes run: "attempt w a candidate failure h = Some (state, err, h', failure')"
    and fresh: "\<And>runID. at_runID a = Inr runID \<Longrightarrow> runID \<notin> fst ` set (ho_runs h)"
    and before: "\<forall>p \<in> set (ho_paths h). tracked h p"
  shows "set (ho_paths h) \<subseteq> set (ho_paths h') \<and> set (ho_runs h) \<subseteq> set (ho_runs h')
      \<and> ((\<forall>p \<in> set (ho_paths h'). tracked h' p) \<or> err = Some UndiscoverableRun
         \<or> (\<exists>lb. we_add (at_create a) = Some (True, lb) \<and> \<not> de_remove (we_discard (at_create a)) \<and> \<not> de_remove_all (we_discard (at_create a))))
      \<and> (state = runStateSuccess \<or> state = runStateBlocked \<or> state = runStateInterrupted \<longrightarrow>
           (\<exists>p \<in> set (ho_paths h') - set (ho_paths h). tracked h' p))"
proof (cases "at_runID a")
  case (Inl e)
  then have "h' = h" "state = []" using run by (simp_all add: attempt_def)
  then show ?thesis using before by simp
next
  case (Inr runID)
  note fresh = fresh [OF Inr]
  obtain res h1 where create: "createRunWorktree (at_create a) (tv_ID candidate) runID h = (res, h1)"
    by (cases "createRunWorktree (at_create a) (tv_ID candidate) runID h")
  note c = createRunWorktree_parts [OF create fresh]
  show ?thesis
  proof (cases res)
    case Inl2: (Inl e)
    then have h': "h' = h1" "state = []" using run Inr create by (simp_all add: attempt_def)
    show ?thesis using c(1) c(3) [OF Inl2] before tracked_cong [OF c(1)] unfolding h' by auto
  next
    case Inr2: (Inr pb)
    obtain worktree branch where pb: "pb = (worktree, branch)" by (cases pb)
    define r where "r = run_record w (tv_ID candidate) runID worktree branch"
    have r: "rc_Worktree r = worktree" "rc_RunID r = runID" "rc_Branch r = branch" by (simp_all add: r_def run_record_def)
    note c2 = c(2) [OF Inr2 [unfolded pb]]
    have own: "own h (rc_Worktree r) (rc_RunID r) h1" and ne: "rc_Worktree r \<noteq> []" and on: "rc_Worktree r \<in> set (ho_paths h1)"
      using c2 by (simp_all add: r)
    show ?thesis
    proof (cases "save (at_save1 a) (at_now a 0) r h1")
      case Inr3: (Inr h2)
      note s = save_own [OF own Inr3]
      have "settled h r h' \<and> (reported state \<longrightarrow> kept_result h r h')"
        using attempt_recorded [OF run Inr create [unfolded Inr2 pb] Inr3 [unfolded r_def], folded r_def]
      proof (elim disjE exE)
        fix lost released assume "release_unstarted a r lost released h2 = (state, err, h')"
        note release_unstarted_settled [OF s(1,2) ne this]
        then show ?thesis by (auto simp: reported_def)
      next
        fix pid assume "run_started a r pid failure h2 = Some (state, err, h', failure')"
        moreover have "rc_Worktree r \<in> set (ho_paths h2)" using on s(3) by simp
        ultimately show ?thesis by (intro run_started_settled [OF s(1,2) ne])
      qed
      then have set: "settled h r h'" and rep: "reported state \<longrightarrow> kept_result h r h'" by simp_all
      have "\<exists>p \<in> set (ho_paths h') - set (ho_paths h). tracked h' p" if "reported state"
        using rep that by (auto simp: kept_result_def)
      then show ?thesis using settled_all [OF set before] by (simp add: reported_def)
    next
      case Inl3: (Inl e)
      obtain problem h2 where d: "discardRunWorktree (at_discard1 a) worktree branch h1 = (problem, h2)"
        by (cases "discardRunWorktree (at_discard1 a) worktree branch h1")
      note dis = discard_own [OF own [unfolded r(1)] d]
      note run' = run [unfolded attempt_def Inr sum.case create Inr2 pb prod.case Let_def Inl3 [unfolded r_def] d]
      show ?thesis
      proof (cases problem)
        case None
        then have h': "h' = h2" "state = []" using run' by simp_all
        have "settled h r h2" using dis None ne by (intro settled_I(2)) (simp_all add: r)
        from settled_all [OF this before] show ?thesis unfolding h' by simp
      next
        case (Some x)
        show ?thesis
        proof (cases "save (at_save2 a) (at_now a 1) (r\<lparr>rc_State := runStateAmbiguous\<rparr>) h2")
          case Inl4: (Inl y)
          then have "h' = h2" "state = runStateAmbiguous" "err = Some UndiscoverableRun"
            using run' Some by (simp_all flip: r_def)
          then show ?thesis using dis(1) by (simp add: own_def)
        next
          case Inr4: (Inr h3)
          then have h': "h' = h3" "state = runStateAmbiguous" using run' Some by (simp_all flip: r_def)
          have "own h (rc_Worktree (r\<lparr>rc_State := runStateAmbiguous\<rparr>)) (rc_RunID (r\<lparr>rc_State := runStateAmbiguous\<rparr>)) h2"
            using dis(1) by (simp add: r)
          from save_own [OF this Inr4] have "settled h r h3" by (intro settled_I(1)) simp_all
          from settled_all [OF this before] show ?thesis unfolding h' by simp
        qed
      qed
    qed
  qed
qed

text \<open>A run that delivers its output and leaves, on a machine with one older worktree.\<close>

definition ex_delivered :: inspection where
  "ex_delivered = (ex_inspection True WokeTimeout)\<lparr>
     in_task := Inr \<lparr>tv_ID = ''t'', tv_Title = ''T'', tv_Status = ''needs_review'', tv_Priority = [], tv_ListName = [], tv_AssigneeAgentID = ''g'',
        tv_ExecutionRunID = ''a''\<rparr>,
     in_entries := Inr [\<lparr>ev_ID = ''e'', ev_Kind = ''output'', ev_AuthorKind = ''agent'', ev_AuthorID = ''g'', ev_RunID = ''a''\<rparr>], in_grace := True\<rparr>"

definition ex_discard :: discard_env where
  "ex_discard = \<lparr>de_lock = None, de_remove = True, de_remove_all = True, de_branch = True\<rparr>"

definition ex_attempt :: attempt_env where
  "ex_attempt =
     \<lparr>at_runID = Inr ''a'',
      at_create = \<lparr>we_base = Inr ''w'', we_mkdir = None, we_stat = None, we_lock = None, we_list = True, we_add = None, we_discard = ex_discard\<rparr>,
      at_now = (\<lambda>k. 1), at_save1 = None, at_discard1 = ex_discard, at_save2 = None, at_count = None, at_remove = None,
      at_start = Inr 7, at_save_working = None, at_group = ex_group, at_inspections = [ex_delivered], at_save_last = None\<rparr>"

definition ex_watcher :: watcher where
  "ex_watcher = \<lparr>wa_profileName = ''p'', wa_profile = \<lparr>pr_AgentID = ''g'', pr_TokenEnv = ''T'', pr_Command = [''run'']\<rparr>,
     wa_identity = \<lparr>id_Authenticated = True, id_ID = ''u'', id_AgentID = ''g'', id_AgentPurpose = [], id_DisplayName = ''G'', id_ManagedRuns = True\<rparr>,
     wa_listID = [], wa_source = \<lparr>so_Root = ''r'', so_Branch = ''main'', so_Commit = ''c''\<rparr>, wa_slateBinary = ''/bin/slate'',
     wa_executorPath = ''/bin/run'', wa_token = ''t'', wa_baseURL = ''https://slate.do'', wa_pid = 3\<rparr>"

definition ex_host :: host where
  "ex_host = \<lparr>ho_paths = [''w/z''], ho_branches = [],
     ho_runs = [(''z'', Readable ((run_record ex_watcher ''t0'' ''z'' ''w/z'' ''b'')\<lparr>rc_State := runStateSuccess\<rparr>))]\<rparr>"

definition ex_candidate :: taskView where
  "ex_candidate = \<lparr>tv_ID = ''t'', tv_Title = ''T'', tv_Status = ''queued'', tv_Priority = [], tv_ListName = [], tv_AssigneeAgentID = ''g'',
        tv_ExecutionRunID = []\<rparr>"

lemma ex_host_tracked: "\<forall>p \<in> set (ho_paths ex_host). tracked ex_host p"
  by (simp add: ex_host_def tracked_def run_record_def)

theorem attempt_tracks_worktrees_witness:
  "\<exists>h' failure'. attempt ex_watcher ex_attempt ex_candidate newBackoff ex_host = Some (runStateSuccess, None, h', failure')
      \<and> (\<forall>p \<in> set (ho_paths h'). tracked h' p) \<and> (\<exists>p \<in> set (ho_paths h') - set (ho_paths ex_host). tracked h' p)"
proof -
  have "case attempt ex_watcher ex_attempt ex_candidate newBackoff ex_host of
      Some (state, err, _, _) \<Rightarrow> state = runStateSuccess \<and> err = None | None \<Rightarrow> False" by code_simp
  then obtain h' failure' where run: "attempt ex_watcher ex_attempt ex_candidate newBackoff ex_host = Some (runStateSuccess, None, h', failure')"
    by (auto split: option.splits)
  have fresh: "runID \<notin> fst ` set (ho_runs ex_host)" if "at_runID ex_attempt = Inr runID" for runID
    using that by (auto simp: ex_attempt_def ex_host_def)
  have add: "we_add (at_create ex_attempt) = None" by (simp add: ex_attempt_def)
  note t = attempt_tracks_worktrees [OF run fresh ex_host_tracked]
  have "\<forall>p \<in> set (ho_paths h'). tracked h' p" using t add by simp
  moreover have "\<exists>p \<in> set (ho_paths h') - set (ho_paths ex_host). tracked h' p" using t by blast
  ultimately show ?thesis using run by blast
qed

text \<open>
  The exception is real: when \<open>git worktree add\<close> fails and its leftover cannot be removed, the
  attempt reports an error after which the watcher goes on, and no record names the leftover.
\<close>

lemma attempt_untracked_leftover:
  "case attempt ex_watcher (ex_attempt\<lparr>at_create := (at_create ex_attempt)\<lparr>we_add := Some (True, True),
        we_discard := ex_discard\<lparr>de_remove := False, de_remove_all := False\<rparr>\<rparr>\<rparr>) ex_candidate newBackoff ex_host of
      Some (state, Some err, h', _) \<Rightarrow> recoverableAttemptError err \<and> ''w/a'' \<in> set (ho_paths h') \<and> ho_runs h' = ho_runs ex_host
    | _ \<Rightarrow> False"
  by code_simp

text \<open>\<open>save\<close> sets the creation time in its own copy, and the watcher never does: every save of a run renews it.\<close>

lemma save_created_at:
  assumes "rc_CreatedAt r = None" "save None now r h = Inr h'"
  shows "\<exists>r'. map_of (ho_runs h') (rc_RunID r) = Some (Readable r') \<and> rc_CreatedAt r' = Some now \<and> rc_UpdatedAt r' = Some now"
  using assms by (auto simp: save_def Let_def)

subsection \<open>The main loop\<close>

text \<open>The attempts after which another one may follow, and the ones that count as a launch failure.\<close>

definition may_continue :: "string \<times> string \<times> cli_error option \<Rightarrow> bool" where
  "may_continue x \<longleftrightarrow>
     (case x of (task, outcome, err) \<Rightarrow>
        (case err of Some e \<Rightarrow> recoverableAttemptError e
         | None \<Rightarrow> outcome \<in> set [runStateSuccess, outcomeLostRace, runStateAmbiguous, outcomeNeverClaimed]))"

definition counted :: "string \<times> string \<times> cli_error option \<Rightarrow> bool" where
  "counted x \<longleftrightarrow> (case x of (task, outcome, err) \<Rightarrow> err \<noteq> None \<or> outcome = outcomeNeverClaimed)"

definition offered :: "watch_state \<Rightarrow> round_result \<Rightarrow> bool" where
  "offered st res \<longleftrightarrow>
     (case res of
        Continue st1 \<Rightarrow> wst_launchFailures st1 < launchFailureLimit \<and>
          ((wst_offers st1 = wst_offers st \<and> wst_launchFailures st1 = wst_launchFailures st)
           \<or> (\<exists>x. wst_offers st1 = wst_offers st @ [x] \<and> may_continue x
                \<and> wst_launchFailures st1 = (if counted x then wst_launchFailures st + 1 else 0)))
      | Returned err st1 \<Rightarrow> wst_offers st1 = wst_offers st \<or> (\<exists>x. wst_offers st1 = wst_offers st @ [x]))"

lemma after_attempt_offered:
  assumes "wst_launchFailures st < launchFailureLimit"
  shows "offered st (after_attempt candidate outcome err st)"
proof -
  let ?x = "(tv_ID candidate, outcome, err)"
  show ?thesis
  proof (cases err)
    case (Some e)
    show ?thesis
    proof (cases "e = Canceled \<or> \<not> recoverableAttemptError e \<or> wst_launchFailures st + 1 \<ge> launchFailureLimit")
      case True
      then show ?thesis using Some by (auto simp: after_attempt_def offered_def Let_def)
    next
      case False
      then have "may_continue ?x" "counted ?x" using Some by (simp_all add: may_continue_def counted_def)
      then show ?thesis using Some False by (simp add: after_attempt_def offered_def Let_def)
    qed
  next
    case None
    consider (good) "outcome = runStateSuccess \<or> outcome = outcomeLostRace \<or> outcome = runStateAmbiguous"
      | (never) "outcome = outcomeNeverClaimed"
      | (stop) "\<not> (outcome = runStateSuccess \<or> outcome = outcomeLostRace \<or> outcome = runStateAmbiguous)" "outcome \<noteq> outcomeNeverClaimed"
      by blast
    then show ?thesis
    proof cases
      case good
      then have "may_continue ?x" "\<not> counted ?x" using None by (auto simp: may_continue_def counted_def)
      then show ?thesis using good None by (auto simp: after_attempt_def offered_def Let_def launchFailureLimit_def)
    next
      case never
      then have "may_continue ?x" "counted ?x" using None by (simp_all add: may_continue_def counted_def)
      then show ?thesis using never None by (simp add: after_attempt_def offered_def Let_def)
    next
      case stop
      then show ?thesis using None by (simp add: after_attempt_def offered_def Let_def)
    qed
  qed
qed

lemma offered_cong: "wst_offers st' = wst_offers st \<Longrightarrow> wst_launchFailures st' = wst_launchFailures st \<Longrightarrow> offered st' res = offered st res"
  by (cases res) (simp_all add: offered_def)

lemma offer_round_offered:
  assumes "wst_launchFailures st < launchFailureLimit" "offer_round w rd st = Some res"
  shows "offered st res"
proof -
  have attempt: "offered st (after_attempt c outcome err (st\<lparr>wst_host := h, wst_failure := f, wst_idle := i\<rparr>))" for c outcome err h f i
    using after_attempt_offered [of "st\<lparr>wst_host := h, wst_failure := f, wst_idle := i\<rparr>"] assms(1)
      offered_cong [of "st\<lparr>wst_host := h, wst_failure := f, wst_idle := i\<rparr>" st] by simp
  have still: "offered st (Returned err st1)" if "wst_offers st1 = wst_offers st" for err st1
    using that by (simp add: offered_def)
  show ?thesis
  proof (cases "retainedCount (ro_count rd) (wa_profileName w) (wst_host st)")
    case (Inl e)
    then show ?thesis using assms(2) still by (auto simp: offer_round_def)
  next
    case (Inr n)
    show ?thesis
    proof (cases "n \<ge> maxRetainedRuns")
      case True
      then show ?thesis using assms(2) still Inr by (auto simp: offer_round_def)
    next
      case False
      obtain ans f where r: "retryReadWith (ro_queued rd) (wst_failure st) = Some (ans, f)"
        using assms(2) Inr False by (auto simp: offer_round_def split: option.splits)
      note run = assms(2) [unfolded offer_round_def Inr sum.case r option.case prod.case]
      show ?thesis
      proof (cases ans)
        case (Inl e)
        then show ?thesis using run False still by auto
      next
        case Inr2: (Inr ts)
        show ?thesis
        proof (cases ts)
          case Nil
          then show ?thesis using run False Inr2 assms(1) by (auto simp: offered_def)
        next
          case (Cons c cs)
          then obtain outcome err h f' where "attempt w (ro_attempt rd) c f (wst_host st) = Some (outcome, err, h, f')"
            using run False Inr2 by (auto split: option.splits)
          then show ?thesis using run False Inr2 Cons attempt by auto
        qed
      qed
    qed
  qed
qed

lemma watch_round_offered:
  assumes "wst_launchFailures st < launchFailureLimit" "watch_round w rd st = Some res"
  shows "offered st res"
proof -
  have still: "offered st (Returned err st1)" if "wst_offers st1 = wst_offers st" for err st1
    using that by (simp add: offered_def)
  have checked: "offered st res" if "offer_round w rd (st\<lparr>wst_scopeChecked := False\<rparr>) = Some res"
    using offer_round_offered [OF _ that] assms(1) offered_cong [of "st\<lparr>wst_scopeChecked := False\<rparr>" st] by simp
  have failed: "offered st res" if "offer_round w rd (st\<lparr>wst_failure := f\<rparr>) = Some res" for f
    using offer_round_offered [OF _ that] assms(1) offered_cong [of "st\<lparr>wst_failure := f\<rparr>" st] by simp
  show ?thesis using assms(2) still checked failed
    by (auto simp: watch_round_def split: if_splits option.splits)
qed

text \<open>\<open>bounded_runs L xs\<close>: after \<open>L\<close> counted attempts the list never shows more than the limit in a row.\<close>

fun bounded_runs :: "nat \<Rightarrow> (string \<times> string \<times> cli_error option) list \<Rightarrow> bool" where
  "bounded_runs L [] \<longleftrightarrow> True"
| "bounded_runs L (x # xs) \<longleftrightarrow>
     (if counted x then L + 1 \<le> launchFailureLimit \<and> bounded_runs (L + 1) xs else bounded_runs 0 xs)"

lemma bounded_runs_prefix:
  "bounded_runs L (ys @ zs) \<Longrightarrow> L \<le> launchFailureLimit \<Longrightarrow> list_all counted ys \<Longrightarrow> L + length ys \<le> launchFailureLimit"
proof (induction ys arbitrary: L)
  case (Cons y ys)
  then show ?case using Cons.IH [of "L + 1"] by simp
qed simp

lemma bounded_runs_infix:
  "bounded_runs L (xs @ ys @ zs) \<Longrightarrow> L \<le> launchFailureLimit \<Longrightarrow> list_all counted ys \<Longrightarrow> length ys \<le> launchFailureLimit"
proof (induction xs arbitrary: L)
  case Nil
  then show ?case using bounded_runs_prefix [of L ys zs] by simp
next
  case (Cons x xs)
  then show ?case by (auto split: if_splits)
qed

lemma watch_run_offers:
  assumes "watch_run w rds st = Some (err, st')" "wst_launchFailures st < launchFailureLimit"
  shows "\<exists>offers. wst_offers st' = wst_offers st @ offers \<and> list_all may_continue (butlast offers)
      \<and> bounded_runs (wst_launchFailures st) offers"
  using assms
proof (induction rds arbitrary: st)
  case (Cons rd rds)
  obtain res where round: "watch_round w rd st = Some res" using Cons.prems(1) by (auto split: option.splits)
  note off = watch_round_offered [OF Cons.prems(2) round]
  show ?case
  proof (cases res)
    case (Returned e st1)
    then have st1: "st1 = st'" using Cons.prems(1) round by simp
    have "wst_offers st' = wst_offers st @ [] \<or> (\<exists>x. wst_offers st' = wst_offers st @ [x])" using off Returned st1 by (simp add: offered_def)
    then show ?thesis
    proof (elim disjE exE)
      fix x assume "wst_offers st' = wst_offers st @ [x]"
      then show ?thesis using Cons.prems(2) by (intro exI [of _ "[x]"]) simp
    qed (intro exI [of _ "[]"], simp)
  next
    case (Continue st1)
    then have run: "watch_run w rds st1 = Some (err, st')" using Cons.prems(1) round by simp
    have less: "wst_launchFailures st1 < launchFailureLimit" using off Continue by (simp add: offered_def)
    obtain offers where o: "wst_offers st' = wst_offers st1 @ offers" "list_all may_continue (butlast offers)"
      "bounded_runs (wst_launchFailures st1) offers" using Cons.IH [OF run less] by blast
    show ?thesis
    proof (cases "wst_offers st1 = wst_offers st \<and> wst_launchFailures st1 = wst_launchFailures st")
      case True
      then show ?thesis using o by auto
    next
      case False
      then obtain x where x: "wst_offers st1 = wst_offers st @ [x]" "may_continue x"
        "wst_launchFailures st1 = (if counted x then wst_launchFailures st + 1 else 0)"
        using off Continue by (auto simp: offered_def)
      have "list_all may_continue (butlast (x # offers))" using o(2) x(2) by simp
      moreover have "bounded_runs (wst_launchFailures st) (x # offers)" using o(3) x(3) less by (cases "counted x") simp_all
      ultimately show ?thesis using o(1) x(1) by (intro exI [of _ "x # offers"]) simp
    qed
  qed
qed simp

text \<open>
  C32: A watcher offers another task only after an attempt that succeeded, lost the race, was
  never claimed, could not be placed, or failed in a recoverable way, so never after a blocked or
  interrupted run; and it never makes more than five attempts in a row that fail to launch or to
  claim.
\<close>

theorem watch_run_bounded_failures:
  assumes "watch_run w rds st = Some (err, st')" "wst_launchFailures st = 0"
  shows "\<exists>offers. wst_offers st' = wst_offers st @ offers
      \<and> (\<forall>(task, outcome, e) \<in> set (butlast offers).
            (case e of Some x \<Rightarrow> recoverableAttemptError x
             | None \<Rightarrow> outcome \<in> set [runStateSuccess, outcomeLostRace, runStateAmbiguous, outcomeNeverClaimed]))
      \<and> (\<forall>xs ys zs. offers = xs @ ys @ zs \<longrightarrow> (\<forall>(task, outcome, e) \<in> set ys. e \<noteq> None \<or> outcome = outcomeNeverClaimed)
            \<longrightarrow> length ys \<le> 5)"
proof -
  obtain offers where o: "wst_offers st' = wst_offers st @ offers" "list_all may_continue (butlast offers)" "bounded_runs 0 offers"
    using watch_run_offers [OF assms(1)] assms(2) by (auto simp: launchFailureLimit_def)
  have "length ys \<le> 5" if "offers = xs @ ys @ zs" "\<forall>(task, outcome, e) \<in> set ys. e \<noteq> None \<or> outcome = outcomeNeverClaimed" for xs ys zs
  proof -
    have "list_all counted ys" using that(2) by (simp add: list_all_iff counted_def)
    then show ?thesis using bounded_runs_infix [of 0 xs ys zs] o(3) that(1) by (simp add: launchFailureLimit_def)
  qed
  moreover have "\<forall>(task, outcome, e) \<in> set (butlast offers).
            (case e of Some x \<Rightarrow> recoverableAttemptError x
             | None \<Rightarrow> outcome \<in> set [runStateSuccess, outcomeLostRace, runStateAmbiguous, outcomeNeverClaimed])"
    using o(2) unfolding list_all_iff may_continue_def [abs_def] .
  ultimately show ?thesis using o(1) by blast
qed

definition ex_read :: "'a \<Rightarrow> 'a read_round" where
  "ex_read v = \<lparr>rr_stopped = False, rr_answer = Inr v, rr_stopped_after = False, rr_spread = (\<lambda>_. 0)\<rparr>"

definition ex_rounds :: "round list" where
  "ex_rounds =
     [\<lparr>ro_cancelled = False, ro_working = [], ro_count = None, ro_queued = [ex_read [ex_candidate]], ro_attempt = ex_attempt\<rparr>,
      \<lparr>ro_cancelled = True, ro_working = [], ro_count = None, ro_queued = [], ro_attempt = ex_attempt\<rparr>]"

definition ex_watch_state :: watch_state where
  "ex_watch_state = \<lparr>wst_host = ex_host, wst_scopeChecked = True, wst_launchFailures = 0, wst_idle = newBackoff,
     wst_failure = newBackoff, wst_offers = []\<rparr>"

theorem watch_run_bounded_failures_witness:
  "\<exists>st'. watch_run ex_watcher ex_rounds ex_watch_state = Some (None, st')
      \<and> (\<exists>offers. wst_offers st' = wst_offers ex_watch_state @ offers \<and> length offers = 1
           \<and> (\<forall>xs ys zs. offers = xs @ ys @ zs \<longrightarrow> (\<forall>(task, outcome, e) \<in> set ys. e \<noteq> None \<or> outcome = outcomeNeverClaimed)
                \<longrightarrow> length ys \<le> 5))"
proof -
  have "case watch_run ex_watcher ex_rounds ex_watch_state of
      Some (None, st) \<Rightarrow> length (wst_offers st) = 1 | _ \<Rightarrow> False" by code_simp
  then obtain st' where run: "watch_run ex_watcher ex_rounds ex_watch_state = Some (None, st')" and l: "length (wst_offers st') = 1"
    by (auto split: option.splits prod.splits)
  have start: "wst_launchFailures ex_watch_state = 0" "wst_offers ex_watch_state = []" by (simp_all add: ex_watch_state_def)
  show ?thesis using watch_run_bounded_failures [OF run start(1)] run l start(2) by auto
qed

end
