(* ===== verification/AuthenticateRules.thy ===== *)
theory AuthenticateRules
  imports Authenticate LimiterRules CredentialRules
begin

section \<open>What authentication under the limiter guarantees\<close>

text \<open>
  The specification keeps, for every slot of the limiter, the log of all admitted requests and
  decides from the log alone. The code keeps rows that it prunes, reserves, takes back and
  deletes. \<open>slots_ok\<close> is the simulation relation between the two.
\<close>

subsection \<open>The specification\<close>

type_synonym slot = "string \<times> string \<times> string"
type_synonym request_log = "slot \<Rightarrow> int list"

definition recent :: "request_log \<Rightarrow> int \<Rightarrow> slot \<Rightarrow> int" where
  "recent A t k = count_where (\<lambda>x. t - window < x) (A k)"

definition slot_of :: "(string \<Rightarrow> string) \<Rightarrow> string \<Rightarrow> string \<Rightarrow> string \<Rightarrow> slot" where
  "slot_of sha routeClass scope v = (scope, hashKey sha scope v, routeClass)"

definition admit_at :: "slot \<Rightarrow> int \<Rightarrow> request_log \<Rightarrow> request_log" where
  "admit_at k t A = A(k := t # A k)"

text \<open>The credentials of a request in the order they are tried, with the user each stands for.\<close>

definition session_candidates :: "(string \<Rightarrow> string) \<Rightarrow> auth_db \<Rightarrow> int \<Rightarrow> request \<Rightarrow> (string \<times> User option) list" where
  "session_candidates sha adb now r =
     (case readSessionToken r of None \<Rightarrow> []
      | Some token \<Rightarrow> [(''session:'' @ sha token, case FindUserBySessionHash adb (sha token) now of Inl _ \<Rightarrow> None | Inr user \<Rightarrow> Some user)])"

definition bearer_candidates :: "(string \<Rightarrow> string) \<Rightarrow> auth_db \<Rightarrow> int \<Rightarrow> request \<Rightarrow> (string \<times> User option) list" where
  "bearer_candidates sha adb now r =
     (case readBearerToken r of None \<Rightarrow> []
      | Some token \<Rightarrow> [(''bearer:'' @ sha token, case FindUserByAPITokenHash adb (sha token) now of Inl _ \<Rightarrow> None | Inr (_, user) \<Rightarrow> Some user)])"

text \<open>
  A credential whose slot is full is passed over, one that stands for nobody is charged for the
  attempt, and the first other one decides.
\<close>

fun try_credentials ::
    "int \<Rightarrow> (string \<Rightarrow> slot) \<Rightarrow> (nat \<Rightarrow> int) \<Rightarrow> nat \<Rightarrow> (string \<times> User option) list \<Rightarrow> bool \<Rightarrow> request_log \<Rightarrow>
     (User \<times> string \<times> int) option \<times> bool \<times> request_log \<times> nat" where
  "try_credentials limit slot tick n [] full A = (None, full, A, n)"
| "try_credentials limit slot tick n ((credential, who) # rest) full A =
     (if limit \<le> recent A (tick n) (slot credential) then try_credentials limit slot tick (n + 1) rest True A
      else (case who of
          Some user \<Rightarrow> (Some (user, credential, tick n), full, A, n + 1)
        | None \<Rightarrow> try_credentials limit slot tick (n + 1) rest full (admit_at (slot credential) (tick n) A)))"

datatype verdict = Admit User | Refuse | Anonymous

definition authenticate_spec ::
    "int \<Rightarrow> (string \<Rightarrow> string \<Rightarrow> slot) \<Rightarrow> (nat \<Rightarrow> int) \<Rightarrow> (string \<times> User option) list \<Rightarrow> request_log \<Rightarrow> verdict \<times> request_log" where
  "authenticate_spec limit slot tick candidates A =
     (case try_credentials limit (slot ScopeCredential) tick 0 candidates False A of
        (Some (user, credential, t), _, _, n) \<Rightarrow>
          if recent A (tick n) (slot ScopeAccount (uID user)) < limit
          then (Admit user, admit_at (slot ScopeAccount (uID user)) (tick n) (admit_at (slot ScopeCredential credential) t A))
          else (Refuse, A)
      | (None, True, A', _) \<Rightarrow> (Refuse, A')
      | (None, False, A', _) \<Rightarrow> (Anonymous, A'))"

subsection \<open>The transactions against the log\<close>

lemma recent_active: "slots_ok settings db now A \<Longrightarrow> recent A now k = int (length (active_of db now k))"
  using arg_cong [OF slot_ok_simps(4) [OF slots_okD], of settings db now A size k]
  by (simp add: recent_def count_where_def flip: size_mset mset_filter)

lemma note_admitted_single: "note_admitted [k] t A = admit_at k t A"
  by (auto simp: note_admitted_def admit_at_def)

lemma normalized_key:
  "v \<noteq> [] \<Longrightarrow> scope \<in> {ScopeAccount, ScopeCredential} \<Longrightarrow>
    normalizedKeys sha [\<lparr>kScope = scope, kValue = v\<rparr>] = [\<lparr>kScope = scope, kValue = hashKey sha scope v\<rparr>]"
  by (auto simp: normalizedKeys_def)

lemma slot_table_key: "table_key \<lparr>kScope = scope, kValue = hashKey sha scope v\<rparr> c = slot_of sha c scope v"
  by (simp add: table_key_def slot_of_def)

definition reserved_at :: "CredentialReservation \<Rightarrow> slot \<Rightarrow> int \<Rightarrow> bool" where
  "reserved_at res k t \<longleftrightarrow> Active res \<and> reservation_key res = k \<and> crRecordedAt res = Some t"

lemma ReserveCredential_log:
  assumes ok: "slots_ok settings db now A" and cfg: "pg_configured p" and sha: "\<And>v. sha v \<noteq> []" and v: "v \<noteq> []"
    and c: "c \<in> {ClassAuthenticatedRead, ClassAuthenticatedWrite}"
  obtains db' res d where "ReserveCredential sha skip p db now (credential_of v) c = Inr (db', (res, d))"
    "dAllowed d \<longleftrightarrow> recent A now (slot_of sha c ScopeCredential v) < class_limit settings c"
    "dAllowed d \<Longrightarrow> reserved_at res (slot_of sha c ScopeCredential v) now"
    "slots_ok settings db' now (if dAllowed d then admit_at (slot_of sha c ScopeCredential v) now A else A)"
proof -
  let ?k = "\<lparr>kScope = ScopeCredential, kValue = hashKey sha ScopeCredential v\<rparr>"
  let ?K = "slot_of sha c ScopeCredential v"
  define db1 where "db1 = (if pg_cleanupExpired p then deleteExpiredState skip db now else db)"
  have act: "active_of db1 now k = active_of db now k" for k using active_expired [OF ok] by (simp add: db1_def)
  have key: "normalizedKeys sha [credential_of v] = [?k]" using normalized_key [OF v] by (simp add: credential_of_def)
  have lim: "routeLimit db c = Inr (class_limit settings c)"
    using ok c by (auto simp: slots_ok_def routeLimit_def class_limit_def)
  let ?d = "slot_decision (active_of db1 now ?K) (class_limit settings c) now"
  have allowed: "dAllowed ?d \<longleftrightarrow> recent A now ?K < class_limit settings c"
    by (simp add: slot_decision_allowed act recent_active [OF ok])
  have "\<exists>db' res. ReserveCredential sha skip p db now (credential_of v) c = Inr (db', (res, ?d))"
    using cfg key lim
    by (simp add: ReserveCredential_def credential_key_def Let_def lockedState_eq slot_table_key writeState_eq flip: db1_def)
  then obtain db' res where run: "ReserveCredential sha skip p db now (credential_of v) c = Inr (db', (res, ?d))" by blast
  have slots: "slots_ok settings db' now (if dAllowed ?d then admit_at ?K now A else A)"
    using ReserveCredential_slots [OF ok run] by (cases "dAllowed ?d") (simp_all add: key slot_table_key note_admitted_single)
  have "reserved_at res ?K now" if d: "dAllowed ?d"
  proof -
    have "reservation_key res = ?K"
      using run d cfg key lim
      by (auto simp: ReserveCredential_def credential_key_def Let_def lockedState_eq slot_table_key writeState_eq reservation_key_def slot_of_def
          simp flip: db1_def)
    then show ?thesis
      using ReserveCredential_admitted [OF ok run d sha] unfolding reserved_at_def by (metis (no_types))
  qed
  then show thesis using that [OF run allowed _ slots] by blast
qed

lemma recordMetric_runs:
  assumes "c \<in> {ClassAuthenticatedRead, ClassAuthenticatedWrite}" "outcome \<in> {OutcomeAllowed, OutcomeRejected}"
  shows "\<exists>db'. recordMetric db now c outcome (metricShard ks) = Inr db'"
  using assms metricShard_range [of ks] by (auto simp: recordMetric_def Let_def require_def)

lemma FinalizeCredential_log:
  assumes ok: "slots_ok settings db now A" and res: "reserved_at res K t" and sha: "\<And>v. sha v \<noteq> []" and v: "v \<noteq> []"
    and c: "crRouteClass res \<in> {ClassAuthenticatedRead, ClassAuthenticatedWrite}"
  obtains db' d where "FinalizeCredential sha db now res (Some \<lparr>kScope = ScopeAccount, kValue = v\<rparr>) = Inr (db', d)"
    "dAllowed d \<longleftrightarrow> recent A now (slot_of sha (crRouteClass res) ScopeAccount v) < class_limit settings (crRouteClass res)"
    "slots_ok settings db' now (if dAllowed d then admit_at (slot_of sha (crRouteClass res) ScopeAccount v) now A else take_back res A)"
proof -
  let ?c = "crRouteClass res"
  let ?k = "\<lparr>kScope = ScopeAccount, kValue = hashKey sha ScopeAccount v\<rparr>"
  let ?K = "slot_of sha ?c ScopeAccount v"
  have key: "normalizedKeys sha [\<lparr>kScope = ScopeAccount, kValue = v\<rparr>] = [?k]" using normalized_key [OF v] by simp
  have act: "Active res" using res by (simp add: reserved_at_def)
  have lim: "routeLimit db ?c = Inr (class_limit settings ?c)"
    using ok c by (auto simp: slots_ok_def routeLimit_def class_limit_def)
  let ?d = "slot_decision (active_of db now ?K) (class_limit settings ?c) now"
  have allowed: "dAllowed ?d \<longleftrightarrow> recent A now ?K < class_limit settings ?c"
    by (simp add: slot_decision_allowed recent_active [OF ok])
  have "\<exists>db'. FinalizeCredential sha db now res (Some \<lparr>kScope = ScopeAccount, kValue = v\<rparr>) = Inr (db', ?d)"
  proof (cases "dAllowed ?d")
    case True
    obtain x' where "recordMetric (db\<lparr>rl_state := fold (\<lambda>k. put_state k (active_of db now ?K @ [now])) [?K]
        (rl_state (ensured db now [?K]))\<rparr>) now ?c OutcomeAllowed (metricShard [?k]) = Inr x'"
      using recordMetric_runs [OF c] by blast
    then show ?thesis using act key lim True
      by (simp add: FinalizeCredential_def account_key_def Let_def lockedState_eq slot_table_key writeState_eq)
  next
    case False
    obtain x' where "recordMetric (removeReservation (ensured db now [?K]) res) now ?c OutcomeRejected (metricShard [?k]) = Inr x'"
      using recordMetric_runs [OF c] by blast
    then show ?thesis using act key lim False
      by (simp add: FinalizeCredential_def account_key_def Let_def lockedState_eq slot_table_key)
  qed
  then obtain db' where run: "FinalizeCredential sha db now res (Some \<lparr>kScope = ScopeAccount, kValue = v\<rparr>) = Inr (db', ?d)" by blast
  have "slots_ok settings db' now (if dAllowed ?d then admit_at ?K now A else take_back res A)"
    using FinalizeCredential_slots [OF ok run] by (cases "dAllowed ?d") (simp_all add: key slot_table_key note_admitted_single)
  then show thesis by (rule that [OF run allowed])
qed

lemma RecordCredentialOutcome_log:
  assumes ok: "slots_ok settings db now A" and v: "v \<noteq> []" and c: "c \<in> {ClassAuthenticatedRead, ClassAuthenticatedWrite}"
    and outcome: "outcome \<in> {OutcomeAllowed, OutcomeRejected}"
  obtains db' where "RecordCredentialOutcome sha db now (credential_of v) c outcome = Inr (db', ())" "slots_ok settings db' now A"
proof -
  let ?k = "\<lparr>kScope = ScopeCredential, kValue = hashKey sha ScopeCredential v\<rparr>"
  have key: "credential_key sha (credential_of v) = Inr ?k"
    using normalized_key [OF v] by (simp add: credential_of_def credential_key_def)
  obtain x' where x: "recordMetric db now c outcome (metricShard [?k]) = Inr x'" using recordMetric_runs [OF c outcome] by blast
  obtain m where "x' = db\<lparr>rl_metrics := m\<rparr>" using recordMetric_InrE [OF x] .
  then have slots: "slots_ok settings x' now A" using ok by simp
  have "RecordCredentialOutcome sha db now (credential_of v) c outcome = Inr (x', ())"
    using key x outcome by (auto simp: RecordCredentialOutcome_def)
  then show thesis using that slots by blast
qed

subsection \<open>Reservations held against the log\<close>

definition note_reserved :: "CredentialReservation \<Rightarrow> request_log \<Rightarrow> request_log" where
  "note_reserved res A = admit_at (reservation_key res) (the (crRecordedAt res)) A"

lemma take_back_note [simp]: "take_back res (note_reserved res A) = A"
  by (auto simp: take_back_def note_reserved_def admit_at_def)

lemma take_back_under: "take_back res (note_reserved newest (note_reserved res A)) = note_reserved newest A"
  by (auto simp: take_back_def note_reserved_def admit_at_def fun_eq_iff)

text \<open>The log with the requests that a list of reservations stands for, the newest first.\<close>

definition held :: "(string \<times> CredentialReservation) list \<Rightarrow> request_log \<Rightarrow> request_log" where
  "held rs A = foldr (\<lambda>(_, res). note_reserved res) rs A"

lemma held_simps [simp]: "held [] A = A" "held ((credential, res) # rs) A = note_reserved res (held rs A)"
  by (simp_all add: held_def)

lemma cancel_all:
  assumes "slots_ok settings db now (note_reserved newest (held rs A))" "\<forall>(c, res) \<in> set rs. Active res \<and> c \<noteq> except"
  shows "slots_ok settings (cancelReservations except rs db) now (note_reserved newest A)"
  using assms
proof (induction rs arbitrary: db)
  case (Cons x rs)
  obtain c res where x: "x = (c, res)" by (cases x)
  have "slots_ok settings (removeReservation db res) now (take_back res (note_reserved newest (note_reserved res (held rs A))))"
    using Cons.prems x by (intro removeReservation_slots) simp_all
  then have "slots_ok settings (cancelReservations except rs (removeReservation db res)) now (note_reserved newest A)"
    using Cons.prems(2) by (intro Cons.IH) (simp_all add: take_back_under)
  then show ?case using Cons.prems(2) x by (simp add: cancelReservations_def CancelCredential_def)
qed (simp add: cancelReservations_def)

subsection \<open>Trying the credentials\<close>

text \<open>Both resolvers walk the list of candidates.\<close>

fun walk :: "'g gate \<Rightarrow> (string \<times> User option) list \<Rightarrow> bool \<Rightarrow> 'g \<Rightarrow> (resolve_error, User \<times> string) result \<times> 'g" where
  "walk f [] refused g = (Inl (if refused then CredentialRejected else Unauthorized), g)"
| "walk f ((credential, who) # rest) refused g =
     (case f credential g of (ok, g) \<Rightarrow>
        if \<not> ok then walk f rest True g
        else (case who of Some user \<Rightarrow> (Inr (user, credential), g) | None \<Rightarrow> walk f rest False g))"

lemma session_error: "FindUserBySessionHash adb h now = Inl err \<Longrightarrow> lookup_error err = Unauthorized"
  by (auto simp: FindUserBySessionHash_def lookup_error_def split: option.splits)

lemma token_error: "FindUserByAPITokenHash adb h now = Inl err \<Longrightarrow> lookup_error err = Unauthorized"
  by (auto simp: FindUserByAPITokenHash_def lookup_error_def Let_def split: option.splits)

lemma resolve_session_walk:
  "ResolveSessionUserFromRequestWithGate sha adb now r (Some f) g = walk f (session_candidates sha adb now r) False g"
  by (auto simp: ResolveSessionUserFromRequestWithGate_def session_candidates_def ask_gate_def Let_def session_error
      split: option.splits sum.splits prod.splits)

lemma bearer_walk:
  "\<exists>adb'. (case readBearerToken r of
       None \<Rightarrow> (Inl (if refused then CredentialRejected else Unauthorized), adb, g)
     | Some token \<Rightarrow>
         let credential = ''bearer:'' @ sha token; (ok, g) = ask_gate (Some f) credential g in
         if \<not> ok then (Inl CredentialRejected, adb, g)
         else (case FindUserByAPITokenHash adb (sha token) now of
             Inl err \<Rightarrow> (Inl (lookup_error err), adb, g)
           | Inr (adb, user) \<Rightarrow> (Inr (user, credential), adb, g)))
   = (case walk f (bearer_candidates sha adb now r) refused g of (res, g') \<Rightarrow> (res, adb', g'))"
proof (cases "readBearerToken r")
  case (Some token)
  obtain ok g1 where gate: "f (''bearer:'' @ sha token) g = (ok, g1)" by (cases "f (''bearer:'' @ sha token) g")
  show ?thesis
  proof (cases "FindUserByAPITokenHash adb (sha token) now")
    case (Inl err)
    then show ?thesis using Some gate token_error [OF Inl] by (cases ok) (simp_all add: bearer_candidates_def ask_gate_def)
  next
    case (Inr found)
    then show ?thesis using Some gate by (cases found; cases ok) (auto simp: bearer_candidates_def ask_gate_def)
  qed
qed (simp add: bearer_candidates_def)

lemma resolve_user_walk:
  "\<exists>adb'. ResolveUserFromRequestWithGate sha adb now r (Some f) g =
    (case walk f (session_candidates sha adb (now 0) r @ bearer_candidates sha adb (now 1) r) False g of (res, g') \<Rightarrow> (res, adb', g'))"
proof (cases "readSessionToken r")
  case None
  then show ?thesis using bearer_walk [where r = r and refused = False and adb = adb and g = g and sha = sha and f = f and now = "now 1"]
    by (simp add: ResolveUserFromRequestWithGate_def session_candidates_def)
next
  case (Some token)
  obtain ok g1 where gate: "f (''session:'' @ sha token) g = (ok, g1)" by (cases "f (''session:'' @ sha token) g")
  note defs = ResolveUserFromRequestWithGate_def ResolveSessionUserFromRequestWithGate_def session_candidates_def ask_gate_def
  note bearer = bearer_walk [where r = r and adb = adb and g = g1 and sha = sha and f = f and now = "now 1"]
  show ?thesis
  proof (cases ok)
    case True
    show ?thesis
    proof (cases "FindUserBySessionHash adb (sha token) (now 0)")
      case (Inl err)
      then show ?thesis using True Some gate session_error [OF Inl] bearer [where refused = False] by (simp add: defs)
    qed (use True Some gate in \<open>simp add: defs\<close>)
  next
    case False
    then show ?thesis using Some gate bearer [where refused = True] by (simp add: defs)
  qed
qed

subsection \<open>The walk against the log\<close>

definition gate_sim ::
    "limit_settings \<Rightarrow> (string \<Rightarrow> string) \<Rightarrow> string \<Rightarrow> (nat \<Rightarrow> int) \<Rightarrow> request_log \<Rightarrow> gate_state \<Rightarrow> request_log \<Rightarrow> bool \<Rightarrow> bool" where
  "gate_sim settings sha c tick A0 g A full \<longleftrightarrow>
     slots_ok settings (gt_db g) (tick (gt_calls g)) A \<and> A = held (gt_reservations g) A0
     \<and> (\<forall>(credential, res) \<in> set (gt_reservations g). \<exists>t. reserved_at res (slot_of sha c ScopeCredential credential) t)
     \<and> distinct (map fst (gt_reservations g)) \<and> gt_err g = None \<and> (full \<longleftrightarrow> gt_rejected g \<noteq> [])
     \<and> ((gt_reservations g = [] \<and> gt_rejected g = []) \<or> gt_last g \<noteq> [])"

text \<open>A configured limiter, hashes that are not empty, a clock that does not go back, an authenticated route.\<close>

definition setting_ok :: "(string \<Rightarrow> string) \<Rightarrow> (nat \<Rightarrow> int) \<Rightarrow> PG \<Rightarrow> string \<Rightarrow> bool" where
  "setting_ok sha tick p c \<longleftrightarrow> pg_configured p \<and> (\<forall>v. sha v \<noteq> []) \<and> (\<forall>n. tick n \<le> tick (n + 1))
     \<and> c \<in> {ClassAuthenticatedRead, ClassAuthenticatedWrite}"

lemma gate_step:
  fixes settings :: limit_settings
  assumes set: "setting_ok sha tick p c" and sim: "gate_sim settings sha c tick A0 g A full"
    and credential: "credential \<noteq> []" "credential \<notin> fst ` set (gt_reservations g)"
  shows "if class_limit settings c \<le> recent A (tick (gt_calls g)) (slot_of sha c ScopeCredential credential)
    then \<exists>g'. reserve_gate sha skip tick p c credential g = (False, g') \<and> gate_sim settings sha c tick A0 g' A True \<and> gt_calls g' = gt_calls g + 1
      \<and> gt_reservations g' = gt_reservations g
    else \<exists>g' res. reserve_gate sha skip tick p c credential g = (True, g') \<and> gate_sim settings sha c tick A0 g' (admit_at (slot_of sha c ScopeCredential credential) (tick (gt_calls g)) A) full
      \<and> gt_calls g' = gt_calls g + 1 \<and> gt_reservations g' = (credential, res) # gt_reservations g
      \<and> reserved_at res (slot_of sha c ScopeCredential credential) (tick (gt_calls g))"
proof -
  let ?n = "gt_calls g" and ?K = "slot_of sha c ScopeCredential credential"
  have cfg: "pg_configured p" and sha: "sha v \<noteq> []" and later: "tick ?n \<le> tick (?n + 1)"
    and route: "c \<in> {ClassAuthenticatedRead, ClassAuthenticatedWrite}" for v using set by (auto simp: setting_ok_def)
  have ok: "slots_ok settings (gt_db g) (tick ?n) A" using sim unfolding gate_sim_def by blast
  obtain db res d where run: "ReserveCredential sha (skip ?n) p (gt_db g) (tick ?n) (credential_of credential) c = Inr (db, (res, d))"
    and allowed: "dAllowed d \<longleftrightarrow> recent A (tick ?n) ?K < class_limit settings c"
    and res: "dAllowed d \<Longrightarrow> reserved_at res ?K (tick ?n)"
    and slots: "slots_ok settings db (tick ?n) (if dAllowed d then admit_at ?K (tick ?n) A else A)"
    using ReserveCredential_log [where sha = sha and skip = "skip ?n", OF ok cfg sha credential(1) route] by blast
  note later = slots_ok_later [OF slots later]
  have other: "filter (\<lambda>x. fst x \<noteq> credential) (gt_reservations g) = gt_reservations g"
    using credential(2) by (auto simp: filter_id_conv)
  let ?g = "g\<lparr>gt_last := credential, gt_calls := ?n + 1, gt_db := db\<rparr>"
  note S = sim [unfolded gate_sim_def]
  show ?thesis
  proof (cases "dAllowed d")
    case True
    let ?g1 = "?g\<lparr>gt_reservations := (credential, res) # gt_reservations g\<rparr>"
    have gate: "reserve_gate sha skip tick p c credential g = (True, ?g1)"
      using run True by (simp add: reserve_gate_def Let_def other)
    have r: "reserved_at res ?K (tick ?n)" using res [OF True] .
    then have noted: "note_reserved res A = admit_at ?K (tick ?n) A" by (simp add: note_reserved_def reserved_at_def)
    have slots1: "slots_ok settings db (tick (?n + 1)) (admit_at ?K (tick ?n) A)" using later True by simp
    have "A = held (gt_reservations g) A0" using S by blast
    then have held: "admit_at ?K (tick ?n) A = held ((credential, res) # gt_reservations g) A0" using noted by simp
    have each: "\<forall>(cr, res) \<in> set ((credential, res) # gt_reservations g). \<exists>t. reserved_at res (slot_of sha c ScopeCredential cr) t"
      using S r by auto
    have "distinct (map fst ((credential, res) # gt_reservations g))" "gt_err g = None" "full \<longleftrightarrow> gt_rejected g \<noteq> []"
      using S credential(2) by simp_all
    then have "gate_sim settings sha c tick A0 ?g1 (admit_at ?K (tick ?n) A) full"
      unfolding gate_sim_def using slots1 held each credential(1) by simp
    then show ?thesis using gate r allowed True by auto
  next
    case False
    let ?g1 = "?g\<lparr>gt_rejected := credential, gt_decision := d\<rparr>"
    have gate: "reserve_gate sha skip tick p c credential g = (False, ?g1)"
      using run False by (simp add: reserve_gate_def Let_def)
    have slots1: "slots_ok settings db (tick (?n + 1)) A" using later False by simp
    have "A = held (gt_reservations g) A0" "\<forall>(cr, res) \<in> set (gt_reservations g). \<exists>t. reserved_at res (slot_of sha c ScopeCredential cr) t"
      "distinct (map fst (gt_reservations g))" "gt_err g = None"
      using S by blast+
    then have "gate_sim settings sha c tick A0 ?g1 A True"
      unfolding gate_sim_def using slots1 credential(1) by simp
    then show ?thesis using gate allowed False by auto
  qed
qed

lemma walk_log:
  fixes settings :: limit_settings
  assumes set: "setting_ok sha tick p c"
    and "gate_sim settings sha c tick A0 g A full" "gt_calls g = n" "distinct (map fst cs)" "\<forall>(credential, who) \<in> set cs. credential \<noteq> []"
    "fst ` set cs \<inter> fst ` set (gt_reservations g) = {}"
    and "try_credentials (class_limit settings c) (slot_of sha c ScopeCredential) tick n cs full A = (found, full', A', n')" "walk (reserve_gate sha skip tick p c) cs refused g = (res, g')"
  shows "gt_calls g' = n' \<and> (case found of
      None \<Rightarrow> res \<in> {Inl Unauthorized, Inl CredentialRejected} \<and> gate_sim settings sha c tick A0 g' A' full'
    | Some (user, credential, t) \<Rightarrow> res = Inr (user, credential) \<and> (credential, Some user) \<in> set cs
        \<and> (\<exists>r rs. gt_reservations g' = (credential, r) # rs \<and> reserved_at r (slot_of sha c ScopeCredential credential) t
             \<and> gate_sim settings sha c tick A0 g' (admit_at (slot_of sha c ScopeCredential credential) t A') full'))"
  using assms(2-)
proof (induction cs arbitrary: g A full n refused)
  case Nil
  then show ?case by auto
next
  case (Cons x cs)
  obtain credential who where x: "x = (credential, who)" by (cases x)
  note step = gate_step [OF set Cons.prems(1), where skip = skip and credential = credential]
  have fresh: "credential \<noteq> []" "credential \<notin> fst ` set (gt_reservations g)" using Cons.prems(4,5) x by auto
  show ?case
  proof (cases "class_limit settings c \<le> recent A (tick n) (slot_of sha c ScopeCredential credential)")
    case True
    then obtain g1 where g1: "reserve_gate sha skip tick p c credential g = (False, g1)" "gate_sim settings sha c tick A0 g1 A True" "gt_calls g1 = n + 1"
        "gt_reservations g1 = gt_reservations g"
      using step fresh Cons.prems(2) by auto
    show ?thesis using Cons.IH [OF g1(2,3), of True] Cons.prems True x g1 by (auto split: option.splits)
  next
    case False
    then obtain g1 r where g1: "reserve_gate sha skip tick p c credential g = (True, g1)" "gate_sim settings sha c tick A0 g1 (admit_at (slot_of sha c ScopeCredential credential) (tick n) A) full"
        "gt_calls g1 = n + 1" "gt_reservations g1 = (credential, r) # gt_reservations g" "reserved_at r (slot_of sha c ScopeCredential credential) (tick n)"
      using step fresh Cons.prems(2) by auto
    show ?thesis
    proof (cases who)
      case None
      show ?thesis using Cons.IH [OF g1(2,3), of False] Cons.prems False None x g1 by (auto split: option.splits)
    next
      case (Some user)
      then show ?thesis using Cons.prems False x g1 by auto
    qed
  qed
qed

subsection \<open>Settling the reservations\<close>

lemma candidate_credentials:
  "distinct (map fst (session_candidates sha adb t r @ (if only then [] else bearer_candidates sha adb t' r)))"
  "\<forall>(credential, who) \<in> set (session_candidates sha adb t r @ (if only then [] else bearer_candidates sha adb t' r)). credential \<noteq> []"
  by (auto simp: session_candidates_def bearer_candidates_def split: option.splits)

lemma candidate_lookups:
  "(credential, Some user) \<in> set (session_candidates sha adb t r) \<Longrightarrow> \<exists>h. FindUserBySessionHash adb h t = Inr user"
  "(credential, Some user) \<in> set (bearer_candidates sha adb t r) \<Longrightarrow> \<exists>h adb'. FindUserByAPITokenHash adb h t = Inr (adb', user)"
proof -
  show "\<exists>h. FindUserBySessionHash adb h t = Inr user" if "(credential, Some user) \<in> set (session_candidates sha adb t r)"
  proof (cases "readSessionToken r")
    case (Some token)
    then show ?thesis using that by (cases "FindUserBySessionHash adb (sha token) t") (auto simp: session_candidates_def)
  qed (use that in \<open>simp add: session_candidates_def\<close>)
  show "\<exists>h adb'. FindUserByAPITokenHash adb h t = Inr (adb', user)" if "(credential, Some user) \<in> set (bearer_candidates sha adb t r)"
  proof (cases "readBearerToken r")
    case (Some token)
    then show ?thesis using that by (cases "FindUserByAPITokenHash adb (sha token) t") (auto simp: bearer_candidates_def)
  qed (use that in \<open>simp add: bearer_candidates_def\<close>)
qed

lemma candidate_users:
  assumes "\<forall>u \<in> set (users (store adb)). us_id u \<noteq> []"
    and "(credential, Some user) \<in> set (session_candidates sha adb t r @ (if only then [] else bearer_candidates sha adb t' r))"
  shows "uID user \<noteq> []"
proof -
  have owner: "us_id u \<noteq> []" if "active_owner adb i = Some u" for i u using active_owner_SomeD [OF that] assms(1) by blast
  have session: "uID user \<noteq> []" if "FindUserBySessionHash adb h now = Inr user" for h now
    using that owner by (auto simp: FindUserBySessionHash_def user_of_row_def split: option.splits)
  have bearer: "uID user \<noteq> []" if "FindUserByAPITokenHash adb h now = Inr (adb1, user)" for h now adb1
    using that owner by (auto simp: FindUserByAPITokenHash_def user_of_row_def Let_def split: option.splits)
  have "(credential, Some user) \<in> set (session_candidates sha adb t r) \<or> (credential, Some user) \<in> set (bearer_candidates sha adb t' r)"
    using assms(2) by (cases only) simp_all
  then show ?thesis
  proof
    assume "(credential, Some user) \<in> set (session_candidates sha adb t r)"
    then obtain h where "FindUserBySessionHash adb h t = Inr user" using candidate_lookups(1) by blast
    then show ?thesis by (rule session)
  next
    assume "(credential, Some user) \<in> set (bearer_candidates sha adb t' r)"
    then obtain h adb' where "FindUserByAPITokenHash adb h t' = Inr (adb', user)" using candidate_lookups(2) by blast
    then show ?thesis by (rule bearer)
  qed
qed

lemma authenticate_walk:
  fixes r :: request and rd :: readings and sv :: server and only rec :: bool and sha :: "string \<Rightarrow> string" and p :: PG
  defines "c \<equiv> authenticatedRouteClass r"
  defines "gate \<equiv> reserve_gate sha (rd_skip rd) (rd_tick rd) p c"
  defines "cs \<equiv> session_candidates sha (sv_auth sv) (rd_now rd 0) r @
      (if only then [] else bearer_candidates sha (sv_auth sv) (rd_now rd 1) r)"
  assumes "walk gate cs False (start_gate (sv_limits sv)) = (res, g)" "gt_err g = None"
  shows "\<exists>adb'. authenticateWithLimits sha (Some p) rd sv r only rec =
     (case res of
        Inr found \<Rightarrow> (case settle_user sha (rd_tick rd (gt_calls g)) g found of (result, db) \<Rightarrow> (result, \<lparr>sv_auth = adb', sv_limits = db\<rparr>))
      | Inl (LookupFailed err) \<Rightarrow> (zero_result\<lparr>ar_authErr := Some (LookupFailed err), ar_checked := True\<rparr>,
           \<lparr>sv_auth = adb', sv_limits = cancelReservations [] (gt_reservations g) (gt_db g)\<rparr>)
      | Inl _ \<Rightarrow> (case settle_unknown sha (rd_tick rd (gt_calls g)) c rec g of (result, db) \<Rightarrow> (result, \<lparr>sv_auth = adb', sv_limits = db\<rparr>)))"
proof (cases only)
  case True
  then have "ResolveSessionUserFromRequestWithGate sha (sv_auth sv) (rd_now rd 0) r (Some gate) (start_gate (sv_limits sv)) = (res, g)"
    using assms(4) by (simp add: resolve_session_walk cs_def)
  then show ?thesis using True assms(5) unfolding authenticateWithLimits_def c_def gate_def Let_def
    by (intro exI [of _ "sv_auth sv"]) simp
next
  case False
  then obtain adb' where "ResolveUserFromRequestWithGate sha (sv_auth sv) (rd_now rd) r (Some gate) (start_gate (sv_limits sv)) = (res, adb', g)"
    using assms(4) resolve_user_walk [of sha "sv_auth sv" "rd_now rd" r gate "start_gate (sv_limits sv)"] by (auto simp: cs_def)
  then show ?thesis using False assms(5) unfolding authenticateWithLimits_def c_def gate_def Let_def
    by (intro exI [of _ adb']) simp
qed

lemma finalize_active: "\<forall>(credential, res) \<in> set rs. Active res \<Longrightarrow> finalizeReservations sha now rs db = Inr db"
  by (induction rs arbitrary: db) (auto simp: FinalizeCredential_def)

lemma settle_unknown_log:
  assumes set: "setting_ok sha tick p c" and sim: "gate_sim settings sha c tick A0 g A full"
    and run: "settle_unknown sha (tick (gt_calls g)) c rec g = (result, db)"
  shows "slots_ok settings db (tick (gt_calls g)) A" "ar_limitErr result = None"
    "ar_limited result = full" "ar_authErr result = Some (if full then CredentialRejected else Unauthorized)"
proof -
  let ?now = "tick (gt_calls g)"
  have ok: "slots_ok settings (gt_db g) ?now A" and full: "full \<longleftrightarrow> gt_rejected g \<noteq> []" using sim unfolding gate_sim_def by blast+
  have route: "c \<in> {ClassAuthenticatedRead, ClassAuthenticatedWrite}" using set by (simp add: setting_ok_def)
  have fin: "finalizeReservations sha ?now (gt_reservations g) (gt_db g) = Inr (gt_db g)"
    by (rule finalize_active) (use sim in \<open>auto simp: gate_sim_def reserved_at_def\<close>)
  have "slots_ok settings db ?now A \<and> ar_limitErr result = None \<and> ar_limited result = full
      \<and> ar_authErr result = Some (if full then CredentialRejected else Unauthorized)"
  proof (cases full)
    case True
    then have "gt_rejected g \<noteq> []" using full by simp
    then obtain db1 where "RecordCredentialOutcome sha (gt_db g) ?now (credential_of (gt_rejected g)) c OutcomeRejected = Inr (db1, ())"
        "slots_ok settings db1 ?now A"
      by (rule RecordCredentialOutcome_log [OF ok _ route, of "gt_rejected g" OutcomeRejected sha]) simp_all
    then show ?thesis using run fin True full by (auto simp: settle_unknown_def zero_result_def)
  next
    case False
    show ?thesis
    proof (cases "gt_last g \<noteq> [] \<and> rec")
      case True
      then have "gt_last g \<noteq> []" by simp
      then obtain db1 where "RecordCredentialOutcome sha (gt_db g) ?now (credential_of (gt_last g)) c OutcomeAllowed = Inr (db1, ())"
          "slots_ok settings db1 ?now A"
        by (rule RecordCredentialOutcome_log [OF ok _ route, of "gt_last g" OutcomeAllowed sha]) simp_all
      then show ?thesis using run fin True False full by (auto simp: settle_unknown_def zero_result_def)
    next
      case no: False
      then show ?thesis using run fin False full ok by (auto simp: settle_unknown_def zero_result_def)
    qed
  qed
  then show "slots_ok settings db ?now A" "ar_limitErr result = None" "ar_limited result = full"
    "ar_authErr result = Some (if full then CredentialRejected else Unauthorized)" by blast+
qed

lemma recent_admit: "k' \<noteq> k \<Longrightarrow> recent (admit_at k' t A) now k = recent A now k"
  by (simp add: recent_def admit_at_def)

lemma settle_user_log:
  assumes set: "setting_ok sha tick p c" and sim: "gate_sim settings sha c tick A0 g A full"
    and rs: "gt_reservations g = (credential, r) # rs" "reserved_at r (slot_of sha c ScopeCredential credential) t"
    and user: "uID user \<noteq> []" and run: "settle_user sha (tick (gt_calls g)) g (user, credential) = (result, db)"
  shows "ar_limitErr result = None" "ar_authErr result = None" "ar_user result = user"
    "ar_limited result \<longleftrightarrow> \<not> recent A0 (tick (gt_calls g)) (slot_of sha c ScopeAccount (uID user)) < class_limit settings c"
    "slots_ok settings db (tick (gt_calls g)) (if ar_limited result then A0
       else admit_at (slot_of sha c ScopeAccount (uID user)) (tick (gt_calls g)) (admit_at (slot_of sha c ScopeCredential credential) t A0))"
proof -
  let ?now = "tick (gt_calls g)" and ?K = "slot_of sha c ScopeCredential credential" and ?a = "slot_of sha c ScopeAccount (uID user)"
  have cls: "crRouteClass r = c" and noted: "note_reserved r A0 = admit_at ?K t A0"
    using rs(2) by (auto simp: reserved_at_def reservation_key_def slot_of_def note_reserved_def)
  have sha: "sha v \<noteq> []" and route: "crRouteClass r \<in> {ClassAuthenticatedRead, ClassAuthenticatedWrite}" for v
    using set by (auto simp: setting_ok_def cls)
  have "A = held (gt_reservations g) A0" and slots0: "slots_ok settings (gt_db g) ?now A" using sim unfolding gate_sim_def by blast+
  then have "slots_ok settings (gt_db g) ?now (note_reserved r (held rs A0))" by (simp add: rs(1))
  moreover have "\<forall>(c, res) \<in> set rs. Active res \<and> c \<noteq> credential"
  proof -
    have "distinct (map fst (gt_reservations g))" "\<forall>(c', res) \<in> set (gt_reservations g). \<exists>t. reserved_at res (slot_of sha c ScopeCredential c') t"
      using sim unfolding gate_sim_def by blast+
    then have "credential \<notin> fst ` set rs" "\<forall>x \<in> set rs. Active (snd x)" by (auto simp: rs(1) reserved_at_def)
    then show ?thesis by force
  qed
  ultimately have "slots_ok settings (cancelReservations credential rs (gt_db g)) ?now (note_reserved r A0)"
    using cancel_all by blast
  then have ok: "slots_ok settings (cancelReservations credential (gt_reservations g) (gt_db g)) ?now (note_reserved r A0)"
    by (simp add: rs(1) cancelReservations_def)
  obtain db1 d where fin: "FinalizeCredential sha (cancelReservations credential (gt_reservations g) (gt_db g)) ?now r
        (Some \<lparr>kScope = ScopeAccount, kValue = uID user\<rparr>) = Inr (db1, d)"
    and allowed: "dAllowed d \<longleftrightarrow> recent (note_reserved r A0) ?now ?a < class_limit settings c"
    and slots: "slots_ok settings db1 ?now (if dAllowed d then admit_at ?a ?now (note_reserved r A0) else take_back r (note_reserved r A0))"
    by (rule FinalizeCredential_log [where sha = sha, OF ok rs(2) sha user route, unfolded cls]) blast
  have res: "result = zero_result\<lparr>ar_user := user, ar_decision := d, ar_checked := True, ar_limited := \<not> dAllowed d\<rparr>" "db = db1"
    using run fin by (auto simp: settle_user_def rs(1))
  have "recent (note_reserved r A0) ?now ?a = recent A0 ?now ?a"
    unfolding noted by (rule recent_admit) (simp add: slot_of_def)
  then show "ar_limitErr result = None" "ar_authErr result = None" "ar_user result = user"
    "ar_limited result \<longleftrightarrow> \<not> recent A0 ?now ?a < class_limit settings c"
    using allowed by (simp_all add: res zero_result_def)
  show "slots_ok settings db ?now (if ar_limited result then A0 else admit_at ?a ?now (admit_at ?K t A0))"
    using slots by (cases "dAllowed d") (simp_all add: res noted [symmetric])
qed

subsection \<open>Properties\<close>

text \<open>
  C8: Authentication under the limiter refines its specification over the log of admitted
  requests. The credentials are tried in order: one whose window is full is passed over, one that
  stands for nobody is charged, the first other one names the user. The request is admitted, and
  charged to that credential and the account, exactly when the account's window has room; when
  it is full, every charge is taken back. The limiter never fails, and its tables go on standing
  for the log, whatever they prune.
\<close>

theorem authenticateWithLimits_refines:
  assumes "slots_ok settings (sv_limits sv) clock A" "clock \<le> rd_tick rd 0" "\<And>n. rd_tick rd n \<le> rd_tick rd (n + 1)"
    and "pg_configured p" "\<And>v. sha v \<noteq> []" "\<forall>u \<in> set (users (store (sv_auth sv))). us_id u \<noteq> []"
    and run: "authenticateWithLimits sha (Some p) rd sv r sessionOnly recordUnauthorizedOutcome = (result, sv')"
    and spec: "authenticate_spec (class_limit settings (authenticatedRouteClass r)) (slot_of sha (authenticatedRouteClass r)) (rd_tick rd)
      (session_candidates sha (sv_auth sv) (rd_now rd 0) r @
        (if sessionOnly then [] else bearer_candidates sha (sv_auth sv) (rd_now rd 1) r)) A = (verdict, A')"
  shows "(\<exists>n. slots_ok settings (sv_limits sv') (rd_tick rd n) A') \<and> ar_limitErr result = None
    \<and> (case verdict of
        Admit user \<Rightarrow> ar_authErr result = None \<and> \<not> ar_limited result \<and> ar_user result = user
      | Refuse \<Rightarrow> ar_limited result
      | Anonymous \<Rightarrow> ar_authErr result = Some Unauthorized \<and> \<not> ar_limited result)"
proof -
  let ?c = "authenticatedRouteClass r"
  let ?gate = "reserve_gate sha (rd_skip rd) (rd_tick rd) p ?c"
  let ?cs = "session_candidates sha (sv_auth sv) (rd_now rd 0) r @
      (if sessionOnly then [] else bearer_candidates sha (sv_auth sv) (rd_now rd 1) r)"
  let ?g0 = "start_gate (sv_limits sv)"
  have set: "setting_ok sha (rd_tick rd) p ?c" using assms(3-5) by (simp add: setting_ok_def authenticatedRouteClass_def)
  have start: "gate_sim settings sha ?c (rd_tick rd) A ?g0 A False"
    using slots_ok_later [OF assms(1,2)] by (simp add: gate_sim_def start_gate_def)
  obtain res g where walk: "walk ?gate ?cs False ?g0 = (res, g)" by (cases "walk ?gate ?cs False ?g0")
  obtain found full A1 n where tried: "try_credentials (class_limit settings ?c) (slot_of sha ?c ScopeCredential) (rd_tick rd) 0 ?cs False A
      = (found, full, A1, n)" by (cases "try_credentials (class_limit settings ?c) (slot_of sha ?c ScopeCredential) (rd_tick rd) 0 ?cs False A")
  have nothing_held: "fst ` set ?cs \<inter> fst ` set (gt_reservations ?g0) = {}" and zero: "gt_calls ?g0 = 0" by (simp_all add: start_gate_def)
  note sim = walk_log [OF set start zero candidate_credentials nothing_held tried walk]
  have calls: "gt_calls g = n" using sim by blast
  show ?thesis
  proof (cases found)
    case None
    then have res: "res \<in> {Inl Unauthorized, Inl CredentialRejected}" and g: "gate_sim settings sha ?c (rd_tick rd) A g A1 full"
      using sim by simp_all
    have "gt_err g = None" using g unfolding gate_sim_def by blast
    then obtain adb' where "authenticateWithLimits sha (Some p) rd sv r sessionOnly recordUnauthorizedOutcome =
        (case settle_unknown sha (rd_tick rd (gt_calls g)) ?c recordUnauthorizedOutcome g of (result, db) \<Rightarrow> (result, \<lparr>sv_auth = adb', sv_limits = db\<rparr>))"
      using authenticate_walk [OF walk, of recordUnauthorizedOutcome] res by auto
    then obtain db where settle: "settle_unknown sha (rd_tick rd (gt_calls g)) ?c recordUnauthorizedOutcome g = (result, db)"
        and db: "sv_limits sv' = db" using run by (auto split: prod.splits)
    have "verdict = (if full then Refuse else Anonymous)" "A' = A1"
      using spec tried None by (auto simp: authenticate_spec_def split: if_splits bool.splits)
    then show ?thesis using settle_unknown_log [OF set g settle] db by (cases full) auto
  next
    case (Some choice)
    obtain user credential t where choice: "choice = (user, credential, t)" by (cases choice)
    obtain q rs where res: "res = Inr (user, credential)" and member: "(credential, Some user) \<in> set ?cs"
      and rs: "gt_reservations g = (credential, q) # rs" "reserved_at q (slot_of sha ?c ScopeCredential credential) t"
      and g: "gate_sim settings sha ?c (rd_tick rd) A g (admit_at (slot_of sha ?c ScopeCredential credential) t A1) full"
      using sim Some choice by auto
    have "gt_err g = None" using g unfolding gate_sim_def by blast
    then obtain adb' where "authenticateWithLimits sha (Some p) rd sv r sessionOnly recordUnauthorizedOutcome =
        (case settle_user sha (rd_tick rd (gt_calls g)) g (user, credential) of (result, db) \<Rightarrow> (result, \<lparr>sv_auth = adb', sv_limits = db\<rparr>))"
      using authenticate_walk [OF walk, of recordUnauthorizedOutcome] res by auto
    then obtain db where settle: "settle_user sha (rd_tick rd (gt_calls g)) g (user, credential) = (result, db)"
        and db: "sv_limits sv' = db" using run by (auto split: prod.splits)
    have "uID user \<noteq> []" using candidate_users [OF assms(6) member] .
    note out = settle_user_log [OF set g rs this settle, unfolded calls]
    let ?room = "recent A (rd_tick rd n) (slot_of sha ?c ScopeAccount (uID user)) < class_limit settings ?c"
    have "verdict = (if ?room then Admit user else Refuse)" "A' = (if ?room then admit_at (slot_of sha ?c ScopeAccount (uID user)) (rd_tick rd n)
        (admit_at (slot_of sha ?c ScopeCredential credential) t A) else A)"
      using spec tried Some choice by (auto simp: authenticate_spec_def split: if_splits)
    then show ?thesis using out db by (cases ?room) auto
  qed
qed

definition wit_server :: server where
  "wit_server = \<lparr>sv_auth = ex_auth\<lparr>sessions := [\<lparr>se_user = ''u1'', se_hash = wit_sha ''tok'', se_expires = 1000\<rparr>]\<rparr>,
     sv_limits = ls_db wit_limiter\<rparr>"

definition wit_request :: request where
  "wit_request = \<lparr>hr_method = ''GET'', hr_host = ''slate.do'', hr_origin = [], hr_cookie = Some ''tok'', hr_authorization = [],
     hr_forwarded = [], hr_remote = ''192.0.2.1:443'',
     hr_path = [''api'', ''v1'', ''me''], hr_id = [], hr_query = (\<lambda>_. []), hr_idempotency = [], hr_run = []\<rparr>"

definition wit_readings :: readings where
  "wit_readings = \<lparr>rd_now = (\<lambda>_. 5), rd_tick = int, rd_skip = (\<lambda>_ _. False)\<rparr>"

theorem authenticateWithLimits_refines_witness:
  "\<exists>result sv'. authenticateWithLimits wit_sha (Some wit_pg) wit_readings wit_server wit_request True True = (result, sv')
    \<and> \<not> ar_limited result \<and> uID (ar_user result) = ''u1''"
proof -
  let ?spec = "authenticate_spec (class_limit wit_settings (authenticatedRouteClass wit_request))
      (slot_of wit_sha (authenticatedRouteClass wit_request)) (rd_tick wit_readings)
      (session_candidates wit_sha (sv_auth wit_server) (rd_now wit_readings 0) wit_request @
        (if True then [] else bearer_candidates wit_sha (sv_auth wit_server) (rd_now wit_readings 1) wit_request)) (\<lambda>_. [])"
  obtain result sv' where run: "authenticateWithLimits wit_sha (Some wit_pg) wit_readings wit_server wit_request True True = (result, sv')"
    by (cases "authenticateWithLimits wit_sha (Some wit_pg) wit_readings wit_server wit_request True True")
  have "case fst ?spec of Admit user \<Rightarrow> uID user = ''u1'' | _ \<Rightarrow> False" by code_simp
  then obtain user A' where spec: "?spec = (Admit user, A')" and user: "uID user = ''u1''"
    by (cases ?spec) (auto split: verdict.splits)
  have slots: "slots_ok wit_settings (sv_limits wit_server) 0 (\<lambda>_. [])"
    using reachable_slots(1) [OF wit_start, of 0] by (simp add: wit_server_def wit_limiter_def)
  have "\<forall>u \<in> set (users (store (sv_auth wit_server))). us_id u \<noteq> []" by (simp add: wit_server_def ex_auth_def ex_db_def)
  moreover have "pg_configured wit_pg" "\<And>v. wit_sha v \<noteq> []" by (simp_all add: wit_pg_def wit_sha_def)
  ultimately show ?thesis
    using authenticateWithLimits_refines [OF slots _ _ _ _ _ run spec] run user by (simp add: wit_readings_def)
qed

end
