(* ===== verification/SessionRules.thy ===== *)
theory SessionRules
  imports ServeRules AccountLife CredentialRules
begin

section \<open>Signing in and asking for a reset\<close>

text \<open>
  What the account endpoints promise over a sequence of requests: a session lives from the login
  to the logout or its expiry, and nobody learns from them whether an address has an account.
\<close>

subsection \<open>Session tokens survive trimming\<close>

lemma strip_one_set: "strip_one ps s = Some s' \<Longrightarrow> set s \<subseteq> \<Union> (set ` set ps) \<union> set s'"
proof (induction ps)
  case (Cons p ps)
  have "set s = set (take (length p) s) \<union> set (drop (length p) s)" by (metis append_take_drop_id set_append)
  then show ?case using Cons by (auto split: if_splits)
qed simp

lemma trim_with_set: "set s \<subseteq> \<Union> (set ` set ps) \<union> set (trim_with ps s)"
proof (induction ps s rule: trim_with.induct)
  case (1 ps s)
  show ?case
  proof (cases "strip_one ps s")
    case (Some s')
    then show ?thesis using "1.IH" strip_one_set [OF Some] by (subst trim_with.simps) auto
  qed (simp add: trim_with.simps)
qed

lemma TrimSpace_set: "set s \<subseteq> \<Union> (set ` set space_runes) \<union> set (TrimSpace s)"
  using trim_with_set [of s space_runes] trim_with_set [of "rev (trim_with space_runes s)" "map rev space_runes"]
  by (auto simp: TrimSpace_def)

lemma letter_no_space: "CHR ''s'' \<notin> \<Union> (set ` set space_runes)"
  by (simp add: space_runes_def)

lemma session_token_kept: "TrimSpace (''sess'' @ xs) \<noteq> []"
  using TrimSpace_set [of "''sess'' @ xs"] letter_no_space by auto

subsection \<open>A login\<close>

lemma createSession_InrE:
  assumes "createSession lib d adb user pw = Inr (token, expiresAt, adb')"
  obtains bytes where "dw_random d = Some bytes" "token = ''sess_'' @ EncodeToString bytes" "expiresAt = dw_now d 0 + sessionDuration"
    "CreateSession adb (uID user) pw (lb_sha lib token) expiresAt = Inr (adb', ())"
  using assms by (auto simp: createSession_def randomToken_def Let_def split: option.splits sum.splits)

lemma answer_cases:
  assumes "answer adb m = (resp, adb')"
  obtains (refused) "m = Inl resp" "adb' = adb" | (answered) "m = Inr (resp, adb')"
  using assms by (cases m) auto

lemma error_status [simp]:
  "rs_status (writeError n s) = n" "rs_status (writeCodedError n s s') = n" "rs_status (writeJSON n b) = n"
  "rs_status (writeInternalError s) = 500" "rs_status (clearSessionCookie resp) = rs_status resp"
  "rs_status (setSessionCookie t x resp) = rs_status resp" "rs_cookie (setSessionCookie t x resp) = Some (SetCookie t x)"
  by (simp_all add: writeError_def writeCodedError_def writeJSON_def writeInternalError_def clearSessionCookie_def setSessionCookie_def)

lemma guard_status: "validateAuthPost parse r = Inl resp \<Longrightarrow> rs_status resp = 405 \<or> rs_status resp = 403"
  "validateSameOrigin parse r = Inl resp \<Longrightarrow> rs_status resp = 403"
  by (auto simp: validateAuthPost_def validateSameOrigin_def require_def rbind_eq_Inl split: if_splits option.splits)

lemma Login_200:
  assumes run: "Login lib d adb r (Inr input) = (resp, adb')" and ok: "rs_status resp = 200"
  obtains u user token expiresAt where "u \<in> set (users (store adb))" "\<not> us_disabled u"
    "us_email u = normalizeEmail (lb_lower lib) (ci_Email input)" "lb_compare lib (us_password u) (ci_Password input)"
    "uID user = us_id u" "createSession lib d adb user (us_password u) = Inr (token, expiresAt, adb')"
    "rs_cookie resp = Some (SetCookie token expiresAt)"
  using run [unfolded Login_def Let_def]
proof (cases rule: answer_cases)
  case refused
  then show thesis
    using ok by (auto simp: rbind_eq_Inl createSession_def Let_def require_def FindUserByEmail_def
        dest: guard_status split: sum.splits if_splits option.splits)
next
  case answered
  then show thesis
    by (elim rbind_elims) (auto simp: FindUserByEmail_def rbind_eq_Inr user_of_row_def populateUsage_def split: sum.splits
        elim!: rbind_elims dest!: query_row_InrD, rule that [rotated -2], assumption, simp_all)
qed

lemma session_of_token:
  assumes "hr_cookie r = Some token" "token = ''sess_'' @ xs"
  shows "ResolveSessionUserFromRequestWithGate sha adb now r None () =
    (case FindUserBySessionHash adb (sha token) now of Inl err \<Rightarrow> Inl (lookup_error err) | Inr user \<Rightarrow> Inr (user, ''session:'' @ sha token), ())"
  using assms session_token_kept [of "CHR ''_'' # xs"]
  by (simp add: ResolveSessionUserFromRequestWithGate_def readSessionToken_def ask_gate_def split: sum.splits)

lemma session_found:
  assumes us: "distinct (map us_id (users (store adb)))" and u: "u \<in> set (users (store adb))" "\<not> us_disabled u"
    and new: "CreateSession adb (us_id u) pw h expires = Inr (adb', x)"
  shows "FindUserBySessionHash adb' h now = (if now < expires then Inr (user_of_row (store adb) u) else Inl ErrUnauthorized)"
    and "FindUserBySessionHash (DeleteSession adb'' h) h now' = Inl ErrUnauthorized"
proof -
  have owner: "active_owner adb (us_id u) = Some u"
  proof (cases "active_owner adb (us_id u)")
    case None
    then show ?thesis using u by (auto simp: active_owner_def find_None_iff)
  next
    case (Some v)
    then show ?thesis using active_owner_SomeD [OF Some] u us by (auto simp: distinct_map dest: inj_onD)
  qed
  have rows: "adb' = adb\<lparr>sessions := sessions adb @ [\<lparr>se_user = us_id u, se_hash = h, se_expires = expires\<rparr>]\<rparr>"
    "h \<notin> set (map se_hash (sessions adb))"
    using new unfolding CreateSession_def insert_session_def
    by (auto elim!: rbind_elims dest!: query_row_InrD)
  have fresh: "\<not> (se_hash s = h \<and> now < se_expires s)" if "s \<in> set (sessions adb)" for s
    using rows(2) that by auto
  have "List.find (\<lambda>s. se_hash s = h \<and> now < se_expires s) (sessions adb') =
      (if now < expires then Some \<lparr>se_user = us_id u, se_hash = h, se_expires = expires\<rparr> else None)"
    by (simp add: rows(1) find_appended [OF fresh])
  then show "FindUserBySessionHash adb' h now = (if now < expires then Inr (user_of_row (store adb) u) else Inl ErrUnauthorized)"
    using owner by (simp add: FindUserBySessionHash_def active_owner_def rows(1))
  show "FindUserBySessionHash (DeleteSession adb'' h) h now' = Inl ErrUnauthorized"
    by (auto simp: FindUserBySessionHash_def DeleteSession_def delete_where_def find_None_iff split: option.splits dest!: find_SomeD)
qed

lemma Logout_200:
  assumes "rs_status (fst (Logout lib adb r)) = 200" "readSessionToken r = Some token"
  shows "snd (Logout lib adb r) = DeleteSession adb (lb_sha lib token)"
proof (cases "validateSameOrigin (lb_origin lib) r")
  case (Inl resp)
  then show ?thesis using assms guard_status(2) [OF Inl] by (simp add: Logout_def)
next
  case (Inr x)
  then show ?thesis using assms(2) by (simp add: Logout_def)
qed

subsection \<open>Requests for a reset\<close>

text \<open>No enabled account of the address has the password.\<close>

definition rejected :: "library \<Rightarrow> auth_db \<Rightarrow> credentialsInput \<Rightarrow> bool" where
  "rejected lib adb input \<longleftrightarrow> (\<forall>u \<in> set (users (store adb)). us_email u = normalizeEmail (lb_lower lib) (ci_Email input) \<longrightarrow>
     \<not> us_disabled u \<longrightarrow> \<not> lb_compare lib (us_password u) (ci_Password input))"

lemma rejected_find:
  "rejected lib adb input \<Longrightarrow> FindUserByEmail adb (normalizeEmail (lb_lower lib) (ci_Email input)) = Inr (user, pw) \<Longrightarrow>
    \<not> lb_compare lib pw (ci_Password input)"
  by (auto simp: FindUserByEmail_def rejected_def elim!: rbind_elims dest!: query_row_InrD)

lemma find_email_error: "FindUserByEmail adb email = Inl err \<Longrightarrow> err = ErrInvalidAuth"
  by (auto simp: FindUserByEmail_def rbind_eq_Inl dest: query_row_InlD)

lemma Login_rejected:
  assumes "rejected lib adb input"
  shows "Login lib d adb r (Inr input) = answer adb
    (rbind (validateAuthPost (lb_origin lib) r) (\<lambda>_.
     rbind (require (\<not> (normalizeEmail (lb_lower lib) (ci_Email input) = [] \<or> ci_Password input = []))
       (writeError 400 ''email and password are required'')) (\<lambda>_.
     Inl (writeError 401 ''invalid email or password''))))"
  using rejected_find [OF assms]
  by (auto simp: Login_def Let_def require_def rbind_def split: sum.splits dest: find_email_error)

text \<open>The part of the handler after its checks, which looks at two tables only.\<close>

definition count_and_queue :: "library \<Rightarrow> draws \<Rightarrow> request \<Rightarrow> string \<Rightarrow> auth_db \<Rightarrow> auth_db" where
  "count_and_queue lib d r email adb =
     (case ConsumePasswordResetAttempt (dw_attempts d) adb (ip_hash lib r) (lb_sha lib email) (dw_now d 0) passwordResetWindow
             passwordResetLimit of
        Inl _ \<Rightarrow> adb
      | Inr (adb1, Some _) \<Rightarrow> adb1
      | Inr (adb1, None) \<Rightarrow>
          (case QueuePasswordResetRequest adb1 (dw_tx d) (dw_fresh d) email (dw_now d 1) of Inl _ \<Rightarrow> adb1 | Inr (adb2, _) \<Rightarrow> adb2))"

definition reset_checks :: "library \<Rightarrow> Service \<Rightarrow> request \<Rightarrow> (response, string) result \<Rightarrow> (response, string) result" where
  "reset_checks lib s r decoded =
     rbind (validateAuthPost (lb_origin lib) r) (\<lambda>_.
     rbind decoded (\<lambda>input.
     let email = normalizeEmail (lb_lower lib) input in
     rbind (ByteLimit ''email'' email EmailBytes) (\<lambda>_.
     rbind (require (\<not> (email = [] \<or> \<not> validEmail lib email)) (writeError 400 ''enter a valid email address'')) (\<lambda>_.
     rbind (require (\<not> (\<not> sc_sender s \<or> sc_appBaseURL s = [])) (writeError 503 ''password reset is temporarily unavailable'')) (\<lambda>_.
     Inr email)))))"

lemma rbind_assoc: "rbind (rbind m f) g = rbind m (\<lambda>x. rbind (f x) g)"
  by (cases m) simp_all

lemma RequestPasswordReset_parts:
  "RequestPasswordReset lib s d adb r decoded =
     answer adb (rbind (reset_checks lib s r decoded) (\<lambda>email. Inr (writePasswordResetAccepted, count_and_queue lib d r email adb)))"
proof -
  have tail: "(case m of Inl _ \<Rightarrow> Inr (x, adb) | Inr (adb1, Some _) \<Rightarrow> Inr (x, adb1)
      | Inr (adb1, None) \<Rightarrow> (case q adb1 of Inl _ \<Rightarrow> Inr (x, adb1) | Inr (adb2, _) \<Rightarrow> Inr (x, adb2))) =
    Inr (x, case m of Inl _ \<Rightarrow> adb | Inr (adb1, Some _) \<Rightarrow> adb1
      | Inr (adb1, None) \<Rightarrow> (case q adb1 of Inl _ \<Rightarrow> adb1 | Inr (adb2, _) \<Rightarrow> adb2))"
    for m :: "int option auth_tx" and q :: "auth_db \<Rightarrow> unit auth_tx" and x :: response
    by (simp split: sum.split option.split prod.split)
  show ?thesis
    unfolding RequestPasswordReset_def reset_checks_def count_and_queue_def Let_def rbind_assoc tail by (simp only: rbind_Inr)
qed

lemma count_and_queue_same:
  assumes "reset_limits a = reset_limits b" "reset_requests a = reset_requests b"
  shows "\<exists>limits requests. count_and_queue lib d r email a = a\<lparr>reset_limits := limits, reset_requests := requests\<rparr>
      \<and> count_and_queue lib d r email b = b\<lparr>reset_limits := limits, reset_requests := requests\<rparr>"
proof (cases "consumeRateLimit (dw_attempts d) (reset_limits b) [(''ip'', ip_hash lib r), (''email'', lb_sha lib email)] (dw_now d 0)
    passwordResetWindow passwordResetLimit")
  case (Inl err)
  then show ?thesis
    using assms by (intro exI [of _ "reset_limits a"] exI [of _ "reset_requests a"])
      (simp add: count_and_queue_def ConsumePasswordResetAttempt_def)
next
  case (Inr out)
  obtain limits wait where out: "out = (limits, wait)" by (cases out)
  let ?new = "\<lparr>rr_id = dw_fresh d, rr_email = email, rr_available = dw_now d 1, rr_claimed = None, rr_attempts = 0, rr_processed = None,
      rr_created = dw_tx d\<rparr>"
  have "count_and_queue lib d r email adb = adb\<lparr>reset_limits := limits, reset_requests :=
      (if wait = None \<and> dw_fresh d \<notin> set (map rr_id (reset_requests b)) then reset_requests b @ [?new] else reset_requests b)\<rparr>"
    if "reset_limits adb = reset_limits b" "reset_requests adb = reset_requests b" for adb
    using that Inr out
    by (cases wait; cases "dw_fresh d \<in> set (map rr_id (reset_requests b))")
      (simp_all add: count_and_queue_def ConsumePasswordResetAttempt_def QueuePasswordResetRequest_def require_def)
  then show ?thesis using assms by blast
qed

lemma ask_for_reset:
  assumes "reset_limits a = reset_limits b" "reset_requests a = reset_requests b"
  shows "fst (RequestPasswordReset lib s d a r decoded) = fst (RequestPasswordReset lib s d b r decoded)"
    and "\<exists>limits requests. snd (RequestPasswordReset lib s d a r decoded) = a\<lparr>reset_limits := limits, reset_requests := requests\<rparr>
      \<and> snd (RequestPasswordReset lib s d b r decoded) = b\<lparr>reset_limits := limits, reset_requests := requests\<rparr>"
proof -
  have refl: "a\<lparr>reset_limits := reset_limits a, reset_requests := reset_requests a\<rparr> = a"
    "b\<lparr>reset_limits := reset_limits a, reset_requests := reset_requests a\<rparr> = b" using assms by simp_all
  show "fst (RequestPasswordReset lib s d a r decoded) = fst (RequestPasswordReset lib s d b r decoded)"
    by (cases "reset_checks lib s r decoded") (simp_all add: RequestPasswordReset_parts)
  show "\<exists>limits requests. snd (RequestPasswordReset lib s d a r decoded) = a\<lparr>reset_limits := limits, reset_requests := requests\<rparr>
      \<and> snd (RequestPasswordReset lib s d b r decoded) = b\<lparr>reset_limits := limits, reset_requests := requests\<rparr>"
    using count_and_queue_same [OF assms] refl
    by (cases "reset_checks lib s r decoded") (auto simp: RequestPasswordReset_parts intro!: exI [of _ "reset_limits a"] exI [of _ "reset_requests a"])
qed

subsection \<open>Properties\<close>

text \<open>
  C6: A session lives from the login to its expiry or the logout. A login that succeeds found an
  enabled account whose password matches and set a cookie for thirty days; in the database it
  leaves, the cookie resolves until then to exactly that account, afterwards to nobody. After a logout with the cookie, whatever
  the database has become, it resolves to nobody either.
\<close>

theorem Login_session:
  assumes inv: "account_inv e adb" and run: "Login lib d adb r (Inr input) = (resp, adb')" and ok: "rs_status resp = 200"
  shows "\<exists>u \<in> set (users (store adb)). \<exists>token. rs_cookie resp = Some (SetCookie token (dw_now d 0 + sessionDuration))
    \<and> \<not> us_disabled u \<and> us_email u = normalizeEmail (lb_lower lib) (ci_Email input) \<and> lb_compare lib (us_password u) (ci_Password input)
    \<and> (\<forall>r' now. hr_cookie r' = Some token \<longrightarrow> fst (ResolveSessionUserFromRequestWithGate (lb_sha lib) adb' now r' None ()) =
         (if now < dw_now d 0 + sessionDuration then Inr (user_of_row (store adb) u, ''session:'' @ lb_sha lib token) else Inl Unauthorized))
    \<and> (\<forall>adb2 r1 r2 now. hr_cookie r1 = Some token \<longrightarrow> hr_cookie r2 = Some token \<longrightarrow> rs_status (fst (Logout lib adb2 r1)) = 200 \<longrightarrow>
         fst (ResolveSessionUserFromRequestWithGate (lb_sha lib) (snd (Logout lib adb2 r1)) now r2 None ()) = Inl Unauthorized)"
proof -
  obtain u user token expires where u: "u \<in> set (users (store adb))" "\<not> us_disabled u"
      "us_email u = normalizeEmail (lb_lower lib) (ci_Email input)" "lb_compare lib (us_password u) (ci_Password input)" "uID user = us_id u"
    and made: "createSession lib d adb user (us_password u) = Inr (token, expires, adb')" and cookie: "rs_cookie resp = Some (SetCookie token expires)"
    using Login_200 [OF run ok] by blast
  from made obtain bytes where token: "token = ''sess_'' @ EncodeToString bytes" and ex: "expires = dw_now d 0 + sessionDuration"
    and new: "CreateSession adb (us_id u) (us_password u) (lb_sha lib token) expires = Inr (adb', ())"
    by (rule createSession_InrE) (auto simp: u(5))
  have "distinct (map us_id (users (store adb)))" using inv by (simp add: account_inv_def users_ok_def)
  note found = session_found [OF this u(1,2) new]
  have reads: "readSessionToken r' = Some token" if "hr_cookie r' = Some token" for r'
    using that session_token_kept [of "CHR ''_'' # EncodeToString bytes"] by (simp add: readSessionToken_def token)
  show ?thesis
    using u cookie ex found Logout_200 [OF _ reads] token
    by (intro bexI [OF _ u(1)] exI [of _ token]) (auto simp: session_of_token [OF _ token] lookup_error_def)
qed

theorem Login_session_witness:
  "\<exists>resp adb'. Login ex_library ex_draws ex_auth (ex_request ''POST'' [''auth'', ''login''] []) (Inr \<lparr>ci_Email = ''ann@example.org'', ci_Password = ''pw1''\<rparr>)
      = (resp, adb') \<and> (\<exists>token. rs_cookie resp = Some (SetCookie token (9 + sessionDuration)))"
proof -
  let ?run = "Login ex_library ex_draws ex_auth (ex_request ''POST'' [''auth'', ''login''] []) (Inr \<lparr>ci_Email = ''ann@example.org'', ci_Password = ''pw1''\<rparr>)"
  obtain resp adb' where run: "?run = (resp, adb')" by (cases ?run)
  have "rs_status (fst ?run) = 200" by code_simp
  then have ok: "rs_status resp = 200" by (simp add: run)
  show ?thesis using Login_session [OF ex_account_inv run ok] run by (auto simp: ex_draws_def)
qed

text \<open>
  C7: The account endpoints do not tell whether an address has an account. A request for a
  password reset is answered, counted and queued the same way over any two sets of accounts, and
  touches nothing else; a login that is rejected is answered the same way whether the address is
  unknown, disabled or has another password, and changes nothing.
\<close>

theorem addresses_not_revealed:
  assumes "reset_limits a = reset_limits b" "reset_requests a = reset_requests b" and "rejected lib a input" "rejected lib b input"
  shows "fst (RequestPasswordReset lib s d a r decoded) = fst (RequestPasswordReset lib s d b r decoded)
    \<and> (\<exists>limits requests. snd (RequestPasswordReset lib s d a r decoded) = a\<lparr>reset_limits := limits, reset_requests := requests\<rparr>
         \<and> snd (RequestPasswordReset lib s d b r decoded) = b\<lparr>reset_limits := limits, reset_requests := requests\<rparr>)
    \<and> fst (Login lib d a r (Inr input)) = fst (Login lib d b r (Inr input)) \<and> snd (Login lib d a r (Inr input)) = a"
  using ask_for_reset [OF assms(1,2)] Login_rejected [OF assms(3)] Login_rejected [OF assms(4)]
  by (auto simp: rbind_def require_def split: sum.splits)

theorem addresses_not_revealed_witness:
  "fst (RequestPasswordReset ex_library (wl_service ex_world) ex_draws (ex_auth\<lparr>reset_requests := []\<rparr>) (ex_request ''POST'' [''auth''] []) (Inr ''ann@example.org''))
    = fst (RequestPasswordReset ex_library (wl_service ex_world) ex_draws empty_auth (ex_request ''POST'' [''auth''] []) (Inr ''ann@example.org''))"
proof -
  have same: "reset_limits (ex_auth\<lparr>reset_requests := []\<rparr>) = reset_limits empty_auth"
    "reset_requests (ex_auth\<lparr>reset_requests := []\<rparr>) = reset_requests empty_auth"
    by (simp_all add: ex_auth_def empty_auth_def)
  have wrong: "rejected ex_library (ex_auth\<lparr>reset_requests := []\<rparr>) \<lparr>ci_Email = ''ann@example.org'', ci_Password = ''guess''\<rparr>"
    "rejected ex_library empty_auth \<lparr>ci_Email = ''ann@example.org'', ci_Password = ''guess''\<rparr>"
    by (simp_all add: rejected_def ex_auth_def empty_auth_def ex_db_def ex_library_def)
  show ?thesis using addresses_not_revealed [OF same wrong] by blast
qed

end
