(* ===== verification/Spec2Isabelle.thy ===== *)
theory Spec2Isabelle
  imports Prompt Commands LimiterRules AttemptWindows SearchRules CleanupRules WatchRules AuthenticateRules SessionRules
begin

text \<open>
  A verification development for Slate: a server that keeps lists of tasks for people and their
  agents (\<open>src/server\<close>), and a command line client whose watcher runs agents on queued tasks
  (\<open>src/cli\<close>). The definitions that model the program are translations of Go code under
  \<open>src/\<close>, or of an SQL statement in it, and keep its names where Isabelle allows.

  \<^bold>\<open>The program and the theories.\<close>

  The server's tables are one state, the record \<open>db\<close> of \<open>Schema\<close> for the boards, inside
  \<open>auth_db\<close> of \<open>Accounts\<close> for accounts, sessions, tokens, agents and attempts. A store operation is
  one transaction: a function from the state, the clock and the identifiers that it draws to an
  error or a result and the new state. Handlers call the stores, the router calls handlers behind
  guards, the guards authenticate under the rate limiter, and the client's requests go through the
  router. The theories follow that order.

  \<^item> Foundations. \<open>Prelude\<close>: results, lists updated by key, counting. \<open>GoStrings\<close> and \<open>GoFlags\<close>: what
    the code uses of \<open>strings\<close>, \<open>strconv\<close>, \<open>flag\<close> and \<open>net/url\<close>, on byte strings. \<open>Systems\<close>,
    \<open>Ordering\<close> and \<open>Keyset\<close>: the three interfaces below.
  \<^item> Plans and quotas. \<open>Entitlements\<close> (\<open>entitlements.go\<close>), \<open>StorageQuota\<close> (\<open>storage_quota.go\<close>).
  \<^item> Boards (\<open>boards/types.go\<close>, \<open>boards/store.go\<close>). \<open>Schema\<close>: structs, errors, rows. \<open>Lists\<close>: lists,
    the Inbox and the default lists. \<open>Tasks\<close>: validation and \<open>CreateTask\<close>. \<open>TaskOrder\<close>: moving,
    reordering and claiming. \<open>TaskUpdate\<close>: \<open>updateTask\<close> and deletion. \<open>Entries\<close>: the conversation of
    a task. \<open>Cursors\<close> and \<open>Paging\<close>: the cursors and the queries behind the list endpoints.
  \<^item> Accounts (\<open>auth/pgstore.go\<close>, \<open>agents/store.go\<close>). \<open>Accounts\<close>: sign-up, sessions, personal
    tokens, resets, the reset worker's queue. \<open>Agents\<close>: agents, credentials, reports on work.
  \<^item> Limiter (\<open>ratelimit.go\<close>). \<open>RateLimit\<close>: the sliding window, reservations, the metrics table.
  \<^item> HTTP server. \<open>Authenticate\<close> and \<open>AuthService\<close> (\<open>auth/auth.go\<close>, \<open>httpapi/request.go\<close>),
    \<open>AgentHandlers\<close> (\<open>agents/handler.go\<close>), \<open>BoardHandlers\<close> (\<open>boards/handler.go\<close>), \<open>App\<close>
    (\<open>server/app.go\<close>: guards), \<open>Static\<close> (\<open>server/static.go\<close>), \<open>Routes\<close> (\<open>server/app.go\<close>: the route
    table and \<open>serve\<close>, a whole request).
  \<^item> Operation. \<open>Config\<close> (\<open>config.go\<close>), \<open>Capacity\<close> (\<open>database.go\<close>), \<open>Migrations\<close>
    (\<open>migrations.go\<close>), \<open>Retention\<close> and \<open>Cleanup\<close> (\<open>cleanup.go\<close>: the retention rules with the bounded
    delete on every table, and the job), \<open>Commands\<close> (\<open>server/cmd/slate/main.go\<close>).
  \<^item> Client. \<open>Backoff\<close> (\<open>backoff.go\<close>), \<open>CommandLine\<close> (\<open>main.go\<close>, \<open>api.go\<close>), \<open>Registry\<close>
    (\<open>registry.go\<close>, \<open>gitrepo.go\<close>, \<open>runs.go\<close>), \<open>Watch\<close> (\<open>watch.go\<close>), \<open>Prompt\<close> (\<open>prompt.go\<close>).

  The remaining theories hold the proofs: \<open>StoreInvariant\<close>, \<open>BoardSystem\<close>, \<open>AccountSystem\<close> and
  \<open>ServeSteps\<close> the invariants and the step relations, \<open>LimiterWindow\<close> the limiter with its history,
  \<open>Example\<close> the concrete state of many witnesses, and the theories named \<open>...Rules\<close>, \<open>AccountLife\<close>
  and \<open>AttemptWindows\<close> the properties that build on them.

  \<^bold>\<open>Interfaces.\<close>

  \<open>invariant_system\<close> is the contract of a system of transactions: each step keeps the invariant. It
  is interpreted as \<open>slate\<close> on the account system, which takes in every board transaction through
  \<open>board_step\<close> and every batch of the cleanup through \<open>clean_up\<close>; as \<open>web\<close> on the server, whose requests,
  turns of the reset worker and operator's transactions are paths of that system; as \<open>limiter\<close> on
  the rate limiter; and as \<open>deployment\<close> on the processes that share a database. \<open>ordered_rows\<close> is the
  contract of rows shown by position, creation time and identifier; lists and tasks interpret it,
  and it gives that writing positions along a list of identifiers makes that list the shown order.
  \<open>cursor_pages\<close> is the contract between a client that follows cursors and an endpoint: the fetch
  returns the rows after a mark in one strict order. The task and inbox queries interpret it; it
  gives that reading all pages returns every row once, in order.

  \<^bold>\<open>What the lemmas show.\<close>

  \<^item> State. Every transaction of boards and accounts keeps \<open>account_inv\<close>: keys are unique, references
    exist, workflow fields fit together, the storage counters equal what is stored, open sessions
    and active tokens belong to enabled accounts, each member has exactly one Inbox. The server
    refines that system: any sequence of requests and operator's transactions is a sequence of
    committed transactions, and so is every run of a command (\<open>run_command_path\<close>).
  \<^item> Access. An agent's credential changes only the work assigned to the agent; a reset link works
    once; disabling a member kills every key for good; a login's cookie stands for its account until
    logout or expiry; answers and tables do not tell whether an address has an account. The
    authentication under the limiter refines a specification over the log of admitted requests.
  \<^item> Work. A queued task goes to one worker; retries under an idempotency key return the first
    result and change nothing; quotas hold, counted over the tables; moves, reorders, deletions and
    updates do exactly what was asked and leave other rows alone.
  \<^item> Reading. Pages are complete and free of duplicates for every order, page size and filter.
  \<^item> Limits. At most the limit in each window, the announced retry time is exact, attempts are
    bounded over any period, a reservation taken back restores the state.
  \<^item> Operation. A checked configuration keeps the deployment inside the connections it is allowed,
    however many processes serve, and while no more serve than configured every server gets its
    slot; a migration run does to the tables what the pending files do, once; a cleanup run ends
    and deletes only what its rules allow and the rotations of credentials that went with it;
    seeding twice is harmless.
  \<^item> Client. Every request arrives at the route its command names, with the identifier unchanged; the
    error text that is shown hides the token; every command the prompt suggests is one the client
    accepts. The watcher keeps a record of every worktree unless it reports otherwise,
    discards one only when the run has ended and was never seen to hold or write to
    its task, and stops after at most five failures in a row.

  \<^bold>\<open>Integers, bounds and recursion.\<close>

  Go's 64-bit counters, sizes and times are \<open>int\<close>, where the inputs that reach them are bounded (by the
  body limit, by a configuration or by an \<open>int4\<close> column) far below the overflow; a place where the code
  converts, compares with a bound or fails on an overflow is written out: \<open>to_int32\<close> in \<open>Config\<close>, the
  wrap-around in \<open>ParseDuration\<close>, the limits of \<open>Atoi\<close>, the \<open>int4\<close> columns and their errors.
  Bytes are \<open>char\<close>. Times are integers of the unit the code compares in.

  Loops are structural recursion or \<open>function\<close> with a measure. Fuel is used where the loop follows
  another component: \<open>read_pages\<close> takes one unit per page, and \<open>cursor_pages\<close> proves that as many as
  there are rows are enough; the cleanup loop takes one per pass, and \<open>RunWithBudget_ends\<close> proves that
  the row budget is enough, so that \<open>cw_fuel\<close> of a command's world stands for no behaviour of the
  program (\<open>cleanup_reports\<close>). The watcher's loops consume a script of what happens outside it, an
  inspection or a round at a time; the theorems hold for every script.

  \<^bold>\<open>Parameters.\<close>

  Code that is not in the repository is an argument of the definitions: \<open>library\<close> and the records
  beside it hold SHA-256, bcrypt, \<open>mail.ParseAddress\<close>, SQL's \<open>lower\<close>, the random identifiers and the
  clock; \<open>url.Parse\<close>, \<open>netip\<close>, the HTTP transport and the executor's answers are further arguments. What
  a property needs of them is a hypothesis with a concrete instance in its witness. The JSON text
  of a cursor, RFC 3339 and the filter's hash satisfy \<open>codec_ok\<close>, that decoding inverts encoding. A
  JSON body is the decoded value; \<open>DecodeJSON\<close> is modelled from the decoder's outcome. The floating
  point part of \<open>ParseDuration\<close> and of the backoff's jitter are functions. Go ranges over maps in no
  fixed order: that order is an argument in \<open>Validate\<close>; the limiter's reservations are taken in the order
  of a list.

  \<^bold>\<open>Not modelled.\<close>

  \<^item> Transactions follow one another. The code locks the account, the list or the task before it reads
    what it decides on, and the development takes that serialization as given; failures of the
    database inside a handler, which only become a 500 or a 503, are not branches of the handlers.
    \<open>Capacity\<close> has the errors that count as a lack of capacity and how they are answered.
  \<^item> \<open>server/timeout.go\<close>, \<open>auth/resend.go\<close> and \<open>web/web.go\<close>: a time limit around a handler, the mail
    service's HTTP call, the embedded files. The reset worker's ticker; its turns are modelled.
  \<^item> \<open>process_unix.go\<close> and \<open>process_other.go\<close>: file locks and process groups, whose outcomes are part of
    the watcher's scripts. Waiting, logging, the text of help pages and the JSON encoding of
    responses, which are values.
  \<^item> Redirects of \<open>ServeMux\<close> and the answers of \<open>http.FileServer\<close> beyond the choice of the file.
  \<^item> TypeScript, shell and deployment files of the repository.
\<close>

end
